(* ===== verification/Prelude.thy ===== *)
theory Prelude
  imports Complex_Main "HOL-Library.Product_Lexorder"
begin

text \<open>
  What every component of the TOMIRIS development shares: the types of identifiers and
  instants, Python's dynamic values, dictionaries kept as association lists, the textual
  forms of UUIDs and timestamps, and keyed row lists, which model the tables and the
  in-process dictionaries of the program.

  Conventions. An instant is an \<open>int\<close>, the number of microseconds since the Unix epoch
  in UTC: the resolution of Python's \<open>datetime\<close>.  A UUID is the \<open>nat\<close> of its 128 bits,
  so that the database's order on UUIDs is the order on \<open>nat\<close>.  A string is HOL's
  \<open>string\<close>.
\<close>

section \<open>Collections of facts\<close>

named_theorems row_simps "evaluation of lookups and updates on keyed rows"
named_theorems row_rel "row relations preserved by updates"

section \<open>Types\<close>

type_synonym uuid = nat
type_synonym instant = int
type_synonym duration = int

abbreviation us_per_second :: int where
  "us_per_second \<equiv> 1000000"

text \<open>\<open>timedelta(seconds=n)\<close> for an integer number of seconds.\<close>

abbreviation seconds :: "int \<Rightarrow> duration" where
  "seconds n \<equiv> n * us_per_second"

section \<open>Dynamic values\<close>

text \<open>
  The values that can reach the JSON validator.  \<open>PyMap\<close> is any \<open>Mapping\<close>, \<open>PySeq\<close> any
  \<open>Sequence\<close> that is neither text nor bytes, \<open>PyBytes\<close> is \<open>bytes\<close> or \<open>bytearray\<close> and
  \<open>PyOther\<close> an object of any other class.
\<close>

datatype pyval =
    PyNone
  | PyBool bool
  | PyInt int
  | PyFloat rat
  | PyStr string
  | PyBytes "nat list"
  | PySeq "pyval list"
  | PyMap "(pyval \<times> pyval) list"
  | PyOther

text \<open>PostgreSQL's text, inside JSON as well, cannot hold the character zero.\<close>

definition postgres_text :: "string \<Rightarrow> bool" where
  "postgres_text s \<longleftrightarrow> CHR 0x00 \<notin> set s"

fun postgres_json :: "pyval \<Rightarrow> bool" where
  "postgres_json (PyStr s) = postgres_text s"
| "postgres_json (PySeq vs) = list_all postgres_json vs"
| "postgres_json (PyMap kvs) = list_all (\<lambda>kv. postgres_json (fst kv) \<and> postgres_json (snd kv)) kvs"
| "postgres_json _ = True"

definition optional_text :: "string option \<Rightarrow> bool" where
  "optional_text t \<longleftrightarrow> (case t of None \<Rightarrow> True | Some s \<Rightarrow> postgres_text s)"

text \<open>A dictionary with string keys, in insertion order.\<close>

type_synonym dict = "(string \<times> pyval) list"

text \<open>\<open>d[k] = v\<close>: an existing key keeps its position, a new one goes last.\<close>

fun dict_set :: "'k \<Rightarrow> 'v \<Rightarrow> ('k \<times> 'v) list \<Rightarrow> ('k \<times> 'v) list" where
  "dict_set k v [] = [(k, v)]"
| "dict_set k v ((k', v') # d) = (if k = k' then (k, v) # d else (k', v') # dict_set k v d)"

text \<open>\<open>d.update(e)\<close>.\<close>

definition dict_update :: "('k \<times> 'v) list \<Rightarrow> ('k \<times> 'v) list \<Rightarrow> ('k \<times> 'v) list" where
  "dict_update d e = fold (\<lambda>(k, v). dict_set k v) e d"

text \<open>\<open>del d[k]\<close> for a key that is present.\<close>

definition dict_del :: "'k \<Rightarrow> ('k \<times> 'v) list \<Rightarrow> ('k \<times> 'v) list" where
  "dict_del k d = filter (\<lambda>e. fst e \<noteq> k) d"

lemma map_of_dict_set [simp]: "map_of (dict_set k v d) = (map_of d)(k \<mapsto> v)"
  by (induction d rule: dict_set.induct) (auto simp: fun_upd_twist)

lemma map_of_dict_del [simp]: "map_of (dict_del k d) x = (if x = k then None else map_of d x)"
  by (induction d) (auto simp: dict_del_def)

lemma keys_dict_set: "fst ` set (dict_set k v d) = insert k (fst ` set d)"
  by (induction d rule: dict_set.induct) auto

lemma distinct_dict_set: "distinct (map fst d) \<Longrightarrow> distinct (map fst (dict_set k v d))"
proof (induction d rule: dict_set.induct)
  case (1 k v)
  show ?case by simp
next
  case (2 k v k' v' d)
  then have "k \<noteq> k' \<Longrightarrow> k' \<notin> fst ` set (dict_set k v d)"
    by (auto simp: keys_dict_set)
  with 2 show ?case by auto
qed

lemma distinct_dict_del: "distinct (map fst d) \<Longrightarrow> distinct (map fst (dict_del k d))"
  by (auto simp: dict_del_def distinct_map_filter)

lemma length_dict_set:
  "length (dict_set k v d) = (if k \<in> fst ` set d then length d else Suc (length d))"
  by (induction d rule: dict_set.induct) auto

section \<open>Textual forms\<close>

definition digit_char :: "nat \<Rightarrow> char" where
  "digit_char d = (if d < 10 then char_of (48 + d) else char_of (87 + d))"

text \<open>The \<open>n\<close> lowest digits of \<open>v\<close> in base \<open>b\<close>, most significant first.\<close>

fun digits_fixed :: "nat \<Rightarrow> nat \<Rightarrow> nat \<Rightarrow> string" where
  "digits_fixed b 0 v = []"
| "digits_fixed b (Suc n) v = digits_fixed b n (v div b) @ [digit_char (v mod b)]"

lemma length_digits_fixed [simp]: "length (digits_fixed b n v) = n"
  by (induction n arbitrary: v) auto

text \<open>\<open>str(uuid)\<close>: 32 lower-case hexadecimal digits grouped 8-4-4-4-12.\<close>

definition uuid_str :: "uuid \<Rightarrow> string" where
  "uuid_str u =
     digits_fixed 16 8 (u div 2 ^ 96) @ ''-'' @ digits_fixed 16 4 (u div 2 ^ 80) @ ''-'' @
     digits_fixed 16 4 (u div 2 ^ 64) @ ''-'' @ digits_fixed 16 4 (u div 2 ^ 48) @ ''-'' @
     digits_fixed 16 12 u"

text \<open>Days since the epoch as a proleptic Gregorian date (year, month, day).\<close>

definition civil_of_days :: "int \<Rightarrow> int \<times> int \<times> int" where
  "civil_of_days z0 =
     (let z = z0 + 719468;
          era = z div 146097;
          doe = z mod 146097;
          yoe = (doe - doe div 1460 + doe div 36524 - doe div 146096) div 365;
          doy = doe - (365 * yoe + yoe div 4 - yoe div 100);
          mp = (5 * doy + 2) div 153;
          d = doy - (153 * mp + 2) div 5 + 1;
          m = (if mp < 10 then mp + 3 else mp - 9)
      in (yoe + era * 400 + (if m \<le> 2 then 1 else 0), m, d))"

text \<open>\<open>datetime.isoformat()\<close> of an aware UTC instant; microseconds only when non-zero.\<close>

definition isoformat :: "instant \<Rightarrow> string" where
  "isoformat t =
     (let days = t div (86400 * us_per_second);
          (y, m, d) = civil_of_days days;
          sod = (t mod (86400 * us_per_second)) div us_per_second;
          us = t mod us_per_second;
          two = (\<lambda>i. digits_fixed 10 2 (nat i))
      in digits_fixed 10 4 (nat y) @ ''-'' @ two m @ ''-'' @ two d @ ''T'' @
         two (sod div 3600) @ '':'' @ two (sod mod 3600 div 60) @ '':'' @ two (sod mod 60) @
         (if us = 0 then [] else ''.'' @ digits_fixed 10 6 (nat us)) @ ''+00:00'')"

lemma isoformat_epoch_day: "isoformat (1700000000 * 1000000) = ''2023-11-14T22:13:20+00:00''"
  by code_simp

text \<open>\<open>str(n)\<close> of a non-negative integer.\<close>

fun nat_str :: "nat \<Rightarrow> string" where
  "nat_str n = (if n < 10 then [digit_char n] else nat_str (n div 10) @ [digit_char (n mod 10)])"

declare nat_str.simps [simp del]

definition int_str :: "int \<Rightarrow> string" where
  "int_str i = (if i < 0 then ''-'' @ nat_str (nat (- i)) else nat_str (nat i))"

text \<open>\<open>s.rstrip("/")\<close>\<close>

definition rstrip_slash :: "string \<Rightarrow> string" where
  "rstrip_slash s = rev (dropWhile (\<lambda>c. c = CHR ''/'') (rev s))"

text \<open>\<open>sep.join(texts)\<close> for a separator of one character\<close>

fun join_with :: "char \<Rightarrow> string list \<Rightarrow> string" where
  "join_with sep [] = []"
| "join_with sep [x] = x"
| "join_with sep (x # y # ys) = x @ sep # join_with sep (y # ys)"

section \<open>Keyed rows\<close>

text \<open>
  A table is the list of its rows in storage order.  \<open>row_get\<close> is a primary-key lookup
  (\<open>session.get\<close>), \<open>row_put\<close> writes a mutated row object back at flush, and an insert appends.
\<close>

definition row_get :: "('r \<Rightarrow> 'k) \<Rightarrow> 'k \<Rightarrow> 'r list \<Rightarrow> 'r option" where
  "row_get key k rs = find (\<lambda>r. key r = k) rs"

definition row_put :: "('r \<Rightarrow> 'k) \<Rightarrow> 'r \<Rightarrow> 'r list \<Rightarrow> 'r list" where
  "row_put key r rs = map (\<lambda>x. if key x = key r then r else x) rs"

lemma row_get_Nil [simp]: "row_get key k [] = None"
  by (simp add: row_get_def)

lemma row_get_Cons [simp]:
  "row_get key k (r # rs) = (if key r = k then Some r else row_get key k rs)"
  by (simp add: row_get_def)

lemma row_put_Nil [simp]: "row_put key r [] = []"
  by (simp add: row_put_def)

lemma row_put_Cons [simp]:
  "row_put key r (x # xs) = (if key x = key r then r else x) # row_put key r xs"
  by (simp add: row_put_def)

lemma row_get_append:
  "row_get key k (xs @ ys) = (case row_get key k xs of None \<Rightarrow> row_get key k ys | Some r \<Rightarrow> Some r)"
  by (induction xs) auto

lemma row_get_SomeD: "row_get key k rs = Some r \<Longrightarrow> r \<in> set rs \<and> key r = k"
  by (induction rs) (auto split: if_splits)

lemma row_get_None_iff: "row_get key k rs = None \<longleftrightarrow> k \<notin> key ` set rs"
  by (induction rs) auto

lemma row_get_mem: "distinct (map key rs) \<Longrightarrow> r \<in> set rs \<Longrightarrow> row_get key (key r) rs = Some r"
  by (induction rs) auto

lemma row_get_put:
  "row_get key k (row_put key r rs) =
     (if key r = k then (if k \<in> key ` set rs then Some r else None) else row_get key k rs)"
  by (induction rs) auto

lemma keys_row_put [simp]: "map key (row_put key r rs) = map key rs"
  by (induction rs) auto

lemma key_set_row_put [simp]: "key ` set (row_put key r rs) = key ` set rs"
  by (metis keys_row_put set_map)

lemma length_row_put [simp]: "length (row_put key r rs) = length rs"
  by (simp add: row_put_def)

lemma row_put_absent: "key r \<notin> key ` set rs \<Longrightarrow> row_put key r rs = rs"
  by (induction rs) auto

lemma set_row_putD: "x \<in> set (row_put key r rs) \<Longrightarrow> x = r \<or> (x \<in> set rs \<and> key x \<noteq> key r)"
  by (auto simp: row_put_def split: if_splits)

lemma row_put_same: "distinct (map key rs) \<Longrightarrow> r \<in> set rs \<Longrightarrow> row_put key r rs = rs"
  by (induction rs) (auto simp: row_put_absent)

text \<open>
  A relation between the rows before and after is kept by an update when the written row
  is related to the row it replaces.
\<close>

lemma row_put_rel [row_rel]:
  assumes "reflp R" and "distinct (map key rs)" and "row_get key (key r) rs = Some x" and "R x r"
  shows "list_all2 R rs (row_put key r rs)"
  using assms
proof (induction rs)
  case Nil
  then show ?case by simp
next
  case (Cons y ys)
  show ?case
  proof (cases "key y = key r")
    case True
    with Cons.prems have "key r \<notin> key ` set ys" and "x = y" by auto
    with True Cons.prems show ?thesis
      by (simp add: row_put_absent list_all2_refl reflpD)
  next
    case False
    with Cons show ?thesis by (simp add: reflpD)
  qed
qed

lemma list_all2_rows_trans:
  assumes "transp R" and "list_all2 R xs ys" and "list_all2 R ys zs"
  shows "list_all2 R xs zs"
  using assms(2,3) by (rule list_all2_trans [rotated]) (use assms(1) in \<open>blast dest: transpD\<close>)

lemma list_all2_row_get:
  assumes "list_all2 R xs ys" and "\<And>x y. R x y \<Longrightarrow> key x = key y"
  shows "rel_option R (row_get key k xs) (row_get key k ys)"
  using assms(1) by (induction rule: list_all2_induct) (use assms(2) in auto)

lemma list_all2_keys:
  assumes "list_all2 R xs ys" and "\<And>x y. R x y \<Longrightarrow> key x = key y"
  shows "map key xs = map key ys"
  using assms(1) by (induction rule: list_all2_induct) (use assms(2) in auto)

lemma list_all2_memD2:
  "list_all2 R xs ys \<Longrightarrow> y \<in> set ys \<Longrightarrow> \<exists>x \<in> set xs. R x y"
  by (metis in_set_conv_nth list_all2_conv_all_nth)

lemma list_all2_memD1:
  "list_all2 R xs ys \<Longrightarrow> x \<in> set xs \<Longrightarrow> \<exists>y \<in> set ys. R x y"
  by (metis in_set_conv_nth list_all2_conv_all_nth)

text \<open>
  The interface between a table and its users: \<open>rows\<close> reads the table out of the state and
  \<open>set_rows\<close> replaces it.  Facts about lookups after updates are proved once for it.
\<close>

locale row_table =
  fixes key :: "'r \<Rightarrow> 'k"
    and rows :: "'s \<Rightarrow> 'r list"
    and set_rows :: "'r list \<Rightarrow> 's \<Rightarrow> 's"
  assumes rows_set: "rows (set_rows rs s) = rs"
    and set_rows_same: "set_rows (rows s) s = s"
    and set_set_rows: "set_rows rs (set_rows rs' s) = set_rows rs s"
begin

lemma get_after_put:
  "row_get key k (rows (set_rows (row_put key r (rows s)) s)) =
     (if key r = k then (if row_get key k (rows s) = None then None else Some r)
      else row_get key k (rows s))"
  by (simp add: rows_set row_get_put row_get_None_iff)

lemma get_after_add:
  "row_get key k (rows (set_rows (rows s @ [r]) s)) =
     (case row_get key k (rows s) of
        None \<Rightarrow> if key r = k then Some r else None
      | Some x \<Rightarrow> Some x)"
  by (simp add: rows_set row_get_append split: option.split)

lemma put_put:
  "key r = key r' \<Longrightarrow>
   set_rows (row_put key r (rows (set_rows (row_put key r' (rows s)) s)))
     (set_rows (row_put key r' (rows s)) s) = set_rows (row_put key r (rows s)) s"
  by (simp add: rows_set set_set_rows row_put_def comp_def if_distrib cong: if_cong)

lemma keys_after_put:
  "map key (rows (set_rows (row_put key r (rows s)) s)) = map key (rows s)"
  by (simp add: rows_set)

lemma distinct_after_add:
  "distinct (map key (rows s)) \<Longrightarrow> row_get key (key r) (rows s) = None \<Longrightarrow>
   distinct (map key (rows (set_rows (rows s @ [r]) s)))"
  by (simp add: rows_set row_get_None_iff)

end

section \<open>Result values\<close>

text \<open>Sequencing of computations that may raise: \<open>Inl\<close> is the exception.\<close>

definition guard :: "bool \<Rightarrow> 'e \<Rightarrow> 'e + 'a \<Rightarrow> 'e + 'a" where
  "guard b e k = (if b then Inl e else k)"

lemma guard_Inr_iff [simp]: "guard b e k = Inr x \<longleftrightarrow> \<not> b \<and> k = Inr x"
  by (simp add: guard_def)

lemma guard_Inl_iff: "guard b e k = Inl x \<longleftrightarrow> (b \<and> x = e) \<or> (\<not> b \<and> k = Inl x)"
  by (auto simp: guard_def)

lemma guard_True [simp]: "guard True e k = Inl e" and guard_False [simp]: "guard False e k = k"
  by (simp_all add: guard_def)

end
