(* ===== verification/Bounded_Json.thy ===== *)
theory Bounded_Json
  imports Prelude
begin

text \<open>
  \<open>src/tomiris_common/validation.py\<close>: \<open>validate_bounded_json\<close>, the guard that every free-form
  metadata, context and payload dictionary passes.  \<open>walk\<close> is the nested function of the
  source with its checks in their order; a raised \<open>ValueError\<close> is \<open>Some\<close> of its reason.
  The lemmas characterise acceptance by a declarative predicate and bound the number of
  values that an accepted tree can hold.
\<close>

datatype json_error =
    NestingTooDeep
  | StringTooLong
  | TooManyKeys
  | BadKey
  | TooManyItems
  | NotJsonCompatible

record json_limits =
  max_depth :: nat
  max_items :: nat
  max_string_length :: nat

text \<open>The keyword defaults of \<open>validate_bounded_json\<close>.\<close>

definition default_limits :: json_limits where
  "default_limits = \<lparr>max_depth = 4, max_items = 50, max_string_length = 2000\<rparr>"

fun short_key :: "pyval \<Rightarrow> bool" where
  "short_key (PyStr k) = (length k \<le> 128)"
| "short_key _ = False"

fun walk :: "json_limits \<Rightarrow> nat \<Rightarrow> pyval \<Rightarrow> json_error option"
  and walk_entries :: "json_limits \<Rightarrow> nat \<Rightarrow> (pyval \<times> pyval) list \<Rightarrow> json_error option"
  and walk_items :: "json_limits \<Rightarrow> nat \<Rightarrow> pyval list \<Rightarrow> json_error option"
where
  "walk L depth item =
     (if depth > max_depth L then Some NestingTooDeep
      else case item of
        PyStr s \<Rightarrow> if length s > max_string_length L then Some StringTooLong else None
      | PyNone \<Rightarrow> None
      | PyBool _ \<Rightarrow> None
      | PyInt _ \<Rightarrow> None
      | PyFloat _ \<Rightarrow> None
      | PyMap kvs \<Rightarrow> if length kvs > max_items L then Some TooManyKeys
                    else walk_entries L (Suc depth) kvs
      | PySeq xs \<Rightarrow> if length xs > max_items L then Some TooManyItems
                   else walk_items L (Suc depth) xs
      | PyBytes _ \<Rightarrow> Some NotJsonCompatible
      | PyOther \<Rightarrow> Some NotJsonCompatible)"
| "walk_entries L depth [] = None"
| "walk_entries L depth ((k, v) # kvs) =
     (if \<not> short_key k then Some BadKey
      else case walk L depth v of Some e \<Rightarrow> Some e | None \<Rightarrow> walk_entries L depth kvs)"
| "walk_items L depth [] = None"
| "walk_items L depth (v # vs) =
     (case walk L depth v of Some e \<Rightarrow> Some e | None \<Rightarrow> walk_items L depth vs)"

declare walk.simps [simp del]

definition validate_bounded_json :: "json_limits \<Rightarrow> pyval \<Rightarrow> json_error + pyval" where
  "validate_bounded_json L v = (case walk L 0 v of Some e \<Rightarrow> Inl e | None \<Rightarrow> Inr v)"

section \<open>What is accepted\<close>

text \<open>
  The declarative counterpart: a value is \<open>well_bounded\<close> with \<open>d\<close> levels left when it is a
  scalar of bounded length or a container of bounded width whose members are well bounded
  with one level less.
\<close>

fun well_bounded :: "json_limits \<Rightarrow> nat \<Rightarrow> pyval \<Rightarrow> bool" where
  "well_bounded L d (PyStr s) = (length s \<le> max_string_length L)"
| "well_bounded L d (PyMap kvs) =
     (length kvs \<le> max_items L \<and> (\<forall>(k, v) \<in> set kvs. short_key k) \<and>
      (case d of 0 \<Rightarrow> kvs = [] | Suc d' \<Rightarrow> \<forall>(k, v) \<in> set kvs. well_bounded L d' v))"
| "well_bounded L d (PySeq xs) =
     (length xs \<le> max_items L \<and>
      (case d of 0 \<Rightarrow> xs = [] | Suc d' \<Rightarrow> \<forall>v \<in> set xs. well_bounded L d' v))"
| "well_bounded L d (PyBytes _) = False"
| "well_bounded L d PyOther = False"
| "well_bounded L d _ = True"

lemma walk_too_deep [simp]: "depth > max_depth L \<Longrightarrow> walk L depth v = Some NestingTooDeep"
  by (simp add: walk.simps)

lemma walk_entries_None:
  "walk_entries L depth kvs = None \<longleftrightarrow>
   (\<forall>(k, v) \<in> set kvs. short_key k \<and> walk L depth v = None)"
  by (induction kvs) (auto split: option.splits if_splits)

lemma walk_items_None:
  "walk_items L depth vs = None \<longleftrightarrow> (\<forall>v \<in> set vs. walk L depth v = None)"
  by (induction vs) (auto split: option.splits)

lemma no_entries: "(\<forall>a b. (a, b) \<notin> set kvs) \<longleftrightarrow> kvs = []"
  by (cases kvs) auto

lemma walk_iff_well_bounded:
  "depth + d = max_depth L \<Longrightarrow> walk L depth v = None \<longleftrightarrow> well_bounded L d v"
proof (induction d arbitrary: depth v)
  case 0
  then show ?case
    by (cases v) (auto simp: walk.simps [of L "max_depth L"] walk_entries_None walk_items_None
        no_entries split: if_splits)
next
  case (Suc d)
  then have IH: "walk L (Suc depth) u = None \<longleftrightarrow> well_bounded L d u" for u by simp
  show ?case using Suc.prems
    by (cases v) (auto simp: walk.simps [of L depth] walk_entries_None walk_items_None IH
        split: if_splits)
qed

lemma validate_accepts_iff:
  "validate_bounded_json L v = Inr w \<longleftrightarrow> w = v \<and> well_bounded L (max_depth L) v"
  using walk_iff_well_bounded [of 0 "max_depth L" L v]
  by (auto simp: validate_bounded_json_def split: option.splits)

section \<open>How much an accepted tree can hold\<close>

fun count_values :: "pyval \<Rightarrow> nat" where
  "count_values (PyMap kvs) = Suc (sum_list (map (\<lambda>(k, v). count_values v) kvs))"
| "count_values (PySeq xs) = Suc (sum_list (map count_values xs))"
| "count_values _ = 1"

text \<open>The size of the complete tree of width \<open>m\<close> and height \<open>d\<close>.\<close>

fun tree_capacity :: "nat \<Rightarrow> nat \<Rightarrow> nat" where
  "tree_capacity m 0 = 1"
| "tree_capacity m (Suc d) = Suc (m * tree_capacity m d)"

lemma sum_list_le_mult:
  "\<forall>x \<in> set xs. f x \<le> (c::nat) \<Longrightarrow> length xs \<le> m \<Longrightarrow> sum_list (map f xs) \<le> m * c"
proof -
  assume f: "\<forall>x \<in> set xs. f x \<le> c" and len: "length xs \<le> m"
  from f have "sum_list (map f xs) \<le> length xs * c" by (induction xs) auto
  also have "\<dots> \<le> m * c" using len by simp
  finally show ?thesis .
qed

lemma tree_capacity_pos: "1 \<le> tree_capacity m d"
  by (cases d) auto

lemma count_values_bound: "well_bounded L d v \<Longrightarrow> count_values v \<le> tree_capacity (max_items L) d"
proof (induction d arbitrary: v)
  case 0
  then show ?case by (cases v) auto
next
  case (Suc d)
  then show ?case
  proof (cases v)
    case (PySeq xs)
    with Suc show ?thesis by (auto intro!: sum_list_le_mult)
  next
    case (PyMap kvs)
    with Suc show ?thesis by (auto intro!: sum_list_le_mult)
  qed (auto simp: tree_capacity_pos)
qed

end
