(* ===== verification/Contracts.thy ===== *)
theory Contracts
  imports Bounded_Json
begin

text \<open>
  The transport-neutral contracts of \<open>src/tomiris_core_contracts\<close>: orchestration commands
  and policies (\<open>orchestration.py\<close>), agent signals (\<open>signals.py\<close>), snapshots
  (\<open>snapshots.py\<close>) and notification events (\<open>notifications.py\<close>).

  A pydantic model is a record; its field constraints and validators are one function
  \<open>validate_X\<close> from the record as parsed to the record as accepted, \<open>None\<close> being pydantic's
  \<open>ValidationError\<close>.  The type parameter of a record is the type of its timestamps:
  \<open>py_datetime\<close> as parsed, \<open>instant\<close> once the UTC validator has passed.  JSON decoding itself is
  pydantic's and not modelled.
\<close>

section \<open>Patterns and timestamps\<close>

definition is_upper :: "char \<Rightarrow> bool" where
  "is_upper c \<longleftrightarrow> 65 \<le> (of_char c :: nat) \<and> (of_char c :: nat) \<le> 90"

definition is_lower :: "char \<Rightarrow> bool" where
  "is_lower c \<longleftrightarrow> 97 \<le> (of_char c :: nat) \<and> (of_char c :: nat) \<le> 122"

definition is_digit :: "char \<Rightarrow> bool" where
  "is_digit c \<longleftrightarrow> 48 \<le> (of_char c :: nat) \<and> (of_char c :: nat) \<le> 57"

text \<open>\<open>^[A-Z][A-Z0-9_]{2,63}$\<close>\<close>

definition agent_id_pattern :: "string \<Rightarrow> bool" where
  "agent_id_pattern s \<longleftrightarrow>
     (case s of [] \<Rightarrow> False
      | c # cs \<Rightarrow> is_upper c \<and> 2 \<le> length cs \<and> length cs \<le> 63 \<and>
          list_all (\<lambda>x. is_upper x \<or> is_digit x \<or> x = CHR ''_'') cs)"

text \<open>\<open>^[A-Z0-9_./-]{2,32}$\<close>\<close>

definition asset_pattern :: "string \<Rightarrow> bool" where
  "asset_pattern s \<longleftrightarrow> 2 \<le> length s \<and> length s \<le> 32 \<and>
     list_all (\<lambda>x. is_upper x \<or> is_digit x \<or> x \<in> set ''_./-'') s"

definition len_between :: "nat \<Rightarrow> nat \<Rightarrow> string \<Rightarrow> bool" where
  "len_between lo hi s \<longleftrightarrow> lo \<le> length s \<and> length s \<le> hi"

definition opt_max :: "nat \<Rightarrow> string option \<Rightarrow> bool" where
  "opt_max hi s \<longleftrightarrow> (case s of None \<Rightarrow> True | Some x \<Rightarrow> length x \<le> hi)"

text \<open>A \<open>dict[str, Any]\<close> field whose validator is \<open>validate_bounded_json\<close>.\<close>

definition bounded_dict :: "json_limits \<Rightarrow> pyval \<Rightarrow> bool" where
  "bounded_dict L v \<longleftrightarrow>
     (case v of PyMap _ \<Rightarrow> validate_bounded_json L v = Inr v | _ \<Rightarrow> False)"

text \<open>A parsed \<open>datetime\<close>: naive, or the instant it denotes with its UTC offset.\<close>

datatype py_datetime = Naive int | Aware instant (utcoffset: duration)

definition require_utc :: "py_datetime \<Rightarrow> instant option" where
  "require_utc v = (case v of Naive _ \<Rightarrow> None | Aware t off \<Rightarrow> if off \<noteq> 0 then None else Some t)"

lemma require_utc_Some_iff [simp]: "require_utc v = Some t \<longleftrightarrow> v = Aware t 0"
  by (auto simp: require_utc_def split: py_datetime.splits)

section \<open>Orchestration\<close>

record 't task_request =
  tr_protocol_version :: string
  tr_task_id :: uuid
  tr_orchestration_run_id :: uuid
  tr_snapshot_id :: uuid
  tr_agent_id :: string
  tr_asset :: string
  tr_required_capability :: string
  tr_priority :: int
  tr_created_at :: 't
  tr_deadline :: 't
  tr_correlation_id :: uuid
  tr_causation_id :: "uuid option"
  tr_context :: pyval

type_synonym analysis_task_request = "instant task_request"

definition validate_task_request :: "py_datetime task_request \<Rightarrow> analysis_task_request option" where
  "validate_task_request q =
     (case (require_utc (tr_created_at q), require_utc (tr_deadline q)) of
        (Some created, Some deadline) \<Rightarrow>
          if tr_protocol_version q = ''1.0''
             \<and> agent_id_pattern (tr_agent_id q)
             \<and> asset_pattern (tr_asset q)
             \<and> len_between 1 64 (tr_required_capability q)
             \<and> 0 \<le> tr_priority q \<and> tr_priority q \<le> 100
             \<and> bounded_dict default_limits (tr_context q)
             \<and> \<not> deadline \<le> created
          then Some \<lparr>tr_protocol_version = tr_protocol_version q, tr_task_id = tr_task_id q,
                 tr_orchestration_run_id = tr_orchestration_run_id q,
                 tr_snapshot_id = tr_snapshot_id q, tr_agent_id = tr_agent_id q,
                 tr_asset = tr_asset q, tr_required_capability = tr_required_capability q,
                 tr_priority = tr_priority q, tr_created_at = created, tr_deadline = deadline,
                 tr_correlation_id = tr_correlation_id q, tr_causation_id = tr_causation_id q,
                 tr_context = tr_context q\<rparr>
          else None
      | _ \<Rightarrow> None)"

record 't task_ack =
  ack_task_id :: uuid
  ack_agent_id :: string
  ack_accepted_at :: 't
  ack_runtime_version :: string

type_synonym analysis_task_ack = "instant task_ack"

definition validate_task_ack :: "py_datetime task_ack \<Rightarrow> analysis_task_ack option" where
  "validate_task_ack a =
     (case require_utc (ack_accepted_at a) of
        None \<Rightarrow> None
      | Some accepted \<Rightarrow>
          if agent_id_pattern (ack_agent_id a) \<and> len_between 1 32 (ack_runtime_version a)
          then Some \<lparr>ack_task_id = ack_task_id a, ack_agent_id = ack_agent_id a,
                 ack_accepted_at = accepted, ack_runtime_version = ack_runtime_version a\<rparr>
          else None)"

record runtime_capabilities =
  rc_agent_id :: string
  rc_runtime_version :: string
  rc_role :: string
  rc_capabilities :: "string list"
  rc_supported_assets :: "string list"
  rc_protocol_versions :: "string list"
  rc_analytical_role_api_version :: "string option"

definition validate_runtime_capabilities :: "runtime_capabilities \<Rightarrow> runtime_capabilities option" where
  "validate_runtime_capabilities c =
     (if agent_id_pattern (rc_agent_id c)
         \<and> len_between 1 32 (rc_runtime_version c)
         \<and> len_between 1 64 (rc_role c)
         \<and> length (rc_capabilities c) \<le> 50
         \<and> length (rc_supported_assets c) \<le> 100
         \<and> 1 \<le> length (rc_protocol_versions c) \<and> length (rc_protocol_versions c) \<le> 10
         \<and> opt_max 16 (rc_analytical_role_api_version c)
      then Some c else None)"

record capability_requirement =
  rq_capability :: string
  rq_required :: bool
  rq_critical :: bool
  rq_minimum_responses :: nat
  rq_max_agents :: "nat option"

record orchestration_policy =
  po_policy_version :: string
  po_requirements :: "capability_requirement list"
  po_collection_timeout_seconds :: int
  po_dispatch_timeout_seconds :: int
  po_signal_timeout_seconds :: int

definition valid_requirement :: "capability_requirement \<Rightarrow> bool" where
  "valid_requirement q \<longleftrightarrow>
     len_between 1 64 (rq_capability q)
     \<and> 1 \<le> rq_minimum_responses q \<and> rq_minimum_responses q \<le> 500
     \<and> (case rq_max_agents q of None \<Rightarrow> True | Some n \<Rightarrow> 1 \<le> n \<and> n \<le> 500)"

definition valid_policy :: "orchestration_policy \<Rightarrow> bool" where
  "valid_policy p \<longleftrightarrow>
     len_between 1 32 (po_policy_version p)
     \<and> 1 \<le> length (po_requirements p) \<and> length (po_requirements p) \<le> 100
     \<and> list_all valid_requirement (po_requirements p)
     \<and> 1 \<le> po_collection_timeout_seconds p \<and> po_collection_timeout_seconds p \<le> 86400
     \<and> 1 \<le> po_dispatch_timeout_seconds p \<and> po_dispatch_timeout_seconds p \<le> 3600
     \<and> 1 \<le> po_signal_timeout_seconds p \<and> po_signal_timeout_seconds p \<le> 86400
     \<and> distinct (map rq_capability (po_requirements p))
     \<and> \<not> po_signal_timeout_seconds p < po_dispatch_timeout_seconds p
     \<and> \<not> po_collection_timeout_seconds p < po_signal_timeout_seconds p"

section \<open>Snapshots\<close>

datatype snapshot_status = S_OPEN | S_CLOSED | S_EXPIRED | S_INVALID

record 't snapshot =
  sn_snapshot_id :: uuid
  sn_created_at :: 't
  sn_expires_at :: 't
  sn_status :: snapshot_status
  sn_context_version :: string
  sn_metadata :: pyval

type_synonym market_snapshot = "instant snapshot"

definition validate_snapshot :: "py_datetime snapshot \<Rightarrow> market_snapshot option" where
  "validate_snapshot s =
     (case (require_utc (sn_created_at s), require_utc (sn_expires_at s)) of
        (Some created, Some expires) \<Rightarrow>
          if len_between 1 32 (sn_context_version s)
             \<and> bounded_dict default_limits (sn_metadata s)
             \<and> \<not> expires \<le> created
          then Some \<lparr>sn_snapshot_id = sn_snapshot_id s, sn_created_at = created,
                 sn_expires_at = expires, sn_status = sn_status s,
                 sn_context_version = sn_context_version s, sn_metadata = sn_metadata s\<rparr>
          else None
      | _ \<Rightarrow> None)"

section \<open>Signals\<close>

datatype bias = LONG | SHORT | NEUTRAL | ABSTAIN

record 't evidence_item =
  ev_evidence_type :: string
  ev_summary :: string
  ev_source_type :: string
  ev_source_id :: string
  ev_provider :: string
  ev_observed_at :: 't
  ev_source_timestamp :: 't
  ev_source_fingerprint :: "string option"
  ev_instrument :: "string option"
  ev_timeframe :: "string option"
  ev_feature_name :: "string option"
  ev_feature_version :: "string option"
  ev_observation :: "string option"
  ev_metadata :: pyval

definition max_evidence_items :: nat where "max_evidence_items = 20"
definition max_evidence_summary :: nat where "max_evidence_summary = 1000"

definition validate_evidence :: "py_datetime evidence_item \<Rightarrow> instant evidence_item option" where
  "validate_evidence e =
     (case (require_utc (ev_observed_at e), require_utc (ev_source_timestamp e)) of
        (Some observed, Some source) \<Rightarrow>
          if len_between 1 64 (ev_evidence_type e)
             \<and> len_between 1 max_evidence_summary (ev_summary e)
             \<and> len_between 1 64 (ev_source_type e)
             \<and> len_between 1 256 (ev_source_id e)
             \<and> len_between 1 128 (ev_provider e)
             \<and> opt_max 128 (ev_source_fingerprint e) \<and> opt_max 32 (ev_instrument e)
             \<and> opt_max 16 (ev_timeframe e) \<and> opt_max 64 (ev_feature_name e)
             \<and> opt_max 32 (ev_feature_version e) \<and> opt_max 500 (ev_observation e)
             \<and> bounded_dict default_limits (ev_metadata e)
          then Some \<lparr>ev_evidence_type = ev_evidence_type e, ev_summary = ev_summary e,
                 ev_source_type = ev_source_type e, ev_source_id = ev_source_id e,
                 ev_provider = ev_provider e, ev_observed_at = observed,
                 ev_source_timestamp = source, ev_source_fingerprint = ev_source_fingerprint e,
                 ev_instrument = ev_instrument e, ev_timeframe = ev_timeframe e,
                 ev_feature_name = ev_feature_name e, ev_feature_version = ev_feature_version e,
                 ev_observation = ev_observation e, ev_metadata = ev_metadata e\<rparr>
          else None
      | _ \<Rightarrow> None)"

record 't signal_envelope =
  env_protocol_version :: string
  env_message_id :: uuid
  env_agent_id :: string
  env_agent_run_id :: uuid
  env_snapshot_id :: uuid
  env_task_id :: "uuid option"
  env_orchestration_run_id :: "uuid option"
  env_correlation_id :: "uuid option"
  env_causation_id :: "uuid option"
  env_asset :: string
  env_bias :: bias
  env_confidence :: int
  env_impact :: int
  env_time_horizon :: string
  env_evidence :: "'t evidence_item list"
  env_risk_flags :: "string list"
  env_data_timestamp :: 't
  env_analysis_timestamp :: 't
  env_signal_ttl_seconds :: int
  env_role_id :: "string option"
  env_role_version :: "string option"
  env_config_version :: "string option"
  env_feature_pipeline_version :: "string option"
  env_analysis_schema_version :: "string option"
  env_data_provider :: "string option"
  env_data_as_of :: "'t option"
  env_confidence_model_version :: "string option"
  env_metadata :: pyval

type_synonym agent_signal = "instant signal_envelope"

text \<open>The tuple \<open>analytical\<close> of \<open>validate_task_lineage\<close>: which of its fields are present.\<close>

definition analytical_fields :: "'t signal_envelope \<Rightarrow> bool list" where
  "analytical_fields e =
     [env_role_id e \<noteq> None, env_role_version e \<noteq> None, env_config_version e \<noteq> None,
      env_feature_pipeline_version e \<noteq> None, env_analysis_schema_version e \<noteq> None,
      env_data_provider e \<noteq> None, env_data_as_of e \<noteq> None,
      env_confidence_model_version e \<noteq> None]"

definition validate_task_lineage :: "agent_signal \<Rightarrow> bool" where
  "validate_task_lineage e \<longleftrightarrow>
     \<not> ((env_task_id e = None) \<noteq> (env_orchestration_run_id e = None))
     \<and> \<not> (list_ex (\<lambda>b. b) (analytical_fields e) \<and> list_ex (\<lambda>b. \<not> b) (analytical_fields e))
     \<and> \<not> (case env_data_as_of e of None \<Rightarrow> False | Some t \<Rightarrow> t > env_analysis_timestamp e)"

text \<open>The field constraints that do not depend on a timestamp.\<close>

definition signal_fields_ok :: "'t signal_envelope \<Rightarrow> bool" where
  "signal_fields_ok e \<longleftrightarrow>
     env_protocol_version e = ''1.0''
     \<and> agent_id_pattern (env_agent_id e)
     \<and> asset_pattern (env_asset e)
     \<and> 0 \<le> env_confidence e \<and> env_confidence e \<le> 100
     \<and> 0 \<le> env_impact e \<and> env_impact e \<le> 100
     \<and> len_between 1 64 (env_time_horizon e)
     \<and> length (env_evidence e) \<le> max_evidence_items
     \<and> list_all (\<lambda>f. length f \<le> 128) (env_risk_flags e) \<and> length (env_risk_flags e) \<le> 20
     \<and> 0 < env_signal_ttl_seconds e
     \<and> opt_max 64 (env_role_id e) \<and> opt_max 32 (env_role_version e)
     \<and> opt_max 32 (env_config_version e) \<and> opt_max 64 (env_feature_pipeline_version e)
     \<and> opt_max 16 (env_analysis_schema_version e) \<and> opt_max 128 (env_data_provider e)
     \<and> opt_max 32 (env_confidence_model_version e)
     \<and> bounded_dict default_limits (env_metadata e)"

text \<open>All results of a list of optional values, or \<open>None\<close>.\<close>

fun sequence_opt :: "'a option list \<Rightarrow> 'a list option" where
  "sequence_opt [] = Some []"
| "sequence_opt (x # xs) =
     (case (x, sequence_opt xs) of (Some y, Some ys) \<Rightarrow> Some (y # ys) | _ \<Rightarrow> None)"

definition validate_signal :: "py_datetime signal_envelope \<Rightarrow> agent_signal option" where
  "validate_signal e =
     (case (require_utc (env_data_timestamp e), require_utc (env_analysis_timestamp e),
            (case env_data_as_of e of
               None \<Rightarrow> Some None
             | Some v \<Rightarrow> map_option Some (require_utc v)),
            sequence_opt (map validate_evidence (env_evidence e))) of
        (Some data_ts, Some analysis_ts, Some as_of, Some evidence) \<Rightarrow>
          let sig = \<lparr>env_protocol_version = env_protocol_version e,
                env_message_id = env_message_id e, env_agent_id = env_agent_id e,
                env_agent_run_id = env_agent_run_id e, env_snapshot_id = env_snapshot_id e,
                env_task_id = env_task_id e,
                env_orchestration_run_id = env_orchestration_run_id e,
                env_correlation_id = env_correlation_id e,
                env_causation_id = env_causation_id e, env_asset = env_asset e,
                env_bias = env_bias e, env_confidence = env_confidence e,
                env_impact = env_impact e, env_time_horizon = env_time_horizon e,
                env_evidence = evidence, env_risk_flags = env_risk_flags e,
                env_data_timestamp = data_ts, env_analysis_timestamp = analysis_ts,
                env_signal_ttl_seconds = env_signal_ttl_seconds e,
                env_role_id = env_role_id e, env_role_version = env_role_version e,
                env_config_version = env_config_version e,
                env_feature_pipeline_version = env_feature_pipeline_version e,
                env_analysis_schema_version = env_analysis_schema_version e,
                env_data_provider = env_data_provider e, env_data_as_of = as_of,
                env_confidence_model_version = env_confidence_model_version e,
                env_metadata = env_metadata e\<rparr>
          in if signal_fields_ok e \<and> validate_task_lineage sig then Some sig else None
      | _ \<Rightarrow> None)"

text \<open>What a validated signal guarantees to the components behind the validator.\<close>

definition valid_signal :: "agent_signal \<Rightarrow> bool" where
  "valid_signal e \<longleftrightarrow> signal_fields_ok e \<and> validate_task_lineage e"

lemma length_sequence_opt: "sequence_opt xs = Some ys \<Longrightarrow> length ys = length xs"
  by (induction xs arbitrary: ys) (auto split: option.splits)

lemma validate_signal_valid: "validate_signal e = Some sig \<Longrightarrow> valid_signal sig"
  by (auto simp: validate_signal_def valid_signal_def signal_fields_ok_def Let_def
      dest: length_sequence_opt split: option.splits if_splits)

section \<open>Notifications\<close>

record 't notification_event =
  nt_notification_id :: uuid
  nt_event_id :: uuid
  nt_event_type :: string
  nt_snapshot_id :: "uuid option"
  nt_channel :: string
  nt_recipient_ref :: string
  nt_payload :: pyval
  nt_idempotency_key :: string
  nt_correlation_id :: uuid
  nt_causation_id :: "uuid option"
  nt_created_at :: 't

definition notification_limits :: json_limits where
  "notification_limits = \<lparr>max_depth = 4, max_items = 50, max_string_length = 4000\<rparr>"

definition validate_notification ::
    "py_datetime notification_event \<Rightarrow> instant notification_event option" where
  "validate_notification n =
     (case require_utc (nt_created_at n) of
        None \<Rightarrow> None
      | Some created \<Rightarrow>
          if len_between 1 64 (nt_event_type n) \<and> len_between 1 32 (nt_channel n)
             \<and> len_between 1 256 (nt_recipient_ref n) \<and> len_between 1 256 (nt_idempotency_key n)
             \<and> bounded_dict notification_limits (nt_payload n)
          then Some \<lparr>nt_notification_id = nt_notification_id n, nt_event_id = nt_event_id n,
                 nt_event_type = nt_event_type n, nt_snapshot_id = nt_snapshot_id n,
                 nt_channel = nt_channel n, nt_recipient_ref = nt_recipient_ref n,
                 nt_payload = nt_payload n, nt_idempotency_key = nt_idempotency_key n,
                 nt_correlation_id = nt_correlation_id n, nt_causation_id = nt_causation_id n,
                 nt_created_at = created\<rparr>
          else None)"

end
