(* ===== verification/Texts.thy ===== *)
theory Texts
  imports Contracts
begin

text \<open>
  The text operations of Python that the sources use, on text as a list of characters (code
  points below 256): blanks and \<open>strip\<close>, \<open>lower\<close>, \<open>split\<close>, \<open>partition\<close> and \<open>rpartition\<close>, \<open>int(text)\<close>,
  and the grammar of decimal numbers that \<open>float(text)\<close> and \<open>Decimal(text)\<close> share.
\<close>

section \<open>Blanks and case\<close>

text \<open>\<open>str.isspace\<close> of a character\<close>

definition is_blank :: "char \<Rightarrow> bool" where
  "is_blank c \<longleftrightarrow>
     (let n = of_char c :: nat in n = 32 \<or> (9 \<le> n \<and> n \<le> 13) \<or> (28 \<le> n \<and> n \<le> 31) \<or> n = 133 \<or> n = 160)"

definition strip :: "string \<Rightarrow> string" where
  "strip s = rev (dropWhile is_blank (rev (dropWhile is_blank s)))"

text \<open>\<open>lower\<close> of the letters A to Z and of the upper-case letters from 192 to 222 (215 is a sign).\<close>

definition lower_char :: "char \<Rightarrow> char" where
  "lower_char c =
     (let n = of_char c :: nat
      in if (65 \<le> n \<and> n \<le> 90) \<or> (192 \<le> n \<and> n \<le> 222 \<and> n \<noteq> 215) then char_of (n + 32) else c)"

definition lower :: "string \<Rightarrow> string" where
  "lower s = map lower_char s"

text \<open>\<open>[0-9a-fA-F]\<close>\<close>

definition is_hex :: "char \<Rightarrow> bool" where
  "is_hex c \<longleftrightarrow> is_digit c \<or> (let n = of_char c :: nat in (65 \<le> n \<and> n \<le> 70) \<or> (97 \<le> n \<and> n \<le> 102))"

section \<open>Cutting text\<close>

text \<open>\<open>text.split(sep)\<close> for a separator of one character\<close>

fun split_on :: "char \<Rightarrow> string \<Rightarrow> string list" where
  "split_on sep [] = [[]]"
| "split_on sep (c # cs) =
     (if c = sep then [] # split_on sep cs
      else case split_on sep cs of [] \<Rightarrow> [[c]] | item # items \<Rightarrow> (c # item) # items)"

text \<open>\<open>text.partition(sep)\<close> and \<open>text.rpartition(sep)\<close>; the middle component says whether the
  separator was found.\<close>

definition partition_at :: "char \<Rightarrow> string \<Rightarrow> string \<times> bool \<times> string" where
  "partition_at sep s =
     (takeWhile (\<lambda>c. c \<noteq> sep) s, sep \<in> set s, tl (dropWhile (\<lambda>c. c \<noteq> sep) s))"

definition rpartition_at :: "char \<Rightarrow> string \<Rightarrow> string \<times> bool \<times> string" where
  "rpartition_at sep s =
     (let (after, found, before) = partition_at sep (rev s)
      in if found then (rev before, True, rev after) else ([], False, s))"

text \<open>\<open>text.lstrip(".")\<close>, \<open>text.rstrip(".")\<close> and \<open>text.endswith(suffix)\<close>\<close>

definition lstrip_dots :: "string \<Rightarrow> string" where
  "lstrip_dots s = dropWhile (\<lambda>c. c = CHR ''.'') s"

definition rstrip_dots :: "string \<Rightarrow> string" where
  "rstrip_dots s = rev (dropWhile (\<lambda>c. c = CHR ''.'') (rev s))"

definition ends_with :: "string \<Rightarrow> string \<Rightarrow> bool" where
  "ends_with suffix s \<longleftrightarrow> (\<exists>k \<le> length s. drop k s = suffix)"

lemma split_on_nonempty [simp]: "split_on sep s \<noteq> []"
  by (cases s) (auto split: list.split)

lemma split_on_join: "join_with sep (split_on sep s) = s"
proof (induction s)
  case (Cons c cs)
  obtain item items where "split_on sep cs = item # items" by (cases "split_on sep cs") simp_all
  with Cons show ?case by (cases items) auto
qed simp

lemma partition_at_found: "sep \<in> set s \<Longrightarrow> partition_at sep s = (a, True, b) \<longleftrightarrow> s = a @ sep # b \<and> sep \<notin> set a"
proof (induction s arbitrary: a)
  case (Cons c cs)
  then show ?case by (cases "c = sep"; cases a) (auto simp: partition_at_def)
qed simp

lemma partition_at_absent: "sep \<notin> set s \<Longrightarrow> partition_at sep s = (s, False, [])"
  by (simp add: partition_at_def takeWhile_eq_all_conv, subst dropWhile_eq_Nil_conv [THEN iffD2]) auto

section \<open>Numbers\<close>

definition digits_value :: "string \<Rightarrow> int" where
  "digits_value ds = foldl (\<lambda>v c. 10 * v + (int (of_char c) - 48)) 0 ds"

fun grouped_digits :: "string \<Rightarrow> bool" where
  "grouped_digits [] = False"
| "grouped_digits [c] = is_digit c"
| "grouped_digits (c # d # cs) = (is_digit c \<and> (if d = CHR ''_'' then grouped_digits cs else grouped_digits (d # cs)))"

definition sign_split :: "string \<Rightarrow> bool \<times> string" where
  "sign_split s = (s \<noteq> [] \<and> hd s = CHR ''-'', if s \<noteq> [] \<and> hd s \<in> set ''+-'' then tl s else s)"

text \<open>\<open>int(text)\<close>: blanks around, a sign, at most 4300 digits with single underscores between.\<close>

definition py_int :: "string \<Rightarrow> int option" where
  "py_int s =
     (let (neg, ds) = sign_split (strip s)
      in if grouped_digits ds \<and> length (filter is_digit ds) \<le> 4300
         then Some ((if neg then - 1 else 1) * digits_value (filter is_digit ds))
         else None)"

text \<open>\<open>digits[.digits][e[sign]digits]\<close> as coefficient and exponent of ten\<close>

definition number_of_text :: "string \<Rightarrow> (int \<times> int) option" where
  "number_of_text s =
     (let (mantissa, has_exponent, ex) = partition_at (CHR ''e'') (lower s);
          (whole, _, fraction) = partition_at (CHR ''.'') mantissa;
          (neg, ds) = sign_split ex
      in if whole @ fraction \<noteq> [] \<and> list_all is_digit (whole @ fraction)
            \<and> (has_exponent \<longrightarrow> ds \<noteq> [] \<and> list_all is_digit ds)
         then Some (digits_value (whole @ fraction),
                (if has_exponent then (if neg then - 1 else 1) * digits_value ds else 0) - int (length fraction))
         else None)"

text \<open>Underscores of a \<open>float\<close> text stand between digits.\<close>

fun underscores_ok :: "bool \<Rightarrow> string \<Rightarrow> bool" where
  "underscores_ok after_digit [] = True"
| "underscores_ok after_digit (c # cs) =
     (if c = CHR ''_''
      then after_digit \<and> (case cs of [] \<Rightarrow> False | d # _ \<Rightarrow> is_digit d) \<and> underscores_ok False cs
      else underscores_ok (is_digit c) cs)"

definition without_underscores :: "string \<Rightarrow> string" where
  "without_underscores s = filter (\<lambda>c. c \<noteq> CHR ''_'') s"

lemma digits_value_nonneg: "list_all is_digit ds \<Longrightarrow> 0 \<le> digits_value ds"
proof (induction ds rule: rev_induct)
  case (snoc c ds)
  then show ?case by (simp add: digits_value_def is_digit_def)
qed (simp add: digits_value_def)

lemma number_of_text_nonneg: "number_of_text s = Some (m, e) \<Longrightarrow> 0 \<le> m"
  by (auto simp: number_of_text_def Let_def split: prod.splits if_splits dest: digits_value_nonneg
      intro: digits_value_nonneg)

end
