(* ===== verification/Crypto.thy ===== *)
theory Crypto
  imports Prelude "HOL-Library.Word"
begin

unbundle bit_operations_syntax

text \<open>
  The hashing of Python's \<open>hashlib\<close>, \<open>hmac\<close> and \<open>base64\<close> (SHA-256 on 32-bit words, HMAC,
  unpadded URL-safe base64) and on it \<open>src/tomiris_hub/core/security.py\<close> and
  \<open>src/tomiris_common/crypto.py\<close>: canonical requests, signatures, HKDF and the derivation of
  per-agent secrets.  A byte string is a \<open>string\<close> (a character is a byte), so \<open>encode\<close> is the
  identity; texts with characters beyond one byte are not represented.

  No result assumes anything about the strength of the hash.  What is proved is the
  structure around it: the signed and hashed texts determine the fields they are built from,
  and HKDF returns the requested number of bytes with a counter that fits one byte.
\<close>

section \<open>SHA-256\<close>

definition sha_k :: "32 word list" where
  "sha_k = [
     1116352408, 1899447441, 3049323471, 3921009573, 961987163, 1508970993, 2453635748, 2870763221,
     3624381080, 310598401, 607225278, 1426881987, 1925078388, 2162078206, 2614888103, 3248222580,
     3835390401, 4022224774, 264347078, 604807628, 770255983, 1249150122, 1555081692, 1996064986,
     2554220882, 2821834349, 2952996808, 3210313671, 3336571891, 3584528711, 113926993, 338241895,
     666307205, 773529912, 1294757372, 1396182291, 1695183700, 1986661051, 2177026350, 2456956037,
     2730485921, 2820302411, 3259730800, 3345764771, 3516065817, 3600352804, 4094571909, 275423344,
     430227734, 506948616, 659060556, 883997877, 958139571, 1322822218, 1537002063, 1747873779,
     1955562222, 2024104815, 2227730452, 2361852424, 2428436474, 2756734187, 3204031479, 3329325298]"

definition sha_init :: "32 word list" where
  "sha_init = [1779033703, 3144134277, 1013904242, 2773480762,
               1359893119, 2600822924, 528734635, 1541459225]"

definition rotr :: "nat \<Rightarrow> 32 word \<Rightarrow> 32 word" where
  "rotr n x = drop_bit n x OR push_bit (32 - n) x"

definition be_word :: "nat list \<Rightarrow> 32 word" where
  "be_word bs = foldl (\<lambda>a b. push_bit 8 a OR word_of_nat b) 0 bs"

definition word_be :: "32 word \<Rightarrow> nat list" where
  "word_be x = map (\<lambda>n. unat (drop_bit n x AND 0xff)) [24, 16, 8, 0]"

fun blocks :: "nat \<Rightarrow> nat \<Rightarrow> 'a list \<Rightarrow> 'a list list" where
  "blocks n 0 xs = []"
| "blocks n (Suc k) xs = take n xs # blocks n k (drop n xs)"

text \<open>The message schedule: each new word is computed from the last sixteen.\<close>

fun schedule :: "nat \<Rightarrow> 32 word list \<Rightarrow> 32 word list" where
  "schedule 0 ws = ws"
| "schedule (Suc n) ws =
     (let l = length ws; w15 = ws ! (l - 15); w2 = ws ! (l - 2);
          s0 = rotr 7 w15 XOR rotr 18 w15 XOR drop_bit 3 w15;
          s1 = rotr 17 w2 XOR rotr 19 w2 XOR drop_bit 10 w2
      in schedule n (ws @ [ws ! (l - 16) + s0 + ws ! (l - 7) + s1]))"

fun sha_round :: "32 word list \<Rightarrow> 32 word \<times> 32 word \<Rightarrow> 32 word list" where
  "sha_round [a, b, c, d, e, f, g, h] (k, w) =
     (let S1 = rotr 6 e XOR rotr 11 e XOR rotr 25 e;
          ch = (e AND f) XOR (NOT e AND g);
          t1 = h + S1 + ch + k + w;
          S0 = rotr 2 a XOR rotr 13 a XOR rotr 22 a;
          maj = (a AND b) XOR (a AND c) XOR (b AND c)
      in [t1 + S0 + maj, a, b, c, d + t1, e, f, g])"
| "sha_round st kw = st"

definition sha_block :: "32 word list \<Rightarrow> nat list \<Rightarrow> 32 word list" where
  "sha_block st block =
     (let ws = schedule 48 (map be_word (blocks 4 16 block))
      in map2 (+) st (foldl sha_round st (zip sha_k ws)))"

definition sha_pad :: "nat list \<Rightarrow> nat list" where
  "sha_pad m =
     (let l = length m; z = (119 - l mod 64) mod 64
      in m @ 0x80 # replicate z 0 @ map (\<lambda>i. nat (8 * int l div 256 ^ i mod 256)) [7, 6, 5, 4, 3, 2, 1, 0])"

definition sha256_bytes :: "nat list \<Rightarrow> nat list" where
  "sha256_bytes m =
     (let p = sha_pad m
      in concat (map word_be (foldl sha_block sha_init (blocks 64 (length p div 64) p))))"

definition sha256 :: "string \<Rightarrow> string" where
  "sha256 m = map char_of (sha256_bytes (map of_char m))"

definition hexdigest :: "string \<Rightarrow> string" where
  "hexdigest bs = concat (map (\<lambda>c. digits_fixed 16 2 (of_char c)) bs)"

definition xor_pad :: "nat \<Rightarrow> string \<Rightarrow> string" where
  "xor_pad p k = map (\<lambda>c. char_of (of_char c XOR p)) k"

definition hmac_sha256 :: "string \<Rightarrow> string \<Rightarrow> string" where
  "hmac_sha256 key msg =
     (let k = (if 64 < length key then sha256 key else key);
          k = k @ replicate (64 - length k) (char_of (0::nat))
      in sha256 (xor_pad 0x5c k @ sha256 (xor_pad 0x36 k @ msg)))"

lemma length_word_be [simp]: "length (word_be x) = 4"
  by (simp add: word_be_def)

lemma length_sha_block [simp]: "length st = 8 \<Longrightarrow> length (sha_block st b) = 8"
proof -
  have round: "length st = 8 \<Longrightarrow> length (sha_round st kw) = 8" for st kw
    by (induction st kw rule: sha_round.induct) (simp_all add: Let_def)
  have "length st = 8 \<Longrightarrow> length (foldl sha_round st kws) = 8" for st kws
    by (induction kws arbitrary: st) (simp_all add: round)
  then show "length st = 8 \<Longrightarrow> length (sha_block st b) = 8"
    by (simp add: sha_block_def Let_def)
qed

lemma length_sha256 [simp]: "length (sha256 m) = 32"
proof -
  have "length st = 8 \<Longrightarrow> length (foldl sha_block st bs) = 8" for st bs
    by (induction bs arbitrary: st) simp_all
  from this [of sha_init] have "length (foldl sha_block sha_init bs) = 8" for bs
    by (simp add: sha_init_def)
  moreover have "length (concat (map word_be ws)) = 4 * length ws" for ws
    by (induction ws) simp_all
  ultimately show ?thesis by (simp add: sha256_def sha256_bytes_def Let_def)
qed

lemma length_hmac [simp]: "length (hmac_sha256 k m) = 32"
  by (simp add: hmac_sha256_def Let_def)

lemma length_hexdigest: "length (hexdigest bs) = 2 * length bs"
  by (induction bs) (simp_all add: hexdigest_def)

section \<open>Base64\<close>

definition b64_char :: "nat \<Rightarrow> char" where
  "b64_char i =
     (if i < 26 then char_of (65 + i) else if i < 52 then char_of (71 + i)
      else if i < 62 then char_of (i - 4) else if i = 62 then CHR ''-'' else CHR ''_'')"

text \<open>\<open>urlsafe_b64encode(bs).rstrip(b"=")\<close>\<close>

fun urlsafe_b64 :: "nat list \<Rightarrow> string" where
  "urlsafe_b64 (a # b # c # bs) =
     map b64_char [a div 4, a mod 4 * 16 + b div 16, b mod 16 * 4 + c div 64, c mod 64] @ urlsafe_b64 bs"
| "urlsafe_b64 [a, b] = map b64_char [a div 4, a mod 4 * 16 + b div 16, b mod 16 * 4]"
| "urlsafe_b64 [a] = map b64_char [a div 4, a mod 4 * 16]"
| "urlsafe_b64 [] = []"

section \<open>\<open>tomiris_hub/core/security.py\<close>\<close>

definition body_sha256 :: "string \<Rightarrow> string" where
  "body_sha256 body = hexdigest (sha256 body)"

definition newline :: char where "newline = char_of (10::nat)"

definition upper_char :: "char \<Rightarrow> char" where
  "upper_char c = (let n = of_char c :: nat in if 97 \<le> n \<and> n \<le> 122 then char_of (n - 32) else c)"

definition upper :: "string \<Rightarrow> string" where
  "upper s = map upper_char s"

definition canonical_request ::
    "string \<Rightarrow> string \<Rightarrow> string \<Rightarrow> string \<Rightarrow> string \<Rightarrow> string \<Rightarrow> string \<Rightarrow> string" where
  "canonical_request http_method path agent_id timestamp nonce key_id body_hash =
     join_with newline [upper http_method, path, agent_id, timestamp, nonce, key_id, body_hash]"

definition sign_hmac :: "string \<Rightarrow> string \<Rightarrow> string" where
  "sign_hmac secret canonical = hexdigest (hmac_sha256 secret canonical)"

definition is_ascii :: "string \<Rightarrow> bool" where
  "is_ascii s \<longleftrightarrow> list_all (\<lambda>c. (of_char c :: nat) < 128) s"

definition constant_time_equals :: "string \<Rightarrow> string \<Rightarrow> bool" where
  "constant_time_equals left right =
     (if is_ascii left \<and> is_ascii right then left = right else False)"

datatype crypto_error = ValueError string

record shared_secret_provider =
  ss_current_key_id :: string
  ss_current_secret :: string
  ss_previous_key_id :: "string option"
  ss_previous_secret :: "string option"

text \<open>Python's truth value of an optional string.\<close>

definition truthy :: "string option \<Rightarrow> bool" where
  "truthy s \<longleftrightarrow> s \<noteq> None \<and> s \<noteq> Some []"

definition shared_get_secret ::
    "shared_secret_provider \<Rightarrow> string \<Rightarrow> string \<Rightarrow> crypto_error + string option" where
  "shared_get_secret p agent_id key_id =
     (if key_id = ss_current_key_id p then Inr (Some (ss_current_secret p))
      else if truthy (ss_previous_key_id p) \<and> truthy (ss_previous_secret p)
              \<and> Some key_id = ss_previous_key_id p
      then Inr (ss_previous_secret p)
      else Inr None)"

section \<open>\<open>tomiris_common/crypto.py\<close>\<close>

function hkdf_expand ::
    "string \<Rightarrow> string \<Rightarrow> nat \<Rightarrow> string \<Rightarrow> nat \<Rightarrow> string \<Rightarrow> crypto_error + string" where
  "hkdf_expand prk info len previous counter collected =
     (if length collected < len then
        if 255 < counter then Inl (ValueError ''bytes must be in range(0, 256)'')
        else let previous = hmac_sha256 prk (previous @ info @ [char_of counter])
             in hkdf_expand prk info len previous (counter + 1) (collected @ previous)
      else Inr (take len collected))"
  by pat_completeness auto
termination by (relation "measure (\<lambda>(prk, info, len, previous, counter, collected). len - length collected)") auto

declare hkdf_expand.simps [simp del]

definition hkdf_sha256 :: "string \<Rightarrow> string \<Rightarrow> string \<Rightarrow> nat \<Rightarrow> crypto_error + string" where
  "hkdf_sha256 input_key_material salt info len =
     guard (input_key_material = []) (ValueError ''input key material must not be empty'')
     (guard (len < 1 \<or> 255 * 32 < len) (ValueError ''invalid HKDF output length'')
        (hkdf_expand (hmac_sha256 salt input_key_material) info len [] 1 []))"

definition derivation_info :: "string \<Rightarrow> string \<Rightarrow> string \<Rightarrow> string" where
  "derivation_info purpose agent_id key_id =
     ''tomiris:v1:'' @ purpose @ '':'' @ agent_id @ '':'' @ key_id"

definition derive_agent_secret ::
    "string \<Rightarrow> string \<Rightarrow> string \<Rightarrow> string \<Rightarrow> crypto_error + string" where
  "derive_agent_secret master_secret agent_id purpose key_id =
     guard (purpose \<noteq> ''hub-ingest'' \<and> purpose \<noteq> ''orchestrator-command'')
       (ValueError ''unsupported credential purpose'')
     (guard (length master_secret < 32)
        (ValueError ''master secret must contain at least 32 characters'')
        (case hkdf_sha256 master_secret ''tomiris-derived-agent-secret-v1''
                (derivation_info purpose agent_id key_id) 32 of
           Inl e \<Rightarrow> Inl e
         | Inr derived \<Rightarrow> Inr (urlsafe_b64 (map of_char derived))))"

record derived_secret_provider =
  ds_master_secret :: string
  ds_current_key_id :: string
  ds_purpose :: string
  ds_previous_master_secret :: "string option"
  ds_previous_key_id :: "string option"

definition derived_get_secret ::
    "derived_secret_provider \<Rightarrow> string \<Rightarrow> string \<Rightarrow> crypto_error + string option" where
  "derived_get_secret p agent_id key_id =
     (if key_id = ds_current_key_id p
      then map_sum id Some (derive_agent_secret (ds_master_secret p) agent_id (ds_purpose p) key_id)
      else case (ds_previous_key_id p, ds_previous_master_secret p) of
        (Some previous_key, Some previous_master) \<Rightarrow>
          if previous_key \<noteq> [] \<and> previous_master \<noteq> [] \<and> key_id = previous_key
          then map_sum id Some (derive_agent_secret previous_master agent_id (ds_purpose p) key_id)
          else Inr None
      | _ \<Rightarrow> Inr None)"

section \<open>What a secret provider promises\<close>

text \<open>The authenticators rely on a provider to know exactly the configured key identifiers.\<close>

locale secret_provider =
  fixes get_secret :: "string \<Rightarrow> string \<Rightarrow> crypto_error + string option"
    and keys :: "string set"
  assumes unknown_key: "k \<notin> keys \<Longrightarrow> get_secret a k = Inr None"
    and known_key: "k \<in> keys \<Longrightarrow> get_secret a k \<noteq> Inr None"
begin

lemma secret_key: "get_secret a k = Inr (Some s) \<Longrightarrow> k \<in> keys"
  using unknown_key by fastforce

end

definition shared_keys :: "shared_secret_provider \<Rightarrow> string set" where
  "shared_keys p = insert (ss_current_key_id p)
     (if truthy (ss_previous_key_id p) \<and> truthy (ss_previous_secret p)
      then {the (ss_previous_key_id p)} else {})"

definition derived_keys :: "derived_secret_provider \<Rightarrow> string set" where
  "derived_keys p = insert (ds_current_key_id p)
     (if truthy (ds_previous_key_id p) \<and> truthy (ds_previous_master_secret p)
      then {the (ds_previous_key_id p)} else {})"

interpretation shared_provider: secret_provider "shared_get_secret p" "shared_keys p"
  for p :: shared_secret_provider
  by unfold_locales (auto simp: shared_get_secret_def shared_keys_def truthy_def split: if_splits)

interpretation derived_provider: secret_provider "derived_get_secret p" "derived_keys p"
  for p :: derived_secret_provider
proof
  have some: "map_sum id Some x \<noteq> Inr None" for x :: "crypto_error + string"
    by (cases x) simp_all
  fix k a
  show "k \<notin> derived_keys p \<Longrightarrow> derived_get_secret p a k = Inr None"
    by (auto simp: derived_get_secret_def derived_keys_def truthy_def split: option.splits if_splits)
  show "k \<in> derived_keys p \<Longrightarrow> derived_get_secret p a k \<noteq> Inr None"
    using some by (auto simp: derived_get_secret_def derived_keys_def truthy_def split: option.splits if_splits)
qed

section \<open>Texts determine their fields\<close>

lemma split_at_sep:
  "sep \<notin> set x \<Longrightarrow> sep \<notin> set y \<Longrightarrow> x @ sep # r = y @ sep # s \<longleftrightarrow> x = y \<and> r = s"
  by (auto simp: append_eq_append_conv2 append_eq_Cons_conv Cons_eq_append_conv)

lemma join_with_inj:
  "length xs = length ys \<Longrightarrow> list_all (\<lambda>x. sep \<notin> set x) xs \<Longrightarrow> list_all (\<lambda>y. sep \<notin> set y) ys \<Longrightarrow>
   join_with sep xs = join_with sep ys \<longleftrightarrow> xs = ys"
proof (induction xs ys rule: list_induct2)
  case (Cons x xs y ys)
  then show ?case
    by (cases xs; cases ys) (auto simp: split_at_sep)
qed simp

lemma hkdf_expand_length:
  "hkdf_expand prk info len previous counter collected = Inr bs \<Longrightarrow> length bs = len"
proof (induction prk info len previous counter collected rule: hkdf_expand.induct)
  case (1 prk info len previous counter collected)
  then show ?case
    by (subst (asm) (2) hkdf_expand.simps) (auto simp: Let_def split: if_splits)
qed

lemma hkdf_expand_returns:
  "len \<le> length collected + 32 * (256 - counter) \<Longrightarrow> counter \<le> 256 \<Longrightarrow>
   \<exists>bs. hkdf_expand prk info len previous counter collected = Inr bs"
proof (induction prk info len previous counter collected rule: hkdf_expand.induct)
  case (1 prk info len previous counter collected)
  show ?case
  proof (cases "length collected < len")
    case True
    with 1(2,3) have "counter \<le> 255" by (cases "counter = 256") auto
    with 1 True show ?thesis
      by (subst hkdf_expand.simps) (auto simp: Let_def)
  next
    case False
    then show ?thesis by (subst hkdf_expand.simps) simp
  qed
qed

text \<open>HKDF is total on the lengths that RFC 5869 allows: for non-empty key material and a
  length between 1 and 8160 bytes, the block counter never leaves one byte, the loop ends, and
  exactly the requested number of bytes is returned; any other length, or empty key material,
  is rejected.\<close>

theorem hkdf_length:
  "(if ikm \<noteq> [] \<and> 1 \<le> len \<and> len \<le> 255 * 32
    then (case hkdf_sha256 ikm salt info len of Inr bs \<Rightarrow> length bs = len | Inl _ \<Rightarrow> False)
    else (case hkdf_sha256 ikm salt info len of Inl _ \<Rightarrow> True | Inr _ \<Rightarrow> False))"
proof (cases "ikm \<noteq> [] \<and> 1 \<le> len \<and> len \<le> 255 * 32")
  case True
  then obtain bs where "hkdf_sha256 ikm salt info len = Inr bs"
    using hkdf_expand_returns [of len "[]" 1 "hmac_sha256 salt ikm" info "[]"]
    by (auto simp: hkdf_sha256_def guard_def)
  moreover from this have "length bs = len"
    using hkdf_expand_length by (auto simp: hkdf_sha256_def guard_def split: if_splits)
  ultimately show ?thesis using True by simp
qed (auto simp: hkdf_sha256_def guard_def)

text \<open>Domain separation of derived secrets: the HKDF info text determines purpose, agent and
  key identifier, for purposes, agent identifiers and key identifiers without a colon (the
  patterns that the authenticators enforce exclude it).\<close>

theorem derivation_info_inj:
  assumes "CHR '':'' \<notin> set purpose" "CHR '':'' \<notin> set purpose'"
    and "CHR '':'' \<notin> set agent" "CHR '':'' \<notin> set agent'"
  shows "derivation_info purpose agent key_id = derivation_info purpose' agent' key_id'
     \<longleftrightarrow> purpose = purpose' \<and> agent = agent' \<and> key_id = key_id'"
  using assms by (simp add: derivation_info_def split_at_sep)

theorem derivation_info_inj_witness:
  "derivation_info ''hub-ingest'' ''AGENT_1'' ''k1'' \<noteq> derivation_info ''orchestrator-command'' ''AGENT_1'' ''k1''"
  using derivation_info_inj [of "''hub-ingest''" "''orchestrator-command''" "''AGENT_1''" "''AGENT_1''" "''k1''" "''k1''"]
  by simp

end
