(* ===== verification/Binary64.thy ===== *)
theory Binary64
  imports Prelude "HOL-Library.Log_Nat"
begin

text \<open>
  Python's \<open>float\<close> on finite values.  A float is the rational number it denotes and every
  arithmetic operation is the exact operation followed by \<open>rnd64\<close>, IEEE 754 rounding to
  binary64, ties to even, with gradual underflow.  The theory proves what the components
  need of rounding: it is monotone, odd, and the identity on numbers that are
  representable, in particular on integers up to \<open>2^53\<close>.  Signed zeros are identified;
  \<open>fits64\<close> says that a result does not overflow to an infinity.  The theory also holds
  \<open>timedelta(seconds=x)\<close> for a float \<open>x\<close> and \<open>timedelta.total_seconds\<close>.
\<close>

section \<open>Rounding to an integer, ties to even\<close>

definition round_half_even :: "rat \<Rightarrow> int" where
  "round_half_even q =
     (let f = \<lfloor>q\<rfloor>; d = q - of_int f
      in if d < 1/2 then f else if 1/2 < d then f + 1 else if even f then f else f + 1)"

lemma rhe_of_int [simp]: "round_half_even (of_int n) = n"
  by (simp add: round_half_even_def)

lemma rhe_lower: "q - 1/2 \<le> of_int (round_half_even q)"
  and rhe_upper: "of_int (round_half_even q) \<le> q + 1/2"
  by (auto simp: round_half_even_def Let_def; linarith)+

lemma rhe_floor_cases: "round_half_even q = \<lfloor>q\<rfloor> \<or> round_half_even q = \<lfloor>q\<rfloor> + 1"
  by (simp add: round_half_even_def Let_def)

lemma rhe_mono: "p \<le> q \<Longrightarrow> round_half_even p \<le> round_half_even q"
proof -
  assume le: "p \<le> q"
  then have fl: "\<lfloor>p\<rfloor> \<le> \<lfloor>q\<rfloor>" by (rule floor_mono)
  show ?thesis
  proof (cases "\<lfloor>p\<rfloor> = \<lfloor>q\<rfloor>")
    case True
    with le show ?thesis by (auto simp: round_half_even_def Let_def)
  next
    case False
    with fl have "\<lfloor>p\<rfloor> + 1 \<le> \<lfloor>q\<rfloor>" by simp
    then show ?thesis using rhe_floor_cases [of p] rhe_floor_cases [of q] by auto
  qed
qed

lemma rhe_le_int: "q \<le> of_int n \<Longrightarrow> round_half_even q \<le> n"
  using rhe_mono [of q "of_int n"] by simp

lemma rhe_ge_int: "of_int n \<le> q \<Longrightarrow> n \<le> round_half_even q"
  using rhe_mono [of "of_int n" q] by simp

lemma floor_uminus_frac: "q \<noteq> of_int \<lfloor>q\<rfloor> \<Longrightarrow> \<lfloor>- q\<rfloor> = - \<lfloor>q\<rfloor> - (1::int)" for q :: rat
  by (rule floor_unique) (use of_int_floor_le [of q] in auto; linarith)+

lemma rhe_uminus: "round_half_even (- q) = - round_half_even q"
proof (cases "q = of_int \<lfloor>q\<rfloor>")
  case True
  then obtain n where q: "q = of_int n" by blast
  have "round_half_even (of_int (- n)) = - n" by (rule rhe_of_int)
  then show ?thesis by (simp add: q)
next
  case False
  then show ?thesis
    by (auto simp: round_half_even_def Let_def floor_uminus_frac)
qed

section \<open>The binary exponent\<close>

text \<open>\<open>ilog2 q\<close> is the exponent \<open>k\<close> with \<open>2^k \<le> q < 2^(k+1)\<close>, for positive \<open>q\<close>.\<close>

definition ilog2 :: "rat \<Rightarrow> int" where
  "ilog2 q =
     (let (a, b) = quotient_of q; k = bitlen a - bitlen b
      in if 2 powi k \<le> q then k else k - 1)"

lemma powi_pos [simp]: "0 < (2::rat) powi k"
  by (simp add: zero_less_power_int)

lemma powi_add: "(2::rat) powi (j + k) = 2 powi j * 2 powi k"
  by (rule power_int_add) simp

lemma powi_mono: "j \<le> k \<Longrightarrow> (2::rat) powi j \<le> 2 powi k"
  by (rule power_int_increasing) auto

lemma powi_strict: "j < k \<Longrightarrow> (2::rat) powi j < 2 powi k"
  by (rule power_int_strict_increasing) auto

lemma powi_less_imp: "(2::rat) powi j < 2 powi k \<Longrightarrow> j < k"
  using powi_mono [of k j] by (meson linorder_not_le not_less)

lemma powi_int: "0 \<le> k \<Longrightarrow> (2::rat) powi k = of_int (2 ^ nat k)"
  by (simp add: power_int_def)

lemma bitlen_rat:
  assumes "0 < a"
  shows "(2::rat) powi (bitlen a - 1) \<le> of_int a" and "of_int a < (2::rat) powi bitlen a"
proof -
  have b: "1 \<le> bitlen a" using assms bitlen_eq_zero_iff [of a] bitlen_nonneg [of a] by linarith
  have "2 ^ nat (bitlen a - 1) \<le> a" and "a < 2 ^ nat (bitlen a)"
    using bitlen_bounds [OF assms] by auto
  then have "of_int (2 ^ nat (bitlen a - 1)) \<le> (of_int a :: rat)"
    and "(of_int a :: rat) < of_int (2 ^ nat (bitlen a))"
    by (simp_all only: of_int_le_iff of_int_less_iff)
  then show "(2::rat) powi (bitlen a - 1) \<le> of_int a" and "of_int a < (2::rat) powi bitlen a"
    using b by (simp_all add: powi_int)
qed

lemma ilog2_bounds:
  assumes "0 < q"
  shows "2 powi ilog2 q \<le> q" and "q < 2 powi (ilog2 q + 1)"
proof -
  obtain a b where ab: "quotient_of q = (a, b)" by fastforce
  then have b: "0 < b" by (rule quotient_of_denom_pos)
  have q: "q = of_int a / of_int b" using ab by (rule quotient_of_div)
  with assms b have a: "0 < a" by (simp add: zero_less_divide_iff)
  let ?k = "bitlen a - bitlen b"
  have "q < 2 powi bitlen a / 2 powi (bitlen b - 1)"
    unfolding q by (rule frac_less) (use a b bitlen_rat in auto)
  also have "\<dots> = 2 powi (?k + 1)"
    by (simp add: power_int_diff power_int_add)
  finally have up: "q < 2 powi (?k + 1)" .
  have "2 powi (bitlen a - 1) / 2 powi bitlen b < q"
    unfolding q by (rule frac_less2) (use a b bitlen_rat in auto)
  then have lo: "2 powi (?k - 1) < q"
    by (simp add: power_int_diff power_int_add field_simps)
  show "2 powi ilog2 q \<le> q" and "q < 2 powi (ilog2 q + 1)"
    using up lo by (auto simp: ilog2_def ab Let_def not_le)
qed

lemma ilog2_mono:
  assumes "0 < p" and "p \<le> q"
  shows "ilog2 p \<le> ilog2 q"
proof -
  have "2 powi ilog2 p < (2::rat) powi (ilog2 q + 1)"
    using ilog2_bounds(1) [OF assms(1)] ilog2_bounds(2) [of q] assms by linarith
  then show ?thesis using powi_less_imp by fastforce
qed

section \<open>Rounding to binary64\<close>

definition exp64 :: "rat \<Rightarrow> int" where
  "exp64 q = max (ilog2 \<bar>q\<bar> - 52) (- 1074)"

definition rnd64 :: "rat \<Rightarrow> rat" where
  "rnd64 q = (if q = 0 then 0 else of_int (round_half_even (q / 2 powi exp64 q)) * 2 powi exp64 q)"

definition fits64 :: "rat \<Rightarrow> bool" where
  "fits64 q \<longleftrightarrow> \<bar>q\<bar> < 2 ^ 1024"

definition fadd :: "rat \<Rightarrow> rat \<Rightarrow> rat" where "fadd x y = rnd64 (x + y)"
definition fsub :: "rat \<Rightarrow> rat \<Rightarrow> rat" where "fsub x y = rnd64 (x - y)"
definition fmul :: "rat \<Rightarrow> rat \<Rightarrow> rat" where "fmul x y = rnd64 (x * y)"
definition fdiv :: "rat \<Rightarrow> rat \<Rightarrow> rat" where "fdiv x y = rnd64 (x / y)"

lemma rnd64_0 [simp]: "rnd64 0 = 0"
  by (simp add: rnd64_def)

lemma rnd64_uminus: "rnd64 (- q) = - rnd64 q"
  by (simp add: rnd64_def exp64_def rhe_uminus)

text \<open>The numbers that binary64 represents, up to overflow.\<close>

definition repr64 :: "rat \<Rightarrow> bool" where
  "repr64 q \<longleftrightarrow> (\<exists>m e. \<bar>m\<bar> \<le> 2 ^ 53 \<and> - 1074 \<le> e \<and> q = of_int m * 2 powi e)"

lemma repr64I: "\<bar>m\<bar> \<le> 2 ^ 53 \<Longrightarrow> - 1074 \<le> e \<Longrightarrow> q = of_int m * 2 powi e \<Longrightarrow> repr64 q"
  unfolding repr64_def by blast

lemma repr64_of_int: "\<bar>n\<bar> \<le> 2 ^ 53 \<Longrightarrow> repr64 (of_int n)"
  by (rule repr64I [where e = 0]) auto

lemma scaled_upper:
  assumes "q \<noteq> 0"
  shows "\<bar>q\<bar> < 2 powi (exp64 q + 53)"
proof -
  have "\<bar>q\<bar> < 2 powi (ilog2 \<bar>q\<bar> + 1)" by (rule ilog2_bounds) (use assms in simp)
  also have "\<dots> \<le> 2 powi (exp64 q + 53)" by (rule powi_mono) (simp add: exp64_def)
  finally show ?thesis .
qed

lemma rnd64_exact:
  assumes "repr64 q"
  shows "rnd64 q = q"
proof (cases "q = 0")
  case True
  then show ?thesis by simp
next
  case False
  obtain m e where m: "\<bar>m\<bar> \<le> 2 ^ 53" and e: "- 1074 \<le> e" and q: "q = of_int m * 2 powi e"
    using assms by (auto simp: repr64_def)
  have "\<exists>n. q / 2 powi exp64 q = of_int n"
  proof (cases "exp64 q \<le> e")
    case True
    then have "q / 2 powi exp64 q = of_int m * 2 powi (e - exp64 q)"
      by (simp add: q power_int_diff)
    also have "\<dots> = of_int (m * 2 ^ nat (e - exp64 q))"
      using True by (simp add: powi_int)
    finally show ?thesis by blast
  next
    case False
    with e have k: "exp64 q = ilog2 \<bar>q\<bar> - 52" and gt: "e + 53 \<le> ilog2 \<bar>q\<bar>"
      by (auto simp: exp64_def)
    have "(2::rat) powi 53 * 2 powi e \<le> 2 powi ilog2 \<bar>q\<bar>"
      using powi_mono [OF gt] by (simp add: powi_add mult.commute)
    also have "\<dots> \<le> \<bar>q\<bar>" by (rule ilog2_bounds) (use \<open>q \<noteq> 0\<close> in simp)
    also have "\<dots> = of_int \<bar>m\<bar> * 2 powi e" by (simp add: q abs_mult)
    finally have "(2::rat) powi 53 \<le> of_int \<bar>m\<bar>" by simp
    then have "(2::int) ^ 53 \<le> \<bar>m\<bar>" using of_int_le_iff [of "2 ^ 53" "\<bar>m\<bar>", where ?'a = rat] by simp
    with m have am: "\<bar>m\<bar> = 2 ^ 53" by simp
    have "\<bar>q\<bar> = 2 powi (e + 53)" using am
      by (simp add: q abs_mult powi_add flip: of_int_abs)
    then have "ilog2 \<bar>q\<bar> < e + 54"
      using ilog2_bounds(1) [of "\<bar>q\<bar>"] \<open>q \<noteq> 0\<close> powi_strict [of "e + 53" "e + 54"]
      by (intro powi_less_imp) auto
    with gt k have "exp64 q = e + 1" by simp
    then have "q / 2 powi exp64 q = of_int m / 2" by (simp add: q powi_add)
    moreover have "even m"
    proof -
      have "even \<bar>m\<bar>" unfolding am by simp
      then show ?thesis by simp
    qed
    ultimately show ?thesis by (metis dvd_mult_div_cancel nonzero_mult_div_cancel_left of_int_mult of_int_numeral zero_neq_numeral)
  qed
  then obtain n where n: "q / 2 powi exp64 q = of_int n" by blast
  then have "q = of_int n * 2 powi exp64 q" by (simp add: field_simps)
  with n False show ?thesis by (simp add: rnd64_def)
qed

lemma rnd64_of_int [simp]: "\<bar>n\<bar> \<le> 2 ^ 53 \<Longrightarrow> rnd64 (of_int n) = of_int n"
  by (simp add: rnd64_exact repr64_of_int)

lemma rnd64_nonneg:
  assumes "0 \<le> q"
  shows "0 \<le> rnd64 q"
proof -
  have "0 \<le> round_half_even (q / 2 powi exp64 q)"
    by (rule rhe_ge_int) (use assms in simp)
  then show ?thesis by (simp add: rnd64_def)
qed

lemma rnd64_mono_pos:
  assumes p: "0 < p" and pq: "p \<le> q"
  shows "rnd64 p \<le> rnd64 q"
proof -
  have le: "exp64 p \<le> exp64 q" using ilog2_mono [OF assms] assms by (auto simp: exp64_def)
  show ?thesis
  proof (cases "exp64 p = exp64 q")
    case True
    have "round_half_even (p / 2 powi exp64 q) \<le> round_half_even (q / 2 powi exp64 q)"
      by (rule rhe_mono) (use pq in \<open>simp add: divide_right_mono\<close>)
    with True assms show ?thesis by (simp add: rnd64_def)
  next
    case False
    with le have lt: "exp64 p + 1 \<le> exp64 q" by simp
    have "p / 2 powi exp64 p \<le> of_int (2 ^ 53)"
      using scaled_upper [of p] p by (simp add: powi_add field_simps)
    then have "round_half_even (p / 2 powi exp64 p) \<le> 2 ^ 53" by (rule rhe_le_int)
    then have "of_int (round_half_even (p / 2 powi exp64 p)) \<le> (2::rat) ^ 53"
      using of_int_le_iff [of _ "2 ^ 53", where ?'a = rat] by simp
    then have "rnd64 p \<le> 2 ^ 53 * 2 powi exp64 p" using p by (simp add: rnd64_def)
    also have "\<dots> = 2 powi (exp64 p + 53)" by (simp add: powi_add)
    also have "\<dots> \<le> 2 powi (exp64 q + 52)" by (rule powi_mono) (use lt in simp)
    also have "\<dots> = 2 ^ 52 * 2 powi exp64 q" by (simp add: powi_add)
    also have "\<dots> \<le> rnd64 q"
    proof -
      have "exp64 q = ilog2 \<bar>q\<bar> - 52" using lt by (auto simp: exp64_def)
      then have "2 powi (exp64 q + 52) \<le> q" using ilog2_bounds(1) [of q] p pq by simp
      then have "of_int (2 ^ 52) \<le> q / 2 powi exp64 q" by (simp add: powi_add field_simps)
      then have "2 ^ 52 \<le> round_half_even (q / 2 powi exp64 q)" by (rule rhe_ge_int)
      then have "(2::rat) ^ 52 \<le> of_int (round_half_even (q / 2 powi exp64 q))"
        using of_int_le_iff [of "2 ^ 52", where ?'a = rat] by simp
      with p pq show ?thesis by (simp add: rnd64_def)
    qed
    finally show ?thesis .
  qed
qed

lemma rnd64_mono:
  assumes "p \<le> q"
  shows "rnd64 p \<le> rnd64 q"
proof (cases "0 < p")
  case True
  then show ?thesis using assms by (rule rnd64_mono_pos)
next
  case np: False
  show ?thesis
  proof (cases "q < 0")
    case True
    then have "rnd64 (- q) \<le> rnd64 (- p)" using assms by (intro rnd64_mono_pos) auto
    then show ?thesis by (simp add: rnd64_uminus)
  next
    case False
    then have "0 \<le> rnd64 q" by (simp add: rnd64_nonneg)
    moreover have "0 \<le> rnd64 (- p)" using np by (intro rnd64_nonneg) auto
    ultimately show ?thesis by (simp add: rnd64_uminus)
  qed
qed

text \<open>A representable bound survives rounding.\<close>

lemma rnd64_le: "q \<le> r \<Longrightarrow> repr64 r \<Longrightarrow> rnd64 q \<le> r"
  using rnd64_mono rnd64_exact by metis

lemma rnd64_ge: "r \<le> q \<Longrightarrow> repr64 r \<Longrightarrow> r \<le> rnd64 q"
  using rnd64_mono rnd64_exact by metis

section \<open>Durations from floats\<close>

definition trunc_rat :: "rat \<Rightarrow> int" where
  "trunc_rat q = (if 0 \<le> q then \<lfloor>q\<rfloor> else \<lceil>q\<rceil>)"

text \<open>
  \<open>timedelta(seconds=x)\<close>: the whole seconds are exact, the fraction is scaled to
  microseconds in floating point and the total is rounded, ties to even.
\<close>

definition td_seconds :: "rat \<Rightarrow> duration" where
  "td_seconds x =
     (let whole = trunc_rat x; frac = x - of_int whole
      in if frac = 0 then seconds whole
         else round_half_even (of_int (seconds whole) + fmul 1000000 frac))"

text \<open>\<open>d.total_seconds()\<close>, the correctly rounded quotient.\<close>

definition total_seconds :: "duration \<Rightarrow> rat" where
  "total_seconds d = rnd64 (of_int d / 1000000)"

text \<open>\<open>int(t.timestamp())\<close>.\<close>

definition int_timestamp :: "instant \<Rightarrow> int" where
  "int_timestamp t = trunc_rat (total_seconds t)"

lemma td_seconds_of_int [simp]: "td_seconds (of_int n) = seconds n"
  by (simp add: td_seconds_def trunc_rat_def)

lemma repr64_half: "repr64 (1/2)"
  by (rule repr64I [where m = 1 and e = "- 1"]) (auto simp: power_int_def)

lemma repr64_half_int: "\<bar>n\<bar> \<le> 2 ^ 53 \<Longrightarrow> repr64 (of_int n / 2)"
  by (rule repr64I [where m = n and e = "- 1"]) (auto simp: power_int_def)

lemma td_seconds_le_int:
  assumes "0 \<le> x" and "x \<le> of_int n"
  shows "td_seconds x \<le> seconds n"
proof (cases "x = of_int \<lfloor>x\<rfloor>")
  case True
  with assms have "\<lfloor>x\<rfloor> \<le> n" by linarith
  with True assms(1) show ?thesis by (simp add: td_seconds_def trunc_rat_def)
next
  case False
  let ?f = "x - of_int \<lfloor>x\<rfloor>"
  have "?f < 1" by linarith
  then have "fmul 1000000 ?f \<le> of_int 1000000"
    unfolding fmul_def by (intro rnd64_le repr64_of_int) auto
  then have "round_half_even (of_int (seconds \<lfloor>x\<rfloor>) + fmul 1000000 ?f) \<le> seconds \<lfloor>x\<rfloor> + 1000000"
    by (intro rhe_le_int) simp
  moreover from False assms(2) have "\<lfloor>x\<rfloor> + 1 \<le> n" by linarith
  ultimately show ?thesis using False assms(1) by (simp add: td_seconds_def trunc_rat_def Let_def)
qed

lemma td_seconds_ge_half:
  assumes "0 \<le> n" and "of_int n / 2 \<le> x"
  shows "n * 500000 \<le> td_seconds x"
proof -
  have x: "0 \<le> x" using assms by (meson divide_nonneg_nonneg of_int_0_le_iff order_trans zero_le_numeral)
  let ?f = "x - of_int \<lfloor>x\<rfloor>"
  have f: "0 \<le> ?f" "?f < 1" by linarith+
  define k where "k = (if 1/2 \<le> ?f then 1 else 0 :: int)"
  have "of_int (k * 500000) \<le> fmul 1000000 ?f"
    unfolding fmul_def by (intro rnd64_ge repr64_of_int) (use f in \<open>auto simp: k_def\<close>)
  then have "seconds \<lfloor>x\<rfloor> + k * 500000 \<le> round_half_even (of_int (seconds \<lfloor>x\<rfloor>) + fmul 1000000 ?f)"
    by (intro rhe_ge_int) simp
  moreover have "?f = 0 \<Longrightarrow> k = 0" by (simp add: k_def)
  ultimately have "seconds \<lfloor>x\<rfloor> + k * 500000 \<le> td_seconds x"
    using x by (auto simp: td_seconds_def trunc_rat_def Let_def)
  moreover have "n \<le> 2 * \<lfloor>x\<rfloor> + k"
    using assms(2) f by (auto simp: k_def; linarith)
  ultimately show ?thesis by linarith
qed

lemma total_seconds_nonneg: "0 \<le> d \<Longrightarrow> 0 \<le> total_seconds d"
  by (simp add: total_seconds_def rnd64_nonneg)

lemma total_seconds_mono: "d \<le> d' \<Longrightarrow> total_seconds d \<le> total_seconds d'"
  by (simp add: total_seconds_def rnd64_mono divide_right_mono)

lemma total_seconds_seconds [simp]: "\<bar>n\<bar> \<le> 2 ^ 53 \<Longrightarrow> total_seconds (seconds n) = of_int n"
  by (simp add: total_seconds_def)

text \<open>Comparing a float number of seconds with an integer limit is exact.\<close>

lemma total_seconds_le_iff:
  assumes n: "\<bar>n\<bar> \<le> 2 ^ 32"
  shows "total_seconds d \<le> of_int n \<longleftrightarrow> d \<le> seconds n"
proof
  assume "d \<le> seconds n"
  then have "total_seconds d \<le> total_seconds (seconds n)" by (rule total_seconds_mono)
  with n show "total_seconds d \<le> of_int n" by simp
next
  assume le: "total_seconds d \<le> of_int n"
  show "d \<le> seconds n"
  proof (rule ccontr)
    assume "\<not> d \<le> seconds n"
    then have d: "seconds n + 1 \<le> d" by simp
    let ?r = "of_int n + 1 / 2 ^ 20 :: rat"
    have "?r = of_int (n * 2 ^ 20 + 1) * 2 powi (- 20)"
      by (simp add: power_int_def field_simps)
    then have "repr64 ?r" by (rule repr64I [rotated 2]) (use n in auto)
    moreover have "?r \<le> of_int d / 1000000"
    proof -
      have "of_int (seconds n + 1) \<le> (of_int d :: rat)" using d by (simp only: of_int_le_iff)
      then show ?thesis by (simp add: field_simps)
    qed
    ultimately have "?r \<le> total_seconds d" unfolding total_seconds_def by (intro rnd64_ge)
    with le have "(1::rat) / 2 ^ 20 \<le> 0" by linarith
    then show False by simp
  qed
qed

lemma total_seconds_ge_iff:
  assumes "\<bar>n\<bar> \<le> 2 ^ 32"
  shows "of_int n \<le> total_seconds d \<longleftrightarrow> seconds n \<le> d"
proof -
  have "total_seconds (- d) = - total_seconds d" by (simp add: total_seconds_def rnd64_uminus)
  with total_seconds_le_iff [of "- n" "- d"] assms show ?thesis by simp
qed

end
