(* ===== verification/Auth.thy ===== *)
theory Auth
  imports Texts Crypto Binary64
begin

text \<open>
  The two request authenticators: \<open>HmacAuthenticator\<close> of
  \<open>src/tomiris_hub/services/authentication.py\<close> (agents calling the hub) and
  \<open>CommandAuthenticator\<close> of \<open>src/tomiris_agent_runtime/security.py\<close> (the orchestrator calling
  an agent), with the header builder of the latter.  Both check the shape of the headers, the
  clock skew and an HMAC over a canonical text.

  A raised \<open>HubError\<close> is its code and status; \<open>Crashed\<close> is an exception that the callers do not
  turn into a rejection.  The nonce of \<open>build_command_headers\<close> is an argument, since
  \<open>generate_nonce\<close> is random.
\<close>

section \<open>Header shapes\<close>

datatype hub_error = HubError string int | Crashed crypto_error

text \<open>\<open>[A-Za-z0-9_-]{22,256}\<close>\<close>

definition nonce_pattern :: "string \<Rightarrow> bool" where
  "nonce_pattern s \<longleftrightarrow> 22 \<le> length s \<and> length s \<le> 256 \<and>
     list_all (\<lambda>c. is_upper c \<or> is_lower c \<or> is_digit c \<or> c \<in> set ''_-'') s"

text \<open>\<open>[0-9a-fA-F]{64}\<close>\<close>

definition signature_pattern :: "string \<Rightarrow> bool" where
  "signature_pattern s \<longleftrightarrow> length s = 64 \<and> list_all is_hex s"

text \<open>\<open>-?[0-9]{1,20}\<close>, and its value\<close>

definition timestamp_digits :: "string \<Rightarrow> string" where
  "timestamp_digits s = (case s of c # cs \<Rightarrow> if c = CHR ''-'' then cs else s | [] \<Rightarrow> [])"

definition timestamp_pattern :: "string \<Rightarrow> bool" where
  "timestamp_pattern s \<longleftrightarrow>
     (let ds = timestamp_digits s in 1 \<le> length ds \<and> length ds \<le> 20 \<and> list_all is_digit ds)"

definition int_of_text :: "string \<Rightarrow> int" where
  "int_of_text s =
     (if s \<noteq> [] \<and> hd s = CHR ''-'' then - digits_value (tl s) else digits_value s)"

text \<open>\<open>[A-Za-z0-9._-]{1,64}\<close>\<close>

definition key_id_pattern :: "string \<Rightarrow> bool" where
  "key_id_pattern s \<longleftrightarrow> 1 \<le> length s \<and> length s \<le> 64 \<and>
     list_all (\<lambda>c. is_upper c \<or> is_lower c \<or> is_digit c \<or> c \<in> set ''._-'') s"

text \<open>\<open>datetime.fromtimestamp(t, tz=UTC)\<close>: the years 1 to 9999.\<close>

definition from_timestamp :: "int \<Rightarrow> instant option" where
  "from_timestamp t = (if - 62135596800 \<le> t \<and> t \<le> 253402300799 then Some (seconds t) else None)"

section \<open>\<open>HmacAuthenticator\<close>\<close>

record auth_headers =
  ah_agent_id :: string
  ah_timestamp :: string
  ah_nonce :: string
  ah_key_id :: string
  ah_signature :: string

definition hub_verify ::
    "(string \<Rightarrow> string \<Rightarrow> crypto_error + string option) \<Rightarrow> instant \<Rightarrow> int \<Rightarrow> string \<Rightarrow> string \<Rightarrow>
     auth_headers \<Rightarrow> string \<Rightarrow> hub_error + instant" where
  "hub_verify get_secret now max_skew_seconds http_method path h body =
     guard (\<not> agent_id_pattern (ah_agent_id h)) (HubError ''MALFORMED_AGENT_ID'' 401)
     (guard (\<not> key_id_pattern (ah_key_id h)) (HubError ''MALFORMED_KEY_ID'' 401)
     (guard (\<not> nonce_pattern (ah_nonce h)) (HubError ''INVALID_NONCE'' 401)
     (guard (\<not> signature_pattern (ah_signature h)) (HubError ''MALFORMED_SIGNATURE'' 401)
     (guard (\<not> timestamp_pattern (ah_timestamp h)) (HubError ''INVALID_TIMESTAMP'' 401)
     (case from_timestamp (int_of_text (ah_timestamp h)) of
        None \<Rightarrow> Inl (HubError ''INVALID_TIMESTAMP'' 401)
      | Some received_at \<Rightarrow>
          (let delta = total_seconds (now - received_at)
           in guard (of_int max_skew_seconds < delta) (HubError ''AUTH_TIMESTAMP_TOO_OLD'' 401)
             (guard (delta < - of_int max_skew_seconds) (HubError ''AUTH_TIMESTAMP_IN_FUTURE'' 401)
             (case get_secret (ah_agent_id h) (ah_key_id h) of
                Inl e \<Rightarrow> Inl (Crashed e)
              | Inr None \<Rightarrow> Inl (HubError ''UNKNOWN_KEY_ID'' 401)
              | Inr (Some secret) \<Rightarrow>
                  let canonical = canonical_request http_method path (ah_agent_id h) (ah_timestamp h)
                        (ah_nonce h) (ah_key_id h) (body_sha256 body);
                      expected = sign_hmac secret canonical
                  in guard (\<not> constant_time_equals expected (ah_signature h))
                       (HubError ''INVALID_SIGNATURE'' 401) (Inr received_at)))))))))"

section \<open>\<open>CommandAuthenticator\<close>\<close>

definition canonical_command ::
    "string \<Rightarrow> string \<Rightarrow> string \<Rightarrow> string \<Rightarrow> string \<Rightarrow> string \<Rightarrow> string \<Rightarrow> string \<Rightarrow> string" where
  "canonical_command http_method path orchestrator_id target_agent_id timestamp nonce key_id body_hash =
     join_with newline [upper http_method, path, orchestrator_id, target_agent_id, timestamp, nonce,
       key_id, body_hash]"

record command_headers =
  ch_orchestrator_id :: string
  ch_timestamp :: string
  ch_nonce :: string
  ch_key_id :: string
  ch_signature :: string

definition build_command_headers ::
    "string \<Rightarrow> string \<Rightarrow> string \<Rightarrow> string \<Rightarrow> string \<Rightarrow> int \<Rightarrow> string \<Rightarrow> command_headers" where
  "build_command_headers orchestrator_id target_agent_id key_id secret body timestamp nonce =
     (let timestamp_value = int_str timestamp;
          canonical = canonical_command ''POST'' ''/v1/analyze'' orchestrator_id target_agent_id
            timestamp_value nonce key_id (body_sha256 body)
      in \<lparr>ch_orchestrator_id = orchestrator_id, ch_timestamp = timestamp_value, ch_nonce = nonce,
          ch_key_id = key_id, ch_signature = sign_hmac secret canonical\<rparr>)"

record command_authenticator =
  ca_orchestrator_id :: string
  ca_target_agent_id :: string
  ca_key_id :: string
  ca_secret :: string
  ca_max_skew_seconds :: int

definition command_verify ::
    "command_authenticator \<Rightarrow> instant \<Rightarrow> command_headers \<Rightarrow> string \<Rightarrow> hub_error option" where
  "command_verify a now h body =
     (if ch_orchestrator_id h \<noteq> ca_orchestrator_id a then Some (HubError ''ORCHESTRATOR_ID_MISMATCH'' 401)
      else if ch_key_id h \<noteq> ca_key_id a then Some (HubError ''UNKNOWN_COMMAND_KEY_ID'' 401)
      else if \<not> nonce_pattern (ch_nonce h) then Some (HubError ''INVALID_COMMAND_NONCE'' 401)
      else if \<not> signature_pattern (ch_signature h) then Some (HubError ''MALFORMED_COMMAND_SIGNATURE'' 401)
      else if \<not> timestamp_pattern (ch_timestamp h) then Some (HubError ''INVALID_COMMAND_TIMESTAMP'' 401)
      else case from_timestamp (int_of_text (ch_timestamp h)) of
        None \<Rightarrow> Some (HubError ''INVALID_COMMAND_TIMESTAMP'' 401)
      | Some timestamp \<Rightarrow>
          let delta = total_seconds (now - timestamp) in
          if of_int (ca_max_skew_seconds a) < delta then Some (HubError ''COMMAND_EXPIRED'' 401)
          else if delta < - of_int (ca_max_skew_seconds a)
          then Some (HubError ''COMMAND_TIMESTAMP_IN_FUTURE'' 401)
          else
            let expected = sign_hmac (ca_secret a)
                  (canonical_command ''POST'' ''/v1/analyze'' (ch_orchestrator_id h)
                     (ca_target_agent_id a) (ch_timestamp h) (ch_nonce h) (ch_key_id h)
                     (body_sha256 body))
            in if \<not> constant_time_equals expected (ch_signature h)
               then Some (HubError ''INVALID_COMMAND_SIGNATURE'' 401)
               else None)"

section \<open>Shapes exclude the separator\<close>

lemma newline_code [simp]: "(of_char newline :: nat) = 10"
  by (simp add: newline_def)

lemma newline_classes [simp]:
  "\<not> is_upper newline" "\<not> is_lower newline" "\<not> is_digit newline" "\<not> is_hex newline"
  by (simp_all add: is_upper_def is_lower_def is_digit_def is_hex_def Let_def)

lemma newline_neq: "newline \<noteq> CHR ''_''" "newline \<noteq> CHR ''-''" "newline \<noteq> CHR ''.''"
  by (auto simp: newline_def char_of_def)

lemma no_newline:
  "agent_id_pattern s \<Longrightarrow> newline \<notin> set s" "nonce_pattern s \<Longrightarrow> newline \<notin> set s"
  "timestamp_pattern s \<Longrightarrow> newline \<notin> set s" "key_id_pattern s \<Longrightarrow> newline \<notin> set s"
  using newline_neq newline_classes
  by (auto simp: agent_id_pattern_def nonce_pattern_def timestamp_pattern_def timestamp_digits_def
      key_id_pattern_def list_all_iff Let_def split: list.splits if_splits)

lemma hex_digit_char: "d < 16 \<Longrightarrow> is_hex (digit_char d)"
  by (auto simp: digit_char_def is_hex_def is_digit_def Let_def)

lemma hex_digits_fixed: "list_all is_hex (digits_fixed 16 n v)"
  by (induction n arbitrary: v) (auto simp: hex_digit_char)

lemma hex_hexdigest: "list_all is_hex (hexdigest bs)"
  by (induction bs) (simp_all add: hexdigest_def hex_digits_fixed)

lemma hash_shape: "newline \<notin> set (body_sha256 b)"
  using hex_hexdigest [of "sha256 b"] by (auto simp: body_sha256_def list_all_iff)

lemma sign_shape: "signature_pattern (sign_hmac s c)"
  by (simp add: signature_pattern_def sign_hmac_def length_hexdigest hex_hexdigest)

lemma hex_ascii: "list_all is_hex s \<Longrightarrow> is_ascii s"
  by (auto simp: is_ascii_def is_hex_def is_digit_def list_all_iff Let_def)

lemma sign_equals: "constant_time_equals (sign_hmac s c) t \<longleftrightarrow> t = sign_hmac s c"
  using hex_ascii [OF hex_hexdigest] by (auto simp: constant_time_equals_def sign_hmac_def)

lemma skew_iff:
  assumes "\<bar>n\<bar> \<le> 2 ^ 32"
  shows "total_seconds d \<le> of_int n \<longleftrightarrow> d \<le> seconds n"
    and "- of_int n \<le> total_seconds d \<longleftrightarrow> - seconds n \<le> d"
  using total_seconds_le_iff [OF assms, of d] total_seconds_ge_iff [of "- n" d] assms
  by simp_all

section \<open>What acceptance means\<close>

definition well_formed_headers :: "auth_headers \<Rightarrow> bool" where
  "well_formed_headers h \<longleftrightarrow> agent_id_pattern (ah_agent_id h) \<and> key_id_pattern (ah_key_id h)
     \<and> nonce_pattern (ah_nonce h) \<and> signature_pattern (ah_signature h) \<and> timestamp_pattern (ah_timestamp h)"

lemma hub_verify_iff:
  assumes "\<bar>skew\<bar> \<le> 2 ^ 32"
  shows "hub_verify get_secret now skew m p h body = Inr t \<longleftrightarrow>
     well_formed_headers h \<and> from_timestamp (int_of_text (ah_timestamp h)) = Some t
     \<and> now - t \<le> seconds skew \<and> - seconds skew \<le> now - t
     \<and> (\<exists>secret. get_secret (ah_agent_id h) (ah_key_id h) = Inr (Some secret)
          \<and> ah_signature h = sign_hmac secret (canonical_request m p (ah_agent_id h) (ah_timestamp h)
               (ah_nonce h) (ah_key_id h) (body_sha256 body)))"
  unfolding hub_verify_def well_formed_headers_def guard_Inr_iff Let_def
  by (auto simp: skew_iff [OF assms] sign_equals guard_Inr_iff not_less
      split: option.splits sum.splits)

context secret_provider
begin

lemma accepted_key: "\<bar>skew\<bar> \<le> 2 ^ 32 \<Longrightarrow> hub_verify get_secret now skew m p h body = Inr t \<Longrightarrow> ah_key_id h \<in> keys"
  by (auto simp: hub_verify_iff dest: secret_key)

end


section \<open>Properties\<close>

text \<open>C19 What the hub's authenticator accepts: \<open>verify\<close> returns exactly for requests whose
  headers have the required shapes, whose timestamp denotes an instant at most the allowed
  skew (compared exactly, to the microsecond) away from the hub's clock, whose key identifier
  is a configured one, and whose signature is the HMAC of the canonical request under the
  provider's secret for this agent and key.\<close>

theorem hub_accepts_iff:
  assumes "0 \<le> skew" and "skew \<le> 2 ^ 32"
  shows "hub_verify (derived_get_secret p) now skew m path h body = Inr t \<longleftrightarrow>
     well_formed_headers h \<and> from_timestamp (int_of_text (ah_timestamp h)) = Some t
     \<and> now - t \<le> seconds skew \<and> t - now \<le> seconds skew \<and> ah_key_id h \<in> derived_keys p
     \<and> (\<exists>secret. derived_get_secret p (ah_agent_id h) (ah_key_id h) = Inr (Some secret)
          \<and> ah_signature h = sign_hmac secret (canonical_request m path (ah_agent_id h) (ah_timestamp h)
               (ah_nonce h) (ah_key_id h) (body_sha256 body)))"
proof -
  have s: "\<bar>skew\<bar> \<le> 2 ^ 32" using assms by simp
  show ?thesis
    using derived_provider.accepted_key [OF s, of p now m path h body t]
    unfolding hub_verify_iff [OF s] by auto
qed

lemma derive_agent_secret_returns:
  assumes "purpose = ''hub-ingest'' \<or> purpose = ''orchestrator-command''" and "32 \<le> length master"
  shows "\<exists>s. derive_agent_secret master agent_id purpose key_id = Inr s"
proof -
  have "\<exists>bs. hkdf_sha256 master salt info 32 = Inr bs" for salt info
    using assms(2) hkdf_expand_returns [of 32 "[]" 1 "hmac_sha256 salt master" info "[]"]
    by (auto simp: hkdf_sha256_def guard_def)
  then obtain bs where "hkdf_sha256 master ''tomiris-derived-agent-secret-v1''
      (derivation_info purpose agent_id key_id) 32 = Inr bs" by blast
  with assms show ?thesis by (auto simp: derive_agent_secret_def guard_def)
qed

definition sample_provider :: derived_secret_provider where
  "sample_provider = \<lparr>ds_master_secret = replicate 32 (CHR ''m''), ds_current_key_id = ''k'',
     ds_purpose = ''hub-ingest'', ds_previous_master_secret = None, ds_previous_key_id = None\<rparr>"

theorem hub_accepts_iff_witness:
  "\<exists>signature. hub_verify (derived_get_secret sample_provider) 0 300 ''POST'' ''/v1/signals''
     \<lparr>ah_agent_id = ''AGENT_1'', ah_timestamp = ''20'', ah_nonce = replicate 22 (CHR ''a''), ah_key_id = ''k'',
      ah_signature = signature\<rparr> [] = Inr (seconds 20)"
proof -
  obtain secret where secret: "derived_get_secret sample_provider ''AGENT_1'' ''k'' = Inr (Some secret)"
    using derive_agent_secret_returns [of "''hub-ingest''" "replicate 32 (CHR ''m'')" "''AGENT_1''" "''k''"]
    by (auto simp: derived_get_secret_def sample_provider_def)
  let ?sig = "sign_hmac secret (canonical_request ''POST'' ''/v1/signals'' ''AGENT_1'' ''20''
    (replicate 22 (CHR ''a'')) ''k'' (body_sha256 []))"
  let ?h = "\<lparr>ah_agent_id = ''AGENT_1'', ah_timestamp = ''20'', ah_nonce = replicate 22 (CHR ''a''),
      ah_key_id = ''k'', ah_signature = ?sig\<rparr>"
  have shape: "well_formed_headers ?h"
    using sign_shape [of secret]
    by (simp add: well_formed_headers_def agent_id_pattern_def is_upper_def is_digit_def is_lower_def
      key_id_pattern_def timestamp_pattern_def timestamp_digits_def nonce_pattern_def list_all_iff)
  have "from_timestamp (int_of_text ''20'') = Some (seconds 20)"
    by (simp add: int_of_text_def digits_value_def from_timestamp_def)
  moreover have "''k'' \<in> derived_keys sample_provider" by (simp add: derived_keys_def sample_provider_def)
  ultimately have "hub_verify (derived_get_secret sample_provider) 0 300 ''POST'' ''/v1/signals'' ?h [] = Inr (seconds 20)"
    using shape secret by (subst hub_accepts_iff) simp_all
  then show ?thesis by blast
qed

text \<open>A signature covers every field it is meant to cover: two well-formed requests with the
  same canonical text have the same (upper-cased) method, path, agent, timestamp text, nonce,
  key identifier and body hash; no choice of field contents lets one request be read as
  another.\<close>

theorem canonical_request_inj:
  assumes "well_formed_headers h" and "well_formed_headers h'"
    and "newline \<notin> set (upper m)" "newline \<notin> set (upper m')" "newline \<notin> set path" "newline \<notin> set path'"
  shows "canonical_request m path (ah_agent_id h) (ah_timestamp h) (ah_nonce h) (ah_key_id h) (body_sha256 b)
       = canonical_request m' path' (ah_agent_id h') (ah_timestamp h') (ah_nonce h') (ah_key_id h') (body_sha256 b')
     \<longleftrightarrow> upper m = upper m' \<and> path = path' \<and> ah_agent_id h = ah_agent_id h'
       \<and> ah_timestamp h = ah_timestamp h' \<and> ah_nonce h = ah_nonce h' \<and> ah_key_id h = ah_key_id h'
       \<and> body_sha256 b = body_sha256 b'"
  unfolding canonical_request_def
  by (subst join_with_inj) (use assms hash_shape in \<open>auto simp: well_formed_headers_def no_newline\<close>)

definition sample_headers :: "string \<Rightarrow> auth_headers" where
  "sample_headers nonce = \<lparr>ah_agent_id = ''AGENT_1'', ah_timestamp = ''301'', ah_nonce = nonce,
     ah_key_id = ''k'', ah_signature = replicate 64 (CHR ''a'')\<rparr>"

lemma sample_headers_ok:
  "nonce_pattern n \<Longrightarrow> well_formed_headers (sample_headers n)"
  by (simp add: sample_headers_def well_formed_headers_def agent_id_pattern_def is_upper_def is_digit_def
      is_lower_def is_hex_def key_id_pattern_def signature_pattern_def timestamp_pattern_def
      timestamp_digits_def list_all_iff)

theorem canonical_request_inj_witness:
  "canonical_request ''POST'' ''/'' ''AGENT_1'' ''301'' (replicate 22 (CHR ''a'')) ''k'' (body_sha256 [])
   \<noteq> canonical_request ''POST'' ''/'' ''AGENT_1'' ''301'' (replicate 23 (CHR ''a'')) ''k'' (body_sha256 [])"
proof -
  have n: "nonce_pattern (replicate 22 (CHR ''a''))" "nonce_pattern (replicate 23 (CHR ''a''))"
    by (simp_all add: nonce_pattern_def is_lower_def list_all_iff)
  have m: "newline \<notin> set (upper ''POST'')" "newline \<notin> set ''/''"
    by (auto simp: newline_def upper_def upper_char_def char_of_def)
  show ?thesis
    using canonical_request_inj [OF sample_headers_ok [OF n(1)] sample_headers_ok [OF n(2)] m(1) m(1) m(2) m(2), of "[]" "[]"]
    by (simp add: sample_headers_def)
qed

section \<open>Decimal texts\<close>

lemma digit_char_value: "d < 10 \<Longrightarrow> int (of_char (digit_char d)) - 48 = int d"
  by (simp add: digit_char_def)

lemma digit_char_digit: "d < 10 \<Longrightarrow> is_digit (digit_char d)"
  by (simp add: digit_char_def is_digit_def)

lemma digits_value_snoc: "digits_value (ds @ [c]) = 10 * digits_value ds + (int (of_char c) - 48)"
  by (simp add: digits_value_def)

lemma nat_str_digits: "list_all is_digit (nat_str n) \<and> nat_str n \<noteq> []"
proof (induction n rule: nat_str.induct)
  case (1 n)
  then show ?case by (subst (1 2) nat_str.simps) (auto simp: digit_char_digit)
qed

lemma nat_str_value: "digits_value (nat_str n) = int n"
proof (induction n rule: nat_str.induct)
  case (1 n)
  have "digits_value [digit_char n] = int n" if "n < 10"
    using digit_char_value [OF that] by (simp add: digits_value_def)
  moreover have "digits_value (nat_str (n div 10) @ [digit_char (n mod 10)]) = int n" if "\<not> n < 10"
    unfolding digits_value_snoc using 1 [OF that] digit_char_value [of "n mod 10"] by (simp add: zdiv_int zmod_int)
  ultimately show ?case by (subst nat_str.simps) simp
qed

lemma nat_str_length: "n < 10 ^ Suc k \<Longrightarrow> length (nat_str n) \<le> Suc k"
proof (induction k arbitrary: n)
  case 0
  then show ?case by (subst nat_str.simps) simp
next
  case (Suc k)
  then have "n div 10 < 10 ^ Suc k" by (simp add: less_mult_imp_div_less)
  with Suc.IH show ?case by (subst nat_str.simps) simp
qed

lemma nat_str_hd: "\<exists>c cs. nat_str n = c # cs \<and> c \<noteq> CHR ''-''"
  using nat_str_digits [of n] by (cases "nat_str n") (auto simp: is_digit_def)

lemma int_str_value: "int_of_text (int_str i) = i"
  using nat_str_hd [of "nat i"] by (auto simp: int_of_text_def int_str_def nat_str_value)

lemma int_str_pattern:
  assumes "\<bar>i\<bar> < 10 ^ 20"
  shows "timestamp_pattern (int_str i)"
proof -
  have "nat (\<bar>i\<bar>) < 10 ^ Suc 19" using assms by simp
  then have len: "length (nat_str (nat \<bar>i\<bar>)) \<le> 20" using nat_str_length by fastforce
  have "timestamp_digits (int_str i) = nat_str (nat \<bar>i\<bar>)"
    using nat_str_hd [of "nat i"] by (auto simp: timestamp_digits_def int_str_def split: list.splits)
  then show ?thesis
    using len nat_str_digits [of "nat \<bar>i\<bar>"]
    by (cases "nat_str (nat \<bar>i\<bar>)") (auto simp: timestamp_pattern_def Let_def)
qed

lemma command_headers_verify:
  assumes "nonce_pattern nonce" and "from_timestamp ts = Some t"
    and "0 \<le> ca_max_skew_seconds a" and "ca_max_skew_seconds a \<le> 2 ^ 32"
    and "now - t \<le> seconds (ca_max_skew_seconds a)" and "t - now \<le> seconds (ca_max_skew_seconds a)"
  shows "command_verify a now (build_command_headers (ca_orchestrator_id a) (ca_target_agent_id a)
           (ca_key_id a) (ca_secret a) body ts nonce) body = None"
proof -
  have s: "\<bar>ca_max_skew_seconds a\<bar> \<le> 2 ^ 32" using assms(3,4) by simp
  have "\<bar>ts\<bar> < 10 ^ 20" using assms(2) by (auto simp: from_timestamp_def split: if_splits)
  then show ?thesis
    using assms skew_iff [OF s, of "now - t"]
    by (simp add: command_verify_def build_command_headers_def Let_def int_str_pattern int_str_value
        sign_shape sign_equals not_less)
qed

text \<open>C33 Signing and verifying agree: the headers that \<open>build_command_headers\<close> makes for an agent
  are accepted by this agent's \<open>CommandAuthenticator\<close> for the same body, configuration and
  secret, for every timestamp within the allowed skew of its clock.\<close>

theorem command_roundtrip:
  assumes "nonce_pattern nonce" and "from_timestamp ts = Some t"
    and "0 \<le> ca_max_skew_seconds a" and "ca_max_skew_seconds a \<le> 2 ^ 32"
    and "now - t \<le> seconds (ca_max_skew_seconds a)" and "t - now \<le> seconds (ca_max_skew_seconds a)"
  shows "command_verify a now (build_command_headers (ca_orchestrator_id a) (ca_target_agent_id a)
           (ca_key_id a) (ca_secret a) body ts nonce) body = None"
  using assms by (rule command_headers_verify)

theorem command_roundtrip_witness:
  "command_verify \<lparr>ca_orchestrator_id = ''orch'', ca_target_agent_id = ''AGENT_1'', ca_key_id = ''k'',
       ca_secret = ''s'', ca_max_skew_seconds = 300\<rparr> (seconds 10)
     (build_command_headers ''orch'' ''AGENT_1'' ''k'' ''s'' [] 100 (replicate 22 (CHR ''a''))) [] = None"
proof -
  have n: "nonce_pattern (replicate 22 (CHR ''a''))"
    by (simp add: nonce_pattern_def is_lower_def list_all_iff)
  show ?thesis
    using command_roundtrip [OF n, of 100 "seconds 100"
        "\<lparr>ca_orchestrator_id = ''orch'', ca_target_agent_id = ''AGENT_1'', ca_key_id = ''k'',
          ca_secret = ''s'', ca_max_skew_seconds = 300\<rparr>" "seconds 10" "[]"]
    by (simp add: from_timestamp_def)
qed

end
