(* ===== verification/Urls.thy ===== *)
theory Urls
  imports Texts "HOL-Library.Word"
begin

text \<open>
  What the sources use of Python's \<open>ipaddress\<close> and \<open>urllib.parse\<close>, on text as a list of
  characters.  An IPv4 address is a 32 bit word and an IPv6 address a 128 bit word; a network
  is a base address with a prefix length.  \<open>urlsplit\<close> and the attributes of its result follow
  the library function by function.  No character below 256 has a compatibility form with one
  of \<open>/?#@:\<close> in it, so the normalisation check of \<open>urlsplit\<close> never raises here.
\<close>

unbundle bit_operations_syntax

section \<open>IP addresses\<close>

definition parse_octet :: "string \<Rightarrow> nat option" where
  "parse_octet s =
     (if s \<noteq> [] \<and> list_all is_digit s \<and> length s \<le> 3 \<and> \<not> (s \<noteq> ''0'' \<and> hd s = CHR ''0'')
         \<and> digits_value s \<le> 255
      then Some (nat (digits_value s)) else None)"

definition join_words :: "nat \<Rightarrow> nat list \<Rightarrow> 'a::len word" where
  "join_words width parts = foldl (\<lambda>v p. push_bit width v OR of_nat p) 0 parts"

fun all_some :: "'a option list \<Rightarrow> 'a list option" where
  "all_some [] = Some []"
| "all_some (None # xs) = None"
| "all_some (Some x # xs) = (case all_some xs of None \<Rightarrow> None | Some ys \<Rightarrow> Some (x # ys))"

definition parse_ipv4 :: "string \<Rightarrow> 32 word option" where
  "parse_ipv4 s =
     (let octets = split_on (CHR ''.'') s
      in if length octets \<noteq> 4 then None else map_option (join_words 8) (all_some (map parse_octet octets)))"

text \<open>A hextet is text of the address, or a number taken from an IPv4 suffix.\<close>

definition hex_value :: "string \<Rightarrow> nat" where
  "hex_value s = foldl (\<lambda>v c. 16 * v + (let n = of_char c :: nat in
     if n \<le> 57 then n - 48 else if n \<le> 70 then n - 55 else n - 87)) 0 s"

definition parse_hextet :: "string + nat \<Rightarrow> nat option" where
  "parse_hextet p =
     (case p of
        Inr n \<Rightarrow> Some n
      | Inl s \<Rightarrow> if s \<noteq> [] \<and> list_all is_hex s \<and> length s \<le> 4 then Some (hex_value s) else None)"

definition ipv6_parts :: "string \<Rightarrow> (string + nat) list option" where
  "ipv6_parts s =
     (let parts = split_on (CHR '':'') s
      in if length parts < 3 then None
         else if CHR ''.'' \<in> set (last parts)
         then (case parse_ipv4 (last parts) of
                 None \<Rightarrow> None
               | Some v \<Rightarrow> Some (map Inl (butlast parts)
                             @ [Inr (unat (drop_bit 16 v)), Inr (unat (v AND 65535))]))
         else Some (map Inl parts))"

text \<open>\<open>IPv6Address._ip_int_from_string\<close>\<close>

definition parse_ipv6_digits :: "string \<Rightarrow> 128 word option" where
  "parse_ipv6_digits s =
     (case ipv6_parts s of
        None \<Rightarrow> None
      | Some parts \<Rightarrow>
          let n = length parts; skips = filter (\<lambda>i. parts ! i = Inl []) [1..<n - 1];
              leading = (hd parts = Inl []); trailing = (last parts = Inl [])
          in if 9 < n then None
             else case skips of
               [] \<Rightarrow> if n \<noteq> 8 \<or> leading \<or> trailing then None
                    else map_option (join_words 16) (all_some (map parse_hextet parts))
             | [k] \<Rightarrow>
                 let hi = (if leading then k - 1 else k);
                     lo = (if trailing then n - k - 2 else n - k - 1)
                 in if (leading \<and> hi \<noteq> 0) \<or> (trailing \<and> lo \<noteq> 0) \<or> 8 < hi + lo + 1 then None
                    else (case (all_some (map parse_hextet (take hi parts)),
                                all_some (map parse_hextet (drop (n - lo) parts))) of
                            (Some high, Some low) \<Rightarrow>
                              Some (join_words 16 (high @ replicate (8 - (hi + lo)) 0 @ low))
                          | _ \<Rightarrow> None)
             | _ \<Rightarrow> None)"

text \<open>\<open>IPv6Address\<close>: an optional scope after \<open>%\<close>.\<close>

definition parse_ipv6 :: "string \<Rightarrow> 128 word option" where
  "parse_ipv6 s =
     (let (address, scoped, scope) = partition_at (CHR ''%'') s
      in if CHR ''/'' \<in> set s \<or> (scoped \<and> (scope = [] \<or> CHR ''%'' \<in> set scope)) then None
         else parse_ipv6_digits address)"

datatype ip_address = V4 "32 word" | V6 "128 word"

text \<open>\<open>ip_address(text)\<close>; \<open>None\<close> is the \<open>ValueError\<close>.\<close>

definition parse_ip :: "string \<Rightarrow> ip_address option" where
  "parse_ip s =
     (case parse_ipv4 s of
        Some v \<Rightarrow> Some (V4 v)
      | None \<Rightarrow> (case parse_ipv6 s of Some v \<Rightarrow> Some (V6 v) | None \<Rightarrow> None))"

definition in_net :: "'a::len word \<times> nat \<Rightarrow> 'a word \<Rightarrow> bool" where
  "in_net net a = (let (base, len) = net; low = size a - len in drop_bit low a = drop_bit low base)"

definition net4 :: "nat \<Rightarrow> nat \<Rightarrow> nat \<Rightarrow> nat \<Rightarrow> nat \<Rightarrow> 32 word \<times> nat" where
  "net4 a b c d len = (join_words 8 [a, b, c, d], len)"

text \<open>A network given by the leading hextets of its base\<close>

definition net6 :: "nat list \<Rightarrow> nat \<Rightarrow> 128 word \<times> nat" where
  "net6 hextets len = (join_words 16 (hextets @ replicate (8 - length hextets) 0), len)"

section \<open>\<open>urlsplit\<close>\<close>

record url_parts =
  up_scheme :: string
  up_netloc :: string
  up_path :: string
  up_query :: string
  up_fragment :: string

definition clean_url :: "string \<Rightarrow> string" where
  "clean_url url =
     filter (\<lambda>c. (of_char c :: nat) \<notin> {9, 10, 13}) (dropWhile (\<lambda>c. (of_char c :: nat) \<le> 32) url)"

definition is_alpha :: "char \<Rightarrow> bool" where
  "is_alpha c \<longleftrightarrow> is_upper c \<or> is_lower c"

definition split_scheme :: "string \<Rightarrow> string \<times> string" where
  "split_scheme url =
     (let (scheme, found, rest) = partition_at (CHR '':'') url
      in if found \<and> scheme \<noteq> [] \<and> is_alpha (hd scheme)
            \<and> list_all (\<lambda>c. is_alpha c \<or> is_digit c \<or> c \<in> set ''+-.'') scheme
         then (lower scheme, rest) else ([], url))"

definition netloc_end :: "char \<Rightarrow> bool" where
  "netloc_end c \<longleftrightarrow> c \<in> set ''/?#''"

definition split_netloc :: "string \<Rightarrow> string \<times> string" where
  "split_netloc url =
     (if take 2 url = ''//''
      then (takeWhile (\<lambda>c. \<not> netloc_end c) (drop 2 url), dropWhile (\<lambda>c. \<not> netloc_end c) (drop 2 url))
      else ([], url))"

text \<open>\<open>_check_bracketed_host\<close>\<close>

definition bracketed_host_ok :: "string \<Rightarrow> bool" where
  "bracketed_host_ok s =
     (if s \<noteq> [] \<and> hd s = CHR ''v''
      then let rest = dropWhile is_hex (tl s)
           in takeWhile is_hex (tl s) \<noteq> [] \<and> 2 \<le> length rest \<and> hd rest = CHR ''.''
      else case parse_ip s of Some (V6 _) \<Rightarrow> True | _ \<Rightarrow> False)"

definition netloc_ok :: "string \<Rightarrow> bool" where
  "netloc_ok n \<longleftrightarrow>
     (CHR ''['' \<in> set n \<longleftrightarrow> CHR '']'' \<in> set n)
     \<and> (CHR ''['' \<in> set n \<longrightarrow>
          bracketed_host_ok (fst (partition_at (CHR '']'') (snd (snd (partition_at (CHR ''['') n))))))"

definition urlsplit :: "string \<Rightarrow> url_parts option" where
  "urlsplit url =
     (let (scheme, rest) = split_scheme (clean_url url);
          (netloc, rest) = split_netloc rest;
          (rest, _, fragment) = partition_at (CHR ''#'') rest;
          (path, _, query) = partition_at (CHR ''?'') rest
      in if netloc_ok netloc
         then Some \<lparr>up_scheme = scheme, up_netloc = netloc, up_path = path, up_query = query,
                up_fragment = fragment\<rparr>
         else None)"

section \<open>The attributes of the result\<close>

text \<open>\<open>_hostinfo\<close>: the host and the text of the port\<close>

definition host_info :: "string \<Rightarrow> string \<times> string" where
  "host_info netloc =
     (let (_, _, info) = rpartition_at (CHR ''@'') netloc;
          (_, bracket, bracketed) = partition_at (CHR ''['') info
      in if bracket
         then let (host, _, rest) = partition_at (CHR '']'') bracketed;
                  (_, _, port) = partition_at (CHR '':'') rest in (host, port)
         else let (host, _, port) = partition_at (CHR '':'') info in (host, port))"

definition url_hostname :: "url_parts \<Rightarrow> string option" where
  "url_hostname u =
     (let host = fst (host_info (up_netloc u)); (name, scoped, zone) = partition_at (CHR ''%'') host
      in if host = [] then None else Some (lower name @ (if scoped then CHR ''%'' # zone else [])))"

text \<open>\<open>Inl\<close> is the \<open>ValueError\<close>.\<close>

definition url_port :: "url_parts \<Rightarrow> unit + int option" where
  "url_port u =
     (let port = snd (host_info (up_netloc u))
      in if port = [] then Inr None
         else if list_all is_digit port \<and> length port \<le> 4300 \<and> digits_value port \<le> 65535
         then Inr (Some (digits_value port)) else Inl ())"

text \<open>\<open>username is not None or password is not None\<close>\<close>

definition url_credentials :: "url_parts \<Rightarrow> bool" where
  "url_credentials u \<longleftrightarrow> CHR ''@'' \<in> set (up_netloc u)"

section \<open>Words from parts\<close>

lemma unat_join_words:
  assumes "list_all (\<lambda>p. p < 2 ^ w) parts" and "length parts * w \<le> LENGTH('a::len)"
  shows "unat (join_words w parts :: 'a word) = foldl (\<lambda>v p. v * 2 ^ w + p) 0 parts
    \<and> foldl (\<lambda>v p. v * 2 ^ w + p) 0 parts < 2 ^ (length parts * w)"
  using assms
proof (induction parts rule: rev_induct)
  case Nil
  then show ?case by (simp add: join_words_def)
next
  case (snoc p parts)
  define v where "v = (join_words w parts :: 'a word)"
  define n where "n = foldl (\<lambda>v p. v * 2 ^ w + p) 0 parts"
  have n: "unat v = n" "n < 2 ^ (length parts * w)"
    using snoc by (auto simp: v_def n_def)
  have p: "p < 2 ^ w" using snoc.prems(1) by simp
  have len: "length parts * w + w \<le> LENGTH('a)" using snoc.prems(2) by simp
  have step: "n * 2 ^ w + p < 2 ^ (length parts * w + w)"
  proof -
    have "n * 2 ^ w + p < (n + 1) * 2 ^ w" using p by simp
    also have "\<dots> \<le> 2 ^ (length parts * w) * 2 ^ w" using n(2) by (intro mult_right_mono) auto
    finally show ?thesis by (simp add: power_add)
  qed
  also have "(2::nat) ^ (length parts * w + w) \<le> 2 ^ LENGTH('a)" using len by simp
  finally have fits: "n * 2 ^ w + p < 2 ^ LENGTH('a)" .
  have p_fits: "p < 2 ^ LENGTH('a)" using fits by simp
  have low: "take_bit w (of_nat p :: 'a word) = of_nat p"
    using p by (simp add: take_bit_of_nat take_bit_nat_eq_self)
  have "push_bit w v AND of_nat p = 0"
    by (subst low [symmetric], rule bit_word_eqI) (auto simp: bit_and_iff bit_push_bit_iff bit_take_bit_iff)
  then have "push_bit w v OR of_nat p = push_bit w v + of_nat p"
    by (simp add: disjunctive_add_eq_or)
  moreover have "push_bit w v = of_nat (n * 2 ^ w)"
    by (simp add: push_bit_eq_mult n(1) [symmetric])
  ultimately have "unat (push_bit w v OR of_nat p) = n * 2 ^ w + p"
    using fits by (simp only: of_nat_add [symmetric] unsigned_of_nat take_bit_nat_eq_self of_nat_id)
  moreover have "join_words w (parts @ [p]) = push_bit w v OR of_nat p"
    by (simp add: join_words_def v_def)
  moreover have "foldl (\<lambda>v p. v * 2 ^ w + p) 0 (parts @ [p]) = n * 2 ^ w + p" by (simp add: n_def)
  ultimately show ?case using step by (simp add: add.commute)
qed

lemma in_net_iff:
  fixes a base :: "'a::len word"
  shows "in_net (base, len) a \<longleftrightarrow> unat a div 2 ^ (LENGTH('a) - len) = unat base div 2 ^ (LENGTH('a) - len)"
  unfolding in_net_def Let_def prod.case word_size word_unat_eq_iff unat_drop_bit_eq
  by (simp add: drop_bit_eq_div)

text \<open>Membership in a network compares leading parts, the last of them up to its leading bits.\<close>

definition parts_value :: "nat \<Rightarrow> nat list \<Rightarrow> nat" where
  "parts_value w parts = foldl (\<lambda>v p. v * 2 ^ w + p) 0 parts"

lemma parts_value_bound: "list_all (\<lambda>p. p < 2 ^ w) parts \<Longrightarrow> parts_value w parts < 2 ^ (w * length parts)"
proof (induction parts rule: rev_induct)
  case (snoc p parts)
  then have "parts_value w parts * 2 ^ w + p < (parts_value w parts + 1) * 2 ^ w" by simp
  also have "\<dots> \<le> 2 ^ (w * length parts) * 2 ^ w" using snoc by (intro mult_right_mono) auto
  finally show ?case by (simp add: parts_value_def power_add ac_simps)
qed (simp add: parts_value_def)

lemma parts_value_append:
  "parts_value w (xs @ ys) = parts_value w xs * 2 ^ (w * length ys) + parts_value w ys"
proof (induction ys rule: rev_induct)
  case (snoc y ys)
  have "parts_value w (xs @ ys @ [y]) = parts_value w (xs @ ys) * 2 ^ w + y" by (simp add: parts_value_def)
  with snoc show ?case by (simp add: parts_value_def power_add algebra_simps)
qed (simp add: parts_value_def)

lemma digit_eq:
  fixes m n p q b :: nat
  assumes "p < b" and "q < b"
  shows "m * b + p = n * b + q \<longleftrightarrow> m = n \<and> p = q"
proof
  assume eq: "m * b + p = n * b + q"
  then have "(m * b + p) div b = (n * b + q) div b" by simp
  then have "m = n" using assms by (simp add: div_mult_self3)
  with eq show "m = n \<and> p = q" by simp
qed simp

lemma parts_value_inj:
  assumes "length xs = length ys" and "list_all (\<lambda>p. p < 2 ^ w) xs" and "list_all (\<lambda>p. p < 2 ^ w) ys"
  shows "parts_value w xs = parts_value w ys \<longleftrightarrow> xs = ys"
  using assms
proof (induction xs ys rule: rev_induct2)
  case (4 x xs y ys)
  have "parts_value w (xs @ [x]) = parts_value w xs * 2 ^ w + x"
    and "parts_value w (ys @ [y]) = parts_value w ys * 2 ^ w + y" by (simp_all add: parts_value_def)
  then show ?case using 4 digit_eq [of x "2 ^ w" y] by simp
qed simp_all

lemma parts_prefix:
  assumes "list_all (\<lambda>p. p < 2 ^ w) parts" and "k < length parts" and "0 < r" and "r \<le> w"
  shows "parts_value w parts div 2 ^ (w * length parts - (w * k + r))
    = parts_value w (take k parts) * 2 ^ r + parts ! k div 2 ^ (w - r)"
proof -
  define rest where "rest = drop (Suc k) parts"
  define p where "p = parts ! k"
  have parts: "parts = take k parts @ [p] @ rest"
    using assms(2) by (simp add: p_def rest_def id_take_nth_drop)
  have "list_all (\<lambda>p. p < 2 ^ w) rest" using assms(1) by (auto simp: rest_def list_all_iff dest: in_set_dropD)
  then have rest: "parts_value w rest < 2 ^ (w * length rest)" by (rule parts_value_bound)
  have len: "length parts = k + 1 + length rest" using assms(2) by (simp add: rest_def)
  have shift: "w * length parts - (w * k + r) = w * length rest + (w - r)"
    using assms(4) by (simp add: len algebra_simps)
  have "parts_value w parts = (parts_value w (take k parts) * 2 ^ w + p) * 2 ^ (w * length rest) + parts_value w rest"
    by (subst parts, simp only: parts_value_append) (simp add: parts_value_def power_add algebra_simps)
  then have "parts_value w parts div 2 ^ (w * length rest) = parts_value w (take k parts) * 2 ^ w + p"
    using rest by simp
  moreover have "(parts_value w (take k parts) * 2 ^ w + p) div 2 ^ (w - r)
      = parts_value w (take k parts) * 2 ^ r + p div 2 ^ (w - r)"
  proof -
    have "2 ^ w = (2::nat) ^ r * 2 ^ (w - r)" using assms(4) by (simp flip: power_add)
    then have "parts_value w (take k parts) * 2 ^ w + p = p + parts_value w (take k parts) * 2 ^ r * 2 ^ (w - r)"
      by (simp only: mult.assoc add.commute)
    then show ?thesis by (metis add.commute div_mult_self1 power_not_zero zero_neq_numeral)
  qed
  ultimately show ?thesis
    unfolding shift power_add div_mult2_eq by (simp only: p_def)
qed

lemma in_net_parts:
  assumes "list_all (\<lambda>p. p < 2 ^ w) parts" and "list_all (\<lambda>p. p < 2 ^ w) base" and "length base = length parts"
    and "LENGTH('a::len) = w * length parts" and "k < length parts" and "0 < r" and "r \<le> w"
  shows "in_net (join_words w base :: 'a word, w * k + r) (join_words w parts)
    \<longleftrightarrow> take k parts = take k base \<and> parts ! k div 2 ^ (w - r) = base ! k div 2 ^ (w - r)"
proof -
  have u: "unat (join_words w parts :: 'a word) = parts_value w parts"
    "unat (join_words w base :: 'a word) = parts_value w base"
    using unat_join_words [where 'a = 'a, OF assms(1)] unat_join_words [where 'a = 'a, OF assms(2)] assms(3,4)
    by (simp_all add: parts_value_def mult.commute)
  have small: "q ! k div 2 ^ (w - r) < 2 ^ r" if "list_all (\<lambda>p. p < 2 ^ w) q" "k < length q" for q :: "nat list"
  proof -
    have "q ! k < 2 ^ r * 2 ^ (w - r)" using that assms(7) by (simp add: list_all_length flip: power_add)
    then show ?thesis by (rule less_mult_imp_div_less)
  qed
  have t: "list_all (\<lambda>p. p < 2 ^ w) (take k parts)" "list_all (\<lambda>p. p < 2 ^ w) (take k base)"
    "length (take k parts) = length (take k base)"
    using assms(1-3) by (auto simp: list_all_iff dest: in_set_takeD)
  show ?thesis
    unfolding in_net_iff u assms(4)
    using parts_prefix [OF assms(1,5,6,7)] parts_prefix [OF assms(2) _ assms(6,7), of k] assms(3,5)
      digit_eq [OF small [OF assms(1,5)] small [OF assms(2), unfolded assms(3), OF assms(5)]]
      parts_value_inj [OF t(3,1,2)]
    by simp
qed

end
