(* ===== verification/Public_Addresses.thy ===== *)
theory Public_Addresses
  imports Urls
begin

text \<open>
  \<open>_is_public\<close> of \<open>src/tomiris_orchestrator/endpoint_security.py\<close>: which addresses the
  orchestrator takes for public.  The tables of special networks are those of CPython
  3.12.8 and later releases of 3.12 (the image is \<open>python:3.12-slim\<close>), which include 3fff::/20.
  Releases differ in whether the properties of an IPv4-mapped IPv6 address are those of the
  embedded IPv4 address, so this is an argument (\<open>delegates\<close>).  The theory determines the
  public addresses by their octets and hextets.
\<close>

section \<open>\<open>_is_public\<close>\<close>

definition private_networks4 :: "(32 word \<times> nat) list" where
  "private_networks4 =
     [net4 0 0 0 0 8, net4 10 0 0 0 8, net4 127 0 0 0 8, net4 169 254 0 0 16, net4 172 16 0 0 12,
      net4 192 0 0 0 24, net4 192 0 0 170 31, net4 192 0 2 0 24, net4 192 168 0 0 16, net4 198 18 0 0 15,
      net4 198 51 100 0 24, net4 203 0 113 0 24, net4 240 0 0 0 4, net4 255 255 255 255 32]"

definition private_exceptions4 :: "(32 word \<times> nat) list" where
  "private_exceptions4 = [net4 192 0 0 9 32, net4 192 0 0 10 32]"

definition is_private4 :: "32 word \<Rightarrow> bool" where
  "is_private4 a \<longleftrightarrow> list_ex (\<lambda>n. in_net n a) private_networks4 \<and> \<not> list_ex (\<lambda>n. in_net n a) private_exceptions4"

definition is_public4 :: "32 word \<Rightarrow> bool" where
  "is_public4 a \<longleftrightarrow>
     \<not> (is_private4 a \<or> in_net (net4 127 0 0 0 8) a \<or> in_net (net4 169 254 0 0 16) a
        \<or> in_net (net4 224 0 0 0 4) a \<or> in_net (net4 240 0 0 0 4) a \<or> a = 0)"

definition private_networks6 :: "(128 word \<times> nat) list" where
  "private_networks6 =
     [net6 [0, 0, 0, 0, 0, 0, 0, 1] 128, net6 [] 128, net6 [0, 0, 0, 0, 0, 0xFFFF] 96,
      net6 [0x64, 0xFF9B, 1] 48, net6 [0x100] 64, net6 [0x2001] 23, net6 [0x2001, 0xDB8] 32,
      net6 [0x2002] 16, net6 [0x3FFF] 20, net6 [0xFC00] 7, net6 [0xFE80] 10]"

definition private_exceptions6 :: "(128 word \<times> nat) list" where
  "private_exceptions6 =
     [net6 [0x2001, 1, 0, 0, 0, 0, 0, 1] 128, net6 [0x2001, 1, 0, 0, 0, 0, 0, 2] 128,
      net6 [0x2001, 3] 32, net6 [0x2001, 4, 0x112] 48, net6 [0x2001, 0x20] 28, net6 [0x2001, 0x30] 28]"

definition reserved_networks6 :: "(128 word \<times> nat) list" where
  "reserved_networks6 =
     [net6 [] 8, net6 [0x100] 8, net6 [0x200] 7, net6 [0x400] 6, net6 [0x800] 5, net6 [0x1000] 4,
      net6 [0x4000] 3, net6 [0x6000] 3, net6 [0x8000] 3, net6 [0xA000] 3, net6 [0xC000] 3,
      net6 [0xE000] 4, net6 [0xF000] 5, net6 [0xF800] 6, net6 [0xFE00] 9]"

definition ipv4_mapped :: "128 word \<Rightarrow> bool" where
  "ipv4_mapped a \<longleftrightarrow> drop_bit 32 a = 65535"

definition is_private6 :: "128 word \<Rightarrow> bool" where
  "is_private6 a \<longleftrightarrow>
     (if ipv4_mapped a then is_private4 (ucast a)
      else list_ex (\<lambda>n. in_net n a) private_networks6 \<and> \<not> list_ex (\<lambda>n. in_net n a) private_exceptions6)"

definition is_public6 :: "bool \<Rightarrow> 128 word \<Rightarrow> bool" where
  "is_public6 delegates a \<longleftrightarrow>
     (if delegates \<and> ipv4_mapped a then is_public4 (ucast a)
      else \<not> (is_private6 a \<or> a = 1 \<or> in_net (net6 [0xFE80] 10) a \<or> in_net (net6 [0xFF00] 8) a
              \<or> list_ex (\<lambda>n. in_net n a) reserved_networks6 \<or> a = 0))"

text \<open>\<open>_is_public\<close>; \<open>None\<close> is the \<open>ValueError\<close> for text that is no address.\<close>

definition is_public :: "bool \<Rightarrow> string \<Rightarrow> bool option" where
  "is_public delegates address =
     map_option (\<lambda>ip. case ip of V4 a \<Rightarrow> is_public4 a | V6 a \<Rightarrow> is_public6 delegates a) (parse_ip address)"

text \<open>\<open>not any(not _is_public(address) for address in addresses)\<close>\<close>

fun all_public :: "bool \<Rightarrow> string list \<Rightarrow> bool option" where
  "all_public delegates [] = Some True"
| "all_public delegates (address # rest) =
     (case is_public delegates address of
        None \<Rightarrow> None
      | Some public \<Rightarrow> if public then all_public delegates rest else Some False)"

section \<open>Which addresses are public\<close>

text \<open>
  The public addresses, by the octets or hextets of the address.  Shared address space
  (100.64.0.0/10) and deprecated site-local addresses (fec0::/10) are among them.
\<close>

fun public_octets :: "nat list \<Rightarrow> bool" where
  "public_octets [a, b, c, d] \<longleftrightarrow>
     a \<notin> {0, 10, 127} \<and> a < 224 \<and> (a, b) \<noteq> (169, 254) \<and> (a, b) \<noteq> (192, 168)
     \<and> \<not> (a = 172 \<and> 16 \<le> b \<and> b < 32) \<and> \<not> (a = 198 \<and> 18 \<le> b \<and> b < 20)
     \<and> \<not> (a = 192 \<and> b = 0 \<and> c = 0 \<and> d \<notin> {9, 10}) \<and> (a, b, c) \<noteq> (192, 0, 2)
     \<and> (a, b, c) \<noteq> (198, 51, 100) \<and> (a, b, c) \<noteq> (203, 0, 113)"
| "public_octets _ \<longleftrightarrow> False"

fun protocol_exception :: "nat list \<Rightarrow> bool" where
  "protocol_exception [h0, h1, h2, h3, h4, h5, h6, h7] \<longleftrightarrow>
     (h1 = 1 \<and> h2 = 0 \<and> h3 = 0 \<and> h4 = 0 \<and> h5 = 0 \<and> h6 = 0 \<and> h7 \<in> {1, 2})
     \<or> h1 = 3 \<or> (h1 = 4 \<and> h2 = 0x112) \<or> (0x20 \<le> h1 \<and> h1 < 0x40)"
| "protocol_exception _ \<longleftrightarrow> False"

definition public_hextets :: "nat list \<Rightarrow> bool" where
  "public_hextets hs \<longleftrightarrow>
     (let h0 = hs ! 0; h1 = hs ! 1
      in (0x2000 \<le> h0 \<and> h0 < 0x4000 \<and> h0 \<noteq> 0x2002 \<and> (h0, h1) \<noteq> (0x2001, 0xDB8)
          \<and> \<not> (h0 = 0x3FFF \<and> h1 < 0x1000) \<and> \<not> (h0 = 0x2001 \<and> h1 < 0x200 \<and> \<not> protocol_exception hs))
         \<or> (0xFEC0 \<le> h0 \<and> h0 < 0xFF00))"

lemma leading_parts:
  fixes base parts :: "nat list"
  assumes "list_all (\<lambda>p. p < 2 ^ w) parts" and "list_all (\<lambda>p. p < 2 ^ w) base" and "length base = length parts"
    and "LENGTH('a::len) = w * length parts" and "0 < len" and "len \<le> w * length parts" and "0 < w"
  shows "in_net (join_words w base :: 'a word, len) (join_words w parts)
    \<longleftrightarrow> (let k = (len - 1) div w; rest = w - ((len - 1) mod w + 1)
         in take k parts = take k base \<and> parts ! k div 2 ^ rest = base ! k div 2 ^ rest)"
proof -
  define k where "k = (len - 1) div w"
  define r where "r = (len - 1) mod w + 1"
  have len: "len = w * k + r" using assms(5) by (simp add: k_def r_def)
  have "len - 1 < length parts * w" using assms(5,6) by (simp add: mult.commute)
  then have k: "k < length parts" by (simp add: k_def less_mult_imp_div_less)
  have r: "0 < r" "r \<le> w" using assms(7) mod_less_divisor [of w "len - 1"] by (auto simp: r_def Suc_leI)
  show ?thesis
    using in_net_parts [OF assms(1-4) k r] unfolding Let_def k_def [symmetric] r_def [symmetric] by (simp only: len)
qed

lemma in_net4:
  assumes "a < 256" "b < 256" "c < 256" "d < 256" "w < 256" "x < 256" "y < 256" "z < 256" "0 < len" "len \<le> 32"
  shows "in_net (net4 w x y z len) (join_words 8 [a, b, c, d])
    \<longleftrightarrow> (let k = (len - 1) div 8; rest = 8 - ((len - 1) mod 8 + 1)
         in take k [a, b, c, d] = take k [w, x, y, z] \<and> [a, b, c, d] ! k div 2 ^ rest = [w, x, y, z] ! k div 2 ^ rest)"
  unfolding net4_def by (rule leading_parts) (use assms in simp_all)

lemma octet_ranges:
  fixes b :: nat
  shows "b div 16 = Suc 0 \<longleftrightarrow> 16 \<le> b \<and> b < 32" "b div 2 = 9 \<longleftrightarrow> 18 \<le> b \<and> b < 20"
    "b < 256 \<Longrightarrow> b div 16 = 15 \<longleftrightarrow> 240 \<le> b" "b div 16 = 14 \<longleftrightarrow> 224 \<le> b \<and> b < 240"
  by auto

lemma is_public4_octets:
  assumes "a < 256" "b < 256" "c < 256" "d < 256"
  shows "is_public4 (join_words 8 [a, b, c, d]) \<longleftrightarrow> public_octets [a, b, c, d]"
proof -
  have zero: "join_words 8 [a, b, c, d] = (0 :: 32 word) \<longleftrightarrow> a = 0 \<and> b = 0 \<and> c = 0 \<and> d = 0"
    using unat_join_words [where 'a = 32, of 8 "[a, b, c, d]"] assms by (simp flip: unat_eq_0)
  note nets = in_net4 [OF assms]
  have top: "240 \<le> a \<or> a = 255 \<and> P \<longleftrightarrow> 240 \<le> a" for P by auto
  have high: "224 \<le> a \<longleftrightarrow> 224 \<le> a \<and> a < 240 \<or> 240 \<le> a" "240 \<le> a \<longrightarrow> 224 \<le> a"
    "a < 224 \<longleftrightarrow> \<not> (224 \<le> a \<and> a < 240 \<or> 240 \<le> a)" by auto
  have mid: "a = 192 \<and> b = 0 \<and> c = 0 \<or> a = 192 \<and> b = 0 \<and> c = 0 \<and> Q \<or> R
      \<longleftrightarrow> a = 192 \<and> b = 0 \<and> c = 0 \<or> R" for Q R by blast
  have "list_ex (\<lambda>n. in_net n (join_words 8 [a, b, c, d])) private_networks4 \<longleftrightarrow>
      a = 0 \<or> a = 10 \<or> a = 127 \<or> (a = 169 \<and> b = 254) \<or> (a = 172 \<and> 16 \<le> b \<and> b < 32) \<or> (a = 192 \<and> b = 0 \<and> c = 0)
       \<or> (a = 192 \<and> b = 0 \<and> c = 2) \<or> (a = 192 \<and> b = 168) \<or> (a = 198 \<and> 18 \<le> b \<and> b < 20)
       \<or> (a = 198 \<and> b = 51 \<and> c = 100) \<or> (a = 203 \<and> b = 0 \<and> c = 113) \<or> 240 \<le> a"
    unfolding private_networks4_def
    by (simp add: nets Let_def octet_ranges(1,2) octet_ranges(3) [OF assms(1)] top mid)
  moreover have "list_ex (\<lambda>n. in_net n (join_words 8 [a, b, c, d])) private_exceptions4
      \<longleftrightarrow> a = 192 \<and> b = 0 \<and> c = 0 \<and> (d = 9 \<or> d = 10)"
    unfolding private_exceptions4_def by (simp add: nets Let_def) blast
  ultimately have priv: "is_private4 (join_words 8 [a, b, c, d]) \<longleftrightarrow>
      (a = 0 \<or> a = 10 \<or> a = 127 \<or> (a = 169 \<and> b = 254) \<or> (a = 172 \<and> 16 \<le> b \<and> b < 32) \<or> (a = 192 \<and> b = 0 \<and> c = 0)
       \<or> (a = 192 \<and> b = 0 \<and> c = 2) \<or> (a = 192 \<and> b = 168) \<or> (a = 198 \<and> 18 \<le> b \<and> b < 20)
       \<or> (a = 198 \<and> b = 51 \<and> c = 100) \<or> (a = 203 \<and> b = 0 \<and> c = 113) \<or> 240 \<le> a)
      \<and> \<not> (a = 192 \<and> b = 0 \<and> c = 0 \<and> (d = 9 \<or> d = 10))"
    by (simp only: is_private4_def)
  have others: "in_net (net4 127 0 0 0 8) (join_words 8 [a, b, c, d]) \<longleftrightarrow> a = 127"
    "in_net (net4 169 254 0 0 16) (join_words 8 [a, b, c, d]) \<longleftrightarrow> a = 169 \<and> b = 254"
    "in_net (net4 224 0 0 0 4) (join_words 8 [a, b, c, d]) \<longleftrightarrow> 224 \<le> a \<and> a < 240"
    "in_net (net4 240 0 0 0 4) (join_words 8 [a, b, c, d]) \<longleftrightarrow> 240 \<le> a"
    by (simp_all add: nets Let_def octet_ranges(3) [OF assms(1)] octet_ranges(4))
  show ?thesis
  proof (cases "a \<in> {0, 10, 127, 169, 172, 192, 198, 203}")
    case True
    then show ?thesis unfolding is_public4_def priv others zero by (elim insertE emptyE; auto)
  next
    case False
    then have "is_public4 (join_words 8 [a, b, c, d]) \<longleftrightarrow> \<not> (240 \<le> a \<or> 224 \<le> a \<and> a < 240)"
      unfolding is_public4_def priv others zero by blast
    moreover have "public_octets [a, b, c, d] \<longleftrightarrow> a < 224" using False by auto
    ultimately show ?thesis using high(3) by blast
  qed
qed

lemma div_range:
  fixes h k m :: nat
  assumes "1 < m"
  shows "h div m = k \<longleftrightarrow> k * m \<le> h \<and> h < (k + 1) * m"
  using less_eq_div_iff_mult_less_eq [of m k h] div_less_iff_less_mult [of m h "k + 1"] assms by linarith

lemma in_net6:
  assumes "list_all (\<lambda>h. h < 65536) hs" "length hs = 8" "list_all (\<lambda>h. h < 65536) base" "length base \<le> 8"
    and "0 < len" "len \<le> 128"
  shows "in_net (net6 base len) (join_words 16 hs)
    \<longleftrightarrow> (let k = (len - 1) div 16; rest = 16 - ((len - 1) mod 16 + 1); full = base @ replicate (8 - length base) 0
         in take k hs = take k full \<and> hs ! k div 2 ^ rest = full ! k div 2 ^ rest)"
  unfolding net6_def by (subst leading_parts) (use assms in \<open>auto simp: Let_def list_all_iff\<close>)

lemma reserved6:
  assumes "list_all (\<lambda>h. h < 65536) [h0, h1, h2, h3, h4, h5, h6, h7]"
  shows "list_ex (\<lambda>n. in_net n (join_words 16 [h0, h1, h2, h3, h4, h5, h6, h7])) reserved_networks6
    \<longleftrightarrow> h0 < 0x2000 \<or> (0x4000 \<le> h0 \<and> h0 < 0xFC00) \<or> (0xFE00 \<le> h0 \<and> h0 < 0xFE80)"
  unfolding reserved_networks6_def
  by (simp add: in_net6 [OF assms] div_range Let_def) presburger

lemma special6:
  assumes "list_all (\<lambda>h. h < 65536) [h0, h1, h2, h3, h4, h5, h6, h7]"
  defines "a \<equiv> join_words 16 [h0, h1, h2, h3, h4, h5, h6, h7]"
  shows "in_net (net6 [0xFE80] 10) a \<longleftrightarrow> 0xFE80 \<le> h0 \<and> h0 < 0xFEC0"
    "in_net (net6 [0xFF00] 8) a \<longleftrightarrow> 0xFF00 \<le> h0 \<and> h0 < 0x10000"
    "in_net (net6 [0xFC00] 7) a \<longleftrightarrow> 0xFC00 \<le> h0 \<and> h0 < 0xFE00"
    "in_net (net6 [0x2001] 23) a \<longleftrightarrow> h0 = 0x2001 \<and> h1 < 0x200"
    "in_net (net6 [0x2001, 0xDB8] 32) a \<longleftrightarrow> h0 = 0x2001 \<and> h1 = 0xDB8"
    "in_net (net6 [0x2002] 16) a \<longleftrightarrow> h0 = 0x2002"
    "in_net (net6 [0x3FFF] 20) a \<longleftrightarrow> h0 = 0x3FFF \<and> h1 < 0x1000"
    "in_net (net6 [0, 0, 0, 0, 0, 0, 0, 1] 128) a \<longrightarrow> h0 = 0" "in_net (net6 [] 128) a \<longrightarrow> h0 = 0"
    "in_net (net6 [0, 0, 0, 0, 0, 0xFFFF] 96) a \<longleftrightarrow> [h0, h1, h2, h3, h4, h5] = [0, 0, 0, 0, 0, 0xFFFF]"
    "in_net (net6 [0x64, 0xFF9B, 1] 48) a \<longrightarrow> h0 = 0x64" "in_net (net6 [0x100] 64) a \<longrightarrow> h0 = 0x100"
    "list_ex (\<lambda>n. in_net n a) private_exceptions6
      \<longleftrightarrow> h0 = 0x2001 \<and> protocol_exception [h0, h1, h2, h3, h4, h5, h6, h7]"
    "a = 1 \<longrightarrow> h0 = 0" "a = 0 \<longrightarrow> h0 = 0"
proof -
  note nets = in_net6 [OF assms(1), folded a_def]
  have zeros: "replicate 7 (0::nat) = [0, 0, 0, 0, 0, 0, 0]" by code_simp
  show "in_net (net6 [0xFE80] 10) a \<longleftrightarrow> 0xFE80 \<le> h0 \<and> h0 < 0xFEC0"
    "in_net (net6 [0xFF00] 8) a \<longleftrightarrow> 0xFF00 \<le> h0 \<and> h0 < 0x10000"
    "in_net (net6 [0xFC00] 7) a \<longleftrightarrow> 0xFC00 \<le> h0 \<and> h0 < 0xFE00"
    "in_net (net6 [0x2001] 23) a \<longleftrightarrow> h0 = 0x2001 \<and> h1 < 0x200"
    "in_net (net6 [0x2001, 0xDB8] 32) a \<longleftrightarrow> h0 = 0x2001 \<and> h1 = 0xDB8"
    "in_net (net6 [0x2002] 16) a \<longleftrightarrow> h0 = 0x2002"
    "in_net (net6 [0x3FFF] 20) a \<longleftrightarrow> h0 = 0x3FFF \<and> h1 < 0x1000"
    "in_net (net6 [0, 0, 0, 0, 0, 0, 0, 1] 128) a \<longrightarrow> h0 = 0" "in_net (net6 [] 128) a \<longrightarrow> h0 = 0"
    "in_net (net6 [0, 0, 0, 0, 0, 0xFFFF] 96) a \<longleftrightarrow> [h0, h1, h2, h3, h4, h5] = [0, 0, 0, 0, 0, 0xFFFF]"
    "in_net (net6 [0x64, 0xFF9B, 1] 48) a \<longrightarrow> h0 = 0x64" "in_net (net6 [0x100] 64) a \<longrightarrow> h0 = 0x100"
    by (auto simp: nets div_range Let_def zeros)
  have "list_ex (\<lambda>n. in_net n a) private_exceptions6 \<longleftrightarrow> h0 = 0x2001 \<and>
      ((h1 = 1 \<and> h2 = 0 \<and> h3 = 0 \<and> h4 = 0 \<and> h5 = 0 \<and> h6 = 0 \<and> h7 = 1)
       \<or> (h1 = 1 \<and> h2 = 0 \<and> h3 = 0 \<and> h4 = 0 \<and> h5 = 0 \<and> h6 = 0 \<and> h7 = 2)
       \<or> h1 = 3 \<or> (h1 = 4 \<and> h2 = 0x112) \<or> (0x20 \<le> h1 \<and> h1 < 0x30) \<or> (0x30 \<le> h1 \<and> h1 < 0x40))"
    unfolding private_exceptions6_def by (simp add: nets div_range Let_def) blast
  also have "\<dots> \<longleftrightarrow> h0 = 0x2001 \<and> protocol_exception [h0, h1, h2, h3, h4, h5, h6, h7]"
    by auto
  finally show "list_ex (\<lambda>n. in_net n a) private_exceptions6
      \<longleftrightarrow> h0 = 0x2001 \<and> protocol_exception [h0, h1, h2, h3, h4, h5, h6, h7]" .
  have "parts_value 16 [h0, h1, h2, h3, h4, h5, h6, h7] = unat a"
    using unat_join_words [where 'a = 128, of 16 "[h0, h1, h2, h3, h4, h5, h6, h7]"] assms(1)
    by (simp add: a_def parts_value_def)
  then have "h0 * 2 ^ 112 \<le> unat a" by (simp add: parts_value_def)
  then show "a = 1 \<longrightarrow> h0 = 0" "a = 0 \<longrightarrow> h0 = 0" by auto
qed

lemma ipv4_mapped_iff: "ipv4_mapped a \<longleftrightarrow> in_net (net6 [0, 0, 0, 0, 0, 0xFFFF] 96) a"
proof -
  have zeros: "replicate 2 (0::nat) = [0, 0]" by code_simp
  have "unat (join_words 16 [0, 0, 0, 0, 0, 65535, 0, 0] :: 128 word) = 65535 * 2 ^ 32"
    using unat_join_words [where 'a = 128, of 16 "[0, 0, 0, 0, 0, 65535, 0, 0]"] by simp
  then have "in_net (net6 [0, 0, 0, 0, 0, 0xFFFF] 96) a \<longleftrightarrow> unat a div 2 ^ 32 = 65535"
    by (simp add: net6_def in_net_iff zeros)
  moreover have "drop_bit 32 a = 65535 \<longleftrightarrow> unat (drop_bit 32 a) = unat (65535 :: 128 word)"
    by (rule word_unat_eq_iff)
  moreover have "unat (drop_bit 32 a) = drop_bit 32 (unat a)" by (rule unat_drop_bit_eq)
  moreover have "drop_bit 32 (unat a) = unat a div 2 ^ 32" by (rule drop_bit_eq_div)
  moreover have "unat (65535 :: 128 word) = 65535" by simp
  ultimately show ?thesis by (simp only: ipv4_mapped_def)
qed

lemma is_public6_hextets:
  assumes "list_all (\<lambda>h. h < 65536) [h0, h1, h2, h3, h4, h5, h6, h7]"
    and "\<not> (delegates \<and> [h0, h1, h2, h3, h4, h5] = [0, 0, 0, 0, 0, 0xFFFF])"
  shows "is_public6 delegates (join_words 16 [h0, h1, h2, h3, h4, h5, h6, h7])
    \<longleftrightarrow> public_hextets [h0, h1, h2, h3, h4, h5, h6, h7]"
proof -
  define a :: "128 word" where "a = join_words 16 [h0, h1, h2, h3, h4, h5, h6, h7]"
  note facts = special6 [OF assms(1), folded a_def] and res = reserved6 [OF assms(1), folded a_def]
  have mapped: "ipv4_mapped a \<longleftrightarrow> [h0, h1, h2, h3, h4, h5] = [0, 0, 0, 0, 0, 0xFFFF]"
    unfolding ipv4_mapped_iff by (rule facts(10))
  have unfold: "is_public6 delegates a \<longleftrightarrow> \<not> (is_private6 a \<or> a = 1 \<or> in_net (net6 [0xFE80] 10) a
      \<or> in_net (net6 [0xFF00] 8) a \<or> list_ex (\<lambda>n. in_net n a) reserved_networks6 \<or> a = 0)"
    using assms(2) mapped unfolding is_public6_def by auto
  have h0: "h0 < 65536" using assms(1) by simp
  consider (reserved) "h0 < 0x2000 \<or> (0x4000 \<le> h0 \<and> h0 < 0xFC00) \<or> (0xFE00 \<le> h0 \<and> h0 < 0xFE80)"
    | (global) "0x2000 \<le> h0" "h0 < 0x4000" | (unique) "0xFC00 \<le> h0" "h0 < 0xFE00"
    | (link) "0xFE80 \<le> h0" "h0 < 0xFEC0" | (site) "0xFEC0 \<le> h0" "h0 < 0xFF00" | (multi) "0xFF00 \<le> h0"
    by linarith
  then have "is_public6 delegates a \<longleftrightarrow> public_hextets [h0, h1, h2, h3, h4, h5, h6, h7]"
  proof cases
    case reserved
    then show ?thesis unfolding unfold res by (auto simp: public_hextets_def)
  next
    case global
    then have "\<not> ipv4_mapped a" by (simp add: mapped)
    moreover have "list_ex (\<lambda>n. in_net n a) private_networks6
        \<longleftrightarrow> (h0 = 0x2001 \<and> h1 < 0x200) \<or> (h0 = 0x2001 \<and> h1 = 0xDB8) \<or> h0 = 0x2002
            \<or> (h0 = 0x3FFF \<and> h1 < 0x1000)"
      unfolding private_networks6_def using global facts(1-12) by auto
    moreover have "a \<noteq> 0" "a \<noteq> 1" using facts(14,15) global by auto
    moreover have "\<not> protocol_exception [h0, h1, h2, h3, h4, h5, h6, h7]" if "h1 = 0xDB8" using that by simp
    ultimately show ?thesis
      unfolding unfold res is_private6_def public_hextets_def facts(1,2,13) using global
      by (auto simp del: protocol_exception.simps)
  next
    case unique
    then have "\<not> ipv4_mapped a" "list_ex (\<lambda>n. in_net n a) private_networks6"
        "\<not> list_ex (\<lambda>n. in_net n a) private_exceptions6"
      using facts(3) by (simp_all add: mapped private_networks6_def facts(13))
    then show ?thesis unfolding unfold is_private6_def using unique by (simp add: public_hextets_def)
  next
    case link
    then show ?thesis unfolding unfold facts(1) by (auto simp: public_hextets_def)
  next
    case site
    then have "\<not> list_ex (\<lambda>n. in_net n a) private_networks6" "\<not> ipv4_mapped a" "a \<noteq> 0" "a \<noteq> 1"
      using facts(1-12,14,15) by (auto simp: private_networks6_def mapped)
    then show ?thesis unfolding unfold res is_private6_def facts(1,2) using site by (simp add: public_hextets_def)
  next
    case multi
    then show ?thesis unfolding unfold facts(2) using h0 by (auto simp: public_hextets_def)
  qed
  then show ?thesis by (simp only: a_def)
qed

text \<open>The parts of an address, the most significant first.\<close>

fun address_parts :: "nat \<Rightarrow> nat \<Rightarrow> nat \<Rightarrow> nat list" where
  "address_parts w 0 v = []"
| "address_parts w (Suc n) v = address_parts w n (v div 2 ^ w) @ [v mod 2 ^ w]"

definition octets :: "32 word \<Rightarrow> nat list" where
  "octets ip = address_parts 8 4 (unat ip)"

definition hextets :: "128 word \<Rightarrow> nat list" where
  "hextets ip = address_parts 16 8 (unat ip)"

lemma address_parts_bounds:
  "length (address_parts w n v) = n" "list_all (\<lambda>p. p < 2 ^ w) (address_parts w n v)"
  by (induction n arbitrary: v) simp_all

lemma parts_value_parts: "v < 2 ^ (w * n) \<Longrightarrow> parts_value w (address_parts w n v) = v"
proof (induction n arbitrary: v)
  case (Suc n)
  then have "v div 2 ^ w < 2 ^ (w * n)" by (simp add: less_mult_imp_div_less power_add mult.commute)
  from Suc.IH [OF this] have "parts_value w (address_parts w (Suc n) v) = v div 2 ^ w * 2 ^ w + v mod 2 ^ w"
    by (simp add: parts_value_append) (simp add: parts_value_def)
  also have "\<dots> = v" by (rule div_mult_mod_eq)
  finally show ?case .
qed (simp add: parts_value_def)

lemma join_address_parts:
  fixes ip :: "'a::len word"
  assumes "LENGTH('a) = w * n"
  shows "join_words w (address_parts w n (unat ip)) = ip"
proof -
  have "unat ip < 2 ^ (w * n)" using unsigned_less [of ip] assms by simp
  from parts_value_parts [OF this] have "parts_value w (address_parts w n (unat ip)) = unat ip" .
  then have "unat (join_words w (address_parts w n (unat ip)) :: 'a word) = unat ip"
    using unat_join_words [where 'a = 'a, OF address_parts_bounds(2) [of w n "unat ip"]] assms
    by (simp add: address_parts_bounds(1) parts_value_def mult.commute)
  then show ?thesis by (simp add: word_unat_eq_iff)
qed

lemma is_public4_all: "is_public4 ip \<longleftrightarrow> public_octets (octets ip)"
proof -
  have "length (octets ip) = Suc (Suc (Suc (Suc 0)))" by (simp add: octets_def address_parts_bounds(1))
  then obtain a b c d where o: "octets ip = [a, b, c, d]" by (auto simp: length_Suc_conv)
  then have "a < 256" "b < 256" "c < 256" "d < 256"
    using address_parts_bounds(2) [of 8 4 "unat ip"] by (simp_all add: octets_def)
  from is_public4_octets [OF this] join_address_parts [of 8 4 ip] show ?thesis
    by (simp add: o flip: octets_def)
qed

lemma is_public6_all:
  "is_public6 delegates ip \<longleftrightarrow>
     (if delegates \<and> take 6 (hextets ip) = [0, 0, 0, 0, 0, 0xFFFF] then public_octets (octets (ucast ip))
      else public_hextets (hextets ip))"
proof -
  have "length (hextets ip) = Suc (Suc (Suc (Suc (Suc (Suc (Suc (Suc 0)))))))"
    by (simp add: hextets_def address_parts_bounds(1))
  then obtain h0 h1 h2 h3 h4 h5 h6 h7 where h: "hextets ip = [h0, h1, h2, h3, h4, h5, h6, h7]"
    by (auto simp: length_Suc_conv)
  have ok: "list_all (\<lambda>h. h < 65536) [h0, h1, h2, h3, h4, h5, h6, h7]"
    using address_parts_bounds(2) [of 16 8 "unat ip"] by (simp add: h flip: hextets_def)
  have ip: "join_words 16 [h0, h1, h2, h3, h4, h5, h6, h7] = ip"
    using join_address_parts [of 16 8 ip] by (simp add: h flip: hextets_def)
  have six: "take 6 (hextets ip) = [h0, h1, h2, h3, h4, h5]" by (simp add: h)
  show ?thesis
  proof (cases "delegates \<and> [h0, h1, h2, h3, h4, h5] = [0, 0, 0, 0, 0, 0xFFFF]")
    case True
    then have "ipv4_mapped ip"
      using special6(10) [OF ok] unfolding ipv4_mapped_iff ip by blast
    with True show ?thesis unfolding six is_public6_def is_public4_all by simp
  next
    case False
    from is_public6_hextets [OF ok False] False show ?thesis unfolding six ip h by auto
  qed
qed

text \<open>C29 Which addresses \<open>_is_public\<close> takes for public, for every text: one that is no address raises
  \<open>ValueError\<close>; an IPv4 address is public exactly when its octets are outside the private, loopback,
  link-local, documentation, benchmarking, multicast and reserved blocks listed in
  \<open>public_octets\<close>; an IPv6 address exactly when it is in 2000::/3 outside the special blocks
  (2001::/23 but for its exceptions, 2001:db8::/32, 2002::/16 and 3fff::/20), or in fec0::/10; and an
  IPv4-mapped address, in the releases that let it answer for the embedded address, exactly when that
  address is public.  In particular the shared address space 100.64.0.0/10 and site-local addresses
  pass.\<close>

theorem public_addresses:
  "is_public delegates address =
     (case parse_ip address of
        None \<Rightarrow> None
      | Some (V4 ip) \<Rightarrow> Some (public_octets (octets ip))
      | Some (V6 ip) \<Rightarrow>
          Some (if delegates \<and> take 6 (hextets ip) = [0, 0, 0, 0, 0, 0xFFFF]
                then public_octets (octets (ucast ip)) else public_hextets (hextets ip)))"
  unfolding is_public_def
  by (cases "parse_ip address") (auto simp: is_public4_all is_public6_all split: ip_address.split)

text \<open>Some addresses: shared space and site-local pass, documentation does not.\<close>

lemma sample_addresses:
  "is_public True ''100.64.0.1'' = Some True"
  "is_public6 True (join_words 16 [0xFEC0, 0, 0, 0, 0, 0, 0, 1])"
  "\<not> is_public6 True (join_words 16 [0x3FFF, 1, 0, 0, 0, 0, 0, 1])"
proof -
  show "is_public True ''100.64.0.1'' = Some True" by code_simp
  show "is_public6 True (join_words 16 [0xFEC0, 0, 0, 0, 0, 0, 0, 1])"
    "\<not> is_public6 True (join_words 16 [0x3FFF, 1, 0, 0, 0, 0, 0, 1])"
    using is_public6_hextets [of "0xFEC0" 0 0 0 0 0 0 1 True] is_public6_hextets [of "0x3FFF" 1 0 0 0 0 0 1 True]
    by (simp_all add: public_hextets_def)
qed

end
