(* ===== verification/Database.thy ===== *)
theory Database
  imports Contracts
begin

text \<open>
  The durable state: one record per table of \<open>src/tomiris_hub/database/models.py\<close>, with a
  datatype for each column whose \<open>CHECK\<close> constraint lists its values, and the record \<open>world\<close>
  of all tables together with the \<open>uuid4\<close> generator and the process-local metric sink
  (\<open>src/tomiris_orchestrator/metrics.py\<close>).  \<open>add_orchestration_event\<close> is the audit writer of
  \<open>src/tomiris_orchestrator/audit.py\<close>.

  A committed transaction is one function on \<open>world\<close>.  Rows are held in storage order;
  where a query leaves ties in its order open, the model takes the storage order.
  \<open>uuid4()\<close> reads the next element of an arbitrary supply \<open>w_uuid_src\<close>; facts that need fresh
  identifiers assume the supply injective.
\<close>

section \<open>Rows\<close>

datatype criticality = LOW | NORMAL | HIGH | CRITICAL

record agent =
  ag_agent_id :: string
  ag_name :: string
  ag_role :: string
  ag_enabled :: bool
  ag_protocol_version :: string
  ag_capabilities :: "string list"
  ag_criticality :: criticality
  ag_supported_assets :: "string list"
  ag_supported_evidence_types :: "string list"
  ag_metadata :: dict

record nonce_row =
  nc_agent_id :: string
  nc_nonce :: string
  nc_received_at :: instant

record signal_row =
  sg_message_id :: uuid
  sg_agent_id :: string
  sg_agent_run_id :: uuid
  sg_snapshot_id :: uuid
  sg_task_id :: "uuid option"
  sg_orchestration_run_id :: "uuid option"
  sg_correlation_id :: uuid
  sg_causation_id :: "uuid option"
  sg_protocol_version :: string
  sg_asset :: string
  sg_bias :: bias
  sg_confidence :: int
  sg_impact :: int
  sg_time_horizon :: string
  sg_data_timestamp :: instant
  sg_analysis_timestamp :: instant
  sg_signal_ttl_seconds :: int
  sg_role_id :: "string option"
  sg_role_version :: "string option"
  sg_config_version :: "string option"
  sg_feature_pipeline_version :: "string option"
  sg_analysis_schema_version :: "string option"
  sg_data_provider :: "string option"
  sg_data_as_of :: "instant option"
  sg_confidence_model_version :: "string option"
  sg_payload :: agent_signal
  sg_payload_hash :: string
  sg_received_at :: instant

datatype audit_outcome = ACCEPTED | REJECTED

record audit_row =
  au_event_id :: uuid
  au_occurred_at :: instant
  au_event_type :: string
  au_outcome :: audit_outcome
  au_reason_code :: "string option"
  au_request_id :: uuid
  au_agent_id :: "string option"
  au_message_id :: "uuid option"
  au_snapshot_id :: "uuid option"
  au_correlation_id :: uuid
  au_causation_id :: "uuid option"
  au_payload_hash :: "string option"
  au_metadata :: dict

datatype notification_status = N_PENDING | N_SENDING | N_SENT | N_RETRY | N_FAILED | N_DEAD_LETTER

record outbox_row =
  ob_notification_id :: uuid
  ob_event_id :: uuid
  ob_event_type :: string
  ob_snapshot_id :: "uuid option"
  ob_channel :: string
  ob_recipient_ref :: string
  ob_payload :: pyval
  ob_status :: notification_status
  ob_attempt_count :: int
  ob_next_attempt_at :: instant
  ob_last_error_code :: "string option"
  ob_created_at :: instant
  ob_sent_at :: "instant option"
  ob_idempotency_key :: string
  ob_correlation_id :: uuid
  ob_causation_id :: "uuid option"

datatype environment = TEST | DEVELOPMENT | PRODUCTION

record agent_endpoint =
  ep_agent_id :: string
  ep_endpoint_url :: string
  ep_enabled :: bool
  ep_environment :: environment
  ep_metadata :: dict

datatype availability = UNKNOWN | HEALTHY | DEGRADED | UNAVAILABLE
datatype circuit_state = CLOSED | OPEN | HALF_OPEN

record agent_runtime_state =
  rs_agent_id :: string
  rs_availability :: availability
  rs_last_probe_at :: "instant option"
  rs_last_seen_at :: "instant option"
  rs_last_ack_at :: "instant option"
  rs_last_signal_at :: "instant option"
  rs_last_success_at :: "instant option"
  rs_consecutive_failures :: int
  rs_latency_ms :: "rat option"
  rs_circuit_state :: circuit_state
  rs_circuit_open_until :: "instant option"
  rs_last_error_code :: "string option"
  rs_updated_at :: instant

datatype run_status =
    R_CREATED | R_DISPATCHING | R_COLLECTING | R_FULL | R_DEGRADED | R_CRITICAL
  | R_FAILED | R_TIMED_OUT | R_CANCELLED

datatype run_outcome = O_FULL | O_DEGRADED | O_CRITICAL | O_INSUFFICIENT_DATA

text \<open>
  The JSON column \<open>metadata\<close> of a run.  Its only writer is the planner, which stores the dump
  of the policy, the context and the two lists of missing capabilities; the readers
  re-validate the dump.  The model keeps the typed values.
\<close>

record run_metadata =
  rm_policy :: orchestration_policy
  rm_context :: pyval
  rm_missing_required :: "string list"
  rm_missing_optional :: "string list"

record orchestration_run =
  r_orchestration_run_id :: uuid
  r_snapshot_id :: uuid
  r_asset :: string
  r_trigger_type :: string
  r_status :: run_status
  r_outcome :: "run_outcome option"
  r_created_at :: instant
  r_started_at :: "instant option"
  r_collection_deadline :: instant
  r_completed_at :: "instant option"
  r_correlation_id :: uuid
  r_policy_version :: string
  r_metadata :: run_metadata

datatype task_status =
    PENDING | DISPATCHING | ACKNOWLEDGED | WAITING_SIGNAL | SIGNAL_RECEIVED
  | RETRY | TIMED_OUT | FAILED | CANCELLED | SKIPPED

record agent_task =
  t_task_id :: uuid
  t_orchestration_run_id :: uuid
  t_snapshot_id :: uuid
  t_agent_id :: string
  t_asset :: string
  t_required_capability :: string
  t_required :: bool
  t_priority :: int
  t_criticality :: criticality
  t_status :: task_status
  t_attempt_count :: int
  t_dispatch_after :: instant
  t_dispatch_deadline :: instant
  t_signal_deadline :: instant
  t_lease_owner :: "string option"
  t_lease_until :: "instant option"
  t_last_error_code :: "string option"
  t_acknowledged_at :: "instant option"
  t_signal_received_at :: "instant option"
  t_context :: pyval
  t_causation_id :: "uuid option"
  t_created_at :: instant
  t_updated_at :: instant

section \<open>The world\<close>

record world =
  w_agents :: "agent list"
  w_snapshots :: "market_snapshot list"
  w_nonces :: "nonce_row list"
  w_signals :: "signal_row list"
  w_audit :: "audit_row list"
  w_outbox :: "outbox_row list"
  w_endpoints :: "agent_endpoint list"
  w_states :: "agent_runtime_state list"
  w_runs :: "orchestration_run list"
  w_tasks :: "agent_task list"
  w_uuid_src :: "nat \<Rightarrow> uuid"
  w_uuid_pos :: nat
  w_counters :: "string \<Rightarrow> int option"
  w_observations :: "string \<Rightarrow> rat list option"

text \<open>\<open>session.get\<close> on the primary key of each table.\<close>

definition get_agent :: "string \<Rightarrow> world \<Rightarrow> agent option" where
  "get_agent k w = row_get ag_agent_id k (w_agents w)"

definition get_snapshot :: "uuid \<Rightarrow> world \<Rightarrow> market_snapshot option" where
  "get_snapshot k w = row_get sn_snapshot_id k (w_snapshots w)"

definition get_signal :: "uuid \<Rightarrow> world \<Rightarrow> signal_row option" where
  "get_signal k w = row_get sg_message_id k (w_signals w)"

definition get_endpoint :: "string \<Rightarrow> world \<Rightarrow> agent_endpoint option" where
  "get_endpoint k w = row_get ep_agent_id k (w_endpoints w)"

definition get_state :: "string \<Rightarrow> world \<Rightarrow> agent_runtime_state option" where
  "get_state k w = row_get rs_agent_id k (w_states w)"

definition get_run :: "uuid \<Rightarrow> world \<Rightarrow> orchestration_run option" where
  "get_run k w = row_get r_orchestration_run_id k (w_runs w)"

definition get_task :: "uuid \<Rightarrow> world \<Rightarrow> agent_task option" where
  "get_task k w = row_get t_task_id k (w_tasks w)"

text \<open>Flushing a mutated row object.\<close>

definition put_state :: "agent_runtime_state \<Rightarrow> world \<Rightarrow> world" where
  "put_state s w = w\<lparr>w_states := row_put rs_agent_id s (w_states w)\<rparr>"

definition put_run :: "orchestration_run \<Rightarrow> world \<Rightarrow> world" where
  "put_run r w = w\<lparr>w_runs := row_put r_orchestration_run_id r (w_runs w)\<rparr>"

definition put_task :: "agent_task \<Rightarrow> world \<Rightarrow> world" where
  "put_task t w = w\<lparr>w_tasks := row_put t_task_id t (w_tasks w)\<rparr>"

text \<open>\<open>session.add\<close>.\<close>

definition add_state :: "agent_runtime_state \<Rightarrow> world \<Rightarrow> world" where
  "add_state s w = w\<lparr>w_states := w_states w @ [s]\<rparr>"

definition add_run :: "orchestration_run \<Rightarrow> world \<Rightarrow> world" where
  "add_run r w = w\<lparr>w_runs := w_runs w @ [r]\<rparr>"

definition add_task :: "agent_task \<Rightarrow> world \<Rightarrow> world" where
  "add_task t w = w\<lparr>w_tasks := w_tasks w @ [t]\<rparr>"

definition add_audit :: "audit_row \<Rightarrow> world \<Rightarrow> world" where
  "add_audit a w = w\<lparr>w_audit := w_audit w @ [a]\<rparr>"

definition uuid4 :: "world \<Rightarrow> uuid \<times> world" where
  "uuid4 w = (w_uuid_src w (w_uuid_pos w), w\<lparr>w_uuid_pos := Suc (w_uuid_pos w)\<rparr>)"

section \<open>Metrics\<close>

definition metric_increment :: "string \<Rightarrow> int \<Rightarrow> world \<Rightarrow> world" where
  "metric_increment name amount w =
     w\<lparr>w_counters := (w_counters w)(name \<mapsto>
        (case w_counters w name of None \<Rightarrow> 0 | Some c \<Rightarrow> c) + amount)\<rparr>"

definition metric_observe :: "string \<Rightarrow> rat \<Rightarrow> world \<Rightarrow> world" where
  "metric_observe name value w =
     w\<lparr>w_observations := (w_observations w)(name \<mapsto>
        (case w_observations w name of None \<Rightarrow> [] | Some vs \<Rightarrow> vs) @ [value])\<rparr>"

section \<open>Audit\<close>

definition add_orchestration_event ::
    "instant \<Rightarrow> string \<Rightarrow> uuid \<Rightarrow> uuid option \<Rightarrow> uuid \<Rightarrow> uuid option \<Rightarrow> string option \<Rightarrow>
     uuid option \<Rightarrow> audit_outcome \<Rightarrow> string option \<Rightarrow> dict \<Rightarrow> world \<Rightarrow> world" where
  "add_orchestration_event now event_type correlation_id causation_id run_id task_id agent_id
      snapshot_id outcome reason_code metadata w =
     (let event_metadata = [(''orchestration_run_id'', PyStr (uuid_str run_id))];
          event_metadata =
            (case task_id of
               None \<Rightarrow> event_metadata
             | Some tid \<Rightarrow> dict_set ''task_id'' (PyStr (uuid_str tid)) event_metadata);
          event_metadata = dict_update event_metadata metadata;
          (event_id, w) = uuid4 w;
          (request_id, w) = uuid4 w
      in add_audit \<lparr>au_event_id = event_id, au_occurred_at = now, au_event_type = event_type,
           au_outcome = outcome, au_reason_code = reason_code, au_request_id = request_id,
           au_agent_id = agent_id, au_message_id = None, au_snapshot_id = snapshot_id,
           au_correlation_id = correlation_id, au_causation_id = causation_id,
           au_payload_hash = None, au_metadata = event_metadata\<rparr> w)"

section \<open>What the writers leave alone\<close>

named_theorems world_defs "the primitive reads and writes of the world"

declare get_agent_def [world_defs] get_snapshot_def [world_defs] get_signal_def [world_defs]
  get_endpoint_def [world_defs] get_state_def [world_defs] get_run_def [world_defs]
  get_task_def [world_defs] put_state_def [world_defs] put_run_def [world_defs]
  put_task_def [world_defs] add_state_def [world_defs] add_run_def [world_defs]
  add_task_def [world_defs]

lemma metric_increment_frame [simp]:
  "w_agents (metric_increment n a w) = w_agents w"
  "w_snapshots (metric_increment n a w) = w_snapshots w"
  "w_nonces (metric_increment n a w) = w_nonces w"
  "w_signals (metric_increment n a w) = w_signals w"
  "w_audit (metric_increment n a w) = w_audit w"
  "w_outbox (metric_increment n a w) = w_outbox w"
  "w_endpoints (metric_increment n a w) = w_endpoints w"
  "w_states (metric_increment n a w) = w_states w"
  "w_runs (metric_increment n a w) = w_runs w"
  "w_tasks (metric_increment n a w) = w_tasks w"
  "w_uuid_src (metric_increment n a w) = w_uuid_src w"
  "w_uuid_pos (metric_increment n a w) = w_uuid_pos w"
  by (simp_all add: metric_increment_def)

lemma metric_observe_frame [simp]:
  "w_agents (metric_observe n v w) = w_agents w"
  "w_snapshots (metric_observe n v w) = w_snapshots w"
  "w_nonces (metric_observe n v w) = w_nonces w"
  "w_signals (metric_observe n v w) = w_signals w"
  "w_audit (metric_observe n v w) = w_audit w"
  "w_outbox (metric_observe n v w) = w_outbox w"
  "w_endpoints (metric_observe n v w) = w_endpoints w"
  "w_states (metric_observe n v w) = w_states w"
  "w_runs (metric_observe n v w) = w_runs w"
  "w_tasks (metric_observe n v w) = w_tasks w"
  "w_uuid_src (metric_observe n v w) = w_uuid_src w"
  "w_uuid_pos (metric_observe n v w) = w_uuid_pos w"
  by (simp_all add: metric_observe_def)

lemma add_orchestration_event_frame [simp]:
  "w_agents (add_orchestration_event now ev c ca r t a sn out re m w) = w_agents w"
  "w_snapshots (add_orchestration_event now ev c ca r t a sn out re m w) = w_snapshots w"
  "w_nonces (add_orchestration_event now ev c ca r t a sn out re m w) = w_nonces w"
  "w_signals (add_orchestration_event now ev c ca r t a sn out re m w) = w_signals w"
  "w_outbox (add_orchestration_event now ev c ca r t a sn out re m w) = w_outbox w"
  "w_endpoints (add_orchestration_event now ev c ca r t a sn out re m w) = w_endpoints w"
  "w_states (add_orchestration_event now ev c ca r t a sn out re m w) = w_states w"
  "w_runs (add_orchestration_event now ev c ca r t a sn out re m w) = w_runs w"
  "w_tasks (add_orchestration_event now ev c ca r t a sn out re m w) = w_tasks w"
  "w_uuid_src (add_orchestration_event now ev c ca r t a sn out re m w) = w_uuid_src w"
  "w_uuid_pos (add_orchestration_event now ev c ca r t a sn out re m w) = Suc (Suc (w_uuid_pos w))"
  "w_counters (add_orchestration_event now ev c ca r t a sn out re m w) = w_counters w"
  by (simp_all add: add_orchestration_event_def uuid4_def add_audit_def Let_def)

text \<open>The row an event appends, as far as its readers look: type, outcome, reason and links.\<close>

lemma add_orchestration_event_audit:
  "\<exists>row. w_audit (add_orchestration_event now ev c ca r t a sn out re m w) = w_audit w @ [row]
     \<and> au_event_type row = ev \<and> au_outcome row = out \<and> au_reason_code row = re
     \<and> au_agent_id row = a \<and> au_snapshot_id row = sn \<and> au_correlation_id row = c
     \<and> au_causation_id row = ca \<and> au_occurred_at row = now"
  by (simp add: add_orchestration_event_def uuid4_def add_audit_def Let_def)

section \<open>The tables as instances of the row interface\<close>

interpretation agents_table: row_table ag_agent_id w_agents "\<lambda>rs w. w\<lparr>w_agents := rs\<rparr>"
  by unfold_locales simp_all

interpretation states_table: row_table rs_agent_id w_states "\<lambda>rs w. w\<lparr>w_states := rs\<rparr>"
  by unfold_locales simp_all

interpretation runs_table: row_table r_orchestration_run_id w_runs "\<lambda>rs w. w\<lparr>w_runs := rs\<rparr>"
  by unfold_locales simp_all

interpretation tasks_table: row_table t_task_id w_tasks "\<lambda>rs w. w\<lparr>w_tasks := rs\<rparr>"
  by unfold_locales simp_all

interpretation signals_table: row_table sg_message_id w_signals "\<lambda>rs w. w\<lparr>w_signals := rs\<rparr>"
  by unfold_locales simp_all

lemma get_task_put_task:
  "get_task k (put_task t w) =
     (if t_task_id t = k then (if get_task k w = None then None else Some t) else get_task k w)"
  unfolding get_task_def put_task_def by (rule tasks_table.get_after_put)

lemma get_run_put_run:
  "get_run k (put_run r w) =
     (if r_orchestration_run_id r = k then (if get_run k w = None then None else Some r)
      else get_run k w)"
  unfolding get_run_def put_run_def by (rule runs_table.get_after_put)

lemma get_state_put_state:
  "get_state k (put_state s w) =
     (if rs_agent_id s = k then (if get_state k w = None then None else Some s) else get_state k w)"
  unfolding get_state_def put_state_def by (rule states_table.get_after_put)

lemma get_state_add_state:
  "get_state k (add_state s w) =
     (case get_state k w of None \<Rightarrow> if rs_agent_id s = k then Some s else None | Some x \<Rightarrow> Some x)"
  unfolding get_state_def add_state_def by (rule states_table.get_after_add)

lemma put_frame [simp]:
  "get_task k (put_state s w) = get_task k w" "get_task k (put_run r w) = get_task k w"
  "get_run k (put_state s w) = get_run k w" "get_run k (put_task t w) = get_run k w"
  "get_state a (put_task t w) = get_state a w" "get_state a (put_run r w) = get_state a w"
  "get_endpoint a (put_state s w) = get_endpoint a w" "get_endpoint a (put_task t w) = get_endpoint a w"
  "get_endpoint a (put_run r w) = get_endpoint a w"
  "get_task k (add_state s w) = get_task k w" "get_run k (add_state s w) = get_run k w"
  "get_endpoint a (add_state s w) = get_endpoint a w"
  by (simp_all add: world_defs)

lemma get_frame [simp]:
  "get_task k (metric_increment n a w) = get_task k w"
  "get_run k (metric_increment n a w) = get_run k w"
  "get_state g (metric_increment n a w) = get_state g w"
  "get_task k (metric_observe n v w) = get_task k w"
  "get_run k (metric_observe n v w) = get_run k w"
  "get_state g (metric_observe n v w) = get_state g w"
  "get_task k (add_orchestration_event now ev c ca r t ag sn out re m w) = get_task k w"
  "get_run k (add_orchestration_event now ev c ca r t ag sn out re m w) = get_run k w"
  "get_state g (add_orchestration_event now ev c ca r t ag sn out re m w) = get_state g w"
  by (simp_all add: world_defs)

lemma get_task_SomeD: "get_task k w = Some t \<Longrightarrow> t \<in> set (w_tasks w) \<and> t_task_id t = k"
  unfolding get_task_def by (rule row_get_SomeD)

lemma get_run_SomeD: "get_run k w = Some r \<Longrightarrow> r \<in> set (w_runs w) \<and> r_orchestration_run_id r = k"
  unfolding get_run_def by (rule row_get_SomeD)

lemma get_state_SomeD: "get_state k w = Some s \<Longrightarrow> s \<in> set (w_states w) \<and> rs_agent_id s = k"
  unfolding get_state_def by (rule row_get_SomeD)

end
