(* ===== verification/Endpoint_Security.thy ===== *)
theory Endpoint_Security
  imports Public_Addresses Database
begin

text \<open>
  \<open>EndpointValidator\<close> of \<open>src/tomiris_orchestrator/endpoint_security.py\<close>: which agent endpoints
  the orchestrator may contact.  The resolver of names is an argument.  The theory determines
  which URLs pass for PRODUCTION, and shows that the paths the callers append leave the checked
  host in place.
\<close>

section \<open>\<open>EndpointValidator\<close>\<close>

text \<open>An \<open>EndpointSecurityError\<close> with code and detail, or another exception.\<close>

datatype endpoint_error = EndpointSecurityError string string | EndpointOtherError

datatype resolution = Resolved "string list" | ResolveOSError | ResolveOtherError

record endpoint_validator =
  ev_allowed_host_suffixes :: "string list"
  ev_resolver :: "string \<Rightarrow> int \<Rightarrow> resolution"
  ev_delegates :: bool

definition new_endpoint_validator ::
    "string list \<Rightarrow> (string \<Rightarrow> int \<Rightarrow> resolution) \<Rightarrow> bool \<Rightarrow> endpoint_validator" where
  "new_endpoint_validator suffixes resolver delegates =
     \<lparr>ev_allowed_host_suffixes = map (\<lambda>s. lower (lstrip_dots s)) suffixes, ev_resolver = resolver,
      ev_delegates = delegates\<rparr>"

definition forbidden :: "string \<Rightarrow> endpoint_error" where
  "forbidden detail = EndpointSecurityError ''AGENT_ENDPOINT_FORBIDDEN'' detail"

definition host_allowed :: "string list \<Rightarrow> string \<Rightarrow> bool" where
  "host_allowed suffixes host \<longleftrightarrow>
     list_ex (\<lambda>suffix. host = suffix \<or> ends_with (CHR ''.'' # suffix) host) suffixes"

definition local_hosts :: "string list" where
  "local_hosts = [''localhost'', ''127.0.0.1'', ''::1'']"

definition check_production :: "endpoint_validator \<Rightarrow> url_parts \<Rightarrow> string \<Rightarrow> int option \<Rightarrow> endpoint_error + unit" where
  "check_production v u host port =
     (if up_scheme u \<noteq> ''https'' then Inl (forbidden ''production requires HTTPS'')
      else if \<not> host_allowed (ev_allowed_host_suffixes v) host
      then Inl (forbidden ''host is outside the allowlist'')
      else
        case ev_resolver v host (case port of None \<Rightarrow> 443 | Some p \<Rightarrow> if p = 0 then 443 else p) of
          ResolveOSError \<Rightarrow> Inl (EndpointSecurityError ''AGENT_UNAVAILABLE'' ''endpoint DNS resolution failed'')
        | ResolveOtherError \<Rightarrow> Inl EndpointOtherError
        | Resolved addresses \<Rightarrow>
            if addresses = [] then Inl (forbidden ''DNS resolved to a non-public address'')
            else (case all_public (ev_delegates v) addresses of
                    None \<Rightarrow> Inl EndpointOtherError
                  | Some ok \<Rightarrow> if ok then Inr () else Inl (forbidden ''DNS resolved to a non-public address'')))"

definition validate_endpoint :: "endpoint_validator \<Rightarrow> string \<Rightarrow> environment \<Rightarrow> endpoint_error + string" where
  "validate_endpoint v endpoint_url env =
     (case urlsplit endpoint_url of
        None \<Rightarrow> Inl (forbidden ''malformed endpoint URL'')
      | Some u \<Rightarrow>
          (case url_port u of
             Inl _ \<Rightarrow> Inl (forbidden ''malformed endpoint URL'')
           | Inr port \<Rightarrow>
               if up_scheme u \<notin> {''http'', ''https''} \<or> url_hostname u = None
               then Inl (forbidden ''HTTP(S) endpoint required'')
               else if url_credentials u then Inl (forbidden ''credentials in URL are forbidden'')
               else if up_query u \<noteq> [] \<or> up_fragment u \<noteq> []
               then Inl (forbidden ''query and fragment are forbidden'')
               else if up_path u \<notin> {[], ''/''} then Inl (forbidden ''endpoint must be an origin URL'')
               else
                 let host = rstrip_dots (lower (the (url_hostname u)))
                 in case (if env = PRODUCTION then check_production v u host port
                          else if host \<notin> set local_hosts \<and> up_scheme u \<noteq> ''https''
                          then Inl (forbidden ''development HTTP is localhost-only'') else Inr ()) of
                      Inl e \<Rightarrow> Inl e
                    | Inr _ \<Rightarrow> Inr (rstrip_slash endpoint_url)))"

section \<open>What validation establishes\<close>

lemma all_public_True: "all_public d addresses = Some True \<longleftrightarrow> list_all (\<lambda>a. is_public d a = Some True) addresses"
  by (induction addresses) (auto split: option.splits if_splits)

lemma check_production_Inr:
  "check_production v u host port = Inr () \<longleftrightarrow>
     up_scheme u = ''https'' \<and> host_allowed (ev_allowed_host_suffixes v) host
     \<and> (\<exists>addresses. ev_resolver v host (case port of None \<Rightarrow> 443 | Some p \<Rightarrow> if p = 0 then 443 else p) = Resolved addresses
          \<and> addresses \<noteq> [] \<and> list_all (\<lambda>a. is_public (ev_delegates v) a = Some True) addresses)"
  unfolding check_production_def all_public_True [symmetric]
  by (auto split: resolution.splits option.splits if_splits)

text \<open>The checks common to all environments\<close>

definition origin_url :: "url_parts \<Rightarrow> bool" where
  "origin_url u \<longleftrightarrow>
     up_scheme u \<in> {''http'', ''https''} \<and> url_hostname u \<noteq> None \<and> \<not> url_credentials u
     \<and> up_query u = [] \<and> up_fragment u = [] \<and> up_path u \<in> {[], ''/''}"

lemma validate_endpoint_Inr:
  "validate_endpoint v url env = Inr origin \<longleftrightarrow>
     origin = rstrip_slash url \<and>
     (\<exists>u port. urlsplit url = Some u \<and> url_port u = Inr port \<and> origin_url u
        \<and> (let host = rstrip_dots (lower (the (url_hostname u)))
           in if env = PRODUCTION then check_production v u host port = Inr ()
              else host \<in> set local_hosts \<or> up_scheme u = ''https''))"
proof (cases "urlsplit url")
  case None
  then show ?thesis by (simp add: validate_endpoint_def)
next
  case (Some u)
  show ?thesis
  proof (cases "url_port u")
    case (Inl e)
    with Some show ?thesis by (simp add: validate_endpoint_def)
  next
    case (Inr port)
    define X where "X = (if env = PRODUCTION then check_production v u (rstrip_dots (lower (the (url_hostname u)))) port
      else if rstrip_dots (lower (the (url_hostname u))) \<notin> set local_hosts \<and> up_scheme u \<noteq> ''https''
      then Inl (forbidden ''development HTTP is localhost-only'') else Inr ())"
    have X: "X = Inr () \<longleftrightarrow> (let host = rstrip_dots (lower (the (url_hostname u)))
           in if env = PRODUCTION then check_production v u host port = Inr ()
              else host \<in> set local_hosts \<or> up_scheme u = ''https'')"
      by (simp add: X_def Let_def)
    have "validate_endpoint v url env = Inr origin \<longleftrightarrow> origin_url u \<and> origin = rstrip_slash url \<and> X = Inr ()"
    proof (cases "origin_url u")
      case True
      then have "validate_endpoint v url env = (case X of Inl e \<Rightarrow> Inl e | Inr _ \<Rightarrow> Inr (rstrip_slash url))"
        unfolding validate_endpoint_def Some option.case Inr sum.case Let_def X_def origin_url_def by (cases "url_hostname u"; simp)
      with True show ?thesis by (cases X) auto
    next
      case False
      then have "\<exists>e. validate_endpoint v url env = Inl e"
        unfolding validate_endpoint_def Some option.case Inr sum.case origin_url_def by auto
      with False show ?thesis by auto
    qed
    then show ?thesis unfolding X using Some Inr by auto
  qed
qed

lemma production_Inr:
  "validate_endpoint v url PRODUCTION = Inr origin \<longleftrightarrow>
     origin = rstrip_slash url \<and>
     (\<exists>u port name addresses.
        urlsplit url = Some u \<and> url_port u = Inr port \<and> url_hostname u = Some name
        \<and> up_scheme u = ''https'' \<and> \<not> url_credentials u \<and> up_path u \<in> {[], ''/''}
        \<and> up_query u = [] \<and> up_fragment u = []
        \<and> host_allowed (ev_allowed_host_suffixes v) (rstrip_dots (lower name))
        \<and> ev_resolver v (rstrip_dots (lower name)) (case port of None \<Rightarrow> 443 | Some p \<Rightarrow> if p = 0 then 443 else p)
            = Resolved addresses
        \<and> addresses \<noteq> [] \<and> list_all (\<lambda>a. is_public (ev_delegates v) a = Some True) addresses)"
  unfolding validate_endpoint_Inr Let_def check_production_Inr origin_url_def by auto

text \<open>C13 What an endpoint of an agent in PRODUCTION must satisfy: validation passes exactly for an
  https URL without credentials, query, fragment or path, whose host is an allow-listed name or
  below one, and for which the resolver answered at least one address and only public ones; the
  result is the URL without trailing slashes.\<close>

theorem production_endpoint_iff:
  "validate_endpoint v url PRODUCTION = Inr origin \<longleftrightarrow>
     origin = rstrip_slash url \<and>
     (\<exists>u port name addresses.
        urlsplit url = Some u \<and> url_port u = Inr port \<and> url_hostname u = Some name
        \<and> up_scheme u = ''https'' \<and> \<not> url_credentials u \<and> up_path u \<in> {[], ''/''}
        \<and> up_query u = [] \<and> up_fragment u = []
        \<and> host_allowed (ev_allowed_host_suffixes v) (rstrip_dots (lower name))
        \<and> ev_resolver v (rstrip_dots (lower name)) (case port of None \<Rightarrow> 443 | Some p \<Rightarrow> if p = 0 then 443 else p)
            = Resolved addresses
        \<and> addresses \<noteq> [] \<and> list_all (\<lambda>a. is_public (ev_delegates v) a = Some True) addresses)"
  by (rule production_Inr)

section \<open>The host that is contacted\<close>

lemma rstrip_slash_split: "\<exists>k. s = rstrip_slash s @ replicate k (CHR ''/'')"
proof -
  let ?t = "takeWhile (\<lambda>c. c = CHR ''/'') (rev s)"
  have "rev s = ?t @ dropWhile (\<lambda>c. c = CHR ''/'') (rev s)" by simp
  then have "s = rstrip_slash s @ rev ?t" unfolding rstrip_slash_def by (metis rev_append rev_rev_ident)
  moreover have "?t = replicate (length ?t) (CHR ''/'')"
    by (rule replicate_eqI) (auto dest: set_takeWhileD)
  ultimately show ?thesis by (metis rev_replicate)
qed

lemma takeWhile_append_stop: "ys = [] \<or> \<not> P (hd ys) \<Longrightarrow> takeWhile P (xs @ ys) = takeWhile P xs"
  by (induction xs) (cases ys; simp)+

lemma split_scheme_found:
  assumes "split_scheme url = (scheme, rest)" and "scheme \<noteq> []"
  obtains s where "url = s @ CHR '':'' # rest" "CHR '':'' \<notin> set s" "scheme = lower s" "s \<noteq> []" "is_alpha (hd s)"
    "list_all (\<lambda>c. is_alpha c \<or> is_digit c \<or> c \<in> set ''+-.'') s"
proof -
  obtain s found r where p: "partition_at (CHR '':'') url = (s, found, r)" by (cases "partition_at (CHR '':'') url")
  with assms have s: "found" "s \<noteq> []" "is_alpha (hd s)" "list_all (\<lambda>c. is_alpha c \<or> is_digit c \<or> c \<in> set ''+-.'') s"
      "scheme = lower s" "rest = r"
    by (auto simp: split_scheme_def split: if_splits)
  then have "CHR '':'' \<in> set url" using p by (simp add: partition_at_def)
  then have u: "url = s @ CHR '':'' # r" "CHR '':'' \<notin> set s"
    using partition_at_found [of "CHR '':''" url s r] p s(1) by simp_all
  show thesis by (rule that [OF u [folded s(6)] s(5,2,3,4)])
qed

lemma split_scheme_extend:
  assumes "CHR '':'' \<notin> set s" "s \<noteq> []" "is_alpha (hd s)"
    "list_all (\<lambda>c. is_alpha c \<or> is_digit c \<or> c \<in> set ''+-.'') s"
  shows "split_scheme (s @ CHR '':'' # rest) = (lower s, rest)"
proof -
  have "partition_at (CHR '':'') (s @ CHR '':'' # rest) = (s, True, rest)"
    using partition_at_found [of "CHR '':''" "s @ CHR '':'' # rest" s rest] assms(1) by simp
  then show ?thesis using assms by (simp add: split_scheme_def)
qed

lemma clean_url_append:
  assumes "\<exists>c \<in> set origin. \<not> (of_char c :: nat) \<le> 32"
  shows "clean_url (origin @ y) = clean_url origin @ filter (\<lambda>c. (of_char c :: nat) \<notin> {9, 10, 13}) y"
  using assms by (auto simp: clean_url_def dropWhile_append1)

lemma clean_url_blank:
  assumes "\<not> (\<exists>c \<in> set origin. \<not> (of_char c :: nat) \<le> 32)"
  shows "clean_url (origin @ y) = clean_url y"
  using assms by (simp add: clean_url_def dropWhile_append2)

lemma hostname_netloc: "url_hostname u \<noteq> None \<Longrightarrow> up_netloc u \<noteq> []"
  by (auto simp: url_hostname_def host_info_def rpartition_at_def partition_at_def Let_def)

lemma split_netloc_stable:
  assumes "fst (split_netloc (r @ replicate k (CHR ''/''))) = n" and "n \<noteq> []"
  shows "fst (split_netloc (r @ CHR ''/'' # path)) = n"
proof -
  let ?s = "replicate k (CHR ''/'')"
  have two: "take 2 (r @ ?s) = ''//''" and n: "n = takeWhile (\<lambda>c. \<not> netloc_end c) (drop 2 (r @ ?s))"
    using assms by (auto simp: split_netloc_def split: if_splits)
  have "2 \<le> length r"
  proof (rule ccontr)
    assume "\<not> 2 \<le> length r"
    then consider "r = []" | c where "r = [c]" by (cases r; cases "tl r") auto
    then have "drop 2 (r @ ?s) = replicate (k - (2 - length r)) (CHR ''/'')" by cases simp_all
    then have "n = []" unfolding n by (cases "k - (2 - length r)") (simp_all add: netloc_end_def)
    with assms(2) show False by simp
  qed
  then have cut: "drop 2 (r @ y) = drop 2 r @ y" "take 2 (r @ y) = take 2 r" for y by simp_all
  have "takeWhile (\<lambda>c. \<not> netloc_end c) (drop 2 r @ ?s) = takeWhile (\<lambda>c. \<not> netloc_end c) (drop 2 r)"
    by (rule takeWhile_append_stop) (cases k; simp add: netloc_end_def)
  moreover have "takeWhile (\<lambda>c. \<not> netloc_end c) (drop 2 r @ CHR ''/'' # path)
      = takeWhile (\<lambda>c. \<not> netloc_end c) (drop 2 r)"
    by (rule takeWhile_append_stop) (simp add: netloc_end_def)
  ultimately show ?thesis using two unfolding n split_netloc_def cut by simp
qed

lemma contacted_url:
  assumes "validate_endpoint v url env = Inr origin" and "path = CHR ''/'' # rest"
  shows "\<exists>u u'. urlsplit url = Some u \<and> urlsplit (origin @ path) = Some u'
    \<and> up_scheme u' = up_scheme u \<and> up_netloc u' = up_netloc u \<and> up_scheme u \<in> {''http'', ''https''}"
proof -
  obtain u where u: "urlsplit url = Some u" "origin_url u" and origin: "origin = rstrip_slash url"
    using assms(1) by (auto simp: validate_endpoint_Inr)
  obtain k where url: "url = origin @ replicate k (CHR ''/'')" using rstrip_slash_split origin by blast
  let ?s = "replicate k (CHR ''/'')"
  obtain scheme r where sr: "split_scheme (clean_url url) = (scheme, r)" by fastforce
  define n where "n = fst (split_netloc r)"
  have ok: "netloc_ok n" "up_scheme u = scheme" "up_netloc u = n"
    using u(1) by (auto simp: urlsplit_def sr n_def Let_def split: prod.splits if_splits)
  then have scheme: "scheme \<in> {''http'', ''https''}" and n: "n \<noteq> []"
    using u(2) hostname_netloc by (auto simp: origin_url_def)
  then obtain s where c: "clean_url url = s @ CHR '':'' # r" "CHR '':'' \<notin> set s" "scheme = lower s" "s \<noteq> []"
      "is_alpha (hd s)" "list_all (\<lambda>c. is_alpha c \<or> is_digit c \<or> c \<in> set ''+-.'') s"
    using split_scheme_found [OF sr] by blast
  have visible: "\<exists>c \<in> set origin. \<not> (of_char c :: nat) \<le> 32"
  proof (rule ccontr)
    assume none: "\<not> ?thesis"
    have "clean_url ?s = ?s" by (cases k) (simp_all add: clean_url_def)
    then have "clean_url url = ?s" unfolding url using clean_url_blank [OF none] by simp
    then have "hd s = CHR ''/''" using c(1,4) by (cases k; cases s) auto
    then show False using c(5) by (simp add: is_alpha_def is_upper_def is_lower_def)
  qed
  have "clean_url url = clean_url origin @ ?s" unfolding url clean_url_append [OF visible] by simp
  then have eq: "clean_url origin @ ?s = s @ CHR '':'' # r" using c(1) by simp
  obtain r0 where r0: "clean_url origin = s @ CHR '':'' # r0" "r = r0 @ ?s"
  proof -
    have "length (s @ [CHR '':'']) \<le> length (clean_url origin)"
    proof (rule ccontr)
      assume "\<not> ?thesis"
      then have len: "length (clean_url origin) \<le> length s" by simp
      have "(clean_url origin @ ?s) ! length s = CHR '':''" unfolding eq by simp
      moreover have "length s < length (clean_url origin @ ?s)" unfolding eq by simp
      ultimately show False using len by (simp add: nth_append)
    qed
    then have t: "take (length (s @ [CHR '':''])) (clean_url origin @ ?s) = take (length (s @ [CHR '':''])) (clean_url origin)"
      by simp
    have "take (length (s @ [CHR '':''])) (s @ CHR '':'' # r) = s @ [CHR '':'']" by simp
    then have "take (length (s @ [CHR '':''])) (clean_url origin) = s @ [CHR '':'']" using t eq by (simp only:)
    then have "clean_url origin = s @ CHR '':'' # drop (length (s @ [CHR '':''])) (clean_url origin)"
      by (metis append.assoc append_Cons append_Nil append_take_drop_id)
    then obtain r0 where "clean_url origin = s @ CHR '':'' # r0" by blast
    with eq show thesis by (intro that) auto
  qed
  define rest' where "rest' = filter (\<lambda>c. (of_char c :: nat) \<notin> {9, 10, 13}) rest"
  have "clean_url (origin @ path) = s @ CHR '':'' # (r0 @ CHR ''/'' # rest')"
    unfolding clean_url_append [OF visible] assms(2) r0(1) by (simp add: rest'_def)
  then have "split_scheme (clean_url (origin @ path)) = (scheme, r0 @ CHR ''/'' # rest')"
    using split_scheme_extend [OF c(2,4,5,6)] c(3) by simp
  moreover have "fst (split_netloc (r0 @ CHR ''/'' # rest')) = n"
    using split_netloc_stable [of r0 k n] n n_def r0(2) by simp
  ultimately have "\<exists>u'. urlsplit (origin @ path) = Some u' \<and> up_scheme u' = scheme \<and> up_netloc u' = n"
    using ok(1) by (auto simp: urlsplit_def Let_def split: prod.splits)
  with u(1) ok scheme show ?thesis by auto
qed

text \<open>The host that was checked is the host that is contacted: whatever URL passes validation in any
  environment, and whichever path of the agent protocol the callers append to the result, the
  URL they request has the scheme, the host and the port of the validated URL and no
  credentials.\<close>

theorem contacted_host:
  assumes "validate_endpoint v url env = Inr origin"
    and "path \<in> {''/v1/analyze'', ''/health/live'', ''/health/ready'', ''/v1/capabilities''}"
  shows "\<exists>u u'. urlsplit url = Some u \<and> urlsplit (origin @ path) = Some u' \<and> up_scheme u' = up_scheme u
    \<and> url_hostname u' = url_hostname u \<and> url_port u' = url_port u \<and> \<not> url_credentials u'"
proof -
  obtain rest where "path = CHR ''/'' # rest" using assms(2) by auto
  then obtain u u' where u: "urlsplit url = Some u" "urlsplit (origin @ path) = Some u'"
      "up_scheme u' = up_scheme u" "up_netloc u' = up_netloc u"
    using contacted_url [OF assms(1)] by blast
  moreover have "\<not> url_credentials u" using assms(1) u(1) by (auto simp: validate_endpoint_Inr origin_url_def)
  ultimately show ?thesis by (auto simp: url_hostname_def url_port_def url_credentials_def Let_def)
qed

section \<open>Witnesses\<close>

definition sample_validator :: endpoint_validator where
  "sample_validator = new_endpoint_validator [''.hf.space''] (\<lambda>_ _. Resolved [''8.8.8.8'']) True"

lemma sample_split: "urlsplit ''https://a.hf.space/''
    = Some \<lparr>up_scheme = ''https'', up_netloc = ''a.hf.space'', up_path = ''/'', up_query = [], up_fragment = []\<rparr>"
  by code_simp

lemma sample_public: "is_public True ''8.8.8.8'' = Some True"
proof -
  have "parse_ip ''8.8.8.8'' = Some (V4 (join_words 8 [8, 8, 8, 8]))"
    by (simp add: parse_ip_def parse_ipv4_def parse_octet_def is_digit_def digits_value_def Let_def)
  then show ?thesis using is_public4_octets [of 8 8 8 8] by (simp add: is_public_def)
qed

lemma sample_validated: "validate_endpoint sample_validator ''https://a.hf.space/'' PRODUCTION = Inr ''https://a.hf.space''"
proof -
  let ?u = "\<lparr>up_scheme = ''https'', up_netloc = ''a.hf.space'', up_path = ''/'', up_query = [], up_fragment = []\<rparr>"
  have "url_hostname ?u = Some ''a.hf.space''" "url_port ?u = Inr None" "\<not> url_credentials ?u"
    "rstrip_dots (lower ''a.hf.space'') = ''a.hf.space''" "rstrip_slash ''https://a.hf.space/'' = ''https://a.hf.space''"
    by code_simp+
  moreover have "host_allowed (ev_allowed_host_suffixes sample_validator) ''a.hf.space''"
    by (auto simp: sample_validator_def new_endpoint_validator_def host_allowed_def ends_with_def lstrip_dots_def
        lower_def lower_char_def Let_def intro!: exI [of _ "1::nat"])
  ultimately show ?thesis
    unfolding production_Inr using sample_split sample_public
    by (simp add: sample_validator_def new_endpoint_validator_def)
qed

text \<open>A bare question mark passes, and turns the path appended to it into a query.\<close>

lemma bare_question_mark:
  "validate_endpoint sample_validator ''https://a.hf.space?'' PRODUCTION = Inr ''https://a.hf.space?''
   \<and> map_option (\<lambda>u. (up_path u, up_query u)) (urlsplit (''https://a.hf.space?'' @ ''/v1/analyze'')) = Some ([], ''/v1/analyze'')"
proof -
  let ?u = "\<lparr>up_scheme = ''https'', up_netloc = ''a.hf.space'', up_path = [], up_query = [], up_fragment = []\<rparr>"
  have "urlsplit ''https://a.hf.space?'' = Some ?u" by code_simp
  moreover have "url_hostname ?u = Some ''a.hf.space''" "url_port ?u = Inr None" "\<not> url_credentials ?u"
    "rstrip_dots (lower ''a.hf.space'') = ''a.hf.space''" "rstrip_slash ''https://a.hf.space?'' = ''https://a.hf.space?''"
    by code_simp+
  moreover have "host_allowed (ev_allowed_host_suffixes sample_validator) ''a.hf.space''"
    by (auto simp: sample_validator_def new_endpoint_validator_def host_allowed_def ends_with_def lstrip_dots_def
        lower_def lower_char_def Let_def intro!: exI [of _ "1::nat"])
  moreover have "map_option (\<lambda>u. (up_path u, up_query u)) (urlsplit (''https://a.hf.space?'' @ ''/v1/analyze'')) = Some ([], ''/v1/analyze'')"
    by code_simp
  ultimately show ?thesis
    unfolding production_Inr using sample_public
    by (simp add: sample_validator_def new_endpoint_validator_def)
qed

theorem contacted_host_witness:
  "\<exists>u'. urlsplit (''https://a.hf.space'' @ ''/v1/analyze'') = Some u' \<and> up_scheme u' = ''https''"
  using contacted_host [OF sample_validated, of "''/v1/analyze''"] sample_split by auto

end
