(* ===== verification/Dispatch_Client.thy ===== *)
theory Dispatch_Client
  imports Auth Endpoint_Security
begin

text \<open>
  \<open>src/tomiris_orchestrator/client.py\<close>: one HTTP attempt to hand a task to its agent, and how
  its outcome is classified.  The endpoint validator is that of \<open>Endpoint_Security\<close>;
  the other collaborators are arguments: the secret provider, pydantic's \<open>model_dump_json\<close>, and the HTTP client, whose
  possible behaviours are the constructors of \<open>http_outcome\<close>.  \<open>dispatch_transport\<close> states what
  \<open>DispatchWorker\<close> relies on; the client is its interpretation.
\<close>

section \<open>Data\<close>

datatype disposition = D_ACKNOWLEDGED | D_RETRYABLE | D_PERMANENT

record dispatch_command =
  cm_task_id :: uuid
  cm_orchestration_run_id :: uuid
  cm_snapshot_id :: uuid
  cm_agent_id :: string
  cm_asset :: string
  cm_required_capability :: string
  cm_priority :: int
  cm_created_at :: instant
  cm_signal_deadline :: instant
  cm_correlation_id :: uuid
  cm_causation_id :: "uuid option"
  cm_context :: pyval
  cm_endpoint_url :: string
  cm_endpoint_environment :: environment

record dispatch_result =
  dr_disposition :: disposition
  dr_error_code :: "string option"
  dr_ack :: "analysis_task_ack option"
  dr_latency_ms :: "rat option"

text \<open>
  What \<open>client.post\<close> does: a timeout or network error, any other exception of the HTTP library,
  or a response with its status, the body read as the fields of an acknowledgement (\<open>None\<close> when
  it is not a JSON object with these fields) and the elapsed time in seconds.
\<close>

datatype http_outcome =
    NoResponse
  | OtherFailure
  | Response int "py_datetime task_ack option" rat

datatype client_error = InvalidRequest | SecretFailure crypto_error | HttpFailure | EndpointFailure

record dispatch_client =
  dc_orchestrator_id :: string
  dc_command_key_id :: string

section \<open>One attempt\<close>

definition analysis_request :: "dispatch_command \<Rightarrow> analysis_task_request option" where
  "analysis_request c = validate_task_request
     \<lparr>tr_protocol_version = ''1.0'', tr_task_id = cm_task_id c,
      tr_orchestration_run_id = cm_orchestration_run_id c, tr_snapshot_id = cm_snapshot_id c,
      tr_agent_id = cm_agent_id c, tr_asset = cm_asset c,
      tr_required_capability = cm_required_capability c, tr_priority = cm_priority c,
      tr_created_at = Aware (cm_created_at c) 0, tr_deadline = Aware (cm_signal_deadline c) 0,
      tr_correlation_id = cm_correlation_id c, tr_causation_id = cm_causation_id c,
      tr_context = cm_context c\<rparr>"

definition permanent :: "string \<Rightarrow> rat option \<Rightarrow> dispatch_result" where
  "permanent code latency =
     \<lparr>dr_disposition = D_PERMANENT, dr_error_code = Some code, dr_ack = None, dr_latency_ms = latency\<rparr>"

definition retryable :: "string \<Rightarrow> rat option \<Rightarrow> dispatch_result" where
  "retryable code latency =
     \<lparr>dr_disposition = D_RETRYABLE, dr_error_code = Some code, dr_ack = None, dr_latency_ms = latency\<rparr>"

definition classify_response ::
    "dispatch_command \<Rightarrow> int \<Rightarrow> py_datetime task_ack option \<Rightarrow> rat \<Rightarrow> dispatch_result" where
  "classify_response c status body elapsed =
     (let latency = max 0 (fmul elapsed 1000) in
      if status = 202 then
        (case body of
           None \<Rightarrow> permanent ''AGENT_INVALID_ACK'' (Some latency)
         | Some raw \<Rightarrow>
             (case validate_task_ack raw of
                None \<Rightarrow> permanent ''AGENT_INVALID_ACK'' (Some latency)
              | Some ack \<Rightarrow>
                  if ack_task_id ack \<noteq> cm_task_id c \<or> ack_agent_id ack \<noteq> cm_agent_id c
                  then permanent ''AGENT_INVALID_ACK'' (Some latency)
                  else \<lparr>dr_disposition = D_ACKNOWLEDGED, dr_error_code = None, dr_ack = Some ack,
                         dr_latency_ms = Some latency\<rparr>))
      else if status = 429 \<or> status \<in> {500, 502, 503, 504}
      then retryable (''AGENT_HTTP_'' @ int_str status) (Some latency)
      else permanent (if status \<in> {401, 403} then ''AGENT_AUTH_FAILED'' else ''AGENT_REJECTED'')
             (Some latency))"

definition client_dispatch ::
    "dispatch_client \<Rightarrow> endpoint_validator \<Rightarrow>
     (string \<Rightarrow> string \<Rightarrow> crypto_error + string option) \<Rightarrow> (analysis_task_request \<Rightarrow> string) \<Rightarrow>
     (string \<Rightarrow> string \<Rightarrow> command_headers \<Rightarrow> http_outcome) \<Rightarrow> string \<Rightarrow>
     dispatch_command \<Rightarrow> int \<Rightarrow> client_error + dispatch_result" where
  "client_dispatch cl v get_secret dump_json http_post nonce c timestamp =
     (case validate_endpoint v (cm_endpoint_url c) (cm_endpoint_environment c) of
        Inl (EndpointSecurityError code _) \<Rightarrow> Inr (permanent code None)
      | Inl EndpointOtherError \<Rightarrow> Inl EndpointFailure
      | Inr endpoint \<Rightarrow>
          (case get_secret (cm_agent_id c) (dc_command_key_id cl) of
             Inl e \<Rightarrow> Inl (SecretFailure e)
           | Inr None \<Rightarrow> Inr (permanent ''AGENT_AUTH_FAILED'' None)
           | Inr (Some secret) \<Rightarrow>
               (case analysis_request c of
                  None \<Rightarrow> Inl InvalidRequest
                | Some request \<Rightarrow>
                    let body = dump_json request;
                        headers = build_command_headers (dc_orchestrator_id cl) (cm_agent_id c)
                          (dc_command_key_id cl) secret body timestamp nonce
                    in (case http_post (endpoint @ ''/v1/analyze'') body headers of
                          NoResponse \<Rightarrow> Inr (retryable ''AGENT_ACK_TIMEOUT'' None)
                        | OtherFailure \<Rightarrow> Inl HttpFailure
                        | Response status ack elapsed \<Rightarrow> Inr (classify_response c status ack elapsed)))))"

section \<open>What the worker relies on\<close>

definition result_ok :: "dispatch_command \<Rightarrow> dispatch_result \<Rightarrow> bool" where
  "result_ok c r \<longleftrightarrow>
     (if dr_disposition r = D_ACKNOWLEDGED
      then dr_error_code r = None
        \<and> (\<exists>ack. dr_ack r = Some ack \<and> ack_task_id ack = cm_task_id c \<and> ack_agent_id ack = cm_agent_id c)
      else dr_error_code r \<noteq> None \<and> dr_ack r = None)
     \<and> (\<forall>l. dr_latency_ms r = Some l \<longrightarrow> 0 \<le> l)"

locale dispatch_transport =
  fixes send :: "dispatch_command \<Rightarrow> int \<Rightarrow> client_error + dispatch_result"
  assumes answers: "send c ts = Inr r \<Longrightarrow> result_ok c r"
begin

lemma failure_has_code: "send c ts = Inr r \<Longrightarrow> dr_disposition r \<noteq> D_ACKNOWLEDGED \<Longrightarrow> dr_error_code r \<noteq> None"
  using answers by (auto simp: result_ok_def)

lemma ack_of_command:
  "send c ts = Inr r \<Longrightarrow> dr_disposition r = D_ACKNOWLEDGED \<Longrightarrow>
   \<exists>ack. dr_ack r = Some ack \<and> ack_task_id ack = cm_task_id c \<and> ack_agent_id ack = cm_agent_id c"
  using answers by (auto simp: result_ok_def)

end

lemma permanent_ok: "(\<And>l. latency = Some l \<Longrightarrow> 0 \<le> l) \<Longrightarrow> result_ok c (permanent code latency)"
  by (simp add: permanent_def result_ok_def)

lemma retryable_ok: "(\<And>l. latency = Some l \<Longrightarrow> 0 \<le> l) \<Longrightarrow> result_ok c (retryable code latency)"
  by (simp add: retryable_def result_ok_def)

lemma validate_ack_same:
  "validate_task_ack raw = Some ack \<Longrightarrow> ack_task_id ack = ack_task_id raw \<and> ack_agent_id ack = ack_agent_id raw"
  by (auto simp: validate_task_ack_def split: option.splits if_splits)

lemma classify_ok: "result_ok c (classify_response c status body elapsed)"
  unfolding classify_response_def Let_def
  by (auto intro!: permanent_ok retryable_ok split: option.split) (auto simp: result_ok_def)

lemma client_ok:
  "client_dispatch cl v get_secret dump_json http_post nonce c ts = Inr r \<Longrightarrow> result_ok c r"
  by (auto simp: client_dispatch_def Let_def classify_ok
      intro!: permanent_ok retryable_ok split: sum.splits option.splits http_outcome.splits endpoint_error.splits)

interpretation http_client: dispatch_transport
    "client_dispatch cl v get_secret dump_json http_post nonce"
  for cl v get_secret dump_json http_post nonce
  by unfold_locales (rule client_ok)

section \<open>Properties\<close>

lemma classify_ack:
  "dr_disposition (classify_response c status body elapsed) = D_ACKNOWLEDGED \<longleftrightarrow>
     status = 202 \<and> (\<exists>raw ack. body = Some raw \<and> validate_task_ack raw = Some ack
       \<and> ack_task_id raw = cm_task_id c \<and> ack_agent_id raw = cm_agent_id c)"
  by (auto simp: classify_response_def Let_def permanent_def retryable_def dest: validate_ack_same
      split: option.splits)

text \<open>A task counts as acknowledged only on evidence: the client reports ACKNOWLEDGED exactly
  when the endpoint passed validation, a secret exists, the request is valid, and the agent
  answered 202 with a valid acknowledgement naming this task and this agent.  Every other
  report carries an error code.\<close>

theorem client_acknowledged_iff:
  assumes "client_dispatch cl v get_secret dump_json http_post nonce c ts = Inr r"
  shows "(dr_disposition r = D_ACKNOWLEDGED \<longleftrightarrow>
       (\<exists>endpoint secret request raw ack elapsed.
          validate_endpoint v (cm_endpoint_url c) (cm_endpoint_environment c) = Inr endpoint
          \<and> get_secret (cm_agent_id c) (dc_command_key_id cl) = Inr (Some secret)
          \<and> analysis_request c = Some request
          \<and> http_post (endpoint @ ''/v1/analyze'') (dump_json request)
              (build_command_headers (dc_orchestrator_id cl) (cm_agent_id c) (dc_command_key_id cl)
                 secret (dump_json request) ts nonce) = Response 202 (Some raw) elapsed
          \<and> validate_task_ack raw = Some ack
          \<and> ack_task_id raw = cm_task_id c \<and> ack_agent_id raw = cm_agent_id c))
     \<and> (dr_disposition r \<noteq> D_ACKNOWLEDGED \<longrightarrow> (\<exists>code. dr_error_code r = Some code))"
proof
  show "dr_disposition r \<noteq> D_ACKNOWLEDGED \<longrightarrow> (\<exists>code. dr_error_code r = Some code)"
    using http_client.failure_has_code [OF assms] by auto
qed (use assms in \<open>auto simp: client_dispatch_def Let_def permanent_def retryable_def classify_ack
    split: sum.splits option.splits http_outcome.splits endpoint_error.splits\<close>)

text \<open>C15 Commands reach only public hosts of the allow list: if, for an agent in PRODUCTION, the outcome
  of a dispatch depends at all on what a web server answers, then the one URL that is requested
  is https, its host is allow-listed, and the resolver answered only public addresses for it.\<close>

theorem dispatch_contacts_public:
  assumes "cm_endpoint_environment c = PRODUCTION"
    and "client_dispatch cl v get_secret dump_json http_post nonce c ts
      \<noteq> client_dispatch cl v get_secret dump_json http_post' nonce c ts"
  shows "\<exists>target u name port addresses. http_post target \<noteq> http_post' target
    \<and> urlsplit target = Some u \<and> up_scheme u = ''https'' \<and> url_hostname u = Some name \<and> url_port u = Inr port
    \<and> host_allowed (ev_allowed_host_suffixes v) (rstrip_dots (lower name))
    \<and> ev_resolver v (rstrip_dots (lower name)) (case port of None \<Rightarrow> 443 | Some p \<Rightarrow> if p = 0 then 443 else p)
        = Resolved addresses
    \<and> addresses \<noteq> [] \<and> list_all (\<lambda>a. is_public (ev_delegates v) a = Some True) addresses"
proof -
  have "\<exists>endpoint. validate_endpoint v (cm_endpoint_url c) PRODUCTION = Inr endpoint"
  proof (cases "validate_endpoint v (cm_endpoint_url c) PRODUCTION")
    case (Inl e)
    then have False using assms by (cases e) (simp_all add: client_dispatch_def)
    then show ?thesis ..
  qed simp
  then obtain endpoint where e: "validate_endpoint v (cm_endpoint_url c) PRODUCTION = Inr endpoint" by blast
  have differ: "http_post (endpoint @ ''/v1/analyze'') \<noteq> http_post' (endpoint @ ''/v1/analyze'')"
  proof
    assume same: "http_post (endpoint @ ''/v1/analyze'') = http_post' (endpoint @ ''/v1/analyze'')"
    have "client_dispatch cl v get_secret dump_json http_post nonce c ts
        = client_dispatch cl v get_secret dump_json http_post' nonce c ts"
      unfolding client_dispatch_def assms(1) e sum.case same ..
    with assms(2) show False by simp
  qed
  obtain u u' where u: "urlsplit (cm_endpoint_url c) = Some u" "urlsplit (endpoint @ ''/v1/analyze'') = Some u'"
      "up_scheme u' = up_scheme u" "up_netloc u' = up_netloc u"
    using contacted_url [OF e, of "''/v1/analyze''"] by auto
  then have same: "url_hostname u' = url_hostname u" "url_port u' = url_port u"
    by (simp_all add: url_hostname_def url_port_def Let_def)
  obtain port name addresses where "up_scheme u = ''https''" "url_hostname u = Some name" "url_port u = Inr port"
      "host_allowed (ev_allowed_host_suffixes v) (rstrip_dots (lower name))"
      "ev_resolver v (rstrip_dots (lower name)) (case port of None \<Rightarrow> 443 | Some p \<Rightarrow> if p = 0 then 443 else p)
        = Resolved addresses"
      "addresses \<noteq> []" "list_all (\<lambda>a. is_public (ev_delegates v) a = Some True) addresses"
    using e u(1) unfolding production_Inr by auto
  with differ u same show ?thesis
    by (intro exI [of _ "endpoint @ ''/v1/analyze''"] exI [of _ u'] exI [of _ name] exI [of _ port]
        exI [of _ addresses] conjI) simp_all
qed

definition sample_command :: dispatch_command where
  "sample_command = \<lparr>cm_task_id = 800, cm_orchestration_run_id = 700, cm_snapshot_id = 900,
     cm_agent_id = ''AGENT_1'', cm_asset = ''ETH'', cm_required_capability = ''technical'',
     cm_priority = 50, cm_created_at = 0, cm_signal_deadline = 60, cm_correlation_id = 701,
     cm_causation_id = None, cm_context = PyMap [], cm_endpoint_url = ''https://a'',
     cm_endpoint_environment = TEST\<rparr>"

theorem client_acknowledged_iff_witness:
  "\<exists>r. client_dispatch \<lparr>dc_orchestrator_id = ''o'', dc_command_key_id = ''k''\<rparr> sample_validator
      (\<lambda>a k. Inr (Some ''s'')) (\<lambda>q. []) (\<lambda>u b h. Response 503 None (1/2)) [] sample_command 0 = Inr r
     \<and> dr_disposition r \<noteq> D_ACKNOWLEDGED \<and> (\<exists>code. dr_error_code r = Some code)"
proof -
  have "analysis_request sample_command \<noteq> None"
    by (simp add: analysis_request_def sample_command_def validate_task_request_def require_utc_def
        agent_id_pattern_def asset_pattern_def is_upper_def is_digit_def len_between_def bounded_dict_def
        validate_bounded_json_def default_limits_def walk.simps)
  moreover have "validate_endpoint sample_validator (cm_endpoint_url sample_command) (cm_endpoint_environment sample_command)
      = Inr ''https://a''"
    unfolding sample_command_def by code_simp
  ultimately obtain r where r: "client_dispatch \<lparr>dc_orchestrator_id = ''o'', dc_command_key_id = ''k''\<rparr> sample_validator
      (\<lambda>a k. Inr (Some ''s'')) (\<lambda>q. []) (\<lambda>u b h. Response 503 None (1/2)) [] sample_command 0 = Inr r"
    by (auto simp: client_dispatch_def Let_def)
  from client_acknowledged_iff [OF r] r show ?thesis by auto
qed

theorem dispatch_contacts_public_witness:
  "\<exists>target u. urlsplit target = Some u \<and> up_scheme u = ''https''
     \<and> ev_resolver sample_validator (rstrip_dots (lower (the (url_hostname u)))) 443 = Resolved [''8.8.8.8'']"
proof -
  let ?c = "sample_command\<lparr>cm_endpoint_url := ''https://a.hf.space/'', cm_endpoint_environment := PRODUCTION\<rparr>"
  let ?send = "\<lambda>post. client_dispatch \<lparr>dc_orchestrator_id = ''o'', dc_command_key_id = ''k''\<rparr> sample_validator
        (\<lambda>a k. Inr (Some ''s'')) (\<lambda>q. []) post [] ?c 0"
  have production: "cm_endpoint_environment ?c = PRODUCTION" by simp
  have "analysis_request ?c \<noteq> None"
    by (simp add: analysis_request_def sample_command_def validate_task_request_def require_utc_def
        agent_id_pattern_def asset_pattern_def is_upper_def is_digit_def len_between_def bounded_dict_def
        validate_bounded_json_def default_limits_def walk.simps)
  then have differ: "?send (\<lambda>_ _ _. NoResponse) \<noteq> ?send (\<lambda>_ _ _. OtherFailure)"
    using sample_validated by (auto simp: client_dispatch_def Let_def)
  obtain target u where "urlsplit target = Some u" "up_scheme u = ''https''"
    using dispatch_contacts_public [OF production differ] by (elim exE conjE) (rule that; assumption)
  moreover have "ev_resolver sample_validator h 443 = Resolved [''8.8.8.8'']" for h
    by (simp add: sample_validator_def new_endpoint_validator_def)
  ultimately show ?thesis by (intro exI [of _ target] exI [of _ u] conjI) assumption+
qed

end
