(* ===== verification/Backoff.thy ===== *)
theory Backoff
  imports Binary64
begin

text \<open>
  The two retry schedules: \<open>ExponentialBackoff.delay\<close> of
  \<open>src/tomiris_orchestrator/backoff.py\<close>, used by the dispatch worker, and
  \<open>exponential_backoff_seconds\<close> of \<open>src/tomiris_notifications/worker.py\<close>.  Both multiply a
  capped exponential by a random factor; \<open>retry_backoff\<close> states what the workers rely on, and
  both functions are interpretations of it.  The parameters are integers, as the settings
  declare them, and the random value is an argument.
\<close>

definition capped_exponential :: "int \<Rightarrow> int \<Rightarrow> int \<Rightarrow> int" where
  "capped_exponential base_seconds max_seconds attempt =
     min max_seconds (base_seconds * 2 ^ nat (max 0 (attempt - 1)))"

definition delay :: "int \<Rightarrow> int \<Rightarrow> int \<Rightarrow> rat \<Rightarrow> rat" where
  "delay base_seconds max_seconds attempt random_value =
     (let bounded = capped_exponential base_seconds max_seconds attempt
      in fmul (rnd64 (of_int bounded)) (fadd (1/2) (fmul (1/2) random_value)))"

definition exponential_backoff_seconds :: "int \<Rightarrow> int \<Rightarrow> int \<Rightarrow> rat \<Rightarrow> rat" where
  "exponential_backoff_seconds base_seconds maximum_seconds attempt jitter =
     (let bounded = capped_exponential base_seconds maximum_seconds attempt
      in fmul (rnd64 (of_int bounded)) (fadd 1 (fmul (rnd64 (1/5)) (min 1 (max 0 jitter)))))"

text \<open>Settings keep the base between one second and the maximum, and the maximum to a day.\<close>

definition backoff_settings :: "int \<Rightarrow> int \<Rightarrow> bool" where
  "backoff_settings base cap \<longleftrightarrow> 1 \<le> base \<and> base \<le> cap \<and> cap \<le> 86400"

lemma capped_range:
  assumes "backoff_settings base cap"
  shows "base \<le> capped_exponential base cap k" and "capped_exponential base cap k \<le> cap"
proof -
  have "base * 1 \<le> base * 2 ^ nat (max 0 (k - 1))"
    using assms by (intro mult_left_mono) (auto simp: backoff_settings_def)
  with assms show "base \<le> capped_exponential base cap k" "capped_exponential base cap k \<le> cap"
    by (auto simp: capped_exponential_def backoff_settings_def)
qed

lemma capped_mono:
  assumes "backoff_settings base cap" and "j \<le> k"
  shows "capped_exponential base cap j \<le> capped_exponential base cap k"
proof -
  have "(2::int) ^ nat (max 0 (j - 1)) \<le> 2 ^ nat (max 0 (k - 1))"
    by (rule power_increasing) (use assms(2) in auto)
  with assms(1) have "base * 2 ^ nat (max 0 (j - 1)) \<le> base * 2 ^ nat (max 0 (k - 1))"
    by (intro mult_left_mono) (auto simp: backoff_settings_def)
  then show ?thesis unfolding capped_exponential_def by (intro min.mono) simp_all
qed

lemma capped_doubles:
  "1 \<le> k \<Longrightarrow> base * 2 ^ nat k \<le> cap \<Longrightarrow>
   capped_exponential base cap (k + 1) = base * 2 ^ nat k"
  by (simp add: capped_exponential_def)

locale retry_backoff =
  fixes schedule :: "int \<Rightarrow> int \<Rightarrow> int \<Rightarrow> rat \<Rightarrow> rat"
    and sample :: "rat \<Rightarrow> bool"
    and excess :: rat
  assumes at_least: "backoff_settings base cap \<Longrightarrow> sample r \<Longrightarrow>
      of_int (capped_exponential base cap k) / 2 \<le> schedule base cap k r"
    and at_most: "backoff_settings base cap \<Longrightarrow> sample r \<Longrightarrow>
      schedule base cap k r \<le> excess * of_int (capped_exponential base cap k)"
    and monotone: "backoff_settings base cap \<Longrightarrow> sample r \<Longrightarrow> j \<le> k \<Longrightarrow>
      schedule base cap j r \<le> schedule base cap k r"
    and excess: "0 < excess" "excess \<le> 2"
begin

lemma waits:
  assumes "backoff_settings base cap" and "sample r"
  shows "capped_exponential base cap k * 500000 \<le> td_seconds (schedule base cap k r)"
  by (rule td_seconds_ge_half)
    (use assms at_least capped_range [OF assms(1), of k] in \<open>auto simp: backoff_settings_def\<close>)

lemma in_the_future:
  assumes "backoff_settings base cap" and "sample r"
  shows "now < now + td_seconds (schedule base cap k r)"
  using waits [OF assms, of k] capped_range [OF assms(1), of k] assms(1)
  by (auto simp: backoff_settings_def)

lemma no_longer_than:
  assumes "backoff_settings base cap" and "sample r" and "excess * of_int cap \<le> of_int n"
  shows "td_seconds (schedule base cap k r) \<le> seconds n"
proof (rule td_seconds_le_int)
  have c: "1 \<le> capped_exponential base cap k" "capped_exponential base cap k \<le> cap"
    using capped_range [OF assms(1), of k] assms(1) by (auto simp: backoff_settings_def)
  then have "0 \<le> of_int (capped_exponential base cap k) / (2::rat)" by simp
  with at_least [OF assms(1,2), of k] show "0 \<le> schedule base cap k r" by linarith
  have "excess * of_int (capped_exponential base cap k) \<le> excess * of_int cap"
    using c excess(1) by (intro mult_left_mono) simp_all
  with at_most [OF assms(1,2), of k] assms(3) show "schedule base cap k r \<le> of_int n" by linarith
qed

end

text \<open>\<open>random.random()\<close> lies in the half-open unit interval and is a multiple of \<open>2^-53\<close>.\<close>

definition unit_sample :: "rat \<Rightarrow> bool" where
  "unit_sample r \<longleftrightarrow> 0 \<le> r \<and> r < 1"

lemma half_factor:
  assumes "unit_sample r"
  shows "1/2 \<le> fadd (1/2) (fmul (1/2) r)" and "fadd (1/2) (fmul (1/2) r) \<le> 1"
proof -
  have h: "0 \<le> fmul (1/2) r" "fmul (1/2) r \<le> 1/2"
    unfolding fmul_def
    by (rule rnd64_nonneg rnd64_le [OF _ repr64_half]; use assms in \<open>simp add: unit_sample_def\<close>)+
  have one: "repr64 1" using repr64_of_int [of 1] by simp
  show "1/2 \<le> fadd (1/2) (fmul (1/2) r)" unfolding fadd_def
    by (rule rnd64_ge [OF _ repr64_half]) (use h in simp)
  show "fadd (1/2) (fmul (1/2) r) \<le> 1" unfolding fadd_def
    by (rule rnd64_le [OF _ one]) (use h in simp)
qed

lemma repr64_five_quarters: "\<bar>n\<bar> \<le> 2 ^ 40 \<Longrightarrow> repr64 (of_int n * (5/4))"
  by (rule repr64I [where m = "5 * n" and e = "- 2"]) (auto simp: power_int_def power2_eq_square)

lemma fifth_factor:
  "1 \<le> fadd 1 (fmul (rnd64 (1/5)) (min 1 (max 0 r)))"
  "fadd 1 (fmul (rnd64 (1/5)) (min 1 (max 0 r))) \<le> 5/4"
proof -
  let ?j = "min 1 (max 0 r)"
  have quarter: "repr64 (1/4)" by (rule repr64I [where m = 1 and e = "- 2"]) (auto simp: power_int_def power2_eq_square)
  have fifth: "0 \<le> rnd64 (1/5)" "rnd64 (1/5) \<le> 1/4"
    by (rule rnd64_nonneg rnd64_le [OF _ quarter]; simp)+
  have j: "rnd64 (1/5) * ?j \<le> 1/4 * 1" by (rule mult_mono) (use fifth in auto)
  have f: "0 \<le> fmul (rnd64 (1/5)) ?j" "fmul (rnd64 (1/5)) ?j \<le> 1/4"
    unfolding fmul_def by (rule rnd64_nonneg rnd64_le [OF _ quarter]; use fifth j in simp)+
  have one: "repr64 1" using repr64_of_int [of 1] by simp
  show "1 \<le> fadd 1 (fmul (rnd64 (1/5)) ?j)" unfolding fadd_def
    by (rule rnd64_ge [OF _ one]) (use f in simp)
  have "repr64 (5/4)" using repr64_five_quarters [of 1] by simp
  then show "fadd 1 (fmul (rnd64 (1/5)) ?j) \<le> 5/4" unfolding fadd_def
    by (intro rnd64_le) (use f in simp)
qed

lemma capped_exact:
  assumes "backoff_settings base cap"
  shows "rnd64 (of_int (capped_exponential base cap k)) = of_int (capped_exponential base cap k)"
  by (rule rnd64_of_int)
    (use capped_range [OF assms, of k] assms in \<open>auto simp: backoff_settings_def\<close>)

lemma scaled_mono:
  assumes "backoff_settings base cap" and "j \<le> k" and "0 \<le> f"
  shows "fmul (of_int (capped_exponential base cap j)) f \<le> fmul (of_int (capped_exponential base cap k)) f"
  unfolding fmul_def
  by (intro rnd64_mono mult_right_mono) (use assms capped_mono [OF assms(1,2)] in simp_all)

interpretation dispatch_backoff: retry_backoff delay unit_sample 1
proof
  fix base cap k :: int and r :: rat
  assume s: "backoff_settings base cap" and r: "unit_sample r"
  let ?b = "of_int (capped_exponential base cap k) :: rat"
  let ?f = "fadd (1/2) (fmul (1/2) r)"
  have b: "0 \<le> ?b" "\<bar>capped_exponential base cap k\<bar> \<le> 2 ^ 53"
    using capped_range [OF s, of k] s by (auto simp: backoff_settings_def)
  have d: "delay base cap k r = rnd64 (?b * ?f)"
    by (simp add: delay_def capped_exact [OF s] fmul_def)
  have "?b * (1/2) \<le> ?b * ?f" by (rule mult_left_mono) (use half_factor [OF r] b in auto)
  then show "?b / 2 \<le> delay base cap k r"
    unfolding d using repr64_half_int [OF b(2)] by (intro rnd64_ge) simp_all
  have "?b * ?f \<le> ?b * 1" by (rule mult_left_mono) (use half_factor [OF r] b in auto)
  then show "delay base cap k r \<le> 1 * ?b"
    unfolding d using repr64_of_int [OF b(2)] by (intro rnd64_le) simp_all
  fix j assume "j \<le> k"
  then show "delay base cap j r \<le> delay base cap k r"
    using half_factor(1) [OF r] unfolding delay_def Let_def capped_exact [OF s]
    by (intro scaled_mono [OF s]) simp_all
qed simp_all

interpretation notification_backoff: retry_backoff exponential_backoff_seconds "\<lambda>_. True" "5/4"
proof
  fix base cap k :: int and r :: rat
  assume s: "backoff_settings base cap"
  let ?b = "of_int (capped_exponential base cap k) :: rat"
  let ?f = "fadd 1 (fmul (rnd64 (1/5)) (min 1 (max 0 r)))"
  have b: "0 \<le> ?b" "\<bar>capped_exponential base cap k\<bar> \<le> 2 ^ 53" "\<bar>capped_exponential base cap k\<bar> \<le> 2 ^ 40"
    using capped_range [OF s, of k] s by (auto simp: backoff_settings_def)
  have d: "exponential_backoff_seconds base cap k r = rnd64 (?b * ?f)"
    by (simp add: exponential_backoff_seconds_def capped_exact [OF s] fmul_def)
  have "?b * (1/2) \<le> ?b * ?f" by (rule mult_left_mono) (use fifth_factor(1) [of r] b in auto)
  then show "?b / 2 \<le> exponential_backoff_seconds base cap k r"
    unfolding d using repr64_half_int [OF b(2)] by (intro rnd64_ge) simp_all
  have "?b * ?f \<le> ?b * (5/4)" by (rule mult_left_mono) (use fifth_factor(2) [of r] b in auto)
  then show "exponential_backoff_seconds base cap k r \<le> 5/4 * ?b"
    unfolding d using repr64_five_quarters [OF b(3)] by (intro rnd64_le) (simp_all add: mult.commute)
  fix j assume "j \<le> k"
  then show "exponential_backoff_seconds base cap j r \<le> exponential_backoff_seconds base cap k r"
    using fifth_factor(1) [of r] unfolding exponential_backoff_seconds_def Let_def capped_exact [OF s]
    by (intro scaled_mono [OF s]) simp_all
qed simp_all

section \<open>Properties\<close>

text \<open>Retry delays of both schedules, as the \<open>timedelta\<close> that is added to the clock: a
  dispatch retry waits between half and all of the capped exponential, a notification retry
  at least half of it and at most twice the configured maximum, and at a
  given random value the delay never decreases with the attempt.\<close>

theorem retry_delays:
  assumes "backoff_settings base cap" and "unit_sample r"
  shows "capped_exponential base cap k * 500000 \<le> td_seconds (delay base cap k r)
     \<and> td_seconds (delay base cap k r) \<le> seconds cap
     \<and> delay base cap k r \<le> delay base cap (k + 1) r
     \<and> capped_exponential base cap k * 500000 \<le> td_seconds (exponential_backoff_seconds base cap k r)
     \<and> td_seconds (exponential_backoff_seconds base cap k r) \<le> seconds (2 * cap)
     \<and> exponential_backoff_seconds base cap k r \<le> exponential_backoff_seconds base cap (k + 1) r"
  using dispatch_backoff.waits [OF assms, of k] dispatch_backoff.no_longer_than [OF assms, of cap k]
    dispatch_backoff.monotone [OF assms, of k "k + 1"]
    notification_backoff.waits [OF assms(1), of k r]
    notification_backoff.no_longer_than [OF assms(1), of "2 * cap" k r]
    notification_backoff.monotone [OF assms(1), of k "k + 1" r] assms(1)
  by (auto simp: backoff_settings_def)

theorem retry_delays_witness:
  "td_seconds (delay 5 300 3 0) \<ge> 10000000 \<and> td_seconds (delay 5 300 3 0) \<le> seconds 300"
  using retry_delays [of 5 300 0 3] by (simp add: backoff_settings_def unit_sample_def capped_exponential_def)

end
