(* ===== verification/Task_Lifecycle.thy ===== *)
theory Task_Lifecycle
  imports Database
begin

text \<open>
  The abstract specification of an agent task: the state machine over the values of
  \<open>agent_tasks.status\<close> that planner, dispatcher, recovery and hub together implement.  The
  components prove that whatever they do to a task row is a sequence of edges of this
  machine (\<open>task_evolves\<close>), so that its invariants hold of the program: terminal states are
  absorbing, and the phase of a task never decreases.

  The theory also holds the schema's constraints on a row (\<open>CHECK\<close>, \<open>UNIQUE\<close> and foreign keys
  of \<open>src/tomiris_hub/database/models.py\<close>) as executable predicates.
\<close>

section \<open>The state machine\<close>

definition terminal_task_states :: "task_status set" where
  "terminal_task_states = {SIGNAL_RECEIVED, TIMED_OUT, FAILED, CANCELLED, SKIPPED}"

abbreviation terminal :: "task_status \<Rightarrow> bool" where
  "terminal s \<equiv> s \<in> terminal_task_states"

definition claimable :: "task_status \<Rightarrow> bool" where
  "claimable s \<longleftrightarrow> s \<in> {PENDING, RETRY, DISPATCHING}"

definition awaiting :: "task_status \<Rightarrow> bool" where
  "awaiting s \<longleftrightarrow> s \<in> {ACKNOWLEDGED, WAITING_SIGNAL}"

inductive task_edge :: "task_status \<Rightarrow> task_status \<Rightarrow> bool" where
  claim: "claimable s \<Longrightarrow> task_edge s DISPATCHING"
| cancel: "claimable s \<Longrightarrow> task_edge s CANCELLED"
| requeue: "claimable s \<Longrightarrow> task_edge s RETRY"
| fail: "claimable s \<Longrightarrow> task_edge s FAILED"
| acknowledge: "task_edge DISPATCHING WAITING_SIGNAL"
| timeout: "claimable s \<or> awaiting s \<Longrightarrow> task_edge s TIMED_OUT"
| result: "s = DISPATCHING \<or> awaiting s \<Longrightarrow> task_edge s SIGNAL_RECEIVED"

inductive_simps task_edge_iff: "task_edge s s'"
inductive_cases task_edge_terminal: "task_edge SIGNAL_RECEIVED s"

abbreviation task_path :: "task_status \<Rightarrow> task_status \<Rightarrow> bool" where
  "task_path \<equiv> task_edge\<^sup>*\<^sup>*"

lemmas task_state_defs = terminal_task_states_def claimable_def awaiting_def

lemma terminal_no_edge: "task_edge s s' \<Longrightarrow> \<not> terminal s"
  by (auto simp: task_edge_iff task_state_defs)

lemma terminal_absorbing: "task_path s s' \<Longrightarrow> terminal s \<Longrightarrow> s' = s"
  by (induction rule: converse_rtranclp_induct) (auto dest: terminal_no_edge)

definition phase :: "task_status \<Rightarrow> nat" where
  "phase s = (if claimable s then 0 else if awaiting s then 1 else 2)"

lemma phase_terminal: "phase s = 2 \<longleftrightarrow> terminal s"
  by (cases s) (auto simp: phase_def task_state_defs)

lemma phase_edge: "task_edge s s' \<Longrightarrow> phase s \<le> phase s'"
  by (auto simp: task_edge_iff phase_def task_state_defs)

lemma phase_path: "task_path s s' \<Longrightarrow> phase s \<le> phase s'"
  by (induction rule: rtranclp_induct) (auto dest: phase_edge)

lemma edge_path: "task_edge s s' \<Longrightarrow> task_path s s'"
  by (rule r_into_rtranclp)

text \<open>A non-terminal status is either claimable or awaiting its signal.\<close>

lemma status_cases: "claimable s \<or> awaiting s \<or> terminal s"
  by (cases s) (auto simp: task_state_defs)

section \<open>How a row may change\<close>

text \<open>The columns that are written once, at creation.\<close>

definition same_identity :: "agent_task \<Rightarrow> agent_task \<Rightarrow> bool" where
  "same_identity t t' \<longleftrightarrow>
     t_task_id t' = t_task_id t \<and> t_orchestration_run_id t' = t_orchestration_run_id t
     \<and> t_snapshot_id t' = t_snapshot_id t \<and> t_agent_id t' = t_agent_id t
     \<and> t_asset t' = t_asset t \<and> t_required_capability t' = t_required_capability t
     \<and> t_required t' = t_required t \<and> t_priority t' = t_priority t
     \<and> t_criticality t' = t_criticality t \<and> t_dispatch_deadline t' = t_dispatch_deadline t
     \<and> t_signal_deadline t' = t_signal_deadline t \<and> t_context t' = t_context t
     \<and> t_causation_id t' = t_causation_id t \<and> t_created_at t' = t_created_at t"

definition task_kept :: "agent_task \<Rightarrow> agent_task \<Rightarrow> bool" where
  "task_kept t t' \<longleftrightarrow> same_identity t t' \<and> t_attempt_count t \<le> t_attempt_count t'"

definition task_evolves :: "agent_task \<Rightarrow> agent_task \<Rightarrow> bool" where
  "task_evolves t t' \<longleftrightarrow>
     same_identity t t' \<and> t_attempt_count t \<le> t_attempt_count t'
     \<and> task_path (t_status t) (t_status t')"

lemma task_evolves_refl: "reflp task_evolves"
  by (rule reflpI) (simp add: task_evolves_def same_identity_def)

lemma task_evolves_trans: "transp task_evolves"
  by (rule transpI) (auto simp: task_evolves_def same_identity_def intro: rtranclp_trans)

lemma task_evolvesI:
  "same_identity t t' \<Longrightarrow> t_attempt_count t \<le> t_attempt_count t' \<Longrightarrow>
   t_status t' = t_status t \<or> task_edge (t_status t) (t_status t') \<Longrightarrow> task_evolves t t'"
  by (auto simp: task_evolves_def intro: edge_path)

lemma task_evolves_kept: "task_evolves t t' \<Longrightarrow> task_kept t t'"
  by (simp add: task_evolves_def task_kept_def)

lemma task_evolves_id [dest]: "task_evolves t t' \<Longrightarrow> t_task_id t = t_task_id t'"
  by (simp add: task_evolves_def same_identity_def)

lemma task_evolves_terminal:
  "task_evolves t t' \<Longrightarrow> terminal (t_status t) \<Longrightarrow> t_status t' = t_status t"
  by (auto simp: task_evolves_def dest: terminal_absorbing)

lemma tasks_kept_refl: "list_all2 task_kept ts ts"
  by (rule list_all2_refl) (simp add: task_kept_def same_identity_def)

lemma tasks_evolve_refl: "list_all2 task_evolves ts ts"
  by (rule list_all2_refl) (rule reflpD [OF task_evolves_refl])

lemma tasks_evolve_trans:
  "list_all2 task_evolves xs ys \<Longrightarrow> list_all2 task_evolves ys zs \<Longrightarrow> list_all2 task_evolves xs zs"
  by (rule list_all2_rows_trans [OF task_evolves_trans])

lemma tasks_evolve_keys:
  "list_all2 task_evolves xs ys \<Longrightarrow> map t_task_id xs = map t_task_id ys"
  by (erule list_all2_keys) (rule task_evolves_id)

text \<open>Writing back one evolved row evolves the table.\<close>

lemma put_task_evolves:
  assumes "distinct (map t_task_id (w_tasks w))" and "get_task (t_task_id t') w = Some t"
    and "task_evolves t t'"
  shows "list_all2 task_evolves (w_tasks w) (w_tasks (put_task t' w))"
  using row_put_rel [OF task_evolves_refl assms(1) _ assms(3)] assms(2)
  by (simp add: put_task_def get_task_def)

section \<open>Constraints of the schema\<close>

definition task_checks :: "agent_task \<Rightarrow> bool" where
  "task_checks t \<longleftrightarrow>
     0 \<le> t_attempt_count t \<and> 0 \<le> t_priority t \<and> t_priority t \<le> 100
     \<and> t_created_at t < t_dispatch_deadline t \<and> t_dispatch_deadline t \<le> t_signal_deadline t"

definition run_checks :: "orchestration_run \<Rightarrow> bool" where
  "run_checks r \<longleftrightarrow>
     (r_trigger_type r = ''MANUAL'' \<or> r_trigger_type r = ''TEST'')
     \<and> r_created_at r < r_collection_deadline r"

definition state_checks :: "agent_runtime_state \<Rightarrow> bool" where
  "state_checks s \<longleftrightarrow> 0 \<le> rs_consecutive_failures s"

definition signal_analytical :: "signal_row \<Rightarrow> bool list" where
  "signal_analytical s =
     [sg_role_id s \<noteq> None, sg_role_version s \<noteq> None, sg_config_version s \<noteq> None,
      sg_feature_pipeline_version s \<noteq> None, sg_analysis_schema_version s \<noteq> None,
      sg_data_provider s \<noteq> None, sg_data_as_of s \<noteq> None, sg_confidence_model_version s \<noteq> None]"

definition signal_checks :: "signal_row \<Rightarrow> bool" where
  "signal_checks s \<longleftrightarrow>
     0 \<le> sg_confidence s \<and> sg_confidence s \<le> 100
     \<and> 0 \<le> sg_impact s \<and> sg_impact s \<le> 100
     \<and> 0 < sg_signal_ttl_seconds s
     \<and> ((sg_task_id s = None \<and> sg_orchestration_run_id s = None)
        \<or> (sg_task_id s \<noteq> None \<and> sg_orchestration_run_id s \<noteq> None))
     \<and> (list_all (\<lambda>b. \<not> b) (signal_analytical s) \<or> list_all (\<lambda>b. b) (signal_analytical s))
     \<and> (case sg_data_as_of s of None \<Rightarrow> True | Some t \<Rightarrow> t \<le> sg_analysis_timestamp s)"

definition outbox_checks :: "outbox_row \<Rightarrow> bool" where
  "outbox_checks n \<longleftrightarrow> 0 \<le> ob_attempt_count n"

definition assignment_key :: "agent_task \<Rightarrow> uuid \<times> string \<times> string \<times> string" where
  "assignment_key t = (t_orchestration_run_id t, t_agent_id t, t_asset t, t_required_capability t)"

text \<open>Primary keys and \<open>UNIQUE\<close> constraints.\<close>

definition keys_ok :: "world \<Rightarrow> bool" where
  "keys_ok w \<longleftrightarrow>
     distinct (map ag_agent_id (w_agents w)) \<and> distinct (map sn_snapshot_id (w_snapshots w))
     \<and> distinct (map ep_agent_id (w_endpoints w)) \<and> distinct (map rs_agent_id (w_states w))
     \<and> distinct (map r_orchestration_run_id (w_runs w)) \<and> distinct (map t_task_id (w_tasks w))
     \<and> distinct (map sg_message_id (w_signals w))
     \<and> distinct (map ob_notification_id (w_outbox w))
     \<and> distinct (map (\<lambda>n. (nc_agent_id n, nc_nonce n)) (w_nonces w))
     \<and> distinct (map sg_task_id (filter (\<lambda>s. sg_task_id s \<noteq> None) (w_signals w)))
     \<and> distinct (map assignment_key (w_tasks w))
     \<and> distinct (map ob_idempotency_key (w_outbox w))"

text \<open>Foreign keys.\<close>

definition refs_ok :: "world \<Rightarrow> bool" where
  "refs_ok w \<longleftrightarrow>
     (\<forall>n \<in> set (w_nonces w). nc_agent_id n \<in> ag_agent_id ` set (w_agents w))
     \<and> (\<forall>s \<in> set (w_signals w). sg_agent_id s \<in> ag_agent_id ` set (w_agents w)
          \<and> sg_snapshot_id s \<in> sn_snapshot_id ` set (w_snapshots w)
          \<and> (\<forall>k. sg_task_id s = Some k \<longrightarrow> k \<in> t_task_id ` set (w_tasks w))
          \<and> (\<forall>k. sg_orchestration_run_id s = Some k \<longrightarrow>
                k \<in> r_orchestration_run_id ` set (w_runs w)))
     \<and> (\<forall>s \<in> set (w_states w). rs_agent_id s \<in> ag_agent_id ` set (w_agents w))
     \<and> (\<forall>e \<in> set (w_endpoints w). ep_agent_id e \<in> ag_agent_id ` set (w_agents w))
     \<and> (\<forall>r \<in> set (w_runs w). r_snapshot_id r \<in> sn_snapshot_id ` set (w_snapshots w))
     \<and> (\<forall>t \<in> set (w_tasks w).
          t_orchestration_run_id t \<in> r_orchestration_run_id ` set (w_runs w)
          \<and> t_snapshot_id t \<in> sn_snapshot_id ` set (w_snapshots w)
          \<and> t_agent_id t \<in> ag_agent_id ` set (w_agents w))"

definition checks_ok :: "world \<Rightarrow> bool" where
  "checks_ok w \<longleftrightarrow>
     list_all task_checks (w_tasks w) \<and> list_all run_checks (w_runs w)
     \<and> list_all state_checks (w_states w) \<and> list_all signal_checks (w_signals w)
     \<and> list_all outbox_checks (w_outbox w)"

text \<open>
  All declared constraints but two: the primary keys \<open>audit_events.event_id\<close> and \<open>used_nonces.id\<close>
  hold identifiers that the code draws with \<open>uuid4\<close> at every insertion, names nowhere else and never
  reads.
\<close>

definition schema_ok :: "world \<Rightarrow> bool" where
  "schema_ok w \<longleftrightarrow> keys_ok w \<and> refs_ok w \<and> checks_ok w"

lemma schema_task_keys: "schema_ok w \<Longrightarrow> distinct (map t_task_id (w_tasks w))"
  and schema_run_keys: "schema_ok w \<Longrightarrow> distinct (map r_orchestration_run_id (w_runs w))"
  and schema_state_keys: "schema_ok w \<Longrightarrow> distinct (map rs_agent_id (w_states w))"
  by (simp_all add: schema_ok_def keys_ok_def)

section \<open>Updates that keep the schema\<close>

text \<open>Every update of a run after its creation touches only status, outcome and completion.\<close>

definition run_kept :: "orchestration_run \<Rightarrow> orchestration_run \<Rightarrow> bool" where
  "run_kept r r' \<longleftrightarrow>
     r' = r\<lparr>r_status := r_status r', r_outcome := r_outcome r', r_completed_at := r_completed_at r'\<rparr>"

lemma run_keptI [intro]:
  "run_kept r r" "run_kept r (r\<lparr>r_status := s\<rparr>)"
  "run_kept r (r\<lparr>r_status := s, r_outcome := out, r_completed_at := c\<rparr>)"
  by (simp_all add: run_kept_def)

lemma run_kept_same:
  "run_kept r r' \<Longrightarrow> r_orchestration_run_id r' = r_orchestration_run_id r
     \<and> r_snapshot_id r' = r_snapshot_id r \<and> r_metadata r' = r_metadata r
     \<and> r_collection_deadline r' = r_collection_deadline r \<and> r_asset r' = r_asset r
     \<and> r_created_at r' = r_created_at r \<and> run_checks r' = run_checks r"
  unfolding run_kept_def run_checks_def by (cases r; cases r') simp

lemma run_kept_refl: "reflp run_kept"
  by (rule reflpI) (rule run_keptI)

lemma run_kept_trans: "transp run_kept"
proof (rule transpI)
  fix x y z assume "run_kept x y" "run_kept y z"
  then show "run_kept x z" unfolding run_kept_def by (cases x; cases y; cases z) simp
qed

lemma runs_kept_refl: "list_all2 run_kept rs rs"
  by (rule list_all2_refl) (rule reflpD [OF run_kept_refl])

lemma put_run_kept:
  assumes "distinct (map r_orchestration_run_id (w_runs w))"
    and "get_run (r_orchestration_run_id r') w = Some r" and "run_kept r r'"
  shows "list_all2 run_kept (w_runs w) (w_runs (put_run r' w))"
  using row_put_rel [OF run_kept_refl assms(1) _ assms(3)] assms(2)
  by (simp add: put_run_def get_run_def)

definition states_ok :: "world \<Rightarrow> bool" where
  "states_ok w \<longleftrightarrow> distinct (map rs_agent_id (w_states w))
     \<and> (\<forall>s \<in> set (w_states w). rs_agent_id s \<in> ag_agent_id ` set (w_agents w) \<and> state_checks s)"

lemma schema_states_ok: "schema_ok w \<Longrightarrow> states_ok w"
  by (simp add: schema_ok_def keys_ok_def refs_ok_def checks_ok_def states_ok_def list_all_iff)

lemma task_kept_checks: "task_kept t t' \<Longrightarrow> task_checks t \<Longrightarrow> task_checks t'"
  by (auto simp: task_kept_def same_identity_def task_checks_def)

lemma task_kept_assignment: "task_kept t t' \<Longrightarrow> assignment_key t = assignment_key t'"
  by (simp add: task_kept_def same_identity_def assignment_key_def)

lemma schema_ok_kept:
  assumes ok: "schema_ok w"
    and same: "w_agents w' = w_agents w" "w_snapshots w' = w_snapshots w" "w_nonces w' = w_nonces w"
      "w_signals w' = w_signals w" "w_outbox w' = w_outbox w" "w_endpoints w' = w_endpoints w"
    and runs: "list_all2 run_kept (w_runs w) (w_runs w')"
    and tasks: "list_all2 task_kept (w_tasks w) (w_tasks w')"
    and states: "states_ok w'"
  shows "schema_ok w'"
proof -
  have rk: "map r_orchestration_run_id (w_runs w') = map r_orchestration_run_id (w_runs w)"
    by (rule list_all2_keys [OF runs, symmetric]) (simp add: run_kept_same)
  have tk: "map t_task_id (w_tasks w') = map t_task_id (w_tasks w)"
    by (rule list_all2_keys [OF tasks, symmetric]) (simp add: task_kept_def same_identity_def)
  have ak: "map assignment_key (w_tasks w') = map assignment_key (w_tasks w)"
    by (rule list_all2_keys [OF tasks, symmetric]) (rule task_kept_assignment)
  have ids: "r_orchestration_run_id ` set (w_runs w') = r_orchestration_run_id ` set (w_runs w)"
    "t_task_id ` set (w_tasks w') = t_task_id ` set (w_tasks w)"
    using arg_cong [OF rk, of set] arg_cong [OF tk, of set] by simp_all
  have run: "r_snapshot_id r' \<in> sn_snapshot_id ` set (w_snapshots w) \<and> run_checks r'"
    if r': "r' \<in> set (w_runs w')" for r'
  proof -
    from list_all2_memD2 [OF runs r'] obtain r where "r \<in> set (w_runs w)" "run_kept r r'" by blast
    with ok show ?thesis
      by (simp add: run_kept_same schema_ok_def refs_ok_def checks_ok_def list_all_iff)
  qed
  have task: "t_orchestration_run_id t' \<in> r_orchestration_run_id ` set (w_runs w)
      \<and> t_snapshot_id t' \<in> sn_snapshot_id ` set (w_snapshots w)
      \<and> t_agent_id t' \<in> ag_agent_id ` set (w_agents w) \<and> task_checks t'"
    if t': "t' \<in> set (w_tasks w')" for t'
  proof -
    from list_all2_memD2 [OF tasks t'] obtain t where t: "t \<in> set (w_tasks w)" "task_kept t t'" by blast
    then have "t_orchestration_run_id t' = t_orchestration_run_id t" "t_snapshot_id t' = t_snapshot_id t"
      "t_agent_id t' = t_agent_id t" by (simp_all add: task_kept_def same_identity_def)
    with t ok task_kept_checks [OF t(2)] show ?thesis
      by (simp add: schema_ok_def refs_ok_def checks_ok_def list_all_iff)
  qed
  have "keys_ok w'"
    using ok states by (simp add: schema_ok_def keys_ok_def same rk tk ak states_ok_def)
  moreover have "refs_ok w'"
    using ok states run task unfolding schema_ok_def refs_ok_def same ids states_ok_def by blast
  moreover have "checks_ok w'"
    using ok states run task unfolding schema_ok_def checks_ok_def same states_ok_def list_all_iff by blast
  ultimately show ?thesis by (simp add: schema_ok_def)
qed

section \<open>One step of orchestration\<close>

text \<open>
  What dispatcher, evaluator and recovery may do to the database: tasks evolve, runs change
  status, outcome and completion time at most (\<open>run_kept\<close>), runtime states stay within the schema, audit and metrics grow; nothing else.
\<close>

definition orch_step :: "world \<Rightarrow> world \<Rightarrow> bool" where
  "orch_step w w' \<longleftrightarrow>
     w_agents w' = w_agents w \<and> w_snapshots w' = w_snapshots w \<and> w_nonces w' = w_nonces w
     \<and> w_signals w' = w_signals w \<and> w_outbox w' = w_outbox w \<and> w_endpoints w' = w_endpoints w
     \<and> w_uuid_src w' = w_uuid_src w
     \<and> list_all2 run_kept (w_runs w) (w_runs w') \<and> list_all2 task_evolves (w_tasks w) (w_tasks w')
     \<and> (states_ok w \<longrightarrow> states_ok w')"

lemma orch_step_refl: "orch_step w w"
  by (simp add: orch_step_def runs_kept_refl tasks_evolve_refl)

lemma orch_step_trans [trans]: "orch_step w w1 \<Longrightarrow> orch_step w1 w2 \<Longrightarrow> orch_step w w2"
  unfolding orch_step_def
  by (auto intro: tasks_evolve_trans list_all2_rows_trans [OF run_kept_trans])

lemma orch_step_schema: "orch_step w w' \<Longrightarrow> schema_ok w \<Longrightarrow> schema_ok w'"
  unfolding orch_step_def
  by (rule schema_ok_kept) (auto intro: schema_states_ok list_all2_mono task_evolves_kept)

lemma orch_step_tasks: "orch_step w w' \<Longrightarrow> list_all2 task_evolves (w_tasks w) (w_tasks w')"
  by (simp add: orch_step_def)

lemma orch_step_runs: "orch_step w w' \<Longrightarrow> list_all2 run_kept (w_runs w) (w_runs w')"
  by (simp add: orch_step_def)

lemma orch_step_states: "orch_step w w' \<Longrightarrow> states_ok w \<Longrightarrow> states_ok w'"
  by (simp add: orch_step_def)

lemma orch_step_quiet:
  "orch_step w (metric_increment n a w)" "orch_step w (metric_observe n v w)"
  "orch_step w (add_orchestration_event now ev c ca r t ag sn out re m w)"
  by (simp_all add: orch_step_def runs_kept_refl tasks_evolve_refl states_ok_def)

lemma orch_step_put_task:
  "distinct (map t_task_id (w_tasks w)) \<Longrightarrow> get_task (t_task_id t') w = Some t \<Longrightarrow> task_evolves t t' \<Longrightarrow>
   orch_step w (put_task t' w)"
  using put_task_evolves [of w t' t] by (simp add: orch_step_def runs_kept_refl put_task_def states_ok_def)

lemma orch_step_put_run:
  "distinct (map r_orchestration_run_id (w_runs w)) \<Longrightarrow> get_run (r_orchestration_run_id r') w = Some r \<Longrightarrow>
   run_kept r r' \<Longrightarrow> orch_step w (put_run r' w)"
  using put_run_kept [of w r' r] by (simp add: orch_step_def tasks_evolve_refl put_run_def states_ok_def)

lemma orch_step_put_state:
  assumes "get_state (rs_agent_id s') w = Some s" and "state_checks s'"
  shows "orch_step w (put_state s' w)"
proof -
  have "rs_agent_id s' \<in> rs_agent_id ` set (w_states w)"
    using get_state_SomeD [OF assms(1)] by (metis imageI)
  then have "states_ok w \<Longrightarrow> states_ok (put_state s' w)"
    using assms(2) by (auto simp: states_ok_def put_state_def keys_row_put dest!: set_row_putD)
  then show ?thesis
    by (simp add: orch_step_def runs_kept_refl tasks_evolve_refl put_state_def)
qed

lemma orch_step_add_state:
  assumes "get_state (rs_agent_id s) w = None" and "rs_agent_id s \<in> ag_agent_id ` set (w_agents w)"
    and "state_checks s"
  shows "orch_step w (add_state s w)"
  using assms
  by (auto simp: orch_step_def runs_kept_refl tasks_evolve_refl add_state_def states_ok_def
      get_state_def row_get_None_iff)

lemma schema_task_agent:
  "schema_ok w \<Longrightarrow> get_task k w = Some t \<Longrightarrow> t_agent_id t \<in> ag_agent_id ` set (w_agents w)"
  using get_task_SomeD [of k w t] by (auto simp: schema_ok_def refs_ok_def)

lemma schema_state_checks: "schema_ok w \<Longrightarrow> get_state k w = Some s \<Longrightarrow> state_checks s"
  using get_state_SomeD [of k w s] by (auto simp: schema_ok_def checks_ok_def list_all_iff)

lemma get_task_evolved:
  assumes "orch_step w w'" and "get_task k w = Some t"
  obtains t' where "get_task k w' = Some t'" "task_evolves t t'"
  using list_all2_row_get [OF orch_step_tasks [OF assms(1)], of t_task_id k] assms(2)
  by (cases "row_get t_task_id k (w_tasks w')") (auto simp: get_task_def)

end
