(* ===== verification/Samples.thy ===== *)
theory Samples
  imports Database
begin

text \<open>
  A small concrete database: one agent with its endpoint, one open snapshot, one policy that
  requires a \<open>technical\<close> answer and accepts an optional \<open>macro\<close> one.  The witnesses of the
  properties evaluate the model on it.
\<close>

definition sample_agent :: agent where
  "sample_agent =
     \<lparr>ag_agent_id = ''ETH_TECH'', ag_name = ''Eth Technical'', ag_role = ''technical'', ag_enabled = True,
      ag_protocol_version = ''1.0'', ag_capabilities = [''technical'', ''signal_ingestion''], ag_criticality = HIGH,
      ag_supported_assets = [''ETH''], ag_supported_evidence_types = [''chart''], ag_metadata = []\<rparr>"

definition sample_endpoint :: agent_endpoint where
  "sample_endpoint =
     \<lparr>ep_agent_id = ''ETH_TECH'', ep_endpoint_url = ''https://eth.example.net'', ep_enabled = True,
      ep_environment = TEST, ep_metadata = []\<rparr>"

definition sample_snapshot :: market_snapshot where
  "sample_snapshot =
     \<lparr>sn_snapshot_id = 900, sn_created_at = 0, sn_expires_at = seconds 3600, sn_status = S_OPEN,
      sn_context_version = ''1'', sn_metadata = PyMap []\<rparr>"

definition required_technical :: capability_requirement where
  "required_technical = \<lparr>rq_capability = ''technical'', rq_required = True, rq_critical = False,
     rq_minimum_responses = 1, rq_max_agents = Some 1\<rparr>"

definition optional_macro :: capability_requirement where
  "optional_macro = \<lparr>rq_capability = ''macro'', rq_required = False, rq_critical = False,
     rq_minimum_responses = 1, rq_max_agents = None\<rparr>"

definition sample_policy :: orchestration_policy where
  "sample_policy = \<lparr>po_policy_version = ''1'', po_requirements = [required_technical, optional_macro],
     po_collection_timeout_seconds = 120, po_dispatch_timeout_seconds = 30,
     po_signal_timeout_seconds = 60\<rparr>"

definition sample_metadata :: run_metadata where
  "sample_metadata = \<lparr>rm_policy = sample_policy, rm_context = PyMap [], rm_missing_required = [],
     rm_missing_optional = []\<rparr>"

definition sample_run :: orchestration_run where
  "sample_run =
     \<lparr>r_orchestration_run_id = 700, r_snapshot_id = 900, r_asset = ''ETH'',
      r_trigger_type = ''TEST'', r_status = R_DISPATCHING, r_outcome = None, r_created_at = 0,
      r_started_at = Some 0, r_collection_deadline = seconds 120, r_completed_at = None,
      r_correlation_id = 701, r_policy_version = ''1'', r_metadata = sample_metadata\<rparr>"

definition sample_task :: agent_task where
  "sample_task =
     \<lparr>t_task_id = 800, t_orchestration_run_id = 700, t_snapshot_id = 900, t_agent_id = ''ETH_TECH'',
      t_asset = ''ETH'', t_required_capability = ''technical'', t_required = True, t_priority = 50,
      t_criticality = HIGH, t_status = PENDING, t_attempt_count = 0, t_dispatch_after = 0,
      t_dispatch_deadline = seconds 30, t_signal_deadline = seconds 60, t_lease_owner = None,
      t_lease_until = None, t_last_error_code = None, t_acknowledged_at = None,
      t_signal_received_at = None, t_context = PyMap [], t_causation_id = None, t_created_at = 0,
      t_updated_at = 0\<rparr>"

definition sample_state :: agent_runtime_state where
  "sample_state =
     \<lparr>rs_agent_id = ''ETH_TECH'', rs_availability = UNKNOWN, rs_last_probe_at = None,
      rs_last_seen_at = None, rs_last_ack_at = None, rs_last_signal_at = None,
      rs_last_success_at = None, rs_consecutive_failures = 0, rs_latency_ms = None,
      rs_circuit_state = CLOSED, rs_circuit_open_until = None, rs_last_error_code = None,
      rs_updated_at = 0\<rparr>"

text \<open>The registry before any run, and the same with one planned run.\<close>

definition registry_world :: world where
  "registry_world =
     \<lparr>w_agents = [sample_agent], w_snapshots = [sample_snapshot], w_nonces = [], w_signals = [],
      w_audit = [], w_outbox = [], w_endpoints = [sample_endpoint], w_states = [], w_runs = [],
      w_tasks = [], w_uuid_src = (\<lambda>n. n), w_uuid_pos = 1000, w_counters = (\<lambda>_. None),
      w_observations = (\<lambda>_. None)\<rparr>"

definition planned_world :: world where
  "planned_world = registry_world\<lparr>w_runs := [sample_run], w_tasks := [sample_task]\<rparr>"

lemmas sample_rows = sample_agent_def sample_endpoint_def sample_snapshot_def
  required_technical_def optional_macro_def sample_policy_def sample_metadata_def sample_run_def
  sample_task_def sample_state_def

lemmas sample_worlds = registry_world_def planned_world_def

lemma sample_policy_valid: "valid_policy sample_policy"
  by (simp add: sample_rows valid_policy_def valid_requirement_def len_between_def)

end
