(* ===== verification/Planner.thy ===== *)
theory Planner
  imports Task_Lifecycle Samples
begin

text \<open>
  \<open>src/tomiris_orchestrator/routing.py\<close> and \<open>planner.py\<close>: selection of agents from the
  registry and creation of a run with its tasks in one transaction.

  \<open>collate\<close> is the sort key of the database's collation on agent identifiers, which the
  code does not choose; every result holds for any collation.  A raised exception is \<open>Inl\<close>;
  the transaction is then rolled back, so no new world is returned.
\<close>

section \<open>Routing\<close>

record routed_agent =
  ra_agent_id :: string
  ra_capability :: string
  ra_criticality :: criticality
  ra_endpoint_url :: string
  ra_environment :: environment

definition registry_rows :: "world \<Rightarrow> (agent \<times> agent_endpoint) list" where
  "registry_rows w =
     [(a, e). a \<leftarrow> w_agents w, e \<leftarrow> w_endpoints w,
        ep_agent_id e = ag_agent_id a \<and> ag_enabled a \<and> ep_enabled e]"

definition select_agents ::
    "(string \<Rightarrow> 'k::linorder) \<Rightarrow> world \<Rightarrow> string \<Rightarrow> string \<Rightarrow> nat option \<Rightarrow> routed_agent list" where
  "select_agents collate w asset capability limit =
     (let rows = sort_key (\<lambda>(a, e). collate (ag_agent_id a)) (registry_rows w);
          routed = [\<lparr>ra_agent_id = ag_agent_id a, ra_capability = capability,
                     ra_criticality = ag_criticality a, ra_endpoint_url = ep_endpoint_url e,
                     ra_environment = ep_environment e\<rparr>.
                    (a, e) \<leftarrow> rows,
                    capability \<in> set (ag_capabilities a) \<and> asset \<in> set (ag_supported_assets a)]
      in case limit of None \<Rightarrow> routed | Some n \<Rightarrow> take n routed)"

text \<open>An agent the reviewed registry authorises for a capability on an asset.\<close>

definition authorised :: "world \<Rightarrow> string \<Rightarrow> string \<Rightarrow> string \<Rightarrow> bool" where
  "authorised w agent_id capability asset \<longleftrightarrow>
     (\<exists>a \<in> set (w_agents w). \<exists>e \<in> set (w_endpoints w).
        ag_agent_id a = agent_id \<and> ep_agent_id e = agent_id \<and> ag_enabled a \<and> ep_enabled e
        \<and> capability \<in> set (ag_capabilities a) \<and> asset \<in> set (ag_supported_assets a))"

section \<open>Planning\<close>

datatype plan_error = PlanningError string string | ContextError json_error

record orchestration_plan =
  pl_orchestration_run_id :: uuid
  pl_task_ids :: "uuid list"
  pl_missing_required :: "string list"
  pl_missing_optional :: "string list"
  pl_status :: run_status

type_synonym assignment = "capability_requirement \<times> routed_agent"

fun plan_requirements ::
    "(string \<Rightarrow> 'k::linorder) \<Rightarrow> world \<Rightarrow> string \<Rightarrow> capability_requirement list \<Rightarrow>
     assignment list \<times> string list \<times> string list \<Rightarrow>
     assignment list \<times> string list \<times> string list" where
  "plan_requirements collate w asset [] acc = acc"
| "plan_requirements collate w asset (q # qs) (assignments, missing_required, missing_optional) =
     (let agents = select_agents collate w asset (rq_capability q) (rq_max_agents q);
          short = length agents < rq_minimum_responses q;
          missing_required =
            (if short \<and> rq_required q then missing_required @ [rq_capability q] else missing_required);
          missing_optional =
            (if short \<and> \<not> rq_required q then missing_optional @ [rq_capability q] else missing_optional)
      in plan_requirements collate w asset qs
           (assignments @ map (\<lambda>a. (q, a)) agents, missing_required, missing_optional))"

text \<open>What the task loop of \<open>create\<close> keeps fixed.\<close>

record plan_env =
  pe_now :: instant
  pe_run_id :: uuid
  pe_correlation :: uuid
  pe_causation :: "uuid option"
  pe_snapshot_id :: uuid
  pe_asset :: string
  pe_policy :: orchestration_policy
  pe_context :: pyval
  pe_collection_deadline :: instant
  pe_missing_required :: "string list"

definition new_task :: "plan_env \<Rightarrow> uuid \<Rightarrow> assignment \<Rightarrow> agent_task" where
  "new_task E task_id qa =
     (let (q, routed) = qa; now = pe_now E in
      \<lparr>t_task_id = task_id, t_orchestration_run_id = pe_run_id E,
       t_snapshot_id = pe_snapshot_id E, t_agent_id = ra_agent_id routed,
       t_asset = pe_asset E, t_required_capability = rq_capability q,
       t_required = rq_required q, t_priority = (if rq_critical q then 100 else 50),
       t_criticality = (if rq_critical q then CRITICAL else ra_criticality routed),
       t_status = (if pe_missing_required E \<noteq> [] then CANCELLED else PENDING),
       t_attempt_count = 0, t_dispatch_after = now,
       t_dispatch_deadline = now + seconds (po_dispatch_timeout_seconds (pe_policy E)),
       t_signal_deadline = min (now + seconds (po_signal_timeout_seconds (pe_policy E)))
                             (pe_collection_deadline E),
       t_lease_owner = None, t_lease_until = None, t_last_error_code = None,
       t_acknowledged_at = None, t_signal_received_at = None, t_context = pe_context E,
       t_causation_id = pe_causation E, t_created_at = now, t_updated_at = now\<rparr>)"

fun create_tasks :: "plan_env \<Rightarrow> assignment list \<Rightarrow> uuid list \<Rightarrow> world \<Rightarrow> uuid list \<times> world" where
  "create_tasks E [] task_ids w = (task_ids, w)"
| "create_tasks E (qa # qas) task_ids w =
     (let (task_id, w) = uuid4 w;
          w = add_task (new_task E task_id qa) w;
          w = add_orchestration_event (pe_now E) ''TASK_CREATED'' (pe_correlation E)
                (pe_causation E) (pe_run_id E) (Some task_id) (Some (ra_agent_id (snd qa)))
                (Some (pe_snapshot_id E)) ACCEPTED None
                [(''capability'', PyStr (rq_capability (fst qa)))] w
      in create_tasks E qas (task_ids @ [task_id]) w)"

text \<open>The answer for a run that exists already: the stored plan.\<close>

definition existing_plan :: "orchestration_run \<Rightarrow> world \<Rightarrow> orchestration_plan" where
  "existing_plan run w =
     \<lparr>pl_orchestration_run_id = r_orchestration_run_id run,
      pl_task_ids = sort (map t_task_id (filter (\<lambda>t. t_orchestration_run_id t = r_orchestration_run_id run) (w_tasks w))),
      pl_missing_required = rm_missing_required (r_metadata run),
      pl_missing_optional = rm_missing_optional (r_metadata run),
      pl_status = r_status run\<rparr>"

definition opt_uuid :: "uuid option \<Rightarrow> world \<Rightarrow> uuid \<times> world" where
  "opt_uuid u w = (case u of Some x \<Rightarrow> (x, w) | None \<Rightarrow> uuid4 w)"

definition new_run :: "plan_env \<Rightarrow> string \<Rightarrow> string list \<Rightarrow> orchestration_run" where
  "new_run E trigger_type missing_optional =
     (let failed = (pe_missing_required E \<noteq> []) in
      \<lparr>r_orchestration_run_id = pe_run_id E, r_snapshot_id = pe_snapshot_id E,
       r_asset = pe_asset E, r_trigger_type = trigger_type,
       r_status = (if failed then R_CRITICAL else R_DISPATCHING),
       r_outcome = (if failed then Some O_INSUFFICIENT_DATA else None),
       r_created_at = pe_now E, r_started_at = Some (pe_now E),
       r_collection_deadline = pe_collection_deadline E,
       r_completed_at = (if failed then Some (pe_now E) else None),
       r_correlation_id = pe_correlation E,
       r_policy_version = po_policy_version (pe_policy E),
       r_metadata = \<lparr>rm_policy = pe_policy E, rm_context = pe_context E,
          rm_missing_required = pe_missing_required E,
          rm_missing_optional = missing_optional\<rparr>\<rparr>)"

text \<open>The writes of \<open>create\<close>, from the insertion of the run to the returned plan.\<close>

definition write_plan ::
    "plan_env \<Rightarrow> string \<Rightarrow> assignment list \<Rightarrow> string list \<Rightarrow> world \<Rightarrow> orchestration_plan \<times> world" where
  "write_plan E trigger_type assignments missing_optional w =
     (let failed = (pe_missing_required E \<noteq> []);
          now = pe_now E; run_id = pe_run_id E; snapshot_id = Some (pe_snapshot_id E);
          w = add_run (new_run E trigger_type missing_optional) w;
          w = add_orchestration_event now ''ORCHESTRATION_CREATED'' (pe_correlation E)
                (pe_causation E) run_id None None snapshot_id ACCEPTED None
                [(''asset'', PyStr (pe_asset E)), (''trigger_type'', PyStr trigger_type)] w;
          (task_ids, w) = create_tasks E assignments [] w;
          w = (if failed
               then add_orchestration_event now ''ORCHESTRATION_CRITICAL'' (pe_correlation E)
                      (pe_causation E) run_id None None snapshot_id REJECTED
                      (Some ''RUN_QUORUM_FAILED'')
                      [(''missing_capabilities'', PySeq (map PyStr (pe_missing_required E)))] w
               else w);
          w = metric_increment ''orchestration_runs_total'' 1 w;
          w = metric_increment ''agent_tasks_created_total'' (int (length task_ids)) w;
          w = (if failed then metric_increment ''orchestration_critical_total'' 1 w else w)
      in (\<lparr>pl_orchestration_run_id = run_id, pl_task_ids = task_ids,
           pl_missing_required = pe_missing_required E,
           pl_missing_optional = missing_optional,
           pl_status = (if failed then R_CRITICAL else R_DISPATCHING)\<rparr>, w))"

definition create_plan ::
    "(string \<Rightarrow> 'k::linorder) \<Rightarrow> instant \<Rightarrow> uuid \<Rightarrow> string \<Rightarrow> string \<Rightarrow> orchestration_policy \<Rightarrow>
     pyval option \<Rightarrow> uuid option \<Rightarrow> uuid option \<Rightarrow> uuid option \<Rightarrow> world \<Rightarrow>
     plan_error + (orchestration_plan \<times> world)" where
  "create_plan collate now snapshot_id asset trigger_type policy context run_id_arg corr_arg
      causation_id w =
     guard (trigger_type \<noteq> ''MANUAL'' \<and> trigger_type \<noteq> ''TEST'')
       (PlanningError ''INVALID_TRIGGER'' ''Phase 02 supports MANUAL and TEST only'')
     (case validate_bounded_json default_limits (case context of None \<Rightarrow> PyMap [] | Some c \<Rightarrow> c) of
        Inl e \<Rightarrow> Inl (ContextError e)
      | Inr bounded_context \<Rightarrow>
          let (run_id, w) = opt_uuid run_id_arg w;
              (correlation, w) = opt_uuid corr_arg w
          in case get_run run_id w of
               Some existing \<Rightarrow> Inr (existing_plan existing w, w)
             | None \<Rightarrow>
                 (case get_snapshot snapshot_id w of
                    None \<Rightarrow> Inl (PlanningError ''SNAPSHOT_NOT_FOUND'' ''snapshot does not exist'')
                  | Some snapshot \<Rightarrow>
                      guard (sn_status snapshot \<noteq> S_OPEN \<or> sn_expires_at snapshot \<le> now)
                        (PlanningError ''SNAPSHOT_NOT_ELIGIBLE'' ''snapshot is not open and current'')
                      (let (assignments, missing_required, missing_optional) =
                             plan_requirements collate w asset (po_requirements policy) ([], [], []);
                           E = \<lparr>pe_now = now, pe_run_id = run_id, pe_correlation = correlation,
                              pe_causation = causation_id, pe_snapshot_id = snapshot_id,
                              pe_asset = asset, pe_policy = policy, pe_context = bounded_context,
                              pe_collection_deadline =
                                now + seconds (po_collection_timeout_seconds policy),
                              pe_missing_required = missing_required\<rparr>
                       in Inr (write_plan E trigger_type assignments missing_optional w))))"

section \<open>Routing respects the registry\<close>

lemma registry_rows_mem:
  "(a, e) \<in> set (registry_rows w) \<longleftrightarrow>
   a \<in> set (w_agents w) \<and> e \<in> set (w_endpoints w) \<and> ep_agent_id e = ag_agent_id a
   \<and> ag_enabled a \<and> ep_enabled e"
  by (auto simp: registry_rows_def)

lemma select_agents_authorised:
  assumes "r \<in> set (select_agents collate w asset capability limit)"
  shows "authorised w (ra_agent_id r) capability asset"
proof -
  have "r \<in> set (select_agents collate w asset capability None)"
    using assms by (auto simp: select_agents_def Let_def dest: in_set_takeD split: option.splits)
  then show ?thesis
    by (auto simp: select_agents_def authorised_def registry_rows_mem) blast
qed

lemma select_agents_limit:
  "limit = Some n \<Longrightarrow> length (select_agents collate w asset capability limit) \<le> n"
  by (simp add: select_agents_def Let_def)

lemma distinct_map_sort_key: "distinct (map f xs) \<Longrightarrow> distinct (map f (sort_key g xs))"
  by (simp add: distinct_map)

lemma map_filtered_pairs:
  "(\<And>a e. h (g a e) = f a e) \<Longrightarrow>
   map h [g a e. (a, e) \<leftarrow> xs, P a e] = map (\<lambda>(a, e). f a e) (filter (\<lambda>(a, e). P a e) xs)"
  by (induction xs) (auto split: prod.splits)

lemma endpoint_rows_short:
  "distinct (map ep_agent_id es) \<Longrightarrow> length (filter (\<lambda>e. ep_agent_id e = k \<and> ep_enabled e) es) \<le> 1"
proof (induction es)
  case Nil
  then show ?case by simp
next
  case (Cons e es)
  then show ?case
    by (cases "ep_agent_id e = k") (auto simp: filter_empty_conv image_iff)
qed

lemma distinct_concat_keyed:
  assumes "distinct (map key as)" and "\<And>a x. x \<in> set (g a) \<Longrightarrow> h x = key a"
    and "\<And>a. distinct (g a)"
  shows "distinct (concat (map g as)) \<and> h ` set (concat (map g as)) \<subseteq> key ` set as"
  using assms(1)
proof (induction as)
  case Nil
  then show ?case by simp
next
  case (Cons a as)
  then have as: "distinct (concat (map g as))" "h ` set (concat (map g as)) \<subseteq> key ` set as"
    by auto
  have "key a \<notin> key ` set as" using Cons.prems by simp
  have disj: "set (g a) \<inter> set (concat (map g as)) = {}"
  proof (rule equals0I, elim IntE)
    fix x assume x: "x \<in> set (g a)" "x \<in> set (concat (map g as))"
    have "h x = key a" using x(1) by (rule assms(2))
    moreover have "h x \<in> key ` set as" using as(2) imageI [OF x(2)] by (rule subsetD)
    ultimately show False using \<open>key a \<notin> key ` set as\<close> by simp
  qed
  have hg: "h ` set (g a) \<subseteq> {key a}" using assms(2) by blast
  have "distinct (g a @ concat (map g as))"
    using as(1) assms(3) disj unfolding distinct_append by blast
  moreover have "h ` set (g a @ concat (map g as)) \<subseteq> key ` set (a # as)"
    using as(2) hg unfolding set_append image_Un by auto
  ultimately show ?case by (simp only: list.map concat.simps)
qed

lemma distinct_registry_rows:
  assumes "distinct (map ag_agent_id (w_agents w))" and "distinct (map ep_agent_id (w_endpoints w))"
  shows "distinct (map (\<lambda>(a, e). ag_agent_id a) (registry_rows w))"
proof -
  define row where "row = (\<lambda>a::agent. [(a, e). e \<leftarrow> w_endpoints w,
    ep_agent_id e = ag_agent_id a \<and> ag_enabled a \<and> ep_enabled e])"
  have row_eq: "map (\<lambda>(a, e). ag_agent_id a) (row a) =
      (if ag_enabled a
       then map (\<lambda>_. ag_agent_id a) (filter (\<lambda>e. ep_agent_id e = ag_agent_id a \<and> ep_enabled e) (w_endpoints w))
       else [])" for a
  proof -
    have "map (\<lambda>(a, e). ag_agent_id a) [(a, e). e \<leftarrow> es, ep_agent_id e = ag_agent_id a \<and> ag_enabled a \<and> ep_enabled e] =
      (if ag_enabled a then map (\<lambda>_. ag_agent_id a) (filter (\<lambda>e. ep_agent_id e = ag_agent_id a \<and> ep_enabled e) es)
       else [])" for es
      by (induction es) auto
    then show ?thesis unfolding row_def .
  qed
  have keyed: "x = ag_agent_id a" if "x \<in> set (map (\<lambda>(a, e). ag_agent_id a) (row a))" for a x
    using that unfolding row_eq by (auto split: if_splits)
  have short: "distinct (map (\<lambda>(a, e). ag_agent_id a) (row a))" for a
    using endpoint_rows_short [OF assms(2), of "ag_agent_id a"]
    unfolding row_eq by (auto simp: distinct_conv_nth)
  have "distinct (concat (map (\<lambda>a. map (\<lambda>(a, e). ag_agent_id a) (row a)) (w_agents w)))"
    by (rule distinct_concat_keyed [OF assms(1), where h = "\<lambda>x. x", THEN conjunct1])
      (use keyed short in blast)+
  moreover have "registry_rows w = concat (map row (w_agents w))"
    by (simp add: registry_rows_def row_def)
  ultimately show ?thesis by (simp add: map_concat comp_def)
qed

lemma select_agents_distinct:
  assumes "schema_ok w"
  shows "distinct (map ra_agent_id (select_agents collate w asset capability limit))"
proof -
  let ?rows = "sort_key (\<lambda>(a, e). collate (ag_agent_id a)) (registry_rows w)"
  have "distinct (map (\<lambda>(a, e). ag_agent_id a) ?rows)"
    by (rule distinct_map_sort_key, rule distinct_registry_rows)
      (use assms in \<open>simp_all add: schema_ok_def keys_ok_def\<close>)
  then have "distinct (map (\<lambda>(a, e). ag_agent_id a)
      (filter (\<lambda>(a, e). capability \<in> set (ag_capabilities a) \<and> asset \<in> set (ag_supported_assets a)) ?rows))"
    by (rule distinct_map_filter)
  moreover have "map ra_agent_id (select_agents collate w asset capability None) =
      map (\<lambda>(a, e). ag_agent_id a)
      (filter (\<lambda>(a, e). capability \<in> set (ag_capabilities a) \<and> asset \<in> set (ag_supported_assets a)) ?rows)"
    unfolding select_agents_def Let_def option.case by (rule map_filtered_pairs) simp
  ultimately have "distinct (map ra_agent_id (select_agents collate w asset capability None))" by simp
  then show ?thesis
    by (cases limit) (simp_all add: select_agents_def Let_def take_map [symmetric])
qed

section \<open>What planning computes\<close>

definition shortfall :: "(string \<Rightarrow> 'k::linorder) \<Rightarrow> world \<Rightarrow> string \<Rightarrow> capability_requirement \<Rightarrow> bool" where
  "shortfall collate w asset q \<longleftrightarrow>
     length (select_agents collate w asset (rq_capability q) (rq_max_agents q)) < rq_minimum_responses q"

definition planned_assignments ::
    "(string \<Rightarrow> 'k::linorder) \<Rightarrow> world \<Rightarrow> string \<Rightarrow> capability_requirement list \<Rightarrow> assignment list" where
  "planned_assignments collate w asset qs =
     concat (map (\<lambda>q. map (\<lambda>a. (q, a))
        (select_agents collate w asset (rq_capability q) (rq_max_agents q))) qs)"

lemma plan_requirements_eq:
  "plan_requirements collate w asset qs (as, mr, mo) =
     (as @ planned_assignments collate w asset qs,
      mr @ map rq_capability (filter (\<lambda>q. shortfall collate w asset q \<and> rq_required q) qs),
      mo @ map rq_capability (filter (\<lambda>q. shortfall collate w asset q \<and> \<not> rq_required q) qs))"
  by (induction qs arbitrary: as mr mo)
    (simp_all add: planned_assignments_def shortfall_def Let_def)

text \<open>The identifiers that the task loop draws: one for the task, two for its audit event.\<close>

fun drawn_ids :: "(nat \<Rightarrow> uuid) \<Rightarrow> nat \<Rightarrow> nat \<Rightarrow> uuid list" where
  "drawn_ids src p 0 = []"
| "drawn_ids src p (Suc n) = src p # drawn_ids src (p + 3) n"

lemma length_drawn_ids [simp]: "length (drawn_ids src p n) = n"
  by (induction n arbitrary: p) auto

lemma drawn_ids_range: "set (drawn_ids src p n) \<subseteq> src ` {p..}"
proof (induction n arbitrary: p)
  case (Suc n)
  then have "set (drawn_ids src (p + 3) n) \<subseteq> src ` {p + 3..}" .
  also have "\<dots> \<subseteq> src ` {p..}" by auto
  finally show ?case by auto
qed simp

lemma drawn_ids_distinct: "inj src \<Longrightarrow> distinct (drawn_ids src p n)"
proof (induction n arbitrary: p)
  case (Suc n)
  have "src p \<notin> src ` {p + 3..}"
  proof
    assume "src p \<in> src ` {p + 3..}"
    then obtain n where "p + 3 \<le> n" and "src p = src n" by auto
    with injD [OF Suc.prems] show False by fastforce
  qed
  then show ?case using Suc drawn_ids_range [of src "p + 3" n] by auto
qed simp

lemma create_tasks_tables:
  assumes "create_tasks E qas ids w = (ids', w')"
  shows "ids' = ids @ drawn_ids (w_uuid_src w) (w_uuid_pos w) (length qas)
     \<and> w_tasks w' = w_tasks w @ map2 (new_task E) (drawn_ids (w_uuid_src w) (w_uuid_pos w) (length qas)) qas
     \<and> w_runs w' = w_runs w \<and> w_states w' = w_states w \<and> w_signals w' = w_signals w
     \<and> w_agents w' = w_agents w \<and> w_snapshots w' = w_snapshots w \<and> w_nonces w' = w_nonces w
     \<and> w_outbox w' = w_outbox w \<and> w_endpoints w' = w_endpoints w
     \<and> w_uuid_src w' = w_uuid_src w \<and> w_uuid_pos w' = w_uuid_pos w + 3 * length qas"
  using assms
proof (induction qas arbitrary: ids w)
  case Nil
  then show ?case by simp
next
  case (Cons qa qas)
  let ?id = "w_uuid_src w (w_uuid_pos w)"
  let ?w1 = "add_orchestration_event (pe_now E) ''TASK_CREATED'' (pe_correlation E)
    (pe_causation E) (pe_run_id E) (Some ?id) (Some (ra_agent_id (snd qa)))
    (Some (pe_snapshot_id E)) ACCEPTED None
    [(''capability'', PyStr (rq_capability (fst qa)))]
    (add_task (new_task E ?id qa) (w\<lparr>w_uuid_pos := Suc (w_uuid_pos w)\<rparr>))"
  from Cons.prems have "create_tasks E qas (ids @ [?id]) ?w1 = (ids', w')"
    by (simp add: uuid4_def Let_def)
  from Cons.IH [OF this] show ?case
    by (simp add: add_task_def numeral_3_eq_3)
qed

lemma write_plan_tables:
  assumes "write_plan E trig qas mo w = (pl, w')"
  shows "\<exists>ids. pl_task_ids pl = ids
     \<and> ids = drawn_ids (w_uuid_src w) (w_uuid_pos w + 2) (length qas)
     \<and> pl_orchestration_run_id pl = pe_run_id E
     \<and> pl_status pl = r_status (new_run E trig mo)
     \<and> pl_missing_required pl = pe_missing_required E \<and> pl_missing_optional pl = mo
     \<and> w_tasks w' = w_tasks w @ map2 (new_task E) ids qas
     \<and> w_runs w' = w_runs w @ [new_run E trig mo]
     \<and> w_states w' = w_states w \<and> w_signals w' = w_signals w
     \<and> w_agents w' = w_agents w \<and> w_snapshots w' = w_snapshots w \<and> w_nonces w' = w_nonces w
     \<and> w_outbox w' = w_outbox w \<and> w_endpoints w' = w_endpoints w
     \<and> w_uuid_src w' = w_uuid_src w
     \<and> w_uuid_pos w + 2 + 3 * length qas \<le> w_uuid_pos w'"
proof -
  let ?w1 = "add_orchestration_event (pe_now E) ''ORCHESTRATION_CREATED'' (pe_correlation E)
    (pe_causation E) (pe_run_id E) None None (Some (pe_snapshot_id E)) ACCEPTED None
    [(''asset'', PyStr (pe_asset E)), (''trigger_type'', PyStr trig)]
    (add_run (new_run E trig mo) w)"
  obtain ids w2 where ct: "create_tasks E qas [] ?w1 = (ids, w2)" by fastforce
  note tables = create_tasks_tables [OF ct]
  from assms ct tables show ?thesis
    by (auto simp: write_plan_def Let_def add_run_def new_run_def split: if_splits)
qed

text \<open>
  A supply of identifiers that are distinct and not in use: the documented behaviour of
  \<open>uuid4\<close> that the primary keys of runs and tasks rely on.
\<close>

definition fresh_supply :: "world \<Rightarrow> bool" where
  "fresh_supply w \<longleftrightarrow> inj (w_uuid_src w) \<and>
     (\<forall>n \<ge> w_uuid_pos w. w_uuid_src w n \<notin> t_task_id ` set (w_tasks w))"

lemma opt_uuid_world: "opt_uuid u w = (x, w') \<Longrightarrow> \<exists>p \<ge> w_uuid_pos w. w' = w\<lparr>w_uuid_pos := p\<rparr>"
  by (cases u) (auto simp: opt_uuid_def uuid4_def intro: exI [of _ "w_uuid_pos w"]
      exI [of _ "Suc (w_uuid_pos w)"])

text \<open>The two ways in which \<open>create\<close> returns.\<close>

definition plan_env_of ::
    "instant \<Rightarrow> uuid \<Rightarrow> uuid \<Rightarrow> uuid option \<Rightarrow> uuid \<Rightarrow> string \<Rightarrow> orchestration_policy \<Rightarrow> pyval \<Rightarrow>
     string list \<Rightarrow> plan_env" where
  "plan_env_of now run_id correlation causation_id snapshot_id asset policy context mr =
     \<lparr>pe_now = now, pe_run_id = run_id, pe_correlation = correlation,
      pe_causation = causation_id, pe_snapshot_id = snapshot_id, pe_asset = asset,
      pe_policy = policy, pe_context = context,
      pe_collection_deadline = now + seconds (po_collection_timeout_seconds policy),
      pe_missing_required = mr\<rparr>"

lemma create_plan_inv:
  assumes "create_plan collate now sid asset trig policy ctx rid corr caus w = Inr (pl, w')"
  obtains (existing) run_id run p where
      "get_run run_id w = Some run" "pl = existing_plan run w" "w' = w\<lparr>w_uuid_pos := p\<rparr>"
      "w_uuid_pos w \<le> p" "rid = None \<or> rid = Some run_id"
  | (created) run_id correlation p snap bctx where
      "trig = ''MANUAL'' \<or> trig = ''TEST''"
      "get_run run_id w = None" "w_uuid_pos w \<le> p" "rid = None \<or> rid = Some run_id"
      "get_snapshot sid w = Some snap" "sn_status snap = S_OPEN" "now < sn_expires_at snap"
      "write_plan (plan_env_of now run_id correlation caus sid asset policy bctx
           (map rq_capability (filter (\<lambda>q. shortfall collate w asset q \<and> rq_required q)
              (po_requirements policy))))
         trig (planned_assignments collate w asset (po_requirements policy))
         (map rq_capability (filter (\<lambda>q. shortfall collate w asset q \<and> \<not> rq_required q)
            (po_requirements policy)))
         (w\<lparr>w_uuid_pos := p\<rparr>) = (pl, w')"
proof -
  from assms have trig: "trig = ''MANUAL'' \<or> trig = ''TEST''"
    by (auto simp: create_plan_def)
  from assms obtain bctx where
      "validate_bounded_json default_limits (case ctx of None \<Rightarrow> PyMap [] | Some c \<Rightarrow> c) = Inr bctx"
    by (auto simp: create_plan_def split: sum.splits)
  note bctx = this
  obtain run_id w1 where u1: "opt_uuid rid w = (run_id, w1)" by fastforce
  obtain correlation w2 where u2: "opt_uuid corr w1 = (correlation, w2)" by fastforce
  obtain p where w2: "w2 = w\<lparr>w_uuid_pos := p\<rparr>" and p: "w_uuid_pos w \<le> p"
    using opt_uuid_world [OF u1] opt_uuid_world [OF u2] by auto
  have rid: "rid = None \<or> rid = Some run_id"
    using u1 by (auto simp: opt_uuid_def split: option.splits)
  have frame: "get_run k w2 = get_run k w" "get_snapshot k w2 = get_snapshot k w"
    "existing_plan run w2 = existing_plan run w" for k run
    by (simp_all add: w2 world_defs existing_plan_def)
  have plan: "plan_requirements collate w2 = plan_requirements collate w"
  proof -
    have "select_agents collate w2 = select_agents collate w"
      by (simp add: w2 select_agents_def registry_rows_def fun_eq_iff)
    then show ?thesis
      by (simp add: fun_eq_iff plan_requirements_eq shortfall_def planned_assignments_def)
  qed
  let ?E = "plan_env_of now run_id correlation caus sid asset policy bctx
    (map rq_capability (filter (\<lambda>q. shortfall collate w asset q \<and> rq_required q) (po_requirements policy)))"
  have eq: "create_plan collate now sid asset trig policy ctx rid corr caus w =
    (case get_run run_id w of
       Some run \<Rightarrow> Inr (existing_plan run w, w2)
     | None \<Rightarrow> (case get_snapshot sid w of
         None \<Rightarrow> Inl (PlanningError ''SNAPSHOT_NOT_FOUND'' ''snapshot does not exist'')
       | Some snap \<Rightarrow> guard (sn_status snap \<noteq> S_OPEN \<or> sn_expires_at snap \<le> now)
           (PlanningError ''SNAPSHOT_NOT_ELIGIBLE'' ''snapshot is not open and current'')
           (Inr (write_plan ?E trig (planned_assignments collate w asset (po_requirements policy))
              (map rq_capability (filter (\<lambda>q. shortfall collate w asset q \<and> \<not> rq_required q)
                 (po_requirements policy))) w2))))"
  proof -
    have ok: "(trig \<noteq> ''MANUAL'' \<and> trig \<noteq> ''TEST'') = False" using trig by blast
    show ?thesis unfolding create_plan_def ok guard_False bctx
      by (cases "get_run run_id w"; cases "get_snapshot sid w")
        (simp_all add: u1 u2 frame plan plan_requirements_eq plan_env_of_def)
  qed
  show ?thesis
  proof (cases "get_run run_id w")
    case (Some run)
    with assms eq have "pl = existing_plan run w" and "w' = w\<lparr>w_uuid_pos := p\<rparr>"
      using w2 by simp_all
    with Some p rid show ?thesis by (intro existing [of run_id run p])
  next
    case None
    with assms eq obtain snap where snap: "get_snapshot sid w = Some snap"
      by (auto split: option.splits)
    with assms eq None have "sn_status snap = S_OPEN" "now < sn_expires_at snap"
      and "write_plan ?E trig (planned_assignments collate w asset (po_requirements policy))
        (map rq_capability (filter (\<lambda>q. shortfall collate w asset q \<and> \<not> rq_required q)
          (po_requirements policy))) w2 = (pl, w')"
      by auto
    with None trig snap p rid show ?thesis
      unfolding w2 by (intro created [of run_id p snap correlation bctx])
  qed
qed

section \<open>A created plan satisfies the schema\<close>

lemma planned_assignments_mem:
  "(q, r) \<in> set (planned_assignments collate w asset qs) \<longleftrightarrow>
   q \<in> set qs \<and> r \<in> set (select_agents collate w asset (rq_capability q) (rq_max_agents q))"
  by (auto simp: planned_assignments_def)

lemma planned_assignments_distinct:
  assumes "schema_ok w" and "distinct (map rq_capability qs)"
  shows "distinct (map (\<lambda>(q, r). (rq_capability q, ra_agent_id r)) (planned_assignments collate w asset qs))"
proof -
  let ?g = "\<lambda>q. map (\<lambda>r. (rq_capability q, ra_agent_id r))
    (select_agents collate w asset (rq_capability q) (rq_max_agents q))"
  have "distinct (?g q)" for q
    using select_agents_distinct [OF assms(1), of collate asset "rq_capability q" "rq_max_agents q"]
    by (simp add: distinct_map inj_on_def)
  then have "distinct (concat (map ?g qs))"
    by (intro distinct_concat_keyed [OF assms(2), where h = fst, THEN conjunct1]) auto
  moreover have "map (\<lambda>(q, r). (rq_capability q, ra_agent_id r)) (planned_assignments collate w asset qs)
      = concat (map ?g qs)"
    by (simp add: planned_assignments_def map_concat comp_def)
  ultimately show ?thesis by simp
qed

lemma new_task_simps [simp]:
  "t_task_id (new_task E k qa) = k"
  "t_orchestration_run_id (new_task E k qa) = pe_run_id E"
  "t_snapshot_id (new_task E k qa) = pe_snapshot_id E"
  "t_agent_id (new_task E k qa) = ra_agent_id (snd qa)"
  "t_asset (new_task E k qa) = pe_asset E"
  "t_required_capability (new_task E k qa) = rq_capability (fst qa)"
  "t_status (new_task E k qa) = (if pe_missing_required E \<noteq> [] then CANCELLED else PENDING)"
  "t_signal_deadline (new_task E k qa) =
     min (pe_now E + seconds (po_signal_timeout_seconds (pe_policy E))) (pe_collection_deadline E)"
  "t_lease_owner (new_task E k qa) = None" "t_lease_until (new_task E k qa) = None"
  by (simp_all add: new_task_def Let_def split: prod.splits)

lemma new_task_checks:
  assumes "valid_policy (pe_policy E)"
    and "pe_collection_deadline E = pe_now E + seconds (po_collection_timeout_seconds (pe_policy E))"
  shows "task_checks (new_task E k qa)"
  using assms by (auto simp: task_checks_def new_task_def valid_policy_def Let_def split: prod.splits)

lemma map2_map_left:
  "length ks = length qas \<Longrightarrow> (\<And>k qa. f (new_task E k qa) = k) \<Longrightarrow> map f (map2 (new_task E) ks qas) = ks"
  by (induction ks qas rule: list_induct2) auto

lemma map2_map_right:
  "length ks = length qas \<Longrightarrow> (\<And>k qa. f (new_task E k qa) = g qa) \<Longrightarrow>
   map f (map2 (new_task E) ks qas) = map g qas"
  by (induction ks qas rule: list_induct2) auto

lemma map2_mem:
  "t \<in> set (map2 (new_task E) ks qas) \<Longrightarrow> \<exists>k \<in> set ks. \<exists>qa \<in> set qas. t = new_task E k qa"
  by (auto dest: set_zip_leftD set_zip_rightD)

lemma distinct_map_appendI:
  "distinct (map f xs) \<Longrightarrow> distinct (map f ys) \<Longrightarrow> (\<And>y. y \<in> set ys \<Longrightarrow> f y \<notin> f ` set xs) \<Longrightarrow>
   distinct (map f (xs @ ys))"
  unfolding map_append distinct_append set_map disjoint_iff by (metis imageE)

lemma refs_ok_extend:
  assumes "refs_ok w" and tabs: "w_tasks w' = w_tasks w @ ts" "w_runs w' = w_runs w @ [r]"
    "w_states w' = w_states w" "w_signals w' = w_signals w" "w_agents w' = w_agents w"
    "w_snapshots w' = w_snapshots w" "w_nonces w' = w_nonces w" "w_endpoints w' = w_endpoints w"
    and "r_snapshot_id r \<in> sn_snapshot_id ` set (w_snapshots w)"
    and "\<And>t. t \<in> set ts \<Longrightarrow> t_orchestration_run_id t = r_orchestration_run_id r
      \<and> t_snapshot_id t = r_snapshot_id r \<and> t_agent_id t \<in> ag_agent_id ` set (w_agents w)"
  shows "refs_ok w'"
  using assms unfolding refs_ok_def tabs set_append image_Un ball_Un by simp

lemma write_plan_schema:
  assumes wp: "write_plan E trig qas mo w = (pl, w')"
    and ok: "schema_ok w" and fresh: "fresh_supply w" and policy: "valid_policy (pe_policy E)"
    and deadline: "pe_collection_deadline E = pe_now E + seconds (po_collection_timeout_seconds (pe_policy E))"
    and trig: "trig = ''MANUAL'' \<or> trig = ''TEST''"
    and new: "get_run (pe_run_id E) w = None" and snap: "get_snapshot (pe_snapshot_id E) w = Some snap"
    and agents: "\<And>q r. (q, r) \<in> set qas \<Longrightarrow> ra_agent_id r \<in> ag_agent_id ` set (w_agents w)"
    and unique: "distinct (map (\<lambda>(q, r). (rq_capability q, ra_agent_id r)) qas)"
  shows "schema_ok w'"
proof -
  let ?ids = "drawn_ids (w_uuid_src w) (w_uuid_pos w + 2) (length qas)"
  let ?new = "map2 (new_task E) ?ids qas"
  from write_plan_tables [OF wp] have tabs: "w_tasks w' = w_tasks w @ ?new"
    "w_runs w' = w_runs w @ [new_run E trig mo]" "w_states w' = w_states w"
    "w_signals w' = w_signals w" "w_agents w' = w_agents w" "w_snapshots w' = w_snapshots w"
    "w_nonces w' = w_nonces w" "w_outbox w' = w_outbox w" "w_endpoints w' = w_endpoints w"
    by auto
  have runs: "pe_run_id E \<notin> r_orchestration_run_id ` set (w_runs w)"
    using new by (simp add: get_run_def row_get_None_iff)
  have snaps: "pe_snapshot_id E \<in> sn_snapshot_id ` set (w_snapshots w)"
    using row_get_SomeD [OF snap [unfolded get_snapshot_def]] by (metis imageI)
  have new_keys: "map t_task_id ?new = ?ids" by (rule map2_map_left) simp_all
  have ids: "distinct ?ids" "set ?ids \<inter> t_task_id ` set (w_tasks w) = {}"
  proof -
    show "distinct ?ids" using fresh by (simp add: fresh_supply_def drawn_ids_distinct)
    have unused: "w_uuid_src w n \<notin> t_task_id ` set (w_tasks w)" if "w_uuid_pos w + 2 \<le> n" for n
      using fresh that by (simp add: fresh_supply_def)
    show "set ?ids \<inter> t_task_id ` set (w_tasks w) = {}"
    proof (rule equals0I, elim IntE)
      fix x assume x: "x \<in> set ?ids" "x \<in> t_task_id ` set (w_tasks w)"
      from subsetD [OF drawn_ids_range x(1)] obtain n where "x = w_uuid_src w n"
        and "w_uuid_pos w + 2 \<le> n" by blast
      with unused x(2) show False by simp
    qed
  qed
  have new_assign: "map assignment_key ?new =
      map (\<lambda>qa. (pe_run_id E, ra_agent_id (snd qa), pe_asset E, rq_capability (fst qa))) qas"
    by (rule map2_map_right) (simp_all add: assignment_key_def)
  have "distinct (map assignment_key ?new)"
    using unique unfolding new_assign by (auto simp: distinct_map inj_on_def split: prod.splits)
  moreover have "assignment_key t \<notin> assignment_key ` set (w_tasks w)" if "t \<in> set ?new" for t
    using ok runs map2_mem [OF that] by (force simp: schema_ok_def refs_ok_def assignment_key_def)
  ultimately have assign: "distinct (map assignment_key (w_tasks w @ ?new))"
    using ok by (intro distinct_map_appendI) (simp_all add: schema_ok_def keys_ok_def)
  have "distinct (map t_task_id (w_tasks w @ ?new))"
    using ok ids unfolding map_append new_keys by (simp add: schema_ok_def keys_ok_def inf_commute)
  with assign ok runs have keys: "keys_ok w'"
    by (simp add: schema_ok_def keys_ok_def tabs new_run_def Let_def)
  have new: "t_orchestration_run_id t = pe_run_id E \<and> t_snapshot_id t = pe_snapshot_id E
      \<and> t_agent_id t \<in> ag_agent_id ` set (w_agents w) \<and> task_checks t" if "t \<in> set ?new" for t
  proof -
    from map2_mem [OF that] obtain k q r where qr: "(q, r) \<in> set qas" and t: "t = new_task E k (q, r)"
      by auto
    from agents [OF qr] new_task_checks [OF policy deadline] show ?thesis unfolding t by simp
  qed
  have refs: "refs_ok w'"
    by (rule refs_ok_extend [OF _ tabs(1,2,3,4,5,6,7,9)])
      (use ok snaps new in \<open>simp_all add: schema_ok_def new_run_def Let_def\<close>)
  have "\<forall>t \<in> set ?new. task_checks t" using new by blast
  then have "list_all task_checks (w_tasks w')"
    using ok unfolding tabs list_all_iff set_append ball_Un schema_ok_def checks_ok_def by blast
  moreover have "run_checks (new_run E trig mo)"
    using trig policy deadline by (auto simp: run_checks_def new_run_def valid_policy_def Let_def)
  ultimately have checks: "checks_ok w'"
    using ok by (simp add: schema_ok_def checks_ok_def tabs)
  from keys refs checks show ?thesis by (simp add: schema_ok_def)
qed

section \<open>Properties\<close>

text \<open>How many registry agents a requirement can be given.\<close>

definition quorum_capacity :: "world \<Rightarrow> string \<Rightarrow> capability_requirement \<Rightarrow> nat" where
  "quorum_capacity w asset q =
     (let n = card {a. authorised w a (rq_capability q) asset}
      in case rq_max_agents q of None \<Rightarrow> n | Some m \<Rightarrow> min n m)"

definition lacking :: "world \<Rightarrow> string \<Rightarrow> capability_requirement \<Rightarrow> bool" where
  "lacking w asset q \<longleftrightarrow> quorum_capacity w asset q < rq_minimum_responses q"

lemma select_agents_all:
  "ra_agent_id ` set (select_agents collate w asset capability None) = {a. authorised w a capability asset}"
proof (rule set_eqI, rule iffI)
  fix a assume "a \<in> ra_agent_id ` set (select_agents collate w asset capability None)"
  then show "a \<in> {a. authorised w a capability asset}"
    using select_agents_authorised [of _ collate w asset capability None] by auto
next
  fix a assume "a \<in> {a. authorised w a capability asset}"
  then obtain ag e where "(ag, e) \<in> set (registry_rows w)" "ag_agent_id ag = a"
    "capability \<in> set (ag_capabilities ag)" "asset \<in> set (ag_supported_assets ag)"
    by (auto simp: authorised_def registry_rows_mem)
  then show "a \<in> ra_agent_id ` set (select_agents collate w asset capability None)"
    by (force simp: select_agents_def Let_def image_iff)
qed

lemma length_select_agents:
  assumes "schema_ok w"
  shows "length (select_agents collate w asset (rq_capability q) (rq_max_agents q)) = quorum_capacity w asset q"
proof -
  let ?all = "select_agents collate w asset (rq_capability q) None"
  have "length ?all = card (set (map ra_agent_id ?all))"
    using distinct_card [OF select_agents_distinct [OF assms, of collate asset "rq_capability q" None]]
    by simp
  also have "\<dots> = card {a. authorised w a (rq_capability q) asset}" by (simp add: select_agents_all)
  finally show ?thesis
    by (cases "rq_max_agents q") (simp_all add: quorum_capacity_def select_agents_def Let_def)
qed

lemma shortfall_lacking: "schema_ok w \<Longrightarrow> shortfall collate w asset = lacking w asset"
  by (simp add: fun_eq_iff shortfall_def lacking_def length_select_agents)

lemma plan_env_of_simps [simp]:
  "pe_now (plan_env_of n r c ca s a p x mr) = n" "pe_run_id (plan_env_of n r c ca s a p x mr) = r"
  "pe_correlation (plan_env_of n r c ca s a p x mr) = c"
  "pe_snapshot_id (plan_env_of n r c ca s a p x mr) = s" "pe_asset (plan_env_of n r c ca s a p x mr) = a"
  "pe_policy (plan_env_of n r c ca s a p x mr) = p"
  "pe_collection_deadline (plan_env_of n r c ca s a p x mr) = n + seconds (po_collection_timeout_seconds p)"
  "pe_missing_required (plan_env_of n r c ca s a p x mr) = mr"
  by (simp_all add: plan_env_of_def)

text \<open>The tables after a new plan, read off the inversion of \<open>create_plan\<close>.\<close>

lemma create_plan_new:
  assumes "create_plan collate now sid asset trig policy ctx rid corr caus w = Inr (pl, w')"
    and "get_run (pl_orchestration_run_id pl) w = None"
  obtains correlation bctx mr mo p snap ids E where
    "mr = map rq_capability (filter (\<lambda>q. shortfall collate w asset q \<and> rq_required q) (po_requirements policy))"
    "mo = map rq_capability (filter (\<lambda>q. shortfall collate w asset q \<and> \<not> rq_required q) (po_requirements policy))"
    "E = plan_env_of now (pl_orchestration_run_id pl) correlation caus sid asset policy bctx mr"
    "write_plan E trig (planned_assignments collate w asset (po_requirements policy)) mo
       (w\<lparr>w_uuid_pos := p\<rparr>) = (pl, w')"
    "w_uuid_pos w \<le> p" "trig = ''MANUAL'' \<or> trig = ''TEST''" "get_snapshot sid w = Some snap"
    "pl_task_ids pl = ids" "length ids = length (planned_assignments collate w asset (po_requirements policy))"
    "pl_missing_required pl = mr" "pl_missing_optional pl = mo"
    "pl_status pl = r_status (new_run E trig mo)"
    "w_runs w' = w_runs w @ [new_run E trig mo]"
    "w_tasks w' = w_tasks w @ map2 (new_task E) ids (planned_assignments collate w asset (po_requirements policy))"
  using assms(1)
proof (cases rule: create_plan_inv)
  case (existing run_id run p)
  then have "r_orchestration_run_id run = run_id" using get_run_SomeD by blast
  with existing assms(2) have False by (simp add: existing_plan_def)
  then show ?thesis ..
next
  case (created run_id correlation p snap bctx)
  from write_plan_tables [OF created(8)] have "run_id = pl_orchestration_run_id pl" by auto
  with created write_plan_tables [OF created(8)] show ?thesis
    by (intro that [OF refl refl refl, of correlation bctx p snap]) auto
qed

lemma registry_schema: "schema_ok registry_world" "fresh_supply registry_world"
  by (simp_all add: schema_ok_def keys_ok_def refs_ok_def checks_ok_def fresh_supply_def sample_worlds
      sample_rows inj_def)

definition sample_plan_call :: "world \<Rightarrow> plan_error + (orchestration_plan \<times> world)" where
  "sample_plan_call w = create_plan (\<lambda>s. rat_of_nat (length s)) 0 900 ''ETH'' ''TEST'' sample_policy None
     (Some 700) (Some 701) None w"

definition sample_planned :: "orchestration_plan \<times> world" where
  "sample_planned = projr (sample_plan_call registry_world)"

lemma sample_plan_runs:
  "case sample_plan_call registry_world of
     Inl _ \<Rightarrow> False
   | Inr (pl, w) \<Rightarrow> pl_orchestration_run_id pl = 700 \<and> pl_task_ids pl = [1002]
       \<and> map t_task_id (w_tasks w) = [1002] \<and> map r_orchestration_run_id (w_runs w) = [700]"
  apply (simp add: sample_plan_call_def create_plan_def validate_bounded_json_def default_limits_def walk.simps opt_uuid_def Let_def guard_def)
  apply (simp add: sample_worlds world_defs sample_snapshot_def guard_def)
  apply (simp add:  sample_policy_def select_agents_def registry_rows_def sample_rows)
  apply (simp add: write_plan_def uuid4_def metric_increment_def add_run_def add_task_def
      add_orchestration_event_def add_audit_def new_run_def new_task_def Let_def)
  done

lemma sample_plan_returns:
  "sample_plan_call registry_world = Inr (fst sample_planned, snd sample_planned)"
  "map t_task_id (w_tasks (snd sample_planned)) = [1002]"
  "pl_orchestration_run_id (fst sample_planned) = 700"
  "map r_orchestration_run_id (w_runs (snd sample_planned)) = [700]"
  using sample_plan_runs by (auto simp: sample_planned_def split: sum.splits prod.splits)

lemma sample_plan_replay:
  "get_run 700 w = Some run \<Longrightarrow> sample_plan_call w = Inr (existing_plan run w, w)"
  by (simp add: sample_plan_call_def create_plan_def validate_bounded_json_def default_limits_def
      walk.simps opt_uuid_def Let_def guard_def)

text \<open>Only reviewed agents get work: every task that planning creates belongs to the
  planned run, asset and snapshot, asks for a capability of the policy, and is assigned to an
  enabled agent with an enabled endpoint that the registry lists for this capability and asset.\<close>

theorem create_plan_authorised:
  assumes "create_plan collate now sid asset trig policy ctx rid corr caus w = Inr (pl, w')"
    and "t \<in> set (w_tasks w')" and "t \<notin> set (w_tasks w)"
  shows "authorised w (t_agent_id t) (t_required_capability t) (t_asset t)
     \<and> t_required_capability t \<in> rq_capability ` set (po_requirements policy)
     \<and> t_asset t = asset \<and> t_snapshot_id t = sid
     \<and> t_orchestration_run_id t = pl_orchestration_run_id pl"
  using assms(1)
proof (cases rule: create_plan_inv)
  case (existing run_id run p)
  with assms(2,3) show ?thesis by simp
next
  case (created run_id correlation p snap bctx)
  let ?qas = "planned_assignments collate w asset (po_requirements policy)"
  from write_plan_tables [OF created(8)] have run: "pl_orchestration_run_id pl = run_id" by auto
  have "\<exists>E mo. pe_run_id E = run_id \<and> pe_asset E = asset \<and> pe_snapshot_id E = sid
      \<and> write_plan E trig ?qas mo (w\<lparr>w_uuid_pos := p\<rparr>) = (pl, w')"
    by (rule exI, rule exI, intro conjI) (rule plan_env_of_simps created(8))+
  then obtain E mo where E: "pe_run_id E = run_id" "pe_asset E = asset" "pe_snapshot_id E = sid"
    and wp: "write_plan E trig ?qas mo (w\<lparr>w_uuid_pos := p\<rparr>) = (pl, w')"
    by blast
  obtain ids where "w_tasks w' = w_tasks w @ map2 (new_task E) ids ?qas"
    using write_plan_tables [OF wp] by auto
  with assms(2,3) have "t \<in> set (map2 (new_task E) ids ?qas)" by auto
  from map2_mem [OF this] obtain k q r where t: "t = new_task E k (q, r)" and qr: "(q, r) \<in> set ?qas"
    by auto
  from qr have "q \<in> set (po_requirements policy)"
    and "r \<in> set (select_agents collate w asset (rq_capability q) (rq_max_agents q))"
    by (simp_all add: planned_assignments_mem)
  with select_agents_authorised [OF this(2)] show ?thesis by (simp add: t E run)
qed

theorem create_plan_authorised_witness:
  "list_all (\<lambda>t. authorised registry_world (t_agent_id t) ''technical'' ''ETH'') (w_tasks (snd sample_planned))"
  unfolding list_all_iff
proof
  fix t assume t: "t \<in> set (w_tasks (snd sample_planned))"
  have "t \<notin> set (w_tasks registry_world)" by (simp add: sample_worlds)
  with create_plan_authorised [OF sample_plan_returns(1) [unfolded sample_plan_call_def] t]
  show "authorised registry_world (t_agent_id t) ''technical'' ''ETH''"
    by (auto simp: sample_rows authorised_def sample_worlds)
qed

text \<open>C18 What a new plan decides: the missing required (optional) capabilities are those
  requirements for which the registry, capped by \<open>max_agents\<close>, offers fewer agents than
  \<open>minimum_responses\<close>.  If a required one is missing the run is stored as CRITICAL with outcome
  INSUFFICIENT_DATA and every task as CANCELLED; otherwise the run is DISPATCHING and every
  task PENDING, unleased and with no attempt made.\<close>

theorem create_plan_decision:
  assumes "create_plan collate now sid asset trig policy ctx rid corr caus w = Inr (pl, w')"
    and "get_run (pl_orchestration_run_id pl) w = None" and "schema_ok w"
  shows "pl_missing_required pl =
           map rq_capability (filter (\<lambda>q. lacking w asset q \<and> rq_required q) (po_requirements policy))
     \<and> pl_missing_optional pl =
           map rq_capability (filter (\<lambda>q. lacking w asset q \<and> \<not> rq_required q) (po_requirements policy))
     \<and> (\<exists>run new. w_runs w' = w_runs w @ [run] \<and> w_tasks w' = w_tasks w @ new
          \<and> r_orchestration_run_id run = pl_orchestration_run_id pl \<and> r_status run = pl_status pl
          \<and> map t_task_id new = pl_task_ids pl
          \<and> (if pl_missing_required pl \<noteq> []
             then r_status run = R_CRITICAL \<and> r_outcome run = Some O_INSUFFICIENT_DATA
                  \<and> r_completed_at run = Some now \<and> (\<forall>t \<in> set new. t_status t = CANCELLED)
             else r_status run = R_DISPATCHING \<and> r_outcome run = None \<and> r_completed_at run = None
                  \<and> (\<forall>t \<in> set new. t_status t = PENDING \<and> t_lease_owner t = None
                        \<and> t_attempt_count t = 0 \<and> t_dispatch_after t = now)))"
  using assms(1,2)
proof (cases rule: create_plan_new)
  case (1 correlation bctx mr mo p snap ids E)
  define new where "new = map2 (new_task E) ids (planned_assignments collate w asset (po_requirements policy))"
  have E: "pe_missing_required E = mr" "pe_now E = now" "pe_run_id E = pl_orchestration_run_id pl"
    by (simp_all add: 1(3))
  have tasks: "t_status t = (if mr \<noteq> [] then CANCELLED else PENDING) \<and> t_lease_owner t = None
      \<and> t_attempt_count t = 0 \<and> t_dispatch_after t = now" if "t \<in> set new" for t
    using map2_mem [OF that [unfolded new_def]] E by (auto simp: new_task_def Let_def split: prod.splits)
  have run: "r_orchestration_run_id (new_run E trig mo) = pl_orchestration_run_id pl"
    "r_status (new_run E trig mo) = (if mr \<noteq> [] then R_CRITICAL else R_DISPATCHING)"
    "r_outcome (new_run E trig mo) = (if mr \<noteq> [] then Some O_INSUFFICIENT_DATA else None)"
    "r_completed_at (new_run E trig mo) = (if mr \<noteq> [] then Some now else None)"
    by (simp_all add: new_run_def Let_def E)
  have ids: "map t_task_id new = pl_task_ids pl"
    unfolding new_def 1(8) by (rule map2_map_left) (simp_all add: 1(9))
  note missing = 1(1,2) [unfolded shortfall_lacking [OF assms(3)], symmetric]
  show ?thesis
    unfolding missing
    by (intro conjI exI [of _ "new_run E trig mo"] exI [of _ new])
      (use 1(10-14) run ids tasks in \<open>simp_all add: new_def [symmetric]\<close>)
qed

theorem create_plan_decision_witness:
  "pl_missing_required (fst sample_planned) = []
   \<and> (\<exists>run new. w_runs (snd sample_planned) = [run] \<and> r_status run = R_DISPATCHING
        \<and> w_tasks (snd sample_planned) = new \<and> list_all (\<lambda>t. t_status t = PENDING) new)"
proof -
  have auth: "{a. authorised registry_world a ''technical'' ''ETH''} = {''ETH_TECH''}"
    by (auto simp: authorised_def sample_worlds sample_rows)
  have lack: "\<not> lacking registry_world ''ETH'' required_technical"
    using auth by (simp add: lacking_def quorum_capacity_def required_technical_def)
  have none: "get_run (pl_orchestration_run_id (fst sample_planned)) registry_world = None"
    by (simp add: sample_worlds world_defs)
  note dec = create_plan_decision [OF sample_plan_returns(1) [unfolded sample_plan_call_def] none registry_schema(1)]
  have all: "pl_missing_required (fst sample_planned) = []"
    unfolding dec [THEN conjunct1] using lack by (simp add: sample_policy_def optional_macro_def)
  with dec show ?thesis by (auto simp: sample_worlds list_all_iff)
qed

lemma create_plan_keeps_schema:
  assumes "create_plan collate now sid asset trig policy ctx rid corr caus w = Inr (pl, w')"
    and "schema_ok w" and "fresh_supply w" and "valid_policy policy"
  shows "schema_ok w'"
  using assms(1)
proof (cases rule: create_plan_inv)
  case (existing run_id run p)
  with assms(2) show ?thesis by (simp add: schema_ok_def keys_ok_def refs_ok_def checks_ok_def)
next
  case (created run_id correlation p snap bctx)
  let ?w = "w\<lparr>w_uuid_pos := p\<rparr>"
  have ok: "schema_ok ?w" "fresh_supply ?w"
    using assms(2,3) created(3)
    by (simp_all add: schema_ok_def keys_ok_def refs_ok_def checks_ok_def fresh_supply_def)
  show ?thesis
  proof (rule write_plan_schema [OF created(8) ok])
    show "get_run (pe_run_id (plan_env_of now run_id correlation caus sid asset policy bctx
           (map rq_capability (filter (\<lambda>q. shortfall collate w asset q \<and> rq_required q)
              (po_requirements policy))))) ?w = None"
      using created(2) by (simp add: world_defs)
    show "get_snapshot (pe_snapshot_id (plan_env_of now run_id correlation caus sid asset policy bctx
           (map rq_capability (filter (\<lambda>q. shortfall collate w asset q \<and> rq_required q)
              (po_requirements policy))))) ?w = Some snap"
      using created(5) by (simp add: world_defs)
    show "distinct (map (\<lambda>(q, r). (rq_capability q, ra_agent_id r))
        (planned_assignments collate w asset (po_requirements policy)))"
      by (rule planned_assignments_distinct [OF assms(2)]) (use assms(4) in \<open>simp add: valid_policy_def\<close>)
    fix q r assume "(q, r) \<in> set (planned_assignments collate w asset (po_requirements policy))"
    then have "authorised w (ra_agent_id r) (rq_capability q) asset"
      unfolding planned_assignments_mem by (blast dest: select_agents_authorised)
    then show "ra_agent_id r \<in> ag_agent_id ` set (w_agents ?w)"
      by (force simp: authorised_def)
  qed (use assms(4) created(1) in simp_all)
qed

text \<open>Planning keeps every constraint of the schema: primary and unique keys (a run is
  never planned twice, an agent gets one task per run, asset and capability), foreign keys and
  CHECK constraints, so the transaction of a plan that \<open>create\<close> returns commits.\<close>

theorem create_plan_schema:
  assumes "create_plan collate now sid asset trig policy ctx rid corr caus w = Inr (pl, w')"
    and "schema_ok w" and "fresh_supply w" and "valid_policy policy"
  shows "schema_ok w'"
  by (rule create_plan_keeps_schema [OF assms])

theorem create_plan_schema_witness: "schema_ok (snd sample_planned)"
  by (rule create_plan_schema [OF sample_plan_returns(1) [unfolded sample_plan_call_def]
      registry_schema sample_policy_valid])

text \<open>Planning is idempotent in the run identifier: repeating \<open>create\<close> with the identifier of
  a run that was planned, whatever the other arguments, creates nothing and answers with the
  stored plan: the same missing capabilities and status, and the same tasks in identifier
  order.\<close>

theorem create_plan_idempotent:
  assumes "create_plan collate now sid asset trig policy ctx (Some rid) corr caus w = Inr (pl, w')"
    and "get_run rid w = None" and "schema_ok w"
    and "create_plan collate' now' sid' asset' trig' policy' ctx' (Some rid) corr' caus' w' = Inr (pl2, w2)"
  shows "(\<exists>p. w2 = w'\<lparr>w_uuid_pos := p\<rparr>)
     \<and> pl2 = pl\<lparr>pl_task_ids := sort (pl_task_ids pl)\<rparr>"
proof -
  have rid: "pl_orchestration_run_id pl = rid"
    using assms(1)
  proof (cases rule: create_plan_inv)
    case (created run_id correlation p snap bctx)
    from write_plan_tables [OF created(8)] created(4) show ?thesis by auto
  qed (use assms(2) in auto)
  with assms(2) have none: "get_run (pl_orchestration_run_id pl) w = None" by simp
  show ?thesis
    using assms(1) none
  proof (cases rule: create_plan_new)
    case (1 correlation bctx mr mo p snap ids E)
    define R where "R = new_run E trig mo"
    have R: "r_orchestration_run_id R = rid" "rm_missing_required (r_metadata R) = mr"
      "rm_missing_optional (r_metadata R) = mo"
      by (simp_all add: R_def new_run_def Let_def 1(3) rid)
    have "rid \<notin> r_orchestration_run_id ` set (w_runs w)"
      using assms(2) by (simp add: get_run_def row_get_None_iff)
    then have old: "filter (\<lambda>t. t_orchestration_run_id t = rid) (w_tasks w) = []"
      using assms(3) unfolding schema_ok_def refs_ok_def by (auto simp: filter_empty_conv)
    have run: "get_run rid w' = Some R"
      using assms(2) R(1) by (simp add: get_run_def 1(13) R_def [symmetric] row_get_append)
    have "filter (\<lambda>t. t_orchestration_run_id t = rid) (map2 (new_task E) ids
        (planned_assignments collate w asset (po_requirements policy)))
      = map2 (new_task E) ids (planned_assignments collate w asset (po_requirements policy))"
      by (rule filter_True) (auto dest!: map2_mem simp: 1(3) rid)
    then have tasks: "map t_task_id (filter (\<lambda>t. t_orchestration_run_id t = rid) (w_tasks w')) = ids"
      unfolding 1(14) filter_append old append_Nil
      by (simp only:) (rule map2_map_left, simp_all add: 1(9))
    have plan: "existing_plan R w' = pl\<lparr>pl_task_ids := sort (pl_task_ids pl)\<rparr>"
      using 1(8-12) by (simp add: existing_plan_def R tasks rid R_def [symmetric])
    from assms(4) show ?thesis
    proof (cases rule: create_plan_inv)
      case (existing run_id run p)
      with run plan show ?thesis by auto
    qed (use run in auto)
  qed
qed

theorem create_plan_idempotent_witness:
  "\<exists>p. sample_plan_call (snd sample_planned) =
     Inr ((fst sample_planned)\<lparr>pl_task_ids := sort (pl_task_ids (fst sample_planned))\<rparr>,
          (snd sample_planned)\<lparr>w_uuid_pos := p\<rparr>)"
proof -
  have none: "get_run 700 registry_world = None" by (simp add: sample_worlds world_defs)
  have "700 \<in> r_orchestration_run_id ` set (w_runs (snd sample_planned))"
    using sample_plan_returns(4) by (metis list.set_intros(1) list.set_map)
  then obtain run where "get_run 700 (snd sample_planned) = Some run"
    unfolding get_run_def by (metis not_None_eq row_get_None_iff)
  from sample_plan_replay [OF this] obtain pl where
    again: "sample_plan_call (snd sample_planned) = Inr (pl, snd sample_planned)" by blast
  from create_plan_idempotent [OF sample_plan_returns(1) [unfolded sample_plan_call_def] none
      registry_schema(1) again [unfolded sample_plan_call_def]]
  have "pl = (fst sample_planned)\<lparr>pl_task_ids := sort (pl_task_ids (fst sample_planned))\<rparr>" by blast
  with again show ?thesis by (intro exI [of _ "w_uuid_pos (snd sample_planned)"]) simp
qed

end
