(* ===== verification/Quorum.thy ===== *)
theory Quorum
  imports Task_Lifecycle Samples Binary64
begin

text \<open>
  \<open>src/tomiris_orchestrator/quorum.py\<close>: \<open>CompletenessEvaluator.evaluate\<close> decides whether a run
  is complete and with which outcome, in one transaction that locks the run.

  \<open>run_decision\<close> is an independent statement of the rule, by quantifiers over the policy and
  the tasks; the loop of the code is proved to compute it.
\<close>

section \<open>Definitions\<close>

record completeness_result =
  cr_status :: run_status
  cr_outcome :: "run_outcome option"
  cr_completed :: bool
  cr_received :: nat
  cr_expected :: nat
  cr_missing_capabilities :: "string list"

datatype quorum_error = RunNotFound uuid

text \<open>The statuses for which \<open>evaluate\<close> answers from the stored run.\<close>

definition decided_run :: "run_status \<Rightarrow> bool" where
  "decided_run s \<longleftrightarrow> s \<in> {R_FULL, R_DEGRADED, R_CRITICAL, R_FAILED, R_CANCELLED}"

definition run_tasks :: "uuid \<Rightarrow> world \<Rightarrow> agent_task list" where
  "run_tasks run_id w =
     sort_key t_task_id (filter (\<lambda>t. t_orchestration_run_id t = run_id) (w_tasks w))"

definition count_received :: "agent_task list \<Rightarrow> nat" where
  "count_received ts = length (filter (\<lambda>t. t_status t = SIGNAL_RECEIVED) ts)"

definition count_unfinished :: "agent_task list \<Rightarrow> nat" where
  "count_unfinished ts = length (filter (\<lambda>t. \<not> terminal (t_status t)) ts)"

definition capability_tasks :: "string \<Rightarrow> agent_task list \<Rightarrow> agent_task list" where
  "capability_tasks c ts = filter (\<lambda>t. t_required_capability t = c) ts"

definition failed_status :: "task_status \<Rightarrow> bool" where
  "failed_status s \<longleftrightarrow> s \<in> {TIMED_OUT, FAILED, CANCELLED, SKIPPED}"

fun scan_requirements ::
    "agent_task list \<Rightarrow> capability_requirement list \<Rightarrow> string list \<times> bool \<times> bool \<Rightarrow>
     string list \<times> bool \<times> bool" where
  "scan_requirements tasks [] acc = acc"
| "scan_requirements tasks (q # qs) (missing, impossible, critical_failure) =
     (let ts = capability_tasks (rq_capability q) tasks;
          received = count_received ts;
          unfinished = count_unfinished ts;
          short = rq_required q \<and> received < rq_minimum_responses q;
          missing = (if short then missing @ [rq_capability q] else missing);
          impossible = (impossible \<or> (short \<and> received + unfinished < rq_minimum_responses q));
          critical_failure =
            (critical_failure \<or> (rq_critical q \<and> list_ex (\<lambda>t. failed_status (t_status t)) ts))
      in scan_requirements tasks qs (missing, impossible, critical_failure))"

text \<open>The chain of conditions; \<open>None\<close> is the \<open>else\<close> branch, a run still collecting.\<close>

definition decide ::
    "instant \<Rightarrow> orchestration_run \<Rightarrow> agent_task list \<Rightarrow>
     string list \<times> (run_status \<times> run_outcome \<times> string option) option" where
  "decide now run tasks =
     (let (missing, impossible, critical_failure) =
            scan_requirements tasks (po_requirements (rm_policy (r_metadata run))) ([], False, False);
          deadline_reached = (r_collection_deadline run \<le> now);
          all_terminal = list_all (\<lambda>t. terminal (t_status t)) tasks;
          all_received = list_all (\<lambda>t. t_status t = SIGNAL_RECEIVED) tasks;
          missing_optional_plan = (rm_missing_optional (r_metadata run) \<noteq> [])
      in (missing,
          if missing \<noteq> [] \<and> (impossible \<or> deadline_reached \<or> all_terminal)
          then Some (R_CRITICAL, O_INSUFFICIENT_DATA, Some ''RUN_QUORUM_FAILED'')
          else if critical_failure
          then Some (R_CRITICAL, O_INSUFFICIENT_DATA, Some ''RUN_QUORUM_FAILED'')
          else if all_received \<and> \<not> missing_optional_plan
          then Some (R_FULL, O_FULL, None)
          else if all_terminal \<or> deadline_reached
          then Some (R_DEGRADED, O_DEGRADED, Some ''RUN_DEADLINE_EXCEEDED'')
          else None))"

definition observe_signal_latencies :: "agent_task list \<Rightarrow> world \<Rightarrow> world" where
  "observe_signal_latencies tasks w =
     foldl (\<lambda>w t. case (t_acknowledged_at t, t_signal_received_at t) of
              (Some ack, Some sig) \<Rightarrow>
                metric_observe ''agent_signal_latency'' (max 0 (fmul (total_seconds (sig - ack)) 1000)) w
            | _ \<Rightarrow> w) w tasks"

fun run_status_name :: "run_status \<Rightarrow> string" where
  "run_status_name R_FULL = ''FULL''"
| "run_status_name R_DEGRADED = ''DEGRADED''"
| "run_status_name R_CRITICAL = ''CRITICAL''"
| "run_status_name R_CREATED = ''CREATED''"
| "run_status_name R_DISPATCHING = ''DISPATCHING''"
| "run_status_name R_COLLECTING = ''COLLECTING''"
| "run_status_name R_FAILED = ''FAILED''"
| "run_status_name R_TIMED_OUT = ''TIMED_OUT''"
| "run_status_name R_CANCELLED = ''CANCELLED''"

definition outcome_counter :: "run_status \<Rightarrow> string" where
  "outcome_counter s =
     (if s = R_FULL then ''orchestration_full_total''
      else if s = R_DEGRADED then ''orchestration_degraded_total''
      else ''orchestration_critical_total'')"

definition result_from_run :: "orchestration_run \<Rightarrow> agent_task list \<Rightarrow> completeness_result" where
  "result_from_run run tasks =
     \<lparr>cr_status = r_status run, cr_outcome = r_outcome run,
      cr_completed = (r_completed_at run \<noteq> None), cr_received = count_received tasks,
      cr_expected = length tasks, cr_missing_capabilities = rm_missing_required (r_metadata run)\<rparr>"

definition evaluate :: "instant \<Rightarrow> uuid \<Rightarrow> world \<Rightarrow> quorum_error + (completeness_result \<times> world)" where
  "evaluate now run_id w =
     (case get_run run_id w of
        None \<Rightarrow> Inl (RunNotFound run_id)
      | Some run \<Rightarrow>
          let tasks = run_tasks run_id w
          in if decided_run (r_status run) then Inr (result_from_run run tasks, w)
             else (case decide now run tasks of
                (missing, None) \<Rightarrow>
                  Inr (\<lparr>cr_status = r_status run, cr_outcome = r_outcome run, cr_completed = False,
                        cr_received = count_received tasks, cr_expected = length tasks,
                        cr_missing_capabilities = missing\<rparr>, w)
              | (missing, Some (status, outcome, reason)) \<Rightarrow>
                  let w = put_run (run\<lparr>r_status := status, r_outcome := Some outcome,
                                     r_completed_at := Some now\<rparr>) w;
                      w = observe_signal_latencies tasks w;
                      w = metric_increment ''agent_tasks_completed_total'' (int (count_received tasks)) w;
                      w = add_orchestration_event now (''ORCHESTRATION_'' @ run_status_name status)
                            (r_correlation_id run) None (r_orchestration_run_id run) None None
                            (Some (r_snapshot_id run))
                            (if status \<noteq> R_CRITICAL then ACCEPTED else REJECTED) reason
                            [(''received'', PyInt (int (count_received tasks))),
                             (''expected'', PyInt (int (length tasks))),
                             (''missing_capabilities'', PySeq (map PyStr missing))] w;
                      w = metric_increment (outcome_counter status) 1 w
                  in Inr (\<lparr>cr_status = status, cr_outcome = Some outcome, cr_completed = True,
                        cr_received = count_received tasks, cr_expected = length tasks,
                        cr_missing_capabilities = missing\<rparr>, w)))"

section \<open>The rule, stated without the loop\<close>

definition short_of :: "agent_task list \<Rightarrow> capability_requirement \<Rightarrow> bool" where
  "short_of ts q \<longleftrightarrow>
     rq_required q \<and> count_received (capability_tasks (rq_capability q) ts) < rq_minimum_responses q"

definition out_of_reach :: "agent_task list \<Rightarrow> capability_requirement \<Rightarrow> bool" where
  "out_of_reach ts q \<longleftrightarrow> rq_required q \<and>
     count_received (capability_tasks (rq_capability q) ts)
       + count_unfinished (capability_tasks (rq_capability q) ts) < rq_minimum_responses q"

definition critical_failed :: "agent_task list \<Rightarrow> capability_requirement \<Rightarrow> bool" where
  "critical_failed ts q \<longleftrightarrow> rq_critical q \<and>
     (\<exists>t \<in> set ts. t_required_capability t = rq_capability q \<and> failed_status (t_status t))"

definition over :: "instant \<Rightarrow> orchestration_run \<Rightarrow> agent_task list \<Rightarrow> bool" where
  "over now run ts \<longleftrightarrow> r_collection_deadline run \<le> now \<or> (\<forall>t \<in> set ts. terminal (t_status t))"

definition run_decision :: "instant \<Rightarrow> orchestration_run \<Rightarrow> agent_task list \<Rightarrow> run_status option" where
  "run_decision now run ts =
     (let qs = set (po_requirements (rm_policy (r_metadata run)))
      in if (\<exists>q \<in> qs. out_of_reach ts q \<or> critical_failed ts q \<or> (short_of ts q \<and> over now run ts))
         then Some R_CRITICAL
         else if (\<forall>t \<in> set ts. t_status t = SIGNAL_RECEIVED) \<and> rm_missing_optional (r_metadata run) = []
         then Some R_FULL
         else if over now run ts then Some R_DEGRADED
         else None)"

lemma scan_requirements_eq:
  "scan_requirements ts qs (m, i, c) =
     (m @ map rq_capability (filter (short_of ts) qs),
      i \<or> (\<exists>q \<in> set qs. out_of_reach ts q),
      c \<or> (\<exists>q \<in> set qs. critical_failed ts q))"
proof (induction qs arbitrary: m i c)
  case (Cons q qs)
  let ?ts = "capability_tasks (rq_capability q) ts"
  have s: "(rq_required q \<and> count_received ?ts < rq_minimum_responses q) = short_of ts q"
    by (simp add: short_of_def)
  have o: "(short_of ts q \<and> count_received ?ts + count_unfinished ?ts < rq_minimum_responses q)
      = out_of_reach ts q"
    by (auto simp: out_of_reach_def short_of_def)
  have c: "(rq_critical q \<and> list_ex (\<lambda>t. failed_status (t_status t)) ?ts) = critical_failed ts q"
    by (auto simp: critical_failed_def capability_tasks_def list_ex_iff)
  show ?case
    unfolding scan_requirements.simps Let_def s o c Cons.IH by auto
qed simp

lemma out_of_reach_short: "out_of_reach ts q \<Longrightarrow> short_of ts q"
  by (simp add: out_of_reach_def short_of_def)

lemma decide_decision:
  "map_option fst (snd (decide now run ts)) = run_decision now run ts"
  "fst (decide now run ts) =
     map rq_capability (filter (short_of ts) (po_requirements (rm_policy (r_metadata run))))"
proof -
  let ?qs = "po_requirements (rm_policy (r_metadata run))"
  have ne: "filter (short_of ts) ?qs \<noteq> [] \<longleftrightarrow> (\<exists>q \<in> set ?qs. short_of ts q)"
    by (auto simp: filter_empty_conv)
  show "fst (decide now run ts) = map rq_capability (filter (short_of ts) ?qs)"
    by (simp add: decide_def scan_requirements_eq Let_def)
  have crit: "((\<exists>q \<in> set ?qs. short_of ts q) \<and> ((\<exists>q \<in> set ?qs. out_of_reach ts q)
        \<or> over now run ts)) \<or> (\<exists>q \<in> set ?qs. critical_failed ts q)
      \<longleftrightarrow> (\<exists>q \<in> set ?qs. out_of_reach ts q \<or> critical_failed ts q \<or> (short_of ts q \<and> over now run ts))"
    using out_of_reach_short by blast
  have over: "over now run ts \<longleftrightarrow>
      r_collection_deadline run \<le> now \<or> list_all (\<lambda>t. terminal (t_status t)) ts"
    by (simp add: over_def list_all_iff)
  show "map_option fst (snd (decide now run ts)) = run_decision now run ts"
    unfolding run_decision_def crit [symmetric] Let_def
    by (auto simp: decide_def scan_requirements_eq Let_def ne over list_all_iff)
qed

section \<open>What one evaluation does\<close>

lemma observe_signal_latencies_frame [simp]:
  "w_agents (observe_signal_latencies ts w) = w_agents w"
  "w_snapshots (observe_signal_latencies ts w) = w_snapshots w"
  "w_nonces (observe_signal_latencies ts w) = w_nonces w"
  "w_signals (observe_signal_latencies ts w) = w_signals w"
  "w_audit (observe_signal_latencies ts w) = w_audit w"
  "w_outbox (observe_signal_latencies ts w) = w_outbox w"
  "w_endpoints (observe_signal_latencies ts w) = w_endpoints w"
  "w_states (observe_signal_latencies ts w) = w_states w"
  "w_runs (observe_signal_latencies ts w) = w_runs w"
  "w_tasks (observe_signal_latencies ts w) = w_tasks w"
  "w_uuid_src (observe_signal_latencies ts w) = w_uuid_src w"
  unfolding observe_signal_latencies_def
  by (induction ts arbitrary: w) (auto split: option.splits)

fun outcome_of :: "run_status \<Rightarrow> run_outcome" where
  "outcome_of R_FULL = O_FULL"
| "outcome_of R_DEGRADED = O_DEGRADED"
| "outcome_of _ = O_INSUFFICIENT_DATA"

lemma decide_outcome:
  "snd (decide now run ts) = Some (s, out, reason) \<Longrightarrow>
   s \<in> {R_CRITICAL, R_FULL, R_DEGRADED} \<and> out = outcome_of s"
  by (auto simp: decide_def Let_def split: prod.splits if_splits)

text \<open>The completed run row, and the three ways in which \<open>evaluate\<close> ends.\<close>

definition completed_run :: "instant \<Rightarrow> run_status \<Rightarrow> orchestration_run \<Rightarrow> orchestration_run" where
  "completed_run now s run =
     run\<lparr>r_status := s, r_outcome := Some (outcome_of s), r_completed_at := Some now\<rparr>"

definition frame_but_runs :: "world \<Rightarrow> world \<Rightarrow> bool" where
  "frame_but_runs w w' \<longleftrightarrow>
     w_agents w' = w_agents w \<and> w_snapshots w' = w_snapshots w \<and> w_nonces w' = w_nonces w
     \<and> w_signals w' = w_signals w \<and> w_outbox w' = w_outbox w \<and> w_endpoints w' = w_endpoints w
     \<and> w_states w' = w_states w \<and> w_tasks w' = w_tasks w \<and> w_uuid_src w' = w_uuid_src w"

lemma evaluate_inv:
  assumes "evaluate now rid w = Inr (res, w')"
  obtains (decided) run where "get_run rid w = Some run" "decided_run (r_status run)" "w' = w"
      "res = result_from_run run (run_tasks rid w)"
  | (pending) run where "get_run rid w = Some run" "\<not> decided_run (r_status run)" "w' = w"
      "run_decision now run (run_tasks rid w) = None" "\<not> cr_completed res"
      "cr_status res = r_status run"
  | (closed) run s where "get_run rid w = Some run" "\<not> decided_run (r_status run)"
      "run_decision now run (run_tasks rid w) = Some s" "cr_completed res" "cr_status res = s"
      "cr_outcome res = Some (outcome_of s)" "s \<in> {R_CRITICAL, R_FULL, R_DEGRADED}"
      "w_runs w' = row_put r_orchestration_run_id (completed_run now s run) (w_runs w)"
      "frame_but_runs w w'"
proof -
  from assms obtain run where run: "get_run rid w = Some run"
    by (auto simp: evaluate_def split: option.splits)
  show ?thesis
  proof (cases "decided_run (r_status run)")
    case True
    with assms run show ?thesis by (intro decided) (auto simp: evaluate_def Let_def)
  next
    case False
    obtain missing d where dec: "decide now run (run_tasks rid w) = (missing, d)" by fastforce
    note rd = decide_decision(1) [of now run "run_tasks rid w", unfolded dec snd_conv, symmetric]
    show ?thesis
    proof (cases d)
      case None
      with assms run False dec rd show ?thesis by (intro pending) (auto simp: evaluate_def Let_def)
    next
      case (Some x)
      then obtain s out reason where d: "d = Some (s, out, reason)" by (cases x) auto
      with decide_outcome [of now run "run_tasks rid w"] dec
      have s: "s \<in> {R_CRITICAL, R_FULL, R_DEGRADED}" and out: "out = outcome_of s" by auto
      from assms run False dec d show ?thesis
        by (intro closed [of run s])
          (use s out rd in \<open>auto simp: evaluate_def Let_def completed_run_def put_run_def frame_but_runs_def\<close>)
    qed
  qed
qed

lemma completed_run_simps [simp]:
  "r_orchestration_run_id (completed_run now s run) = r_orchestration_run_id run"
  "r_snapshot_id (completed_run now s run) = r_snapshot_id run"
  "r_metadata (completed_run now s run) = r_metadata run"
  "r_collection_deadline (completed_run now s run) = r_collection_deadline run"
  "r_status (completed_run now s run) = s"
  "r_outcome (completed_run now s run) = Some (outcome_of s)"
  "r_completed_at (completed_run now s run) = Some now"
  "run_checks (completed_run now s run) = run_checks run"
  by (simp_all add: completed_run_def run_checks_def)

lemma evaluate_put:
  assumes "evaluate now rid w = Inr (res, w')"
  shows "frame_but_runs w w'" and "map r_orchestration_run_id (w_runs w') = map r_orchestration_run_id (w_runs w)"
  using assms
  by (cases rule: evaluate_inv; simp add: frame_but_runs_def keys_row_put)+

lemma run_tasks_frame: "frame_but_runs w w' \<Longrightarrow> run_tasks rid w' = run_tasks rid w"
  by (simp add: frame_but_runs_def run_tasks_def)

lemma evaluate_schema:
  assumes "evaluate now rid w = Inr (res, w')" and ok: "schema_ok w"
  shows "schema_ok w'"
  using assms(1)
proof (cases rule: evaluate_inv)
  case (closed run s)
  have "r_orchestration_run_id run = rid" using get_run_SomeD [OF closed(1)] by simp
  moreover have "run_kept run (completed_run now s run)" unfolding completed_run_def by (rule run_keptI)
  ultimately have "list_all2 run_kept (w_runs w) (w_runs w')"
    using put_run_kept [OF schema_run_keys [OF ok], of "completed_run now s run" run] closed(1,8)
    by (simp add: put_run_def)
  then show ?thesis
    using closed(9) schema_states_ok [OF ok] unfolding frame_but_runs_def
    by (intro schema_ok_kept [OF ok]) (simp_all add: tasks_kept_refl states_ok_def)
qed (use ok in simp_all)

section \<open>An unreachable quorum stays unreachable\<close>

definition still_counts :: "task_status \<Rightarrow> bool" where
  "still_counts s \<longleftrightarrow> s = SIGNAL_RECEIVED \<or> \<not> terminal s"

lemma received_unfinished:
  "count_received ts + count_unfinished ts = length (filter (\<lambda>t. still_counts (t_status t)) ts)"
  by (induction ts) (auto simp: count_received_def count_unfinished_def still_counts_def task_state_defs)

lemma still_counts_back: "task_evolves t t' \<Longrightarrow> still_counts (t_status t') \<Longrightarrow> still_counts (t_status t)"
  by (metis still_counts_def task_evolves_terminal)

lemma failed_status_forward: "task_evolves t t' \<Longrightarrow> failed_status (t_status t) \<Longrightarrow> failed_status (t_status t')"
  by (metis (no_types, lifting) failed_status_def insert_iff task_evolves_terminal terminal_task_states_def)

lemma length_filter_sort_key: "length (filter P (sort_key f xs)) = length (filter P xs)"
  by (simp add: filter_sort)

lemma capability_count:
  "count_received (capability_tasks c (run_tasks rid w))
     + count_unfinished (capability_tasks c (run_tasks rid w))
   = length (filter (\<lambda>t. t_orchestration_run_id t = rid \<and> t_required_capability t = c
        \<and> still_counts (t_status t)) (w_tasks w))"
proof -
  have "filter (\<lambda>t. still_counts (t_status t)) (capability_tasks c (run_tasks rid w))
      = filter (\<lambda>t. t_required_capability t = c \<and> still_counts (t_status t)) (run_tasks rid w)"
    by (simp add: capability_tasks_def conj_commute)
  then show ?thesis
    unfolding received_unfinished
    by (simp add: run_tasks_def length_filter_sort_key)
qed

lemma length_filter_back:
  assumes "list_all2 R xs ys" and "\<And>x y. R x y \<Longrightarrow> P y \<Longrightarrow> P x"
  shows "length (filter P ys) \<le> length (filter P xs)"
  using assms(1) by (induction rule: list_all2_induct) (use assms(2) in auto)

lemma out_of_reach_stays:
  assumes "list_all2 task_evolves (w_tasks w) (w_tasks w')" and "out_of_reach (run_tasks rid w) q"
  shows "out_of_reach (run_tasks rid w') q"
proof -
  have "length (filter (\<lambda>t. t_orchestration_run_id t = rid \<and> t_required_capability t = rq_capability q
        \<and> still_counts (t_status t)) (w_tasks w'))
      \<le> length (filter (\<lambda>t. t_orchestration_run_id t = rid \<and> t_required_capability t = rq_capability q
        \<and> still_counts (t_status t)) (w_tasks w))"
  proof (rule length_filter_back [OF assms(1)])
    fix x y assume e: "task_evolves x y" and y: "t_orchestration_run_id y = rid
        \<and> t_required_capability y = rq_capability q \<and> still_counts (t_status y)"
    then show "t_orchestration_run_id x = rid
        \<and> t_required_capability x = rq_capability q \<and> still_counts (t_status x)"
      using still_counts_back [OF e] by (simp add: task_evolves_def same_identity_def)
  qed
  with assms(2) show ?thesis by (simp add: out_of_reach_def capability_count)
qed

lemma critical_failed_stays:
  assumes "list_all2 task_evolves (w_tasks w) (w_tasks w')" and "critical_failed (run_tasks rid w) q"
  shows "critical_failed (run_tasks rid w') q"
proof -
  from assms(2) obtain t where t: "rq_critical q" "t \<in> set (w_tasks w)" "t_orchestration_run_id t = rid"
    "t_required_capability t = rq_capability q" "failed_status (t_status t)"
    by (auto simp: critical_failed_def run_tasks_def)
  with list_all2_memD1 [OF assms(1) t(2)] obtain t' where "t' \<in> set (w_tasks w')" "task_evolves t t'"
    by blast
  with t failed_status_forward [of t t'] show ?thesis
    by (auto simp: critical_failed_def run_tasks_def task_evolves_def same_identity_def)
qed

section \<open>Properties\<close>

text \<open>C5 \<open>evaluate\<close> implements the completion rule \<open>run_decision\<close>: on an undecided run it always
  returns; if the rule gives no verdict nothing is written and the run is reported as
  collecting, otherwise the verdict is stored with its outcome and completion time, and no
  table but \<open>orchestration_runs\<close> changes (audit and metrics aside).\<close>

theorem evaluate_implements_rule:
  assumes "get_run rid w = Some run" and "\<not> decided_run (r_status run)"
  shows "\<exists>res w'. evaluate now rid w = Inr (res, w')
     \<and> (case run_decision now run (run_tasks rid w) of
          None \<Rightarrow> w' = w \<and> \<not> cr_completed res \<and> cr_status res = r_status run
        | Some s \<Rightarrow> cr_completed res \<and> cr_status res = s \<and> cr_outcome res = Some (outcome_of s)
            \<and> w_runs w' = row_put r_orchestration_run_id (completed_run now s run) (w_runs w)
            \<and> frame_but_runs w w')"
proof -
  have "\<exists>res w'. evaluate now rid w = Inr (res, w')"
    by (simp add: evaluate_def assms Let_def split: prod.splits option.splits)
  then obtain res w' where ev: "evaluate now rid w = Inr (res, w')" by blast
  then show ?thesis
    by (cases rule: evaluate_inv) (use assms ev in auto)
qed

lemma planned_run: "get_run 700 planned_world = Some sample_run"
  by (simp add: sample_worlds world_defs) (simp add: sample_run_def)

lemma planned_tasks: "run_tasks 700 planned_world = [sample_task]"
  by (simp add: sample_worlds run_tasks_def) (simp add: sample_task_def)

lemma sample_undecided: "\<not> decided_run (r_status sample_run)"
  by (simp add: sample_run_def decided_run_def)

theorem evaluate_implements_rule_witness:
  "\<exists>res w'. evaluate (seconds 120) 700 planned_world = Inr (res, w')
     \<and> cr_completed res \<and> cr_status res = R_CRITICAL"
proof -
  have "run_decision (seconds 120) sample_run [sample_task] = Some R_CRITICAL"
    by (simp add: run_decision_def short_of_def out_of_reach_def critical_failed_def over_def sample_rows
        count_received_def capability_tasks_def)
  then show ?thesis
    using evaluate_implements_rule [OF planned_run sample_undecided, of "seconds 120"]
    by (auto simp: planned_tasks)
qed

text \<open>A run is completed without a critical outcome only if its quorum is there: then every
  required capability has its minimum of received signals and no task of a critical
  capability has failed; and FULL means that every task of the run delivered and that
  planning left no optional capability uncovered.\<close>

theorem completion_has_quorum:
  assumes "evaluate now rid w = Inr (res, w')" and "get_run rid w = Some run"
    and "\<not> decided_run (r_status run)" and "cr_completed res" and "cr_status res \<noteq> R_CRITICAL"
    and "q \<in> set (po_requirements (rm_policy (r_metadata run)))"
  shows "(rq_required q \<longrightarrow>
            rq_minimum_responses q \<le> count_received (capability_tasks (rq_capability q) (run_tasks rid w)))
     \<and> (rq_critical q \<longrightarrow>
            (\<forall>t \<in> set (run_tasks rid w). t_required_capability t = rq_capability q \<longrightarrow>
               \<not> failed_status (t_status t)))
     \<and> (cr_status res = R_FULL \<longrightarrow> rm_missing_optional (r_metadata run) = []
            \<and> (\<forall>t \<in> set (run_tasks rid w). t_status t = SIGNAL_RECEIVED))"
  using assms(1)
proof (cases rule: evaluate_inv)
  case (closed run' s)
  with assms(2,5) have rd: "run_decision now run (run_tasks rid w) = Some s" "s \<noteq> R_CRITICAL"
    and res: "cr_status res = s" by simp_all
  from rd have ok: "\<not> out_of_reach (run_tasks rid w) q" "\<not> critical_failed (run_tasks rid w) q"
    "short_of (run_tasks rid w) q \<Longrightarrow> \<not> over now run (run_tasks rid w)"
    and full: "s = R_FULL \<Longrightarrow> (\<forall>t \<in> set (run_tasks rid w). t_status t = SIGNAL_RECEIVED)
        \<and> rm_missing_optional (r_metadata run) = []"
    using assms(6) by (auto simp: run_decision_def Let_def split: if_splits)
  have "over now run (run_tasks rid w)"
  proof (cases "s = R_FULL")
    case True
    then show ?thesis using full by (simp add: over_def task_state_defs)
  next
    case False
    with rd show ?thesis by (auto simp: run_decision_def Let_def split: if_splits)
  qed
  with ok(3) have "\<not> short_of (run_tasks rid w) q" by blast
  with ok(2) full show ?thesis
    unfolding res short_of_def critical_failed_def not_less [symmetric] by blast
qed (use assms in simp_all)

definition answered_world :: world where
  "answered_world = planned_world\<lparr>w_tasks := [sample_task\<lparr>t_status := SIGNAL_RECEIVED,
     t_acknowledged_at := Some 1, t_signal_received_at := Some 2\<rparr>]\<rparr>"

theorem completion_has_quorum_witness:
  "\<exists>res w'. evaluate 5 700 answered_world = Inr (res, w') \<and> cr_status res = R_FULL
     \<and> 1 \<le> count_received (capability_tasks ''technical'' (run_tasks 700 answered_world))"
proof -
  have run: "get_run 700 answered_world = Some sample_run"
    using planned_run by (simp add: answered_world_def world_defs)
  have tasks: "run_tasks 700 answered_world = [sample_task\<lparr>t_status := SIGNAL_RECEIVED,
     t_acknowledged_at := Some 1, t_signal_received_at := Some 2\<rparr>]"
    by (simp add: answered_world_def run_tasks_def) (simp add: sample_task_def)
  obtain res w' where ev: "evaluate 5 700 answered_world = Inr (res, w')"
    and res: "cr_status res = R_FULL" "cr_completed res"
    using run sample_undecided tasks
    by (simp add: evaluate_def Let_def decide_def sample_rows count_received_def capability_tasks_def
        failed_status_def task_state_defs count_unfinished_def)
  have q: "required_technical \<in> set (po_requirements (rm_policy (r_metadata sample_run)))"
    by (simp add: sample_run_def sample_metadata_def sample_policy_def)
  from completion_has_quorum [OF ev run sample_undecided _ _ q] res ev show ?thesis
    by (auto simp: required_technical_def)
qed

text \<open>Evaluation is live: once the collection deadline has passed, or every task of the run is
  terminal, the evaluation completes the run.\<close>

theorem evaluation_completes:
  assumes "get_run rid w = Some run" and "over now run (run_tasks rid w)"
    and "\<not> decided_run (r_status run)"
  shows "\<exists>res w' run'. evaluate now rid w = Inr (res, w') \<and> cr_completed res
     \<and> get_run rid w' = Some run' \<and> decided_run (r_status run')
     \<and> r_completed_at run' = Some now \<and> r_outcome run' = cr_outcome res"
proof -
  have "\<exists>res w'. evaluate now rid w = Inr (res, w')"
    by (simp add: evaluate_def assms Let_def split: prod.splits option.splits)
  then obtain res w' where ev: "evaluate now rid w = Inr (res, w')" by blast
  have rid: "r_orchestration_run_id run = rid" using get_run_SomeD [OF assms(1)] by simp
  from ev show ?thesis
  proof (cases rule: evaluate_inv)
    case (pending run')
    with assms show ?thesis by (auto simp: run_decision_def Let_def split: if_splits)
  next
    case (closed run' s)
    have "rid \<in> r_orchestration_run_id ` set (w_runs w)"
      using get_run_SomeD [OF assms(1)] by auto
    then have "get_run rid w' = Some (completed_run now s run)"
      using closed assms(1) rid by (simp add: get_run_def row_get_put)
    moreover have "decided_run s" using closed(7) by (auto simp: decided_run_def)
    ultimately show ?thesis using ev closed by simp
  qed (use assms in auto)
qed

theorem evaluation_completes_witness:
  "\<exists>res w' run'. evaluate (seconds 120) 700 planned_world = Inr (res, w') \<and> cr_completed res
     \<and> get_run 700 w' = Some run' \<and> decided_run (r_status run')"
  using evaluation_completes [OF planned_run _ sample_undecided, of "seconds 120"]
  by (auto simp: over_def sample_run_def)

text \<open>A completed run is final for the evaluator: evaluating it again, at any time, writes
  nothing and reports the same status, outcome and counts.  Only the list of missing
  capabilities may differ: the answer from the stored run gives those that were missing when
  the run was planned, not those that the completing evaluation found.\<close>

theorem evaluation_final:
  assumes "evaluate now rid w = Inr (res, w')" and "get_run rid w = Some run"
    and "\<not> decided_run (r_status run)" and "cr_completed res"
  shows "evaluate later rid w' =
     Inr (res\<lparr>cr_missing_capabilities := rm_missing_required (r_metadata run)\<rparr>, w')"
  using assms(1)
proof (cases rule: evaluate_inv)
  case (closed run' s)
  have rid: "r_orchestration_run_id run = rid" "rid \<in> r_orchestration_run_id ` set (w_runs w)"
    using get_run_SomeD [OF assms(2)] by auto
  with closed assms(2) have run': "get_run rid w' = Some (completed_run now s run)"
    by (simp add: get_run_def row_get_put)
  have tasks: "run_tasks rid w' = run_tasks rid w" by (rule run_tasks_frame) (rule closed(9))
  have dec: "decided_run s" using closed(7) by (auto simp: decided_run_def)
  have counts: "cr_received res = count_received (run_tasks rid w) \<and> cr_expected res = length (run_tasks rid w)"
    using assms(1,2,3) by (auto simp: evaluate_def Let_def split: prod.splits option.splits)
  show ?thesis
    using run' tasks dec counts closed(4-6)
    by (cases res) (simp add: evaluate_def result_from_run_def Let_def)
qed (use assms in simp_all)

theorem evaluation_final_witness:
  "\<exists>res w'. evaluate (seconds 120) 700 planned_world = Inr (res, w')
     \<and> cr_missing_capabilities res = [''technical'']
     \<and> evaluate (seconds 121) 700 w' = Inr (res\<lparr>cr_missing_capabilities := []\<rparr>, w')"
proof -
  obtain res w' where ev: "evaluate (seconds 120) 700 planned_world = Inr (res, w')"
    and res: "cr_completed res" "cr_missing_capabilities res = [''technical'']"
    using planned_run sample_undecided planned_tasks
    by (simp add: evaluate_def Let_def decide_def sample_rows count_received_def capability_tasks_def
        failed_status_def task_state_defs count_unfinished_def)
  from evaluation_final [OF ev planned_run sample_undecided res(1), of "seconds 121"] ev res show ?thesis
    by (auto simp: sample_run_def sample_metadata_def)
qed

text \<open>A critical verdict for an unreachable quorum is never premature: once too few tasks of a
  required capability can still deliver, or a task of a critical capability has failed, every
  evaluation of the undecided run is CRITICAL, and stays so however the tasks evolve along
  their state machine.\<close>

theorem critical_is_stable:
  assumes "get_run rid w = Some run" and "get_run rid w' = Some run'" and "run_kept run run'"
    and "list_all2 task_evolves (w_tasks w) (w_tasks w')"
    and "q \<in> set (po_requirements (rm_policy (r_metadata run)))"
    and "out_of_reach (run_tasks rid w) q \<or> critical_failed (run_tasks rid w) q"
    and "\<not> decided_run (r_status run')"
  shows "\<exists>res w2. evaluate now rid w' = Inr (res, w2) \<and> cr_completed res \<and> cr_status res = R_CRITICAL
     \<and> cr_outcome res = Some O_INSUFFICIENT_DATA"
proof -
  have "out_of_reach (run_tasks rid w') q \<or> critical_failed (run_tasks rid w') q"
    using out_of_reach_stays [OF assms(4)] critical_failed_stays [OF assms(4)] assms(6) by blast
  moreover have "q \<in> set (po_requirements (rm_policy (r_metadata run')))"
    using assms(5) run_kept_same [OF assms(3)] by simp
  ultimately have crit: "run_decision now run' (run_tasks rid w') = Some R_CRITICAL"
    by (auto simp: run_decision_def Let_def)
  have "\<exists>res w2. evaluate now rid w' = Inr (res, w2)"
    by (simp add: evaluate_def assms Let_def split: prod.splits option.splits)
  then obtain res w2 where ev: "evaluate now rid w' = Inr (res, w2)" by blast
  then show ?thesis
    by (cases rule: evaluate_inv) (use assms crit ev in auto)
qed

definition failed_world :: world where
  "failed_world = planned_world\<lparr>w_tasks := [sample_task\<lparr>t_status := FAILED\<rparr>]\<rparr>"

theorem critical_is_stable_witness:
  "\<exists>res w2. evaluate 7 700 failed_world = Inr (res, w2) \<and> cr_status res = R_CRITICAL"
proof -
  have run: "get_run 700 failed_world = Some sample_run"
    using planned_run by (simp add: failed_world_def world_defs)
  have tasks: "run_tasks 700 failed_world = [sample_task\<lparr>t_status := FAILED\<rparr>]"
    by (simp add: failed_world_def run_tasks_def) (simp add: sample_task_def)
  have q: "required_technical \<in> set (po_requirements (rm_policy (r_metadata sample_run)))"
    by (simp add: sample_run_def sample_metadata_def sample_policy_def)
  have "out_of_reach (run_tasks 700 failed_world) required_technical"
    unfolding tasks
    by (simp add: out_of_reach_def required_technical_def capability_tasks_def sample_task_def
        count_received_def count_unfinished_def task_state_defs)
  with critical_is_stable [OF run run run_keptI(1) tasks_evolve_refl q _ sample_undecided, of 7]
  show ?thesis by blast
qed

end
