(* ===== verification/Dispatch.thy ===== *)
theory Dispatch
  imports Task_Lifecycle Samples Dispatch_Client Backoff
begin

text \<open>
  \<open>DispatchWorker\<close> of \<open>src/tomiris_orchestrator/dispatch.py\<close>: claiming due tasks under a lease,
  recording the result of a dispatch, and expiring dispatch deadlines.  Each of the three is
  one transaction, hence one function on \<open>world\<close>; \<open>locked\<close> are the tasks whose rows another
  transaction holds, which \<open>SKIP LOCKED\<close> leaves out.  Clock readings and the random value of
  the backoff are arguments.
\<close>

section \<open>Definitions\<close>

record dispatch_worker =
  dw_worker_id :: string
  dw_batch_size :: nat
  dw_lease_seconds :: rat
  dw_max_attempts :: int
  dw_base_seconds :: int
  dw_max_seconds :: int
  dw_circuit_failure_threshold :: int
  dw_circuit_open_seconds :: int

definition due :: "instant \<Rightarrow> agent_task \<Rightarrow> bool" where
  "due now t \<longleftrightarrow>
     ((t_status t \<in> {PENDING, RETRY} \<and> t_dispatch_after t \<le> now)
      \<or> (t_status t = DISPATCHING
         \<and> (case t_lease_until t of None \<Rightarrow> False | Some u \<Rightarrow> u < now)))
     \<and> now < t_dispatch_deadline t"

definition select_due :: "nat \<Rightarrow> instant \<Rightarrow> uuid list \<Rightarrow> world \<Rightarrow> agent_task list" where
  "select_due batch_size now locked w =
     take batch_size (sort_key (\<lambda>t. (- t_priority t, t_created_at t))
       (filter (\<lambda>t. due now t \<and> t_task_id t \<notin> set locked) (w_tasks w)))"

definition closed_run :: "run_status \<Rightarrow> bool" where
  "closed_run s \<longleftrightarrow> s \<in> {R_FULL, R_DEGRADED, R_CRITICAL, R_FAILED, R_TIMED_OUT, R_CANCELLED}"

definition initial_state :: "string \<Rightarrow> instant \<Rightarrow> agent_runtime_state" where
  "initial_state agent_id now =
     \<lparr>rs_agent_id = agent_id, rs_availability = UNKNOWN, rs_last_probe_at = None,
      rs_last_seen_at = None, rs_last_ack_at = None, rs_last_signal_at = None,
      rs_last_success_at = None, rs_consecutive_failures = 0, rs_latency_ms = None,
      rs_circuit_state = CLOSED, rs_circuit_open_until = None, rs_last_error_code = None,
      rs_updated_at = now\<rparr>"

definition ensure_state :: "instant \<Rightarrow> string \<Rightarrow> world \<Rightarrow> agent_runtime_state \<times> world" where
  "ensure_state now agent_id w =
     (case get_state agent_id w of
        Some state \<Rightarrow> (state, w)
      | None \<Rightarrow> (initial_state agent_id now, add_state (initial_state agent_id now) w))"

definition command_of :: "agent_task \<Rightarrow> orchestration_run \<Rightarrow> agent_endpoint \<Rightarrow> dispatch_command" where
  "command_of task run endpoint =
     \<lparr>cm_task_id = t_task_id task, cm_orchestration_run_id = t_orchestration_run_id task,
      cm_snapshot_id = t_snapshot_id task, cm_agent_id = t_agent_id task, cm_asset = t_asset task,
      cm_required_capability = t_required_capability task, cm_priority = t_priority task,
      cm_created_at = t_created_at task, cm_signal_deadline = t_signal_deadline task,
      cm_correlation_id = r_correlation_id run, cm_causation_id = t_causation_id task,
      cm_context = t_context task, cm_endpoint_url = ep_endpoint_url endpoint,
      cm_endpoint_environment = ep_environment endpoint\<rparr>"

definition lease_task :: "dispatch_worker \<Rightarrow> instant \<Rightarrow> agent_task \<Rightarrow> agent_task" where
  "lease_task dw now task =
     task\<lparr>t_status := DISPATCHING, t_attempt_count := t_attempt_count task + 1,
          t_lease_owner := Some (dw_worker_id dw),
          t_lease_until := Some (now + td_seconds (dw_lease_seconds dw)), t_updated_at := now\<rparr>"

text \<open>The end of the loop body: an expired open circuit becomes half open, the task is leased.\<close>

definition start_dispatch ::
    "dispatch_worker \<Rightarrow> instant \<Rightarrow> agent_task \<Rightarrow> orchestration_run \<Rightarrow> agent_endpoint \<Rightarrow>
     agent_runtime_state \<Rightarrow> world \<Rightarrow> dispatch_command \<times> world" where
  "start_dispatch dw now task run endpoint state w =
     (let w = (if rs_circuit_state state = OPEN
               then put_state (state\<lparr>rs_circuit_state := HALF_OPEN, rs_updated_at := now\<rparr>) w else w);
          task = lease_task dw now task;
          w = put_task task w;
          w = add_orchestration_event now ''TASK_DISPATCH_STARTED'' (r_correlation_id run)
                (t_causation_id task) (r_orchestration_run_id run) (Some (t_task_id task))
                (Some (t_agent_id task)) (Some (t_snapshot_id task)) ACCEPTED None
                [(''attempt'', PyInt (t_attempt_count task)),
                 (''worker_id'', PyStr (dw_worker_id dw))] w
      in (command_of task run endpoint, w))"

definition circuit_blocks :: "instant \<Rightarrow> agent_runtime_state \<Rightarrow> instant option" where
  "circuit_blocks now state =
     (if rs_circuit_state state = OPEN
      then (case rs_circuit_open_until state of
              None \<Rightarrow> None
            | Some until \<Rightarrow> if now < until then Some until else None)
      else None)"

fun claim_task ::
    "dispatch_worker \<Rightarrow> instant \<Rightarrow> dispatch_command list \<times> world \<Rightarrow> agent_task \<Rightarrow>
     dispatch_command list \<times> world" where
  "claim_task dw now (commands, w) task =
     (let run = get_run (t_orchestration_run_id task) w;
          endpoint = get_endpoint (t_agent_id task) w;
          (state, w) = ensure_state now (t_agent_id task) w
      in (case run of
            None \<Rightarrow> (commands, put_task (task\<lparr>t_status := CANCELLED, t_updated_at := now\<rparr>) w)
          | Some run \<Rightarrow>
              if closed_run (r_status run)
              then (commands, put_task (task\<lparr>t_status := CANCELLED, t_updated_at := now\<rparr>) w)
              else if (case endpoint of None \<Rightarrow> True | Some e \<Rightarrow> \<not> ep_enabled e)
              then (commands, metric_increment ''agent_tasks_failed_total'' 1
                     (put_task (task\<lparr>t_status := FAILED,
                        t_last_error_code := Some ''AGENT_ENDPOINT_MISSING'', t_updated_at := now\<rparr>) w))
              else (case circuit_blocks now state of
                  Some until \<Rightarrow>
                    (commands, put_task (task\<lparr>t_status := RETRY, t_dispatch_after := until,
                       t_last_error_code := Some ''AGENT_CIRCUIT_OPEN'', t_updated_at := now\<rparr>) w)
                | None \<Rightarrow>
                    let (command, w) = start_dispatch dw now task run (the endpoint) state w
                    in (commands @ [command], w))))"

definition claim :: "dispatch_worker \<Rightarrow> instant \<Rightarrow> uuid list \<Rightarrow> world \<Rightarrow> dispatch_command list \<times> world" where
  "claim dw now locked w =
     foldl (claim_task dw now) ([], w) (select_due (dw_batch_size dw) now locked w)"

text \<open>\<open>_record_result\<close>: first the branch of an acknowledgement.\<close>

definition record_ack ::
    "instant \<Rightarrow> agent_task \<Rightarrow> agent_runtime_state \<Rightarrow> orchestration_run \<Rightarrow> dispatch_result \<Rightarrow> world \<Rightarrow> world" where
  "record_ack now task state run result w =
     (let task = task\<lparr>t_status := WAITING_SIGNAL,
            t_acknowledged_at := Some (case dr_ack result of Some ack \<Rightarrow> ack_accepted_at ack | None \<Rightarrow> now),
            t_last_error_code := None\<rparr>;
          state = state\<lparr>rs_availability := HEALTHY, rs_last_seen_at := Some now,
            rs_last_ack_at := Some now, rs_last_success_at := Some now, rs_consecutive_failures := 0,
            rs_circuit_state := CLOSED, rs_circuit_open_until := None\<rparr>;
          run = run\<lparr>r_status := R_COLLECTING\<rparr>;
          w = put_run run (put_state state (put_task task w));
          w = metric_increment ''agent_tasks_acknowledged_total'' 1 w
      in add_orchestration_event now ''TASK_ACKNOWLEDGED'' (r_correlation_id run)
           (t_causation_id task) (r_orchestration_run_id run) (Some (t_task_id task))
           (Some (t_agent_id task)) (Some (t_snapshot_id task)) ACCEPTED None
           [(''attempt'', PyInt (t_attempt_count task)),
            (''latency_ms'', PyFloat (case dr_latency_ms result of Some l \<Rightarrow> l | None \<Rightarrow> 0))] w)"

definition note_failure ::
    "dispatch_worker \<Rightarrow> instant \<Rightarrow> dispatch_result \<Rightarrow> agent_runtime_state \<Rightarrow> agent_runtime_state" where
  "note_failure dw now result state =
     (let failures = rs_consecutive_failures state + 1;
          state = state\<lparr>rs_consecutive_failures := failures,
            rs_last_error_code := dr_error_code result, rs_availability := DEGRADED\<rparr>
      in if dw_circuit_failure_threshold dw \<le> failures
         then state\<lparr>rs_circuit_state := OPEN,
            rs_circuit_open_until := Some (now + seconds (dw_circuit_open_seconds dw))\<rparr>
         else state)"

definition can_retry :: "dispatch_worker \<Rightarrow> instant \<Rightarrow> dispatch_result \<Rightarrow> agent_task \<Rightarrow> bool" where
  "can_retry dw now result task \<longleftrightarrow>
     dr_disposition result = D_RETRYABLE \<and> t_attempt_count task < dw_max_attempts dw
     \<and> now < t_dispatch_deadline task"

definition retry_time ::
    "dispatch_worker \<Rightarrow> instant \<Rightarrow> rat \<Rightarrow> agent_task \<Rightarrow> agent_runtime_state \<Rightarrow> instant" where
  "retry_time dw now rnd task state =
     (let retry_at = now + td_seconds (delay (dw_base_seconds dw) (dw_max_seconds dw) (t_attempt_count task) rnd)
      in if rs_circuit_state state = OPEN
         then (case rs_circuit_open_until state of None \<Rightarrow> retry_at | Some until \<Rightarrow> max retry_at until)
         else retry_at)"

definition record_failure ::
    "dispatch_worker \<Rightarrow> instant \<Rightarrow> rat \<Rightarrow> agent_task \<Rightarrow> agent_runtime_state \<Rightarrow> orchestration_run \<Rightarrow>
     dispatch_result \<Rightarrow> world \<Rightarrow> world" where
  "record_failure dw now rnd task state run result w =
     (let opened = (dw_circuit_failure_threshold dw \<le> rs_consecutive_failures state + 1);
          state = note_failure dw now result state;
          event = (\<lambda>event_type causation metadata. add_orchestration_event now event_type
             (r_correlation_id run) causation (r_orchestration_run_id run) (Some (t_task_id task))
             (Some (t_agent_id task)) (Some (t_snapshot_id task)) REJECTED (dr_error_code result) metadata);
          w = (if opened
               then event ''AGENT_CIRCUIT_OPENED'' (Some (t_task_id task)) []
                      (metric_increment ''agent_circuit_open_total'' 1 w)
               else w)
      in if can_retry dw now result task
         then let retry_at = retry_time dw now rnd task state;
                  task = task\<lparr>t_status := RETRY, t_dispatch_after := retry_at,
                    t_last_error_code := dr_error_code result\<rparr>;
                  w = put_state state (put_task task w);
                  w = metric_increment ''agent_dispatch_retries_total'' 1 w
              in event ''TASK_RETRY_SCHEDULED'' (t_causation_id task)
                   [(''attempt'', PyInt (t_attempt_count task)),
                    (''dispatch_after'', PyStr (isoformat retry_at))] w
         else let task = task\<lparr>t_status := FAILED, t_last_error_code := dr_error_code result\<rparr>;
                  state = state\<lparr>rs_availability := UNAVAILABLE\<rparr>;
                  w = put_state state (put_task task w);
                  w = metric_increment ''agent_tasks_failed_total'' 1 w
              in event ''TASK_FAILED'' (t_causation_id task)
                   [(''attempt'', PyInt (t_attempt_count task))] w)"

text \<open>Whether the result is still this worker's to record.\<close>

definition owns :: "dispatch_worker \<Rightarrow> agent_task \<Rightarrow> bool" where
  "owns dw task \<longleftrightarrow> t_status task = DISPATCHING \<and> t_lease_owner task = Some (dw_worker_id dw)"

definition record_result ::
    "dispatch_worker \<Rightarrow> instant \<Rightarrow> rat \<Rightarrow> dispatch_command \<Rightarrow> dispatch_result \<Rightarrow> world \<Rightarrow> world" where
  "record_result dw now rnd command result w =
     (case (get_task (cm_task_id command) w, get_state (cm_agent_id command) w,
            get_run (cm_orchestration_run_id command) w) of
        (Some task, Some state, Some run) \<Rightarrow>
          if t_status task = SIGNAL_RECEIVED then w
          else if \<not> owns dw task then w
          else
            let task = task\<lparr>t_lease_owner := None, t_lease_until := None, t_updated_at := now\<rparr>;
                state = state\<lparr>rs_updated_at := now\<rparr>;
                state = (case dr_latency_ms result of None \<Rightarrow> state
                         | Some l \<Rightarrow> state\<lparr>rs_latency_ms := Some l\<rparr>);
                w = (case dr_latency_ms result of None \<Rightarrow> w
                     | Some l \<Rightarrow> metric_observe ''agent_dispatch_latency'' l
                                  (metric_observe ''agent_ack_latency'' l w))
            in if dr_disposition result = D_ACKNOWLEDGED
               then record_ack now task state run result w
               else record_failure dw now rnd task state run result w
      | _ \<Rightarrow> w)"

text \<open>\<open>dispatch_once\<close> without interference: the readings of the \<open>i\<close>-th attempt are the clock
  before it, the clock after it and the random value of its backoff.  An exception of the
  transport ends the loop and leaves the remaining commands leased.\<close>

fun dispatch_commands ::
    "dispatch_worker \<Rightarrow> (nat \<Rightarrow> instant \<times> instant \<times> rat) \<Rightarrow>
     (dispatch_command \<Rightarrow> int \<Rightarrow> client_error + dispatch_result) \<Rightarrow> nat \<Rightarrow> dispatch_command list \<Rightarrow>
     world \<Rightarrow> client_error option \<times> world" where
  "dispatch_commands dw readings send i [] w = (None, w)"
| "dispatch_commands dw readings send i (c # cs) w =
     (let (before, after, rnd) = readings i
      in case send c (int_timestamp before) of
           Inl e \<Rightarrow> (Some e, w)
         | Inr result \<Rightarrow> dispatch_commands dw readings send (Suc i) cs (record_result dw after rnd c result w))"

definition dispatch_once ::
    "dispatch_worker \<Rightarrow> instant \<Rightarrow> uuid list \<Rightarrow> (nat \<Rightarrow> instant \<times> instant \<times> rat) \<Rightarrow>
     (dispatch_command \<Rightarrow> int \<Rightarrow> client_error + dispatch_result) \<Rightarrow> world \<Rightarrow>
     (client_error + nat) \<times> world" where
  "dispatch_once dw now locked readings send w =
     (let (commands, w) = claim dw now locked w;
          (err, w) = dispatch_commands dw readings send 0 commands w
      in (case err of Some e \<Rightarrow> Inl e | None \<Rightarrow> Inr (length commands), w))"

definition expired :: "instant \<Rightarrow> agent_task \<Rightarrow> bool" where
  "expired now t \<longleftrightarrow> t_status t \<in> {PENDING, RETRY, DISPATCHING} \<and> t_dispatch_deadline t \<le> now"

definition expire_task :: "instant \<Rightarrow> world \<Rightarrow> agent_task \<Rightarrow> world" where
  "expire_task now w task =
     (let task = task\<lparr>t_status := TIMED_OUT, t_last_error_code := Some ''AGENT_ACK_TIMEOUT'',
            t_lease_owner := None, t_lease_until := None, t_updated_at := now\<rparr>;
          w = put_task task w
      in case get_run (t_orchestration_run_id task) w of
           None \<Rightarrow> w
         | Some run \<Rightarrow>
             add_orchestration_event now ''TASK_TIMED_OUT'' (r_correlation_id run)
               (t_causation_id task) (r_orchestration_run_id run) (Some (t_task_id task))
               (Some (t_agent_id task)) (Some (t_snapshot_id task)) REJECTED
               (Some ''AGENT_ACK_TIMEOUT'') [] w)"

definition expire_dispatch_deadlines :: "instant \<Rightarrow> uuid list \<Rightarrow> world \<Rightarrow> nat \<times> world" where
  "expire_dispatch_deadlines now locked w =
     (let tasks = filter (\<lambda>t. expired now t \<and> t_task_id t \<notin> set locked) (w_tasks w);
          w = foldl (expire_task now) w tasks
      in (length tasks, metric_increment ''agent_tasks_timed_out_total'' (int (length tasks)) w))"

section \<open>Claiming\<close>

lemma due_claimable: "due now t \<Longrightarrow> claimable (t_status t)"
  by (auto simp: due_def claimable_def)

lemma evolves_status:
  "same_identity t t' \<Longrightarrow> t_attempt_count t \<le> t_attempt_count t' \<Longrightarrow> claimable (t_status t) \<Longrightarrow>
   t_status t' \<in> {DISPATCHING, CANCELLED, RETRY, FAILED, TIMED_OUT} \<Longrightarrow> task_evolves t t'"
  by (rule task_evolvesI) (auto intro: task_edge.intros)

lemma initial_state_simps [simp]:
  "rs_agent_id (initial_state a now) = a" "state_checks (initial_state a now)"
  "rs_circuit_state (initial_state a now) = CLOSED"
  by (simp_all add: initial_state_def state_checks_def)

lemma ensure_state_frame:
  assumes "ensure_state now a w = (state, w1)"
  shows "w_tasks w1 = w_tasks w" "w_runs w1 = w_runs w" "w_endpoints w1 = w_endpoints w"
    "get_state a w1 = Some state" "get_state a w = None \<Longrightarrow> state = initial_state a now"
    "k \<noteq> a \<Longrightarrow> get_state k w1 = get_state k w"
  using assms by (auto simp: ensure_state_def world_defs row_get_append split: option.splits)

lemma ensure_state_step:
  assumes "ensure_state now a w = (state, w1)" and "schema_ok w" and "a \<in> ag_agent_id ` set (w_agents w)"
  shows "orch_step w w1" and "state_checks state" and "rs_agent_id state = a"
proof -
  show "orch_step w w1"
    using assms orch_step_add_state [of "initial_state a now" w]
    by (auto simp: ensure_state_def orch_step_refl split: option.splits)
  show "state_checks state"
    using assms schema_state_checks by (auto simp: ensure_state_def split: option.splits)
  show "rs_agent_id state = a"
    using assms get_state_SomeD [of a w] by (auto simp: ensure_state_def split: option.splits)
qed

lemma lease_task_simps [simp]:
  "t_task_id (lease_task dw now t) = t_task_id t" "t_status (lease_task dw now t) = DISPATCHING"
  "t_agent_id (lease_task dw now t) = t_agent_id t" "same_identity t (lease_task dw now t)"
  "t_attempt_count (lease_task dw now t) = t_attempt_count t + 1"
  "t_lease_owner (lease_task dw now t) = Some (dw_worker_id dw)"
  "t_lease_until (lease_task dw now t) = Some (now + td_seconds (dw_lease_seconds dw))"
  by (simp_all add: lease_task_def same_identity_def)

text \<open>What claiming one task does to its row, and when it produces a command.\<close>

lemma claim_task_inv:
  fixes acc :: "dispatch_command list \<times> world"
  assumes "claim_task dw now (commands, w) t = (commands', w')"
    and "ensure_state now (t_agent_id t) w = (state, w1)"
  obtains (dropped) t' where "commands' = commands" "w_tasks w' = w_tasks (put_task t' w)"
      "t' = t\<lparr>t_status := CANCELLED, t_updated_at := now\<rparr>
       \<or> t' = t\<lparr>t_status := FAILED, t_last_error_code := Some ''AGENT_ENDPOINT_MISSING'', t_updated_at := now\<rparr>
       \<or> (\<exists>u. circuit_blocks now state = Some u \<and>
           t' = t\<lparr>t_status := RETRY, t_dispatch_after := u,
                  t_last_error_code := Some ''AGENT_CIRCUIT_OPEN'', t_updated_at := now\<rparr>)"
      "w' = put_task t' w1 \<or> w' = metric_increment ''agent_tasks_failed_total'' 1 (put_task t' w1)"
  | (started) run endpoint where
      "get_run (t_orchestration_run_id t) w = Some run" "\<not> closed_run (r_status run)"
      "get_endpoint (t_agent_id t) w = Some endpoint" "ep_enabled endpoint"
      "circuit_blocks now state = None"
      "commands' = commands @ [command_of (lease_task dw now t) run endpoint]"
      "w' = snd (start_dispatch dw now t run endpoint state w1)"
      "w_tasks w' = w_tasks (put_task (lease_task dw now t) w)"
proof -
  have w1: "w_tasks (put_task t' w1) = w_tasks (put_task t' w)" for t'
    using ensure_state_frame [OF assms(2)] by (simp add: put_task_def)
  show ?thesis
  proof (cases "get_run (t_orchestration_run_id t) w")
    case None
    with assms show ?thesis by (intro dropped) (auto simp: w1 [symmetric])
  next
    case (Some run)
    note run = this
    show ?thesis
    proof (cases "closed_run (r_status run)")
      case True
      with run assms show ?thesis by (intro dropped) (auto simp: w1 [symmetric])
    next
      case False
      note open_run = this
      show ?thesis
      proof (cases "case get_endpoint (t_agent_id t) w of None \<Rightarrow> True | Some e \<Rightarrow> \<not> ep_enabled e")
        case True
        with run open_run assms show ?thesis by (intro dropped) (auto simp: w1 [symmetric])
      next
        case False
        then obtain e where e: "get_endpoint (t_agent_id t) w = Some e" "ep_enabled e"
          by (auto split: option.splits)
        show ?thesis
        proof (cases "circuit_blocks now state")
          case None
          have "w_tasks (snd (start_dispatch dw now t run e state w1)) = w_tasks (put_task (lease_task dw now t) w)"
            by (simp add: start_dispatch_def Let_def put_task_def put_state_def ensure_state_frame [OF assms(2)])
          moreover have "fst (start_dispatch dw now t run e state w1) = command_of (lease_task dw now t) run e"
            by (simp add: start_dispatch_def Let_def)
          ultimately show ?thesis using run open_run e None assms
            by (intro started [of run e]) (auto simp: Let_def split: prod.splits)
        next
          case (Some u)
          with run open_run e assms show ?thesis by (intro dropped) (auto simp: w1 [symmetric])
        qed
      qed
    qed
  qed
qed

lemma dropped_evolves:
  assumes "claimable (t_status t)"
    and "t' = t\<lparr>t_status := CANCELLED, t_updated_at := now\<rparr>
       \<or> t' = t\<lparr>t_status := FAILED, t_last_error_code := e, t_updated_at := now\<rparr>
       \<or> (\<exists>u. Q u \<and> t' = t\<lparr>t_status := RETRY, t_dispatch_after := u, t_last_error_code := e', t_updated_at := now\<rparr>)"
  shows "task_evolves t t'" "t_task_id t' = t_task_id t"
  using assms by (auto intro!: evolves_status simp: same_identity_def)

lemma start_dispatch_step:
  assumes "get_state (t_agent_id t) w = Some state" "state_checks state"
    and "distinct (map t_task_id (w_tasks w))" "get_task (t_task_id t) w = Some t" "claimable (t_status t)"
  shows "orch_step w (snd (start_dispatch dw now t run e state w))"
proof -
  have sid: "rs_agent_id state = t_agent_id t" using get_state_SomeD [OF assms(1)] by simp
  let ?w1 = "if rs_circuit_state state = OPEN
    then put_state (state\<lparr>rs_circuit_state := HALF_OPEN, rs_updated_at := now\<rparr>) w else w"
  have "orch_step w ?w1"
    using orch_step_put_state [of "state\<lparr>rs_circuit_state := HALF_OPEN, rs_updated_at := now\<rparr>" w state]
      assms(1,2) sid orch_step_refl by (auto simp: state_checks_def)
  also have "orch_step ?w1 (put_task (lease_task dw now t) ?w1)"
  proof (rule orch_step_put_task)
    show "task_evolves t (lease_task dw now t)" using assms(5) by (intro evolves_status) simp_all
  qed (use assms in \<open>auto simp: put_state_def get_task_def\<close>)
  finally show ?thesis
    unfolding start_dispatch_def Let_def snd_conv by (rule orch_step_trans) (rule orch_step_quiet)
qed

lemma claim_task_step:
  assumes "claim_task dw now (commands, w) t = (commands', w')" and ok: "schema_ok w"
    and row: "get_task (t_task_id t) w = Some t" and cl: "claimable (t_status t)"
  shows "orch_step w w'" and "k \<noteq> t_task_id t \<Longrightarrow> get_task k w' = get_task k w"
proof -
  obtain state w1 where es: "ensure_state now (t_agent_id t) w = (state, w1)" by fastforce
  note agent = schema_task_agent [OF ok row]
  note frame = ensure_state_frame [OF es] and es_step = ensure_state_step [OF es ok agent]
  have keys1: "distinct (map t_task_id (w_tasks w1))" using schema_task_keys [OF ok] frame(1) by simp
  have row1: "get_task (t_task_id t) w1 = Some t" using row frame(1) by (simp add: get_task_def)
  have "orch_step w w' \<and> (k \<noteq> t_task_id t \<longrightarrow> get_task k w' = get_task k w)"
    using assms(1) es
  proof (cases rule: claim_task_inv)
    case (dropped t')
    note ev = dropped_evolves [OF cl dropped(3)]
    have "orch_step w1 (put_task t' w1)"
      using orch_step_put_task [OF keys1 _ ev(1)] row1 ev(2) by simp
    moreover have "orch_step (put_task t' w1) w'" using dropped(4) orch_step_refl orch_step_quiet by auto
    ultimately have "orch_step w w'" using es_step(1) orch_step_trans by blast
    moreover have "k \<noteq> t_task_id t \<Longrightarrow> get_task k w' = get_task k w"
      using dropped(2) ev(2) get_task_put_task [of k t' w] by (simp add: get_task_def)
    ultimately show ?thesis by blast
  next
    case (started run e)
    have "orch_step w1 w'" unfolding started(7)
      by (rule start_dispatch_step [OF frame(4) es_step(2) keys1 row1 cl])
    then have "orch_step w w'" using es_step(1) orch_step_trans by blast
    moreover have "k \<noteq> t_task_id t \<Longrightarrow> get_task k w' = get_task k w"
      using started(8) get_task_put_task [of k "lease_task dw now t" w] by (simp add: get_task_def)
    ultimately show ?thesis by blast
  qed
  then show "orch_step w w'" and "k \<noteq> t_task_id t \<Longrightarrow> get_task k w' = get_task k w" by auto
qed

lemma claim_task_runs:
  assumes "claim_task dw now (commands, w) t = (commands', w')"
  shows "w_runs w' = w_runs w" and "w_endpoints w' = w_endpoints w"
proof -
  obtain state w1 where es: "ensure_state now (t_agent_id t) w = (state, w1)" by fastforce
  note frame = ensure_state_frame [OF es]
  from assms es have "w_runs w' = w_runs w1 \<and> w_endpoints w' = w_endpoints w1"
    by (cases rule: claim_task_inv) (auto simp: put_task_def start_dispatch_def put_state_def Let_def)
  then show "w_runs w' = w_runs w" and "w_endpoints w' = w_endpoints w" using frame by auto
qed

text \<open>A command stands for its task: same task, agent, run, snapshot and asset, and the stored endpoint.\<close>

definition command_for :: "world \<Rightarrow> agent_task \<Rightarrow> dispatch_command \<Rightarrow> bool" where
  "command_for w t c \<longleftrightarrow>
     (\<exists>run e. get_run (t_orchestration_run_id t) w = Some run \<and> \<not> closed_run (r_status run)
        \<and> get_endpoint (t_agent_id t) w = Some e \<and> ep_enabled e \<and> c = command_of t run e)"

lemma command_of_lease: "command_of (lease_task dw now t) run e = command_of t run e"
  by (simp add: command_of_def lease_task_def)

text \<open>The loop, with the rows of the tasks still to be processed untouched.\<close>

lemma claim_fold:
  assumes "foldl (claim_task dw now) (cs, w) ts = (cs', w')"
    and "schema_ok w" and "distinct (map t_task_id ts)"
    and "\<And>t. t \<in> set ts \<Longrightarrow> get_task (t_task_id t) w = Some t \<and> claimable (t_status t)"
  shows "orch_step w w' \<and> w_runs w' = w_runs w \<and> w_endpoints w' = w_endpoints w
    \<and> (\<forall>k. k \<notin> t_task_id ` set ts \<longrightarrow> get_task k w' = get_task k w)
    \<and> (\<exists>started. cs' = cs @ started \<and> length started \<le> length ts
         \<and> distinct (map cm_task_id started)
         \<and> (\<forall>c \<in> set started. \<exists>t \<in> set ts. cm_task_id c = t_task_id t \<and> command_for w t c
              \<and> get_task (t_task_id t) w' = Some (lease_task dw now t)))"
  using assms
proof (induction ts arbitrary: cs w)
  case Nil
  then show ?case by (simp add: orch_step_refl)
next
  case (Cons t ts)
  obtain cs1 w1 where c1: "claim_task dw now (cs, w) t = (cs1, w1)" by fastforce
  with Cons.prems(1) have fold: "foldl (claim_task dw now) (cs1, w1) ts = (cs', w')"
    by (simp del: claim_task.simps)
  have row: "get_task (t_task_id t) w = Some t" "claimable (t_status t)" using Cons.prems(4) by auto
  note step = claim_task_step [OF c1 Cons.prems(2) row] and runs = claim_task_runs [OF c1]
  have ok1: "schema_ok w1" using orch_step_schema [OF step(1) Cons.prems(2)] .
  have rest: "get_task (t_task_id u) w1 = Some u \<and> claimable (t_status u)" if u: "u \<in> set ts" for u
  proof -
    have "t_task_id u \<noteq> t_task_id t" using Cons.prems(3) imageI [OF u, of t_task_id] by auto
    then have "get_task (t_task_id u) w1 = get_task (t_task_id u) w" by (rule step(2))
    with Cons.prems(4) [of u] u show ?thesis by simp
  qed
  have dist: "distinct (map t_task_id ts)" using Cons.prems(3) by simp
  have IH: "orch_step w1 w' \<and> w_runs w' = w_runs w1 \<and> w_endpoints w' = w_endpoints w1
    \<and> (\<forall>k. k \<notin> t_task_id ` set ts \<longrightarrow> get_task k w' = get_task k w1)
    \<and> (\<exists>started. cs' = cs1 @ started \<and> length started \<le> length ts
         \<and> distinct (map cm_task_id started)
         \<and> (\<forall>c \<in> set started. \<exists>u \<in> set ts. cm_task_id c = t_task_id u \<and> command_for w1 u c
              \<and> get_task (t_task_id u) w' = Some (lease_task dw now u)))"
    by (rule Cons.IH [OF fold ok1 dist rest])
  note ih = IH [THEN conjunct1] IH [THEN conjunct2, THEN conjunct1]
    IH [THEN conjunct2, THEN conjunct2, THEN conjunct1]
    IH [THEN conjunct2, THEN conjunct2, THEN conjunct2, THEN conjunct1, rule_format]
  from IH [THEN conjunct2, THEN conjunct2, THEN conjunct2, THEN conjunct2] obtain started where
    "cs' = cs1 @ started \<and> length started \<le> length ts \<and> distinct (map cm_task_id started)
     \<and> (\<forall>c \<in> set started. \<exists>u \<in> set ts. cm_task_id c = t_task_id u \<and> command_for w1 u c
          \<and> get_task (t_task_id u) w' = Some (lease_task dw now u))"
    by (elim exE)
  then have st: "cs' = cs1 @ started" "length started \<le> length ts" "distinct (map cm_task_id started)"
      "\<And>c. c \<in> set started \<Longrightarrow> \<exists>u \<in> set ts. cm_task_id c = t_task_id u \<and> command_for w1 u c
          \<and> get_task (t_task_id u) w' = Some (lease_task dw now u)"
    by blast+
  have cf: "command_for w1 u c = command_for w u c" for u c
    using runs by (simp add: command_for_def get_run_def get_endpoint_def)
  have t_new: "t_task_id t \<notin> t_task_id ` set ts" using Cons.prems(3) by simp
  obtain state wa where es: "ensure_state now (t_agent_id t) w = (state, wa)" by fastforce
  have first: "cs1 = cs \<or> (\<exists>c. cs1 = cs @ [c] \<and> cm_task_id c = t_task_id t \<and> command_for w t c
      \<and> get_task (t_task_id t) w1 = Some (lease_task dw now t))"
    using c1 es
  proof (cases rule: claim_task_inv)
    case (started run e)
    have "get_task (t_task_id t) w1 = Some (lease_task dw now t)"
      using started(8) row get_task_put_task [of "t_task_id t" "lease_task dw now t" w]
      by (simp add: get_task_def)
    with started show ?thesis
      by (auto simp: command_for_def command_of_lease) (simp add: command_of_def)
  qed simp
  have "\<exists>started'. cs' = cs @ started' \<and> length started' \<le> length (t # ts)
       \<and> distinct (map cm_task_id started')
       \<and> (\<forall>c \<in> set started'. \<exists>u \<in> set (t # ts). cm_task_id c = t_task_id u \<and> command_for w u c
            \<and> get_task (t_task_id u) w' = Some (lease_task dw now u))"
    using first
  proof
    assume "cs1 = cs"
    with st cf show ?thesis by (intro exI [of _ started]) simp
  next
    assume "\<exists>c. cs1 = cs @ [c] \<and> cm_task_id c = t_task_id t \<and> command_for w t c
      \<and> get_task (t_task_id t) w1 = Some (lease_task dw now t)"
    then obtain c where c: "cs1 = cs @ [c]" "cm_task_id c = t_task_id t" "command_for w t c"
      "get_task (t_task_id t) w1 = Some (lease_task dw now t)" by blast
    have new: "cm_task_id c \<notin> cm_task_id ` set started"
    proof
      assume "cm_task_id c \<in> cm_task_id ` set started"
      then obtain d where "d \<in> set started" "cm_task_id d = t_task_id t" using c(2) by auto
      with st(4) t_new show False by (metis imageI)
    qed
    have last: "get_task (t_task_id t) w' = Some (lease_task dw now t)" using ih(4) [OF t_new] c(4) by simp
    have "\<exists>u \<in> set (t # ts). cm_task_id d = t_task_id u \<and> command_for w u d
        \<and> get_task (t_task_id u) w' = Some (lease_task dw now u)" if "d \<in> set (c # started)" for d
      using that st(4) [of d] c last cf by (cases "d = c") (simp, fastforce)
    then show ?thesis
      using c(1) st(1-3) new by (intro exI [of _ "c # started"]) simp
  qed
  moreover have "orch_step w w'" using step(1) ih(1) orch_step_trans by blast
  ultimately show ?case using ih(2-4) runs step(2) by auto
qed

lemma select_due_mem:
  assumes "t \<in> set (select_due n now locked w)"
  shows "t \<in> set (w_tasks w)" and "due now t" and "t_task_id t \<notin> set locked"
  using in_set_takeD [OF assms [unfolded select_due_def]] by auto

lemma select_due_length: "length (select_due n now locked w) \<le> n"
  by (simp add: select_due_def)

lemma select_due_distinct: "schema_ok w \<Longrightarrow> distinct (map t_task_id (select_due n now locked w))"
proof -
  assume "schema_ok w"
  then have "distinct (map t_task_id (filter (\<lambda>t. due now t \<and> t_task_id t \<notin> set locked) (w_tasks w)))"
    by (rule distinct_map_filter [OF schema_task_keys])
  then show ?thesis by (simp add: select_due_def take_map [symmetric] distinct_map)
qed

lemma claim_facts:
  assumes "claim dw now locked w = (cs, w')" and ok: "schema_ok w"
  shows "orch_step w w'" and "w_runs w' = w_runs w"
    and "k \<notin> t_task_id ` set (select_due (dw_batch_size dw) now locked w) \<Longrightarrow> get_task k w' = get_task k w"
    and "distinct (map cm_task_id cs)" and "length cs \<le> dw_batch_size dw"
    and "c \<in> set cs \<Longrightarrow> \<exists>t. get_task (cm_task_id c) w = Some t \<and> due now t \<and> cm_task_id c \<notin> set locked
        \<and> command_for w t c \<and> get_task (cm_task_id c) w' = Some (lease_task dw now t)"
proof -
  let ?ts = "select_due (dw_batch_size dw) now locked w"
  have row: "get_task (t_task_id t) w = Some t" if "t \<in> set ?ts" for t
    unfolding get_task_def by (rule row_get_mem [OF schema_task_keys [OF ok]]) (rule select_due_mem(1) [OF that])
  have facts: "orch_step w w' \<and> w_runs w' = w_runs w \<and> w_endpoints w' = w_endpoints w
    \<and> (\<forall>k. k \<notin> t_task_id ` set ?ts \<longrightarrow> get_task k w' = get_task k w)
    \<and> (\<exists>started. cs = [] @ started \<and> length started \<le> length ?ts
         \<and> distinct (map cm_task_id started)
         \<and> (\<forall>c \<in> set started. \<exists>t \<in> set ?ts. cm_task_id c = t_task_id t \<and> command_for w t c
              \<and> get_task (t_task_id t) w' = Some (lease_task dw now t)))"
    by (rule claim_fold [OF assms(1) [unfolded claim_def] ok select_due_distinct [OF ok]])
      (simp add: row due_claimable [OF select_due_mem(2)])
  from facts show "orch_step w w'" and "w_runs w' = w_runs w" by blast+
  from facts show "k \<notin> t_task_id ` set ?ts \<Longrightarrow> get_task k w' = get_task k w" by blast
  from facts show "distinct (map cm_task_id cs)" by auto
  from facts select_due_length [of "dw_batch_size dw" now locked w] show "length cs \<le> dw_batch_size dw"
    by auto
  assume "c \<in> set cs"
  with facts obtain t where t: "t \<in> set ?ts" "cm_task_id c = t_task_id t" "command_for w t c"
    "get_task (t_task_id t) w' = Some (lease_task dw now t)"
    by auto
  then show "\<exists>t. get_task (cm_task_id c) w = Some t \<and> due now t \<and> cm_task_id c \<notin> set locked
        \<and> command_for w t c \<and> get_task (cm_task_id c) w' = Some (lease_task dw now t)"
    using row [OF t(1)] select_due_mem [OF t(1)] by (intro exI [of _ t]) simp
qed

section \<open>Recording results\<close>

lemma note_failure_simps [simp]:
  "rs_agent_id (note_failure dw now r s) = rs_agent_id s"
  "rs_consecutive_failures (note_failure dw now r s) = rs_consecutive_failures s + 1"
  "rs_availability (note_failure dw now r s) = DEGRADED"
  "rs_last_error_code (note_failure dw now r s) = dr_error_code r"
  by (simp_all add: note_failure_def Let_def)

definition released :: "instant \<Rightarrow> agent_task \<Rightarrow> agent_task" where
  "released now t = t\<lparr>t_lease_owner := None, t_lease_until := None, t_updated_at := now\<rparr>"

definition touched :: "instant \<Rightarrow> dispatch_result \<Rightarrow> agent_runtime_state \<Rightarrow> agent_runtime_state" where
  "touched now r s = (case dr_latency_ms r of None \<Rightarrow> s\<lparr>rs_updated_at := now\<rparr>
     | Some l \<Rightarrow> s\<lparr>rs_updated_at := now, rs_latency_ms := Some l\<rparr>)"

lemma touched_simps [simp]:
  "rs_agent_id (touched now r s) = rs_agent_id s"
  "rs_consecutive_failures (touched now r s) = rs_consecutive_failures s"
  "rs_circuit_state (touched now r s) = rs_circuit_state s"
  "rs_circuit_open_until (touched now r s) = rs_circuit_open_until s"
  "state_checks (touched now r s) = state_checks s"
  by (simp_all add: touched_def state_checks_def split: option.split)

definition acked :: "instant \<Rightarrow> dispatch_result \<Rightarrow> agent_task \<Rightarrow> agent_task" where
  "acked now r t = (released now t)\<lparr>t_status := WAITING_SIGNAL,
     t_acknowledged_at := Some (case dr_ack r of Some ack \<Rightarrow> ack_accepted_at ack | None \<Rightarrow> now),
     t_last_error_code := None\<rparr>"

definition healthy :: "instant \<Rightarrow> agent_runtime_state \<Rightarrow> agent_runtime_state" where
  "healthy now s = s\<lparr>rs_availability := HEALTHY, rs_last_seen_at := Some now,
     rs_last_ack_at := Some now, rs_last_success_at := Some now, rs_consecutive_failures := 0,
     rs_circuit_state := CLOSED, rs_circuit_open_until := None\<rparr>"

text \<open>The tables after a result, by the three ways it is recorded.\<close>

lemma record_result_tables:
  fixes now :: instant and rnd :: rat and r :: dispatch_result
  assumes "get_task (cm_task_id c) w = Some t" "get_state (cm_agent_id c) w = Some s"
    "get_run (cm_orchestration_run_id c) w = Some run" and own: "owns dw t"
  defines "w' \<equiv> record_result dw now rnd c r w" and "fs \<equiv> note_failure dw now r (touched now r s)"
  shows "\<exists>t' s'. w_tasks w' = w_tasks (put_task t' w) \<and> w_states w' = w_states (put_state s' w)
      \<and> w_agents w' = w_agents w \<and> w_snapshots w' = w_snapshots w \<and> w_nonces w' = w_nonces w
      \<and> w_signals w' = w_signals w \<and> w_outbox w' = w_outbox w \<and> w_endpoints w' = w_endpoints w
      \<and> w_uuid_src w' = w_uuid_src w
      \<and> (if dr_disposition r = D_ACKNOWLEDGED
         then t' = acked now r t \<and> s' = healthy now (touched now r s)
           \<and> w_runs w' = w_runs (put_run (run\<lparr>r_status := R_COLLECTING\<rparr>) w)
         else w_runs w' = w_runs w \<and>
           (if can_retry dw now r t
            then t' = (released now t)\<lparr>t_status := RETRY, t_dispatch_after := retry_time dw now rnd t fs,
                        t_last_error_code := dr_error_code r\<rparr> \<and> s' = fs
            else t' = (released now t)\<lparr>t_status := FAILED, t_last_error_code := dr_error_code r\<rparr>
                 \<and> s' = fs\<lparr>rs_availability := UNAVAILABLE\<rparr>))"
proof -
  let ?t = "released now t" and ?s = "touched now r s"
  let ?w = "case dr_latency_ms r of None \<Rightarrow> w
    | Some l \<Rightarrow> metric_observe ''agent_dispatch_latency'' l (metric_observe ''agent_ack_latency'' l w)"
  have nr: "t_status t \<noteq> SIGNAL_RECEIVED" using own by (auto simp: owns_def)
  have ts: "(case dr_latency_ms r of None \<Rightarrow> s\<lparr>rs_updated_at := now\<rparr>
      | Some l \<Rightarrow> s\<lparr>rs_updated_at := now\<rparr>\<lparr>rs_latency_ms := Some l\<rparr>) = ?s"
    by (simp add: touched_def split: option.split)
  have w': "w' = (if dr_disposition r = D_ACKNOWLEDGED then record_ack now ?t ?s run r ?w
      else record_failure dw now rnd ?t ?s run r ?w)"
    unfolding w'_def record_result_def assms(1-3) prod.case option.case
    using own nr ts by (simp add: released_def Let_def)
  have frame: "w_tasks ?w = w_tasks w" "w_states ?w = w_states w" "w_runs ?w = w_runs w"
    "w_agents ?w = w_agents w" "w_snapshots ?w = w_snapshots w" "w_nonces ?w = w_nonces w"
    "w_signals ?w = w_signals w" "w_outbox ?w = w_outbox w" "w_endpoints ?w = w_endpoints w"
    "w_uuid_src ?w = w_uuid_src w"
    by (auto split: option.split)
  have same: "can_retry dw now r ?t = can_retry dw now r t"
    "retry_time dw now rnd ?t st = retry_time dw now rnd t st" for st
    by (simp_all add: can_retry_def released_def retry_time_def)
  show ?thesis
  proof (cases "dr_disposition r = D_ACKNOWLEDGED")
    case True
    then show ?thesis unfolding w'
      by (intro exI [of _ "acked now r t"] exI [of _ "healthy now ?s"])
        (simp add: record_ack_def Let_def frame put_task_def put_state_def put_run_def acked_def healthy_def)
  next
    case False
    show ?thesis
    proof (cases "can_retry dw now r t")
      case True
      with False show ?thesis unfolding w'
        by (intro exI [of _ "?t\<lparr>t_status := RETRY, t_dispatch_after := retry_time dw now rnd t fs,
              t_last_error_code := dr_error_code r\<rparr>"] exI [of _ fs])
          (simp add: record_failure_def Let_def frame same put_task_def put_state_def fs_def)
    next
      case False
      with \<open>dr_disposition r \<noteq> D_ACKNOWLEDGED\<close> show ?thesis unfolding w'
        by (intro exI [of _ "?t\<lparr>t_status := FAILED, t_last_error_code := dr_error_code r\<rparr>"] exI [of _ "fs\<lparr>rs_availability := UNAVAILABLE\<rparr>"])
          (simp add: record_failure_def Let_def frame same put_task_def put_state_def fs_def)
    qed
  qed
qed

lemma result_row:
  assumes "owns dw t"
    and "t' = acked now r t \<or> (\<exists>d. t' = (released now t)\<lparr>t_status := RETRY, t_dispatch_after := d,
           t_last_error_code := e\<rparr>) \<or> t' = (released now t)\<lparr>t_status := FAILED, t_last_error_code := e\<rparr>"
  shows "task_evolves t t'" and "t_task_id t' = t_task_id t"
proof -
  have "same_identity t t' \<and> t_attempt_count t' = t_attempt_count t \<and> task_edge (t_status t) (t_status t')"
    using assms by (auto simp: same_identity_def acked_def released_def owns_def claimable_def task_edge_iff)
  then show "task_evolves t t'" and "t_task_id t' = t_task_id t"
    by (auto intro!: task_evolvesI simp: same_identity_def)
qed

lemma put_state_agents: "w_agents (put_state s w) = w_agents w"
  by (simp add: put_state_def)

lemma record_result_step:
  assumes ok: "schema_ok w"
  shows "orch_step w (record_result dw now rnd c r w)"
proof (cases "\<exists>t s run. get_task (cm_task_id c) w = Some t \<and> get_state (cm_agent_id c) w = Some s
    \<and> get_run (cm_orchestration_run_id c) w = Some run \<and> owns dw t")
  case True
  then obtain t s run where rows: "get_task (cm_task_id c) w = Some t" "get_state (cm_agent_id c) w = Some s"
    "get_run (cm_orchestration_run_id c) w = Some run" and own: "owns dw t" by blast
  let ?w = "record_result dw now rnd c r w" and ?fs = "note_failure dw now r (touched now r s)"
  from record_result_tables [OF rows own, of now rnd r] obtain t' s' where
    tabs: "w_tasks ?w = w_tasks (put_task t' w)" "w_states ?w = w_states (put_state s' w)"
      "w_agents ?w = w_agents w" "w_snapshots ?w = w_snapshots w" "w_nonces ?w = w_nonces w"
      "w_signals ?w = w_signals w" "w_outbox ?w = w_outbox w" "w_endpoints ?w = w_endpoints w"
      "w_uuid_src ?w = w_uuid_src w"
    and cases: "if dr_disposition r = D_ACKNOWLEDGED
       then t' = acked now r t \<and> s' = healthy now (touched now r s)
         \<and> w_runs ?w = w_runs (put_run (run\<lparr>r_status := R_COLLECTING\<rparr>) w)
       else w_runs ?w = w_runs w \<and>
         (if can_retry dw now r t
          then t' = (released now t)\<lparr>t_status := RETRY, t_dispatch_after := retry_time dw now rnd t ?fs,
                      t_last_error_code := dr_error_code r\<rparr> \<and> s' = ?fs
          else t' = (released now t)\<lparr>t_status := FAILED, t_last_error_code := dr_error_code r\<rparr>
               \<and> s' = ?fs\<lparr>rs_availability := UNAVAILABLE\<rparr>)"
    by (elim exE conjE)
  from cases have t': "t' = acked now r t \<or> (\<exists>d. t' = (released now t)\<lparr>t_status := RETRY, t_dispatch_after := d,
           t_last_error_code := dr_error_code r\<rparr>)
         \<or> t' = (released now t)\<lparr>t_status := FAILED, t_last_error_code := dr_error_code r\<rparr>"
    by (auto split: if_splits)
  from cases have runs: "w_runs ?w = w_runs w \<or> w_runs ?w = w_runs (put_run (run\<lparr>r_status := R_COLLECTING\<rparr>) w)"
    by (auto split: if_splits)
  have s': "rs_agent_id s' = rs_agent_id s" "state_checks s'"
    using cases schema_state_checks [OF ok rows(2)]
    by (auto simp: state_checks_def healthy_def split: if_splits)
  note row = result_row [OF own t']
  have "orch_step w (put_task t' w)"
    by (rule orch_step_put_task [OF schema_task_keys [OF ok] _ row(1)])
      (use rows(1) row(2) get_task_SomeD [OF rows(1)] in simp)
  then have tasks: "list_all2 task_evolves (w_tasks w) (w_tasks ?w)"
    unfolding tabs(1) by (rule orch_step_tasks)
  have "orch_step w (put_state s' w)"
    by (rule orch_step_put_state [OF _ s'(2)]) (use rows(2) s'(1) get_state_SomeD [OF rows(2)] in simp)
  then have "states_ok (put_state s' w)" using orch_step_states schema_states_ok [OF ok] by blast
  then have states: "states_ok ?w" unfolding states_ok_def tabs(2,3) put_state_agents by blast
  have "orch_step w (put_run (run\<lparr>r_status := R_COLLECTING\<rparr>) w)"
    by (rule orch_step_put_run [OF schema_run_keys [OF ok] _ run_keptI(2)])
      (use rows(3) get_run_SomeD [OF rows(3)] in simp)
  then have "list_all2 run_kept (w_runs w) (w_runs ?w)"
    using runs runs_kept_refl [of "w_runs w"] orch_step_runs by auto
  with tasks states tabs show ?thesis unfolding orch_step_def by simp
next
  case False
  then have "record_result dw now rnd c r w = w"
    by (auto simp: record_result_def split: option.splits)
  then show ?thesis by (simp add: orch_step_refl)
qed

lemma dispatch_commands_step:
  "schema_ok w \<Longrightarrow> dispatch_commands dw readings send i cs w = (e, w') \<Longrightarrow> orch_step w w'"
proof (induction cs arbitrary: i w)
  case Nil
  then show ?case by (simp add: orch_step_refl)
next
  case (Cons c cs)
  obtain before after rnd where r: "readings i = (before, after, rnd)" by (cases "readings i") auto
  show ?case
  proof (cases "send c (int_timestamp before)")
    case (Inl x)
    with Cons.prems r show ?thesis by (simp add: orch_step_refl)
  next
    case (Inr res)
    note step = record_result_step [OF Cons.prems(1), of dw after rnd c res]
    from Cons.prems(2) r Inr have "dispatch_commands dw readings send (Suc i) cs (record_result dw after rnd c res w) = (e, w')"
      by simp
    from Cons.IH [OF orch_step_schema [OF step Cons.prems(1)] this] step show ?thesis
      using orch_step_trans by blast
  qed
qed

lemma record_result_runs:
  "w_runs (record_result dw now rnd c r w) = w_runs w
   \<or> (\<exists>run. get_run (cm_orchestration_run_id c) w = Some run
        \<and> w_runs (record_result dw now rnd c r w) = w_runs (put_run (run\<lparr>r_status := R_COLLECTING\<rparr>) w))"
proof (cases "\<exists>t s run. get_task (cm_task_id c) w = Some t \<and> get_state (cm_agent_id c) w = Some s
    \<and> get_run (cm_orchestration_run_id c) w = Some run \<and> owns dw t")
  case True
  then obtain t s run where rows: "get_task (cm_task_id c) w = Some t" "get_state (cm_agent_id c) w = Some s"
    "get_run (cm_orchestration_run_id c) w = Some run" and own: "owns dw t" by blast
  from record_result_tables [OF rows own, of now rnd r] rows(3) show ?thesis by (auto split: if_splits)
next
  case False
  then have "record_result dw now rnd c r w = w" by (auto simp: record_result_def split: option.splits)
  then show ?thesis by simp
qed

text \<open>What the dispatcher does to a run: an acknowledgement makes it COLLECTING.\<close>

definition run_collecting :: "orchestration_run \<Rightarrow> orchestration_run \<Rightarrow> bool" where
  "run_collecting r r' \<longleftrightarrow> r' = r \<or> r' = r\<lparr>r_status := R_COLLECTING\<rparr>"

lemma run_collecting_refl: "reflp run_collecting"
  by (rule reflpI) (simp add: run_collecting_def)

lemma run_collecting_trans: "transp run_collecting"
  by (rule transpI) (auto simp: run_collecting_def)

lemma record_result_collecting:
  assumes "schema_ok w"
  shows "list_all2 run_collecting (w_runs w) (w_runs (record_result dw now rnd c r w))"
  using record_result_runs [of dw now rnd c r w]
proof (elim disjE exE conjE)
  assume "w_runs (record_result dw now rnd c r w) = w_runs w"
  then show ?thesis by (simp add: list_all2_refl run_collecting_def)
next
  fix run assume run: "get_run (cm_orchestration_run_id c) w = Some run"
    and put: "w_runs (record_result dw now rnd c r w) = w_runs (put_run (run\<lparr>r_status := R_COLLECTING\<rparr>) w)"
  have "get_run (r_orchestration_run_id run) w = Some run" using run get_run_SomeD [OF run] by simp
  then show ?thesis
    using row_put_rel [OF run_collecting_refl schema_run_keys [OF assms], of "run\<lparr>r_status := R_COLLECTING\<rparr>" run] put
    by (simp add: get_run_def put_run_def run_collecting_def)
qed

lemma dispatch_commands_collecting:
  "schema_ok w \<Longrightarrow> dispatch_commands dw readings send i cs w = (e, w') \<Longrightarrow>
   list_all2 run_collecting (w_runs w) (w_runs w')"
proof (induction cs arbitrary: i w)
  case Nil
  then show ?case by (simp add: list_all2_refl run_collecting_def)
next
  case (Cons c cs)
  obtain before after rnd where r: "readings i = (before, after, rnd)" by (cases "readings i") auto
  show ?case
  proof (cases "send c (int_timestamp before)")
    case (Inl x)
    with Cons.prems r show ?thesis by (simp add: list_all2_refl run_collecting_def)
  next
    case (Inr res)
    note step = record_result_step [OF Cons.prems(1), of dw after rnd c res]
    from Cons.prems(2) r Inr have "dispatch_commands dw readings send (Suc i) cs (record_result dw after rnd c res w) = (e, w')"
      by simp
    from Cons.IH [OF orch_step_schema [OF step Cons.prems(1)] this] show ?thesis
      by (rule list_all2_rows_trans [OF run_collecting_trans record_result_collecting [OF Cons.prems(1)]])
  qed
qed

section \<open>Expiry\<close>

definition timed_out :: "instant \<Rightarrow> agent_task \<Rightarrow> agent_task" where
  "timed_out now t = t\<lparr>t_status := TIMED_OUT, t_last_error_code := Some ''AGENT_ACK_TIMEOUT'',
     t_lease_owner := None, t_lease_until := None, t_updated_at := now\<rparr>"

lemma expire_task_tables:
  "w_tasks (expire_task now w t) = w_tasks (put_task (timed_out now t) w)"
  "orch_step (put_task (timed_out now t) w) (expire_task now w t)"
  unfolding expire_task_def Let_def timed_out_def [symmetric]
  by (auto simp: orch_step_refl orch_step_quiet split: option.split)

lemma expired_evolves: "expired now t \<Longrightarrow> task_evolves t (timed_out now t)"
  by (rule evolves_status) (auto simp: expired_def timed_out_def claimable_def same_identity_def)

lemma expire_fold:
  assumes "schema_ok w" and "distinct (map t_task_id ts)"
    and "\<And>t. t \<in> set ts \<Longrightarrow> get_task (t_task_id t) w = Some t \<and> expired now t"
  shows "orch_step w (foldl (expire_task now) w ts)
    \<and> (\<forall>t \<in> set ts. get_task (t_task_id t) (foldl (expire_task now) w ts) = Some (timed_out now t))
    \<and> (\<forall>k. k \<notin> t_task_id ` set ts \<longrightarrow> get_task k (foldl (expire_task now) w ts) = get_task k w)"
  using assms
proof (induction ts arbitrary: w)
  case Nil
  then show ?case by (simp add: orch_step_refl)
next
  case (Cons t ts)
  let ?w1 = "expire_task now w t"
  have t: "get_task (t_task_id t) w = Some t" "expired now t" using Cons.prems(3) by auto
  have id: "t_task_id (timed_out now t) = t_task_id t" by (simp add: timed_out_def)
  have "orch_step w (put_task (timed_out now t) w)"
    by (rule orch_step_put_task [OF schema_task_keys [OF Cons.prems(1)] _ expired_evolves [OF t(2)]])
      (simp add: id t)
  then have step: "orch_step w ?w1" using expire_task_tables(2) orch_step_trans by blast
  have g: "get_task k ?w1 = (if k = t_task_id t then Some (timed_out now t) else get_task k w)" for k
    using get_task_put_task [of k "timed_out now t" w] t(1) expire_task_tables(1) [of now w t]
    by (auto simp: get_task_def id)
  have new: "t_task_id t \<notin> t_task_id ` set ts" and dist: "distinct (map t_task_id ts)"
    using Cons.prems(2) by auto
  have rest: "get_task (t_task_id u) ?w1 = Some u \<and> expired now u" if u: "u \<in> set ts" for u
  proof -
    have "t_task_id u \<noteq> t_task_id t" using new imageI [OF u, of t_task_id] by auto
    then show ?thesis using Cons.prems(3) [of u] u by (simp add: g)
  qed
  have IH: "orch_step ?w1 (foldl (expire_task now) ?w1 ts)
    \<and> (\<forall>t \<in> set ts. get_task (t_task_id t) (foldl (expire_task now) ?w1 ts) = Some (timed_out now t))
    \<and> (\<forall>k. k \<notin> t_task_id ` set ts \<longrightarrow> get_task k (foldl (expire_task now) ?w1 ts) = get_task k ?w1)"
    by (rule Cons.IH [OF orch_step_schema [OF step Cons.prems(1)] dist rest])
  have "orch_step w (foldl (expire_task now) ?w1 ts)" using step IH orch_step_trans by blast
  moreover have "get_task (t_task_id t) (foldl (expire_task now) ?w1 ts) = Some (timed_out now t)"
    using IH new by (simp add: g)
  ultimately show ?case using IH by (simp add: g)
qed

lemma expire_facts:
  assumes ok: "schema_ok w" and ex: "expire_dispatch_deadlines now locked w = (n, w')"
  shows "orch_step w w'"
    and "t \<in> set (w_tasks w) \<Longrightarrow> get_task (t_task_id t) w' =
      Some (if expired now t \<and> t_task_id t \<notin> set locked then timed_out now t else t)"
    and "n = length (filter (\<lambda>t. expired now t \<and> t_task_id t \<notin> set locked) (w_tasks w))"
proof -
  let ?ts = "filter (\<lambda>t. expired now t \<and> t_task_id t \<notin> set locked) (w_tasks w)"
  have row: "get_task (t_task_id t) w = Some t" if "t \<in> set (w_tasks w)" for t
    unfolding get_task_def by (rule row_get_mem [OF schema_task_keys [OF ok] that])
  note fold = expire_fold [OF ok distinct_map_filter [OF schema_task_keys [OF ok]],
      of "\<lambda>t. expired now t \<and> t_task_id t \<notin> set locked" now]
  have facts: "orch_step w (foldl (expire_task now) w ?ts)
    \<and> (\<forall>t \<in> set ?ts. get_task (t_task_id t) (foldl (expire_task now) w ?ts) = Some (timed_out now t))
    \<and> (\<forall>k. k \<notin> t_task_id ` set ?ts \<longrightarrow> get_task k (foldl (expire_task now) w ?ts) = get_task k w)"
    by (rule fold) (simp add: row)
  from ex show "n = length ?ts" by (simp add: expire_dispatch_deadlines_def Let_def)
  have w': "w' = metric_increment ''agent_tasks_timed_out_total'' (int (length ?ts)) (foldl (expire_task now) w ?ts)"
    using ex unfolding expire_dispatch_deadlines_def Let_def by blast
  show "orch_step w w'" unfolding w' using facts orch_step_quiet(1) orch_step_trans by blast
  assume t: "t \<in> set (w_tasks w)"
  show "get_task (t_task_id t) w' =
      Some (if expired now t \<and> t_task_id t \<notin> set locked then timed_out now t else t)"
  proof (cases "expired now t \<and> t_task_id t \<notin> set locked")
    case True
    with t have "t \<in> set ?ts" by simp
    with facts True show ?thesis by (simp add: w')
  next
    case False
    have "t_task_id t \<notin> t_task_id ` set ?ts"
    proof
      assume "t_task_id t \<in> t_task_id ` set ?ts"
      then obtain u where u: "u \<in> set ?ts" "t_task_id u = t_task_id t" by auto
      with row [of u] row [OF t] have "u = t" by simp
      with u False show False by simp
    qed
    with facts have "get_task (t_task_id t) (foldl (expire_task now) w ?ts) = get_task (t_task_id t) w"
      by blast
    with row [OF t] show ?thesis unfolding w' get_frame if_not_P [OF False] by simp
  qed
qed

section \<open>Properties\<close>

text \<open>C6 Claiming is exclusive and faithful: every command stands for a due task that no other
  transaction had locked, is sent to the stored endpoint of the task's own agent, with the
  task's run, snapshot and asset, and only if that run is still open and the endpoint
  enabled; the task is then leased to this worker with one more attempt.  No task is claimed
  twice, at most \<open>batch_size\<close> are claimed, and a task whose lease has not expired keeps its row.\<close>

theorem claim_exclusive:
  assumes "claim dw now locked w = (commands, w')" and "schema_ok w"
  shows "(\<forall>c \<in> set commands. \<exists>t. get_task (cm_task_id c) w = Some t \<and> due now t
            \<and> cm_task_id c \<notin> set locked \<and> command_for w t c
            \<and> get_task (cm_task_id c) w' = Some (lease_task dw now t))
     \<and> distinct (map cm_task_id commands) \<and> length commands \<le> dw_batch_size dw
     \<and> (\<forall>t \<in> set (w_tasks w). \<forall>u. t_status t = DISPATCHING \<and> t_lease_until t = Some u \<and> now \<le> u
            \<longrightarrow> get_task (t_task_id t) w' = Some t)"
proof -
  note facts = claim_facts [OF assms]
  have "get_task (t_task_id t) w' = Some t"
    if t: "t \<in> set (w_tasks w)" "t_status t = DISPATCHING" "t_lease_until t = Some u" "now \<le> u" for t u
  proof -
    have row: "get_task (t_task_id t) w = Some t"
      unfolding get_task_def by (rule row_get_mem [OF schema_task_keys [OF assms(2)] t(1)])
    have "\<not> due now t" using t by (simp add: due_def)
    have "t_task_id t \<notin> t_task_id ` set (select_due (dw_batch_size dw) now locked w)"
    proof
      assume "t_task_id t \<in> t_task_id ` set (select_due (dw_batch_size dw) now locked w)"
      then obtain v where v: "v \<in> set (select_due (dw_batch_size dw) now locked w)" "t_task_id t = t_task_id v"
        by auto
      have "get_task (t_task_id v) w = Some v"
        unfolding get_task_def
        by (rule row_get_mem [OF schema_task_keys [OF assms(2)] select_due_mem(1) [OF v(1)]])
      then have "v = t" using row v(2) by simp
      with select_due_mem(2) [OF v(1)] \<open>\<not> due now t\<close> show False by blast
    qed
    from facts(3) [OF this] row show ?thesis by simp
  qed
  then show ?thesis using facts(4,5,6) by blast
qed

definition sample_worker :: "string \<Rightarrow> dispatch_worker" where
  "sample_worker name = \<lparr>dw_worker_id = name, dw_batch_size = 20, dw_lease_seconds = 80,
     dw_max_attempts = 5, dw_base_seconds = 5, dw_max_seconds = 300,
     dw_circuit_failure_threshold = 3, dw_circuit_open_seconds = 120\<rparr>"

definition running_world :: world where
  "running_world = planned_world\<lparr>w_states := [sample_state]\<rparr>"

lemma running_schema: "schema_ok running_world"
  by (simp add: schema_ok_def keys_ok_def refs_ok_def checks_ok_def running_world_def sample_worlds
      sample_rows task_checks_def run_checks_def state_checks_def assignment_key_def)

lemma sample_due: "select_due (dw_batch_size (sample_worker wk)) 5 [] running_world = [sample_task]"
proof -
  have "due 5 sample_task" by (simp add: due_def sample_task_def)
  then show ?thesis by (simp add: select_due_def sample_worker_def running_world_def sample_worlds)
qed

lemma running_rows:
  "get_run 700 running_world = Some sample_run" "get_endpoint ''ETH_TECH'' running_world = Some sample_endpoint"
  "get_state ''ETH_TECH'' running_world = Some sample_state"
  by (simp_all add: running_world_def sample_worlds world_defs) (simp_all add: sample_rows)

lemma sample_claim_command:
  "fst (claim (sample_worker wk) 5 [] running_world) = [command_of sample_task sample_run sample_endpoint]"
proof -
  have ids: "t_orchestration_run_id sample_task = 700" "t_agent_id sample_task = ''ETH_TECH''"
    by (simp_all add: sample_task_def)
  have open_run: "\<not> closed_run (r_status sample_run)" "ep_enabled sample_endpoint"
    "circuit_blocks 5 sample_state = None"
    by (simp_all add: closed_run_def circuit_blocks_def sample_rows)
  show ?thesis
    by (simp add: claim_def sample_due ids running_rows ensure_state_def open_run start_dispatch_def
        Let_def command_of_lease)
qed

lemma sample_claim:
  "claim (sample_worker wk) 5 [] running_world =
     ([command_of sample_task sample_run sample_endpoint], snd (claim (sample_worker wk) 5 [] running_world))"
  by (rule prod_eqI) (simp_all add: sample_claim_command)

theorem claim_exclusive_witness:
  "get_task 800 (snd (claim (sample_worker ''w'') 5 [] running_world)) =
     Some (lease_task (sample_worker ''w'') 5 sample_task)"
proof -
  have "get_task 800 running_world = Some sample_task"
    by (simp add: running_world_def sample_worlds world_defs) (simp add: sample_task_def)
  then show ?thesis
    using claim_exclusive [OF sample_claim running_schema, of "''w''"]
    by (auto simp: command_of_def sample_task_def)
qed

text \<open>Leases fence late results: once another worker has claimed a task, a result for it that
  comes back to a worker with a different identifier changes nothing.\<close>

theorem stale_result_discarded:
  assumes "claim dw now locked w = (commands, w')" and "schema_ok w" and "c \<in> set commands"
    and "dw_worker_id old \<noteq> dw_worker_id dw" and "cm_task_id late = cm_task_id c"
  shows "record_result old later rnd late r w' = w'"
proof -
  from claim_facts(6) [OF assms(1-3)] obtain t where "get_task (cm_task_id c) w' = Some (lease_task dw now t)"
    by blast
  with assms(4,5) show ?thesis
    by (auto simp: record_result_def owns_def split: option.splits)
qed

theorem stale_result_discarded_witness:
  "record_result (sample_worker ''old'') 9 0 (command_of sample_task sample_run sample_endpoint)
     (permanent ''X'' None) (snd (claim (sample_worker ''new'') 5 [] running_world))
   = snd (claim (sample_worker ''new'') 5 [] running_world)"
  by (rule stale_result_discarded [OF sample_claim running_schema]) (simp_all add: sample_worker_def)

text \<open>What a worker records for its own task: the lease is released and the attempt kept; an
  acknowledgement makes the task wait for its signal; otherwise it is retried exactly when the
  failure is retryable, attempts are left and the dispatch deadline is ahead, strictly later
  than now and not before an open circuit closes; in every other case it fails with the
  result's error code.\<close>

theorem record_result_outcome:
  assumes "get_task (cm_task_id c) w = Some t" "get_state (cm_agent_id c) w = Some s"
    "get_run (cm_orchestration_run_id c) w = Some run" "owns dw t"
    and "backoff_settings (dw_base_seconds dw) (dw_max_seconds dw)" and "unit_sample rnd"
  shows "\<exists>t'. get_task (cm_task_id c) (record_result dw now rnd c r w) = Some t'
     \<and> t_lease_owner t' = None \<and> t_lease_until t' = None \<and> t_attempt_count t' = t_attempt_count t
     \<and> (if dr_disposition r = D_ACKNOWLEDGED then t_status t' = WAITING_SIGNAL \<and> t_last_error_code t' = None
        else t_last_error_code t' = dr_error_code r \<and>
          (if dr_disposition r = D_RETRYABLE \<and> t_attempt_count t < dw_max_attempts dw \<and> now < t_dispatch_deadline t
           then t_status t' = RETRY \<and> now < t_dispatch_after t'
             \<and> (dw_circuit_failure_threshold dw \<le> rs_consecutive_failures s + 1 \<longrightarrow>
                  now + seconds (dw_circuit_open_seconds dw) \<le> t_dispatch_after t')
           else t_status t' = FAILED))"
proof -
  let ?fs = "note_failure dw now r (touched now r s)"
  from record_result_tables [OF assms(1-4), of now rnd r] obtain t' where
    tab: "w_tasks (record_result dw now rnd c r w) = w_tasks (put_task t' w)"
    and t': "if dr_disposition r = D_ACKNOWLEDGED then t' = acked now r t
      else if can_retry dw now r t
      then t' = (released now t)\<lparr>t_status := RETRY, t_dispatch_after := retry_time dw now rnd t ?fs,
                  t_last_error_code := dr_error_code r\<rparr>
      else t' = (released now t)\<lparr>t_status := FAILED, t_last_error_code := dr_error_code r\<rparr>"
    by (auto split: if_splits)
  have "t_task_id t' = cm_task_id c"
    using t' get_task_SomeD [OF assms(1)] by (auto simp: acked_def released_def split: if_splits)
  with assms(1) get_task_put_task [of "cm_task_id c" t' w]
  have row: "get_task (cm_task_id c) (record_result dw now rnd c r w) = Some t'"
    by (simp add: get_task_def tab)
  have later: "now < retry_time dw now rnd t ?fs"
    using dispatch_backoff.in_the_future [OF assms(5,6), of now "t_attempt_count t"]
    by (auto simp: retry_time_def Let_def split: option.split)
  have closed: "now + seconds (dw_circuit_open_seconds dw) \<le> retry_time dw now rnd t ?fs"
    if "dw_circuit_failure_threshold dw \<le> rs_consecutive_failures s + 1"
    using that by (simp add: retry_time_def note_failure_def Let_def)
  show ?thesis
    using row t' later closed
    by (intro exI [of _ t']) (auto simp: acked_def released_def can_retry_def split: if_splits)
qed

definition leased_world :: world where
  "leased_world = running_world\<lparr>w_tasks := [lease_task (sample_worker ''w'') 5 sample_task]\<rparr>"

lemma leased_rows:
  "get_task 800 leased_world = Some (lease_task (sample_worker ''w'') 5 sample_task)"
  "get_state ''ETH_TECH'' leased_world = Some sample_state" "get_run 700 leased_world = Some sample_run"
  "owns (sample_worker ''w'') (lease_task (sample_worker ''w'') 5 sample_task)"
  by (simp_all add: leased_world_def running_world_def sample_worlds world_defs owns_def)
    (simp_all add: sample_rows)

lemma sample_backoff: "backoff_settings (dw_base_seconds (sample_worker wk)) (dw_max_seconds (sample_worker wk))"
  by (simp add: sample_worker_def backoff_settings_def)

definition sample_task_command :: dispatch_command where
  "sample_task_command = command_of sample_task sample_run sample_endpoint"

lemma sample_task_command_ids [simp]:
  "cm_task_id sample_task_command = 800" "cm_agent_id sample_task_command = ''ETH_TECH''"
  "cm_orchestration_run_id sample_task_command = 700"
  by (simp_all add: sample_task_command_def command_of_def sample_task_def)

lemma leased_command:
  "get_task (cm_task_id sample_task_command) leased_world = Some (lease_task (sample_worker ''w'') 5 sample_task)"
  "get_state (cm_agent_id sample_task_command) leased_world = Some sample_state"
  "get_run (cm_orchestration_run_id sample_task_command) leased_world = Some sample_run"
  by (simp_all add: leased_rows)

theorem record_result_outcome_witness:
  "\<exists>t'. get_task 800 (record_result (sample_worker ''w'') 9 0 sample_task_command
       (retryable ''AGENT_HTTP_503'' None) leased_world) = Some t'
     \<and> t_status t' = RETRY \<and> 9 < t_dispatch_after t'"
proof -
  have "unit_sample 0" by (simp add: unit_sample_def)
  with record_result_outcome [of sample_task_command leased_world _ _ _ "sample_worker ''w''" 0 9
      "retryable ''AGENT_HTTP_503'' None", OF _ _ _ leased_rows(4) sample_backoff] leased_rows
  show ?thesis
    by (auto simp: retryable_def sample_worker_def sample_task_def lease_task_def)
qed

text \<open>The circuit breaker counts consecutive failures: a failed dispatch raises the agent's count by
  one and opens the circuit when the count reaches the threshold, so that until the configured
  time has passed the guard of the claim, \<open>circuit_blocks\<close>, holds the agent's tasks back; an
  acknowledgement resets the count and closes the circuit.\<close>

theorem circuit_breaker:
  assumes "get_task (cm_task_id c) w = Some t" "get_state (cm_agent_id c) w = Some s"
    "get_run (cm_orchestration_run_id c) w = Some run" "owns dw t"
  shows "\<exists>s'. get_state (cm_agent_id c) (record_result dw now rnd c r w) = Some s'
     \<and> (if dr_disposition r = D_ACKNOWLEDGED
        then rs_consecutive_failures s' = 0 \<and> rs_circuit_state s' = CLOSED \<and> rs_availability s' = HEALTHY
        else rs_consecutive_failures s' = rs_consecutive_failures s + 1
          \<and> (if dw_circuit_failure_threshold dw \<le> rs_consecutive_failures s + 1
             then rs_circuit_state s' = OPEN
               \<and> rs_circuit_open_until s' = Some (now + seconds (dw_circuit_open_seconds dw))
               \<and> (\<forall>earlier < now + seconds (dw_circuit_open_seconds dw). circuit_blocks earlier s' \<noteq> None)
             else rs_circuit_state s' = rs_circuit_state s))"
proof -
  let ?fs = "note_failure dw now r (touched now r s)"
  from record_result_tables [OF assms(1-4), of now rnd r] obtain s' where
    tab: "w_states (record_result dw now rnd c r w) = w_states (put_state s' w)"
    and s': "if dr_disposition r = D_ACKNOWLEDGED then s' = healthy now (touched now r s)
      else s' = ?fs \<or> s' = ?fs\<lparr>rs_availability := UNAVAILABLE\<rparr>"
    by (auto split: if_splits)
  have "rs_agent_id s' = cm_agent_id c"
    using s' get_state_SomeD [OF assms(2)] by (auto simp: healthy_def split: if_splits)
  with assms(2) get_state_put_state [of "cm_agent_id c" s' w]
  have row: "get_state (cm_agent_id c) (record_result dw now rnd c r w) = Some s'"
    by (simp add: get_state_def tab)
  show ?thesis
    using row s'
    by (intro exI [of _ s']) (auto simp: healthy_def note_failure_def circuit_blocks_def Let_def split: if_splits)
qed

theorem circuit_breaker_witness:
  "\<exists>s'. get_state ''ETH_TECH'' (record_result (sample_worker ''w'') 9 0 sample_task_command
       (permanent ''AGENT_REJECTED'' None) leased_world) = Some s' \<and> rs_consecutive_failures s' = 1"
  using circuit_breaker [OF leased_command leased_rows(4), of 9 0 "permanent ''AGENT_REJECTED'' None"]
  by (auto simp: permanent_def sample_state_def)

text \<open>Dispatch deadlines are enforced: \<open>expire_dispatch_deadlines\<close> times out, with the lease
  cleared, exactly the unlocked tasks that are still to be dispatched and whose deadline has
  been reached, leaves every other task as it is, and reports their number.\<close>

theorem expire_exact:
  assumes "expire_dispatch_deadlines now locked w = (n, w')" and "schema_ok w"
  shows "n = length (filter (\<lambda>t. expired now t \<and> t_task_id t \<notin> set locked) (w_tasks w))
     \<and> map t_task_id (w_tasks w') = map t_task_id (w_tasks w)
     \<and> (\<forall>t \<in> set (w_tasks w). get_task (t_task_id t) w' =
          Some (if expired now t \<and> t_task_id t \<notin> set locked
                then t\<lparr>t_status := TIMED_OUT, t_last_error_code := Some ''AGENT_ACK_TIMEOUT'',
                       t_lease_owner := None, t_lease_until := None, t_updated_at := now\<rparr>
                else t))"
  using expire_facts [OF assms(2,1)] tasks_evolve_keys [OF orch_step_tasks [OF expire_facts(1) [OF assms(2,1)]]]
  unfolding timed_out_def by simp

theorem expire_exact_witness:
  "get_task 800 (snd (expire_dispatch_deadlines (seconds 30) [] running_world)) =
     Some (sample_task\<lparr>t_status := TIMED_OUT, t_last_error_code := Some ''AGENT_ACK_TIMEOUT'',
           t_updated_at := seconds 30\<rparr>)"
proof -
  have e: "expire_dispatch_deadlines (seconds 30) [] running_world =
      (fst (expire_dispatch_deadlines (seconds 30) [] running_world),
       snd (expire_dispatch_deadlines (seconds 30) [] running_world))" by simp
  have t: "sample_task \<in> set (w_tasks running_world)" "t_task_id sample_task = 800"
    "expired (seconds 30) sample_task"
    by (simp_all add: running_world_def sample_worlds expired_def sample_task_def)
  from expire_exact [OF e running_schema] t(1)
  have "get_task (t_task_id sample_task) (snd (expire_dispatch_deadlines (seconds 30) [] running_world)) =
     Some (sample_task\<lparr>t_status := TIMED_OUT, t_last_error_code := Some ''AGENT_ACK_TIMEOUT'',
           t_lease_owner := None, t_lease_until := None, t_updated_at := seconds 30\<rparr>)"
    using t(3) by simp
  then show ?thesis unfolding t(2) by (simp add: sample_task_def)
qed

text \<open>C20 The dispatcher implements the task state machine: a whole \<open>dispatch_once\<close>, whatever the
  transport answers and wherever it raises, changes tasks only along edges of the machine, keeps
  every run as it is or only sets its status to COLLECTING (identifier, outcome, completion time
  and every other column stay), leaves agents, snapshots, nonces, signals, outbox and endpoints
  alone, and keeps the constraints of the schema.\<close>

theorem dispatch_refines_lifecycle:
  assumes "dispatch_once dw now locked readings send w = (res, w')" and "schema_ok w"
  shows "orch_step w w' \<and> schema_ok w' \<and> list_all2 run_collecting (w_runs w) (w_runs w')"
proof -
  obtain cs w1 where c: "claim dw now locked w = (cs, w1)" by fastforce
  obtain err w2 where d: "dispatch_commands dw readings send 0 cs w1 = (err, w2)" by fastforce
  from assms(1) c d have w': "w' = w2" by (simp add: dispatch_once_def)
  note step1 = claim_facts(1) [OF c assms(2)]
  note step2 = dispatch_commands_step [OF orch_step_schema [OF step1 assms(2)] d]
  have "orch_step w w'" unfolding w' using step1 step2 orch_step_trans by blast
  moreover have "list_all2 run_collecting (w_runs w) (w_runs w')"
    using dispatch_commands_collecting [OF orch_step_schema [OF step1 assms(2)] d] claim_facts(2) [OF c assms(2)]
    unfolding w' by simp
  ultimately show ?thesis using orch_step_schema assms(2) by blast
qed

theorem dispatch_refines_lifecycle_witness:
  "schema_ok (snd (dispatch_once (sample_worker ''w'') 5 [] (\<lambda>_. (6, 7, 0)) (\<lambda>_ _. Inl HttpFailure) running_world))"
  using dispatch_refines_lifecycle [of "sample_worker ''w''" 5 "[]" "\<lambda>_. (6, 7, 0)" "\<lambda>_ _. Inl HttpFailure"
      running_world, OF _ running_schema]
  by (metis prod.collapse)

text \<open>An acknowledgement always makes its run COLLECTING, also when the run is already decided:
  a run that was completed as CRITICAL or DEGRADED while a dispatch was in flight is reopened
  by the late acknowledgement, with its outcome and completion time kept.\<close>

theorem late_ack_reopens_run:
  assumes "get_task (cm_task_id c) w = Some t" "get_state (cm_agent_id c) w = Some s"
    "get_run (cm_orchestration_run_id c) w = Some run" "owns dw t"
    and "dr_disposition r = D_ACKNOWLEDGED"
  shows "get_run (cm_orchestration_run_id c) (record_result dw now rnd c r w) =
     Some (run\<lparr>r_status := R_COLLECTING\<rparr>)"
proof -
  from record_result_tables [OF assms(1-4), of now rnd r] assms(5)
  have "w_runs (record_result dw now rnd c r w) = w_runs (put_run (run\<lparr>r_status := R_COLLECTING\<rparr>) w)"
    by auto
  then show ?thesis
    using assms(3) get_run_SomeD [OF assms(3)]
      get_run_put_run [of "cm_orchestration_run_id c" "run\<lparr>r_status := R_COLLECTING\<rparr>" w]
    by (simp add: get_run_def)
qed

definition sample_ack :: dispatch_result where
  "sample_ack = \<lparr>dr_disposition = D_ACKNOWLEDGED, dr_error_code = None,
     dr_ack = Some \<lparr>ack_task_id = 800, ack_agent_id = ''ETH_TECH'', ack_accepted_at = 8, ack_runtime_version = ''1''\<rparr>,
     dr_latency_ms = None\<rparr>"

theorem late_ack_reopens_run_witness:
  "\<exists>w run. schema_ok w \<and> r_status run = R_CRITICAL \<and> get_run 700 w = Some run
     \<and> get_run 700 (record_result (sample_worker ''w'') 9 0 sample_task_command sample_ack w) =
         Some (run\<lparr>r_status := R_COLLECTING\<rparr>)"
proof -
  let ?run = "sample_run\<lparr>r_status := R_CRITICAL, r_outcome := Some O_INSUFFICIENT_DATA, r_completed_at := Some 4\<rparr>"
  let ?w = "leased_world\<lparr>w_runs := [?run]\<rparr>"
  have rows: "get_task 800 ?w = Some (lease_task (sample_worker ''w'') 5 sample_task)"
    "get_state ''ETH_TECH'' ?w = Some sample_state" "get_run 700 ?w = Some ?run"
    using leased_rows by (simp_all add: world_defs) (simp add: sample_run_def)
  have "schema_ok ?w"
    by (simp add: schema_ok_def keys_ok_def refs_ok_def checks_ok_def leased_world_def running_world_def
        sample_worlds sample_rows lease_task_def task_checks_def run_checks_def state_checks_def)
  moreover have "get_run 700 (record_result (sample_worker ''w'') 9 0 sample_task_command sample_ack ?w) =
         Some (?run\<lparr>r_status := R_COLLECTING\<rparr>)"
    using late_ack_reopens_run [of sample_task_command ?w _ _ _ "sample_worker ''w''" sample_ack 9 0,
        OF _ _ _ leased_rows(4)] rows
    by (simp add: sample_ack_def)
  ultimately show ?thesis using rows(3)
    by (intro exI [of _ ?w] exI [of _ ?run]) simp
qed

text \<open>The attempt limit does not bind a lease that expires: a task whose last permitted attempt
  was lost with its worker is claimed again, with one attempt more than \<open>max_attempts\<close>; only a
  recorded result compares the count with the limit.\<close>

theorem expired_lease_exceeds_attempts:
  "\<exists>w t t'. schema_ok w \<and> get_task 800 w = Some t \<and> t_status t = DISPATCHING
     \<and> t_attempt_count t = dw_max_attempts (sample_worker ''w'')
     \<and> get_task 800 (snd (claim (sample_worker ''w'') 10 [] w)) = Some t'
     \<and> t_attempt_count t' = dw_max_attempts (sample_worker ''w'') + 1"
proof -
  let ?t = "sample_task\<lparr>t_status := DISPATCHING, t_attempt_count := 5, t_lease_owner := Some ''x'',
     t_lease_until := Some 9\<rparr>"
  let ?w = "running_world\<lparr>w_tasks := [?t]\<rparr>"
  have ok: "schema_ok ?w"
    by (simp add: schema_ok_def keys_ok_def refs_ok_def checks_ok_def running_world_def
        sample_worlds sample_rows task_checks_def run_checks_def state_checks_def)
  have row: "get_task 800 ?w = Some ?t" by (simp add: world_defs sample_task_def)
  have "due 10 ?t" by (simp add: due_def sample_task_def)
  then have sel: "select_due (dw_batch_size (sample_worker ''w'')) 10 [] ?w = [?t]"
    by (simp add: select_due_def sample_worker_def)
  have rows: "get_run (t_orchestration_run_id ?t) ?w = Some sample_run"
    "get_endpoint (t_agent_id ?t) ?w = Some sample_endpoint" "get_state (t_agent_id ?t) ?w = Some sample_state"
    using running_rows by (simp_all add: world_defs sample_task_def)
  have "\<not> closed_run (r_status sample_run)" "ep_enabled sample_endpoint" "circuit_blocks 10 sample_state = None"
    by (simp_all add: closed_run_def circuit_blocks_def sample_rows)
  then have "length (fst (claim (sample_worker ''w'') 10 [] ?w)) = 1"
    using rows by (simp add: claim_def sel ensure_state_def start_dispatch_def Let_def del: select_convs)
  then obtain c where "c \<in> set (fst (claim (sample_worker ''w'') 10 [] ?w))" by (cases "fst (claim (sample_worker ''w'') 10 [] ?w)") auto
  from claim_facts(6) [OF prod.collapse [symmetric] ok this] obtain t where
    t: "get_task (cm_task_id c) ?w = Some t"
      "get_task (cm_task_id c) (snd (claim (sample_worker ''w'') 10 [] ?w)) = Some (lease_task (sample_worker ''w'') 10 t)"
    by blast
  then have "cm_task_id c = 800 \<and> t = ?t" by (simp add: world_defs sample_task_def split: if_splits)
  with t ok row show ?thesis
    by (intro exI [of _ ?w] exI [of _ ?t] exI [of _ "lease_task (sample_worker ''w'') 10 ?t"])
      (simp add: sample_worker_def)
qed

end
