(* ===== verification/Recovery.thy ===== *)
theory Recovery
  imports Quorum Dispatch
begin

text \<open>
  \<open>src/tomiris_orchestrator/recovery.py\<close>, the worker loop of \<open>worker.py\<close> and the cycle of
  \<open>service.py\<close>.  \<open>reconcile\<close> repairs what a crashed worker or a lost message left behind in one
  transaction, then evaluates every unfinished run in transactions of their own.  The definitions
  here take that first transaction as undisturbed; \<open>Races\<close> has its statements one by one, with what
  other transactions can commit in between, and shows that without such commits it does what
  \<open>reconcile_repair\<close> does.  The clock
  reading of each of them is an argument, as are the runs that another transaction has locked.
\<close>

section \<open>Definitions\<close>

definition unfinished_run :: "orchestration_run \<Rightarrow> bool" where
  "unfinished_run r \<longleftrightarrow> r_status r \<in> {R_CREATED, R_DISPATCHING, R_COLLECTING, R_TIMED_OUT}"

definition signal_task_ids :: "uuid \<Rightarrow> world \<Rightarrow> uuid set" where
  "signal_task_ids run_id w =
     set [k. s \<leftarrow> w_signals w, sg_orchestration_run_id s = Some run_id,
             k \<leftarrow> (case sg_task_id s of None \<Rightarrow> [] | Some k \<Rightarrow> [k])]"

text \<open>The three repairs of a task; \<open>None\<close> when none applies.\<close>

definition repair_task :: "instant \<Rightarrow> bool \<Rightarrow> agent_task \<Rightarrow> agent_task option" where
  "repair_task now has_signal task =
     (if has_signal \<and> t_status task \<noteq> SIGNAL_RECEIVED
      then Some (task\<lparr>t_status := SIGNAL_RECEIVED,
             t_signal_received_at :=
               (case t_signal_received_at task of None \<Rightarrow> Some now | Some t \<Rightarrow> Some t),
             t_lease_owner := None, t_lease_until := None, t_updated_at := now\<rparr>)
      else if t_status task = DISPATCHING
              \<and> (case t_lease_until task of None \<Rightarrow> False | Some u \<Rightarrow> u \<le> now)
      then Some (task\<lparr>t_status := (if now < t_dispatch_deadline task then RETRY else TIMED_OUT),
             t_dispatch_after := now, t_lease_owner := None, t_lease_until := None,
             t_last_error_code := Some ''WORKER_LEASE_EXPIRED'', t_updated_at := now\<rparr>)
      else if t_status task \<in> {ACKNOWLEDGED, WAITING_SIGNAL} \<and> t_signal_deadline task \<le> now
      then Some (task\<lparr>t_status := TIMED_OUT, t_last_error_code := Some ''AGENT_SIGNAL_TIMEOUT'',
             t_updated_at := now\<rparr>)
      else None)"

definition repair_step :: "instant \<Rightarrow> uuid set \<Rightarrow> bool \<times> world \<Rightarrow> agent_task \<Rightarrow> bool \<times> world" where
  "repair_step now signals acc task =
     (let (changed, w) = acc in
      case repair_task now (t_task_id task \<in> signals) task of
        None \<Rightarrow> (changed, w)
      | Some task' \<Rightarrow>
          let w = put_task task' w
          in (True, if t_status task' = TIMED_OUT
                    then metric_increment ''agent_tasks_timed_out_total'' 1 w else w))"

definition reconcile_run :: "instant \<Rightarrow> uuid list \<times> world \<Rightarrow> orchestration_run \<Rightarrow> uuid list \<times> world" where
  "reconcile_run now acc run =
     (let (recovered, w) = acc;
          run_id = r_orchestration_run_id run;
          tasks = filter (\<lambda>t. t_orchestration_run_id t = run_id) (w_tasks w);
          signals = signal_task_ids run_id w;
          (changed, w) = foldl (repair_step now signals) (False, w) tasks
      in if changed \<or> r_status run = R_TIMED_OUT
         then let w = (if r_status run = R_TIMED_OUT then put_run (run\<lparr>r_status := R_COLLECTING\<rparr>) w else w);
                  w = add_orchestration_event now ''ORCHESTRATION_RECOVERED'' (r_correlation_id run) None
                        run_id None None (Some (r_snapshot_id run)) ACCEPTED None
                        [(''reconciled_tasks'', PyInt (int (length tasks)))] w
              in (recovered @ [run_id], w)
         else (recovered, w))"

definition select_unfinished :: "nat \<Rightarrow> uuid list \<Rightarrow> world \<Rightarrow> orchestration_run list" where
  "select_unfinished batch_size locked w =
     take batch_size (sort_key r_created_at
       (filter (\<lambda>r. unfinished_run r \<and> r_orchestration_run_id r \<notin> set locked) (w_runs w)))"

definition reconcile_repair :: "nat \<Rightarrow> instant \<Rightarrow> uuid list \<Rightarrow> world \<Rightarrow> uuid list \<times> uuid list \<times> world" where
  "reconcile_repair batch_size now locked w =
     (let runs = select_unfinished batch_size locked w;
          (recovered, w) = foldl (reconcile_run now) ([], w) runs
      in (map r_orchestration_run_id runs, recovered, w))"

text \<open>The evaluations after the commit; a failing one raises and ends the loop.\<close>

fun evaluate_all :: "(nat \<Rightarrow> instant) \<Rightarrow> nat \<Rightarrow> uuid list \<Rightarrow> world \<Rightarrow> quorum_error option \<times> world" where
  "evaluate_all clock i [] w = (None, w)"
| "evaluate_all clock i (k # ks) w =
     (case evaluate (clock i) k w of
        Inl e \<Rightarrow> (Some e, w)
      | Inr (_, w) \<Rightarrow> evaluate_all clock (Suc i) ks w)"

definition reconcile ::
    "nat \<Rightarrow> instant \<Rightarrow> uuid list \<Rightarrow> (nat \<Rightarrow> instant) \<Rightarrow> world \<Rightarrow> (quorum_error + uuid list) \<times> world" where
  "reconcile batch_size now locked clock w =
     (let (unfinished, recovered, w) = reconcile_repair batch_size now locked w;
          (err, w) = evaluate_all clock 0 unfinished w
      in (case err of Some e \<Rightarrow> Inl e | None \<Rightarrow> Inr recovered, w))"

text \<open>One iteration of \<open>OrchestratorWorkerLoop.run\<close>, and \<open>OrchestratorService.cycle\<close>.\<close>

record cycle_readings =
  cy_expire :: instant
  cy_claim :: instant
  cy_dispatch :: "nat \<Rightarrow> instant \<times> instant \<times> rat"
  cy_reconcile :: instant
  cy_evaluate :: "nat \<Rightarrow> instant"
  cy_final :: instant
  cy_locked_tasks :: "uuid list"
  cy_locked_runs :: "uuid list"

datatype cycle_error = DispatchRaised client_error | EvaluateRaised quorum_error

definition worker_iteration ::
    "dispatch_worker \<Rightarrow> nat \<Rightarrow> (dispatch_command \<Rightarrow> int \<Rightarrow> client_error + dispatch_result) \<Rightarrow>
     cycle_readings \<Rightarrow> world \<Rightarrow> (cycle_error + nat) \<times> world" where
  "worker_iteration dw batch_size send cy w =
     (let (_, w) = expire_dispatch_deadlines (cy_expire cy) (cy_locked_tasks cy) w;
          (claimed, w) = dispatch_once dw (cy_claim cy) (cy_locked_tasks cy) (cy_dispatch cy) send w
      in case claimed of
           Inl e \<Rightarrow> (Inl (DispatchRaised e), w)
         | Inr n \<Rightarrow>
             let (recovered, w) = reconcile batch_size (cy_reconcile cy) (cy_locked_runs cy) (cy_evaluate cy) w
             in (case recovered of Inl e \<Rightarrow> Inl (EvaluateRaised e) | Inr _ \<Rightarrow> Inr n, w))"

definition cycle ::
    "dispatch_worker \<Rightarrow> nat \<Rightarrow> (dispatch_command \<Rightarrow> int \<Rightarrow> client_error + dispatch_result) \<Rightarrow>
     cycle_readings \<Rightarrow> uuid \<Rightarrow> world \<Rightarrow> (cycle_error + completeness_result) \<times> world" where
  "cycle dw batch_size send cy run_id w =
     (let (iteration, w) = worker_iteration dw batch_size send cy w
      in case iteration of
           Inl e \<Rightarrow> (Inl e, w)
         | Inr _ \<Rightarrow>
             (case evaluate (cy_final cy) run_id w of
                Inl e \<Rightarrow> (Inl (EvaluateRaised e), w)
              | Inr (res, w) \<Rightarrow> (Inr res, w)))"

section \<open>Repairs follow the state machine\<close>

text \<open>
  The hub stores a signal and completes its task in one transaction, so a stored signal means
  a completed task.  Reconciliation relies on it: without it, the first repair could revive a
  task that has already timed out.
\<close>

definition signals_complete :: "world \<Rightarrow> bool" where
  "signals_complete w \<longleftrightarrow>
     (\<forall>s \<in> set (w_signals w). \<forall>k t. sg_task_id s = Some k \<longrightarrow> get_task k w = Some t \<longrightarrow>
        t_status t = SIGNAL_RECEIVED)"

lemma signal_task_ids_mem:
  "k \<in> signal_task_ids rid w \<longleftrightarrow>
     (\<exists>s \<in> set (w_signals w). sg_orchestration_run_id s = Some rid \<and> sg_task_id s = Some k)"
  unfolding signal_task_ids_def by (force split: option.splits)

lemma signals_complete_step:
  assumes "orch_step w w'" and "signals_complete w"
  shows "signals_complete w'"
  unfolding signals_complete_def
proof (intro ballI allI impI)
  fix s k t' assume s: "s \<in> set (w_signals w')" "sg_task_id s = Some k" and t': "get_task k w' = Some t'"
  from list_all2_row_get [OF orch_step_tasks [OF assms(1)], of t_task_id k] t'
  obtain t where "get_task k w = Some t" "task_evolves t t'"
    by (cases "row_get t_task_id k (w_tasks w)") (auto simp: get_task_def)
  moreover have "s \<in> set (w_signals w)" using s assms(1) by (simp add: orch_step_def)
  ultimately show "t_status t' = SIGNAL_RECEIVED"
    using assms(2) s(2) task_evolves_terminal [of t t'] by (auto simp: signals_complete_def task_state_defs)
qed

lemma repair_evolves:
  assumes "repair_task now has_signal t = Some t'" and "has_signal \<Longrightarrow> t_status t = SIGNAL_RECEIVED"
  shows "task_evolves t t'" and "t_task_id t' = t_task_id t"
proof -
  have no_signal: "\<not> (has_signal \<and> t_status t \<noteq> SIGNAL_RECEIVED)" using assms(2) by blast
  consider (lease) s where "t_status t = DISPATCHING" "s = RETRY \<or> s = TIMED_OUT"
      "t' = t\<lparr>t_status := s, t_dispatch_after := now, t_lease_owner := None, t_lease_until := None,
        t_last_error_code := Some ''WORKER_LEASE_EXPIRED'', t_updated_at := now\<rparr>"
    | (wait) "t_status t \<in> {ACKNOWLEDGED, WAITING_SIGNAL}"
      "t' = t\<lparr>t_status := TIMED_OUT, t_last_error_code := Some ''AGENT_SIGNAL_TIMEOUT'', t_updated_at := now\<rparr>"
    using assms(1) unfolding repair_task_def if_not_P [OF no_signal]
    by (auto split: if_splits)
  then have "same_identity t t' \<and> t_attempt_count t' = t_attempt_count t \<and> task_edge (t_status t) (t_status t')"
  proof cases
    case lease
    then have "task_edge DISPATCHING s" by (auto simp: claimable_def intro: task_edge.intros)
    with lease show ?thesis by (simp add: same_identity_def)
  next
    case wait
    then have "task_edge (t_status t) TIMED_OUT" by (auto simp: awaiting_def intro: task_edge.timeout)
    with wait show ?thesis by (simp add: same_identity_def)
  qed
  then show "task_evolves t t'" and "t_task_id t' = t_task_id t"
    by (auto intro!: task_evolvesI simp: same_identity_def)
qed

lemma repair_step_tables:
  "orch_step (case repair_task now (t_task_id t \<in> S) t of None \<Rightarrow> w | Some t' \<Rightarrow> put_task t' w)
     (snd (repair_step now S (ch, w) t))"
  "get_task k (snd (repair_step now S (ch, w) t)) =
     get_task k (case repair_task now (t_task_id t \<in> S) t of None \<Rightarrow> w | Some t' \<Rightarrow> put_task t' w)"
  "w_runs (snd (repair_step now S (ch, w) t)) = w_runs w"
  by (auto simp: repair_step_def orch_step_refl orch_step_quiet Let_def put_task_def split: option.split)

text \<open>The repaired row of a task.\<close>

definition repaired :: "instant \<Rightarrow> uuid set \<Rightarrow> agent_task \<Rightarrow> agent_task" where
  "repaired now S t = (case repair_task now (t_task_id t \<in> S) t of None \<Rightarrow> t | Some t' \<Rightarrow> t')"

lemma repair_fold:
  assumes "schema_ok w" and "distinct (map t_task_id ts)"
    and "\<And>t. t \<in> set ts \<Longrightarrow> get_task (t_task_id t) w = Some t"
    and "\<And>t. t \<in> set ts \<Longrightarrow> t_task_id t \<in> S \<Longrightarrow> t_status t = SIGNAL_RECEIVED"
  shows "orch_step w (snd (foldl (repair_step now S) (ch, w) ts))
    \<and> w_runs (snd (foldl (repair_step now S) (ch, w) ts)) = w_runs w
    \<and> (\<forall>t \<in> set ts. get_task (t_task_id t) (snd (foldl (repair_step now S) (ch, w) ts)) = Some (repaired now S t))
    \<and> (\<forall>k. k \<notin> t_task_id ` set ts \<longrightarrow> get_task k (snd (foldl (repair_step now S) (ch, w) ts)) = get_task k w)"
  using assms
proof (induction ts arbitrary: ch w)
  case Nil
  then show ?case by (simp add: orch_step_refl)
next
  case (Cons t ts)
  obtain ch1 w1 where s1: "repair_step now S (ch, w) t = (ch1, w1)" by fastforce
  let ?w' = "snd (foldl (repair_step now S) (ch1, w1) ts)"
  have row: "get_task (t_task_id t) w = Some t" using Cons.prems(3) by simp
  have id: "t_task_id (repaired now S t) = t_task_id t"
    using repair_evolves(2) Cons.prems(4) [of t] by (auto simp: repaired_def split: option.split)
  note tabs = repair_step_tables [where now = now and t = t and S = S and w = w and ch = ch, unfolded s1 snd_conv]
  have step: "orch_step w w1"
  proof (cases "repair_task now (t_task_id t \<in> S) t")
    case (Some t')
    note ev = repair_evolves [OF Some]
    have "orch_step w (put_task t' w)"
      by (rule orch_step_put_task [OF schema_task_keys [OF Cons.prems(1)] _ ev(1)])
        (use row ev(2) Cons.prems(4) in auto)
    with tabs(1) Some show ?thesis using orch_step_trans by auto
  qed (use tabs(1) in simp)
  have g: "get_task k w1 = (if k = t_task_id t then Some (repaired now S t) else get_task k w)" for k
  proof (cases "repair_task now (t_task_id t \<in> S) t")
    case None
    with tabs(2) [of k] row show ?thesis by (simp add: repaired_def)
  next
    case (Some t')
    with tabs(2) [of k] row id get_task_put_task [of k t' w] show ?thesis by (auto simp: repaired_def)
  qed
  have new: "t_task_id t \<notin> t_task_id ` set ts" and dist: "distinct (map t_task_id ts)"
    using Cons.prems(2) by auto
  have rest: "get_task (t_task_id u) w1 = Some u" if u: "u \<in> set ts" for u
  proof -
    have "t_task_id u \<noteq> t_task_id t" using new imageI [OF u, of t_task_id] by auto
    then show ?thesis using Cons.prems(3) [of u] u by (simp add: g)
  qed
  have sig: "t_status u = SIGNAL_RECEIVED" if "u \<in> set ts" "t_task_id u \<in> S" for u
    using Cons.prems(4) that by simp
  have IH: "orch_step w1 ?w' \<and> w_runs ?w' = w_runs w1
    \<and> (\<forall>t \<in> set ts. get_task (t_task_id t) ?w' = Some (repaired now S t))
    \<and> (\<forall>k. k \<notin> t_task_id ` set ts \<longrightarrow> get_task k ?w' = get_task k w1)"
    by (rule Cons.IH [OF orch_step_schema [OF step Cons.prems(1)] dist rest sig])
  have "get_task (t_task_id t) ?w' = Some (repaired now S t)" using IH new by (simp add: g)
  moreover have "orch_step w ?w'" using step IH orch_step_trans by blast
  ultimately show ?case using IH tabs(3) by (simp add: s1 g)
qed

lemma repaired_signal: "(t_task_id t \<in> S \<Longrightarrow> t_status t = SIGNAL_RECEIVED) \<Longrightarrow> repaired now S t = repaired now {} t"
  by (cases "t_task_id t \<in> S") (auto simp: repaired_def repair_task_def)

lemma repaired_run: "t_orchestration_run_id (repaired now {} t) = t_orchestration_run_id t"
proof (cases "repair_task now False t")
  case (Some t')
  then show ?thesis
    using repair_evolves(1) [OF Some] by (simp add: repaired_def task_evolves_def same_identity_def)
qed (simp add: repaired_def)

definition reopened :: "orchestration_run \<Rightarrow> orchestration_run" where
  "reopened r = (if r_status r = R_TIMED_OUT then r\<lparr>r_status := R_COLLECTING\<rparr> else r)"

lemma reopened_simps [simp]:
  "r_orchestration_run_id (reopened r) = r_orchestration_run_id r" "run_kept r (reopened r)"
  "r_collection_deadline (reopened r) = r_collection_deadline r"
  by (auto simp: reopened_def)

lemma reopened_undecided: "unfinished_run r \<Longrightarrow> \<not> decided_run (r_status (reopened r))"
  by (auto simp: unfinished_run_def reopened_def decided_run_def)

lemma reconcile_run_facts:
  fixes now :: instant and rec :: "uuid list"
  assumes ok: "schema_ok w" and sc: "signals_complete w"
    and run: "get_run (r_orchestration_run_id run) w = Some run"
  defines "w' \<equiv> snd (reconcile_run now (rec, w) run)"
  shows "orch_step w w'"
    and "get_run k w' = (if k = r_orchestration_run_id run then Some (reopened run) else get_run k w)"
    and "t \<in> set (w_tasks w) \<Longrightarrow> get_task (t_task_id t) w' =
      Some (if t_orchestration_run_id t = r_orchestration_run_id run then repaired now {} t else t)"
proof -
  let ?rid = "r_orchestration_run_id run"
  let ?ts = "filter (\<lambda>t. t_orchestration_run_id t = ?rid) (w_tasks w)"
  let ?S = "signal_task_ids ?rid w"
  let ?w1 = "snd (foldl (repair_step now ?S) (False, w) ?ts)"
  let ?w2 = "if r_status run = R_TIMED_OUT then put_run (run\<lparr>r_status := R_COLLECTING\<rparr>) ?w1 else ?w1"
  have row: "get_task (t_task_id t) w = Some t" if "t \<in> set (w_tasks w)" for t
    unfolding get_task_def by (rule row_get_mem [OF schema_task_keys [OF ok] that])
  have sig: "t_status t = SIGNAL_RECEIVED" if "t \<in> set (w_tasks w)" "t_task_id t \<in> ?S" for t
    using sc row [OF that(1)] that(2) unfolding signal_task_ids_mem signals_complete_def by blast
  have fold: "orch_step w ?w1 \<and> w_runs ?w1 = w_runs w
    \<and> (\<forall>t \<in> set ?ts. get_task (t_task_id t) ?w1 = Some (repaired now ?S t))
    \<and> (\<forall>k. k \<notin> t_task_id ` set ?ts \<longrightarrow> get_task k ?w1 = get_task k w)"
    by (rule repair_fold [OF ok distinct_map_filter [OF schema_task_keys [OF ok]]]) (use row sig in auto)
  have runs1: "get_run k ?w1 = get_run k w" for k using fold by (simp add: get_run_def)
  have "orch_step ?w1 ?w2"
  proof (cases "r_status run = R_TIMED_OUT")
    case True
    have "orch_step ?w1 (put_run (run\<lparr>r_status := R_COLLECTING\<rparr>) ?w1)"
      by (rule orch_step_put_run [OF _ _ run_keptI(2)])
        (use fold run runs1 schema_run_keys [OF ok] in auto)
    with True show ?thesis by simp
  qed (simp add: orch_step_refl)
  with fold have step2: "orch_step w ?w2" using orch_step_trans by blast
  have g2: "get_run k ?w2 = (if k = ?rid then Some (reopened run) else get_run k w)"
    "get_task k ?w2 = get_task k ?w1" for k
    using runs1 run by (auto simp: get_run_put_run reopened_def)
  have w': "w' = ?w1 \<and> r_status run \<noteq> R_TIMED_OUT \<or> (\<exists>m. w' = add_orchestration_event now
      ''ORCHESTRATION_RECOVERED'' (r_correlation_id run) None ?rid None None (Some (r_snapshot_id run))
      ACCEPTED None m ?w2)"
    unfolding w'_def reconcile_run_def
    by (cases "foldl (repair_step now ?S) (False, w) ?ts") (auto simp: Let_def)
  have same: "get_run k w' = get_run k ?w2" "get_task k w' = get_task k ?w2" for k
    using w' by auto
  have "orch_step ?w2 w'" using w' orch_step_refl orch_step_quiet(3) by auto
  with step2 show "orch_step w w'" using orch_step_trans by blast
  show "get_run k w' = (if k = ?rid then Some (reopened run) else get_run k w)"
    unfolding same by (rule g2)
  assume t: "t \<in> set (w_tasks w)"
  show "get_task (t_task_id t) w' = Some (if t_orchestration_run_id t = ?rid then repaired now {} t else t)"
  proof (cases "t_orchestration_run_id t = ?rid")
    case True
    with t fold have "get_task (t_task_id t) ?w1 = Some (repaired now ?S t)" by simp
    with True repaired_signal [of t ?S now] sig [OF t] show ?thesis by (simp add: same g2)
  next
    case False
    have "t_task_id t \<notin> t_task_id ` set ?ts"
    proof
      assume "t_task_id t \<in> t_task_id ` set ?ts"
      then obtain u where u: "u \<in> set ?ts" "t_task_id t = t_task_id u" by auto
      with row [OF t] row [of u] have "u = t" by simp
      with u False show False by simp
    qed
    with fold row [OF t] False show ?thesis by (simp add: same g2)
  qed
qed

lemma reconcile_fold:
  assumes "schema_ok w" and "signals_complete w" and "distinct (map r_orchestration_run_id rs)"
    and "\<And>r. r \<in> set rs \<Longrightarrow> get_run (r_orchestration_run_id r) w = Some r"
  shows "orch_step w (snd (foldl (reconcile_run now) (rec, w) rs))
    \<and> (\<forall>r \<in> set rs. get_run (r_orchestration_run_id r) (snd (foldl (reconcile_run now) (rec, w) rs)) = Some (reopened r))
    \<and> (\<forall>k. k \<notin> r_orchestration_run_id ` set rs \<longrightarrow>
         get_run k (snd (foldl (reconcile_run now) (rec, w) rs)) = get_run k w)
    \<and> (\<forall>t \<in> set (w_tasks w). get_task (t_task_id t) (snd (foldl (reconcile_run now) (rec, w) rs)) =
         Some (if t_orchestration_run_id t \<in> r_orchestration_run_id ` set rs then repaired now {} t else t))"
  using assms
proof (induction rs arbitrary: rec w)
  case Nil
  have "get_task (t_task_id t) w = Some t" if "t \<in> set (w_tasks w)" for t
    unfolding get_task_def by (rule row_get_mem [OF schema_task_keys [OF Nil.prems(1)] that])
  then show ?case by (simp add: orch_step_refl)
next
  case (Cons r rs)
  obtain rec1 w1 where s1: "reconcile_run now (rec, w) r = (rec1, w1)" by fastforce
  let ?w' = "snd (foldl (reconcile_run now) (rec1, w1) rs)"
  have run: "get_run (r_orchestration_run_id r) w = Some r" using Cons.prems(4) by simp
  note facts = reconcile_run_facts [OF Cons.prems(1,2) run, where now = now and rec = rec, unfolded s1 snd_conv]
  have new: "r_orchestration_run_id r \<notin> r_orchestration_run_id ` set rs"
    and dist: "distinct (map r_orchestration_run_id rs)" using Cons.prems(3) by auto
  have rest: "get_run (r_orchestration_run_id u) w1 = Some u" if u: "u \<in> set rs" for u
  proof -
    have "r_orchestration_run_id u \<noteq> r_orchestration_run_id r"
      using new imageI [OF u, of r_orchestration_run_id] by auto
    then show ?thesis using Cons.prems(4) [of u] u by (simp add: facts(2))
  qed
  have IH: "orch_step w1 ?w'
    \<and> (\<forall>r \<in> set rs. get_run (r_orchestration_run_id r) ?w' = Some (reopened r))
    \<and> (\<forall>k. k \<notin> r_orchestration_run_id ` set rs \<longrightarrow> get_run k ?w' = get_run k w1)
    \<and> (\<forall>t \<in> set (w_tasks w1). get_task (t_task_id t) ?w' =
         Some (if t_orchestration_run_id t \<in> r_orchestration_run_id ` set rs then repaired now {} t else t))"
    by (rule Cons.IH [OF orch_step_schema [OF facts(1) Cons.prems(1)]
          signals_complete_step [OF facts(1) Cons.prems(2)] dist rest])
  have "orch_step w ?w'" using facts(1) IH orch_step_trans by blast
  moreover have "get_run (r_orchestration_run_id r) ?w' = Some (reopened r)"
    using IH new by (simp add: facts(2))
  moreover have "get_task (t_task_id t) ?w' = Some (if t_orchestration_run_id t
      \<in> r_orchestration_run_id ` set (r # rs) then repaired now {} t else t)" if t: "t \<in> set (w_tasks w)" for t
  proof -
    let ?u = "if t_orchestration_run_id t = r_orchestration_run_id r then repaired now {} t else t"
    have u: "get_task (t_task_id t) w1 = Some ?u" by (rule facts(3) [OF t])
    have mem: "?u \<in> set (w_tasks w1)" and id: "t_task_id ?u = t_task_id t"
      using get_task_SomeD [OF u] by simp_all
    have "get_task (t_task_id ?u) ?w' =
        Some (if t_orchestration_run_id ?u \<in> r_orchestration_run_id ` set rs then repaired now {} ?u else ?u)"
      by (rule bspec [OF IH [THEN conjunct2, THEN conjunct2, THEN conjunct2] mem])
    then have "get_task (t_task_id t) ?w' =
        Some (if t_orchestration_run_id ?u \<in> r_orchestration_run_id ` set rs then repaired now {} ?u else ?u)"
      unfolding id .
    moreover have "t_orchestration_run_id ?u = t_orchestration_run_id t" by (simp add: repaired_run)
    ultimately show ?thesis
      using new by (cases "t_orchestration_run_id t = r_orchestration_run_id r") simp_all
  qed
  ultimately show ?case using IH by (simp add: s1 facts(2))
qed

section \<open>Evaluating the runs\<close>

lemma evaluate_orch_step:
  assumes "evaluate now rid w = Inr (res, w')" and ok: "schema_ok w"
  shows "orch_step w w'" and "k \<noteq> rid \<Longrightarrow> get_run k w' = get_run k w"
proof -
  have "orch_step w w' \<and> (k \<noteq> rid \<longrightarrow> get_run k w' = get_run k w)"
    using assms(1)
  proof (cases rule: evaluate_inv)
    case (closed run s)
    have id: "r_orchestration_run_id run = rid" using get_run_SomeD [OF closed(1)] by simp
    have "orch_step w (put_run (completed_run now s run) w)"
      by (rule orch_step_put_run [OF schema_run_keys [OF ok], of _ run])
        (use closed(1) id in \<open>simp_all add: completed_run_def run_keptI\<close>)
    from orch_step_runs [OF this] have "list_all2 run_kept (w_runs w) (w_runs w')"
      using closed(8) by (simp add: put_run_def)
    then show ?thesis
      using closed(8,9) id
      by (auto simp: orch_step_def frame_but_runs_def tasks_evolve_refl states_ok_def get_run_def row_get_put)
  qed (simp_all add: orch_step_refl)
  then show "orch_step w w'" and "k \<noteq> rid \<Longrightarrow> get_run k w' = get_run k w" by auto
qed

lemma evaluate_total: "get_run rid w = Some run \<Longrightarrow> \<exists>res w'. evaluate now rid w = Inr (res, w')"
  by (cases "decided_run (r_status run)")
    (auto simp: evaluate_def Let_def split: prod.splits option.splits)

lemma evaluate_decides:
  assumes "evaluate now rid w = Inr (res, w')" and "get_run rid w = Some run"
    and "r_collection_deadline run \<le> now \<or> decided_run (r_status run)"
  shows "\<exists>run'. get_run rid w' = Some run' \<and> decided_run (r_status run')"
  using assms(1)
proof (cases rule: evaluate_inv)
  case (pending run')
  with assms(2,3) show ?thesis by (auto simp: run_decision_def over_def Let_def split: if_splits)
next
  case (closed run' s)
  have "rid \<in> r_orchestration_run_id ` set (w_runs w)" "r_orchestration_run_id run = rid"
    using get_run_SomeD [OF assms(2)] by auto
  with closed assms(2) have "get_run rid w' = Some (completed_run now s run)"
    by (simp add: get_run_def row_get_put)
  moreover have "decided_run s" using closed(7) by (auto simp: decided_run_def)
  ultimately show ?thesis by simp
qed (use assms in auto)

lemma evaluate_all_facts:
  assumes "schema_ok w" and "distinct ks" and "\<And>k. k \<in> set ks \<Longrightarrow> get_run k w \<noteq> None"
  shows "\<exists>w'. evaluate_all clock i ks w = (None, w') \<and> orch_step w w'
    \<and> (\<forall>k. k \<notin> set ks \<longrightarrow> get_run k w' = get_run k w)
    \<and> (\<forall>k \<in> set ks. \<forall>run. get_run k w = Some run \<longrightarrow> (\<forall>j. r_collection_deadline run \<le> clock j) \<longrightarrow>
         (\<exists>run'. get_run k w' = Some run' \<and> decided_run (r_status run')))"
  using assms
proof (induction ks arbitrary: i w)
  case Nil
  then show ?case by (simp add: orch_step_refl)
next
  case (Cons k ks)
  from Cons.prems(3) [of k] obtain run where run: "get_run k w = Some run" by auto
  from evaluate_total [OF run] obtain res w1 where ev: "evaluate (clock i) k w = Inr (res, w1)" by blast
  note step = evaluate_orch_step [OF ev Cons.prems(1)]
  have new: "k \<notin> set ks" and dist: "distinct ks" using Cons.prems(2) by auto
  have same: "get_run j w1 = get_run j w" if "j \<in> set ks" for j
    by (rule step(2)) (use that new in blast)
  have rest: "get_run j w1 \<noteq> None" if "j \<in> set ks" for j
    using same [OF that] Cons.prems(3) [of j] that by simp
  from Cons.IH [OF orch_step_schema [OF step(1) Cons.prems(1)] dist rest, of "Suc i"] obtain w' where
    ih: "evaluate_all clock (Suc i) ks w1 = (None, w')" "orch_step w1 w'"
      "\<And>j. j \<notin> set ks \<Longrightarrow> get_run j w' = get_run j w1"
      "\<And>j run. j \<in> set ks \<Longrightarrow> get_run j w1 = Some run \<Longrightarrow> (\<And>j. r_collection_deadline run \<le> clock j) \<Longrightarrow>
         \<exists>run'. get_run j w' = Some run' \<and> decided_run (r_status run')"
    by blast
  have "\<exists>run'. get_run j w' = Some run' \<and> decided_run (r_status run')"
    if j: "j \<in> set (k # ks)" "get_run j w = Some r" "\<forall>j. r_collection_deadline r \<le> clock j" for j r
  proof (cases "j = k")
    case True
    with evaluate_decides [OF ev run] run j ih(3) [OF new] show ?thesis by auto
  next
    case False
    with j same [of j] ih(4) [of j r] show ?thesis by auto
  qed
  moreover have "orch_step w w'" using step(1) ih(2) orch_step_trans by blast
  moreover have "get_run j w' = get_run j w" if "j \<notin> set (k # ks)" for j
    using that ih(3) [of j] step(2) [of j] by simp
  ultimately show ?case using ev ih(1) by simp
qed

section \<open>Properties\<close>

lemma select_unfinished_mem:
  assumes "r \<in> set (select_unfinished n locked w)"
  shows "r \<in> set (w_runs w)" and "unfinished_run r"
  using in_set_takeD [OF assms [unfolded select_unfinished_def]] by auto

lemma select_unfinished_distinct:
  "schema_ok w \<Longrightarrow> distinct (map r_orchestration_run_id (select_unfinished n locked w))"
proof -
  assume "schema_ok w"
  then have "distinct (map r_orchestration_run_id (filter (\<lambda>r. unfinished_run r
      \<and> r_orchestration_run_id r \<notin> set locked) (w_runs w)))"
    by (rule distinct_map_filter [OF schema_run_keys])
  then show ?thesis by (simp add: select_unfinished_def take_map [symmetric] distinct_map)
qed

lemma reconcile_facts:
  assumes ok: "schema_ok w" and sc: "signals_complete w"
  obtains rec w1 w' where
    "reconcile_repair n now locked w = (map r_orchestration_run_id (select_unfinished n locked w), rec, w1)"
    "reconcile n now locked clock w = (Inr rec, w')" "orch_step w w1" "orch_step w1 w'"
    "\<And>r. r \<in> set (select_unfinished n locked w) \<Longrightarrow> get_run (r_orchestration_run_id r) w1 = Some (reopened r)"
    "\<And>t. t \<in> set (w_tasks w) \<Longrightarrow> get_task (t_task_id t) w1 = Some (if t_orchestration_run_id t
        \<in> r_orchestration_run_id ` set (select_unfinished n locked w) then repaired now {} t else t)"
    "\<And>r. r \<in> set (select_unfinished n locked w) \<Longrightarrow> (\<And>j. r_collection_deadline r \<le> clock j) \<Longrightarrow>
       \<exists>run'. get_run (r_orchestration_run_id r) w' = Some run' \<and> decided_run (r_status run')"
proof -
  let ?rs = "select_unfinished n locked w" and ?ids = "map r_orchestration_run_id (select_unfinished n locked w)"
  obtain rec w1 where f: "foldl (reconcile_run now) ([], w) ?rs = (rec, w1)" by fastforce
  have row: "get_run (r_orchestration_run_id r) w = Some r" if "r \<in> set ?rs" for r
    unfolding get_run_def by (rule row_get_mem [OF schema_run_keys [OF ok] select_unfinished_mem(1) [OF that]])
  have fold: "orch_step w w1
    \<and> (\<forall>r \<in> set ?rs. get_run (r_orchestration_run_id r) w1 = Some (reopened r))
    \<and> (\<forall>k. k \<notin> r_orchestration_run_id ` set ?rs \<longrightarrow> get_run k w1 = get_run k w)
    \<and> (\<forall>t \<in> set (w_tasks w). get_task (t_task_id t) w1 =
         Some (if t_orchestration_run_id t \<in> r_orchestration_run_id ` set ?rs then repaired now {} t else t))"
    using reconcile_fold [OF ok sc select_unfinished_distinct [OF ok, of n locked] row, where rec = "[]" and now = now]
    unfolding f snd_conv by simp
  have step1: "orch_step w w1" using fold by blast
  have runs1: "get_run (r_orchestration_run_id r) w1 = Some (reopened r)" if "r \<in> set ?rs" for r
    using fold that by blast
  have present: "get_run k w1 \<noteq> None" if "k \<in> set ?ids" for k using that runs1 by auto
  have "\<exists>w'. evaluate_all clock 0 ?ids w1 = (None, w') \<and> orch_step w1 w'
    \<and> (\<forall>k. k \<notin> set ?ids \<longrightarrow> get_run k w' = get_run k w1)
    \<and> (\<forall>k \<in> set ?ids. \<forall>run. get_run k w1 = Some run \<longrightarrow> (\<forall>j. r_collection_deadline run \<le> clock j) \<longrightarrow>
         (\<exists>run'. get_run k w' = Some run' \<and> decided_run (r_status run')))"
    by (rule evaluate_all_facts [OF orch_step_schema [OF step1 ok] select_unfinished_distinct [OF ok] present])
  then obtain w' where ev: "evaluate_all clock 0 ?ids w1 = (None, w')" "orch_step w1 w'"
    and all: "\<forall>k \<in> set ?ids. \<forall>run. get_run k w1 = Some run \<longrightarrow> (\<forall>j. r_collection_deadline run \<le> clock j) \<longrightarrow>
         (\<exists>run'. get_run k w' = Some run' \<and> decided_run (r_status run'))"
    by (elim exE conjE)
  have dec: "\<exists>run'. get_run k w' = Some run' \<and> decided_run (r_status run')"
    if "k \<in> set ?ids" "get_run k w1 = Some run" "\<And>j. r_collection_deadline run \<le> clock j" for k run
    using all that by blast
  have rep: "reconcile_repair n now locked w = (?ids, rec, w1)" by (simp add: reconcile_repair_def f)
  have rc: "reconcile n now locked clock w = (Inr rec, w')"
    by (simp add: reconcile_def rep ev(1))
  show ?thesis
  proof (rule that [OF rep rc step1 ev(2) runs1])
    fix r assume "r \<in> set ?rs" "\<And>j. r_collection_deadline r \<le> clock j"
    with dec [of "r_orchestration_run_id r" "reopened r"] runs1 [of r]
    show "\<exists>run'. get_run (r_orchestration_run_id r) w' = Some run' \<and> decided_run (r_status run')" by simp
  qed (use fold in blast)+
qed

text \<open>Recovery is safe: when stored signals have completed their tasks (which ingestion
  guarantees), \<open>reconcile\<close> never raises, moves tasks only along edges of the state machine, so it
  never revives a finished task, and keeps the schema and the completeness of signals.\<close>

theorem reconcile_safe:
  assumes "schema_ok w" and "signals_complete w"
  shows "\<exists>recovered w'. reconcile n now locked clock w = (Inr recovered, w')
     \<and> orch_step w w' \<and> schema_ok w' \<and> signals_complete w'"
proof -
  from reconcile_facts [OF assms, of n now locked clock] obtain rec w1 w' where
    f: "reconcile n now locked clock w = (Inr rec, w')" "orch_step w w1" "orch_step w1 w'" by metis
  then have step: "orch_step w w'" using orch_step_trans by blast
  with f(1) orch_step_schema [OF step assms(1)] signals_complete_step [OF step assms(2)] show ?thesis by blast
qed

lemma leased_schema: "schema_ok leased_world" "signals_complete leased_world"
  by (simp_all add: schema_ok_def keys_ok_def refs_ok_def checks_ok_def leased_world_def running_world_def
      sample_worlds sample_rows lease_task_def task_checks_def run_checks_def state_checks_def signals_complete_def)

theorem reconcile_safe_witness:
  "\<exists>recovered w'. reconcile 500 (seconds 90) [] (\<lambda>_. seconds 91) leased_world = (Inr recovered, w')
     \<and> schema_ok w'"
  using reconcile_safe [OF leased_schema, of 500 "seconds 90" "[]" "\<lambda>_. seconds 91"] by blast

text \<open>C16 Recovery is live: after the repairs no task of a selected run is stuck under an expired
  lease or past its signal deadline, and every selected run whose collection deadline the
  evaluations see as passed is decided when \<open>reconcile\<close> returns.\<close>

theorem reconcile_live:
  assumes "schema_ok w" and "signals_complete w" and "r \<in> set (select_unfinished n locked w)"
  shows "(\<forall>t \<in> set (w_tasks w). t_orchestration_run_id t = r_orchestration_run_id r \<longrightarrow>
            (\<exists>t'. get_task (t_task_id t) (snd (snd (reconcile_repair n now locked w))) = Some t'
               \<and> \<not> (t_status t' = DISPATCHING \<and> (\<exists>u. t_lease_until t' = Some u \<and> u \<le> now))
               \<and> \<not> (awaiting (t_status t') \<and> t_signal_deadline t' \<le> now)))
     \<and> ((\<forall>j. r_collection_deadline r \<le> clock j) \<longrightarrow>
          (\<exists>run'. get_run (r_orchestration_run_id r) (snd (reconcile n now locked clock w)) = Some run'
             \<and> decided_run (r_status run')))"
proof -
  from reconcile_facts [OF assms(1,2), of n now locked clock] obtain rec w1 w' where
    f: "reconcile_repair n now locked w = (map r_orchestration_run_id (select_unfinished n locked w), rec, w1)"
      "reconcile n now locked clock w = (Inr rec, w')"
    and tasks: "\<And>t. t \<in> set (w_tasks w) \<Longrightarrow> get_task (t_task_id t) w1 = Some (if t_orchestration_run_id t
        \<in> r_orchestration_run_id ` set (select_unfinished n locked w) then repaired now {} t else t)"
    and dec: "\<And>r. r \<in> set (select_unfinished n locked w) \<Longrightarrow> (\<And>j. r_collection_deadline r \<le> clock j) \<Longrightarrow>
       \<exists>run'. get_run (r_orchestration_run_id r) w' = Some run' \<and> decided_run (r_status run')"
    by metis
  have fixed: "\<not> (t_status (repaired now {} t) = DISPATCHING \<and> (\<exists>u. t_lease_until (repaired now {} t) = Some u \<and> u \<le> now))
      \<and> \<not> (awaiting (t_status (repaired now {} t)) \<and> t_signal_deadline (repaired now {} t) \<le> now)" for t
    by (cases "t_lease_until t") (auto simp: repaired_def repair_task_def awaiting_def)
  have "\<exists>t'. get_task (t_task_id t) w1 = Some t'
      \<and> \<not> (t_status t' = DISPATCHING \<and> (\<exists>u. t_lease_until t' = Some u \<and> u \<le> now))
      \<and> \<not> (awaiting (t_status t') \<and> t_signal_deadline t' \<le> now)"
    if t: "t \<in> set (w_tasks w)" "t_orchestration_run_id t = r_orchestration_run_id r" for t
  proof -
    have "get_task (t_task_id t) w1 = Some (repaired now {} t)"
      using tasks [OF t(1)] t(2) assms(3) by auto
    with fixed [of t] show ?thesis by blast
  qed
  with f dec [OF assms(3)] show ?thesis by auto
qed

theorem reconcile_live_witness:
  "\<exists>run'. get_run 700 (snd (reconcile 500 (seconds 121) [] (\<lambda>_. seconds 121) leased_world)) = Some run'
     \<and> decided_run (r_status run')"
proof -
  have "sample_run \<in> set (select_unfinished 500 [] leased_world)"
    by (simp add: select_unfinished_def leased_world_def running_world_def sample_worlds)
      (simp add: unfinished_run_def sample_run_def)
  from reconcile_live [OF leased_schema this, of "seconds 121" "\<lambda>_. seconds 121"] show ?thesis
    by (simp add: sample_run_def)
qed

end
