(* ===== verification/Ingestion.thy ===== *)
theory Ingestion
  imports Auth Recovery
begin

text \<open>
  The hub's intake of agent signals: \<open>src/tomiris_hub/services/signal_ingestion.py\<close>,
  \<open>src/tomiris_hub/core/request_body.py\<close> and the endpoint of \<open>src/tomiris_hub/api/signals.py\<close>.

  \<open>ingest\<close> is one transaction: it returns the new database, or an error and no database, the
  transaction then being rolled back.  An \<open>IntegrityError\<close> is a violated key of the schema:
  the nonce of an agent, or a second signal for one task; a text that PostgreSQL cannot hold makes
  the flush fail with another error (\<open>storable_signal\<close>).  Decoding the body into the fields
  of an envelope is pydantic's and an argument; so is whether the database can be reached.
\<close>

section \<open>Checks\<close>

definition timestamp_rejection :: "instant \<Rightarrow> int \<Rightarrow> agent_signal \<Rightarrow> hub_error option" where
  "timestamp_rejection now max_ttl_seconds e =
     (if max_ttl_seconds < env_signal_ttl_seconds e
      then Some (HubError ''SIGNAL_TTL_EXCEEDS_MAXIMUM'' 422)
      else if now < env_analysis_timestamp e \<or> env_analysis_timestamp e < env_data_timestamp e
      then Some (HubError ''INVALID_SIGNAL_TIMESTAMPS'' 422)
      else if env_analysis_timestamp e + seconds (env_signal_ttl_seconds e) < now
      then Some (HubError ''SIGNAL_EXPIRED'' 422)
      else None)"

definition agent_rejection :: "agent_signal \<Rightarrow> agent option \<Rightarrow> hub_error option" where
  "agent_rejection e agent =
     (case agent of
        None \<Rightarrow> Some (HubError ''UNKNOWN_AGENT'' 403)
      | Some a \<Rightarrow>
          if \<not> ag_enabled a then Some (HubError ''AGENT_DISABLED'' 403)
          else if ''signal_ingestion'' \<notin> set (ag_capabilities a)
          then Some (HubError ''AGENT_NOT_AUTHORIZED'' 403)
          else if ag_protocol_version a \<noteq> env_protocol_version e
          then Some (HubError ''UNSUPPORTED_PROTOCOL_VERSION'' 422)
          else if ag_supported_assets a \<noteq> [] \<and> env_asset e \<notin> set (ag_supported_assets a)
          then Some (HubError ''UNSUPPORTED_ASSET'' 422)
          else if ag_supported_evidence_types a \<noteq> []
                  \<and> \<not> ev_evidence_type ` set (env_evidence e) \<subseteq> set (ag_supported_evidence_types a)
          then Some (HubError ''UNSUPPORTED_EVIDENCE_TYPE'' 422)
          else None)"

definition snapshot_rejection :: "instant \<Rightarrow> agent_signal \<Rightarrow> market_snapshot option \<Rightarrow> hub_error option" where
  "snapshot_rejection now e snapshot =
     (case snapshot of
        None \<Rightarrow> Some (HubError ''UNKNOWN_SNAPSHOT'' 422)
      | Some s \<Rightarrow>
          if sn_status s \<noteq> S_OPEN \<or> sn_expires_at s \<le> now
          then Some (HubError ''SNAPSHOT_NOT_OPEN'' 422)
          else if env_analysis_timestamp e < sn_created_at s \<or> sn_expires_at s < env_analysis_timestamp e
          then Some (HubError ''SIGNAL_SNAPSHOT_TIME_MISMATCH'' 422)
          else None)"

definition task_rejection :: "instant \<Rightarrow> agent_signal \<Rightarrow> agent_task option \<Rightarrow> hub_error option" where
  "task_rejection now e task =
     (case task of
        None \<Rightarrow> Some (HubError ''TASK_UNKNOWN'' 422)
      | Some t \<Rightarrow>
          if t_agent_id t \<noteq> env_agent_id e then Some (HubError ''TASK_AGENT_MISMATCH'' 403)
          else if Some (t_orchestration_run_id t) \<noteq> env_orchestration_run_id e
          then Some (HubError ''TASK_RUN_MISMATCH'' 422)
          else if t_snapshot_id t \<noteq> env_snapshot_id e then Some (HubError ''TASK_SNAPSHOT_MISMATCH'' 422)
          else if t_asset t \<noteq> env_asset e then Some (HubError ''TASK_ASSET_MISMATCH'' 422)
          else if t_signal_deadline t \<le> now \<or> t_status t = TIMED_OUT
          then Some (HubError ''TASK_EXPIRED'' 422)
          else if t_status t = SIGNAL_RECEIVED then Some (HubError ''DUPLICATE_TASK_RESULT'' 409)
          else if t_status t \<in> {CANCELLED, FAILED, SKIPPED}
          then Some (HubError ''TASK_NOT_ACCEPTING_RESULTS'' 409)
          else if t_status t \<notin> {DISPATCHING, ACKNOWLEDGED, WAITING_SIGNAL}
          then Some (HubError ''TASK_NOT_DISPATCHED'' 409)
          else None)"

section \<open>Ingestion\<close>

definition signal_of :: "instant \<Rightarrow> agent_signal \<Rightarrow> string \<Rightarrow> signal_row" where
  "signal_of now e payload_hash =
     \<lparr>sg_message_id = env_message_id e, sg_agent_id = env_agent_id e,
      sg_agent_run_id = env_agent_run_id e, sg_snapshot_id = env_snapshot_id e,
      sg_task_id = env_task_id e, sg_orchestration_run_id = env_orchestration_run_id e,
      sg_correlation_id = (case env_correlation_id e of Some c \<Rightarrow> c | None \<Rightarrow> env_message_id e),
      sg_causation_id = env_causation_id e, sg_protocol_version = env_protocol_version e,
      sg_asset = env_asset e, sg_bias = env_bias e, sg_confidence = env_confidence e,
      sg_impact = env_impact e, sg_time_horizon = env_time_horizon e,
      sg_data_timestamp = env_data_timestamp e, sg_analysis_timestamp = env_analysis_timestamp e,
      sg_signal_ttl_seconds = env_signal_ttl_seconds e, sg_role_id = env_role_id e,
      sg_role_version = env_role_version e, sg_config_version = env_config_version e,
      sg_feature_pipeline_version = env_feature_pipeline_version e,
      sg_analysis_schema_version = env_analysis_schema_version e,
      sg_data_provider = env_data_provider e, sg_data_as_of = env_data_as_of e,
      sg_confidence_model_version = env_confidence_model_version e, sg_payload = e,
      sg_payload_hash = payload_hash, sg_received_at = now\<rparr>"

definition add_nonce :: "instant \<Rightarrow> string \<Rightarrow> string \<Rightarrow> world \<Rightarrow> world" where
  "add_nonce now agent_id nonce w =
     w\<lparr>w_nonces := w_nonces w @ [\<lparr>nc_agent_id = agent_id, nc_nonce = nonce, nc_received_at = now\<rparr>]\<rparr>"

definition add_signal :: "signal_row \<Rightarrow> world \<Rightarrow> world" where
  "add_signal s w = w\<lparr>w_signals := w_signals w @ [s]\<rparr>"

definition add_intake_event ::
    "instant \<Rightarrow> string \<Rightarrow> audit_outcome \<Rightarrow> string option \<Rightarrow> uuid \<Rightarrow> string option \<Rightarrow> uuid option \<Rightarrow>
     uuid option \<Rightarrow> uuid \<Rightarrow> uuid option \<Rightarrow> string option \<Rightarrow> dict \<Rightarrow> world \<Rightarrow> world" where
  "add_intake_event now event_type outcome reason request_id agent_id message_id snapshot_id
      correlation causation payload_hash metadata w =
     (let (event_id, w) = uuid4 w
      in add_audit \<lparr>au_event_id = event_id, au_occurred_at = now, au_event_type = event_type,
           au_outcome = outcome, au_reason_code = reason, au_request_id = request_id,
           au_agent_id = agent_id, au_message_id = message_id, au_snapshot_id = snapshot_id,
           au_correlation_id = correlation, au_causation_id = causation,
           au_payload_hash = payload_hash, au_metadata = metadata\<rparr> w)"

text \<open>The last branch: the task is completed and the agent's runtime state refreshed.\<close>

definition received :: "instant \<Rightarrow> agent_task \<Rightarrow> agent_task" where
  "received now t = t\<lparr>t_status := SIGNAL_RECEIVED, t_signal_received_at := Some now,
     t_lease_owner := None, t_lease_until := None, t_updated_at := now\<rparr>"

definition refresh_state :: "instant \<Rightarrow> string \<Rightarrow> world \<Rightarrow> world" where
  "refresh_state now agent_id w =
     (case get_state agent_id w of
        None \<Rightarrow> w
      | Some s \<Rightarrow> put_state (s\<lparr>rs_last_signal_at := Some now, rs_last_success_at := Some now,
          rs_last_seen_at := Some now, rs_availability := HEALTHY, rs_updated_at := now\<rparr>) w)"

definition complete_task ::
    "instant \<Rightarrow> agent_signal \<Rightarrow> uuid \<Rightarrow> uuid \<Rightarrow> string \<Rightarrow> agent_task \<Rightarrow> world \<Rightarrow> world" where
  "complete_task now e request_id correlation payload_hash task w =
     (let w = put_task (received now task) w;
          w = refresh_state now (env_agent_id e) w
      in add_intake_event now ''TASK_SIGNAL_RECEIVED'' ACCEPTED None request_id
           (Some (env_agent_id e)) (Some (env_message_id e)) (Some (env_snapshot_id e)) correlation
           (env_task_id e) (Some payload_hash)
           [(''task_id'', PyStr (case env_task_id e of Some k \<Rightarrow> uuid_str k | None \<Rightarrow> ''None'')),
            (''orchestration_run_id'',
             PyStr (case env_orchestration_run_id e of Some k \<Rightarrow> uuid_str k | None \<Rightarrow> ''None''))] w)"

text \<open>The keys that the new rows can violate.\<close>

definition nonce_used :: "string \<Rightarrow> string \<Rightarrow> world \<Rightarrow> bool" where
  "nonce_used agent_id nonce w \<longleftrightarrow>
     list_ex (\<lambda>n. nc_agent_id n = agent_id \<and> nc_nonce n = nonce) (w_nonces w)"

definition task_answered :: "uuid option \<Rightarrow> world \<Rightarrow> bool" where
  "task_answered task_id w \<longleftrightarrow> task_id \<noteq> None \<and> list_ex (\<lambda>s. sg_task_id s = task_id) (w_signals w)"

text \<open>
  What PostgreSQL can store of a signal: no text of it, in the payload's JSON included, holds the
  character zero, and the time to live fits its column.  Agent, asset and protocol version are
  restricted by their patterns.
\<close>

definition storable_evidence :: "instant evidence_item \<Rightarrow> bool" where
  "storable_evidence i \<longleftrightarrow>
     list_all postgres_text
       [ev_evidence_type i, ev_summary i, ev_source_type i, ev_source_id i, ev_provider i]
     \<and> list_all optional_text
         [ev_source_fingerprint i, ev_instrument i, ev_timeframe i, ev_feature_name i,
          ev_feature_version i, ev_observation i]
     \<and> postgres_json (ev_metadata i)"

definition storable_signal :: "agent_signal \<Rightarrow> bool" where
  "storable_signal e \<longleftrightarrow>
     postgres_text (env_time_horizon e) \<and> list_all storable_evidence (env_evidence e)
     \<and> list_all postgres_text (env_risk_flags e)
     \<and> list_all optional_text
         [env_role_id e, env_role_version e, env_config_version e, env_feature_pipeline_version e,
          env_analysis_schema_version e, env_data_provider e, env_confidence_model_version e]
     \<and> postgres_json (env_metadata e) \<and> env_signal_ttl_seconds e < 2 ^ 31"

text \<open>
  The error of a flush that the server refuses before it looks at keys: a \<open>DataError\<close>, which is
  no \<open>IntegrityError\<close> and leaves \<open>ingest\<close>; the endpoint answers it, as every \<open>SQLAlchemyError\<close>,
  with this code.
\<close>

definition data_error :: hub_error where
  "data_error = HubError ''DATABASE_UNAVAILABLE'' 503"

definition replay :: hub_error where
  "replay = HubError ''REPLAY_OR_DUPLICATE'' 409"

definition ingest ::
    "instant \<Rightarrow> int \<Rightarrow> agent_signal \<Rightarrow> string \<Rightarrow> string \<Rightarrow> uuid \<Rightarrow> world \<Rightarrow> hub_error + world" where
  "ingest now max_ttl_seconds e nonce body request_id w =
     (case timestamp_rejection now max_ttl_seconds e of Some err \<Rightarrow> Inl err | None \<Rightarrow>
     (let payload_hash = body_sha256 body in
      case agent_rejection e (get_agent (env_agent_id e) w) of Some err \<Rightarrow> Inl err | None \<Rightarrow>
     (case snapshot_rejection now e (get_snapshot (env_snapshot_id e) w) of Some err \<Rightarrow> Inl err | None \<Rightarrow>
      guard (nonce_used (env_agent_id e) nonce w) replay
     (let w = add_nonce now (env_agent_id e) nonce w;
          task = (case env_task_id e of None \<Rightarrow> None | Some k \<Rightarrow> get_task k w)
      in case (if env_task_id e = None then None else task_rejection now e task) of
           Some err \<Rightarrow> Inl err
         | None \<Rightarrow>
             guard (get_signal (env_message_id e) w \<noteq> None) (HubError ''DUPLICATE_MESSAGE_ID'' 409)
             (let row = signal_of now e payload_hash;
                  correlation = sg_correlation_id row
              in guard (\<not> storable_signal e) data_error
                 (guard (task_answered (env_task_id e) w \<or> \<not> signal_checks row) replay
                 (let w = add_signal row w;
                      w = add_intake_event now ''SIGNAL_INGESTION'' ACCEPTED None request_id
                            (Some (env_agent_id e)) (Some (env_message_id e)) (Some (env_snapshot_id e))
                            correlation (env_causation_id e) (Some payload_hash)
                            [(''snapshot_id'', PyStr (uuid_str (env_snapshot_id e)))] w
                  in case task of
                       None \<Rightarrow> Inr w
                     | Some t \<Rightarrow> Inr (complete_task now e request_id correlation payload_hash t w))))))))"

definition record_rejection ::
    "instant \<Rightarrow> uuid \<Rightarrow> string \<Rightarrow> string option \<Rightarrow> string option \<Rightarrow> world \<Rightarrow> world" where
  "record_rejection now request_id reason body agent_id w =
     add_intake_event now ''SIGNAL_INGESTION'' REJECTED (Some reason) request_id agent_id None None
       request_id None (map_option body_sha256 body) [] w"

section \<open>What ingestion does\<close>

definition ingest_task :: "agent_signal \<Rightarrow> world \<Rightarrow> agent_task option" where
  "ingest_task e w = (case env_task_id e of None \<Rightarrow> None | Some k \<Rightarrow> get_task k w)"

text \<open>All the conditions of an accepted signal.\<close>

definition acceptable :: "instant \<Rightarrow> int \<Rightarrow> agent_signal \<Rightarrow> string \<Rightarrow> world \<Rightarrow> bool" where
  "acceptable now ttl e nonce w \<longleftrightarrow>
     timestamp_rejection now ttl e = None \<and> agent_rejection e (get_agent (env_agent_id e) w) = None
     \<and> snapshot_rejection now e (get_snapshot (env_snapshot_id e) w) = None
     \<and> \<not> nonce_used (env_agent_id e) nonce w
     \<and> (env_task_id e \<noteq> None \<longrightarrow> task_rejection now e (ingest_task e w) = None)
     \<and> get_signal (env_message_id e) w = None \<and> storable_signal e \<and> \<not> task_answered (env_task_id e) w
     \<and> signal_checks (signal_of now e [])"

lemma signal_checks_hash: "signal_checks (signal_of now e h) = signal_checks (signal_of now e h')"
  by (cases "env_data_as_of e") (simp_all add: signal_checks_def signal_analytical_def signal_of_def)

lemma refresh_state_frame [simp]:
  "w_tasks (refresh_state now a w) = w_tasks w" "w_runs (refresh_state now a w) = w_runs w"
  "w_signals (refresh_state now a w) = w_signals w" "w_nonces (refresh_state now a w) = w_nonces w"
  "w_agents (refresh_state now a w) = w_agents w" "w_snapshots (refresh_state now a w) = w_snapshots w"
  "w_outbox (refresh_state now a w) = w_outbox w" "w_endpoints (refresh_state now a w) = w_endpoints w"
  "w_uuid_src (refresh_state now a w) = w_uuid_src w" "w_audit (refresh_state now a w) = w_audit w"
  by (simp_all add: refresh_state_def put_state_def split: option.split)

lemma intake_event_frame [simp]:
  "w_tasks (add_intake_event now ev out re rq ag m sn co ca h md w) = w_tasks w"
  "w_runs (add_intake_event now ev out re rq ag m sn co ca h md w) = w_runs w"
  "w_signals (add_intake_event now ev out re rq ag m sn co ca h md w) = w_signals w"
  "w_nonces (add_intake_event now ev out re rq ag m sn co ca h md w) = w_nonces w"
  "w_agents (add_intake_event now ev out re rq ag m sn co ca h md w) = w_agents w"
  "w_snapshots (add_intake_event now ev out re rq ag m sn co ca h md w) = w_snapshots w"
  "w_outbox (add_intake_event now ev out re rq ag m sn co ca h md w) = w_outbox w"
  "w_endpoints (add_intake_event now ev out re rq ag m sn co ca h md w) = w_endpoints w"
  "w_states (add_intake_event now ev out re rq ag m sn co ca h md w) = w_states w"
  "w_uuid_src (add_intake_event now ev out re rq ag m sn co ca h md w) = w_uuid_src w"
  by (simp_all add: add_intake_event_def uuid4_def add_audit_def)

text \<open>The tables after an accepted signal.\<close>

definition intake :: "instant \<Rightarrow> agent_signal \<Rightarrow> string \<Rightarrow> string \<Rightarrow> world \<Rightarrow> world \<Rightarrow> bool" where
  "intake now e nonce body w w' \<longleftrightarrow>
     w_signals w' = w_signals w @ [signal_of now e (body_sha256 body)]
     \<and> w_nonces w' = w_nonces w @ [\<lparr>nc_agent_id = env_agent_id e, nc_nonce = nonce, nc_received_at = now\<rparr>]
     \<and> w_tasks w' = (case ingest_task e w of None \<Rightarrow> w_tasks w | Some t \<Rightarrow> w_tasks (put_task (received now t) w))
     \<and> w_states w' = (case ingest_task e w of None \<Rightarrow> w_states w
          | Some t \<Rightarrow> w_states (refresh_state now (env_agent_id e) w))
     \<and> w_runs w' = w_runs w \<and> w_agents w' = w_agents w \<and> w_snapshots w' = w_snapshots w
     \<and> w_outbox w' = w_outbox w \<and> w_endpoints w' = w_endpoints w \<and> w_uuid_src w' = w_uuid_src w"

lemma refresh_state_states:
  "w_states w1 = w_states w \<Longrightarrow> w_states (refresh_state now a w1) = w_states (refresh_state now a w)"
  by (simp add: refresh_state_def get_state_def put_state_def split: option.split)

lemma ingest_iff:
  "(\<exists>w'. ingest now ttl e nonce body rq w = Inr w') \<longleftrightarrow> acceptable now ttl e nonce w"
  "ingest now ttl e nonce body rq w = Inr w' \<Longrightarrow> intake now e nonce body w w'"
proof -
  let ?w1 = "add_nonce now (env_agent_id e) nonce w"
  have same: "get_signal k ?w1 = get_signal k w" "task_answered k' ?w1 = task_answered k' w"
    "get_task k ?w1 = get_task k w" for k k'
    by (simp_all add: add_nonce_def get_signal_def task_answered_def get_task_def)
  let ?row = "signal_of now e (body_sha256 body)"
  let ?w2 = "add_intake_event now ''SIGNAL_INGESTION'' ACCEPTED None rq (Some (env_agent_id e))
    (Some (env_message_id e)) (Some (env_snapshot_id e)) (sg_correlation_id ?row) (env_causation_id e)
    (Some (body_sha256 body)) [(''snapshot_id'', PyStr (uuid_str (env_snapshot_id e)))] (add_signal ?row ?w1)"
  have ingest: "ingest now ttl e nonce body rq w = Inr w' \<longleftrightarrow> acceptable now ttl e nonce w \<and>
      w' = (case ingest_task e w of None \<Rightarrow> ?w2
            | Some t \<Rightarrow> complete_task now e rq (sg_correlation_id ?row) (body_sha256 body) t ?w2)" for w'
    unfolding ingest_def acceptable_def Let_def guard_Inr_iff same ingest_task_def
      signal_checks_hash [of now e "[]" "body_sha256 body"]
    by (cases "timestamp_rejection now ttl e"; cases "agent_rejection e (get_agent (env_agent_id e) w)";
        cases "snapshot_rejection now e (get_snapshot (env_snapshot_id e) w)"; cases "env_task_id e")
      (auto simp: same guard_Inr_iff split: option.splits)
  then show "(\<exists>w'. ingest now ttl e nonce body rq w = Inr w') \<longleftrightarrow> acceptable now ttl e nonce w" by blast
  assume "ingest now ttl e nonce body rq w = Inr w'"
  with ingest have w': "w' = (case ingest_task e w of None \<Rightarrow> ?w2
            | Some t \<Rightarrow> complete_task now e rq (sg_correlation_id ?row) (body_sha256 body) t ?w2)" by blast
  have frame: "w_signals ?w2 = w_signals w @ [?row]" "w_tasks ?w2 = w_tasks w" "w_states ?w2 = w_states w"
    "w_nonces ?w2 = w_nonces w @ [\<lparr>nc_agent_id = env_agent_id e, nc_nonce = nonce, nc_received_at = now\<rparr>]"
    "w_runs ?w2 = w_runs w" "w_agents ?w2 = w_agents w" "w_snapshots ?w2 = w_snapshots w"
    "w_outbox ?w2 = w_outbox w" "w_endpoints ?w2 = w_endpoints w" "w_uuid_src ?w2 = w_uuid_src w"
    by (simp_all add: add_signal_def add_nonce_def)
  show "intake now e nonce body w w'"
  proof (cases "ingest_task e w")
    case None
    then show ?thesis unfolding intake_def w' by (simp add: add_signal_def add_nonce_def)
  next
    case (Some t)
    have "w_states (refresh_state now (env_agent_id e) (put_task (received now t) ?w2))
        = w_states (refresh_state now (env_agent_id e) w)"
      by (rule refresh_state_states) (simp add: put_task_def add_signal_def add_nonce_def)
    with Some show ?thesis unfolding intake_def w' complete_task_def Let_def
      by (simp add: put_task_def add_signal_def add_nonce_def)
  qed
qed

section \<open>Ingestion keeps the invariants\<close>

lemma acceptable_task:
  assumes "acceptable now ttl e nonce w" and "env_task_id e = Some k"
  obtains t where "get_task k w = Some t" "ingest_task e w = Some t" "t_agent_id t = env_agent_id e"
    "env_orchestration_run_id e = Some (t_orchestration_run_id t)" "t_snapshot_id t = env_snapshot_id e"
    "t_asset t = env_asset e" "now < t_signal_deadline t"
    "t_status t \<in> {DISPATCHING, ACKNOWLEDGED, WAITING_SIGNAL}"
  using assms
  by (auto simp: acceptable_def ingest_task_def task_rejection_def split: option.splits if_splits)

lemma acceptable_no_task: "env_task_id e = None \<Longrightarrow> ingest_task e w = None"
  by (simp add: ingest_task_def)

lemma ingest_task_id: "ingest_task e w = Some t \<Longrightarrow> env_task_id e = Some (t_task_id t)"
  by (auto simp: ingest_task_def dest: get_task_SomeD split: option.splits)

lemma received_evolves:
  "t_status t \<in> {DISPATCHING, ACKNOWLEDGED, WAITING_SIGNAL} \<Longrightarrow> task_evolves t (received now t)"
  by (rule task_evolvesI) (auto simp: received_def same_identity_def awaiting_def intro: task_edge.result)

lemma refresh_state_step:
  assumes "schema_ok w"
  shows "orch_step w (refresh_state now a w)"
proof (cases "get_state a w")
  case (Some s)
  have "rs_agent_id s = a" using get_state_SomeD [OF Some] by simp
  then show ?thesis
    using orch_step_put_state [of "s\<lparr>rs_last_signal_at := Some now, rs_last_success_at := Some now,
        rs_last_seen_at := Some now, rs_availability := HEALTHY, rs_updated_at := now\<rparr>" w s]
      Some schema_state_checks [OF assms Some]
    by (simp add: refresh_state_def state_checks_def)
qed (simp add: refresh_state_def orch_step_refl)

text \<open>Completing the task and refreshing the agent's state, before the new rows are added.\<close>

definition completed_world :: "instant \<Rightarrow> agent_signal \<Rightarrow> world \<Rightarrow> world" where
  "completed_world now e w = (case ingest_task e w of None \<Rightarrow> w
     | Some t \<Rightarrow> refresh_state now (env_agent_id e) (put_task (received now t) w))"

lemma completed_world_step:
  assumes "acceptable now ttl e nonce w" and ok: "schema_ok w"
  shows "orch_step w (completed_world now e w)"
proof (cases "env_task_id e")
  case (Some k)
  then obtain t where t: "get_task k w = Some t" "ingest_task e w = Some t"
    "t_status t \<in> {DISPATCHING, ACKNOWLEDGED, WAITING_SIGNAL}"
    using acceptable_task [OF assms(1)] by metis
  have step: "orch_step w (put_task (received now t) w)"
    by (rule orch_step_put_task [OF schema_task_keys [OF ok] _ received_evolves [OF t(3)]])
      (use t(1) get_task_SomeD [OF t(1)] in \<open>simp add: received_def\<close>)
  with refresh_state_step [OF orch_step_schema [OF step ok]] t(2) show ?thesis
    by (simp add: completed_world_def orch_step_trans)
qed (simp add: completed_world_def acceptable_no_task orch_step_refl)

lemma intake_tables:
  assumes "intake now e nonce body w w'"
  shows "w_tasks w' = w_tasks (completed_world now e w)" "w_states w' = w_states (completed_world now e w)"
    "w_runs w' = w_runs w" "w_agents w' = w_agents w" "w_snapshots w' = w_snapshots w"
    "w_outbox w' = w_outbox w" "w_endpoints w' = w_endpoints w"
    "w_signals w' = w_signals w @ [signal_of now e (body_sha256 body)]"
    "w_nonces w' = w_nonces w @ [\<lparr>nc_agent_id = env_agent_id e, nc_nonce = nonce, nc_received_at = now\<rparr>]"
  using assms refresh_state_states [of "put_task (received now t) w" w now "env_agent_id e" for t]
  by (auto simp: intake_def completed_world_def put_task_def split: option.split)

lemma signal_of_simps [simp]:
  "sg_message_id (signal_of now e h) = env_message_id e" "sg_agent_id (signal_of now e h) = env_agent_id e"
  "sg_snapshot_id (signal_of now e h) = env_snapshot_id e" "sg_task_id (signal_of now e h) = env_task_id e"
  "sg_orchestration_run_id (signal_of now e h) = env_orchestration_run_id e"
  by (simp_all add: signal_of_def)

lemma intake_refs:
  assumes acc: "acceptable now ttl e nonce w" and ok: "schema_ok w"
  shows "env_agent_id e \<in> ag_agent_id ` set (w_agents w)"
    and "env_snapshot_id e \<in> sn_snapshot_id ` set (w_snapshots w)"
    and "env_task_id e = Some k \<Longrightarrow> k \<in> t_task_id ` set (w_tasks w)"
    and "env_orchestration_run_id e = Some r \<Longrightarrow> r \<in> r_orchestration_run_id ` set (w_runs w)"
proof -
  obtain a where "get_agent (env_agent_id e) w = Some a"
    using acc by (auto simp: acceptable_def agent_rejection_def split: option.splits)
  then show "env_agent_id e \<in> ag_agent_id ` set (w_agents w)"
    using row_get_SomeD [of ag_agent_id "env_agent_id e" "w_agents w" a]
    unfolding get_agent_def by (metis imageI)
  obtain s where "get_snapshot (env_snapshot_id e) w = Some s"
    using acc by (auto simp: acceptable_def snapshot_rejection_def split: option.splits)
  then show "env_snapshot_id e \<in> sn_snapshot_id ` set (w_snapshots w)"
    using row_get_SomeD [of sn_snapshot_id "env_snapshot_id e" "w_snapshots w" s]
    unfolding get_snapshot_def by (metis imageI)
  show "k \<in> t_task_id ` set (w_tasks w)" if k: "env_task_id e = Some k"
  proof -
    from acceptable_task [OF acc k] obtain t where "get_task k w = Some t" by metis
    from get_task_SomeD [OF this] show ?thesis by auto
  qed
  show "r \<in> r_orchestration_run_id ` set (w_runs w)" if r: "env_orchestration_run_id e = Some r"
  proof -
    have "env_task_id e \<noteq> None"
      using acc r by (auto simp: acceptable_def signal_checks_def)
    then obtain k where k: "env_task_id e = Some k" by blast
    from acceptable_task [OF acc k] obtain t where t: "get_task k w = Some t" "r = t_orchestration_run_id t"
      using r by (metis option.inject)
    with ok get_task_SomeD [OF t(1)] show ?thesis by (simp add: schema_ok_def refs_ok_def)
  qed
qed

lemma ingest_schema:
  assumes acc: "acceptable now ttl e nonce w" and inn: "intake now e nonce body w w'" and ok: "schema_ok w"
  shows "schema_ok w'"
proof -
  let ?c = "completed_world now e w" and ?s = "signal_of now e (body_sha256 body)"
  note tabs = intake_tables [OF inn] and step = completed_world_step [OF acc ok]
  have okc: "schema_ok ?c" by (rule orch_step_schema [OF step ok])
  have same: "w_agents ?c = w_agents w" "w_snapshots ?c = w_snapshots w" "w_nonces ?c = w_nonces w"
    "w_signals ?c = w_signals w" "w_outbox ?c = w_outbox w" "w_endpoints ?c = w_endpoints w"
    using step by (simp_all add: orch_step_def)
  have runs: "w_runs ?c = w_runs w" by (simp add: completed_world_def put_task_def split: option.split)
  have new_id: "sg_message_id ?s \<notin> sg_message_id ` set (w_signals w)"
    using acc by (simp add: acceptable_def get_signal_def row_get_None_iff)
  have new_task: "env_task_id e \<noteq> None \<Longrightarrow> sg_task_id ?s \<notin> sg_task_id ` set (w_signals w)"
    using acc by (auto simp: acceptable_def task_answered_def list_ex_iff)
  have new_nonce: "(env_agent_id e, nonce) \<notin> (\<lambda>n. (nc_agent_id n, nc_nonce n)) ` set (w_nonces w)"
    using acc by (auto simp: acceptable_def nonce_used_def list_ex_iff)
  have "keys_ok w'"
    using okc new_id new_task new_nonce
    by (auto simp: schema_ok_def keys_ok_def tabs same runs)
  moreover have "refs_ok w'"
  proof -
    have tasks: "t_task_id ` set (w_tasks ?c) = t_task_id ` set (w_tasks w)"
      using arg_cong [OF tasks_evolve_keys [OF orch_step_tasks [OF step]], of set] by simp
    show ?thesis
      using okc intake_refs [OF acc ok]
      unfolding schema_ok_def refs_ok_def tabs same runs tasks set_append ball_Un by simp
  qed
  moreover have "checks_ok w'"
    using okc acc signal_checks_hash [of now e "[]" "body_sha256 body"]
    by (simp add: schema_ok_def checks_ok_def tabs same runs acceptable_def)
  ultimately show ?thesis by (simp add: schema_ok_def)
qed

lemma ingest_complete:
  assumes acc: "acceptable now ttl e nonce w" and inn: "intake now e nonce body w w'"
    and ok: "schema_ok w" and sc: "signals_complete w"
  shows "signals_complete w'"
  unfolding signals_complete_def
proof (intro ballI allI impI)
  let ?c = "completed_world now e w"
  note tabs = intake_tables [OF inn] and step = completed_world_step [OF acc ok]
  fix s k t assume s: "s \<in> set (w_signals w')" "sg_task_id s = Some k" and t: "get_task k w' = Some t"
  have tc: "get_task k ?c = Some t" using t by (simp add: get_task_def tabs)
  from s(1) consider "s \<in> set (w_signals w)" | "s = signal_of now e (body_sha256 body)"
    by (auto simp: tabs)
  then show "t_status t = SIGNAL_RECEIVED"
  proof cases
    case 1
    then have "s \<in> set (w_signals ?c)" using step by (simp add: orch_step_def)
    with signals_complete_step [OF step sc] s(2) tc show ?thesis
      unfolding signals_complete_def by blast
  next
    case 2
    then have k: "env_task_id e = Some k" using s(2) by simp
    from acceptable_task [OF acc k] obtain u where u: "get_task k w = Some u" "ingest_task e w = Some u"
      by metis
    have "get_task k ?c = Some (received now u)"
      using u get_task_SomeD [OF u(1)] get_task_put_task [of k "received now u" w]
      by (simp add: completed_world_def get_task_def) (simp add: received_def)
    with tc show ?thesis by (auto simp: received_def)
  qed
qed

section \<open>Properties of ingestion\<close>

text \<open>What a signal must satisfy, stated over the database rather than check by check.\<close>

definition admissible :: "instant \<Rightarrow> int \<Rightarrow> agent_signal \<Rightarrow> string \<Rightarrow> world \<Rightarrow> bool" where
  "admissible now ttl e nonce w \<longleftrightarrow>
     env_signal_ttl_seconds e \<le> ttl
     \<and> env_data_timestamp e \<le> env_analysis_timestamp e \<and> env_analysis_timestamp e \<le> now
     \<and> now \<le> env_analysis_timestamp e + seconds (env_signal_ttl_seconds e)
     \<and> (\<exists>a. get_agent (env_agent_id e) w = Some a \<and> ag_enabled a
          \<and> ''signal_ingestion'' \<in> set (ag_capabilities a) \<and> ag_protocol_version a = env_protocol_version e
          \<and> (ag_supported_assets a = [] \<or> env_asset e \<in> set (ag_supported_assets a))
          \<and> (ag_supported_evidence_types a = []
              \<or> (\<forall>i \<in> set (env_evidence e). ev_evidence_type i \<in> set (ag_supported_evidence_types a))))
     \<and> (\<exists>s. get_snapshot (env_snapshot_id e) w = Some s \<and> sn_status s = S_OPEN \<and> now < sn_expires_at s
          \<and> sn_created_at s \<le> env_analysis_timestamp e \<and> env_analysis_timestamp e \<le> sn_expires_at s)
     \<and> (env_agent_id e, nonce) \<notin> (\<lambda>n. (nc_agent_id n, nc_nonce n)) ` set (w_nonces w)
     \<and> get_signal (env_message_id e) w = None \<and> storable_signal e
     \<and> (\<forall>k. env_task_id e = Some k \<longrightarrow>
          (\<exists>t. get_task k w = Some t \<and> t_agent_id t = env_agent_id e
             \<and> env_orchestration_run_id e = Some (t_orchestration_run_id t)
             \<and> t_snapshot_id t = env_snapshot_id e \<and> t_asset t = env_asset e
             \<and> now < t_signal_deadline t \<and> (t_status t = DISPATCHING \<or> awaiting (t_status t))))"

lemma valid_signal_checks: "valid_signal e \<Longrightarrow> signal_checks (signal_of now e h)"
  by (cases "env_data_as_of e")
    (auto simp: valid_signal_def signal_fields_ok_def validate_task_lineage_def signal_checks_def
      signal_analytical_def analytical_fields_def signal_of_def)

lemma task_rejection_None:
  "task_rejection now e (Some t) = None \<longleftrightarrow> t_agent_id t = env_agent_id e
     \<and> env_orchestration_run_id e = Some (t_orchestration_run_id t) \<and> t_snapshot_id t = env_snapshot_id e
     \<and> t_asset t = env_asset e \<and> now < t_signal_deadline t
     \<and> (t_status t = DISPATCHING \<or> awaiting (t_status t))"
  by (cases "t_status t") (auto simp: task_rejection_def awaiting_def)

lemma unanswered:
  assumes "signals_complete w" and "get_task k w = Some t" and "t_status t \<noteq> SIGNAL_RECEIVED"
  shows "\<not> task_answered (Some k) w"
  using assms by (auto simp: task_answered_def signals_complete_def list_ex_iff)

lemma awaiting_not_received: "s = DISPATCHING \<or> awaiting s \<Longrightarrow> s \<noteq> SIGNAL_RECEIVED"
  by (auto simp: awaiting_def)

lemma admissible_acceptable:
  assumes "valid_signal e" and "signals_complete w"
  shows "acceptable now ttl e nonce w \<longleftrightarrow> admissible now ttl e nonce w"
proof -
  have ts: "timestamp_rejection now ttl e = None \<longleftrightarrow> env_signal_ttl_seconds e \<le> ttl
     \<and> env_data_timestamp e \<le> env_analysis_timestamp e \<and> env_analysis_timestamp e \<le> now
     \<and> now \<le> env_analysis_timestamp e + seconds (env_signal_ttl_seconds e)"
    by (auto simp: timestamp_rejection_def)
  have ag: "agent_rejection e (get_agent (env_agent_id e) w) = None \<longleftrightarrow>
     (\<exists>a. get_agent (env_agent_id e) w = Some a \<and> ag_enabled a
          \<and> ''signal_ingestion'' \<in> set (ag_capabilities a) \<and> ag_protocol_version a = env_protocol_version e
          \<and> (ag_supported_assets a = [] \<or> env_asset e \<in> set (ag_supported_assets a))
          \<and> (ag_supported_evidence_types a = []
              \<or> (\<forall>i \<in> set (env_evidence e). ev_evidence_type i \<in> set (ag_supported_evidence_types a))))"
    by (cases "get_agent (env_agent_id e) w") (auto simp: agent_rejection_def image_subset_iff)
  have sn: "snapshot_rejection now e (get_snapshot (env_snapshot_id e) w) = None \<longleftrightarrow>
     (\<exists>s. get_snapshot (env_snapshot_id e) w = Some s \<and> sn_status s = S_OPEN \<and> now < sn_expires_at s
          \<and> sn_created_at s \<le> env_analysis_timestamp e \<and> env_analysis_timestamp e \<le> sn_expires_at s)"
    by (cases "get_snapshot (env_snapshot_id e) w") (auto simp: snapshot_rejection_def)
  have nc: "nonce_used (env_agent_id e) nonce w \<longleftrightarrow>
      (env_agent_id e, nonce) \<in> (\<lambda>n. (nc_agent_id n, nc_nonce n)) ` set (w_nonces w)"
    by (force simp: nonce_used_def list_ex_iff)
  have tk: "((env_task_id e \<noteq> None \<longrightarrow> task_rejection now e (ingest_task e w) = None)
        \<and> \<not> task_answered (env_task_id e) w) \<longleftrightarrow>
      (\<forall>k. env_task_id e = Some k \<longrightarrow>
          (\<exists>t. get_task k w = Some t \<and> t_agent_id t = env_agent_id e
             \<and> env_orchestration_run_id e = Some (t_orchestration_run_id t)
             \<and> t_snapshot_id t = env_snapshot_id e \<and> t_asset t = env_asset e
             \<and> now < t_signal_deadline t \<and> (t_status t = DISPATCHING \<or> awaiting (t_status t))))"
  proof (cases "env_task_id e")
    case None
    then show ?thesis by (simp add: task_answered_def)
  next
    case (Some k)
    show ?thesis
    proof (cases "get_task k w")
      case None
      then show ?thesis by (simp add: Some ingest_task_def task_rejection_def)
    next
      case (Some t)
      with \<open>env_task_id e = Some k\<close> show ?thesis
        using unanswered [OF assms(2) Some] awaiting_not_received [of "t_status t"]
        by (auto simp: ingest_task_def task_rejection_None)
    qed
  qed
  show ?thesis
    unfolding acceptable_def admissible_def ts ag sn nc tk [symmetric]
    using valid_signal_checks [OF assms(1), of now "[]"] by blast
qed

definition sample_signal :: agent_signal where
  "sample_signal = \<lparr>env_protocol_version = ''1.0'', env_message_id = 500, env_agent_id = ''ETH_TECH'',
     env_agent_run_id = 501, env_snapshot_id = 900, env_task_id = Some 800,
     env_orchestration_run_id = Some 700, env_correlation_id = None, env_causation_id = None,
     env_asset = ''ETH'', env_bias = NEUTRAL, env_confidence = 50, env_impact = 50,
     env_time_horizon = ''4h'', env_evidence = [], env_risk_flags = [],
     env_data_timestamp = seconds 9, env_analysis_timestamp = seconds 10, env_signal_ttl_seconds = 60,
     env_role_id = None, env_role_version = None, env_config_version = None,
     env_feature_pipeline_version = None, env_analysis_schema_version = None,
     env_data_provider = None, env_data_as_of = None, env_confidence_model_version = None,
     env_metadata = PyMap []\<rparr>"

definition waiting_world :: world where
  "waiting_world = running_world\<lparr>w_tasks := [sample_task\<lparr>t_status := WAITING_SIGNAL\<rparr>]\<rparr>"

lemma sample_signal_valid: "valid_signal sample_signal"
  by (simp add: valid_signal_def signal_fields_ok_def validate_task_lineage_def analytical_fields_def
      sample_signal_def agent_id_pattern_def asset_pattern_def is_upper_def is_digit_def len_between_def
      max_evidence_items_def opt_max_def bounded_dict_def validate_bounded_json_def default_limits_def
      walk.simps)

lemma waiting_ok: "schema_ok waiting_world" "signals_complete waiting_world"
  by (simp_all add: schema_ok_def keys_ok_def refs_ok_def checks_ok_def waiting_world_def running_world_def
      sample_worlds sample_rows task_checks_def run_checks_def state_checks_def signals_complete_def)

lemma sample_storable: "storable_signal sample_signal"
  by (simp add: storable_signal_def sample_signal_def optional_text_def postgres_text_def)

lemma sample_admissible: "admissible (seconds 20) 3600 sample_signal ''nonce'' waiting_world"
  using sample_storable
  by (simp add: admissible_def sample_signal_def waiting_world_def running_world_def sample_worlds
      sample_rows world_defs awaiting_def)

lemma sample_ingests: "\<exists>w'. ingest (seconds 20) 3600 sample_signal ''nonce'' body 1 waiting_world = Inr w'"
  using sample_admissible admissible_acceptable [OF sample_signal_valid waiting_ok(2)] ingest_iff(1) by blast

text \<open>C4 The intake accepts exactly the admissible signals: for a validated envelope and a database
  in which stored signals have completed their tasks, \<open>ingest\<close> succeeds if and only if the
  signal is fresh, its agent enabled, authorised and supporting asset and evidence, its
  snapshot open and covering the analysis, nonce and message identifier unused, its task,
  if it names one, assigned to this agent, run, snapshot and asset, still awaited and in time, and
  PostgreSQL can store it: no text of the envelope, its evidence and its metadata holds the
  character zero (\<open>storable_signal\<close>), which the contract does not exclude.
  In particular the unique index on \<open>task_id\<close> is never what rejects a signal.\<close>

theorem ingest_iff_admissible:
  assumes "valid_signal e" and "signals_complete w"
  shows "(\<exists>w'. ingest now ttl e nonce body request_id w = Inr w') \<longleftrightarrow> admissible now ttl e nonce w"
  using ingest_iff(1) admissible_acceptable [OF assms] by simp

theorem ingest_iff_admissible_witness:
  "\<exists>w'. ingest (seconds 20) 3600 sample_signal ''nonce'' [] 1 waiting_world = Inr w'"
  using ingest_iff_admissible [OF sample_signal_valid waiting_ok(2)] sample_admissible by blast

text \<open>What an accepted signal changes: its row and nonce are stored, its task becomes
  SIGNAL_RECEIVED with the lease cleared, every other task and every run is left alone, and
  the schema and the completeness of signals are preserved.\<close>

theorem ingest_effect:
  assumes "ingest now ttl e nonce body request_id w = Inr w'" and "schema_ok w" and "signals_complete w"
  shows "w_signals w' = w_signals w @ [signal_of now e (body_sha256 body)]
     \<and> w_nonces w' = w_nonces w @ [\<lparr>nc_agent_id = env_agent_id e, nc_nonce = nonce, nc_received_at = now\<rparr>]
     \<and> (\<forall>k. env_task_id e = Some k \<longrightarrow> (\<exists>t t'. get_task k w = Some t \<and> get_task k w' = Some t'
          \<and> t_agent_id t = env_agent_id e \<and> t_status t' = SIGNAL_RECEIVED
          \<and> t_signal_received_at t' = Some now \<and> t_lease_owner t' = None))
     \<and> (\<forall>k. env_task_id e \<noteq> Some k \<longrightarrow> get_task k w' = get_task k w)
     \<and> w_runs w' = w_runs w \<and> schema_ok w' \<and> signals_complete w'"
proof -
  have acc: "acceptable now ttl e nonce w" using assms(1) ingest_iff(1) by blast
  note inn = ingest_iff(2) [OF assms(1)]
  have tasks: "get_task k w' = (case ingest_task e w of None \<Rightarrow> get_task k w
      | Some t \<Rightarrow> get_task k (put_task (received now t) w))" for k
    using inn by (simp add: intake_def get_task_def split: option.split)
  have own: "\<exists>t t'. get_task k w = Some t \<and> get_task k w' = Some t'
          \<and> t_agent_id t = env_agent_id e \<and> t_status t' = SIGNAL_RECEIVED
          \<and> t_signal_received_at t' = Some now \<and> t_lease_owner t' = None"
    if k: "env_task_id e = Some k" for k
  proof -
    from acceptable_task [OF acc k] obtain t where t: "get_task k w = Some t" "ingest_task e w = Some t"
      "t_agent_id t = env_agent_id e" by metis
    have "get_task k w' = Some (received now t)"
      using t get_task_SomeD [OF t(1)] get_task_put_task [of k "received now t" w] tasks [of k]
      by (simp add: received_def)
    with t show ?thesis by (simp add: received_def)
  qed
  have other: "get_task k w' = get_task k w" if "env_task_id e \<noteq> Some k" for k
  proof (cases "ingest_task e w")
    case (Some t)
    have "t_task_id (received now t) \<noteq> k" using ingest_task_id [OF Some] that by (simp add: received_def)
    then show ?thesis using tasks [of k] Some get_task_put_task [of k "received now t" w] by simp
  qed (use tasks in simp)
  show ?thesis
    using own other ingest_schema [OF acc inn assms(2)] ingest_complete [OF acc inn assms(2,3)] inn
    by (simp add: intake_def)
qed

theorem ingest_effect_witness:
  "\<exists>w' t'. ingest (seconds 20) 3600 sample_signal ''nonce'' [] 1 waiting_world = Inr w'
     \<and> get_task 800 w' = Some t' \<and> t_status t' = SIGNAL_RECEIVED"
proof -
  obtain w' where w': "ingest (seconds 20) 3600 sample_signal ''nonce'' [] 1 waiting_world = Inr w'"
    using sample_ingests by blast
  from ingest_effect [OF this waiting_ok] w' show ?thesis by (auto simp: sample_signal_def)
qed

text \<open>How the database changes over time: nothing stored is forgotten, and tasks evolve.\<close>

definition grows :: "world \<Rightarrow> world \<Rightarrow> bool" where
  "grows w w' \<longleftrightarrow> set (w_nonces w) \<subseteq> set (w_nonces w') \<and> set (w_signals w) \<subseteq> set (w_signals w')
     \<and> (\<forall>k t. get_task k w = Some t \<longrightarrow> (\<exists>t'. get_task k w' = Some t' \<and> task_evolves t t'))"

text \<open>After an accepted signal, no intake in a database that kept the nonces and signals of the one it left accepts the
  nonce of this agent, the message identifier, or another result for the task.\<close>

lemma ingest_once:
  assumes "ingest now ttl e nonce body request_id w = Inr w'"
    and kept: "set (w_nonces w') \<subseteq> set (w_nonces w2)" "set (w_signals w') \<subseteq> set (w_signals w2)"
    and same: "(env_agent_id e2 = env_agent_id e \<and> nonce2 = nonce) \<or> env_message_id e2 = env_message_id e
      \<or> (env_task_id e2 = env_task_id e \<and> env_task_id e \<noteq> None)"
  shows "\<exists>err. ingest later ttl2 e2 nonce2 body2 request2 w2 = Inl err"
proof -
  have acc: "acceptable now ttl e nonce w" using assms(1) ingest_iff(1) by blast
  note tabs = intake_tables [OF ingest_iff(2) [OF assms(1)]]
  have "\<not> acceptable later ttl2 e2 nonce2 w2"
    using same
  proof (elim disjE conjE)
    assume "env_agent_id e2 = env_agent_id e" "nonce2 = nonce"
    moreover have "\<lparr>nc_agent_id = env_agent_id e, nc_nonce = nonce, nc_received_at = now\<rparr> \<in> set (w_nonces w2)"
      using kept(1) tabs(9) by auto
    ultimately have "nonce_used (env_agent_id e2) nonce2 w2"
      unfolding nonce_used_def list_ex_iff by force
    then show ?thesis by (simp add: acceptable_def)
  next
    assume m: "env_message_id e2 = env_message_id e"
    have "signal_of now e (body_sha256 body) \<in> set (w_signals w2)"
      using kept(2) tabs(8) by auto
    then have "env_message_id e \<in> sg_message_id ` set (w_signals w2)"
      using image_iff by fastforce
    then have "get_signal (env_message_id e2) w2 \<noteq> None"
      by (simp add: get_signal_def row_get_None_iff m)
    then show ?thesis by (simp add: acceptable_def)
  next
    assume t: "env_task_id e2 = env_task_id e" "env_task_id e \<noteq> None"
    have "signal_of now e (body_sha256 body) \<in> set (w_signals w2)"
      using kept(2) tabs(8) by auto
    then have "task_answered (env_task_id e2) w2"
      using t by (auto simp: task_answered_def list_ex_iff intro!: bexI [of _ "signal_of now e (body_sha256 body)"])
    then show ?thesis by (simp add: acceptable_def)
  qed
  then have "\<nexists>w3. ingest later ttl2 e2 nonce2 body2 request2 w2 = Inr w3"
    using ingest_iff(1) by blast
  then show ?thesis by (cases "ingest later ttl2 e2 nonce2 body2 request2 w2") auto
qed

end
