(* ===== verification/Hub_Api.thy ===== *)
theory Hub_Api
  imports Ingestion
begin

text \<open>
  The hub's endpoint \<open>POST /v1/signals\<close>: \<open>src/tomiris_hub/api/signals.py\<close> with the bounded
  body reader of \<open>src/tomiris_hub/core/request_body.py\<close> (\<open>read_limited_task_body\<close> of
  \<open>src/tomiris_agent_runtime/request_body.py\<close> differs in one error code, an argument here).

  A request is the values of its headers and the chunks of its body; the framework's parsing
  of HTTP is not modelled.  \<open>parse\<close> is pydantic's JSON decoding of the body into the fields of
  an envelope.  The two flags say whether the transactions of intake and of the rejection
  audit reach the database; a transaction that does not leaves it unchanged.
\<close>

section \<open>Bounded body\<close>

fun collect_chunks :: "hub_error \<Rightarrow> nat \<Rightarrow> string \<Rightarrow> string list \<Rightarrow> hub_error + string" where
  "collect_chunks too_large maximum_bytes collected [] = Inr collected"
| "collect_chunks too_large maximum_bytes collected (chunk # chunks) =
     (if maximum_bytes < length collected + length chunk then Inl too_large
      else collect_chunks too_large maximum_bytes (collected @ chunk) chunks)"

definition read_limited_body ::
    "string \<Rightarrow> nat \<Rightarrow> string option \<Rightarrow> string list \<Rightarrow> hub_error + string" where
  "read_limited_body too_large_code maximum_bytes content_length chunks =
     (let collect = collect_chunks (HubError too_large_code 413) maximum_bytes [] chunks
      in case content_length of
           None \<Rightarrow> collect
         | Some text \<Rightarrow>
             (case py_int text of
                None \<Rightarrow> Inl (HubError ''INVALID_CONTENT_LENGTH'' 400)
              | Some declared \<Rightarrow>
                  guard (declared < 0) (HubError ''INVALID_CONTENT_LENGTH'' 400)
                  (guard (int maximum_bytes < declared) (HubError too_large_code 413) collect)))"

lemma collect_chunks_Inr:
  "length collected \<le> n \<Longrightarrow> collect_chunks err n collected chunks = Inr body \<longleftrightarrow>
   body = collected @ concat chunks \<and> length body \<le> n"
proof (induction chunks arbitrary: collected)
  case (Cons c cs)
  then show ?case by (cases "n < length collected + length c") auto
qed auto

lemma read_limited_body_Inr:
  "read_limited_body code n cl chunks = Inr body \<Longrightarrow> body = concat chunks \<and> length body \<le> n"
  by (auto simp: read_limited_body_def Let_def collect_chunks_Inr guard_Inr_iff split: option.splits)

section \<open>The endpoint\<close>

record signal_request =
  hq_method :: string
  hq_path :: string
  hq_agent_id :: "string option"
  hq_timestamp :: "string option"
  hq_nonce :: "string option"
  hq_key_id :: "string option"
  hq_signature :: "string option"
  hq_content_length :: "string option"
  hq_chunks :: "string list"

record hub_settings =
  hs_max_signal_request_bytes :: nat
  hs_max_signal_ttl_seconds :: int
  hs_auth_max_clock_skew_seconds :: int

datatype signal_response =
    Accepted202 uuid uuid
  | RejectedResponse int string uuid
  | InternalError

definition auth_of :: "signal_request \<Rightarrow> auth_headers option" where
  "auth_of q =
     (case (hq_agent_id q, hq_timestamp q, hq_nonce q, hq_key_id q, hq_signature q) of
        (Some a, Some t, Some n, Some k, Some s) \<Rightarrow>
          Some \<lparr>ah_agent_id = a, ah_timestamp = t, ah_nonce = n, ah_key_id = k, ah_signature = s\<rparr>
      | _ \<Rightarrow> None)"

definition safe_agent_claim :: "signal_request \<Rightarrow> string option" where
  "safe_agent_claim q =
     (case hq_agent_id q of
        Some agent_claim \<Rightarrow>
          if length agent_claim \<le> 64 \<and> is_ascii agent_claim then Some agent_claim else None
      | None \<Rightarrow> None)"

text \<open>The body of the \<open>try\<close> block: the envelope and the new database, or the error it raises,
  with the body when that had been read.\<close>

definition take_signal ::
    "hub_settings \<Rightarrow> (string \<Rightarrow> string \<Rightarrow> crypto_error + string option) \<Rightarrow>
     (string \<Rightarrow> py_datetime signal_envelope option) \<Rightarrow> bool \<Rightarrow> instant \<Rightarrow> instant \<Rightarrow> uuid \<Rightarrow>
     signal_request \<Rightarrow> world \<Rightarrow> (string option \<times> hub_error) + (agent_signal \<times> world)" where
  "take_signal cfg get_secret parse db_up auth_now ingest_now request_id q w =
     (case read_limited_body ''REQUEST_TOO_LARGE'' (hs_max_signal_request_bytes cfg)
             (hq_content_length q) (hq_chunks q) of
        Inl e \<Rightarrow> Inl (None, e)
      | Inr body \<Rightarrow>
          (case auth_of q of
             None \<Rightarrow> Inl (Some body, HubError ''MISSING_AUTH_HEADERS'' 401)
           | Some auth \<Rightarrow>
               (case hub_verify get_secret auth_now (hs_auth_max_clock_skew_seconds cfg)
                       (hq_method q) (hq_path q) auth body of
                  Inl e \<Rightarrow> Inl (Some body, e)
                | Inr _ \<Rightarrow>
                    (case (case parse body of None \<Rightarrow> None | Some raw \<Rightarrow> validate_signal raw) of
                       None \<Rightarrow> Inl (Some body, HubError ''INVALID_SCHEMA'' 422)
                     | Some envelope \<Rightarrow>
                         if env_agent_id envelope \<noteq> ah_agent_id auth
                         then Inl (Some body, HubError ''AGENT_ID_MISMATCH'' 403)
                         else if \<not> db_up
                         then Inl (Some body, HubError ''DATABASE_UNAVAILABLE'' 503)
                         else
                           (case ingest ingest_now (hs_max_signal_ttl_seconds cfg) envelope
                                   (ah_nonce auth) body request_id w of
                              Inl e \<Rightarrow> Inl (Some body, e)
                            | Inr w \<Rightarrow> Inr (envelope, w))))))"

definition ingest_signal ::
    "hub_settings \<Rightarrow> (string \<Rightarrow> string \<Rightarrow> crypto_error + string option) \<Rightarrow>
     (string \<Rightarrow> py_datetime signal_envelope option) \<Rightarrow> bool \<Rightarrow> bool \<Rightarrow> instant \<Rightarrow> instant \<Rightarrow> instant \<Rightarrow>
     signal_request \<Rightarrow> world \<Rightarrow> signal_response \<times> world" where
  "ingest_signal cfg get_secret parse db_up audit_up auth_now ingest_now reject_now q w =
     (let (request_id, w) = uuid4 w
      in case take_signal cfg get_secret parse db_up auth_now ingest_now request_id q w of
           Inr (envelope, w) \<Rightarrow> (Accepted202 request_id (env_message_id envelope), w)
         | Inl (_, Crashed _) \<Rightarrow> (InternalError, w)
         | Inl (body, HubError code status) \<Rightarrow>
             (RejectedResponse status code request_id,
              if audit_up
              then record_rejection reject_now request_id code body (safe_agent_claim q) w
              else w))"

section \<open>Properties\<close>

lemma take_signal_accepts:
  assumes "take_signal cfg get_secret parse db_up an inow rq q w = Inr (e, w')"
  shows "\<exists>auth raw t body. auth_of q = Some auth \<and> body = concat (hq_chunks q)
     \<and> length body \<le> hs_max_signal_request_bytes cfg
     \<and> hub_verify get_secret an (hs_auth_max_clock_skew_seconds cfg) (hq_method q) (hq_path q) auth body = Inr t
     \<and> parse body = Some raw \<and> validate_signal raw = Some e \<and> env_agent_id e = ah_agent_id auth
     \<and> ingest inow (hs_max_signal_ttl_seconds cfg) e (ah_nonce auth) body rq w = Inr w'"
proof -
  obtain body where body: "read_limited_body ''REQUEST_TOO_LARGE'' (hs_max_signal_request_bytes cfg)
      (hq_content_length q) (hq_chunks q) = Inr body"
    using assms by (auto simp: take_signal_def split: sum.splits)
  with assms read_limited_body_Inr [OF body] show ?thesis
    by (auto simp: take_signal_def split: sum.splits option.splits if_splits)
qed

text \<open>C7 Only authenticated requests are accepted: a 202 answer means that the body was within the
  limit, that the signature over method, path, agent, timestamp, nonce, key and this body
  verified under a secret of the provider, that the envelope is valid and comes from the
  authenticated agent, and that its intake succeeded with the authenticated nonce.\<close>

theorem accepted_is_authenticated:
  assumes "ingest_signal cfg get_secret parse db_up audit_up an inow rnow q w = (Accepted202 rq m, w')"
  shows "\<exists>auth raw t e body. auth_of q = Some auth \<and> body = concat (hq_chunks q)
     \<and> length body \<le> hs_max_signal_request_bytes cfg
     \<and> hub_verify get_secret an (hs_auth_max_clock_skew_seconds cfg) (hq_method q) (hq_path q) auth body = Inr t
     \<and> parse body = Some raw \<and> validate_signal raw = Some e \<and> valid_signal e
     \<and> env_agent_id e = ah_agent_id auth \<and> env_message_id e = m
     \<and> ingest inow (hs_max_signal_ttl_seconds cfg) e (ah_nonce auth) body rq (snd (uuid4 w)) = Inr w'"
proof -
  from assms obtain e where "take_signal cfg get_secret parse db_up an inow rq q (snd (uuid4 w)) = Inr (e, w')"
    and "env_message_id e = m"
    by (auto simp: ingest_signal_def Let_def uuid4_def split: sum.splits hub_error.splits prod.splits)
  with take_signal_accepts [OF this(1)] validate_signal_valid show ?thesis by blast
qed

text \<open>A signed request for the sample database.\<close>

definition sample_signature :: string where
  "sample_signature = sign_hmac ''secret'' (canonical_request ''POST'' ''/v1/signals'' ''ETH_TECH'' ''20''
     (replicate 22 (CHR ''a'')) ''k'' (body_sha256 []))"

definition sample_request :: signal_request where
  "sample_request = \<lparr>hq_method = ''POST'', hq_path = ''/v1/signals'', hq_agent_id = Some ''ETH_TECH'',
     hq_timestamp = Some ''20'', hq_nonce = Some (replicate 22 (CHR ''a'')), hq_key_id = Some ''k'',
     hq_signature = Some sample_signature, hq_content_length = None, hq_chunks = []\<rparr>"

definition sample_auth :: auth_headers where
  "sample_auth = \<lparr>ah_agent_id = ''ETH_TECH'', ah_timestamp = ''20'', ah_nonce = replicate 22 (CHR ''a''),
     ah_key_id = ''k'', ah_signature = sample_signature\<rparr>"

definition sample_settings :: hub_settings where
  "sample_settings = \<lparr>hs_max_signal_request_bytes = 65536, hs_max_signal_ttl_seconds = 3600,
     hs_auth_max_clock_skew_seconds = 300\<rparr>"

definition sample_raw :: "py_datetime signal_envelope" where
  "sample_raw = \<lparr>env_protocol_version = ''1.0'', env_message_id = 500, env_agent_id = ''ETH_TECH'',
     env_agent_run_id = 501, env_snapshot_id = 900, env_task_id = Some 800,
     env_orchestration_run_id = Some 700, env_correlation_id = None, env_causation_id = None,
     env_asset = ''ETH'', env_bias = NEUTRAL, env_confidence = 50, env_impact = 50,
     env_time_horizon = ''4h'', env_evidence = [], env_risk_flags = [],
     env_data_timestamp = Aware (seconds 9) 0, env_analysis_timestamp = Aware (seconds 10) 0,
     env_signal_ttl_seconds = 60, env_role_id = None, env_role_version = None,
     env_config_version = None, env_feature_pipeline_version = None,
     env_analysis_schema_version = None, env_data_provider = None, env_data_as_of = None,
     env_confidence_model_version = None, env_metadata = PyMap []\<rparr>"

lemma sample_raw_validates: "validate_signal sample_raw = Some sample_signal"
proof -
  have "signal_fields_ok sample_raw" "validate_task_lineage sample_signal"
    using sample_signal_valid
    by (simp_all add: valid_signal_def signal_fields_ok_def sample_raw_def sample_signal_def)
  then show ?thesis
    by (simp add: validate_signal_def Let_def require_utc_def)
      (simp add: sample_raw_def sample_signal_def require_utc_def)
qed

lemma sample_request_verifies:
  "hub_verify (\<lambda>_ _. Inr (Some ''secret'')) 0 300 ''POST'' ''/v1/signals'' sample_auth [] = Inr (seconds 20)"
proof -
  have "well_formed_headers sample_auth"
    using sign_shape [of "''secret''"]
    by (simp add: sample_auth_def sample_signature_def well_formed_headers_def agent_id_pattern_def is_upper_def
      is_digit_def is_lower_def key_id_pattern_def timestamp_pattern_def timestamp_digits_def
      nonce_pattern_def list_all_iff)
  moreover have "from_timestamp (int_of_text (ah_timestamp sample_auth)) = Some (seconds 20)"
    by (simp add: sample_auth_def int_of_text_def digits_value_def from_timestamp_def)
  ultimately show ?thesis
    by (subst hub_verify_iff) (simp_all add: sample_auth_def sample_signature_def)
qed

lemma sample_request_accepted:
  "\<exists>w'. ingest_signal sample_settings (\<lambda>_ _. Inr (Some ''secret'')) (\<lambda>_. Some sample_raw) True True
      0 (seconds 20) (seconds 20) sample_request waiting_world = (Accepted202 1000 500, w')"
proof -
  let ?w = "waiting_world\<lparr>w_uuid_pos := Suc 1000\<rparr>" and ?n = "replicate 22 (CHR ''a'')"
  have u: "uuid4 waiting_world = (1000, ?w)"
    by (simp add: uuid4_def waiting_world_def running_world_def sample_worlds)
  have "admissible (seconds 20) 3600 sample_signal ?n ?w"
    using sample_storable
    by (simp add: admissible_def sample_signal_def waiting_world_def running_world_def sample_worlds
        sample_rows world_defs awaiting_def)
  moreover have "signals_complete ?w"
    by (simp add: signals_complete_def waiting_world_def running_world_def sample_worlds)
  ultimately obtain w' where w': "ingest (seconds 20) 3600 sample_signal ?n [] 1000 ?w = Inr w'"
    using admissible_acceptable [OF sample_signal_valid] ingest_iff(1) by blast
  have id: "env_message_id sample_signal = 500" "env_agent_id sample_signal = ''ETH_TECH''"
    by (simp_all add: sample_signal_def)
  have "auth_of sample_request = Some sample_auth"
    by (simp add: auth_of_def sample_request_def sample_auth_def)
  then have "take_signal sample_settings (\<lambda>_ _. Inr (Some ''secret'')) (\<lambda>_. Some sample_raw) True
      0 (seconds 20) 1000 sample_request ?w = Inr (sample_signal, w')"
    using sample_request_verifies w' sample_raw_validates
    by (simp add: take_signal_def read_limited_body_def sample_request_def sample_settings_def id)
      (simp add: sample_auth_def)
  then show ?thesis by (simp add: ingest_signal_def u id)
qed

theorem accepted_is_authenticated_witness:
  "\<exists>w'. ingest (seconds 20) 3600 sample_signal (replicate 22 (CHR ''a'')) [] 1000 (snd (uuid4 waiting_world)) = Inr w'"
proof -
  obtain w' where "ingest_signal sample_settings (\<lambda>_ _. Inr (Some ''secret'')) (\<lambda>_. Some sample_raw) True True
      0 (seconds 20) (seconds 20) sample_request waiting_world = (Accepted202 1000 500, w')"
    using sample_request_accepted by blast
  from accepted_is_authenticated [OF this] show ?thesis
    by (auto simp: auth_of_def sample_request_def sample_raw_validates sample_settings_def)
qed

text \<open>A rejected request leaves no trace but its audit row: every table other than the audit is
  unchanged, and when the audit can be written it gains exactly one REJECTED row carrying the
  code of the answer, without the agent's name unless the claim is short and ASCII.\<close>

theorem rejection_only_audits:
  assumes "ingest_signal cfg get_secret parse db_up audit_up an inow rnow q w = (RejectedResponse status code rq, w')"
  shows "w_agents w' = w_agents w \<and> w_snapshots w' = w_snapshots w \<and> w_nonces w' = w_nonces w
     \<and> w_signals w' = w_signals w \<and> w_outbox w' = w_outbox w \<and> w_endpoints w' = w_endpoints w
     \<and> w_states w' = w_states w \<and> w_runs w' = w_runs w \<and> w_tasks w' = w_tasks w
     \<and> (if audit_up
        then \<exists>row. w_audit w' = w_audit w @ [row] \<and> au_outcome row = REJECTED
               \<and> au_reason_code row = Some code \<and> au_agent_id row = safe_agent_claim q
        else w_audit w' = w_audit w)"
proof -
  from assms have "\<exists>b. w' = (if audit_up
      then record_rejection rnow rq code b (safe_agent_claim q) (snd (uuid4 w)) else snd (uuid4 w))"
    by (cases "take_signal cfg get_secret parse db_up an inow (fst (uuid4 w)) q (snd (uuid4 w))")
      (auto simp: ingest_signal_def Let_def uuid4_def split: prod.splits hub_error.splits)
  then obtain b where "w' = (if audit_up
      then record_rejection rnow rq code b (safe_agent_claim q) (snd (uuid4 w)) else snd (uuid4 w))"
    by blast
  then show ?thesis
    by (simp add: record_rejection_def) (simp add: add_intake_event_def uuid4_def add_audit_def)
qed

theorem rejection_only_audits_witness:
  "w_signals (snd (ingest_signal sample_settings (\<lambda>_ _. Inr (Some ''secret'')) (\<lambda>_. Some sample_raw) True True
      0 (seconds 20) (seconds 20) (sample_request\<lparr>hq_signature := None\<rparr>) waiting_world)) = []"
proof -
  let ?q = "sample_request\<lparr>hq_signature := None\<rparr>"
  let ?r = "ingest_signal sample_settings (\<lambda>_ _. Inr (Some ''secret'')) (\<lambda>_. Some sample_raw) True True
      0 (seconds 20) (seconds 20) ?q waiting_world"
  have "?r = (RejectedResponse 401 ''MISSING_AUTH_HEADERS'' 1000, snd ?r)"
    by (simp add: ingest_signal_def Let_def take_signal_def read_limited_body_def auth_of_def sample_request_def
        uuid4_def waiting_world_def running_world_def sample_worlds)
  from rejection_only_audits [OF this] show ?thesis
    by (simp add: waiting_world_def running_world_def sample_worlds)
qed

end
