(* ===== verification/Health.thy ===== *)
theory Health
  imports Endpoint_Security Task_Lifecycle Samples Binary64
begin

text \<open>
  The health prober of the orchestrator (\<open>src/tomiris_orchestrator/health.py\<close>) and the health
  endpoints of the hub (\<open>src/tomiris_hub/api/health.py\<close>).

  A probe asks the three public endpoints of an agent one after the other and stores one verdict.
  The HTTP client is an argument: the answer it gives to each URL.  \<open>probe_outcome\<close> is the body of
  \<open>probe\<close> up to the second transaction, \<open>store_probe\<close> is that transaction.  The rows that a
  probe judges are read in a transaction of its own, so \<open>probe\<close> takes two databases: the one it
  saw and the one it writes to.
\<close>

section \<open>Probing an agent\<close>

text \<open>
  What a GET gives: a status with what \<open>json()\<close> and the types of \<open>RuntimeCapabilities\<close> make of the
  body, an \<open>httpx.HTTPError\<close> (or a \<open>ValueError\<close> or \<open>TypeError\<close>, treated alike), or an
  exception of another class, which no clause of the probe catches.
\<close>

datatype capabilities_body = ParsedCapabilities runtime_capabilities | InvalidCapabilities | EscapingBody
datatype probe_reply = ProbeStatus int capabilities_body | ProbeHttpError | ProbeOtherError

record probe_reading =
  pr_now :: instant
  pr_started :: rat
  pr_finished :: rat
  pr_get :: "string \<Rightarrow> probe_reply"

record probe_verdict =
  pv_availability :: availability
  pv_latency_ms :: "rat option"
  pv_error_code :: "string option"

definition unavailable :: "rat option \<Rightarrow> string \<Rightarrow> probe_verdict" where
  "unavailable latency code =
     \<lparr>pv_availability = UNAVAILABLE, pv_latency_ms = latency, pv_error_code = Some code\<rparr>"

text \<open>The three requests; the first one that fails ends them, \<open>Inl True\<close> when its exception escapes.\<close>

definition probe_get :: "probe_reading \<Rightarrow> string \<Rightarrow> bool + int \<times> capabilities_body" where
  "probe_get r url =
     (case pr_get r url of
        ProbeStatus status body \<Rightarrow> Inr (status, body)
      | ProbeHttpError \<Rightarrow> Inl False
      | ProbeOtherError \<Rightarrow> Inl True)"

definition probe_requests :: "probe_reading \<Rightarrow> string \<Rightarrow> bool + int \<times> int \<times> int \<times> capabilities_body" where
  "probe_requests r origin =
     (case probe_get r (origin @ ''/health/live'') of Inl escapes \<Rightarrow> Inl escapes
      | Inr (live, _) \<Rightarrow>
     (case probe_get r (origin @ ''/health/ready'') of Inl escapes \<Rightarrow> Inl escapes
      | Inr (ready, _) \<Rightarrow>
     (case probe_get r (origin @ ''/v1/capabilities'') of Inl escapes \<Rightarrow> Inl escapes
      | Inr (status, body) \<Rightarrow> Inr (live, ready, status, body))))"

definition latency_of :: "probe_reading \<Rightarrow> rat" where
  "latency_of r = max 0 (fmul (fsub (pr_finished r) (pr_started r)) 1000)"

definition drift :: "agent \<Rightarrow> runtime_capabilities \<Rightarrow> bool" where
  "drift ag runtime \<longleftrightarrow>
     rc_agent_id runtime \<noteq> ag_agent_id ag \<or> rc_role runtime \<noteq> ag_role ag
     \<or> set (rc_capabilities runtime) \<noteq> set (ag_capabilities ag)
     \<or> set (rc_supported_assets runtime) \<noteq> set (ag_supported_assets ag)
     \<or> ag_protocol_version ag \<notin> set (rc_protocol_versions runtime)"

definition judge_replies ::
    "agent \<Rightarrow> rat option \<Rightarrow> int \<Rightarrow> int \<Rightarrow> int \<Rightarrow> capabilities_body \<Rightarrow> probe_verdict option" where
  "judge_replies ag latency live ready status body =
     (let mismatch = \<lparr>pv_availability = DEGRADED, pv_latency_ms = latency,
                      pv_error_code = Some ''AGENT_CAPABILITY_MISMATCH''\<rparr>
      in if live \<noteq> 200 \<or> ready \<noteq> 200 then Some (unavailable latency ''AGENT_UNAVAILABLE'')
         else if status \<noteq> 200 then Some mismatch
         else case body of
             EscapingBody \<Rightarrow> None
           | InvalidCapabilities \<Rightarrow> Some (unavailable latency ''AGENT_UNAVAILABLE'')
           | ParsedCapabilities c \<Rightarrow>
               (case validate_runtime_capabilities c of
                  None \<Rightarrow> Some (unavailable latency ''AGENT_UNAVAILABLE'')
                | Some runtime \<Rightarrow>
                    Some (if drift ag runtime then mismatch
                          else \<lparr>pv_availability = HEALTHY, pv_latency_ms = latency, pv_error_code = None\<rparr>)))"

text \<open>The verdict; \<open>None\<close> when an exception leaves \<open>probe\<close>.\<close>

definition probe_outcome ::
    "endpoint_validator \<Rightarrow> probe_reading \<Rightarrow> agent option \<Rightarrow> agent_endpoint option \<Rightarrow> probe_verdict option" where
  "probe_outcome v r agent_row endpoint =
     (case (agent_row, endpoint) of
        (Some ag, Some ep) \<Rightarrow>
          if \<not> ep_enabled ep then Some (unavailable None ''AGENT_ENDPOINT_MISSING'')
          else (case validate_endpoint v (ep_endpoint_url ep) (ep_environment ep) of
                  Inl (EndpointSecurityError code _) \<Rightarrow> Some (unavailable None code)
                | Inl EndpointOtherError \<Rightarrow> Some (unavailable None ''AGENT_UNAVAILABLE'')
                | Inr origin \<Rightarrow>
                    (case probe_requests r origin of
                       Inl escapes \<Rightarrow> if escapes then None else Some (unavailable None ''AGENT_UNAVAILABLE'')
                     | Inr (live, ready, status, body) \<Rightarrow>
                         judge_replies ag (Some (latency_of r)) live ready status body))
      | _ \<Rightarrow> Some (unavailable None ''AGENT_ENDPOINT_MISSING''))"

section \<open>Storing the verdict\<close>

definition probed_state :: "instant \<Rightarrow> probe_verdict \<Rightarrow> agent_runtime_state \<Rightarrow> agent_runtime_state" where
  "probed_state now p st =
     st\<lparr>rs_availability := pv_availability p, rs_last_probe_at := Some now,
        rs_last_seen_at := (if pv_availability p \<in> {HEALTHY, DEGRADED} then Some now else rs_last_seen_at st),
        rs_latency_ms := pv_latency_ms p, rs_last_error_code := pv_error_code p, rs_updated_at := now\<rparr>"

definition new_runtime_state :: "string \<Rightarrow> availability \<Rightarrow> instant \<Rightarrow> agent_runtime_state" where
  "new_runtime_state agent_id av now =
     \<lparr>rs_agent_id = agent_id, rs_availability = av, rs_last_probe_at = None, rs_last_seen_at = None,
      rs_last_ack_at = None, rs_last_signal_at = None, rs_last_success_at = None, rs_consecutive_failures = 0,
      rs_latency_ms = None, rs_circuit_state = CLOSED, rs_circuit_open_until = None, rs_last_error_code = None,
      rs_updated_at = now\<rparr>"

text \<open>The second transaction; \<open>None\<close> is the violated foreign key of an unknown agent.\<close>

definition store_probe :: "instant \<Rightarrow> string \<Rightarrow> probe_verdict \<Rightarrow> world \<Rightarrow> world option" where
  "store_probe now agent_id p w =
     (case get_state agent_id w of
        Some st \<Rightarrow> Some (put_state (probed_state now p st) w)
      | None \<Rightarrow>
          if get_agent agent_id w = None then None
          else Some (add_state (probed_state now p (new_runtime_state agent_id (pv_availability p) now)) w))"

datatype probe_error = ProbeEscapes | ProbeUnknownAgent

definition probe ::
    "endpoint_validator \<Rightarrow> probe_reading \<Rightarrow> string \<Rightarrow> world \<Rightarrow> world \<Rightarrow> probe_error + availability \<times> world" where
  "probe v r agent_id seen w =
     (case probe_outcome v r (get_agent agent_id seen) (get_endpoint agent_id seen) of
        None \<Rightarrow> Inl ProbeEscapes
      | Some p \<Rightarrow>
          (case store_probe (pr_now r) agent_id p w of
             None \<Rightarrow> Inl ProbeUnknownAgent
           | Some w' \<Rightarrow> Inr (pv_availability p, w')))"

text \<open>\<open>probe_enabled\<close>: the agents in the order of the query, each with the readings of its own probe;
  an exception leaves the verdicts stored before it.\<close>

definition probe_targets :: "world \<Rightarrow> string list" where
  "probe_targets w =
     map ag_agent_id (filter (\<lambda>ag. ag_enabled ag
       \<and> (case get_endpoint (ag_agent_id ag) w of None \<Rightarrow> False | Some ep \<Rightarrow> ep_enabled ep)) (w_agents w))"

fun probe_agents ::
    "endpoint_validator \<Rightarrow> (string \<Rightarrow> probe_reading) \<Rightarrow> string list \<Rightarrow> world \<Rightarrow> probe_error option \<times> world" where
  "probe_agents v rs [] w = (None, w)"
| "probe_agents v rs (agent_id # ids) w =
     (case probe v (rs agent_id) agent_id w w of
        Inl e \<Rightarrow> (Some e, w)
      | Inr (_, w') \<Rightarrow> probe_agents v rs ids w')"

definition probe_enabled ::
    "endpoint_validator \<Rightarrow> (string \<Rightarrow> probe_reading) \<Rightarrow> world \<Rightarrow> (probe_error + nat) \<times> world" where
  "probe_enabled v rs w =
     (let ids = probe_targets w
      in case probe_agents v rs ids w of
           (Some e, w') \<Rightarrow> (Inl e, w')
         | (None, w') \<Rightarrow> (Inr (length ids), w'))"

section \<open>The health endpoints of the hub\<close>

datatype database_answer = DatabaseAnswers | DatabaseFails | DatabaseRaises

record health_response =
  hr_status_code :: int
  hr_status :: string
  hr_server_time_utc :: "instant option"

definition health_live :: "instant \<Rightarrow> health_response" where
  "health_live now = \<lparr>hr_status_code = 200, hr_status = ''live'', hr_server_time_utc = Some now\<rparr>"

text \<open>\<open>SQLAlchemyError\<close>, \<open>OSError\<close> and \<open>TimeoutError\<close> are the 503; any other exception leaves the handler.\<close>

definition health_ready :: "database_answer \<Rightarrow> instant \<Rightarrow> health_response option" where
  "health_ready db now =
     (case db of
        DatabaseAnswers \<Rightarrow> Some \<lparr>hr_status_code = 200, hr_status = ''ready'', hr_server_time_utc = Some now\<rparr>
      | DatabaseFails \<Rightarrow> Some \<lparr>hr_status_code = 503, hr_status = ''DATABASE_UNAVAILABLE'', hr_server_time_utc = None\<rparr>
      | DatabaseRaises \<Rightarrow> None)"

section \<open>What a verdict says\<close>

lemma probe_requests_Inr:
  "probe_requests r origin = Inr (live, ready, status, body) \<longleftrightarrow>
     (\<exists>b1 b2. pr_get r (origin @ ''/health/live'') = ProbeStatus live b1
        \<and> pr_get r (origin @ ''/health/ready'') = ProbeStatus ready b2
        \<and> pr_get r (origin @ ''/v1/capabilities'') = ProbeStatus status body)"
  unfolding probe_requests_def probe_get_def by (auto split: probe_reply.splits)

lemma judge_healthy:
  "(\<exists>p. judge_replies ag latency live ready status body = Some p \<and> pv_availability p = HEALTHY) \<longleftrightarrow>
     live = 200 \<and> ready = 200 \<and> status = 200
     \<and> (\<exists>c runtime. body = ParsedCapabilities c \<and> validate_runtime_capabilities c = Some runtime \<and> \<not> drift ag runtime)"
  unfolding judge_replies_def Let_def unavailable_def
  by (auto split: capabilities_body.splits option.splits if_splits)

lemma judge_seen:
  "judge_replies ag latency live ready status body = Some p \<Longrightarrow>
     (pv_availability p = HEALTHY \<longleftrightarrow> pv_error_code p = None) \<and> pv_availability p \<noteq> UNKNOWN
     \<and> pv_latency_ms p = latency"
  unfolding judge_replies_def Let_def unavailable_def
  by (auto split: capabilities_body.splits option.splits if_splits)

lemma probe_outcome_known:
  "probe_outcome v r (Some ag) (Some ep) = (if \<not> ep_enabled ep then Some (unavailable None ''AGENT_ENDPOINT_MISSING'')
     else case validate_endpoint v (ep_endpoint_url ep) (ep_environment ep) of
        Inl (EndpointSecurityError code _) \<Rightarrow> Some (unavailable None code)
      | Inl EndpointOtherError \<Rightarrow> Some (unavailable None ''AGENT_UNAVAILABLE'')
      | Inr origin \<Rightarrow>
          (case probe_requests r origin of
             Inl escapes \<Rightarrow> if escapes then None else Some (unavailable None ''AGENT_UNAVAILABLE'')
           | Inr (live, ready, status, body) \<Rightarrow>
               judge_replies ag (Some (latency_of r)) live ready status body))"
  by (simp add: probe_outcome_def)

lemma probe_outcome_missing:
  "ag = None \<or> ep = None \<Longrightarrow> probe_outcome v r ag ep = Some (unavailable None ''AGENT_ENDPOINT_MISSING'')"
  by (auto simp: probe_outcome_def split: option.splits)

lemma unavailable_simps [simp]:
  "pv_availability (unavailable l c) = UNAVAILABLE" "pv_error_code (unavailable l c) = Some c"
  "pv_latency_ms (unavailable l c) = l"
  by (simp_all add: unavailable_def)

lemma probe_outcome_seen:
  assumes "probe_outcome v r ag ep = Some p"
  shows "(pv_availability p = HEALTHY \<longleftrightarrow> pv_error_code p = None) \<and> pv_availability p \<noteq> UNKNOWN"
proof (cases "ag = None \<or> ep = None")
  case True
  with assms show ?thesis by (auto simp: probe_outcome_missing)
next
  case False
  then obtain a e where "ag = Some a" "ep = Some e" by auto
  with assms show ?thesis
    by (auto simp: probe_outcome_known dest: judge_seen split: if_splits sum.splits endpoint_error.splits)
qed

lemma probe_outcome_healthy:
  "(\<exists>p. probe_outcome v r ag ep = Some p \<and> pv_availability p = HEALTHY) \<longleftrightarrow>
     (\<exists>a e origin c runtime b1 b2. ag = Some a \<and> ep = Some e \<and> ep_enabled e
        \<and> validate_endpoint v (ep_endpoint_url e) (ep_environment e) = Inr origin
        \<and> pr_get r (origin @ ''/health/live'') = ProbeStatus 200 b1
        \<and> pr_get r (origin @ ''/health/ready'') = ProbeStatus 200 b2
        \<and> pr_get r (origin @ ''/v1/capabilities'') = ProbeStatus 200 (ParsedCapabilities c)
        \<and> validate_runtime_capabilities c = Some runtime \<and> \<not> drift a runtime)"
  (is "?L \<longleftrightarrow> ?R")
proof
  assume ?L
  then obtain p where p: "probe_outcome v r ag ep = Some p" "pv_availability p = HEALTHY" by blast
  have "\<not> (ag = None \<or> ep = None)"
  proof
    assume "ag = None \<or> ep = None"
    from probe_outcome_missing [OF this, of v r] p(1) have "p = unavailable None ''AGENT_ENDPOINT_MISSING''" by simp
    with p(2) show False by simp
  qed
  then obtain a e where ae: "ag = Some a" "ep = Some e" by auto
  from p [unfolded ae probe_outcome_known] obtain origin live ready status body where
    e: "ep_enabled e" "validate_endpoint v (ep_endpoint_url e) (ep_environment e) = Inr origin"
    "probe_requests r origin = Inr (live, ready, status, body)"
    "judge_replies a (Some (latency_of r)) live ready status body = Some p"
    by (auto split: if_splits sum.splits endpoint_error.splits)
  from judge_healthy [of a "Some (latency_of r)" live ready status body] e(4) p(2) have
    j: "live = 200" "ready = 200" "status = 200"
    "\<exists>c runtime. body = ParsedCapabilities c \<and> validate_runtime_capabilities c = Some runtime \<and> \<not> drift a runtime"
    by blast+
  with e ae show ?R unfolding probe_requests_Inr by blast
next
  assume ?R
  then obtain a e origin c runtime b1 b2 where R: "ag = Some a" "ep = Some e" "ep_enabled e"
    "validate_endpoint v (ep_endpoint_url e) (ep_environment e) = Inr origin"
    "pr_get r (origin @ ''/health/live'') = ProbeStatus 200 b1"
    "pr_get r (origin @ ''/health/ready'') = ProbeStatus 200 b2"
    "pr_get r (origin @ ''/v1/capabilities'') = ProbeStatus 200 (ParsedCapabilities c)"
    "validate_runtime_capabilities c = Some runtime" "\<not> drift a runtime" by blast
  then have "probe_requests r origin = Inr (200, 200, 200, ParsedCapabilities c)" unfolding probe_requests_Inr by blast
  with R show ?L by (simp add: probe_outcome_known judge_replies_def Let_def)
qed

section \<open>What storing a verdict changes\<close>

lemma probed_state_simps [simp]:
  "rs_agent_id (probed_state now p st) = rs_agent_id st"
  "rs_consecutive_failures (probed_state now p st) = rs_consecutive_failures st"
  "rs_circuit_state (probed_state now p st) = rs_circuit_state st"
  "rs_circuit_open_until (probed_state now p st) = rs_circuit_open_until st"
  "rs_last_ack_at (probed_state now p st) = rs_last_ack_at st"
  "rs_last_signal_at (probed_state now p st) = rs_last_signal_at st"
  "rs_last_success_at (probed_state now p st) = rs_last_success_at st"
  "rs_availability (probed_state now p st) = pv_availability p"
  "rs_last_probe_at (probed_state now p st) = Some now"
  "rs_last_error_code (probed_state now p st) = pv_error_code p"
  by (simp_all add: probed_state_def)

text \<open>The part of a state that the dispatcher and the hub decide, \<open>None\<close> standing for a fresh row.\<close>

definition breaker_of :: "agent_runtime_state option \<Rightarrow>
    int \<times> circuit_state \<times> instant option \<times> instant option \<times> instant option \<times> instant option" where
  "breaker_of st =
     (case st of
        None \<Rightarrow> (0, CLOSED, None, None, None, None)
      | Some s \<Rightarrow> (rs_consecutive_failures s, rs_circuit_state s, rs_circuit_open_until s, rs_last_ack_at s,
          rs_last_signal_at s, rs_last_success_at s))"

text \<open>Apart from the state of one agent, two databases agree.\<close>

definition same_but_state :: "string \<Rightarrow> world \<Rightarrow> world \<Rightarrow> bool" where
  "same_but_state agent_id w w' \<longleftrightarrow>
     w' = w\<lparr>w_states := w_states w'\<rparr> \<and> (\<forall>k. k = agent_id \<or> get_state k w' = get_state k w)"

lemma store_probe_effect:
  assumes "store_probe now agent_id p w = Some w'"
  shows "same_but_state agent_id w w'
    \<and> (\<exists>s. get_state agent_id w' = Some s \<and> rs_availability s = pv_availability p \<and> rs_last_probe_at s = Some now
         \<and> rs_last_error_code s = pv_error_code p)
    \<and> breaker_of (get_state agent_id w') = breaker_of (get_state agent_id w)"
proof (cases "get_state agent_id w")
  case None
  with assms have w': "w' = add_state (probed_state now p (new_runtime_state agent_id (pv_availability p) now)) w"
    by (auto simp: store_probe_def split: if_splits)
  then have "get_state agent_id w' = Some (probed_state now p (new_runtime_state agent_id (pv_availability p) now))"
    using None by (simp add: get_state_add_state new_runtime_state_def)
  moreover have "get_state k w' = get_state k w" if "k \<noteq> agent_id" for k
    using that unfolding w' by (auto simp: get_state_add_state new_runtime_state_def split: option.splits)
  ultimately show ?thesis
    using None by (auto simp: breaker_of_def new_runtime_state_def same_but_state_def w' add_state_def)
next
  case (Some st)
  then have id: "rs_agent_id st = agent_id" using get_state_SomeD by blast
  from Some assms have w': "w' = put_state (probed_state now p st) w" by (simp add: store_probe_def)
  then have "get_state agent_id w' = Some (probed_state now p st)"
    using Some id by (simp add: get_state_put_state)
  moreover have "get_state k w' = get_state k w" if "k \<noteq> agent_id" for k
    using that id unfolding w' by (simp add: get_state_put_state)
  ultimately show ?thesis
    using Some by (auto simp: breaker_of_def same_but_state_def w' put_state_def)
qed

lemma states_ok_put:
  assumes "states_ok w" and "state_checks s" and "get_state (rs_agent_id s) w \<noteq> None"
  shows "states_ok (put_state s w)"
proof -
  have "rs_agent_id s \<in> rs_agent_id ` set (w_states w)" using assms(3) by (simp add: get_state_def row_get_None_iff)
  with assms(1,2) show ?thesis by (auto simp: states_ok_def put_state_def dest!: set_row_putD)
qed

lemma store_probe_step:
  assumes "store_probe now agent_id p w = Some w'"
  shows "orch_step w w'"
proof -
  have "states_ok w'" if ok: "states_ok w"
  proof (cases "get_state agent_id w")
    case None
    with assms have w': "w' = add_state (probed_state now p (new_runtime_state agent_id (pv_availability p) now)) w"
      "get_agent agent_id w \<noteq> None" by (auto simp: store_probe_def split: if_splits)
    have "agent_id \<in> ag_agent_id ` set (w_agents w)" using w'(2) by (simp add: get_agent_def row_get_None_iff)
    moreover have "agent_id \<notin> rs_agent_id ` set (w_states w)" using None by (simp add: get_state_def row_get_None_iff)
    ultimately show ?thesis
      using ok by (simp add: w'(1) states_ok_def add_state_def new_runtime_state_def state_checks_def)
  next
    case (Some st)
    moreover have "state_checks st" "rs_agent_id st = agent_id"
      using ok get_state_SomeD [OF Some] by (simp_all add: states_ok_def)
    ultimately show ?thesis
      using assms ok states_ok_put [of w "probed_state now p st"] by (simp add: store_probe_def state_checks_def)
  qed
  moreover have "w' = w\<lparr>w_states := w_states w'\<rparr>"
    using store_probe_effect [OF assms] by (simp add: same_but_state_def)
  ultimately show ?thesis
    unfolding orch_step_def using runs_kept_refl [of "w_runs w"] tasks_evolve_refl [of "w_tasks w"]
    by (cases w; cases w') simp
qed

lemma probe_stores:
  assumes "probe v r agent_id seen w = Inr (av, w')"
  obtains p where "probe_outcome v r (get_agent agent_id seen) (get_endpoint agent_id seen) = Some p"
    "store_probe (pr_now r) agent_id p w = Some w'" "av = pv_availability p"
  using assms unfolding probe_def by (auto split: option.splits)

lemma probe_step: "probe v r agent_id seen w = Inr (av, w') \<Longrightarrow> orch_step w w'"
  by (elim probe_stores) (rule store_probe_step)

lemma probe_agents_effect:
  assumes "probe_agents v rs ids w = (res, w')" and "distinct ids" and "\<forall>k \<in> set ids. get_agent k w \<noteq> None"
  shows "w' = w\<lparr>w_states := w_states w'\<rparr> \<and> (\<forall>k. k \<notin> set ids \<longrightarrow> get_state k w' = get_state k w)
    \<and> (\<forall>k. breaker_of (get_state k w') = breaker_of (get_state k w)) \<and> res \<noteq> Some ProbeUnknownAgent
    \<and> (res = None \<longrightarrow> (\<forall>k \<in> set ids. \<exists>s. get_state k w' = Some s \<and> rs_last_probe_at s = Some (pr_now (rs k))))"
  using assms
proof (induction ids arbitrary: w)
  case Nil
  then show ?case by simp
next
  case (Cons k ids)
  show ?case
  proof (cases "probe v (rs k) k w w")
    case (Inl e)
    moreover have "e \<noteq> ProbeUnknownAgent"
      using Inl Cons.prems(3) by (auto simp: probe_def store_probe_def split: option.splits if_splits)
    ultimately show ?thesis using Cons.prems(1) by auto
  next
    case (Inr a)
    obtain av w1 where a: "a = (av, w1)" by fastforce
    obtain p where p: "store_probe (pr_now (rs k)) k p w = Some w1" using probe_stores [OF Inr [unfolded a]] by metis
    note e = store_probe_effect [OF p]
    have w1: "w1 = w\<lparr>w_states := w_states w1\<rparr>" and other: "\<And>j. j \<noteq> k \<Longrightarrow> get_state j w1 = get_state j w"
      using e by (auto simp: same_but_state_def)
    have b1: "breaker_of (get_state j w1) = breaker_of (get_state j w)" for j
      using e other [of j] by (cases "j = k") auto
    have agents: "get_agent j w1 = get_agent j w" for j
      by (subst w1) (simp add: get_agent_def)
    have run: "probe_agents v rs ids w1 = (res, w')" using Cons.prems(1) Inr a by simp
    have IH: "w' = w1\<lparr>w_states := w_states w'\<rparr> \<and> (\<forall>k. k \<notin> set ids \<longrightarrow> get_state k w' = get_state k w1)
      \<and> (\<forall>k. breaker_of (get_state k w') = breaker_of (get_state k w1)) \<and> res \<noteq> Some ProbeUnknownAgent
      \<and> (res = None \<longrightarrow> (\<forall>k \<in> set ids. \<exists>s. get_state k w' = Some s \<and> rs_last_probe_at s = Some (pr_now (rs k))))"
      by (rule Cons.IH [OF run]) (use Cons.prems(2,3) agents in auto)
    have "w' = w\<lparr>w_states := w_states w'\<rparr>" using IH w1 by (metis world.select_convs(8) world.surjective world.update_convs(8))
    moreover have "\<exists>s. get_state k w' = Some s \<and> rs_last_probe_at s = Some (pr_now (rs k))"
      using IH e Cons.prems(2) by auto
    ultimately show ?thesis using IH b1 other by auto
  qed
qed

lemma probe_targets_known: "k \<in> set (probe_targets w) \<Longrightarrow> get_agent k w \<noteq> None"
  by (auto simp: probe_targets_def get_agent_def row_get_None_iff)

lemma probe_targets_distinct: "keys_ok w \<Longrightarrow> distinct (probe_targets w)"
  unfolding keys_ok_def probe_targets_def by (simp add: distinct_map_filter)

lemma probe_targets_iff:
  assumes "keys_ok w"
  shows "k \<in> set (probe_targets w) \<longleftrightarrow>
    (\<exists>ag ep. get_agent k w = Some ag \<and> ag_enabled ag \<and> get_endpoint k w = Some ep \<and> ep_enabled ep)"
proof -
  have "distinct (map ag_agent_id (w_agents w))" using assms by (simp add: keys_ok_def)
  from row_get_mem [OF this] show ?thesis
    by (auto simp: probe_targets_def get_agent_def get_endpoint_def dest: row_get_SomeD split: option.splits)
qed

lemma healthy_verdict:
  "(\<exists>w'. probe v r agent_id seen w = Inr (HEALTHY, w')) \<longleftrightarrow>
     (get_state agent_id w \<noteq> None \<or> get_agent agent_id w \<noteq> None)
     \<and> (\<exists>a e origin c runtime b1 b2. get_agent agent_id seen = Some a \<and> get_endpoint agent_id seen = Some e
        \<and> ep_enabled e \<and> validate_endpoint v (ep_endpoint_url e) (ep_environment e) = Inr origin
        \<and> pr_get r (origin @ ''/health/live'') = ProbeStatus 200 b1
        \<and> pr_get r (origin @ ''/health/ready'') = ProbeStatus 200 b2
        \<and> pr_get r (origin @ ''/v1/capabilities'') = ProbeStatus 200 (ParsedCapabilities c)
        \<and> validate_runtime_capabilities c = Some runtime \<and> \<not> drift a runtime)"
proof -
  have "(\<exists>w'. probe v r agent_id seen w = Inr (HEALTHY, w')) \<longleftrightarrow>
     (get_state agent_id w \<noteq> None \<or> get_agent agent_id w \<noteq> None)
     \<and> (\<exists>p. probe_outcome v r (get_agent agent_id seen) (get_endpoint agent_id seen) = Some p
          \<and> pv_availability p = HEALTHY)"
    by (auto simp: probe_def store_probe_def split: option.splits)
  then show ?thesis unfolding probe_outcome_healthy .
qed

section \<open>Properties\<close>

text \<open>C24 When a probe answers HEALTHY: exactly for a registered agent with an enabled endpoint that
  passes the endpoint validator, whose liveness, readiness and capabilities requests all answered
  200, and whose announced capabilities are valid and agree with the registry in identity, role,
  capabilities and assets as sets, and protocol version.\<close>

theorem healthy_iff:
  "(\<exists>w'. probe v r agent_id seen w = Inr (HEALTHY, w')) \<longleftrightarrow>
     \<not> (get_state agent_id w = None \<and> get_agent agent_id w = None)
     \<and> (\<exists>a e origin c runtime b1 b2. get_agent agent_id seen = Some a \<and> get_endpoint agent_id seen = Some e
        \<and> ep_enabled e \<and> validate_endpoint v (ep_endpoint_url e) (ep_environment e) = Inr origin
        \<and> pr_get r (origin @ ''/health/live'') = ProbeStatus 200 b1
        \<and> pr_get r (origin @ ''/health/ready'') = ProbeStatus 200 b2
        \<and> pr_get r (origin @ ''/v1/capabilities'') = ProbeStatus 200 (ParsedCapabilities c)
        \<and> validate_runtime_capabilities c = Some runtime
        \<and> rc_agent_id runtime = ag_agent_id a \<and> rc_role runtime = ag_role a
        \<and> set (rc_capabilities runtime) = set (ag_capabilities a)
        \<and> set (rc_supported_assets runtime) = set (ag_supported_assets a)
        \<and> ag_protocol_version a \<in> set (rc_protocol_versions runtime))"
  unfolding healthy_verdict drift_def de_Morgan_disj de_Morgan_conj not_not by (rule refl)

text \<open>C25 A probe reports, it does not act: it changes no table but the runtime states and no state
  but the one of the probed agent, where it leaves the failure count, the circuit breaker and
  the times of acknowledgement, signal and success; the verdict is HEALTHY exactly when no
  error code is stored with it.\<close>

theorem probe_effect:
  assumes "probe v r agent_id seen w = Inr (av, w')"
  shows "w' = w\<lparr>w_states := w_states w'\<rparr>
    \<and> (\<forall>k. k = agent_id \<or> get_state k w' = get_state k w)
    \<and> breaker_of (get_state agent_id w') = breaker_of (get_state agent_id w)
    \<and> (\<exists>s. get_state agent_id w' = Some s \<and> rs_availability s = av \<and> rs_last_probe_at s = Some (pr_now r)
         \<and> (av = HEALTHY \<longleftrightarrow> rs_last_error_code s = None) \<and> av \<noteq> UNKNOWN)"
proof -
  obtain p where p: "probe_outcome v r (get_agent agent_id seen) (get_endpoint agent_id seen) = Some p"
    "store_probe (pr_now r) agent_id p w = Some w'" "av = pv_availability p"
    by (rule probe_stores [OF assms])
  from store_probe_effect [OF p(2)] probe_outcome_seen [OF p(1)] p(3) show ?thesis
    by (auto simp: same_but_state_def)
qed

text \<open>A sweep of the prober: it selects exactly the enabled agents that have an enabled endpoint,
  never fails on the foreign key, touches no state of another agent and no circuit breaker, and
  if no exception leaves a probe, it answers their number and has stored a verdict for each of
  them at the time its probe began.\<close>

theorem probe_sweep:
  assumes "keys_ok w" and "probe_enabled v rs w = (res, w')"
  shows "(\<forall>k. k \<in> set (probe_targets w) \<longleftrightarrow>
        (\<exists>ag ep. get_agent k w = Some ag \<and> ag_enabled ag \<and> get_endpoint k w = Some ep \<and> ep_enabled ep))
    \<and> w' = w\<lparr>w_states := w_states w'\<rparr> \<and> res \<noteq> Inl ProbeUnknownAgent
    \<and> (\<forall>k. k \<notin> set (probe_targets w) \<longrightarrow> get_state k w' = get_state k w)
    \<and> (\<forall>k. breaker_of (get_state k w') = breaker_of (get_state k w))
    \<and> (\<forall>n. res = Inr n \<longrightarrow> n = card (set (probe_targets w)) \<and> (\<forall>k \<in> set (probe_targets w).
          \<exists>s. get_state k w' = Some s \<and> rs_last_probe_at s = Some (pr_now (rs k))))"
proof -
  obtain e where run: "probe_agents v rs (probe_targets w) w = (e, w')"
    and res: "res = (case e of None \<Rightarrow> Inr (length (probe_targets w)) | Some x \<Rightarrow> Inl x)"
    using assms(2) by (auto simp: probe_enabled_def Let_def split: prod.splits option.splits)
  have dist: "distinct (probe_targets w)" by (rule probe_targets_distinct [OF assms(1)])
  have "\<forall>k \<in> set (probe_targets w). get_agent k w \<noteq> None" using probe_targets_known by blast
  from probe_agents_effect [OF run dist this] show ?thesis
    using probe_targets_iff [OF assms(1)] res distinct_card [OF dist] by (auto split: option.splits)
qed

section \<open>Witnesses\<close>

definition sample_capabilities :: runtime_capabilities where
  "sample_capabilities =
     \<lparr>rc_agent_id = ''ETH_TECH'', rc_runtime_version = ''1'', rc_role = ''technical'',
      rc_capabilities = [''signal_ingestion'', ''technical''], rc_supported_assets = [''ETH''],
      rc_protocol_versions = [''1.0''], rc_analytical_role_api_version = None\<rparr>"

definition sample_reading :: probe_reading where
  "sample_reading = \<lparr>pr_now = seconds 7, pr_started = 100, pr_finished = 101,
     pr_get = (\<lambda>url. ProbeStatus 200 (ParsedCapabilities sample_capabilities))\<rparr>"

lemma sample_capabilities_ok:
  "validate_runtime_capabilities sample_capabilities = Some sample_capabilities" "\<not> drift sample_agent sample_capabilities"
  by code_simp+

lemma sample_endpoint_ok:
  "validate_endpoint sample_validator ''https://eth.example.net'' TEST = Inr ''https://eth.example.net''"
  by code_simp

lemma sample_probe_healthy:
  "\<exists>w'. probe sample_validator sample_reading ''ETH_TECH'' planned_world planned_world = Inr (HEALTHY, w')"
proof -
  have a: "get_agent ''ETH_TECH'' planned_world = Some sample_agent"
    and e: "get_endpoint ''ETH_TECH'' planned_world = Some sample_endpoint"
    by (simp_all add: get_agent_def get_endpoint_def sample_worlds sample_agent_def sample_endpoint_def)
  have u: "ep_enabled sample_endpoint" "ep_endpoint_url sample_endpoint = ''https://eth.example.net''"
    "ep_environment sample_endpoint = TEST" by (simp_all add: sample_endpoint_def)
  have g: "pr_get sample_reading url = ProbeStatus 200 (ParsedCapabilities sample_capabilities)" for url
    by (simp add: sample_reading_def)
  show ?thesis unfolding healthy_verdict a e g using u(1) sample_endpoint_ok sample_capabilities_ok by (auto simp: u(2,3))
qed

theorem probe_effect_witness:
  "\<exists>w'. probe sample_validator sample_reading ''ETH_TECH'' planned_world planned_world = Inr (HEALTHY, w')
     \<and> breaker_of (get_state ''ETH_TECH'' w') = breaker_of (get_state ''ETH_TECH'' planned_world)"
proof -
  obtain w' where w': "probe sample_validator sample_reading ''ETH_TECH'' planned_world planned_world = Inr (HEALTHY, w')"
    using sample_probe_healthy by blast
  from probe_effect [OF this] w' show ?thesis by blast
qed

theorem probe_sweep_witness:
  "fst (probe_enabled sample_validator (\<lambda>_. sample_reading) planned_world) \<noteq> Inl ProbeUnknownAgent"
proof -
  have "keys_ok planned_world" by (simp add: keys_ok_def sample_worlds sample_task_def)
  from probe_sweep [OF this prod.collapse [symmetric]] show ?thesis by blast
qed

end
