(* ===== verification/Registry.thy ===== *)
theory Registry
  imports Bounded_Json Task_Lifecycle Samples
begin

text \<open>
  Where the registry of agents comes from: \<open>AgentRegistryEntry\<close> of \<open>src/tomiris_hub/schemas/agents.py\<close>
  and the upsert of \<open>scripts/sync_agent_registry.py\<close>; the kinds of trigger of
  \<open>src/tomiris_orchestrator/scheduler.py\<close>; and the snapshot that \<open>scripts/create_test_snapshot.py\<close>
  opens.  Reading the YAML file is not modelled: an entry is a record as parsed.
\<close>

section \<open>Entries\<close>

text \<open>\<open>criticality\<close> is a pattern over texts here; the column holds the four values.\<close>

record registry_entry =
  re_agent_id :: string
  re_name :: string
  re_role :: string
  re_enabled :: bool
  re_protocol_version :: string
  re_criticality :: string
  re_account_alias :: "string option"
  re_space_alias :: "string option"
  re_space_name :: "string option"
  re_capabilities :: "string list"
  re_supported_assets :: "string list"
  re_supported_evidence_types :: "string list"
  re_metadata :: dict

text \<open>A \<open>dict[str, Any]\<close> with its keys as texts, given to \<open>validate_bounded_json\<close>\<close>

definition dict_value :: "dict \<Rightarrow> pyval" where
  "dict_value d = PyMap (map (\<lambda>(k, v). (PyStr k, v)) d)"

definition criticality_of :: "string \<Rightarrow> criticality option" where
  "criticality_of s =
     (if s = ''LOW'' then Some LOW else if s = ''NORMAL'' then Some NORMAL
      else if s = ''HIGH'' then Some HIGH else if s = ''CRITICAL'' then Some CRITICAL else None)"

definition valid_registry_entry :: "registry_entry \<Rightarrow> bool" where
  "valid_registry_entry e \<longleftrightarrow>
     agent_id_pattern (re_agent_id e) \<and> len_between 1 128 (re_name e) \<and> len_between 1 64 (re_role e)
     \<and> re_protocol_version e = ''1.0'' \<and> criticality_of (re_criticality e) \<noteq> None
     \<and> opt_max 64 (re_account_alias e) \<and> opt_max 128 (re_space_alias e) \<and> opt_max 128 (re_space_name e)
     \<and> length (re_capabilities e) \<le> 20 \<and> length (re_supported_assets e) \<le> 50
     \<and> length (re_supported_evidence_types e) \<le> 50
     \<and> bounded_dict default_limits (dict_value (re_metadata e))"

section \<open>The upsert\<close>

definition text_value :: "string option \<Rightarrow> pyval" where
  "text_value s = (case s of None \<Rightarrow> PyNone | Some t \<Rightarrow> PyStr t)"

text \<open>The row of an entry: \<open>space_alias or space_name\<close>, and the two aliases override the metadata.\<close>

definition registry_row :: "criticality \<Rightarrow> registry_entry \<Rightarrow> agent" where
  "registry_row level e =
     \<lparr>ag_agent_id = re_agent_id e, ag_name = re_name e, ag_role = re_role e, ag_enabled = re_enabled e,
      ag_protocol_version = re_protocol_version e, ag_capabilities = re_capabilities e, ag_criticality = level,
      ag_supported_assets = re_supported_assets e, ag_supported_evidence_types = re_supported_evidence_types e,
      ag_metadata =
        dict_set ''space_alias''
          (text_value (case re_space_alias e of None \<Rightarrow> re_space_name e
             | Some s \<Rightarrow> if s = [] then re_space_name e else Some s))
          (dict_set ''account_alias'' (text_value (re_account_alias e)) (re_metadata e))\<rparr>"

text \<open>\<open>INSERT ... ON CONFLICT (agent_id) DO UPDATE\<close> of every column but the key\<close>

definition upsert_agent :: "agent \<Rightarrow> world \<Rightarrow> world" where
  "upsert_agent ag w =
     (if get_agent (ag_agent_id ag) w = None then w\<lparr>w_agents := w_agents w @ [ag]\<rparr>
      else w\<lparr>w_agents := row_put ag_agent_id ag (w_agents w)\<rparr>)"

text \<open>The script: nothing is written unless every entry is valid; \<open>None\<close> is the \<open>ValidationError\<close>.\<close>

definition registry_rows_of :: "registry_entry list \<Rightarrow> agent list option" where
  "registry_rows_of entries =
     (if list_all valid_registry_entry entries
      then Some (map (\<lambda>e. registry_row (case criticality_of (re_criticality e) of None \<Rightarrow> NORMAL | Some c \<Rightarrow> c) e) entries)
      else None)"

definition sync_registry :: "registry_entry list \<Rightarrow> world \<Rightarrow> (nat \<times> world) option" where
  "sync_registry entries w =
     map_option (\<lambda>rows. (length rows, fold upsert_agent rows w)) (registry_rows_of entries)"

section \<open>Triggers and snapshots\<close>

datatype trigger_type = MANUAL | TEST_TRIGGER

text \<open>\<open>TriggerType(value)\<close>; \<open>None\<close> is the \<open>ValueError\<close>.\<close>

definition validate_trigger :: "string \<Rightarrow> trigger_type option" where
  "validate_trigger value =
     (if value = ''MANUAL'' then Some MANUAL else if value = ''TEST'' then Some TEST_TRIGGER else None)"

definition smoke_snapshot :: "uuid \<Rightarrow> instant \<Rightarrow> market_snapshot" where
  "smoke_snapshot snapshot_id now =
     \<lparr>sn_snapshot_id = snapshot_id, sn_created_at = now, sn_expires_at = now + seconds 600, sn_status = S_OPEN,
      sn_context_version = ''phase-01-test'',
      sn_metadata = PyMap [(PyStr ''purpose'', PyStr ''manual_smoke_test'')]\<rparr>"

definition add_snapshot :: "market_snapshot \<Rightarrow> world \<Rightarrow> world option" where
  "add_snapshot s w =
     (if get_snapshot (sn_snapshot_id s) w = None then Some (w\<lparr>w_snapshots := w_snapshots w @ [s]\<rparr>) else None)"

section \<open>What synchronising does\<close>

lemma upsert_frame: "upsert_agent ag w = w\<lparr>w_agents := w_agents (upsert_agent ag w)\<rparr>"
  by (simp add: upsert_agent_def)

lemma get_agent_upsert: "get_agent k (upsert_agent ag w) = (if k = ag_agent_id ag then Some ag else get_agent k w)"
proof (cases "row_get ag_agent_id (ag_agent_id ag) (w_agents w)")
  case None
  then show ?thesis by (auto simp: upsert_agent_def get_agent_def row_get_append split: option.splits)
next
  case (Some x)
  then have "ag_agent_id ag \<in> ag_agent_id ` set (w_agents w)" by (metis row_get_None_iff option.simps(3))
  with Some show ?thesis by (simp add: upsert_agent_def get_agent_def row_get_put)
qed

lemma upsert_keys:
  "ag_agent_id ` set (w_agents (upsert_agent ag w)) = insert (ag_agent_id ag) (ag_agent_id ` set (w_agents w))"
  "distinct (map ag_agent_id (w_agents w)) \<Longrightarrow> distinct (map ag_agent_id (w_agents (upsert_agent ag w)))"
  by (auto simp: upsert_agent_def get_agent_def row_get_None_iff)

lemma upserts_frame: "fold upsert_agent rows w = w\<lparr>w_agents := w_agents (fold upsert_agent rows w)\<rparr>"
proof (induction rows arbitrary: w)
  case (Cons ag rows)
  from Cons.IH [of "upsert_agent ag w"] upsert_frame [of ag w] show ?case
    by (simp only: fold.simps o_apply) (metis world.surjective world.update_convs(1))
qed simp

lemma upserts_keys:
  "ag_agent_id ` set (w_agents (fold upsert_agent rows w)) = ag_agent_id ` set rows \<union> ag_agent_id ` set (w_agents w)"
  "distinct (map ag_agent_id (w_agents w)) \<Longrightarrow> distinct (map ag_agent_id (w_agents (fold upsert_agent rows w)))"
  by (induction rows arbitrary: w) (auto simp: upsert_keys)

lemma get_agent_upserts:
  "get_agent k (fold upsert_agent rows w) =
     (case find (\<lambda>ag. ag_agent_id ag = k) (rev rows) of None \<Rightarrow> get_agent k w | Some ag \<Rightarrow> Some ag)"
proof (induction rows rule: rev_induct)
  case (snoc ag rows)
  then show ?case by (auto simp: get_agent_upsert)
qed simp

lemma more_agents_schema:
  assumes "schema_ok w" and "distinct (map ag_agent_id ags)" and "ag_agent_id ` set (w_agents w) \<subseteq> ag_agent_id ` set ags"
  shows "schema_ok (w\<lparr>w_agents := ags\<rparr>)"
proof -
  have "keys_ok (w\<lparr>w_agents := ags\<rparr>)" using assms(1,2) by (simp add: schema_ok_def keys_ok_def)
  moreover have "refs_ok (w\<lparr>w_agents := ags\<rparr>)"
    using assms(1,3) by (simp add: schema_ok_def refs_ok_def subset_iff)
  moreover have "checks_ok (w\<lparr>w_agents := ags\<rparr>)" using assms(1) by (simp add: schema_ok_def checks_ok_def)
  ultimately show ?thesis by (simp add: schema_ok_def)
qed

lemma sync_cases:
  assumes "sync_registry entries w = Some (n, w')"
  obtains rows where "registry_rows_of entries = Some rows" "n = length entries" "w' = fold upsert_agent rows w"
  using assms by (auto simp: sync_registry_def registry_rows_of_def split: if_splits)

lemma sync_schema:
  assumes "sync_registry entries w = Some (n, w')" and "schema_ok w"
  shows "schema_ok w'" "w' = w\<lparr>w_agents := w_agents w'\<rparr>"
proof -
  obtain rows where rows: "w' = fold upsert_agent rows w" by (rule sync_cases [OF assms(1)])
  then show w': "w' = w\<lparr>w_agents := w_agents w'\<rparr>" using upserts_frame by metis
  have "distinct (map ag_agent_id (w_agents w'))" "ag_agent_id ` set (w_agents w) \<subseteq> ag_agent_id ` set (w_agents w')"
    using assms(2) unfolding rows upserts_keys(1) by (auto intro: upserts_keys(2) simp: schema_ok_def keys_ok_def)
  from more_agents_schema [OF assms(2) this] w' show "schema_ok w'" by simp
qed

lemma add_snapshot_schema:
  assumes "add_snapshot s w = Some w'" and "schema_ok w"
  shows "schema_ok w'" "w_tasks w' = w_tasks w" "w_nonces w' = w_nonces w" "w_signals w' = w_signals w"
proof -
  have w': "w' = w\<lparr>w_snapshots := w_snapshots w @ [s]\<rparr>" and new: "sn_snapshot_id s \<notin> sn_snapshot_id ` set (w_snapshots w)"
    using assms(1) by (auto simp: add_snapshot_def get_snapshot_def row_get_None_iff split: if_splits)
  have "keys_ok w'" using assms(2) new by (simp add: w' schema_ok_def keys_ok_def)
  moreover have "refs_ok w'" using assms(2) by (simp add: w' schema_ok_def refs_ok_def)
  moreover have "checks_ok w'" using assms(2) by (simp add: w' schema_ok_def checks_ok_def)
  ultimately show "schema_ok w'" by (simp add: schema_ok_def)
  show "w_tasks w' = w_tasks w" "w_nonces w' = w_nonces w" "w_signals w' = w_signals w" by (simp_all add: w')
qed

text \<open>The entry that wins for an agent: the last one in the file.\<close>

definition last_entry :: "string \<Rightarrow> registry_entry list \<Rightarrow> registry_entry option" where
  "last_entry k entries = find (\<lambda>e. re_agent_id e = k) (rev entries)"

lemma find_map_key:
  "(\<And>x. key (f x) = key' x) \<Longrightarrow> find (\<lambda>y. key y = k) (map f xs) = map_option f (find (\<lambda>x. key' x = k) xs)"
  by (induction xs) auto

lemma registry_row_id [simp]: "ag_agent_id (registry_row c e) = re_agent_id e"
  by (simp add: registry_row_def)

lemma sync_get_agent:
  assumes "sync_registry entries w = Some (n, w')"
  shows "get_agent k w' = (case last_entry k entries of
      None \<Rightarrow> get_agent k w
    | Some e \<Rightarrow> Some (registry_row (case criticality_of (re_criticality e) of None \<Rightarrow> NORMAL | Some c \<Rightarrow> c) e))"
proof -
  obtain rows where rows: "registry_rows_of entries = Some rows" "w' = fold upsert_agent rows w"
    by (rule sync_cases [OF assms])
  then have "rows = map (\<lambda>e. registry_row (case criticality_of (re_criticality e) of None \<Rightarrow> NORMAL | Some c \<Rightarrow> c) e) entries"
    by (simp add: registry_rows_of_def split: if_splits)
  then show ?thesis
    unfolding rows(2) get_agent_upserts last_entry_def rev_map
    by (simp add: rev_map [symmetric]) (subst rev_map, subst find_map_key [where key' = re_agent_id],
      simp, simp split: option.splits)
qed

text \<open>C28 Synchronising the registry makes the agents table agree with the file: every entry was valid,
  an agent of the file has exactly the row of its last entry, with the two aliases over its
  metadata, an agent that is not in the file keeps its row (it is not disabled), no other table
  changes, and the database still satisfies its schema.\<close>

theorem sync_registry_exact:
  assumes "schema_ok w" and "sync_registry entries w = Some (n, w')"
  shows "n = length entries \<and> list_all valid_registry_entry entries
    \<and> w' = w\<lparr>w_agents := w_agents w'\<rparr> \<and> schema_ok w'
    \<and> (\<forall>k. get_agent k w' = (case last_entry k entries of
             None \<Rightarrow> get_agent k w
           | Some e \<Rightarrow> Some (registry_row (case criticality_of (re_criticality e) of None \<Rightarrow> NORMAL | Some c \<Rightarrow> c) e)))
    \<and> (\<forall>k e. last_entry k entries = Some e \<longrightarrow>
           (\<exists>ag. get_agent k w' = Some ag \<and> ag_agent_id ag = k
              \<and> map_of (ag_metadata ag) ''account_alias'' = Some (text_value (re_account_alias e))))"
proof (intro conjI allI impI)
  obtain rows where rows: "registry_rows_of entries = Some rows" "n = length entries" by (rule sync_cases [OF assms(2)])
  then show "n = length entries" "list_all valid_registry_entry entries"
    by (simp_all add: registry_rows_of_def split: if_splits)
  show "w' = w\<lparr>w_agents := w_agents w'\<rparr>" "schema_ok w'" by (rule sync_schema [OF assms(2,1)])+
  fix k
  show "get_agent k w' = (case last_entry k entries of None \<Rightarrow> get_agent k w
      | Some e \<Rightarrow> Some (registry_row (case criticality_of (re_criticality e) of None \<Rightarrow> NORMAL | Some c \<Rightarrow> c) e))"
    by (rule sync_get_agent [OF assms(2)])
  fix e assume e: "last_entry k entries = Some e"
  then have "re_agent_id e = k" by (auto simp: last_entry_def find_Some_iff)
  with e show "\<exists>ag. get_agent k w' = Some ag \<and> ag_agent_id ag = k
      \<and> map_of (ag_metadata ag) ''account_alias'' = Some (text_value (re_account_alias e))"
    by (simp add: sync_get_agent [OF assms(2)]) (simp add: registry_row_def)
qed

definition sample_entry :: registry_entry where
  "sample_entry =
     \<lparr>re_agent_id = ''ETH_TECH'', re_name = ''Eth'', re_role = ''eth.technical.v1'', re_enabled = True,
      re_protocol_version = ''1.0'', re_criticality = ''NORMAL'', re_account_alias = Some ''pilot'',
      re_space_alias = None, re_space_name = None, re_capabilities = [''signal_ingestion''],
      re_supported_assets = [''ETHUSDT''], re_supported_evidence_types = [], re_metadata = [(''phase'', PyInt 3)]\<rparr>"

theorem sync_registry_exact_witness:
  "\<exists>n w'. sync_registry [sample_entry] registry_world = Some (n, w') \<and> schema_ok w'
     \<and> get_agent ''ETH_TECH'' w' = Some (registry_row NORMAL sample_entry)"
proof -
  have s: "sync_registry [sample_entry] registry_world = Some (1, fold upsert_agent [registry_row NORMAL sample_entry] registry_world)"
  proof -
    have "valid_registry_entry sample_entry" by code_simp
    then show ?thesis by (simp add: sync_registry_def registry_rows_of_def) (simp add: sample_entry_def criticality_of_def)
  qed
  have "schema_ok registry_world"
    by (simp add: schema_ok_def keys_ok_def refs_ok_def checks_ok_def sample_worlds sample_rows)
  from sync_registry_exact [OF this s] have "get_agent ''ETH_TECH'' (fold upsert_agent [registry_row NORMAL sample_entry] registry_world)
      = Some (registry_row NORMAL sample_entry)" "schema_ok (fold upsert_agent [registry_row NORMAL sample_entry] registry_world)"
    by (auto simp: last_entry_def sample_entry_def criticality_of_def)
  with s show ?thesis by blast
qed

end
