(* ===== verification/Notifications.thy ===== *)
theory Notifications
  imports Backoff Database Samples Task_Lifecycle "HOL-Library.Sublist"
begin

text \<open>
  The notification gateway: the transactional outbox of
  \<open>src/tomiris_notifications/outbox.py\<close>, the worker of \<open>worker.py\<close> and the senders of
  \<open>senders.py\<close>.

  \<open>process_one\<close> is two transactions with the send in between, \<open>claim_notification\<close> and
  \<open>record_delivery\<close>; other workers may run between them.  The HTTP client of the Telegram
  sender and a custom sender are arguments; the text of a message is handed to the client as
  the value whose \<open>str()\<close> is sent.
\<close>

section \<open>Outbox\<close>

definition get_notification :: "uuid \<Rightarrow> world \<Rightarrow> outbox_row option" where
  "get_notification k w = row_get ob_notification_id k (w_outbox w)"

definition put_notification :: "outbox_row \<Rightarrow> world \<Rightarrow> world" where
  "put_notification n w = w\<lparr>w_outbox := row_put ob_notification_id n (w_outbox w)\<rparr>"

definition outbox_row_of :: "instant notification_event \<Rightarrow> outbox_row" where
  "outbox_row_of e =
     \<lparr>ob_notification_id = nt_notification_id e, ob_event_id = nt_event_id e,
      ob_event_type = nt_event_type e, ob_snapshot_id = nt_snapshot_id e, ob_channel = nt_channel e,
      ob_recipient_ref = nt_recipient_ref e, ob_payload = nt_payload e, ob_status = N_PENDING,
      ob_attempt_count = 0, ob_next_attempt_at = nt_created_at e, ob_last_error_code = None,
      ob_created_at = nt_created_at e, ob_sent_at = None, ob_idempotency_key = nt_idempotency_key e,
      ob_correlation_id = nt_correlation_id e, ob_causation_id = nt_causation_id e\<rparr>"

text \<open>\<open>INSERT ... ON CONFLICT (idempotency_key) DO NOTHING RETURNING notification_id\<close>; a clash of
  the primary key alone is an \<open>IntegrityError\<close>, the value \<open>None\<close>.\<close>

definition enqueue_notification :: "instant notification_event \<Rightarrow> world \<Rightarrow> (bool \<times> world) option" where
  "enqueue_notification e w =
     (if nt_idempotency_key e \<in> ob_idempotency_key ` set (w_outbox w) then Some (False, w)
      else if nt_notification_id e \<in> ob_notification_id ` set (w_outbox w) then None
      else Some (True, w\<lparr>w_outbox := w_outbox w @ [outbox_row_of e]\<rparr>))"

section \<open>Senders\<close>

record send_result =
  sr_success :: bool
  sr_retryable :: bool
  sr_error_code :: "string option"

definition sent_ok :: send_result where
  "sent_ok = \<lparr>sr_success = True, sr_retryable = False, sr_error_code = None\<rparr>"

definition send_failed :: "bool \<Rightarrow> string \<Rightarrow> send_result" where
  "send_failed retryable code = \<lparr>sr_success = False, sr_retryable = retryable, sr_error_code = Some code\<rparr>"

text \<open>A sender may also raise; the exception leaves \<open>process_one\<close>.\<close>

datatype sender_error = SenderRaised

definition null_send :: "instant notification_event \<Rightarrow> sender_error + send_result" where
  "null_send event = Inr sent_ok"

definition console_send :: "instant notification_event \<Rightarrow> sender_error + send_result" where
  "console_send event = Inr sent_ok"

datatype telegram_reply = TelegramTimeout | TelegramNetworkError | TelegramStatus int | TelegramRaised

definition default_text :: pyval where
  "default_text = PyStr (''TOMIRIS SYSTEM TEST'' @ [char_of (10 :: nat)] @ ''Notification Gateway operational.'')"

definition payload_text :: "pyval \<Rightarrow> pyval" where
  "payload_text payload =
     (case payload of
        PyMap entries \<Rightarrow> (case map_of entries (PyStr ''text'') of Some v \<Rightarrow> v | None \<Rightarrow> default_text)
      | _ \<Rightarrow> default_text)"

definition telegram_send ::
    "string \<Rightarrow> string \<Rightarrow> (string \<Rightarrow> string \<Rightarrow> pyval \<Rightarrow> telegram_reply) \<Rightarrow>
     instant notification_event \<Rightarrow> sender_error + send_result" where
  "telegram_send token api_base post event =
     (let text = payload_text (nt_payload event);
          url = rstrip_slash api_base @ ''/bot'' @ token @ ''/sendMessage''
      in case post url (nt_recipient_ref event) text of
           TelegramTimeout \<Rightarrow> Inr (send_failed True ''TELEGRAM_TIMEOUT'')
         | TelegramNetworkError \<Rightarrow> Inr (send_failed True ''TELEGRAM_NETWORK_ERROR'')
         | TelegramRaised \<Rightarrow> Inl SenderRaised
         | TelegramStatus status \<Rightarrow>
             if 200 \<le> status \<and> status < 300 then Inr sent_ok
             else if status = 429 \<or> 500 \<le> status
             then Inr (send_failed True (''TELEGRAM_HTTP_'' @ int_str status))
             else Inr (send_failed False (''TELEGRAM_HTTP_'' @ int_str status)))"

section \<open>Redaction of the token in log records\<close>

function replace_all :: "string \<Rightarrow> string \<Rightarrow> string \<Rightarrow> string" where
  "replace_all old new s =
     (if old \<noteq> [] \<and> take (length old) s = old then new @ replace_all old new (drop (length old) s)
      else case s of [] \<Rightarrow> [] | c # cs \<Rightarrow> c # replace_all old new cs)"
  by pat_completeness auto
termination
proof (relation "measure (\<lambda>(old, new, s). length s)")
  fix old new s :: string
  assume "old \<noteq> [] \<and> take (length old) s = old"
  then have "s \<noteq> []" "old \<noteq> []" by auto
  then show "((old, new, drop (length old) s), old, new, s) \<in> measure (\<lambda>(old, new, s). length s)"
    by simp
qed simp_all

declare replace_all.simps [simp del]

text \<open>An argument of a log record: a text, or an object with its own \<open>__str__\<close>, here \<open>render\<close>.\<close>

datatype 'o log_value = LogText string | LogObject 'o

record 'o log_record =
  lr_msg :: "'o log_value"
  lr_args :: "'o log_value list"
  lr_named_args :: "(string \<times> 'o log_value) list"

definition rendered :: "('o \<Rightarrow> string) \<Rightarrow> 'o log_value \<Rightarrow> string" where
  "rendered render v = (case v of LogText s \<Rightarrow> s | LogObject ob \<Rightarrow> render ob)"

definition redact :: "('o \<Rightarrow> string) \<Rightarrow> string \<Rightarrow> 'o log_value \<Rightarrow> 'o log_value" where
  "redact render secret v =
     (if sublist secret (rendered render v)
      then LogText (replace_all secret ''<redacted>'' (rendered render v)) else v)"

definition redaction_filter :: "('o \<Rightarrow> string) \<Rightarrow> string \<Rightarrow> 'o log_record \<Rightarrow> 'o log_record" where
  "redaction_filter render secret r =
     r\<lparr>lr_msg := redact render secret (lr_msg r),
       lr_args := map (redact render secret) (lr_args r),
       lr_named_args := map (\<lambda>(k, v). (k, redact render secret v)) (lr_named_args r)\<rparr>"

section \<open>Worker\<close>

record notification_worker =
  nw_max_attempts :: int
  nw_base_retry_seconds :: int
  nw_max_retry_seconds :: int
  nw_sending_lease_seconds :: int

definition deliverable :: "instant \<Rightarrow> outbox_row \<Rightarrow> bool" where
  "deliverable now n \<longleftrightarrow>
     ob_status n \<in> {N_PENDING, N_RETRY, N_SENDING} \<and> ob_next_attempt_at n \<le> now"

definition select_notification :: "instant \<Rightarrow> uuid list \<Rightarrow> world \<Rightarrow> outbox_row option" where
  "select_notification now locked w =
     (case sort_key ob_created_at
             (filter (\<lambda>n. deliverable now n \<and> ob_notification_id n \<notin> set locked) (w_outbox w)) of
        [] \<Rightarrow> None
      | n # _ \<Rightarrow> Some n)"

definition sending :: "notification_worker \<Rightarrow> instant \<Rightarrow> outbox_row \<Rightarrow> outbox_row" where
  "sending nw now n =
     n\<lparr>ob_status := N_SENDING, ob_attempt_count := ob_attempt_count n + 1,
       ob_next_attempt_at := now + seconds (nw_sending_lease_seconds nw)\<rparr>"

text \<open>The fields of the event that is sent, before pydantic validates them.\<close>

definition event_of :: "outbox_row \<Rightarrow> py_datetime notification_event" where
  "event_of n =
     \<lparr>nt_notification_id = ob_notification_id n, nt_event_id = ob_event_id n,
      nt_event_type = ob_event_type n, nt_snapshot_id = ob_snapshot_id n, nt_channel = ob_channel n,
      nt_recipient_ref = ob_recipient_ref n, nt_payload = ob_payload n,
      nt_idempotency_key = ob_idempotency_key n, nt_correlation_id = ob_correlation_id n,
      nt_causation_id = ob_causation_id n, nt_created_at = Aware (ob_created_at n) 0\<rparr>"

datatype notify_error = InvalidEvent | SendRaised

text \<open>First transaction; it reads the clock for the query and again for the lease.\<close>

definition claim_notification ::
    "notification_worker \<Rightarrow> instant \<Rightarrow> instant \<Rightarrow> uuid list \<Rightarrow> world \<Rightarrow>
     notify_error + ((instant notification_event \<times> int) option \<times> world)" where
  "claim_notification nw now lease_now locked w =
     (case select_notification now locked w of
        None \<Rightarrow> Inr (None, w)
      | Some n \<Rightarrow>
          let n = sending nw lease_now n
          in case validate_notification (event_of n) of
               None \<Rightarrow> Inl InvalidEvent
             | Some event \<Rightarrow> Inr (Some (event, ob_attempt_count n), put_notification n w))"

definition delivered :: "notification_worker \<Rightarrow> instant \<Rightarrow> rat \<Rightarrow> int \<Rightarrow> send_result \<Rightarrow> outbox_row \<Rightarrow> outbox_row" where
  "delivered nw now jitter attempt_count result n =
     (if sr_success result
      then n\<lparr>ob_status := N_SENT, ob_sent_at := Some now, ob_last_error_code := None\<rparr>
      else if \<not> sr_retryable result
      then n\<lparr>ob_status := N_FAILED, ob_last_error_code := sr_error_code result\<rparr>
      else if nw_max_attempts nw \<le> attempt_count
      then n\<lparr>ob_status := N_DEAD_LETTER, ob_last_error_code := sr_error_code result\<rparr>
      else let wait = exponential_backoff_seconds (nw_base_retry_seconds nw)
                        (nw_max_retry_seconds nw) attempt_count jitter
           in n\<lparr>ob_status := N_RETRY, ob_next_attempt_at := now + td_seconds wait,
                ob_last_error_code := sr_error_code result\<rparr>)"

text \<open>Second transaction.\<close>

definition record_delivery ::
    "notification_worker \<Rightarrow> instant \<Rightarrow> rat \<Rightarrow> uuid \<Rightarrow> int \<Rightarrow> send_result \<Rightarrow> world \<Rightarrow> world" where
  "record_delivery nw now jitter notification_id attempt_count result w =
     (case get_notification notification_id w of
        None \<Rightarrow> w
      | Some n \<Rightarrow>
          if ob_status n \<noteq> N_SENDING then w
          else put_notification (delivered nw now jitter attempt_count result n) w)"

definition process_one ::
    "notification_worker \<Rightarrow> (instant notification_event \<Rightarrow> sender_error + send_result) \<Rightarrow>
     instant \<times> instant \<times> instant \<Rightarrow> rat \<Rightarrow> uuid list \<Rightarrow> world \<Rightarrow> (notify_error + bool) \<times> world" where
  "process_one nw send readings jitter locked w =
     (let (now, lease_now, settle_now) = readings
      in case claim_notification nw now lease_now locked w of
           Inl e \<Rightarrow> (Inl e, w)
         | Inr (None, w) \<Rightarrow> (Inr False, w)
         | Inr (Some (event, attempt_count), w) \<Rightarrow>
             (case send event of
                Inl _ \<Rightarrow> (Inl SendRaised, w)
              | Inr result \<Rightarrow>
                  (Inr True, record_delivery nw settle_now jitter (nt_notification_id event)
                     attempt_count result w)))"

section \<open>The life cycle of a notification\<close>

definition final_notification :: "notification_status \<Rightarrow> bool" where
  "final_notification s \<longleftrightarrow> s \<in> {N_SENT, N_FAILED, N_DEAD_LETTER}"

inductive notification_edge :: "notification_status \<Rightarrow> notification_status \<Rightarrow> bool" where
  claim: "\<not> final_notification s \<Longrightarrow> notification_edge s N_SENDING"
| settle: "s' \<noteq> N_PENDING \<Longrightarrow> notification_edge N_SENDING s'"

inductive_simps notification_edge_iff: "notification_edge s s'"

text \<open>What never changes in a row, and how the rest may.\<close>

definition notification_evolves :: "outbox_row \<Rightarrow> outbox_row \<Rightarrow> bool" where
  "notification_evolves n n' \<longleftrightarrow>
     n' = n\<lparr>ob_status := ob_status n', ob_attempt_count := ob_attempt_count n',
            ob_next_attempt_at := ob_next_attempt_at n', ob_last_error_code := ob_last_error_code n',
            ob_sent_at := ob_sent_at n'\<rparr>
     \<and> ob_attempt_count n \<le> ob_attempt_count n'
     \<and> notification_edge\<^sup>*\<^sup>* (ob_status n) (ob_status n')"

lemma final_no_edge: "notification_edge s s' \<Longrightarrow> \<not> final_notification s"
  by (auto simp: notification_edge_iff final_notification_def)

lemma final_absorbing: "notification_edge\<^sup>*\<^sup>* s s' \<Longrightarrow> final_notification s \<Longrightarrow> s' = s"
  by (induction rule: converse_rtranclp_induct) (auto dest: final_no_edge)

lemma notification_evolves_refl: "reflp notification_evolves"
  by (rule reflpI) (simp add: notification_evolves_def)

lemma notification_evolves_trans: "transp notification_evolves"
proof (rule transpI)
  fix x y z assume a: "notification_evolves x y" "notification_evolves y z"
  then have "notification_edge\<^sup>*\<^sup>* (ob_status x) (ob_status z)" "ob_attempt_count x \<le> ob_attempt_count z"
    by (auto simp: notification_evolves_def intro: rtranclp_trans)
  with a show "notification_evolves x z"
    unfolding notification_evolves_def by (cases x; cases y; cases z) simp
qed

lemma notification_evolves_key:
  "notification_evolves n n' \<Longrightarrow> ob_notification_id n = ob_notification_id n'
     \<and> ob_idempotency_key n = ob_idempotency_key n'"
  unfolding notification_evolves_def by (cases n; cases n') simp

lemma sending_evolves: "\<not> final_notification (ob_status n) \<Longrightarrow> notification_evolves n (sending nw now n)"
  by (auto simp: notification_evolves_def sending_def intro: notification_edge.claim)

lemma delivered_evolves:
  "ob_status n = N_SENDING \<Longrightarrow> notification_evolves n (delivered nw now jitter k result n)"
  by (auto simp: notification_evolves_def delivered_def Let_def intro!: r_into_rtranclp notification_edge.settle)

lemma select_notification_SomeD:
  assumes "select_notification now locked w = Some n"
  shows "n \<in> set (w_outbox w)" "deliverable now n" "ob_notification_id n \<notin> set locked"
    "m \<in> set (w_outbox w) \<Longrightarrow> deliverable now m \<Longrightarrow> ob_notification_id m \<notin> set locked \<Longrightarrow>
     ob_created_at n \<le> ob_created_at m"
proof -
  let ?due = "filter (\<lambda>n. deliverable now n \<and> ob_notification_id n \<notin> set locked) (w_outbox w)"
  obtain ns where ns: "sort_key ob_created_at ?due = n # ns"
    using assms by (auto simp: select_notification_def split: list.splits)
  then have "n \<in> set ?due" by (metis list.set_intros(1) set_sort)
  then show "n \<in> set (w_outbox w)" "deliverable now n" "ob_notification_id n \<notin> set locked" by auto
  assume "m \<in> set (w_outbox w)" "deliverable now m" "ob_notification_id m \<notin> set locked"
  then have "m \<in> set (n # ns)" unfolding ns [symmetric] by simp
  moreover have "sorted (map ob_created_at (n # ns))" unfolding ns [symmetric] by simp
  ultimately show "ob_created_at n \<le> ob_created_at m" by auto
qed

lemma outbox_keys: "schema_ok w \<Longrightarrow> distinct (map ob_notification_id (w_outbox w))"
  by (simp add: schema_ok_def keys_ok_def)

lemma get_notification_mem:
  "schema_ok w \<Longrightarrow> n \<in> set (w_outbox w) \<Longrightarrow> get_notification (ob_notification_id n) w = Some n"
  unfolding get_notification_def by (rule row_get_mem [OF outbox_keys])

lemma get_notification_put:
  "get_notification k (put_notification n w) =
     (if ob_notification_id n = k then map_option (\<lambda>_. n) (get_notification k w) else get_notification k w)"
proof (cases "get_notification k w")
  case None
  then show ?thesis by (simp add: get_notification_def put_notification_def row_get_put row_get_None_iff)
next
  case (Some m)
  then have "k \<in> ob_notification_id ` set (w_outbox w)"
    using row_get_SomeD [of ob_notification_id k "w_outbox w" m] by (auto simp: get_notification_def)
  with Some show ?thesis by (simp add: get_notification_def put_notification_def row_get_put)
qed

lemma get_notification_SomeD:
  "get_notification k w = Some n \<Longrightarrow> n \<in> set (w_outbox w) \<and> ob_notification_id n = k"
  unfolding get_notification_def by (rule row_get_SomeD)

section \<open>Steps on the outbox\<close>

inductive outbox_step :: "world \<Rightarrow> world \<Rightarrow> bool" where
  enqueue: "enqueue_notification e w = Some (inserted, w') \<Longrightarrow> outbox_step w w'"
| claim: "claim_notification nw now lease_now locked w = Inr (taken, w') \<Longrightarrow> outbox_step w w'"
| deliver: "outbox_step w (record_delivery nw now jitter k attempt result w)"

definition outbox_grows :: "world \<Rightarrow> world \<Rightarrow> bool" where
  "outbox_grows w w' \<longleftrightarrow>
     (\<forall>k n. get_notification k w = Some n \<longrightarrow>
        (\<exists>n'. get_notification k w' = Some n' \<and> notification_evolves n n'))"

lemma outbox_grows_refl: "outbox_grows w w"
  using reflpD [OF notification_evolves_refl] by (auto simp: outbox_grows_def)

lemma outbox_grows_trans: "outbox_grows w w1 \<Longrightarrow> outbox_grows w1 w2 \<Longrightarrow> outbox_grows w w2"
  unfolding outbox_grows_def by (meson transpD [OF notification_evolves_trans])

text \<open>Writing back an evolved row keeps the schema.\<close>

lemma put_notification_ok:
  assumes ok: "schema_ok w" and n: "get_notification (ob_notification_id n') w = Some n"
    and ev: "notification_evolves n n'"
  shows "schema_ok (put_notification n' w)" "outbox_grows w (put_notification n' w)"
proof -
  let ?w = "put_notification n' w"
  have rel: "list_all2 notification_evolves (w_outbox w) (w_outbox ?w)"
    using row_put_rel [OF notification_evolves_refl outbox_keys [OF ok] _ ev] n
    by (simp add: get_notification_def put_notification_def)
  have keys: "map ob_notification_id (w_outbox ?w) = map ob_notification_id (w_outbox w)"
    "map ob_idempotency_key (w_outbox ?w) = map ob_idempotency_key (w_outbox w)"
    by (rule list_all2_keys [OF rel, symmetric]; simp add: notification_evolves_key)+
  have "outbox_checks m" if m: "m \<in> set (w_outbox ?w)" for m
  proof -
    from list_all2_memD2 [OF rel m] obtain x where "x \<in> set (w_outbox w)" "notification_evolves x m" by blast
    with ok show ?thesis
      by (auto simp: schema_ok_def checks_ok_def list_all_iff outbox_checks_def notification_evolves_def
          dest!: bspec)
  qed
  with ok keys show "schema_ok ?w"
    by (simp add: schema_ok_def keys_ok_def refs_ok_def checks_ok_def put_notification_def list_all_iff)
  show "outbox_grows w ?w"
    unfolding outbox_grows_def get_notification_put
    using n ev reflpD [OF notification_evolves_refl] by auto
qed

lemma enqueue_ok:
  assumes ok: "schema_ok w" and "enqueue_notification e w = Some (b, w')"
  shows "schema_ok w' \<and> outbox_grows w w'"
proof (cases b)
  case True
  with assms(2) have new: "nt_idempotency_key e \<notin> ob_idempotency_key ` set (w_outbox w)"
    "nt_notification_id e \<notin> ob_notification_id ` set (w_outbox w)"
    "w' = w\<lparr>w_outbox := w_outbox w @ [outbox_row_of e]\<rparr>"
    by (auto simp: enqueue_notification_def split: if_splits)
  have "schema_ok w'"
    using ok new(1,2) unfolding new(3)
    by (auto simp: schema_ok_def keys_ok_def refs_ok_def checks_ok_def outbox_row_of_def outbox_checks_def)
  moreover have "outbox_grows w w'"
    using reflpD [OF notification_evolves_refl] unfolding new(3)
    by (simp add: outbox_grows_def get_notification_def row_get_append)
  ultimately show ?thesis by simp
next
  case False
  with assms show ?thesis
    by (auto simp: enqueue_notification_def outbox_grows_refl split: if_splits)
qed

lemma claim_notification_inv:
  assumes "claim_notification nw now lease_now locked w = Inr (Some (event, k), w')"
  obtains n where "select_notification now locked w = Some n"
    "validate_notification (event_of (sending nw lease_now n)) = Some event"
    "k = ob_attempt_count n + 1" "w' = put_notification (sending nw lease_now n) w"
  using assms
  by (auto simp: claim_notification_def Let_def sending_def split: option.splits)

lemma deliverable_open: "deliverable now n \<Longrightarrow> \<not> final_notification (ob_status n)"
  by (auto simp: deliverable_def final_notification_def)

lemma claim_notification_ok:
  assumes ok: "schema_ok w" and "claim_notification nw now lease_now locked w = Inr (taken, w')"
  shows "schema_ok w' \<and> outbox_grows w w'"
proof (cases taken)
  case None
  then have "w' = w" using assms(2) by (auto simp: claim_notification_def Let_def split: option.splits)
  with ok outbox_grows_refl show ?thesis by simp
next
  case (Some p)
  obtain event k where p: "p = (event, k)" by fastforce
  show ?thesis
    using assms(2) [unfolded Some p]
  proof (cases rule: claim_notification_inv)
    case (1 n)
    note sel = select_notification_SomeD [OF 1(1)]
    have id: "ob_notification_id (sending nw lease_now n) = ob_notification_id n" by (simp add: sending_def)
    from put_notification_ok [OF ok _ sending_evolves [OF deliverable_open [OF sel(2)]]]
      get_notification_mem [OF ok sel(1)] id 1(4) show ?thesis by simp
  qed
qed

lemma record_delivery_ok:
  assumes ok: "schema_ok w"
  shows "schema_ok (record_delivery nw now jitter k attempt result w)
     \<and> outbox_grows w (record_delivery nw now jitter k attempt result w)"
proof (cases "\<exists>n. get_notification k w = Some n \<and> ob_status n = N_SENDING")
  case True
  then obtain n where n: "get_notification k w = Some n" "ob_status n = N_SENDING" by blast
  have id: "ob_notification_id (delivered nw now jitter attempt result n) = k"
    using get_notification_SomeD [OF n(1)] by (simp add: delivered_def Let_def)
  from put_notification_ok [OF ok _ delivered_evolves [OF n(2)]] n id show ?thesis
    by (simp add: record_delivery_def)
next
  case False
  then have "record_delivery nw now jitter k attempt result w = w"
    by (auto simp: record_delivery_def split: option.splits)
  with ok outbox_grows_refl show ?thesis by simp
qed

lemma outbox_step_frame:
  assumes "outbox_step w w'"
  shows "w_tasks w' = w_tasks w" "w_nonces w' = w_nonces w" "w_signals w' = w_signals w"
  using assms
  by (cases rule: outbox_step.cases;
      auto simp: enqueue_notification_def claim_notification_def record_delivery_def put_notification_def Let_def
        split: if_splits option.splits)+

lemma outbox_step_ok:
  assumes "outbox_step w w'" and ok: "schema_ok w"
  shows "schema_ok w' \<and> outbox_grows w w'"
  using assms(1)
proof cases
  case (enqueue e inserted)
  then show ?thesis by (rule enqueue_ok [OF ok])
next
  case (claim nw now lease_now locked taken)
  then show ?thesis by (rule claim_notification_ok [OF ok])
next
  case (deliver nw now jitter k attempt result)
  then show ?thesis using record_delivery_ok [OF ok] by (simp only:)
qed

lemma outbox_steps_ok: "outbox_step\<^sup>*\<^sup>* w w' \<Longrightarrow> schema_ok w \<Longrightarrow> schema_ok w' \<and> outbox_grows w w'"
proof (induction rule: rtranclp_induct)
  case (step w1 w2)
  from step.IH step.prems have ih: "schema_ok w1" "outbox_grows w w1" by simp_all
  from outbox_step_ok [OF step.hyps(2) ih(1)] have "schema_ok w2" "outbox_grows w1 w2" by simp_all
  then show ?case using outbox_grows_trans [OF ih(2)] by (intro conjI)
qed (simp add: outbox_grows_refl)

section \<open>Replacing every occurrence\<close>

definition redactable :: "string \<Rightarrow> bool" where
  "redactable secret \<longleftrightarrow> secret \<noteq> [] \<and> CHR ''<'' \<notin> set secret \<and> CHR ''>'' \<notin> set secret
     \<and> \<not> sublist secret ''redacted''"

lemma replace_all_hit:
  "old \<noteq> [] \<and> take (length old) s = old \<Longrightarrow> replace_all old new s = new @ replace_all old new (drop (length old) s)"
  by (subst replace_all.simps) simp

lemma replace_all_miss:
  "\<not> (old \<noteq> [] \<and> take (length old) (c # cs) = old) \<Longrightarrow> replace_all old new (c # cs) = c # replace_all old new cs"
  by (subst replace_all.simps) (simp only: if_False list.case)

lemma replace_all_Nil: "replace_all old new [] = []"
  by (subst replace_all.simps) (cases old, simp_all)

lemma prefix_replace_all:
  "CHR ''<'' \<notin> set p \<Longrightarrow> prefix p (replace_all old ''<redacted>'' s) \<Longrightarrow> prefix p s"
proof (induction old "''<redacted>''" s arbitrary: p rule: replace_all.induct)
  case (1 old s)
  show ?case
  proof (cases "old \<noteq> [] \<and> take (length old) s = old")
    case True
    from 1(4) have "prefix p (''<redacted>'' @ replace_all old ''<redacted>'' (drop (length old) s))"
      unfolding replace_all_hit [OF True] .
    with 1(3) show ?thesis by (cases p) auto
  next
    case False
    show ?thesis
    proof (cases s)
      case Nil
      with 1(4) show ?thesis by (simp add: replace_all_Nil)
    next
      case (Cons c cs)
      have out: "replace_all old ''<redacted>'' s = c # replace_all old ''<redacted>'' cs"
        using replace_all_miss False unfolding Cons by blast
      show ?thesis
      proof (cases p)
        case (Cons d ds)
        with 1(3,4) out have "d = c" "prefix ds (replace_all old ''<redacted>'' cs)" "CHR ''<'' \<notin> set ds" by auto
        with 1(2) [OF False \<open>s = c # cs\<close>] Cons \<open>s = c # cs\<close> show ?thesis by simp
      qed simp
    qed
  qed
qed

lemma sublist_mark:
  assumes "redactable secret" and "sublist secret (''<redacted>'' @ u)"
  shows "sublist secret u"
proof (rule ccontr)
  assume no: "\<not> sublist secret u"
  have split: "''<redacted>'' @ u = CHR ''<'' # (''redacted'' @ (CHR ''>'' # u))" by simp
  from assms have "sublist secret (''redacted'' @ (CHR ''>'' # u))"
    unfolding split by (cases secret) (auto simp: sublist_Cons_right redactable_def)
  then consider "sublist secret ''redacted''" | "sublist secret (CHR ''>'' # u)"
    | x y where "secret = x @ y" "x \<noteq> []" "y \<noteq> []" "prefix y (CHR ''>'' # u)"
    unfolding sublist_append by (metis append_Nil append_Nil2 prefix_imp_sublist suffix_imp_sublist)
  then show False
  proof cases
    case 2
    with no assms(1) show False by (cases secret) (auto simp: sublist_Cons_right redactable_def)
  next
    case 3
    then show False using assms(1) by (cases y) (auto simp: redactable_def)
  qed (use assms(1) in \<open>simp add: redactable_def\<close>)
qed

lemma no_secret_left: "redactable secret \<Longrightarrow> \<not> sublist secret (replace_all secret ''<redacted>'' s)"
proof (induction secret "''<redacted>''" s rule: replace_all.induct)
  case (1 secret s)
  show ?case
  proof (cases "secret \<noteq> [] \<and> take (length secret) s = secret")
    case True
    then have "replace_all secret ''<redacted>'' s
        = ''<redacted>'' @ replace_all secret ''<redacted>'' (drop (length secret) s)"
      by (rule replace_all_hit)
    with 1(1) [OF True 1(3)] sublist_mark [OF 1(3)] show ?thesis by metis
  next
    case False
    show ?thesis
    proof (cases s)
      case Nil
      with 1(3) show ?thesis by (simp add: replace_all_Nil redactable_def)
    next
      case (Cons c cs)
      have out: "replace_all secret ''<redacted>'' s = c # replace_all secret ''<redacted>'' cs"
        using replace_all_miss False unfolding Cons by blast
      have "\<not> prefix secret (c # replace_all secret ''<redacted>'' cs)"
      proof
        assume "prefix secret (c # replace_all secret ''<redacted>'' cs)"
        then have "prefix secret s"
          using prefix_replace_all [of secret secret s] 1(3) by (simp add: out redactable_def)
        with False 1(3) show False by (auto simp: redactable_def prefix_def)
      qed
      with 1(2) [OF False Cons 1(3)] show ?thesis unfolding out by (simp add: sublist_Cons_right)
    qed
  qed
qed

lemma redact_hides: "redactable secret \<Longrightarrow> \<not> sublist secret (rendered render (redact render secret v))"
  using no_secret_left by (auto simp: redact_def rendered_def)

section \<open>What a worker relies on in a sender\<close>

locale notification_sender =
  fixes send :: "instant notification_event \<Rightarrow> sender_error + send_result"
  assumes success_clean: "send e = Inr r \<Longrightarrow> sr_success r \<Longrightarrow> sr_error_code r = None"
    and failure_coded: "send e = Inr r \<Longrightarrow> \<not> sr_success r \<Longrightarrow> sr_error_code r \<noteq> None"
begin

text \<open>After a settled send, the stored error code tells whether the notification was sent.\<close>

lemma settled_code:
  assumes "send e = Inr r"
  shows "(ob_last_error_code (delivered nw now jitter k r n) = None) =
      (ob_status (delivered nw now jitter k r n) = N_SENT)"
  using success_clean [OF assms] failure_coded [OF assms] by (auto simp: delivered_def Let_def)

end

interpretation null_sender: notification_sender null_send
  by unfold_locales (auto simp: null_send_def sent_ok_def)

interpretation console_sender: notification_sender console_send
  by unfold_locales (auto simp: console_send_def sent_ok_def)

interpretation telegram_sender: notification_sender "telegram_send token api_base post"
  for token api_base :: string and post :: "string \<Rightarrow> string \<Rightarrow> pyval \<Rightarrow> telegram_reply"
  by unfold_locales
    (auto simp: telegram_send_def sent_ok_def send_failed_def Let_def split: telegram_reply.splits if_splits)

section \<open>Properties\<close>

text \<open>Delivering one notification over Telegram: \<open>process_one\<close> takes the oldest unlocked row that
  is due, charges one attempt, and stores SENT with the time for a 2xx answer, FAILED for a
  permanent status, and for a timeout, a network error, 429 or 5xx either RETRY, strictly in
  the future and at most twice the maximal delay away, while attempts are left, or
  DEAD_LETTER; the stored error code is empty exactly when the row is SENT, and every other
  row is left alone.\<close>

theorem telegram_delivery:
  assumes "select_notification now locked w = Some n"
    and "validate_notification (event_of (sending nw lease_now n)) = Some event"
    and "schema_ok w" and "backoff_settings (nw_base_retry_seconds nw) (nw_max_retry_seconds nw)"
    and "post (rstrip_slash base @ ''/bot'' @ token @ ''/sendMessage'') (ob_recipient_ref n)
           (payload_text (ob_payload n)) = reply" and "reply \<noteq> TelegramRaised"
  shows "\<exists>w' n'. process_one nw (telegram_send token base post) (now, lease_now, settle_now) jitter locked w = (Inr True, w')
     \<and> (\<forall>m \<in> set (w_outbox w). deliverable now m \<and> ob_notification_id m \<notin> set locked \<longrightarrow>
          ob_created_at n \<le> ob_created_at m)
     \<and> get_notification (ob_notification_id n) w' = Some n'
     \<and> (\<forall>k. k \<noteq> ob_notification_id n \<longrightarrow> get_notification k w' = get_notification k w)
     \<and> ob_attempt_count n' = ob_attempt_count n + 1
     \<and> (ob_last_error_code n' = None \<longleftrightarrow> ob_status n' = N_SENT)
     \<and> (case reply of
          TelegramStatus s \<Rightarrow>
            if 200 \<le> s \<and> s < 300 then ob_status n' = N_SENT \<and> ob_sent_at n' = Some settle_now
            else if s = 429 \<or> 500 \<le> s then ob_status n' \<in> {N_RETRY, N_DEAD_LETTER}
            else ob_status n' = N_FAILED
        | _ \<Rightarrow> ob_status n' \<in> {N_RETRY, N_DEAD_LETTER})
     \<and> (ob_status n' = N_RETRY \<longrightarrow> ob_attempt_count n' < nw_max_attempts nw \<and> settle_now < ob_next_attempt_at n'
          \<and> ob_next_attempt_at n' \<le> settle_now + seconds (2 * nw_max_retry_seconds nw))
     \<and> (ob_status n' = N_DEAD_LETTER \<longrightarrow> nw_max_attempts nw \<le> ob_attempt_count n')"
proof -
  note sel = select_notification_SomeD [OF assms(1)]
  let ?n = "sending nw lease_now n" and ?k = "ob_notification_id n"
  let ?w = "put_notification ?n w"
  have event: "nt_notification_id event = ?k" "nt_recipient_ref event = ob_recipient_ref n"
    "nt_payload event = ob_payload n"
    using assms(2) by (auto simp: validate_notification_def event_of_def sending_def split: option.splits if_splits)
  have claimed: "claim_notification nw now lease_now locked w = Inr (Some (event, ob_attempt_count n + 1), ?w)"
    using assms(1,2) by (simp add: claim_notification_def Let_def sending_def)
  have "\<exists>r. telegram_send token base post event = Inr r"
    using assms(5,6) by (cases reply) (simp_all add: telegram_send_def Let_def event)
  then obtain r where r: "telegram_send token base post event = Inr r" by blast
  let ?n' = "delivered nw settle_now jitter (ob_attempt_count n + 1) r ?n"
  have stored: "get_notification ?k ?w = Some ?n"
    using get_notification_mem [OF assms(3) sel(1)] by (simp add: get_notification_put sending_def)
  have id: "ob_notification_id ?n' = ?k" "ob_notification_id ?n = ?k"
    by (simp_all add: delivered_def Let_def sending_def)
  let ?w' = "put_notification ?n' ?w"
  have run: "process_one nw (telegram_send token base post) (now, lease_now, settle_now) jitter locked w = (Inr True, ?w')"
    using claimed r stored by (simp add: process_one_def record_delivery_def event) (simp add: sending_def)
  have got: "get_notification ?k ?w' = Some ?n'" "k \<noteq> ?k \<Longrightarrow> get_notification k ?w' = get_notification k w" for k
    using stored id by (simp_all add: get_notification_put)
  have wait: "settle_now < settle_now + td_seconds (exponential_backoff_seconds (nw_base_retry_seconds nw)
      (nw_max_retry_seconds nw) k jitter)"
    "settle_now + td_seconds (exponential_backoff_seconds (nw_base_retry_seconds nw)
      (nw_max_retry_seconds nw) k jitter) \<le> settle_now + seconds (2 * nw_max_retry_seconds nw)" for k
    using notification_backoff.in_the_future [OF assms(4) TrueI, where r = jitter and k = k and now = settle_now]
      notification_backoff.no_longer_than [OF assms(4) TrueI, where r = jitter and k = k and n = "2 * nw_max_retry_seconds nw"]
      assms(4)
    by (auto simp: backoff_settings_def)
  have attempts: "ob_attempt_count ?n' = ob_attempt_count n + 1" by (simp add: delivered_def Let_def sending_def)
  have retry: "ob_status ?n' = N_RETRY \<Longrightarrow> ob_attempt_count n + 1 < nw_max_attempts nw \<and> settle_now < ob_next_attempt_at ?n'
      \<and> ob_next_attempt_at ?n' \<le> settle_now + seconds (2 * nw_max_retry_seconds nw)"
    using wait [of "ob_attempt_count n + 1"] by (auto simp: delivered_def Let_def split: if_splits)
  have dead: "ob_status ?n' = N_DEAD_LETTER \<Longrightarrow> nw_max_attempts nw \<le> ob_attempt_count n + 1"
    by (auto simp: delivered_def Let_def split: if_splits)
  have status: "case reply of
          TelegramStatus s \<Rightarrow>
            if 200 \<le> s \<and> s < 300 then ob_status ?n' = N_SENT \<and> ob_sent_at ?n' = Some settle_now
            else if s = 429 \<or> 500 \<le> s then ob_status ?n' \<in> {N_RETRY, N_DEAD_LETTER}
            else ob_status ?n' = N_FAILED
        | _ \<Rightarrow> ob_status ?n' \<in> {N_RETRY, N_DEAD_LETTER}"
    using r assms(5,6)
    by (cases reply) (auto simp: telegram_send_def event sent_ok_def send_failed_def delivered_def Let_def split: if_splits)
  show ?thesis
    using run got attempts telegram_sender.settled_code [OF r] status retry dead sel(4)
    by (intro exI [of _ ?w'] exI [of _ ?n']) simp
qed

text \<open>C31 The outbox: along every interleaving of enqueues, claims and recorded deliveries of any
  number of workers, every constraint of the schema holds, no row disappears or changes what
  it says, attempts never decrease, and a notification that is SENT, FAILED or DEAD_LETTER
  stays so; and once an idempotency key is stored, every later enqueue with it reports False
  and changes nothing.\<close>

theorem outbox_lifecycle:
  assumes "outbox_step\<^sup>*\<^sup>* w w'" and "schema_ok w" and "get_notification k w = Some n"
  shows "schema_ok w' \<and> (\<exists>n'. get_notification k w' = Some n' \<and> notification_evolves n n'
       \<and> (final_notification (ob_status n) \<longrightarrow> ob_status n' = ob_status n))
     \<and> (nt_idempotency_key e = ob_idempotency_key n \<longrightarrow> enqueue_notification e w' = Some (False, w'))"
proof -
  note ok = outbox_steps_ok [OF assms(1,2)]
  then obtain n' where n': "get_notification k w' = Some n'" "notification_evolves n n'"
    using assms(3) unfolding outbox_grows_def by blast
  have "final_notification (ob_status n) \<Longrightarrow> ob_status n' = ob_status n"
    using n'(2) final_absorbing by (simp add: notification_evolves_def)
  moreover have "ob_idempotency_key n \<in> ob_idempotency_key ` set (w_outbox w')"
    using get_notification_SomeD [OF n'(1)] notification_evolves_key [OF n'(2)] by auto
  ultimately show ?thesis using ok n' by (simp add: enqueue_notification_def)
qed

text \<open>The log filter hides the token: no message and no argument of a record that passed
  \<open>_SecretRedactionFilter\<close> renders to a text containing the secret, for secrets without angle
  brackets that do not themselves occur in the word \<open>redacted\<close> (a Telegram token is longer).\<close>

theorem token_redacted:
  assumes "redactable secret"
  shows "\<not> sublist secret (rendered render (lr_msg (redaction_filter render secret r)))
     \<and> list_all (\<lambda>v. \<not> sublist secret (rendered render v)) (lr_args (redaction_filter render secret r))
     \<and> list_all (\<lambda>(k, v). \<not> sublist secret (rendered render v)) (lr_named_args (redaction_filter render secret r))"
  using redact_hides [OF assms] by (auto simp: redaction_filter_def list_all_iff)

theorem token_redacted_witness:
  "\<not> sublist ''123:TOKEN'' (rendered (\<lambda>_. []) (redact (\<lambda>_ :: unit. []) ''123:TOKEN'' (LogText ''POST /bot123:TOKEN/x'')))"
proof -
  have "redactable ''123:TOKEN''" by (simp add: redactable_def sublist_code)
  from token_redacted [OF this, of "\<lambda>_. []" "\<lparr>lr_msg = LogText ''POST /bot123:TOKEN/x'', lr_args = [], lr_named_args = []\<rparr>"]
  show ?thesis by (simp add: redaction_filter_def)
qed

definition sample_event :: "instant notification_event" where
  "sample_event = \<lparr>nt_notification_id = 60, nt_event_id = 61, nt_event_type = ''TOMIRIS_SYSTEM_TEST'',
     nt_snapshot_id = None, nt_channel = ''telegram'', nt_recipient_ref = ''12345'', nt_payload = PyMap [],
     nt_idempotency_key = ''system-test:1'', nt_correlation_id = 61, nt_causation_id = None, nt_created_at = 0\<rparr>"

definition notified_world :: world where
  "notified_world = registry_world\<lparr>w_outbox := [outbox_row_of sample_event]\<rparr>"

definition sample_notifier :: notification_worker where
  "sample_notifier = \<lparr>nw_max_attempts = 3, nw_base_retry_seconds = 1, nw_max_retry_seconds = 4,
     nw_sending_lease_seconds = 10\<rparr>"

lemma notified_ok: "schema_ok notified_world"
  by (simp add: schema_ok_def keys_ok_def refs_ok_def checks_ok_def notified_world_def sample_worlds sample_rows
      outbox_row_of_def outbox_checks_def)

theorem telegram_delivery_witness:
  "\<exists>w' n'. process_one sample_notifier (telegram_send ''t'' ''https://api.telegram.org'' (\<lambda>_ _ _. TelegramStatus 503))
      (5, 5, 6) 0 [] notified_world = (Inr True, w')
     \<and> get_notification 60 w' = Some n' \<and> ob_attempt_count n' = 1 \<and> ob_status n' = N_RETRY"
proof -
  have sel: "select_notification 5 [] notified_world = Some (outbox_row_of sample_event)"
    by (simp add: select_notification_def notified_world_def deliverable_def outbox_row_of_def sample_event_def)
  have "\<exists>event. validate_notification (event_of (sending sample_notifier 5 (outbox_row_of sample_event))) = Some event"
    by (simp add: validate_notification_def event_of_def sending_def outbox_row_of_def sample_event_def
        require_utc_def len_between_def bounded_dict_def validate_bounded_json_def notification_limits_def walk.simps)
  then obtain event where ev: "validate_notification (event_of (sending sample_notifier 5 (outbox_row_of sample_event))) = Some event"
    by blast
  have set: "backoff_settings (nw_base_retry_seconds sample_notifier) (nw_max_retry_seconds sample_notifier)"
    by (simp add: sample_notifier_def backoff_settings_def)
  from telegram_delivery [OF sel ev notified_ok set, of "\<lambda>_ _ _. TelegramStatus 503" "''https://api.telegram.org''" "''t''"
      "TelegramStatus 503" 6 0]
  show ?thesis by (auto simp: sample_notifier_def outbox_row_of_def sample_event_def)
qed

theorem outbox_lifecycle_witness:
  "enqueue_notification (sample_event\<lparr>nt_notification_id := 99\<rparr>) notified_world = Some (False, notified_world)"
proof -
  have n: "get_notification 60 notified_world = Some (outbox_row_of sample_event)"
    by (simp add: get_notification_def notified_world_def outbox_row_of_def sample_event_def)
  from outbox_lifecycle [OF rtranclp.rtrancl_refl notified_ok n, of "sample_event\<lparr>nt_notification_id := 99\<rparr>"]
  show ?thesis by (simp add: outbox_row_of_def)
qed

end
