(* ===== verification/System.thy ===== *)
theory System
  imports Planner Hub_Api Health Registry Notifications
begin

text \<open>
  The program as a transition system.  A state is the database; a step is one committed
  transaction of one of the processes: planning a run, claiming due tasks, recording a dispatch
  result, expiring deadlines, repairing after a crash, evaluating a quorum, the hub's
  \<open>POST /v1/signals\<close>, storing the verdict of a health probe, synchronising the registry, opening
  a snapshot, and the transactions on the outbox (\<open>outbox_step\<close>).  All arguments of a step (clock readings, locked rows, the answers of
  agents, the requests of the outside) are arbitrary, so an execution is any interleaving of
  any number of workers, at the granularity of transactions.  The repair of a recovery is one step
  here; \<open>Races\<close> opens it into the statements of its transaction, with other transactions committing
  in between.

  The only assumption on a step is on planning: the policy is a validated one, and \<open>uuid4\<close> does
  not repeat an identifier (\<open>fresh_supply\<close>).  The collation of the database is a map to the
  rationals, into which every order on texts embeds.
\<close>

section \<open>Steps\<close>

inductive system_step :: "world \<Rightarrow> world \<Rightarrow> bool" where
  plan: "create_plan (collate :: string \<Rightarrow> rat) now sid asset trig policy ctx rid corr caus w = Inr (pl, w') \<Longrightarrow>
    valid_policy policy \<Longrightarrow> fresh_supply w \<Longrightarrow> system_step w w'"
| claim: "claim dw now locked w = (commands, w') \<Longrightarrow> system_step w w'"
| result: "system_step w (record_result dw now rnd command result w)"
| expire: "expire_dispatch_deadlines now locked w = (n, w') \<Longrightarrow> system_step w w'"
| repair: "reconcile_repair n now locked w = (ids, recovered, w') \<Longrightarrow> system_step w w'"
| decide: "evaluate now rid w = Inr (res, w') \<Longrightarrow> system_step w w'"
| request: "ingest_signal cfg get_secret parse db_up audit_up an inow rnow q w = (response, w') \<Longrightarrow>
    system_step w w'"
| probe: "probe v r agent_id seen w = Inr (av, w') \<Longrightarrow> system_step w w'"
| sync: "sync_registry entries w = Some (n, w') \<Longrightarrow> system_step w w'"
| snapshot: "add_snapshot s w = Some w' \<Longrightarrow> system_step w w'"
| notify: "outbox_step w w' \<Longrightarrow> system_step w w'"

inductive_cases system_stepE: "system_step w w'"

abbreviation execution :: "world \<Rightarrow> world \<Rightarrow> bool" where
  "execution \<equiv> system_step\<^sup>*\<^sup>*"

section \<open>The invariant\<close>

text \<open>Every stored signal for a task has completed that task, and comes from the agent it was
  assigned to, for the run, snapshot and asset of the task.\<close>

definition signals_assigned :: "world \<Rightarrow> bool" where
  "signals_assigned w \<longleftrightarrow>
     (\<forall>s \<in> set (w_signals w). \<forall>k. sg_task_id s = Some k \<longrightarrow>
        (\<exists>t. get_task k w = Some t \<and> t_status t = SIGNAL_RECEIVED \<and> t_agent_id t = sg_agent_id s
           \<and> sg_orchestration_run_id s = Some (t_orchestration_run_id t)
           \<and> t_snapshot_id t = sg_snapshot_id s \<and> t_asset t = sg_asset s))"

definition system_ok :: "world \<Rightarrow> bool" where
  "system_ok w \<longleftrightarrow> schema_ok w \<and> signals_assigned w"

lemma signals_assignedD:
  assumes "signals_assigned w" and "s \<in> set (w_signals w)" and "sg_task_id s = Some k"
  obtains t where "get_task k w = Some t" "t_status t = SIGNAL_RECEIVED" "t_agent_id t = sg_agent_id s"
    "sg_orchestration_run_id s = Some (t_orchestration_run_id t)" "t_snapshot_id t = sg_snapshot_id s"
    "t_asset t = sg_asset s"
  using bspec [OF assms(1) [unfolded signals_assigned_def] assms(2), THEN spec, of k] assms(3) by auto

lemma signals_assigned_complete:
  assumes "signals_assigned w" shows "signals_complete w"
  unfolding signals_complete_def
proof (intro ballI allI impI)
  fix s k t assume s: "s \<in> set (w_signals w)" "sg_task_id s = Some k" and t: "get_task k w = Some t"
  obtain u where "get_task k w = Some u" "t_status u = SIGNAL_RECEIVED" by (rule signals_assignedD [OF assms s])
  with t show "t_status t = SIGNAL_RECEIVED" by simp
qed

lemma assigned_evolved:
  assumes "task_evolves t t'" and "t_status t = SIGNAL_RECEIVED"
  shows "t_status t' = SIGNAL_RECEIVED \<and> t_agent_id t' = t_agent_id t
     \<and> t_orchestration_run_id t' = t_orchestration_run_id t \<and> t_snapshot_id t' = t_snapshot_id t
     \<and> t_asset t' = t_asset t"
  using assms task_evolves_terminal [OF assms(1)]
  by (simp add: task_evolves_def same_identity_def terminal_task_states_def)

lemma grows_refl: "grows w w"
  using reflpD [OF task_evolves_refl] by (auto simp: grows_def)

lemma growsD:
  assumes "grows w w'" and "get_task k w = Some t"
  obtains t' where "get_task k w' = Some t'" "task_evolves t t'"
  using assms unfolding grows_def by blast

lemma grows_trans:
  assumes "grows w w1" and "grows w1 w2" shows "grows w w2"
  unfolding grows_def
proof (intro conjI allI impI)
  show "set (w_nonces w) \<subseteq> set (w_nonces w2)" "set (w_signals w) \<subseteq> set (w_signals w2)"
    using assms unfolding grows_def by blast+
  fix k t assume "get_task k w = Some t"
  then obtain t1 where t1: "get_task k w1 = Some t1" "task_evolves t t1" by (rule growsD [OF assms(1)])
  obtain t2 where "get_task k w2 = Some t2" "task_evolves t1 t2" by (rule growsD [OF assms(2) t1(1)])
  with t1(2) show "\<exists>t'. get_task k w2 = Some t' \<and> task_evolves t t'"
    using transpD [OF task_evolves_trans] by blast
qed

text \<open>A growing database keeps the assignments of the signals it already had.\<close>

lemma assigned_grows:
  assumes "signals_assigned w" and "grows w w'" and "s \<in> set (w_signals w)" and "sg_task_id s = Some k"
  shows "\<exists>t. get_task k w' = Some t \<and> t_status t = SIGNAL_RECEIVED \<and> t_agent_id t = sg_agent_id s
           \<and> sg_orchestration_run_id s = Some (t_orchestration_run_id t)
           \<and> t_snapshot_id t = sg_snapshot_id s \<and> t_asset t = sg_asset s"
proof -
  obtain t where t: "get_task k w = Some t" "t_status t = SIGNAL_RECEIVED" "t_agent_id t = sg_agent_id s"
    "sg_orchestration_run_id s = Some (t_orchestration_run_id t)" "t_snapshot_id t = sg_snapshot_id s"
    "t_asset t = sg_asset s"
    by (rule signals_assignedD [OF assms(1,3,4)])
  obtain t' where t': "get_task k w' = Some t'" "task_evolves t t'" by (rule growsD [OF assms(2) t(1)])
  with assigned_evolved [OF t'(2) t(2)] t show ?thesis by auto
qed

lemma assigned_same_signals:
  assumes "signals_assigned w" and "grows w w'" and "w_signals w' = w_signals w"
  shows "signals_assigned w'"
  unfolding signals_assigned_def
proof (intro ballI allI impI)
  fix s k assume "s \<in> set (w_signals w')" "sg_task_id s = Some k"
  with assigned_grows [OF assms(1,2)] assms(3) show "\<exists>t. get_task k w' = Some t \<and> t_status t = SIGNAL_RECEIVED
      \<and> t_agent_id t = sg_agent_id s \<and> sg_orchestration_run_id s = Some (t_orchestration_run_id t)
      \<and> t_snapshot_id t = sg_snapshot_id s \<and> t_asset t = sg_asset s" by simp
qed

section \<open>Every step keeps it\<close>

lemma orch_step_grows: "orch_step w w' \<Longrightarrow> grows w w'"
  unfolding grows_def
proof (intro conjI allI impI)
  assume s: "orch_step w w'"
  then show "set (w_nonces w) \<subseteq> set (w_nonces w')" "set (w_signals w) \<subseteq> set (w_signals w')"
    by (simp_all add: orch_step_def)
  fix k t assume "get_task k w = Some t"
  from get_task_evolved [OF s this] show "\<exists>t'. get_task k w' = Some t' \<and> task_evolves t t'" by blast
qed

lemma orch_step_ok: "orch_step w w' \<Longrightarrow> system_ok w \<Longrightarrow> system_ok w' \<and> grows w w'"
  using orch_step_schema [of w w'] orch_step_grows [of w w'] assigned_same_signals [of w w']
  by (simp add: system_ok_def) (simp add: orch_step_def)

lemma grows_append_tasks:
  assumes "w_tasks w' = w_tasks w @ ts" "w_nonces w' = w_nonces w" "w_signals w' = w_signals w"
  shows "grows w w'"
  using assms reflpD [OF task_evolves_refl]
  by (simp add: grows_def get_task_def row_get_append)

lemma plan_ok:
  assumes "create_plan collate now sid asset trig policy ctx rid corr caus w = Inr (pl, w')"
    and "valid_policy policy" and "fresh_supply w" and ok: "system_ok w"
  shows "system_ok w' \<and> grows w w'"
proof -
  have "\<exists>ts. w_tasks w' = w_tasks w @ ts \<and> w_nonces w' = w_nonces w \<and> w_signals w' = w_signals w"
    using assms(1)
  proof (cases rule: create_plan_inv)
    case (created run_id correlation p snap bctx)
    from write_plan_tables [OF created(8)] show ?thesis by auto
  qed simp
  then have g: "grows w w'" "w_signals w' = w_signals w" using grows_append_tasks by blast+
  have "schema_ok w'"
    using create_plan_keeps_schema [OF assms(1)] ok assms(2,3) by (simp add: system_ok_def)
  with assigned_same_signals [OF _ g] ok g(1) show ?thesis by (simp add: system_ok_def)
qed

lemma ingest_grows:
  assumes acc: "acceptable now ttl e nonce w" and inn: "intake now e nonce body w w'" and ok: "schema_ok w"
  shows "grows w w'"
proof -
  let ?c = "completed_world now e w"
  note tabs = intake_tables [OF inn] and step = completed_world_step [OF acc ok]
  have "grows ?c w'"
    using reflpD [OF task_evolves_refl] step
    by (simp add: grows_def get_task_def tabs) (auto simp: orch_step_def)
  with orch_step_grows [OF step] show ?thesis by (rule grows_trans)
qed

lemma ingest_assigned:
  assumes acc: "acceptable now ttl e nonce w" and inn: "intake now e nonce body w w'" and ok: "system_ok w"
  shows "signals_assigned w'"
  unfolding signals_assigned_def
proof (intro ballI allI impI)
  note tabs = intake_tables [OF inn] and sch = ok [unfolded system_ok_def, THEN conjunct1]
  note g = ingest_grows [OF acc inn sch]
  fix s k assume s: "s \<in> set (w_signals w')" "sg_task_id s = Some k"
  from s(1) consider "s \<in> set (w_signals w)" | "s = signal_of now e (body_sha256 body)" by (auto simp: tabs)
  then show "\<exists>t. get_task k w' = Some t \<and> t_status t = SIGNAL_RECEIVED \<and> t_agent_id t = sg_agent_id s
           \<and> sg_orchestration_run_id s = Some (t_orchestration_run_id t)
           \<and> t_snapshot_id t = sg_snapshot_id s \<and> t_asset t = sg_asset s"
  proof cases
    case 1
    then show ?thesis using assigned_grows [OF _ g] ok s(2) by (simp add: system_ok_def)
  next
    case 2
    then have k: "env_task_id e = Some k" using s(2) by simp
    from acceptable_task [OF acc k] obtain u where u: "get_task k w = Some u" "ingest_task e w = Some u"
      "t_agent_id u = env_agent_id e" "env_orchestration_run_id e = Some (t_orchestration_run_id u)"
      "t_snapshot_id u = env_snapshot_id e" "t_asset u = env_asset e" by metis
    have "get_task k w' = Some (received now u)"
      using u get_task_SomeD [OF u(1)] get_task_put_task [of k "received now u" w] inn
      by (simp add: intake_def get_task_def) (simp add: received_def)
    with u 2 show ?thesis by (simp add: received_def) (simp add: signal_of_def)
  qed
qed

lemma ingest_ok:
  assumes "ingest now ttl e nonce body rq w = Inr w'" and ok: "system_ok w"
  shows "system_ok w' \<and> grows w w'"
proof -
  have acc: "acceptable now ttl e nonce w" using assms(1) ingest_iff(1) by blast
  note inn = ingest_iff(2) [OF assms(1)] and sch = ok [unfolded system_ok_def, THEN conjunct1]
  show ?thesis
    using ingest_schema [OF acc inn sch] ingest_assigned [OF acc inn ok] ingest_grows [OF acc inn sch]
    by (simp add: system_ok_def)
qed

text \<open>Drawing an identifier and writing an audit row touch nothing the invariant is about.\<close>

lemma quiet_ok:
  assumes "orch_step w w1" "system_ok w" shows "system_ok w1" "grows w w1"
  using orch_step_ok [OF assms] by auto

lemma uuid4_step: "orch_step w (snd (uuid4 w))"
  by (simp add: uuid4_def orch_step_def runs_kept_refl tasks_evolve_refl states_ok_def)

lemma record_rejection_step: "orch_step w (record_rejection now rq code body ag w)"
  by (simp add: record_rejection_def orch_step_def runs_kept_refl tasks_evolve_refl states_ok_def)

lemma endpoint_ok:
  assumes "ingest_signal cfg get_secret parse db_up audit_up an inow rnow q w = (response, w')"
    and ok: "system_ok w"
  shows "system_ok w' \<and> grows w w'"
proof (cases "take_signal cfg get_secret parse db_up an inow (fst (uuid4 w)) q (snd (uuid4 w))")
  case (Inr a)
  obtain e w2 where a: "a = (e, w2)" by fastforce
  with Inr assms(1) have w': "w' = w2" by (simp add: ingest_signal_def split_beta)
  from take_signal_accepts [OF Inr [unfolded a]] obtain nonce body where
    "ingest inow (hs_max_signal_ttl_seconds cfg) e nonce body (fst (uuid4 w)) (snd (uuid4 w)) = Inr w2" by blast
  from ingest_ok [OF this quiet_ok(1) [OF uuid4_step ok]] quiet_ok(2) [OF uuid4_step ok] w' grows_trans
  show ?thesis by blast
next
  case (Inl a)
  have "orch_step w w'"
    using Inl assms(1) uuid4_step [of w] orch_step_trans [OF uuid4_step record_rejection_step]
    by (auto simp: ingest_signal_def split_beta split: prod.splits hub_error.splits if_splits)
  then show ?thesis using orch_step_ok ok by blast
qed

text \<open>Steps that leave tasks, nonces and signals alone need to keep the schema only.\<close>

lemma other_tables_ok:
  assumes "system_ok w" and "schema_ok w'"
    and "w_tasks w' = w_tasks w" "w_nonces w' = w_nonces w" "w_signals w' = w_signals w"
  shows "system_ok w' \<and> grows w w'"
proof -
  have g: "grows w w'" using grows_append_tasks [of w' w "[]"] assms(3-5) by simp
  with assigned_same_signals [OF _ g assms(5)] assms(1,2) show ?thesis by (simp add: system_ok_def)
qed

lemma sync_ok:
  assumes "sync_registry entries w = Some (n, w')" and "system_ok w"
  shows "system_ok w' \<and> grows w w'"
proof -
  have "schema_ok w" using assms(2) by (simp add: system_ok_def)
  note s = sync_schema [OF assms(1) this]
  have "w_tasks w' = w_tasks w" "w_nonces w' = w_nonces w" "w_signals w' = w_signals w"
    by (subst s(2), simp)+
  with other_tables_ok [OF assms(2) s(1)] show ?thesis by blast
qed

lemma snapshot_ok:
  assumes "add_snapshot s w = Some w'" and "system_ok w"
  shows "system_ok w' \<and> grows w w'"
proof -
  have "schema_ok w" using assms(2) by (simp add: system_ok_def)
  note a = add_snapshot_schema [OF assms(1) this]
  with other_tables_ok [OF assms(2) a(1)] show ?thesis by blast
qed

lemma notify_ok:
  assumes "outbox_step w w'" and "system_ok w"
  shows "system_ok w' \<and> grows w w'"
proof -
  have "schema_ok w'" using outbox_step_ok [OF assms(1)] assms(2) by (simp add: system_ok_def)
  with other_tables_ok [OF assms(2)] outbox_step_frame [OF assms(1)] show ?thesis by blast
qed

lemma system_step_ok:
  assumes "system_step w w'" and ok: "system_ok w"
  shows "system_ok w' \<and> grows w w'"
proof -
  have sch: "schema_ok w" and sc: "signals_complete w"
    using ok signals_assigned_complete by (simp_all add: system_ok_def)
  note orch = orch_step_ok [OF _ ok]
  from assms(1) show ?thesis
  proof cases
    case plan
    then show ?thesis using plan_ok ok by blast
  next
    case claim
    then show ?thesis using claim_facts(1) sch by (intro orch) blast
  next
    case result
    then show ?thesis using record_result_step [OF sch] by (intro orch) simp
  next
    case expire
    then show ?thesis using expire_facts(1) sch by (intro orch) blast
  next
    case (repair n now locked)
    then show ?thesis
      using reconcile_facts [OF sch sc, of n now locked "\<lambda>_. 0"] by (intro orch) (metis prod.inject)
  next
    case decide
    then show ?thesis using evaluate_orch_step(1) sch by (intro orch) blast
  next
    case request
    then show ?thesis using endpoint_ok ok by blast
  next
    case probe
    then show ?thesis using probe_step by (intro orch) blast
  next
    case sync
    then show ?thesis using sync_ok ok by blast
  next
    case snapshot
    then show ?thesis using snapshot_ok ok by blast
  next
    case notify
    then show ?thesis using notify_ok ok by blast
  qed
qed

lemma execution_ok:
  assumes "execution w w'" and "system_ok w"
  shows "system_ok w' \<and> grows w w'"
  using assms
proof (induction rule: rtranclp_induct)
  case base
  then show ?case by (simp add: grows_refl)
next
  case (step w1 w2)
  then show ?case using system_step_ok [OF step(2)] grows_trans by blast
qed

lemma auth_of_Some:
  "auth_of q = Some a \<Longrightarrow> hq_agent_id q = Some (ah_agent_id a) \<and> hq_nonce q = Some (ah_nonce a)"
  by (auto simp: auth_of_def split: option.splits)

lemma accepted_intake:
  assumes "ingest_signal cfg get_secret parse db_up audit_up an inow rnow q w = (Accepted202 rq m, w')"
  obtains a e body where "auth_of q = Some a" "env_agent_id e = ah_agent_id a" "env_message_id e = m"
    "ingest inow (hs_max_signal_ttl_seconds cfg) e (ah_nonce a) body rq (snd (uuid4 w)) = Inr w'"
proof -
  from assms obtain e where take: "take_signal cfg get_secret parse db_up an inow rq q (snd (uuid4 w)) = Inr (e, w')"
    and m: "env_message_id e = m"
    by (auto simp: ingest_signal_def split_beta split: sum.splits hub_error.splits prod.splits)
  from take_signal_accepts [OF take] m that show ?thesis by blast
qed

section \<open>Properties of executions\<close>

lemma registry_ok: "system_ok registry_world" "system_ok waiting_world"
  using registry_schema(1) waiting_ok(1)
  by (simp_all add: system_ok_def signals_assigned_def sample_worlds waiting_world_def running_world_def)

text \<open>What the hub has accepted it does not accept again, in any database that kept the nonces and signals.\<close>

lemma accepted_not_again:
  assumes "ingest_signal cfg get_secret parse db_up audit_up an inow rnow q w = (Accepted202 rq m, w1)"
    and "set (w_nonces w1) \<subseteq> set (w_nonces w2)" "set (w_signals w1) \<subseteq> set (w_signals w2)"
    and again: "fst (ingest_signal cfg2 get_secret2 parse2 db_up2 audit_up2 an2 inow2 rnow2 q2 w2) = Accepted202 rq2 n"
  shows "n \<noteq> m \<and> \<not> (hq_agent_id q2 = hq_agent_id q \<and> hq_nonce q2 = hq_nonce q)"
proof (rule ccontr)
  assume "\<not> (n \<noteq> m \<and> \<not> (hq_agent_id q2 = hq_agent_id q \<and> hq_nonce q2 = hq_nonce q))"
  then have same: "n = m \<or> (hq_agent_id q2 = hq_agent_id q \<and> hq_nonce q2 = hq_nonce q)" by blast
  obtain a e body where first: "auth_of q = Some a" "env_agent_id e = ah_agent_id a" "env_message_id e = m"
    "ingest inow (hs_max_signal_ttl_seconds cfg) e (ah_nonce a) body rq (snd (uuid4 w)) = Inr w1"
    by (rule accepted_intake [OF assms(1)])
  let ?r = "ingest_signal cfg2 get_secret2 parse2 db_up2 audit_up2 an2 inow2 rnow2 q2 w2"
  have "?r = (Accepted202 rq2 n, snd ?r)" using again by (simp add: prod_eq_iff)
  from accepted_intake [OF this] obtain a2 e2 body2 where second: "auth_of q2 = Some a2"
    "env_agent_id e2 = ah_agent_id a2" "env_message_id e2 = n"
    "ingest inow2 (hs_max_signal_ttl_seconds cfg2) e2 (ah_nonce a2) body2 rq2 (snd (uuid4 w2)) = Inr (snd ?r)" by metis
  have kept: "set (w_nonces w1) \<subseteq> set (w_nonces (snd (uuid4 w2)))" "set (w_signals w1) \<subseteq> set (w_signals (snd (uuid4 w2)))"
    using assms(2,3) by (simp_all add: uuid4_def)
  from same auth_of_Some [OF first(1)] auth_of_Some [OF second(1)] first(2,3) second(2,3)
  have "(env_agent_id e2 = env_agent_id e \<and> ah_nonce a2 = ah_nonce a) \<or> env_message_id e2 = env_message_id e
    \<or> (env_task_id e2 = env_task_id e \<and> env_task_id e \<noteq> None)" by auto
  from ingest_once [OF first(4) kept this] second(4) show False by (metis Inl_Inr_False)
qed

text \<open>C2 End-to-end protection against replay: once the hub has answered 202 to a request, then
  after any further execution it answers 202 neither to a request with the same agent and nonce
  headers nor to one with the same message identifier, whatever the configuration, the keys,
  the clock or the body.\<close>

theorem accepted_once:
  assumes "system_ok w"
    and "ingest_signal cfg get_secret parse db_up audit_up an inow rnow q w = (Accepted202 rq m, w1)"
    and "execution w1 w2"
  shows "fst (ingest_signal cfg2 get_secret2 parse2 db_up2 audit_up2 an2 inow2 rnow2 q2 w2) \<noteq> Accepted202 rq2 m
     \<and> (hq_agent_id q2 = hq_agent_id q \<and> hq_nonce q2 = hq_nonce q \<longrightarrow>
        fst (ingest_signal cfg2 get_secret2 parse2 db_up2 audit_up2 an2 inow2 rnow2 q2 w2) \<noteq> Accepted202 rq2 m2)"
proof -
  have "system_ok w1" using endpoint_ok [OF assms(2,1)] by simp
  then have "grows w1 w2" using execution_ok [OF assms(3)] by blast
  then have "set (w_nonces w1) \<subseteq> set (w_nonces w2)" "set (w_signals w1) \<subseteq> set (w_signals w2)"
    by (simp_all add: grows_def)
  note no = accepted_not_again [OF assms(2) this]
  show ?thesis
  proof (intro conjI impI notI)
    assume "fst (ingest_signal cfg2 get_secret2 parse2 db_up2 audit_up2 an2 inow2 rnow2 q2 w2) = Accepted202 rq2 m"
    from no [OF this] show False by simp
  next
    assume same: "hq_agent_id q2 = hq_agent_id q \<and> hq_nonce q2 = hq_nonce q"
      and "fst (ingest_signal cfg2 get_secret2 parse2 db_up2 audit_up2 an2 inow2 rnow2 q2 w2) = Accepted202 rq2 m2"
    from no [OF this(2)] same show False by simp
  qed
qed

theorem accepted_once_witness:
  "\<exists>w1. fst (ingest_signal sample_settings (\<lambda>_ _. Inr (Some ''secret'')) (\<lambda>_. Some sample_raw) True True
      0 (seconds 20) (seconds 20) sample_request waiting_world) = Accepted202 1000 500
     \<and> fst (ingest_signal sample_settings (\<lambda>_ _. Inr (Some ''secret'')) (\<lambda>_. Some sample_raw) True True
      0 (seconds 21) (seconds 21) sample_request w1) \<noteq> Accepted202 1001 501"
proof -
  obtain w1 where w1: "ingest_signal sample_settings (\<lambda>_ _. Inr (Some ''secret'')) (\<lambda>_. Some sample_raw) True True
      0 (seconds 20) (seconds 20) sample_request waiting_world = (Accepted202 1000 500, w1)"
    using sample_request_accepted by blast
  from accepted_once [where ?q2.0 = sample_request, OF registry_ok(2) this rtranclp.rtrancl_refl] w1
  show ?thesis by (intro exI [of _ w1]) simp
qed

end
