(* ===== verification/Agent_Sdk.thy ===== *)
theory Agent_Sdk
  imports Hub_Api
begin

text \<open>
  The client library of an agent: \<open>src/tomiris_agent_sdk/signing.py\<close>, \<open>client.py\<close> and the sinks of
  \<open>src/tomiris_agent_runtime/sink.py\<close>.  The clock reading and the nonce of
  \<open>build_signed_headers\<close>, the JSON encoder and the HTTP library are arguments.
\<close>

definition build_signed_headers ::
    "string \<Rightarrow> string \<Rightarrow> string \<Rightarrow> string \<Rightarrow> string \<Rightarrow> string \<Rightarrow> int \<Rightarrow> string \<Rightarrow> auth_headers" where
  "build_signed_headers agent_id key_id secret http_method path body timestamp nonce =
     (let canonical = canonical_request http_method path agent_id (int_str timestamp) nonce key_id (body_sha256 body)
      in \<lparr>ah_agent_id = agent_id, ah_timestamp = int_str timestamp, ah_nonce = nonce, ah_key_id = key_id,
          ah_signature = sign_hmac secret canonical\<rparr>)"

record hub_client =
  hc_base_url :: string
  hc_agent_id :: string
  hc_key_id :: string
  hc_secret :: string

definition new_hub_client :: "string \<Rightarrow> string \<Rightarrow> string \<Rightarrow> string \<Rightarrow> hub_client" where
  "new_hub_client base_url agent_id key_id secret =
     \<lparr>hc_base_url = rstrip_slash base_url, hc_agent_id = agent_id, hc_key_id = key_id, hc_secret = secret\<rparr>"

definition send_signal ::
    "hub_client \<Rightarrow> (agent_signal \<Rightarrow> string) \<Rightarrow>
     (string \<Rightarrow> string \<Rightarrow> string \<Rightarrow> auth_headers \<Rightarrow> 'e + int) \<Rightarrow> int \<Rightarrow> string \<Rightarrow> agent_signal \<Rightarrow> 'e + int" where
  "send_signal cl dump_json post timestamp nonce signal =
     (let path = ''/v1/signals'';
          body = dump_json signal;
          headers = build_signed_headers (hc_agent_id cl) (hc_key_id cl) (hc_secret cl) ''POST'' path body
                      timestamp nonce
      in post (hc_base_url cl) path body headers)"

text \<open>\<open>HubSignalSink\<close> and \<open>NullSignalSink\<close>\<close>

definition hub_sink_send ::
    "hub_client \<Rightarrow> (agent_signal \<Rightarrow> string) \<Rightarrow>
     (string \<Rightarrow> string \<Rightarrow> string \<Rightarrow> auth_headers \<Rightarrow> 'e + int) \<Rightarrow> int \<Rightarrow> string \<Rightarrow> agent_signal \<Rightarrow> 'e + bool" where
  "hub_sink_send cl dump_json post timestamp nonce signal =
     map_sum id (\<lambda>status. status = 202) (send_signal cl dump_json post timestamp nonce signal)"

definition null_sink_send :: "agent_signal \<Rightarrow> 'e + bool" where
  "null_sink_send signal = Inr True"

lemma hub_sink_202:
  "hub_sink_send cl dump_json post timestamp nonce signal = Inr b \<longleftrightarrow>
     (\<exists>status. send_signal cl dump_json post timestamp nonce signal = Inr status \<and> b = (status = 202))"
  by (cases "send_signal cl dump_json post timestamp nonce signal") (auto simp: hub_sink_send_def)

section \<open>Properties\<close>

lemma signed_headers_verify:
  assumes "agent_id_pattern agent_id" and "key_id_pattern key_id" and "nonce_pattern nonce"
    and "from_timestamp timestamp = Some t" and "0 \<le> skew" and "skew \<le> 2 ^ 32"
    and "now - t \<le> seconds skew" and "t - now \<le> seconds skew"
    and "get_secret agent_id key_id = Inr (Some secret)"
  shows "hub_verify get_secret now skew m path
           (build_signed_headers agent_id key_id secret m path body timestamp nonce) body = Inr t"
proof -
  have s: "\<bar>skew\<bar> \<le> 2 ^ 32" using assms(5,6) by simp
  have "\<bar>timestamp\<bar> < 10 ^ 20" using assms(4) by (auto simp: from_timestamp_def split: if_splits)
  with assms show ?thesis
    by (simp add: hub_verify_iff [OF s] build_signed_headers_def Let_def well_formed_headers_def
        int_str_pattern int_str_value sign_shape)
qed

text \<open>What the agent library signs, the hub accepts: for an agent and key identifier of the
  documented shape, a well-formed nonce and a timestamp within the allowed skew of the hub's
  clock, the headers that \<open>build_signed_headers\<close> makes verify for the same method, path and
  body under every secret provider that knows the agent's secret.\<close>

theorem signed_headers_roundtrip:
  assumes "agent_id_pattern agent_id" and "key_id_pattern key_id" and "nonce_pattern nonce"
    and "from_timestamp timestamp = Some t" and "0 \<le> skew" and "skew \<le> 2 ^ 32"
    and "now - t \<le> seconds skew" and "t - now \<le> seconds skew"
    and "get_secret agent_id key_id = Inr (Some secret)"
  shows "hub_verify get_secret now skew m path
           (build_signed_headers agent_id key_id secret m path body timestamp nonce) body = Inr t"
  using assms by (rule signed_headers_verify)

theorem signed_headers_roundtrip_witness:
  "hub_verify (\<lambda>_ _. Inr (Some ''s'')) 0 300 ''POST'' ''/v1/signals''
     (build_signed_headers ''AGENT_1'' ''k'' ''s'' ''POST'' ''/v1/signals'' [] 20 (replicate 22 (CHR ''a''))) []
   = Inr (seconds 20)"
proof (rule signed_headers_roundtrip)
  show "agent_id_pattern ''AGENT_1''" "key_id_pattern ''k''" "nonce_pattern (replicate 22 (CHR ''a''))"
    by (simp_all add: agent_id_pattern_def key_id_pattern_def nonce_pattern_def is_upper_def is_lower_def
        is_digit_def list_all_iff)
qed (simp_all add: from_timestamp_def)

end
