(* ===== verification/Float64.thy ===== *)
theory Float64
  imports Binary64
begin

text \<open>
  Python's \<open>float\<close> with its infinities and NaN: finite values are rationals, each operation is
  the exact operation rounded by \<open>rnd64\<close>, and a result out of range becomes an infinity.
  Comparisons, \<open>max\<close> and \<open>min\<close> follow Python (a comparison with NaN is false and the first
  argument is kept), division by zero raises, \<open>py_sum\<close> is the compensated summation of
  \<open>sum()\<close> in Python 3.12.  Signed zeros are identified.
\<close>

section \<open>Values and operations\<close>

datatype fl = Fin rat | PInf | NInf | NaN

definition fl_of :: "rat \<Rightarrow> fl" where
  "fl_of q = (let r = rnd64 q in if fits64 r then Fin r else if 0 < q then PInf else NInf)"

text \<open>For evaluation by rewriting.\<close>

lemma fits64_code [code]: "fits64 q \<longleftrightarrow> \<bar>q\<bar> < of_int ((2 ^ 32) ^ 32)"
  by (simp add: fits64_def)

definition finite_fl :: "fl \<Rightarrow> bool" where
  "finite_fl x \<longleftrightarrow> (case x of Fin _ \<Rightarrow> True | _ \<Rightarrow> False)"

fun fl_neg :: "fl \<Rightarrow> fl" where
  "fl_neg (Fin x) = Fin (- x)"
| "fl_neg PInf = NInf"
| "fl_neg NInf = PInf"
| "fl_neg NaN = NaN"

fun fl_add :: "fl \<Rightarrow> fl \<Rightarrow> fl" where
  "fl_add (Fin x) (Fin y) = fl_of (x + y)"
| "fl_add NaN _ = NaN"
| "fl_add _ NaN = NaN"
| "fl_add PInf NInf = NaN"
| "fl_add NInf PInf = NaN"
| "fl_add PInf _ = PInf"
| "fl_add _ PInf = PInf"
| "fl_add NInf _ = NInf"
| "fl_add _ NInf = NInf"

definition fl_sub :: "fl \<Rightarrow> fl \<Rightarrow> fl" where
  "fl_sub x y = fl_add x (fl_neg y)"

definition inf_times :: "bool \<Rightarrow> rat \<Rightarrow> fl" where
  "inf_times positive y =
     (if y = 0 then NaN else if (0 < y) = positive then PInf else NInf)"

fun fl_mul :: "fl \<Rightarrow> fl \<Rightarrow> fl" where
  "fl_mul (Fin x) (Fin y) = fl_of (x * y)"
| "fl_mul NaN _ = NaN"
| "fl_mul _ NaN = NaN"
| "fl_mul PInf (Fin y) = inf_times True y"
| "fl_mul NInf (Fin y) = inf_times False y"
| "fl_mul (Fin x) PInf = inf_times True x"
| "fl_mul (Fin x) NInf = inf_times False x"
| "fl_mul PInf PInf = PInf"
| "fl_mul NInf NInf = PInf"
| "fl_mul PInf NInf = NInf"
| "fl_mul NInf PInf = NInf"

text \<open>\<open>None\<close> is \<open>ZeroDivisionError\<close>.\<close>

fun fl_div :: "fl \<Rightarrow> fl \<Rightarrow> fl option" where
  "fl_div x (Fin y) =
     (if y = 0 then None
      else Some (case x of Fin x \<Rightarrow> fl_of (x / y) | PInf \<Rightarrow> inf_times True y
                 | NInf \<Rightarrow> inf_times False y | NaN \<Rightarrow> NaN))"
| "fl_div x NaN = Some NaN"
| "fl_div (Fin x) _ = Some (Fin 0)"
| "fl_div _ _ = Some NaN"

fun fl_abs :: "fl \<Rightarrow> fl" where
  "fl_abs (Fin x) = Fin \<bar>x\<bar>"
| "fl_abs NaN = NaN"
| "fl_abs _ = PInf"

fun fl_less :: "fl \<Rightarrow> fl \<Rightarrow> bool" where
  "fl_less (Fin x) (Fin y) \<longleftrightarrow> x < y"
| "fl_less NaN _ \<longleftrightarrow> False"
| "fl_less _ NaN \<longleftrightarrow> False"
| "fl_less x PInf \<longleftrightarrow> x \<noteq> PInf"
| "fl_less NInf y \<longleftrightarrow> y \<noteq> NInf"
| "fl_less _ _ \<longleftrightarrow> False"

definition fl_eq :: "fl \<Rightarrow> fl \<Rightarrow> bool" where
  "fl_eq x y \<longleftrightarrow> x = y \<and> x \<noteq> NaN"

definition fl_le :: "fl \<Rightarrow> fl \<Rightarrow> bool" where
  "fl_le x y \<longleftrightarrow> fl_less x y \<or> fl_eq x y"

definition py_max :: "fl \<Rightarrow> fl \<Rightarrow> fl" where
  "py_max x y = (if fl_less x y then y else x)"

definition py_min :: "fl \<Rightarrow> fl \<Rightarrow> fl" where
  "py_min x y = (if fl_less y x then y else x)"

definition max_list :: "fl \<Rightarrow> fl list \<Rightarrow> fl" where
  "max_list x xs = foldl py_max x xs"

definition min_list :: "fl \<Rightarrow> fl list \<Rightarrow> fl" where
  "min_list x xs = foldl py_min x xs"

text \<open>\<open>sum(xs)\<close> of floats: Neumaier's compensated summation, started at the first element.\<close>

definition sum_step :: "fl \<times> fl \<Rightarrow> fl \<Rightarrow> fl \<times> fl" where
  "sum_step acc x =
     (case acc of (s, c) \<Rightarrow>
        let t = fl_add s x
        in (t, fl_add c (if fl_le (fl_abs x) (fl_abs s) then fl_add (fl_sub s t) x
                         else fl_add (fl_sub x t) s)))"

definition sum_end :: "fl \<times> fl \<Rightarrow> fl" where
  "sum_end acc = (case acc of (s, c) \<Rightarrow> if c \<noteq> Fin 0 \<and> finite_fl c then fl_add s c else s)"

definition py_sum :: "fl list \<Rightarrow> fl" where
  "py_sum xs = (case xs of [] \<Rightarrow> Fin 0 | x # xs \<Rightarrow> sum_end (foldl sum_step (x, Fin 0) xs))"

section \<open>Rounding errors\<close>

text \<open>Every rational is at most half a unit in the last place away from its rounding.\<close>

lemma rnd64_half_ulp: "\<bar>rnd64 q - q\<bar> \<le> 2 powi exp64 q / 2"
proof (cases "q = 0")
  case False
  let ?u = "(2::rat) powi exp64 q"
  have u: "0 < ?u" by simp
  have "\<bar>of_int (round_half_even (q / ?u)) - q / ?u\<bar> \<le> 1 / 2"
    using rhe_lower [of "q / ?u"] rhe_upper [of "q / ?u"] unfolding abs_le_iff by linarith
  then have "\<bar>of_int (round_half_even (q / ?u)) - q / ?u\<bar> * ?u \<le> 1 / 2 * ?u"
    by (rule mult_right_mono) simp
  moreover have "(of_int (round_half_even (q / ?u)) - q / ?u) * ?u = of_int (round_half_even (q / ?u)) * ?u - q"
    using u by (simp add: left_diff_distrib)
  then have "\<bar>of_int (round_half_even (q / ?u)) - q / ?u\<bar> * ?u = \<bar>of_int (round_half_even (q / ?u)) * ?u - q\<bar>"
    using u by (metis abs_mult abs_of_pos)
  ultimately show ?thesis using False by (simp add: rnd64_def)
qed simp

definition eps64 :: rat where "eps64 = 2 powi (- 53)"
definition half_min64 :: rat where "half_min64 = 2 powi (- 1075)"

lemma eps64_pos: "0 < eps64" and half_min64_pos: "0 < half_min64"
  by (simp_all only: eps64_def half_min64_def powi_pos)

lemma rnd64_error: "\<bar>rnd64 q - q\<bar> \<le> max (\<bar>q\<bar> * eps64) half_min64"
proof (cases "q = 0")
  case False
  have b: "2 powi ilog2 \<bar>q\<bar> \<le> \<bar>q\<bar>" by (rule ilog2_bounds) (use False in simp)
  have half: "(2::rat) powi exp64 q / 2 = 2 powi (exp64 q - 1)" by (simp add: power_int_diff)
  have "(2::rat) powi (exp64 q - 1) \<le> max (\<bar>q\<bar> * eps64) half_min64"
  proof (cases "- 1074 \<le> ilog2 \<bar>q\<bar> - 52")
    case True
    then have "exp64 q - 1 = ilog2 \<bar>q\<bar> + (- 53)" by (simp add: exp64_def)
    then have "(2::rat) powi (exp64 q - 1) = 2 powi ilog2 \<bar>q\<bar> * eps64" by (simp only: powi_add eps64_def)
    also have "\<dots> \<le> \<bar>q\<bar> * eps64" by (rule mult_right_mono [OF b]) (use eps64_pos in simp)
    finally show ?thesis by simp
  next
    case False
    then have "exp64 q - 1 = - 1075" by (simp add: exp64_def)
    then have "(2::rat) powi (exp64 q - 1) = half_min64" by (simp only: half_min64_def)
    then show ?thesis by simp
  qed
  with rnd64_half_ulp [of q] half show ?thesis by linarith
qed (use half_min64_pos in simp)

lemma rnd64_repr: "repr64 (rnd64 q)"
proof (cases "q = 0")
  case True
  then show ?thesis using repr64_of_int [of 0] by simp
next
  case False
  let ?u = "(2::rat) powi exp64 q"
  have "\<bar>q\<bar> / ?u \<le> of_int (2 ^ 53)"
    using scaled_upper [OF False] by (simp add: powi_add field_simps)
  then have "q / ?u \<le> of_int (2 ^ 53)" "- (q / ?u) \<le> of_int (2 ^ 53)"
    by (auto simp: abs_le_iff divide_le_eq field_simps simp flip: abs_divide)
  then have "round_half_even (q / ?u) \<le> 2 ^ 53" "- (2 ^ 53) \<le> round_half_even (q / ?u)"
    by (auto intro!: rhe_le_int rhe_ge_int)
  then have "\<bar>round_half_even (q / ?u)\<bar> \<le> 2 ^ 53" by simp
  with False show ?thesis
    by (intro repr64I [of "round_half_even (q / ?u)" "exp64 q"]) (auto simp: rnd64_def exp64_def)
qed

text \<open>Representable numbers are the multiples of \<open>2 powi - 1074\<close> that fit in 53 bits.\<close>

lemma repr64_unit:
  assumes "repr64 q"
  shows "\<exists>k. q = of_int k * (2 * half_min64)"
proof -
  obtain m e where e: "- 1074 \<le> e" and q: "q = of_int m * 2 powi e" using assms by (auto simp: repr64_def)
  have "(2::rat) powi e = 2 powi (e + 1074) * 2 powi (- 1074)"
    unfolding powi_add [symmetric] by simp
  also have "(2::rat) powi (e + 1074) = of_int (2 ^ nat (e + 1074))" using e by (intro powi_int) simp
  also have "(2::rat) powi (- 1074) = 2 * half_min64"
    using powi_add [of 1 "- 1075"] unfolding half_min64_def by simp
  finally have "q = of_int (m * 2 ^ nat (e + 1074)) * (2 * half_min64)" by (simp add: q)
  then show ?thesis by blast
qed

lemma unit_repr64: "\<bar>k\<bar> \<le> 2 ^ 53 \<Longrightarrow> repr64 (of_int k * (2 * half_min64))"
  using powi_add [of 1 "- 1075"] by (intro repr64I [of k "- 1074"]) (simp_all add: half_min64_def)

text \<open>A difference of representable numbers is exact when it is small, and otherwise precise.\<close>

lemma repr64_diff_error:
  assumes "repr64 x" and "repr64 y"
  shows "\<bar>rnd64 (x - y) - (x - y)\<bar> \<le> \<bar>x - y\<bar> * eps64"
proof -
  obtain i j where x: "x = of_int i * (2 * half_min64)" and y: "y = of_int j * (2 * half_min64)"
    using repr64_unit [OF assms(1)] repr64_unit [OF assms(2)] by blast
  have d: "x - y = of_int (i - j) * (2 * half_min64)" by (simp add: x y left_diff_distrib)
  show ?thesis
  proof (cases "\<bar>i - j\<bar> \<le> 2 ^ 53")
    case True
    then have "rnd64 (x - y) = x - y" unfolding d by (rule rnd64_exact [OF unit_repr64])
    then show ?thesis using eps64_pos by (simp add: mult_nonneg_nonneg)
  next
    case False
    then have "(of_int (2 ^ 53) :: rat) \<le> of_int \<bar>i - j\<bar>" by (intro of_int_le_iff [THEN iffD2]) simp
    then have "(2 ^ 53 :: rat) * (2 * half_min64) \<le> of_int \<bar>i - j\<bar> * (2 * half_min64)"
      using half_min64_pos by (intro mult_right_mono) simp_all
    also have "\<dots> = \<bar>x - y\<bar>" unfolding d abs_mult using half_min64_pos by simp
    finally have "(2 ^ 53 :: rat) * (2 * half_min64) * eps64 \<le> \<bar>x - y\<bar> * eps64"
      using eps64_pos by (intro mult_right_mono) simp_all
    moreover have "(2 ^ 53 :: rat) * eps64 = 1" by (simp add: eps64_def power_int_def power_divide)
    then have "(2 ^ 53 :: rat) * (2 * half_min64) * eps64 = 2 * half_min64" by (simp add: mult.commute mult.left_commute)
    ultimately have "half_min64 \<le> \<bar>x - y\<bar> * eps64" using half_min64_pos by linarith
    with rnd64_error [of "x - y"] show ?thesis by simp
  qed
qed

text \<open>A step towards a value by a proper fraction of the distance does not overshoot it.\<close>

lemma step_towards:
  assumes "repr64 x" and "repr64 y" and "x \<le> y" and "0 \<le> m" and "m \<le> 11 / 16"
  shows "x \<le> rnd64 (rnd64 (rnd64 (y - x) * m) + x)" and "rnd64 (rnd64 (rnd64 (y - x) * m) + x) \<le> y"
proof -
  let ?d = "rnd64 (y - x)" and ?p = "rnd64 (rnd64 (y - x) * m)"
  have d: "0 \<le> ?d" using assms(3) by (simp add: rnd64_nonneg)
  then have p: "0 \<le> ?p" using assms(4) by (simp add: rnd64_nonneg)
  then show "x \<le> rnd64 (?p + x)" using assms(1) by (intro rnd64_ge) simp_all
  have eps: "eps64 \<le> 1 / 64" by (simp add: eps64_def power_int_def power_divide)
  have up: "?d \<le> (y - x) * (1 + eps64)"
    using repr64_diff_error [OF assms(2,1)] assms(3) by (simp add: algebra_simps abs_le_iff)
  have "?p \<le> y - x"
  proof (cases "repr64 (y - x)")
    case True
    then have "?d = y - x" by (rule rnd64_exact)
    with True assms(3-5) show ?thesis by (intro rnd64_le) (auto simp: mult_left_le)
  next
    case False
    obtain i j where x: "x = of_int i * (2 * half_min64)" and y: "y = of_int j * (2 * half_min64)"
      using repr64_unit [OF assms(1)] repr64_unit [OF assms(2)] by blast
    have yx: "y - x = of_int (j - i) * (2 * half_min64)" by (simp add: x y left_diff_distrib)
    with False unit_repr64 have "2 ^ 53 < \<bar>j - i\<bar>" by (metis not_le)
    moreover have "0 \<le> (of_int (j - i) :: rat)"
      using assms(3) half_min64_pos yx by (metis diff_ge_0_iff_ge mult_pos_pos zero_le_mult_iff
          zero_less_numeral not_le)
    then have "0 \<le> j - i" by (simp only: of_int_0_le_iff)
    ultimately have "(32 :: rat) \<le> of_int (j - i)" by simp
    then have "32 * (2 * half_min64) \<le> y - x"
      unfolding yx using half_min64_pos by (intro mult_right_mono) simp_all
    moreover have "0 < half_min64" by (rule half_min64_pos)
    ultimately have small: "half_min64 \<le> (y - x) / 64" by simp
    have "?d * m \<le> (y - x) * (1 + eps64) * (11 / 16)"
      using up assms(3-5) eps64_pos by (intro mult_mono) auto
    also have "\<dots> \<le> (y - x) * (1 + 1 / 64) * (11 / 16)"
      using eps assms(3) by (intro mult_right_mono mult_left_mono) simp_all
    finally have dm: "?d * m \<le> (y - x) * (715 / 1024)" by simp
    have "\<bar>?p - ?d * m\<bar> \<le> max (\<bar>?d * m\<bar> * eps64) half_min64" by (rule rnd64_error)
    also have "\<dots> \<le> (y - x) / 64"
    proof (rule max.boundedI)
      have "\<bar>?d * m\<bar> * eps64 \<le> (y - x) * (1 / 64)"
        using d assms(3,4) dm eps eps64_pos by (intro mult_mono) auto
      then show "\<bar>?d * m\<bar> * eps64 \<le> (y - x) / 64" by simp
    qed (rule small)
    finally have "?p - ?d * m \<le> (y - x) / 64" unfolding abs_le_iff by blast
    moreover have "a \<le> t" if "a - b \<le> t / 64" "b \<le> t * (715 / 1024)" "0 \<le> t" for a b t :: rat
      using that by simp
    ultimately show ?thesis using dm assms(3) by (metis diff_ge_0_iff_ge)
  qed
  then show "rnd64 (?p + x) \<le> y" using assms(2) by (intro rnd64_le) simp_all
qed

lemma repr64_neg: "repr64 q \<Longrightarrow> repr64 (- q)"
  unfolding repr64_def
proof (elim exE conjE)
  fix m e :: int assume "\<bar>m\<bar> \<le> 2 ^ 53" "- 1074 \<le> e" "q = of_int m * 2 powi e"
  then show "\<exists>m e. \<bar>m\<bar> \<le> 2 ^ 53 \<and> - 1074 \<le> e \<and> - q = of_int m * 2 powi e"
    by (intro exI [of _ "- m"] exI [of _ e]) simp
qed

text \<open>The same downwards, so that the step stays between the two in either case.\<close>

lemma step_between:
  assumes "repr64 x" and "repr64 y" and "0 \<le> m" and "m \<le> 11 / 16"
  shows "min x y \<le> rnd64 (rnd64 (rnd64 (y - x) * m) + x)"
    and "rnd64 (rnd64 (rnd64 (y - x) * m) + x) \<le> max x y"
proof -
  have "min x y \<le> rnd64 (rnd64 (rnd64 (y - x) * m) + x) \<and> rnd64 (rnd64 (rnd64 (y - x) * m) + x) \<le> max x y"
  proof (cases "x \<le> y")
    case True
    with step_towards [OF assms(1,2) True assms(3,4)] show ?thesis by simp
  next
    case False
    have "rnd64 (y - x) = - rnd64 (- y - - x)" using rnd64_uminus [of "x - y"] by simp
    then have "rnd64 (rnd64 (y - x) * m) + x = - (rnd64 (rnd64 (- y - - x) * m) + - x)"
      by (simp add: rnd64_uminus)
    then have "rnd64 (rnd64 (rnd64 (y - x) * m) + x) = - rnd64 (rnd64 (rnd64 (- y - - x) * m) + - x)"
      by (simp only: rnd64_uminus)
    with step_towards [of "- x" "- y" m] assms False show ?thesis by (simp add: repr64_neg)
  qed
  then show "min x y \<le> rnd64 (rnd64 (rnd64 (y - x) * m) + x)"
    and "rnd64 (rnd64 (rnd64 (y - x) * m) + x) \<le> max x y" by blast+
qed

section \<open>Finite results\<close>

lemma rnd64_abs_le: "\<bar>q\<bar> \<le> b \<Longrightarrow> repr64 b \<Longrightarrow> \<bar>rnd64 q\<bar> \<le> b"
  using rnd64_le [of q b] rnd64_ge [of "- b" q] repr64_neg [of b] by (simp add: abs_le_iff)

lemma repr64_powi: "- 1074 \<le> k \<Longrightarrow> repr64 (2 powi k)"
  by (rule repr64I [of 1 k]) simp_all

definition max_safe :: rat where "max_safe = 2 powi 1023"

lemma max_safe_pos: "0 < max_safe"
  by (simp only: max_safe_def powi_pos)

lemma repr64_max_safe: "repr64 max_safe"
  by (rule repr64I [of 1 1023]) (simp_all add: max_safe_def)

lemma fl_of_finite:
  assumes "\<bar>q\<bar> \<le> max_safe"
  shows "fl_of q = Fin (rnd64 q)"
proof -
  have "rnd64 q \<le> max_safe" "- max_safe \<le> rnd64 q"
    using assms repr64_max_safe repr64_neg [OF repr64_max_safe] by (auto intro!: rnd64_le rnd64_ge simp: abs_le_iff)
  moreover have "max_safe < 2 ^ 1024"
    using powi_strict [of 1023 1024] by (simp add: max_safe_def power_int_def)
  ultimately show ?thesis by (simp add: fl_of_def Let_def fits64_def abs_less_iff)
qed

lemma fl_of_repr: "repr64 q \<Longrightarrow> \<bar>q\<bar> \<le> max_safe \<Longrightarrow> fl_of q = Fin q"
  by (simp add: fl_of_finite rnd64_exact)

text \<open>Sums of representable numbers of one sign.\<close>

lemma rnd64_sum_bounds:
  assumes "repr64 x" and "repr64 y" and "0 \<le> x" and "0 \<le> y"
  shows "rnd64 (x + y) \<le> (x + y) * (1 + eps64)" and "(x + y) * (1 - eps64) \<le> rnd64 (x + y)"
    and "x \<le> rnd64 (x + y)" and "y \<le> rnd64 (x + y)"
proof -
  have "\<bar>rnd64 (x + y) - (x + y)\<bar> \<le> (x + y) * eps64"
    using repr64_diff_error [OF assms(1) repr64_neg [OF assms(2)]] assms(3,4) by simp
  then show "rnd64 (x + y) \<le> (x + y) * (1 + eps64)" "(x + y) * (1 - eps64) \<le> rnd64 (x + y)"
    by (auto simp: abs_le_iff algebra_simps)
qed (use assms in \<open>auto intro!: rnd64_ge\<close>)

lemma eps64_small: "eps64 \<le> 1 / 2 ^ 53"
  by (simp add: eps64_def power_int_def power_divide)

lemma abs_near: "\<bar>p - q\<bar> \<le> \<bar>q\<bar> \<Longrightarrow> \<bar>p\<bar> \<le> 2 * \<bar>q\<bar>" for p q :: rat
  by (auto simp: abs_if split: if_splits)

text \<open>The compensation of one step is a small fraction of the new sum.\<close>

lemma compensation_small:
  assumes "repr64 s" and "repr64 x" and "0 \<le> x" and "x \<le> s"
  defines "t \<equiv> rnd64 (s + x)"
  shows "\<bar>rnd64 (rnd64 (s - t) + x)\<bar> \<le> 5 * eps64 * t"
proof -
  have s: "0 \<le> s" using assms by simp
  have t: "t \<le> (s + x) * (1 + eps64)" "(s + x) * (1 - eps64) \<le> t" "s \<le> t" "repr64 t"
    using rnd64_sum_bounds [OF assms(1,2) s assms(3)] rnd64_repr by (auto simp: t_def)
  have e: "0 < eps64" "eps64 \<le> 1 / 1024" using eps64_pos eps64_small by simp_all
  let ?a = "rnd64 (s - t)"
  have "\<bar>?a - (s - t)\<bar> \<le> (t - s) * eps64" using repr64_diff_error [OF assms(1) t(4)] t(3) by simp
  moreover have "(t - s) * eps64 \<le> t * eps64" using s e by (intro mult_right_mono) auto
  ultimately have a: "\<bar>?a - (s - t)\<bar> \<le> t * eps64" by linarith
  have st: "(s + x) * eps64 \<le> t * (1025 / 1000) * eps64"
  proof (intro mult_right_mono)
    have "(s + x) * (1023 / 1024) \<le> (s + x) * (1 - eps64)" using s assms(3) e by (intro mult_left_mono) auto
    with t(2) have "(s + x) * (1023 / 1024) \<le> t" by linarith
    then show "s + x \<le> t * (1025 / 1000)" using s assms(3) by simp
  qed (use e in simp)
  have "\<bar>t - (s + x)\<bar> \<le> (s + x) * eps64"
    using t(1,2) by (auto simp: abs_le_iff algebra_simps)
  with a st have ax: "\<bar>?a + x\<bar> \<le> t * (21 / 10) * eps64"
  proof -
    have "\<bar>?a + x\<bar> \<le> \<bar>?a - (s - t)\<bar> + \<bar>t - (s + x)\<bar>" by linarith
    also have "\<dots> \<le> t * eps64 + t * (1025 / 1000) * eps64"
      using a \<open>\<bar>t - (s + x)\<bar> \<le> (s + x) * eps64\<close> st by linarith
    also have "\<dots> = t * (2025 / 1000) * eps64" by (simp add: algebra_simps)
    also have "\<dots> \<le> t * (21 / 10) * eps64" using t(3) s e by (intro mult_right_mono mult_left_mono) auto
    finally show ?thesis .
  qed
  have "\<bar>rnd64 (?a + x) - (?a + x)\<bar> \<le> \<bar>?a + x\<bar> * eps64"
    using repr64_diff_error [OF rnd64_repr [of "s - t"] repr64_neg [OF assms(2)]] by simp
  also have "\<dots> \<le> \<bar>?a + x\<bar> * 1" using e by (intro mult_left_mono) auto
  finally have "\<bar>rnd64 (?a + x) - (?a + x)\<bar> \<le> \<bar>?a + x\<bar>" by simp
  then have "\<bar>rnd64 (?a + x)\<bar> \<le> 2 * \<bar>?a + x\<bar>" by (rule abs_near)
  also have "\<dots> \<le> 2 * (t * (21 / 10) * eps64)" using ax by (intro mult_left_mono) simp_all
  also have "\<dots> \<le> 5 * eps64 * t" using t(3) s e by simp
  finally show ?thesis .
qed

text \<open>The state of the summation after \<open>k\<close> elements of size at most \<open>M\<close>.\<close>

definition nonneg_fl :: "rat \<Rightarrow> fl \<Rightarrow> bool" where
  "nonneg_fl M x \<longleftrightarrow> (\<exists>r. x = Fin r \<and> repr64 r \<and> 0 \<le> r \<and> r \<le> M)"

definition sum_state :: "rat \<Rightarrow> nat \<Rightarrow> fl \<times> fl \<Rightarrow> bool" where
  "sum_state M k acc \<longleftrightarrow>
     (\<exists>s c. acc = (Fin s, Fin c) \<and> repr64 s \<and> repr64 c \<and> 0 \<le> s \<and> s \<le> 2 * of_nat k * M
        \<and> \<bar>c\<bar> \<le> 8 * of_nat k * eps64 * s)"

lemma nat_pow_le: "k \<le> 2 ^ n \<Longrightarrow> of_nat k \<le> (2 ^ n :: rat)"
  by (metis of_nat_le_iff of_nat_numeral of_nat_power)

lemma sum_step_state:
  assumes st: "sum_state M k acc" and x: "nonneg_fl M x" and k: "1 \<le> k" "k \<le> 2 ^ 20" and M: "M \<le> max_safe / 2 ^ 22"
  shows "sum_state M (Suc k) (sum_step acc x)"
proof -
  obtain s c where acc: "acc = (Fin s, Fin c)" and s: "repr64 s" "0 \<le> s" "s \<le> 2 * of_nat k * M"
    and c: "repr64 c" "\<bar>c\<bar> \<le> 8 * of_nat k * eps64 * s"
    using st by (auto simp: sum_state_def)
  obtain r where r: "x = Fin r" "repr64 r" "0 \<le> r" "r \<le> M" using x by (auto simp: nonneg_fl_def)
  have M0: "0 \<le> M" using r by linarith
  have K: "of_nat k \<le> (2 ^ 20 :: rat)" "1 \<le> (of_nat k :: rat)" using k nat_pow_le by simp_all
  have e: "0 < eps64" "eps64 \<le> 1 / 2 ^ 53" using eps64_pos eps64_small by simp_all
  let ?t = "rnd64 (s + r)"
  have t: "?t \<le> (s + r) * (1 + eps64)" "s \<le> ?t" "r \<le> ?t" using rnd64_sum_bounds [OF s(1) r(2) s(2) r(3)] by blast+
  have "of_nat k * M \<le> 2 ^ 20 * M" using K M0 by (intro mult_right_mono) simp_all
  then have sr: "s + r \<le> 2 ^ 22 * M" using s(3) r(4) M0 by simp
  also have "\<dots> \<le> max_safe" using M by simp
  finally have fit: "\<bar>s + r\<bar> \<le> max_safe" using s(2) r(3) by simp
  then have t_eq: "fl_add (Fin s) (Fin r) = Fin ?t" by (simp add: fl_of_finite)
  have "?t \<le> max_safe" using fit by (intro rnd64_le repr64_max_safe) simp
  let ?hi = "max s r" and ?lo = "min s r"
  have hl: "repr64 ?hi" "repr64 ?lo" "0 \<le> ?lo" "?lo \<le> ?hi" "rnd64 (?hi + ?lo) = ?t" "?hi \<le> ?t" "0 \<le> ?hi"
    using s r t by (auto simp: max_def min_def add.commute)
  let ?b = "rnd64 (rnd64 (?hi - ?t) + ?lo)"
  have b: "\<bar>?b\<bar> \<le> 5 * eps64 * ?t" using compensation_small [OF hl(1,2,3,4)] by (simp add: hl(5))
  have b_eq: "(if fl_le (fl_abs (Fin r)) (fl_abs (Fin s)) then fl_add (fl_sub (Fin s) (Fin ?t)) (Fin r)
      else fl_add (fl_sub (Fin r) (Fin ?t)) (Fin s)) = Fin ?b"
  proof -
    have a: "\<bar>?hi - ?t\<bar> \<le> max_safe" using hl(6,7) \<open>?t \<le> max_safe\<close> by (simp add: abs_le_iff)
    have "- max_safe \<le> rnd64 (?hi - ?t)" "rnd64 (?hi - ?t) \<le> 0"
      using a hl(6) repr64_neg [OF repr64_max_safe] repr64_of_int [of 0]
      by (auto intro!: rnd64_ge rnd64_le simp: abs_le_iff)
    then have a': "\<bar>rnd64 (?hi - ?t) + ?lo\<bar> \<le> max_safe"
      using hl(3,4,6) \<open>?t \<le> max_safe\<close> unfolding abs_le_iff by linarith
    show ?thesis
      using s(2) r(3) fl_of_finite [OF a] fl_of_finite [OF a']
      by (auto simp: fl_le_def fl_eq_def fl_sub_def max_def min_def not_less less_le split: if_splits)
  qed
  have t0: "0 \<le> ?t" using t(2) s(2) by linarith
  have cb: "\<bar>c + ?b\<bar> \<le> (8 * of_nat k + 5) * eps64 * ?t"
  proof -
    have "8 * of_nat k * eps64 * s \<le> 8 * of_nat k * eps64 * ?t"
      using t(2) e(1) by (intro mult_left_mono) simp_all
    then have "\<bar>c + ?b\<bar> \<le> 8 * of_nat k * eps64 * ?t + 5 * eps64 * ?t"
      using b c(2) abs_triangle_ineq [of c ?b] by linarith
    then show ?thesis by (simp add: algebra_simps)
  qed
  have small: "(8 * of_nat k + 5) * eps64 \<le> (1 :: rat)"
  proof -
    have "(8 * of_nat k + 5) * eps64 \<le> (2 ^ 53 :: rat) * (1 / 2 ^ 53)"
      using K e by (intro mult_mono) auto
    then show ?thesis by simp
  qed
  have cb': "\<bar>c + ?b\<bar> \<le> max_safe"
    using cb mult_right_mono [OF small t0] \<open>?t \<le> max_safe\<close> by linarith
  have c': "\<bar>rnd64 (c + ?b)\<bar> \<le> 8 * of_nat (Suc k) * eps64 * ?t"
  proof -
    have "\<bar>rnd64 (c + ?b) - (c + ?b)\<bar> \<le> \<bar>c + ?b\<bar> * eps64"
      using repr64_diff_error [OF c(1) repr64_neg [OF rnd64_repr]] by simp
    also have "\<dots> \<le> ((8 * of_nat k + 5) * eps64 * ?t) * eps64" using cb e by (intro mult_right_mono) simp_all
    also have "\<dots> = ((8 * of_nat k + 5) * eps64) * (eps64 * ?t)" by simp
    also have "\<dots> \<le> 1 * (eps64 * ?t)" using small e t0 by (intro mult_right_mono) simp_all
    finally have "\<bar>rnd64 (c + ?b)\<bar> \<le> (8 * of_nat k + 5) * eps64 * ?t + eps64 * ?t"
      using cb abs_triangle_ineq2 [of "rnd64 (c + ?b)" "c + ?b"] by linarith
    also have "\<dots> \<le> 8 * of_nat (Suc k) * eps64 * ?t"
      using e t0 by (simp add: algebra_simps)
    finally show ?thesis .
  qed
  have "?t \<le> 2 * of_nat (Suc k) * M"
  proof -
    have "?t \<le> (2 * of_nat k * M + M) * (1 + eps64)"
      using t(1) s(3) r(4) e by (intro order_trans [OF t(1)] mult_right_mono) simp_all
    also have "\<dots> = 2 * of_nat k * M + M + M * ((2 * of_nat k + 1) * eps64)" by (simp add: algebra_simps)
    also have "\<dots> \<le> 2 * of_nat k * M + M + M * 1"
    proof -
      have "(2 * of_nat k + 1) * eps64 \<le> (8 * of_nat k + 5) * eps64" using e by (intro mult_right_mono) simp_all
      then show ?thesis using small M0 by (intro add_left_mono mult_left_mono) linarith
    qed
    finally show ?thesis by (simp add: algebra_simps)
  qed
  moreover have "sum_step acc x = (Fin ?t, Fin (rnd64 (c + ?b)))"
    unfolding sum_step_def acc r(1) prod.case Let_def t_eq b_eq by (simp add: fl_of_finite [OF cb'])
  ultimately show ?thesis using t0 c' rnd64_repr unfolding sum_state_def by blast
qed

lemma sum_fold_state:
  assumes "list_all (nonneg_fl M) xs" and "sum_state M k acc" and "1 \<le> k" "k + length xs \<le> 2 ^ 20"
    and "M \<le> max_safe / 2 ^ 22"
  shows "sum_state M (k + length xs) (foldl sum_step acc xs)"
  using assms
proof (induction xs arbitrary: k acc)
  case (Cons x xs)
  then have "sum_state M (Suc k) (sum_step acc x)" by (intro sum_step_state) auto
  with Cons.prems have "sum_state M (Suc k + length xs) (foldl sum_step (sum_step acc x) xs)"
    by (intro Cons.IH) auto
  then show ?case by simp
qed simp

text \<open>The sum of up to \<open>2 ^ 20\<close> non-negative floats is a non-negative float.\<close>

lemma py_sum_nonneg:
  assumes xs: "list_all (nonneg_fl M) xs" and n: "length xs \<le> 2 ^ 20" and M: "M \<le> max_safe / 2 ^ 22" "0 \<le> M"
  shows "nonneg_fl (8 * of_nat (length xs) * M) (py_sum xs)"
proof (cases xs)
  case Nil
  then show ?thesis using repr64_of_int [of 0] by (simp add: py_sum_def nonneg_fl_def)
next
  case (Cons x ys)
  let ?n = "length xs"
  obtain r where r: "x = Fin r" "repr64 r" "0 \<le> r" "r \<le> M" using xs Cons by (auto simp: nonneg_fl_def)
  have "sum_state M 1 (x, Fin 0)"
    using r M eps64_pos repr64_of_int [of 0] by (simp add: sum_state_def mult_nonneg_nonneg)
  then have "sum_state M (1 + length ys) (foldl sum_step (x, Fin 0) ys)"
    using xs n Cons M by (intro sum_fold_state) auto
  then obtain s c where fold: "foldl sum_step (x, Fin 0) ys = (Fin s, Fin c)" and s: "repr64 s" "0 \<le> s"
      "s \<le> 2 * of_nat ?n * M" and c: "repr64 c" "\<bar>c\<bar> \<le> 8 * of_nat ?n * eps64 * s"
    using Cons by (auto simp: sum_state_def)
  have "8 * of_nat ?n * eps64 \<le> 8 * 2 ^ 20 * (1 / 2 ^ 53)"
    using eps64_pos eps64_small nat_pow_le [OF n] by (intro mult_mono) simp_all
  then have "8 * of_nat ?n * eps64 * s \<le> 1 * s" using s(2) by (intro mult_right_mono) simp_all
  with c(2) have cs: "\<bar>c\<bar> \<le> s" by simp
  have "2 * of_nat ?n * M \<le> 2 * 2 ^ 20 * M" using nat_pow_le [OF n] M by (intro mult_right_mono mult_left_mono) simp_all
  with s(3) M have "2 * s \<le> max_safe" by (simp add: mult.commute)
  with cs s(2) have fit: "\<bar>s + c\<bar> \<le> max_safe" "0 \<le> s + c" unfolding abs_le_iff by linarith+
  have "\<bar>rnd64 (s + c) - (s + c)\<bar> \<le> \<bar>s + c\<bar>"
    using repr64_diff_error [OF s(1) repr64_neg [OF c(1)]] mult_left_mono [of eps64 1 "\<bar>s + c\<bar>"] eps64_small by simp
  then have "\<bar>rnd64 (s + c)\<bar> \<le> 2 * \<bar>s + c\<bar>" by (rule abs_near)
  then have "rnd64 (s + c) \<le> 2 * (s + c)" using fit(2) by simp
  moreover have "s + c \<le> 2 * s" using cs by simp
  moreover have "s \<le> 2 * (of_nat ?n * M)" using s(3) by simp
  moreover have "p \<le> 8 * N \<and> s \<le> 8 * N" if "p \<le> 2 * (s + c)" "s + c \<le> 2 * s" "s \<le> 2 * N" for p N :: rat
    using that s(2) by simp
  ultimately have up: "rnd64 (s + c) \<le> 8 * (of_nat ?n * M)" "s \<le> 8 * (of_nat ?n * M)" by blast+
  have "0 \<le> rnd64 (s + c)" using fit(2) by (rule rnd64_nonneg)
  moreover have "py_sum xs = Fin (if c = 0 then s else rnd64 (s + c))"
    by (simp add: py_sum_def Cons fold sum_end_def finite_fl_def fl_of_finite [OF fit(1)])
  ultimately show ?thesis using up s(1,2) rnd64_repr unfolding nonneg_fl_def mult.assoc by auto
qed

section \<open>Signs of sums\<close>

lemma fits64_uminus [simp]: "fits64 (- q) = fits64 q"
  by (simp add: fits64_def)

lemma fl_of_uminus: "fl_of (- q) = fl_neg (fl_of q)"
  by (auto simp: fl_of_def Let_def rnd64_uminus fits64_def not_less)

lemma fl_neg_neg [simp]: "fl_neg (fl_neg x) = x"
  by (cases x) simp_all

lemma fl_add_neg: "fl_add (fl_neg x) (fl_neg y) = fl_neg (fl_add x y)"
proof -
  have "fl_of (- a - b) = fl_neg (fl_of (a + b))" for a b using fl_of_uminus [of "a + b"] by simp
  then show ?thesis by (cases x; cases y) simp_all
qed

lemma fl_sub_neg: "fl_sub (fl_neg x) (fl_neg y) = fl_neg (fl_sub x y)"
  by (simp only: fl_sub_def fl_add_neg)

lemma fl_abs_neg [simp]: "fl_abs (fl_neg x) = fl_abs x"
  by (cases x) simp_all

lemma fl_neg_Fin: "fl_neg x = Fin q \<longleftrightarrow> x = Fin (- q)"
  by (cases x) auto

lemma finite_fl_neg [simp]: "finite_fl (fl_neg x) = finite_fl x"
  by (cases x) (simp_all add: finite_fl_def)

lemma sum_step_neg:
  "sum_step (fl_neg s, fl_neg c) (fl_neg x) = map_prod fl_neg fl_neg (sum_step (s, c) x)"
  by (simp add: sum_step_def Let_def fl_add_neg fl_sub_neg del: fl_neg.simps)

lemma py_sum_neg: "py_sum (map fl_neg xs) = fl_neg (py_sum xs)"
proof (cases xs)
  case (Cons x ys)
  have fold: "foldl sum_step (map_prod fl_neg fl_neg a) (map fl_neg ys) = map_prod fl_neg fl_neg (foldl sum_step a ys)" for a
  proof (induction ys arbitrary: a)
    case (Cons y ys)
    then show ?case using sum_step_neg [of "fst a" "snd a" y] by (cases a) simp
  qed simp
  have sum_end_neg: "sum_end (map_prod fl_neg fl_neg a) = fl_neg (sum_end a)" for a
    by (cases a) (simp add: sum_end_def fl_neg_Fin fl_add_neg)
  show ?thesis using fold [of "(x, Fin 0)"] sum_end_neg by (simp add: Cons py_sum_def)
qed (simp add: py_sum_def)

lemma fl_add_NaN [simp]: "fl_add NaN x = NaN" "fl_add x NaN = NaN"
  by (cases x; simp)+

lemma py_sum_NaN:
  assumes "NaN \<in> set xs"
  shows "py_sum xs = NaN"
proof -
  have stays: "fst (foldl sum_step a ys) = NaN" if "fst a = NaN" for a ys
    using that by (induction ys arbitrary: a) (auto simp: sum_step_def Let_def split: prod.splits)
  have reach: "fst (foldl sum_step a ys) = NaN" if "NaN \<in> set ys" for a ys
    using that
  proof (induction ys arbitrary: a)
    case (Cons y ys)
    show ?case
    proof (cases "y = NaN")
      case True
      then have "fst (sum_step a y) = NaN" by (simp add: sum_step_def Let_def split: prod.splits)
      then show ?thesis by (simp add: stays)
    qed (use Cons in auto)
  qed simp
  have ending: "fst a = NaN \<Longrightarrow> sum_end a = NaN" for a by (cases a) (simp add: sum_end_def)
  show ?thesis
  proof (cases xs)
    case (Cons x ys)
    then have "fst (foldl sum_step (x, Fin 0) ys) = NaN" using assms stays [of "(x, Fin 0)"] reach by auto
    then show ?thesis by (simp add: Cons py_sum_def ending)
  qed (use assms in simp)
qed

end
