(* ===== verification/Agent_Runtime.thy ===== *)
theory Agent_Runtime
  imports Agent_Sdk Dispatch_Client Float64
begin

text \<open>
  The runtime of an agent: the bounded replay store of \<open>src/tomiris_agent_runtime/state.py\<close>, the
  endpoints and the background execution of \<open>application.py\<close>, the settings of \<open>config.py\<close> and
  the deterministic test handler of \<open>handler.py\<close>.

  The store's two dictionaries are association lists in insertion order.  Requests are the
  values of their headers and the chunks of their body; \<open>parse\<close> is pydantic's decoding of the
  body.  Every reading of the clock is its own argument.
\<close>

section \<open>Replay and idempotency store\<close>

record accepted_task =
  at_body_hash :: string
  at_ack :: analysis_task_ack

record task_store =
  st_max_entries :: nat
  st_nonces :: "(string \<times> instant) list"
  st_tasks :: "(uuid \<times> accepted_task) list"

definition new_store :: "nat \<Rightarrow> task_store" where
  "new_store max_entries = \<lparr>st_max_entries = max_entries, st_nonces = [], st_tasks = []\<rparr>"

text \<open>\<open>next(iter({}))\<close> raises; the store is then left with the nonce recorded.\<close>

definition store_accept ::
    "string \<Rightarrow> instant \<Rightarrow> instant \<Rightarrow> uuid \<Rightarrow> string \<Rightarrow> analysis_task_ack \<Rightarrow> task_store \<Rightarrow>
     (hub_error + (analysis_task_ack \<times> bool)) \<times> task_store" where
  "store_accept nonce nonce_expires_at now task_id body_hash ack st =
     (let st = st\<lparr>st_nonces := filter (\<lambda>(known, expiry). now < expiry) (st_nonces st)\<rparr>
      in if nonce \<in> fst ` set (st_nonces st) then (Inl (HubError ''COMMAND_REPLAY'' 409), st)
         else
           let st = st\<lparr>st_nonces := dict_set nonce nonce_expires_at (st_nonces st)\<rparr>
           in case map_of (st_tasks st) task_id of
                Some existing \<Rightarrow>
                  if at_body_hash existing \<noteq> body_hash
                  then (Inl (HubError ''TASK_DUPLICATE_CONFLICT'' 409), st)
                  else (Inr (at_ack existing, False), st)
              | None \<Rightarrow>
                  if st_max_entries st \<le> length (st_tasks st) \<and> st_tasks st = []
                  then (Inl (Crashed (ValueError ''coroutine raised StopIteration'')), st)
                  else
                    let tasks = (if st_max_entries st \<le> length (st_tasks st)
                                 then dict_del (fst (hd (st_tasks st))) (st_tasks st) else st_tasks st)
                    in (Inr (ack, True),
                        st\<lparr>st_tasks := dict_set task_id \<lparr>at_body_hash = body_hash, at_ack = ack\<rparr> tasks\<rparr>))"

section \<open>Settings\<close>

datatype runtime_mode = M_TEST | M_ANALYTICAL

text \<open>The \<open>market_data_*\<close> settings\<close>

record market_data_settings =
  md_base_url :: string
  md_connect_timeout_seconds :: fl
  md_read_timeout_seconds :: fl
  md_max_attempts :: int
  md_retry_base_seconds :: fl
  md_retry_max_seconds :: fl
  md_max_response_bytes :: int
  md_max_concurrency :: int
  md_cache_ttl_seconds :: int
  md_allow_insecure_localhost :: bool

definition default_market_data :: market_data_settings where
  "default_market_data =
     \<lparr>md_base_url = ''https://api.binance.com'', md_connect_timeout_seconds = Fin 3, md_read_timeout_seconds = Fin 8,
      md_max_attempts = 3, md_retry_base_seconds = Fin (1/4), md_retry_max_seconds = Fin 2,
      md_max_response_bytes = 2000000, md_max_concurrency = 4, md_cache_ttl_seconds = 10,
      md_allow_insecure_localhost = False\<rparr>"

record runtime_settings =
  as_agent_id :: string
  as_agent_role :: string
  as_agent_capabilities :: string
  as_agent_supported_assets :: string
  as_hub_url :: string
  as_hub_key_id :: string
  as_hub_agent_secret :: string
  as_orchestrator_id :: string
  as_command_key_id :: string
  as_command_secret :: string
  as_mode :: runtime_mode
  as_definition_path :: "string option"
  as_runtime_version :: string
  as_command_max_clock_skew_seconds :: int
  as_command_nonce_ttl_seconds :: int
  as_max_task_request_bytes :: nat
  as_market_data :: market_data_settings

definition starts_with :: "string \<Rightarrow> string \<Rightarrow> bool" where
  "starts_with p s \<longleftrightarrow> take (length p) s = p"

text \<open>The model validator: the message of the \<open>ValueError\<close>, or none.\<close>

definition validate_secrets :: "runtime_settings \<Rightarrow> string option" where
  "validate_secrets s =
     (if length (as_hub_agent_secret s) < 32
      then Some ''Hub agent secret must contain at least 32 characters''
      else if length (as_command_secret s) < 32
      then Some ''command secret must contain at least 32 characters''
      else if as_hub_agent_secret s = as_command_secret s
      then Some ''Hub ingest and command secrets must differ''
      else if \<not> (starts_with ''http://'' (as_hub_url s) \<or> starts_with ''https://'' (as_hub_url s))
      then Some ''TOMIRIS_HUB_URL must be HTTP(S)''
      else if as_mode s = M_ANALYTICAL \<and> as_definition_path s = None
      then Some ''analytical runtime requires TOMIRIS_AGENT_DEFINITION_PATH''
      else None)"

definition settings_capabilities :: "runtime_settings \<Rightarrow> string list" where
  "settings_capabilities s = filter (\<lambda>t. t \<noteq> []) (map strip (split_on (CHR '','') (as_agent_capabilities s)))"

definition settings_supported_assets :: "runtime_settings \<Rightarrow> string list" where
  "settings_supported_assets s =
     map upper (filter (\<lambda>t. t \<noteq> []) (map strip (split_on (CHR '','') (as_agent_supported_assets s))))"

section \<open>Endpoints\<close>

record command_request =
  cq_orchestrator_id :: "string option"
  cq_timestamp :: "string option"
  cq_nonce :: "string option"
  cq_key_id :: "string option"
  cq_signature :: "string option"
  cq_content_length :: "string option"
  cq_chunks :: "string list"

text \<open>The readings of the clock that one request makes, in order.\<close>

record request_clock =
  rk_verify :: instant
  rk_deadline :: instant
  rk_accepted :: instant
  rk_nonce_base :: instant
  rk_store :: instant

definition command_auth_of :: "command_request \<Rightarrow> command_headers option" where
  "command_auth_of q =
     (case (cq_orchestrator_id q, cq_timestamp q, cq_nonce q, cq_key_id q, cq_signature q) of
        (Some ident, Some t, Some n, Some k, Some s) \<Rightarrow>
          Some \<lparr>ch_orchestrator_id = ident, ch_timestamp = t, ch_nonce = n, ch_key_id = k, ch_signature = s\<rparr>
      | _ \<Rightarrow> None)"

definition authenticator_of :: "runtime_settings \<Rightarrow> command_authenticator" where
  "authenticator_of s =
     \<lparr>ca_orchestrator_id = as_orchestrator_id s, ca_target_agent_id = as_agent_id s,
      ca_key_id = as_command_key_id s, ca_secret = as_command_secret s,
      ca_max_skew_seconds = as_command_max_clock_skew_seconds s\<rparr>"

definition capabilities_response :: "runtime_settings \<Rightarrow> runtime_capabilities option" where
  "capabilities_response s = validate_runtime_capabilities
     \<lparr>rc_agent_id = as_agent_id s, rc_runtime_version = as_runtime_version s, rc_role = as_agent_role s,
      rc_capabilities = settings_capabilities s, rc_supported_assets = settings_supported_assets s,
      rc_protocol_versions = [''1.0''],
      rc_analytical_role_api_version = (if as_mode s = M_ANALYTICAL then Some ''1'' else None)\<rparr>"

definition ready_response :: "runtime_settings \<Rightarrow> (string \<times> string) list" where
  "ready_response s =
     [(''status'', ''ready''), (''agent_id'', as_agent_id s),
      (''role_api_version'', if as_mode s = M_ANALYTICAL then ''1'' else ''none'')]"

text \<open>The checks on a decoded task, in the order of the handler.\<close>

definition task_mismatch :: "runtime_settings \<Rightarrow> instant \<Rightarrow> analysis_task_request \<Rightarrow> hub_error option" where
  "task_mismatch s now task =
     (if tr_agent_id task \<noteq> as_agent_id s then Some (HubError ''TASK_AGENT_MISMATCH'' 403)
      else if tr_deadline task \<le> now then Some (HubError ''TASK_EXPIRED'' 422)
      else if tr_required_capability task \<notin> set (settings_capabilities s)
      then Some (HubError ''AGENT_CAPABILITY_MISMATCH'' 422)
      else if tr_asset task \<notin> set (settings_supported_assets s)
      then Some (HubError ''AGENT_ASSET_MISMATCH'' 422)
      else None)"

datatype analyze_response =
    TaskAccepted analysis_task_ack
  | TaskRefused int string
  | ServerError

text \<open>\<open>request_body.py\<close> repeats the bounded reading of the hub with its own code.\<close>

definition read_limited_task_body :: "nat \<Rightarrow> string option \<Rightarrow> string list \<Rightarrow> hub_error + string" where
  "read_limited_task_body = read_limited_body ''TASK_REQUEST_TOO_LARGE''"

text \<open>The handler of \<open>POST /v1/analyze\<close>: the answer, the task to execute in the background, and the
  new store.  Up to the call of the store nothing is changed.\<close>

definition check_command ::
    "runtime_settings \<Rightarrow> (string \<Rightarrow> py_datetime task_request option) \<Rightarrow> request_clock \<Rightarrow> command_request \<Rightarrow>
     hub_error + (command_headers \<times> string \<times> analysis_task_request \<times> analysis_task_ack)" where
  "check_command s parse clk q =
     (case read_limited_task_body (as_max_task_request_bytes s)
             (cq_content_length q) (cq_chunks q) of
        Inl e \<Rightarrow> Inl e
      | Inr body \<Rightarrow>
          (case command_auth_of q of
             None \<Rightarrow> Inl (HubError ''MISSING_COMMAND_AUTH_HEADERS'' 401)
           | Some auth \<Rightarrow>
               (case command_verify (authenticator_of s) (rk_verify clk) auth body of
                  Some e \<Rightarrow> Inl e
                | None \<Rightarrow>
                    (case (case parse body of None \<Rightarrow> None | Some raw \<Rightarrow> validate_task_request raw) of
                       None \<Rightarrow> Inl (HubError ''INVALID_TASK_SCHEMA'' 422)
                     | Some task \<Rightarrow>
                         (case task_mismatch s (rk_deadline clk) task of
                            Some e \<Rightarrow> Inl e
                          | None \<Rightarrow>
                              (case validate_task_ack
                                      \<lparr>ack_task_id = tr_task_id task, ack_agent_id = as_agent_id s,
                                       ack_accepted_at = Aware (rk_accepted clk) 0,
                                       ack_runtime_version = as_runtime_version s\<rparr> of
                                 None \<Rightarrow> Inl (HubError ''INVALID_TASK_SCHEMA'' 422)
                               | Some ack \<Rightarrow> Inr (auth, body, task, ack)))))))"

definition analyze_endpoint ::
    "runtime_settings \<Rightarrow> (string \<Rightarrow> py_datetime task_request option) \<Rightarrow> request_clock \<Rightarrow> command_request \<Rightarrow>
     task_store \<Rightarrow> analyze_response \<times> analysis_task_request option \<times> task_store" where
  "analyze_endpoint s parse clk q st =
     (case check_command s parse clk q of
        Inl (HubError code status) \<Rightarrow> (TaskRefused status code, None, st)
      | Inl (Crashed _) \<Rightarrow> (ServerError, None, st)
      | Inr (auth, body, task, ack) \<Rightarrow>
          (case store_accept (ch_nonce auth)
                  (rk_nonce_base clk + seconds (as_command_nonce_ttl_seconds s)) (rk_store clk)
                  (tr_task_id task) (body_sha256 body) ack st of
             (Inl (HubError code status), st) \<Rightarrow> (TaskRefused status code, None, st)
           | (Inl (Crashed _), st) \<Rightarrow> (ServerError, None, st)
           | (Inr (accepted_ack, is_new), st) \<Rightarrow>
               (TaskAccepted accepted_ack, if is_new then Some task else None, st)))"

text \<open>\<open>execute\<close>: every exception is caught; the outcome is what is logged.\<close>

datatype execution_outcome = SignalDelivered | SignalRejectedByHub | HandlerFailure

definition execute_task ::
    "(analysis_task_request \<Rightarrow> 'e + agent_signal) \<Rightarrow> (agent_signal \<Rightarrow> 'e + bool) \<Rightarrow>
     analysis_task_request \<Rightarrow> execution_outcome" where
  "execute_task handler sink task =
     (case handler task of
        Inl _ \<Rightarrow> HandlerFailure
      | Inr signal \<Rightarrow>
          (case sink signal of
             Inl _ \<Rightarrow> HandlerFailure
           | Inr sent \<Rightarrow> if sent then SignalDelivered else SignalRejectedByHub))"

section \<open>Test handler\<close>

definition test_handler_raw ::
    "uuid \<Rightarrow> uuid \<Rightarrow> instant \<Rightarrow> analysis_task_request \<Rightarrow> py_datetime signal_envelope" where
  "test_handler_raw message_id agent_run_id now task =
     \<lparr>env_protocol_version = ''1.0'', env_message_id = message_id, env_agent_id = tr_agent_id task,
      env_agent_run_id = agent_run_id, env_snapshot_id = tr_snapshot_id task,
      env_task_id = Some (tr_task_id task), env_orchestration_run_id = Some (tr_orchestration_run_id task),
      env_correlation_id = Some (tr_correlation_id task), env_causation_id = Some (tr_task_id task),
      env_asset = tr_asset task, env_bias = ABSTAIN, env_confidence = 0, env_impact = 0,
      env_time_horizon = ''phase-02-system-test'', env_evidence = [],
      env_risk_flags = [''TEST_ONLY_NO_MARKET_ANALYSIS''],
      env_data_timestamp = Aware now 0, env_analysis_timestamp = Aware now 0,
      env_signal_ttl_seconds = min 300 (max 1 (trunc_rat (total_seconds (tr_deadline task - now)))),
      env_role_id = None, env_role_version = None, env_config_version = None,
      env_feature_pipeline_version = None, env_analysis_schema_version = None,
      env_data_provider = None, env_data_as_of = None, env_confidence_model_version = None,
      env_metadata = PyMap [(PyStr ''handler'', PyStr ''TestAnalysisHandler''),
                            (PyStr ''test_only'', PyBool True)]\<rparr>"

text \<open>\<open>None\<close> is pydantic's \<open>ValidationError\<close>.\<close>

definition test_handler ::
    "uuid \<Rightarrow> uuid \<Rightarrow> instant \<Rightarrow> analysis_task_request \<Rightarrow> agent_signal option" where
  "test_handler message_id agent_run_id now task =
     validate_signal (test_handler_raw message_id agent_run_id now task)"

section \<open>The store over time\<close>

text \<open>Requests handled one after the other: the store's lock makes them so.\<close>

fun serve ::
    "runtime_settings \<Rightarrow> (string \<Rightarrow> py_datetime task_request option) \<Rightarrow> (request_clock \<times> command_request) list \<Rightarrow>
     task_store \<Rightarrow> analysis_task_request list \<times> task_store" where
  "serve s parse [] st = ([], st)"
| "serve s parse ((clk, q) # rest) st =
     (let (response, started, st) = analyze_endpoint s parse clk q st;
          (more, st) = serve s parse rest st
      in ((case started of None \<Rightarrow> more | Some task \<Rightarrow> task # more), st))"

definition store_ok :: "task_store \<Rightarrow> bool" where
  "store_ok st \<longleftrightarrow> length (st_tasks st) \<le> st_max_entries st \<and> distinct (map fst (st_tasks st))
     \<and> distinct (map fst (st_nonces st))"

lemma dict_del_hd:
  "distinct (map fst d) \<Longrightarrow> d \<noteq> [] \<Longrightarrow> dict_del (fst (hd d)) d = tl d"
  by (cases d) (auto simp: dict_del_def filter_id_conv image_iff)

lemma dict_set_new: "k \<notin> fst ` set d \<Longrightarrow> dict_set k v d = d @ [(k, v)]"
  by (induction d rule: dict_set.induct) auto

lemma distinct_pruned: "distinct (map fst d) \<Longrightarrow> distinct (map fst (filter P d))"
  by (rule distinct_map_filter)

lemma store_accept_ok:
  assumes "store_accept nonce expires now k h ack st = (res, st')" and ok: "store_ok st"
  shows "store_ok st' \<and> st_max_entries st' = st_max_entries st"
proof -
  let ?nonces = "filter (\<lambda>(known, expiry). now < expiry) (st_nonces st)"
  have "distinct (map fst (st_nonces st))" using ok by (simp add: store_ok_def)
  note n = distinct_pruned [OF this, of "\<lambda>(known, expiry). now < expiry"]
    distinct_dict_set [OF distinct_pruned [OF this, of "\<lambda>(known, expiry). now < expiry"], of nonce expires]
  show ?thesis
  proof (cases "nonce \<in> fst ` set ?nonces")
    case True
    with assms n show ?thesis by (auto simp: store_accept_def Let_def store_ok_def)
  next
    case False
    show ?thesis
    proof (cases "map_of (st_tasks st) k")
      case (Some existing)
      with False assms n show ?thesis
        by (auto simp: store_accept_def Let_def store_ok_def split: if_splits)
    next
      case None
      then have fresh: "k \<notin> fst ` set (st_tasks st)" by (simp add: map_of_eq_None_iff)
      show ?thesis
      proof (cases "st_max_entries st \<le> length (st_tasks st)")
        case full: True
        show ?thesis
        proof (cases "st_tasks st = []")
          case True
          with full False None assms n show ?thesis
            by (auto simp: store_accept_def Let_def store_ok_def)
        next
          case nonempty: False
          have d: "dict_del (fst (hd (st_tasks st))) (st_tasks st) = tl (st_tasks st)"
            using ok nonempty by (simp add: dict_del_hd store_ok_def)
          have "k \<notin> fst ` set (tl (st_tasks st))" using fresh nonempty by (auto dest: list.set_sel(2))
          with full False None nonempty d assms n show ?thesis
            by (cases "st_tasks st") (auto simp: store_accept_def Let_def store_ok_def dict_set_new)
        qed
      next
        case False
        with \<open>nonce \<notin> fst ` set ?nonces\<close> None assms n fresh show ?thesis
          by (auto simp: store_accept_def Let_def store_ok_def dict_set_new)
      qed
    qed
  qed
qed

lemma analyze_endpoint_cases:
  assumes "analyze_endpoint s parse clk q st = (response, started, st')"
  obtains (refused) e where "check_command s parse clk q = Inl e" "st' = st" "started = None"
      "\<And>ack. response \<noteq> TaskAccepted ack"
  | (stored) auth body task ack res where "check_command s parse clk q = Inr (auth, body, task, ack)"
      "store_accept (ch_nonce auth) (rk_nonce_base clk + seconds (as_command_nonce_ttl_seconds s)) (rk_store clk)
         (tr_task_id task) (body_sha256 body) ack st = (res, st')"
      "started = (case res of Inr (_, True) \<Rightarrow> Some task | _ \<Rightarrow> None)"
      "\<And>a. response = TaskAccepted a \<Longrightarrow> \<exists>b. res = Inr (a, b)"
proof (cases "check_command s parse clk q")
  case (Inl e)
  with assms refused show ?thesis by (cases e) (auto simp: analyze_endpoint_def)
next
  case (Inr p)
  obtain auth body task ack where p: "p = (auth, body, task, ack)" by (cases p)
  obtain res st1 where r: "store_accept (ch_nonce auth) (rk_nonce_base clk + seconds (as_command_nonce_ttl_seconds s))
      (rk_store clk) (tr_task_id task) (body_sha256 body) ack st = (res, st1)" by fastforce
  show ?thesis
    by (rule stored [of auth body task ack res])
      (use assms Inr p r in \<open>auto simp: analyze_endpoint_def split: sum.splits hub_error.splits prod.splits\<close>)
qed

lemma serve_ok: "serve s parse rs st = (started, st') \<Longrightarrow> store_ok st \<Longrightarrow> store_ok st' \<and> st_max_entries st' = st_max_entries st"
proof (induction rs arbitrary: st started)
  case (Cons r rs)
  obtain clk q where r: "r = (clk, q)" by fastforce
  obtain resp x st1 where a: "analyze_endpoint s parse clk q st = (resp, x, st1)" by (cases "analyze_endpoint s parse clk q st")
  obtain more where m: "serve s parse rs st1 = (more, st')" using Cons.prems(1) a r by (auto split: prod.splits)
  have "store_ok st1 \<and> st_max_entries st1 = st_max_entries st"
    using a by (cases rule: analyze_endpoint_cases) (use Cons.prems(2) store_accept_ok in auto)
  with Cons.IH [OF m] show ?case by simp
qed simp

text \<open>As long as nothing was evicted, the stored tasks are those that were started.\<close>

lemma store_accept_started:
  assumes "store_accept nonce expires now k h ack st = (res, st')" and "store_ok st"
  shows "(case res of Inr (_, True) \<Rightarrow> k \<notin> fst ` set (st_tasks st) \<and> (length (st_tasks st) < st_max_entries st \<longrightarrow>
            map fst (st_tasks st') = map fst (st_tasks st) @ [k])
          | _ \<Rightarrow> st_tasks st' = st_tasks st)"
  using assms
  by (auto simp: store_accept_def Let_def map_of_eq_None_iff dict_set_new split: if_splits option.splits)

lemma serve_started:
  "serve s parse rs st = (started, st') \<Longrightarrow> store_ok st \<Longrightarrow>
   length (st_tasks st) + length started \<le> st_max_entries st \<Longrightarrow>
   map fst (st_tasks st') = map fst (st_tasks st) @ map tr_task_id started"
proof (induction rs arbitrary: st started)
  case (Cons r rs)
  obtain clk q where r: "r = (clk, q)" by fastforce
  obtain resp x st1 where a: "analyze_endpoint s parse clk q st = (resp, x, st1)" by (cases "analyze_endpoint s parse clk q st")
  obtain more where m: "serve s parse rs st1 = (more, st')" "started = (case x of None \<Rightarrow> more | Some task \<Rightarrow> task # more)"
    using Cons.prems(1) a r by (auto split: prod.splits)
  have step: "store_ok st1 \<and> st_max_entries st1 = st_max_entries st
    \<and> (case x of None \<Rightarrow> st_tasks st1 = st_tasks st
        | Some task \<Rightarrow> length (st_tasks st) < st_max_entries st \<longrightarrow>
             map fst (st_tasks st1) = map fst (st_tasks st) @ [tr_task_id task])"
    using a
  proof (cases rule: analyze_endpoint_cases)
    case (stored auth body task ack res)
    from store_accept_ok [OF stored(2) Cons.prems(2)] store_accept_started [OF stored(2) Cons.prems(2)] stored(3)
    show ?thesis by (auto split: sum.splits prod.splits bool.splits)
  qed (use Cons.prems(2) in simp)
  show ?case
  proof (cases x)
    case None
    with Cons.IH [OF m(1)] step m(2) Cons.prems(3) show ?thesis by simp
  next
    case (Some task)
    with Cons.prems(3) m(2) have "length (st_tasks st) < st_max_entries st" by simp
    with step Some have fst1: "map fst (st_tasks st1) = map fst (st_tasks st) @ [tr_task_id task]" by simp
    then have "length (st_tasks st1) = Suc (length (st_tasks st))" by (metis length_append_singleton length_map)
    with Cons.IH [OF m(1)] step Some m(2) Cons.prems(3) fst1 show ?thesis by simp
  qed
qed simp

text \<open>A live nonce stays recorded.\<close>

lemma store_accept_nonce:
  assumes "store_accept nonce expires now k h ack st = (res, st')" and "store_ok st"
  shows "map_of (st_nonces st) n = Some e \<Longrightarrow> now < e \<Longrightarrow> map_of (st_nonces st') n = Some e"
    and "res = Inr a \<Longrightarrow> map_of (st_nonces st') nonce = Some expires"
proof -
  let ?nonces = "filter (\<lambda>(known, expiry). now < expiry) (st_nonces st)"
  have keep: "map_of ?nonces n = Some e" if "map_of (st_nonces st) n = Some e" "now < e"
    using that assms(2) map_of_filter_in [of "st_nonces st" n e "\<lambda>k e. now < e"] by simp
  have new: "st_nonces st' = ?nonces \<or> nonce \<notin> fst ` set ?nonces \<and> st_nonces st' = dict_set nonce expires ?nonces"
    using assms(1) by (auto simp: store_accept_def Let_def split: if_splits option.splits)
  show "map_of (st_nonces st') n = Some e" if "map_of (st_nonces st) n = Some e" "now < e"
  proof (cases "n = nonce")
    case True
    with keep [OF that] have "nonce \<in> fst ` set ?nonces" by (metis domI dom_map_of_conv_image_fst)
    with new keep [OF that] show ?thesis by simp
  next
    case False
    with new keep [OF that] show ?thesis by auto
  qed
  show "res = Inr a \<Longrightarrow> map_of (st_nonces st') nonce = Some expires"
    using assms(1) by (auto simp: store_accept_def Let_def split: if_splits option.splits)
qed

lemma serve_nonce:
  "serve s parse rs st = (started, st') \<Longrightarrow> store_ok st \<Longrightarrow> map_of (st_nonces st) n = Some e \<Longrightarrow>
   list_all (\<lambda>(clk, q). rk_store clk < e) rs \<Longrightarrow> map_of (st_nonces st') n = Some e"
proof (induction rs arbitrary: st started)
  case (Cons r rs)
  obtain clk q where r: "r = (clk, q)" by fastforce
  obtain resp x st1 where a: "analyze_endpoint s parse clk q st = (resp, x, st1)" by (cases "analyze_endpoint s parse clk q st")
  obtain more where m: "serve s parse rs st1 = (more, st')" using Cons.prems(1) a r by (auto split: prod.splits)
  have "store_ok st1 \<and> map_of (st_nonces st1) n = Some e"
    using a
  proof (cases rule: analyze_endpoint_cases)
    case (stored auth body task ack res)
    from store_accept_ok [OF stored(2) Cons.prems(2)] store_accept_nonce(1) [OF stored(2) Cons.prems(2,3)] Cons.prems(4) r
    show ?thesis by simp
  qed (use Cons.prems(2,3) in simp)
  with Cons.IH [OF m] Cons.prems(4) show ?case by simp
qed simp

text \<open>What a command that passes the checks tells of the clock.\<close>

lemma checked_command:
  assumes "check_command s parse clk q = Inr (auth, body, task, ack)"
  shows "cq_nonce q = Some (ch_nonce auth)" "cq_timestamp q = Some (ch_timestamp auth)"
    and "command_verify (authenticator_of s) (rk_verify clk) auth body = None"
    and "task_mismatch s (rk_deadline clk) task = None" "ack_task_id ack = tr_task_id task"
  using assms
  by (auto simp: check_command_def command_auth_of_def dest!: validate_ack_same
      split: sum.splits option.splits)

lemma verified_in_time:
  assumes "command_verify a now h body = None" and "0 \<le> ca_max_skew_seconds a" "ca_max_skew_seconds a \<le> 2 ^ 32"
    and "from_timestamp (int_of_text (ch_timestamp h)) = Some t"
  shows "now - t \<le> seconds (ca_max_skew_seconds a)" "t - now \<le> seconds (ca_max_skew_seconds a)"
proof -
  have s: "\<bar>ca_max_skew_seconds a\<bar> \<le> 2 ^ 32" using assms(2,3) by simp
  show "now - t \<le> seconds (ca_max_skew_seconds a)" "t - now \<le> seconds (ca_max_skew_seconds a)"
    using assms(1,4) skew_iff [OF s, of "now - t"]
    by (auto simp: command_verify_def Let_def split: if_splits)
qed

lemma verified_has_time:
  "command_verify a now h body = None \<Longrightarrow> \<exists>t. from_timestamp (int_of_text (ch_timestamp h)) = Some t"
  by (auto simp: command_verify_def split: if_splits option.splits)

lemma live_nonce_refused:
  "map_of (st_nonces st) nonce = Some e \<Longrightarrow> now < e \<Longrightarrow>
   fst (store_accept nonce expires now k h ack st) = Inl (HubError ''COMMAND_REPLAY'' 409)"
proof -
  assume "map_of (st_nonces st) nonce = Some e" "now < e"
  then have "(nonce, e) \<in> set (filter (\<lambda>(known, expiry). now < expiry) (st_nonces st))"
    by (simp add: map_of_SomeD)
  then have "nonce \<in> fst ` set (filter (\<lambda>(known, expiry). now < expiry) (st_nonces st))"
    by (rule rev_image_eqI) simp
  then show ?thesis by (simp add: store_accept_def Let_def)
qed

lemma new_store_ok: "store_ok (new_store n)"
  by (simp add: store_ok_def new_store_def)

section \<open>Properties\<close>

text \<open>C30 The runtime starts a task at most once: whatever commands a runtime with a fresh store
  of \<open>n\<close> entries serves, repeated and concurrent deliveries included, no task identifier is
  handed to the background execution twice as long as at most \<open>n\<close> tasks were started, and the
  store never holds more than \<open>n\<close> tasks nor two entries for one task or one nonce.\<close>

theorem runtime_starts_once:
  assumes "serve s parse rs (new_store n) = (started, st)" and "length started \<le> n"
  shows "distinct (map tr_task_id started) \<and> map fst (st_tasks st) = map tr_task_id started
    \<and> store_ok st \<and> st_max_entries st = n"
proof -
  have "map fst (st_tasks st) = map tr_task_id started"
    using serve_started [OF assms(1) new_store_ok] assms(2) by (simp add: new_store_def)
  then show ?thesis
    using serve_ok [OF assms(1) new_store_ok] by (simp add: store_ok_def) (simp add: new_store_def)
qed

text \<open>C34 A captured command cannot be used again while the process lives: once a command was
  accepted, a later command with its nonce and timestamp is never accepted by the same store,
  whatever commands that store served in between, on three conditions: the time to live of a nonce
  exceeds twice the allowed clock skew plus the time the second request takes from the reading
  that verifies it to the reading that stores it; no request in between reads a later clock for the
  store than the second one; and the first request's nonce is given its expiry no earlier than the
  request was verified.  The settings do not enforce the first condition, and a restart loses the
  nonces with the store, after which nothing here refuses the command, as
  \<open>docs/THREAT_MODEL.md\<close> says.\<close>

theorem command_replay_refused:
  assumes "analyze_endpoint s parse clk1 q1 st = (TaskAccepted a1, x1, st1)" and "store_ok st"
    and "serve s parse rs st1 = (started, st2)"
    and "list_all (\<lambda>(clk, q). rk_store clk \<le> rk_store clk2) rs"
    and "cq_nonce q2 = cq_nonce q1" and "cq_timestamp q2 = cq_timestamp q1"
    and "rk_verify clk1 \<le> rk_nonce_base clk1"
    and "0 \<le> as_command_max_clock_skew_seconds s" "as_command_max_clock_skew_seconds s \<le> 2 ^ 32"
    and "rk_store clk2 - rk_verify clk2 + 2 * seconds (as_command_max_clock_skew_seconds s)
           < seconds (as_command_nonce_ttl_seconds s)"
  shows "fst (analyze_endpoint s parse clk2 q2 st2) \<noteq> TaskAccepted a2"
proof
  assume "fst (analyze_endpoint s parse clk2 q2 st2) = TaskAccepted a2"
  then obtain x2 st3 where second: "analyze_endpoint s parse clk2 q2 st2 = (TaskAccepted a2, x2, st3)"
    by (metis prod.collapse)
  have bounds: "0 \<le> ca_max_skew_seconds (authenticator_of s)" "ca_max_skew_seconds (authenticator_of s) \<le> 2 ^ 32"
    using assms(8,9) by (simp_all add: authenticator_of_def)
  from assms(1) show False
  proof (cases rule: analyze_endpoint_cases)
    case first: (stored auth1 body1 task1 ack1 res1)
    from second show False
    proof (cases rule: analyze_endpoint_cases)
      case again: (stored auth2 body2 task2 ack2 res2)
      note c1 = checked_command [OF first(1)] and c2 = checked_command [OF again(1)]
      have same: "ch_nonce auth2 = ch_nonce auth1" "ch_timestamp auth2 = ch_timestamp auth1"
        using c1(1,2) c2(1,2) assms(5,6) by simp_all
      obtain t where t: "from_timestamp (int_of_text (ch_timestamp auth1)) = Some t"
        using verified_has_time [OF c1(3)] by auto
      let ?e = "rk_nonce_base clk1 + seconds (as_command_nonce_ttl_seconds s)"
      have "t - rk_verify clk1 \<le> seconds (as_command_max_clock_skew_seconds s)"
        using verified_in_time(2) [OF c1(3) bounds t] by (simp add: authenticator_of_def)
      moreover have "rk_verify clk2 - t \<le> seconds (as_command_max_clock_skew_seconds s)"
        using verified_in_time(1) [OF c2(3) bounds, of t] t same(2) by (simp add: authenticator_of_def)
      ultimately have live: "rk_store clk2 < ?e" using assms(7,10) by linarith
      obtain a where "res1 = Inr a" using first(4) by auto
      with store_accept_nonce(2) [OF first(2) assms(2)]
      have "map_of (st_nonces st1) (ch_nonce auth1) = Some ?e" by simp
      moreover have "store_ok st1" using store_accept_ok [OF first(2) assms(2)] by simp
      moreover have "list_all (\<lambda>(clk, q). rk_store clk < ?e) rs"
        using assms(4) live by (fastforce simp: list_all_iff)
      ultimately have "map_of (st_nonces st2) (ch_nonce auth1) = Some ?e"
        using serve_nonce [OF assms(3)] by blast
      then have "fst (store_accept (ch_nonce auth2) (rk_nonce_base clk2 + seconds (as_command_nonce_ttl_seconds s))
          (rk_store clk2) (tr_task_id task2) (body_sha256 body2) ack2 st2) = Inl (HubError ''COMMAND_REPLAY'' 409)"
        using same(1) live by (simp add: live_nonce_refused)
      moreover obtain b where "res2 = Inr (a2, b)" using again(4) by auto
      ultimately show False using again(2) by simp
    qed blast
  qed blast
qed

text \<open>The lifetime the test handler gives its signal covers the time up to the task's deadline.\<close>

lemma test_signal_lifetime:
  assumes "now \<le> rnow" and "rnow \<le> now + seconds 300" and "rnow + seconds 1 \<le> deadline"
  shows "rnow \<le> now + seconds (min 300 (max 1 (trunc_rat (total_seconds (deadline - now)))))"
proof -
  let ?n = "min 300 ((deadline - now) div 1000000)"
  have n: "1 \<le> ?n" "?n \<le> 300" using assms(1,3) by simp_all
  have "seconds ?n \<le> deadline - now" by (simp add: min_def) linarith
  then have "of_int ?n \<le> total_seconds (deadline - now)"
    using skew_iff(2) [of "- ?n" "deadline - now"] n by simp
  moreover have "(0 :: rat) \<le> of_int ?n" using n by simp
  ultimately have "0 \<le> total_seconds (deadline - now)" "of_int ?n \<le> total_seconds (deadline - now)"
    by linarith+
  then have "?n \<le> trunc_rat (total_seconds (deadline - now))"
    by (simp only: trunc_rat_def le_floor_iff if_True)
  then have "?n \<le> min 300 (max 1 (trunc_rat (total_seconds (deadline - now))))" by simp
  then have "seconds ?n \<le> seconds (min 300 (max 1 (trunc_rat (total_seconds (deadline - now)))))"
    by simp
  moreover have "rnow \<le> now + seconds ?n" using assms by (simp add: min_def) linarith
  ultimately show ?thesis by linarith
qed

lemma request_of_command:
  "analysis_request c = Some task \<Longrightarrow> tr_task_id task = cm_task_id c
    \<and> tr_orchestration_run_id task = cm_orchestration_run_id c \<and> tr_snapshot_id task = cm_snapshot_id c
    \<and> tr_agent_id task = cm_agent_id c \<and> tr_asset task = cm_asset c \<and> tr_deadline task = cm_signal_deadline c"
  by (auto simp: analysis_request_def validate_task_request_def require_utc_def split: option.splits if_splits)

lemma test_signal_fields:
  assumes "test_handler mid rid now task = Some sig"
  shows "env_protocol_version sig = ''1.0''" "env_message_id sig = mid" "env_agent_id sig = tr_agent_id task"
    "env_snapshot_id sig = tr_snapshot_id task" "env_task_id sig = Some (tr_task_id task)"
    "env_orchestration_run_id sig = Some (tr_orchestration_run_id task)" "env_asset sig = tr_asset task"
    "env_data_timestamp sig = now" "env_analysis_timestamp sig = now" "env_evidence sig = []"
    "env_signal_ttl_seconds sig = min 300 (max 1 (trunc_rat (total_seconds (tr_deadline task - now))))"
  using assms
  by (auto simp: test_handler_def validate_signal_def test_handler_raw_def require_utc_def Let_def split: if_splits)

lemma test_signal_storable:
  assumes "test_handler mid rid now task = Some sig"
  shows "storable_signal sig"
proof -
  have "env_time_horizon sig = ''phase-02-system-test'' \<and> env_risk_flags sig = [''TEST_ONLY_NO_MARKET_ANALYSIS'']
    \<and> env_metadata sig = PyMap [(PyStr ''handler'', PyStr ''TestAnalysisHandler''), (PyStr ''test_only'', PyBool True)]
    \<and> [env_role_id sig, env_role_version sig, env_config_version sig, env_feature_pipeline_version sig,
         env_analysis_schema_version sig, env_data_provider sig, env_confidence_model_version sig] = replicate 7 None"
    using assms
    by (auto simp: test_handler_def validate_signal_def test_handler_raw_def require_utc_def Let_def
        numeral_nat split: if_splits)
  with test_signal_fields(10,11) [OF assms] show ?thesis
    by (simp add: storable_signal_def optional_text_def postgres_text_def numeral_nat)
qed

text \<open>The test handler's answer to a dispatched task is acceptable to the hub: the signal it
  builds for the request made of a stored task meets every condition of the intake, for an
  enabled agent that may ingest signals of this asset, an open snapshot, a fresh message
  identifier and nonce, while the task waits, when it arrives within five minutes and at least
  one second before the deadline, with a configured maximal lifetime of at least 300 seconds.\<close>

theorem test_signal_admissible:
  assumes "analysis_request (command_of t run endpoint) = Some task"
    and "test_handler mid rid now task = Some sig"
    and "get_task (t_task_id t) w = Some t'" and "same_identity t t'"
    and "t_status t' = DISPATCHING \<or> awaiting (t_status t')"
    and "get_agent (t_agent_id t) w = Some a" and "ag_enabled a" and "ag_protocol_version a = ''1.0''"
    and "''signal_ingestion'' \<in> set (ag_capabilities a)"
    and "ag_supported_assets a = [] \<or> t_asset t \<in> set (ag_supported_assets a)"
    and "get_snapshot (t_snapshot_id t) w = Some sn" and "sn_status sn = S_OPEN"
    and "sn_created_at sn \<le> now" and "rnow < sn_expires_at sn"
    and "now \<le> rnow" and "rnow \<le> now + seconds 300" and "rnow + seconds 1 \<le> t_signal_deadline t"
    and "300 \<le> ttl" and "get_signal mid w = None"
    and "(t_agent_id t, nonce) \<notin> (\<lambda>n. (nc_agent_id n, nc_nonce n)) ` set (w_nonces w)"
  shows "admissible rnow ttl sig nonce w"
proof -
  note f = test_signal_fields [OF assms(2)]
  have q: "tr_task_id task = t_task_id t" "tr_orchestration_run_id task = t_orchestration_run_id t"
    "tr_snapshot_id task = t_snapshot_id t" "tr_agent_id task = t_agent_id t" "tr_asset task = t_asset t"
    "tr_deadline task = t_signal_deadline t"
    using request_of_command [OF assms(1)] by (simp_all add: command_of_def)
  have t': "t_agent_id t' = t_agent_id t" "t_orchestration_run_id t' = t_orchestration_run_id t"
    "t_snapshot_id t' = t_snapshot_id t" "t_asset t' = t_asset t" "t_signal_deadline t' = t_signal_deadline t"
    using assms(4) by (simp_all add: same_identity_def)
  have "rnow \<le> now + seconds (env_signal_ttl_seconds sig)"
    using test_signal_lifetime [OF assms(15,16,17)] by (simp add: f q)
  moreover have "env_signal_ttl_seconds sig \<le> ttl" using assms(18) by (simp add: f)
  moreover have "rnow < t_signal_deadline t" using assms(17) by simp
  moreover note test_signal_storable [OF assms(2)]
  ultimately show ?thesis using assms(3,5-15,19,20) by (simp add: admissible_def f q t')
qed

section \<open>A sample runtime\<close>

definition sample_runtime :: runtime_settings where
  "sample_runtime =
     \<lparr>as_agent_id = ''ETH_TECH'', as_agent_role = ''technical'', as_agent_capabilities = ''technical'',
      as_agent_supported_assets = ''eth'', as_hub_url = ''https://hub'', as_hub_key_id = ''k'',
      as_hub_agent_secret = replicate 32 (CHR ''h''), as_orchestrator_id = ''orch'', as_command_key_id = ''c'',
      as_command_secret = replicate 32 (CHR ''c''), as_mode = M_TEST, as_definition_path = None,
      as_runtime_version = ''1'', as_command_max_clock_skew_seconds = 300,
      as_command_nonce_ttl_seconds = 900, as_max_task_request_bytes = 1000,
      as_market_data = default_market_data\<rparr>"

definition sample_raw_task :: "py_datetime task_request" where
  "sample_raw_task =
     \<lparr>tr_protocol_version = ''1.0'', tr_task_id = 800, tr_orchestration_run_id = 700, tr_snapshot_id = 900,
      tr_agent_id = ''ETH_TECH'', tr_asset = ''ETH'', tr_required_capability = ''technical'', tr_priority = 50,
      tr_created_at = Aware 0 0, tr_deadline = Aware (seconds 60) 0, tr_correlation_id = 701,
      tr_causation_id = None, tr_context = PyMap []\<rparr>"

definition sample_task_request :: analysis_task_request where
  "sample_task_request =
     \<lparr>tr_protocol_version = ''1.0'', tr_task_id = 800, tr_orchestration_run_id = 700, tr_snapshot_id = 900,
      tr_agent_id = ''ETH_TECH'', tr_asset = ''ETH'', tr_required_capability = ''technical'', tr_priority = 50,
      tr_created_at = 0, tr_deadline = seconds 60, tr_correlation_id = 701,
      tr_causation_id = None, tr_context = PyMap []\<rparr>"

definition sample_runtime_ack :: analysis_task_ack where
  "sample_runtime_ack = \<lparr>ack_task_id = 800, ack_agent_id = ''ETH_TECH'', ack_accepted_at = 0, ack_runtime_version = ''1''\<rparr>"

definition sample_clock :: request_clock where
  "sample_clock = \<lparr>rk_verify = 0, rk_deadline = 0, rk_accepted = 0, rk_nonce_base = 0, rk_store = 0\<rparr>"

definition sample_nonce :: string where
  "sample_nonce = replicate 22 (CHR ''a'')"

definition signed_request :: "string \<Rightarrow> command_request" where
  "signed_request body =
     (let h = build_command_headers ''orch'' ''ETH_TECH'' ''c'' (replicate 32 (CHR ''c'')) body 100 sample_nonce
      in \<lparr>cq_orchestrator_id = Some (ch_orchestrator_id h), cq_timestamp = Some (ch_timestamp h),
          cq_nonce = Some (ch_nonce h), cq_key_id = Some (ch_key_id h), cq_signature = Some (ch_signature h),
          cq_content_length = None, cq_chunks = [body]\<rparr>)"

lemma sample_checked:
  "check_command sample_runtime (\<lambda>_. Some sample_raw_task) sample_clock (signed_request [])
   = Inr (build_command_headers ''orch'' ''ETH_TECH'' ''c'' (replicate 32 (CHR ''c'')) [] 100 sample_nonce, [],
          sample_task_request, sample_runtime_ack)"
proof -
  have "nonce_pattern sample_nonce" by (simp add: nonce_pattern_def sample_nonce_def is_lower_def list_all_iff)
  from command_headers_verify [OF this, of 100 "seconds 100" "authenticator_of sample_runtime" 0 "[]"]
  have v: "command_verify (authenticator_of sample_runtime) 0
      (build_command_headers ''orch'' ''ETH_TECH'' ''c'' (replicate 32 (CHR ''c'')) [] 100 sample_nonce) [] = None"
    by (simp add: from_timestamp_def authenticator_of_def sample_runtime_def)
  have t: "validate_task_request sample_raw_task = Some sample_task_request"
    by (simp add: sample_raw_task_def sample_task_request_def validate_task_request_def require_utc_def
        agent_id_pattern_def asset_pattern_def is_upper_def is_digit_def len_between_def bounded_dict_def
        validate_bounded_json_def default_limits_def walk.simps)
  have c: "settings_capabilities sample_runtime = [''technical'']" by code_simp
  have a: "settings_supported_assets sample_runtime = [''ETH'']" by code_simp
  have "as_agent_id sample_runtime = ''ETH_TECH''" by (simp add: sample_runtime_def)
  then have m: "task_mismatch sample_runtime 0 sample_task_request = None"
    by (simp only: task_mismatch_def c a) (simp add: sample_task_request_def)
  have r: "read_limited_task_body (as_max_task_request_bytes sample_runtime)
      (cq_content_length (signed_request [])) (cq_chunks (signed_request [])) = Inr []"
    by (simp add: read_limited_task_body_def read_limited_body_def signed_request_def Let_def)
  have h: "command_auth_of (signed_request [])
      = Some (build_command_headers ''orch'' ''ETH_TECH'' ''c'' (replicate 32 (CHR ''c'')) [] 100 sample_nonce)"
    by (simp add: command_auth_of_def signed_request_def Let_def)
  have k: "validate_task_ack \<lparr>ack_task_id = tr_task_id sample_task_request, ack_agent_id = as_agent_id sample_runtime,
      ack_accepted_at = Aware 0 0, ack_runtime_version = as_runtime_version sample_runtime\<rparr> = Some sample_runtime_ack"
    by (simp add: validate_task_ack_def sample_task_request_def sample_runtime_def require_utc_def len_between_def
        sample_runtime_ack_def agent_id_pattern_def is_upper_def is_digit_def)
  show ?thesis
    by (simp add: check_command_def r h v t m k sample_clock_def)
qed

lemma sample_accepted:
  "analyze_endpoint sample_runtime (\<lambda>_. Some sample_raw_task) sample_clock (signed_request []) (new_store 4)
   = (TaskAccepted sample_runtime_ack, Some sample_task_request,
      \<lparr>st_max_entries = 4, st_nonces = [(sample_nonce, seconds 900)],
       st_tasks = [(800, \<lparr>at_body_hash = body_sha256 [], at_ack = sample_runtime_ack\<rparr>)]\<rparr>)"
  by (simp add: analyze_endpoint_def sample_checked)
    (simp add: store_accept_def new_store_def Let_def build_command_headers_def sample_clock_def
      sample_runtime_def sample_task_request_def)

theorem runtime_starts_once_witness:
  "\<exists>started st. serve sample_runtime (\<lambda>_. Some sample_raw_task)
       [(sample_clock, signed_request []), (sample_clock, signed_request [])] (new_store 4) = (started, st)
     \<and> length started \<le> 4 \<and> started \<noteq> [] \<and> distinct (map tr_task_id started)"
proof -
  let ?rs = "[(sample_clock, signed_request []), (sample_clock, signed_request [])]"
  obtain started st where s: "serve sample_runtime (\<lambda>_. Some sample_raw_task) ?rs (new_store 4) = (started, st)"
    by fastforce
  then have n: "length started \<le> 4" "started \<noteq> []"
    by (auto simp: sample_accepted split: prod.splits option.splits)
  from runtime_starts_once [OF s n(1)] s n show ?thesis by blast
qed

theorem command_replay_refused_witness:
  "\<forall>a. fst (analyze_endpoint sample_runtime (\<lambda>_. Some sample_raw_task) sample_clock (signed_request [])
     \<lparr>st_max_entries = 4, st_nonces = [(sample_nonce, seconds 900)],
      st_tasks = [(800, \<lparr>at_body_hash = body_sha256 [], at_ack = sample_runtime_ack\<rparr>)]\<rparr>) \<noteq> TaskAccepted a"
  using command_replay_refused [OF sample_accepted new_store_ok, of "[]" "[]"]
  by (simp add: sample_clock_def sample_runtime_def)

theorem test_signal_admissible_witness:
  "\<exists>task sig. analysis_request (command_of sample_task sample_run sample_endpoint) = Some task
     \<and> test_handler 500 501 (seconds 10) task = Some sig
     \<and> admissible (seconds 20) 3600 sig ''nonce'' waiting_world"
proof -
  have task: "analysis_request (command_of sample_task sample_run sample_endpoint) = Some sample_task_request"
    by (simp add: analysis_request_def command_of_def sample_rows sample_task_request_def validate_task_request_def
        require_utc_def agent_id_pattern_def asset_pattern_def is_upper_def is_digit_def len_between_def
        bounded_dict_def validate_bounded_json_def default_limits_def walk.simps)
  have "test_handler 500 501 (seconds 10) sample_task_request \<noteq> None"
    by (simp add: test_handler_def validate_signal_def test_handler_raw_def require_utc_def Let_def
        sample_task_request_def signal_fields_ok_def validate_task_lineage_def analytical_fields_def
        agent_id_pattern_def asset_pattern_def is_upper_def is_digit_def len_between_def
        max_evidence_items_def opt_max_def bounded_dict_def validate_bounded_json_def default_limits_def
        walk.simps)
  then obtain sig where sig: "test_handler 500 501 (seconds 10) sample_task_request = Some sig" by blast
  have "admissible (seconds 20) 3600 sig ''nonce'' waiting_world"
    by (rule test_signal_admissible [OF task sig, of _ "sample_task\<lparr>t_status := WAITING_SIGNAL\<rparr>" sample_agent sample_snapshot])
      (simp_all add: waiting_world_def running_world_def sample_worlds sample_rows world_defs awaiting_def
        same_identity_def)
  with task sig show ?thesis by blast
qed

end
