(* ===== verification/Market_Data.thy ===== *)
theory Market_Data
  imports Contracts Float64 Crypto
begin

text \<open>
  \<open>src/tomiris_market_data\<close> without the exchange client: the models (\<open>models.py\<close>), the quality
  gate (\<open>validation.py\<close>), the cache (\<open>cache.py\<close>) and the collector (\<open>service.py\<close>).

  The type parameters of a record are the types of its timestamps, decimals and floats: as
  parsed (\<open>py_datetime\<close>, \<open>decimal\<close>, \<open>fl\<close>) and, once the validators have passed, \<open>instant\<close> and
  \<open>rat\<close>.  The provider of the collector is an argument.
\<close>

section \<open>Models\<close>

datatype decimal = Dec rat | DecNonFinite

definition finite_decimal :: "decimal \<Rightarrow> rat option" where
  "finite_decimal d = (case d of Dec q \<Rightarrow> Some q | DecNonFinite \<Rightarrow> None)"

text \<open>A float field with a finiteness validator.\<close>

definition finite_float :: "fl \<Rightarrow> rat option" where
  "finite_float x = (case x of Fin q \<Rightarrow> Some q | _ \<Rightarrow> None)"

datatype timeframe = M15 | H1 | H4 | D1

definition timeframe_value :: "timeframe \<Rightarrow> string" where
  "timeframe_value t = (case t of M15 \<Rightarrow> ''15m'' | H1 \<Rightarrow> ''1h'' | H4 \<Rightarrow> ''4h'' | D1 \<Rightarrow> ''1d'')"

definition timeframe_seconds :: "timeframe \<Rightarrow> int" where
  "timeframe_seconds t = (case t of M15 \<Rightarrow> 900 | H1 \<Rightarrow> 3600 | H4 \<Rightarrow> 14400 | D1 \<Rightarrow> 86400)"

datatype quality = Q_VALID | Q_DEGRADED | Q_INVALID | Q_INSUFFICIENT

record ('t, 'f) provider_metadata =
  pm_provider :: string
  pm_received_at :: 't
  pm_source_timestamp :: 't
  pm_freshness_seconds :: 'f
  pm_provenance :: string

definition validate_provider_metadata ::
    "(py_datetime, fl) provider_metadata \<Rightarrow> (instant, rat) provider_metadata option" where
  "validate_provider_metadata p =
     (case (require_utc (pm_received_at p), require_utc (pm_source_timestamp p),
            finite_float (pm_freshness_seconds p)) of
        (Some received, Some source, Some fresh) \<Rightarrow>
          if len_between 1 64 (pm_provider p) \<and> 0 \<le> fresh \<and> len_between 1 256 (pm_provenance p)
          then Some \<lparr>pm_provider = pm_provider p, pm_received_at = received, pm_source_timestamp = source,
                 pm_freshness_seconds = fresh, pm_provenance = pm_provenance p\<rparr>
          else None
      | _ \<Rightarrow> None)"

record ('t, 'd, 'f) ohlcv_bar =
  br_provider :: string
  br_instrument :: string
  br_timeframe :: timeframe
  br_open_time :: 't
  br_close_time :: 't
  br_open :: 'd
  br_high :: 'd
  br_low :: 'd
  br_close :: 'd
  br_volume :: 'd
  br_received_at :: 't
  br_source_timestamp :: 't
  br_freshness_seconds :: 'f
  br_provenance :: string
  br_closed :: bool

type_synonym bar = "(instant, rat, rat) ohlcv_bar"

text \<open>\<open>OHLCVBar.validate_ohlcv\<close>\<close>

definition validate_ohlcv :: "bar \<Rightarrow> bool" where
  "validate_ohlcv b \<longleftrightarrow>
     br_open_time b < br_close_time b
     \<and> \<not> Min {br_open b, br_high b, br_low b, br_close b} \<le> 0
     \<and> \<not> br_high b < Max {br_open b, br_low b, br_close b}
     \<and> \<not> Min {br_open b, br_high b, br_close b} < br_low b
     \<and> \<not> br_volume b < 0"

definition validate_bar :: "(py_datetime, decimal, fl) ohlcv_bar \<Rightarrow> bar option" where
  "validate_bar b =
     (case (require_utc (br_open_time b), require_utc (br_close_time b), require_utc (br_received_at b),
            require_utc (br_source_timestamp b)) of
        (Some opening, Some closing, Some received, Some source) \<Rightarrow>
          (case (finite_decimal (br_open b), finite_decimal (br_high b), finite_decimal (br_low b),
                 finite_decimal (br_close b), finite_decimal (br_volume b)) of
             (Some op, Some hi, Some lo, Some cl, Some vol) \<Rightarrow>
               (case finite_float (br_freshness_seconds b) of
                  None \<Rightarrow> None
                | Some fresh \<Rightarrow>
                    let bar = \<lparr>br_provider = br_provider b, br_instrument = br_instrument b,
                          br_timeframe = br_timeframe b, br_open_time = opening, br_close_time = closing,
                          br_open = op, br_high = hi, br_low = lo, br_close = cl, br_volume = vol,
                          br_received_at = received, br_source_timestamp = source,
                          br_freshness_seconds = fresh, br_provenance = br_provenance b,
                          br_closed = br_closed b\<rparr>
                    in if len_between 1 64 (br_provider b) \<and> asset_pattern (br_instrument b) \<and> 0 \<le> fresh
                          \<and> len_between 1 256 (br_provenance b) \<and> validate_ohlcv bar
                       then Some bar else None)
           | _ \<Rightarrow> None)
      | _ \<Rightarrow> None)"

record 't market_series =
  se_provider :: string
  se_instrument :: string
  se_timeframe :: timeframe
  se_as_of :: 't
  se_bars :: "bar list"

definition validate_series :: "py_datetime market_series \<Rightarrow> instant market_series option" where
  "validate_series s =
     (case require_utc (se_as_of s) of
        None \<Rightarrow> None
      | Some as_of \<Rightarrow>
          if len_between 1 64 (se_provider s) \<and> asset_pattern (se_instrument s)
             \<and> 1 \<le> length (se_bars s) \<and> length (se_bars s) \<le> 1000
             \<and> list_all (\<lambda>b. br_provider b = se_provider s \<and> br_instrument b = se_instrument s
                  \<and> br_timeframe b = se_timeframe s) (se_bars s)
          then Some \<lparr>se_provider = se_provider s, se_instrument = se_instrument s,
                 se_timeframe = se_timeframe s, se_as_of = as_of, se_bars = se_bars s\<rparr>
          else None)"

record 't market_request =
  mq_instrument :: string
  mq_timeframe :: timeframe
  mq_minimum_bars :: int
  mq_as_of :: 't
  mq_max_data_age_seconds :: int
  mq_closed_only :: bool

definition validate_market_request :: "py_datetime market_request \<Rightarrow> instant market_request option" where
  "validate_market_request q =
     (case require_utc (mq_as_of q) of
        None \<Rightarrow> None
      | Some as_of \<Rightarrow>
          if asset_pattern (mq_instrument q) \<and> 2 \<le> mq_minimum_bars q \<and> mq_minimum_bars q \<le> 999
             \<and> 1 \<le> mq_max_data_age_seconds q \<and> mq_max_data_age_seconds q \<le> 604800
          then Some \<lparr>mq_instrument = mq_instrument q, mq_timeframe = mq_timeframe q,
                 mq_minimum_bars = mq_minimum_bars q, mq_as_of = as_of,
                 mq_max_data_age_seconds = mq_max_data_age_seconds q, mq_closed_only = mq_closed_only q\<rparr>
          else None)"

record 't market_bundle =
  mb_snapshot_id :: uuid
  mb_as_of :: 't
  mb_series :: "instant market_series list"
  mb_providers :: "(instant, rat) provider_metadata list"

definition validate_bundle :: "py_datetime market_bundle \<Rightarrow> instant market_bundle option" where
  "validate_bundle b =
     (case require_utc (mb_as_of b) of
        None \<Rightarrow> None
      | Some as_of \<Rightarrow>
          if 1 \<le> length (mb_series b) \<and> length (mb_series b) \<le> 50
             \<and> 1 \<le> length (mb_providers b) \<and> length (mb_providers b) \<le> 50
          then Some \<lparr>mb_snapshot_id = mb_snapshot_id b, mb_as_of = as_of, mb_series = mb_series b,
                 mb_providers = mb_providers b\<rparr>
          else None)"

text \<open>\<open>MarketDataBundle.get_series\<close>; \<open>None\<close> is the \<open>KeyError\<close>.\<close>

definition get_series :: "'t market_bundle \<Rightarrow> string \<Rightarrow> timeframe \<Rightarrow> instant market_series option" where
  "get_series b instrument tf =
     (case filter (\<lambda>s. se_instrument s = upper instrument \<and> se_timeframe s = tf) (mb_series b) of
        [s] \<Rightarrow> Some s
      | _ \<Rightarrow> None)"

record ('t, 'd) ticker_snapshot =
  tk_provider :: string
  tk_instrument :: string
  tk_price :: 'd
  tk_observed_at :: 't
  tk_received_at :: 't

definition validate_ticker :: "(py_datetime, decimal) ticker_snapshot \<Rightarrow> (instant, rat) ticker_snapshot option" where
  "validate_ticker t =
     (case (require_utc (tk_observed_at t), require_utc (tk_received_at t), finite_decimal (tk_price t)) of
        (Some observed, Some received, Some price) \<Rightarrow>
          if price \<le> 0 then None
          else Some \<lparr>tk_provider = tk_provider t, tk_instrument = tk_instrument t, tk_price = price,
                 tk_observed_at = observed, tk_received_at = received\<rparr>
      | _ \<Rightarrow> None)"

record ('t, 'd) market_summary =
  ms_provider :: string
  ms_instrument :: string
  ms_price_change_percent :: 'd
  ms_quote_volume :: 'd
  ms_observed_at :: 't
  ms_received_at :: 't

definition validate_summary :: "(py_datetime, decimal) market_summary \<Rightarrow> (instant, rat) market_summary option" where
  "validate_summary s =
     (case (require_utc (ms_observed_at s), require_utc (ms_received_at s),
            finite_decimal (ms_price_change_percent s), finite_decimal (ms_quote_volume s)) of
        (Some observed, Some received, Some change, Some volume) \<Rightarrow>
          if volume < 0 then None
          else Some \<lparr>ms_provider = ms_provider s, ms_instrument = ms_instrument s,
                 ms_price_change_percent = change, ms_quote_volume = volume,
                 ms_observed_at = observed, ms_received_at = received\<rparr>
      | _ \<Rightarrow> None)"

section \<open>Quality gate\<close>

record quality_report =
  qr_outcome :: quality
  qr_reason_codes :: "string list"
  qr_accepted_bars :: nat

definition invalid_report :: "string \<Rightarrow> quality_report" where
  "invalid_report reason = \<lparr>qr_outcome = Q_INVALID, qr_reason_codes = [reason], qr_accepted_bars = 0\<rparr>"

text \<open>\<open>MarketDataValidator.validate\<close>\<close>

definition check_series :: "instant market_series \<Rightarrow> instant market_request \<Rightarrow> quality_report" where
  "check_series s q =
     (let bars = se_bars s; open_times = map br_open_time bars;
          age = total_seconds (mq_as_of q - br_close_time (last bars))
      in if se_instrument s \<noteq> mq_instrument q \<or> se_timeframe s \<noteq> mq_timeframe q
         then invalid_report ''PROVIDER_MISMATCH''
         else if se_as_of s \<noteq> mq_as_of q then invalid_report ''CUTOFF_MISMATCH''
         else if int (length bars) < mq_minimum_bars q
         then \<lparr>qr_outcome = Q_INSUFFICIENT, qr_reason_codes = [''INSUFFICIENT_HISTORY''],
               qr_accepted_bars = length bars\<rparr>
         else if length (remdups open_times) \<noteq> length open_times then invalid_report ''DUPLICATE_BAR''
         else if open_times \<noteq> sort open_times then invalid_report ''NON_MONOTONIC_TIME''
         else if list_ex (\<lambda>b. mq_as_of q < br_close_time b) bars then invalid_report ''FUTURE_DATA''
         else if mq_closed_only q \<and> list_ex (\<lambda>b. \<not> br_closed b) bars then invalid_report ''OPEN_CANDLE''
         else if list_ex (\<lambda>(previous, current).
                    trunc_rat (total_seconds (br_open_time current - br_open_time previous))
                    \<noteq> timeframe_seconds (mq_timeframe q)) (zip bars (tl bars))
         then invalid_report ''DATA_GAP''
         else if age < 0 then invalid_report ''FUTURE_DATA''
         else if of_int (mq_max_data_age_seconds q) < age
         then \<lparr>qr_outcome = Q_INVALID, qr_reason_codes = [''DATA_STALE''], qr_accepted_bars = length bars\<rparr>
         else \<lparr>qr_outcome = Q_VALID, qr_reason_codes = [], qr_accepted_bars = length bars\<rparr>)"

section \<open>Cache\<close>

record 'v market_cache =
  mc_max_entries :: nat
  mc_entries :: "(string \<times> 'v \<times> instant) list"

text \<open>\<open>None\<close> is the \<open>ValueError\<close> of the constructor.\<close>

definition new_cache :: "int \<Rightarrow> 'v market_cache option" where
  "new_cache max_entries =
     (if max_entries < 1 then None else Some \<lparr>mc_max_entries = nat max_entries, mc_entries = []\<rparr>)"

definition cache_get :: "string \<Rightarrow> instant \<Rightarrow> 'v market_cache \<Rightarrow> 'v option \<times> 'v market_cache" where
  "cache_get key now c =
     (case map_of (mc_entries c) key of
        None \<Rightarrow> (None, c)
      | Some (v, expires) \<Rightarrow>
          if expires \<le> now then (None, c\<lparr>mc_entries := dict_del key (mc_entries c)\<rparr>) else (Some v, c))"

definition cache_put :: "string \<Rightarrow> 'v \<Rightarrow> instant \<Rightarrow> int \<Rightarrow> 'v market_cache \<Rightarrow> 'v market_cache" where
  "cache_put key v now ttl_seconds c =
     (let entries = (if key \<notin> fst ` set (mc_entries c) \<and> mc_max_entries c \<le> length (mc_entries c)
                     then dict_del (fst (hd (mc_entries c))) (mc_entries c) else mc_entries c)
      in c\<lparr>mc_entries := dict_set key (v, now + seconds ttl_seconds) entries\<rparr>)"

section \<open>Collector\<close>

text \<open>A \<open>MarketDataError\<close> with its code, or another exception.\<close>

datatype market_error = MarketDataError string | OtherError

text \<open>\<open>asyncio.gather\<close>: the awaitables run concurrently; the first to fail, in the order of
  completion, decides the exception, otherwise the results are in the order of the requests.\<close>

definition gather :: "nat list \<Rightarrow> (nat \<Rightarrow> 'e + 'a) \<Rightarrow> nat \<Rightarrow> 'e + 'a list" where
  "gather completion outcome n =
     (case filter (\<lambda>i. isl (outcome i)) completion of
        i # _ \<Rightarrow> Inl (projl (outcome i))
      | [] \<Rightarrow> Inr (map (\<lambda>i. projr (outcome i)) [0..<n]))"

definition series_metadata :: "instant market_series \<Rightarrow> (py_datetime, fl) provider_metadata" where
  "series_metadata s =
     (let last_bar = last (se_bars s)
      in \<lparr>pm_provider = se_provider s, pm_received_at = Aware (br_received_at last_bar) 0,
          pm_source_timestamp = Aware (br_source_timestamp last_bar) 0,
          pm_freshness_seconds = Fin (br_freshness_seconds last_bar), pm_provenance = br_provenance last_bar\<rparr>)"

definition quality_key :: "'t market_request \<Rightarrow> string" where
  "quality_key q = mq_instrument q @ '':'' @ timeframe_value (mq_timeframe q)"

type_synonym collected =
  "instant market_series list \<times> (string \<times> quality) list \<times> ((string \<times> instant) \<times> (instant, rat) provider_metadata) list"

fun collect_series ::
    "(instant market_request \<times> instant market_series) list \<Rightarrow> collected \<Rightarrow> market_error + collected" where
  "collect_series [] acc = Inr acc"
| "collect_series ((q, s) # rest) (series, quality, providers) =
     (let report = check_series s q; quality = dict_set (quality_key q) (qr_outcome report) quality
      in if qr_outcome report \<notin> {Q_VALID, Q_DEGRADED}
         then Inl (MarketDataError (case qr_reason_codes report of
                [] \<Rightarrow> ''INVALID_MARKET_DATA'' | reason # _ \<Rightarrow> reason))
         else case validate_provider_metadata (series_metadata s) of
                None \<Rightarrow> Inl OtherError
              | Some metadata \<Rightarrow>
                  collect_series rest
                    (series @ [s], quality,
                     dict_set (se_provider s, br_source_timestamp (last (se_bars s))) metadata providers))"

definition collect_market_data ::
    "nat list \<Rightarrow> (nat \<Rightarrow> market_error + instant market_series) \<Rightarrow> uuid \<Rightarrow> instant \<Rightarrow>
     instant market_request list \<Rightarrow> market_error + (instant market_bundle \<times> (string \<times> quality) list)" where
  "collect_market_data completion fetch snapshot_id as_of requests =
     (case gather completion fetch (length requests) of
        Inl e \<Rightarrow> Inl e
      | Inr fetched \<Rightarrow>
          (case collect_series (zip requests fetched) ([], [], []) of
             Inl e \<Rightarrow> Inl e
           | Inr (series, quality, providers) \<Rightarrow>
               (case validate_bundle \<lparr>mb_snapshot_id = snapshot_id, mb_as_of = Aware as_of 0,
                       mb_series = series, mb_providers = map snd providers\<rparr> of
                  None \<Rightarrow> Inl OtherError
                | Some bundle \<Rightarrow> Inr (bundle, quality))))"

section \<open>What the gate lets through\<close>

text \<open>The series a feature may be computed from, for a request.\<close>

definition clean_series :: "instant market_series \<Rightarrow> instant market_request \<Rightarrow> bool" where
  "clean_series s q \<longleftrightarrow>
     se_instrument s = mq_instrument q \<and> se_timeframe s = mq_timeframe q \<and> se_as_of s = mq_as_of q
     \<and> mq_minimum_bars q \<le> int (length (se_bars s))
     \<and> successively (\<lambda>previous current.
          seconds (timeframe_seconds (mq_timeframe q)) \<le> br_open_time current - br_open_time previous
          \<and> br_open_time current - br_open_time previous < seconds (timeframe_seconds (mq_timeframe q) + 1))
        (se_bars s)
     \<and> list_all (\<lambda>b. br_close_time b \<le> mq_as_of q \<and> (mq_closed_only q \<longrightarrow> br_closed b)) (se_bars s)
     \<and> mq_as_of q - br_close_time (last (se_bars s)) \<le> seconds (mq_max_data_age_seconds q)"

lemma timeframe_positive: "900 \<le> timeframe_seconds t \<and> timeframe_seconds t \<le> 86400"
  by (cases t) (simp_all add: timeframe_seconds_def)

text \<open>The gap test compares whole seconds.\<close>

lemma whole_seconds:
  assumes "1 \<le> n" and "n \<le> 2 ^ 31"
  shows "trunc_rat (total_seconds d) = n \<longleftrightarrow> seconds n \<le> d \<and> d < seconds (n + 1)"
proof -
  have lo: "of_int n \<le> total_seconds d \<longleftrightarrow> seconds n \<le> d"
    and hi: "of_int (n + 1) \<le> total_seconds d \<longleftrightarrow> seconds (n + 1) \<le> d"
    using assms by (intro total_seconds_ge_iff; simp)+
  show ?thesis
  proof (cases "0 \<le> total_seconds d")
    case True
    then have "trunc_rat (total_seconds d) = n \<longleftrightarrow> of_int n \<le> total_seconds d \<and> total_seconds d < of_int (n + 1)"
      by (simp add: trunc_rat_def floor_eq_iff)
    with lo hi show ?thesis by (simp add: not_le [symmetric])
  next
    case False
    then have "trunc_rat (total_seconds d) \<le> 0" by (simp add: trunc_rat_def ceiling_le_iff)
    moreover from False have "total_seconds d < of_int n" using assms by (simp add: not_le)
    ultimately show ?thesis using assms lo by auto
  qed
qed

lemma successively_zip: "successively P xs \<longleftrightarrow> list_all (\<lambda>(x, y). P x y) (zip xs (tl xs))"
  by (induction xs rule: induct_list012) auto

lemma spaced_sorted:
  assumes "successively (\<lambda>x y. d \<le> f y - f x) xs" and "0 < (d :: int)"
  shows "sorted_wrt (\<lambda>x y. f x < f y) xs"
proof -
  have "successively (\<lambda>x y. f x < f y) xs"
    using assms by (auto elim!: successively_mono)
  moreover have "transp (\<lambda>x y. f x < f y)" by (rule transpI) simp
  ultimately show ?thesis by (simp add: successively_conv_sorted_wrt)
qed

lemma strictly_sorted_times:
  assumes "sorted_wrt (\<lambda>x y. f x < (f y :: int)) xs"
  shows "distinct (map f xs)" and "sort (map f xs) = map f xs"
proof -
  have s: "sorted_wrt (<) (map f xs)" using assms by (simp add: sorted_wrt_map)
  then show "distinct (map f xs)" by (simp add: strict_sorted_iff)
  from s show "sort (map f xs) = map f xs" by (simp add: strict_sorted_iff sorted_sort_id)
qed

lemma gate_gap_free:
  "\<not> list_ex (\<lambda>(x, y). trunc_rat (total_seconds (br_open_time y - br_open_time x)) \<noteq> timeframe_seconds tf)
      (zip bars (tl bars)) \<longleftrightarrow>
   successively (\<lambda>x y. seconds (timeframe_seconds tf) \<le> br_open_time y - br_open_time x
      \<and> br_open_time y - br_open_time x < seconds (timeframe_seconds tf + 1)) bars"
  using timeframe_positive [of tf]
  by (simp add: successively_zip whole_seconds list_ex_iff list_all_iff case_prod_beta)

lemma gate_VALID:
  assumes "0 \<le> mq_max_data_age_seconds q" and "mq_max_data_age_seconds q \<le> 2 ^ 31" and "1 \<le> mq_minimum_bars q"
  shows "qr_outcome (check_series s q) = Q_VALID \<longleftrightarrow> clean_series s q"
proof
  have age: "total_seconds d \<le> of_int (mq_max_data_age_seconds q) \<longleftrightarrow> d \<le> seconds (mq_max_data_age_seconds q)" for d
    using assms(1,2) by (intro total_seconds_le_iff) simp
  then have old: "of_int (mq_max_data_age_seconds q) < total_seconds d \<longleftrightarrow> seconds (mq_max_data_age_seconds q) < d" for d
    by (metis not_le)
  have neg: "total_seconds d < 0 \<longleftrightarrow> d < 0" for d
    using total_seconds_ge_iff [of 0 d] by (simp add: not_le [symmetric])
  {
    assume "qr_outcome (check_series s q) = Q_VALID"
    then show "clean_series s q"
      unfolding check_series_def Let_def gate_gap_free [of "mq_timeframe q", symmetric]
        clean_series_def
      by (auto simp: invalid_report_def age gate_gap_free list_ex_iff list_all_iff not_less split: if_splits)
  next
    assume c: "clean_series s q"
    then have sp: "successively (\<lambda>x y. seconds (timeframe_seconds (mq_timeframe q)) \<le> br_open_time y - br_open_time x) (se_bars s)"
      by (auto simp: clean_series_def elim: successively_mono)
    have "0 < seconds (timeframe_seconds (mq_timeframe q))" using timeframe_positive [of "mq_timeframe q"] by simp
    from strictly_sorted_times [OF spaced_sorted [OF sp this]]
    have order: "length (remdups (map br_open_time (se_bars s))) = length (map br_open_time (se_bars s))"
      "sort (map br_open_time (se_bars s)) = map br_open_time (se_bars s)"
      by (simp_all add: distinct_remdups_id)
    have "se_bars s \<noteq> []" using c assms(3) by (auto simp: clean_series_def)
    then have "br_close_time (last (se_bars s)) \<le> mq_as_of q"
      using c by (auto simp: clean_series_def list_all_iff)
    then have "0 \<le> mq_as_of q - br_close_time (last (se_bars s))" by simp
    with c order gate_gap_free [of "mq_timeframe q" "se_bars s"] show "qr_outcome (check_series s q) = Q_VALID"
      by (auto simp: check_series_def Let_def clean_series_def old neg list_ex_iff list_all_iff)
  }
qed

lemma gate_never_DEGRADED: "qr_outcome (check_series s q) \<noteq> Q_DEGRADED"
  by (simp add: check_series_def Let_def invalid_report_def)

text \<open>The collector keeps the series in the order of the requests, all past the gate.\<close>

definition sane_request :: "'t market_request \<Rightarrow> bool" where
  "sane_request q \<longleftrightarrow> 1 \<le> mq_minimum_bars q \<and> 0 \<le> mq_max_data_age_seconds q
     \<and> mq_max_data_age_seconds q \<le> 2 ^ 31"

lemma validated_request_sane: "validate_market_request q = Some q' \<Longrightarrow> sane_request q'"
  by (auto simp: validate_market_request_def sane_request_def split: option.splits if_splits)

lemma collect_series_clean:
  "collect_series qss (series, quality, providers) = Inr (series', quality', providers') \<Longrightarrow>
   list_all (\<lambda>(q, s). sane_request q) qss \<Longrightarrow>
   series' = series @ map snd qss \<and> list_all (\<lambda>(q, s). clean_series s q) qss"
proof (induction qss arbitrary: series quality providers)
  case (Cons qs qss)
  obtain q s where qs: "qs = (q, s)" by fastforce
  have valid: "qr_outcome (check_series s q) = Q_VALID"
    using Cons.prems(1) gate_never_DEGRADED [of s q] by (auto simp: qs Let_def split: if_splits)
  then obtain m where m: "validate_provider_metadata (series_metadata s) = Some m"
    and rest: "collect_series qss (series @ [s], dict_set (quality_key q) Q_VALID quality,
        dict_set (se_provider s, br_source_timestamp (last (se_bars s))) m providers) = Inr (series', quality', providers')"
    using Cons.prems(1) by (auto simp: qs Let_def split: option.splits)
  have "clean_series s q"
    using valid Cons.prems(2) gate_VALID [of q s] by (simp add: qs sane_request_def)
  with Cons.IH [OF rest] Cons.prems(2) show ?case by (simp add: qs)
qed simp

lemma gather_Inr:
  assumes "gather completion outcome n = Inr xs" and "{..<n} \<subseteq> set completion"
  shows "length xs = n \<and> (\<forall>i < n. outcome i = Inr (xs ! i))"
proof -
  have "filter (\<lambda>i. isl (outcome i)) completion = []" and xs: "xs = map (\<lambda>i. projr (outcome i)) [0..<n]"
    using assms(1) by (auto simp: gather_def split: list.splits)
  then have "\<forall>i < n. \<not> isl (outcome i)" using assms(2) by (auto simp: filter_empty_conv)
  with xs show ?thesis by (auto simp: sum.collapse(2))
qed

lemma validate_bundle_same:
  "validate_bundle \<lparr>mb_snapshot_id = i, mb_as_of = Aware t 0, mb_series = ss, mb_providers = ps\<rparr> = Some b \<Longrightarrow>
   mb_snapshot_id b = i \<and> mb_as_of b = t \<and> mb_series b = ss \<and> mb_providers b = ps"
  by (auto simp: validate_bundle_def require_utc_def split: if_splits)

section \<open>The cache as an interface\<close>

datatype 'v cache_op = Put string 'v instant int | Get string instant

locale keyed_cache =
  fixes get :: "string \<Rightarrow> instant \<Rightarrow> 'c \<Rightarrow> 'v option \<times> 'c"
    and put :: "string \<Rightarrow> 'v \<Rightarrow> instant \<Rightarrow> int \<Rightarrow> 'c \<Rightarrow> 'c"
    and inv :: "'c \<Rightarrow> bool"
  assumes put_inv: "inv c \<Longrightarrow> inv (put k v now ttl c)"
    and get_inv: "inv c \<Longrightarrow> inv (snd (get k now c))"
    and put_get: "inv c \<Longrightarrow> now' < now + seconds ttl \<Longrightarrow> fst (get k now' (put k v now ttl c)) = Some v"
    and put_only: "inv c \<Longrightarrow> fst (get k t (put k' v now ttl c)) = Some x \<Longrightarrow>
      k = k' \<and> x = v \<and> t < now + seconds ttl \<or> k \<noteq> k' \<and> fst (get k t c) = Some x"
    and get_only: "inv c \<Longrightarrow> fst (get k t (snd (get k' now c))) = Some x \<Longrightarrow> fst (get k t c) = Some x"
begin

fun op_step :: "'v cache_op \<Rightarrow> 'c \<Rightarrow> 'c" where
  "op_step (Put k v now ttl) c = put k v now ttl c"
| "op_step (Get k now) c = snd (get k now c)"

lemma step_inv: "inv c \<Longrightarrow> inv (op_step a c)"
  by (cases a) (simp_all add: put_inv get_inv)

lemma fold_inv: "inv c \<Longrightarrow> inv (fold op_step ops c)"
  by (induction ops arbitrary: c) (simp_all add: step_inv)

lemma step_origin:
  "inv c \<Longrightarrow> fst (get k t (op_step a c)) = Some x \<Longrightarrow>
   (\<exists>now ttl. a = Put k x now ttl \<and> t < now + seconds ttl) \<or>
   fst (get k t c) = Some x \<and> (\<forall>v now ttl. a \<noteq> Put k v now ttl)"
  by (cases a) (auto dest: put_only get_only)

text \<open>What a lookup returns is the value of the last insertion under the key, still alive.\<close>

lemma returned_was_put:
  assumes "inv c" and "fst (get k t c) = None"
    and "fst (get k t (fold op_step ops c)) = Some x"
  shows "\<exists>before now ttl after. ops = before @ Put k x now ttl # after \<and> t < now + seconds ttl
    \<and> (\<forall>v now ttl. Put k v now ttl \<notin> set after)"
  using assms(3)
proof (induction ops rule: rev_induct)
  case Nil
  with assms(2) show ?case by simp
next
  case (snoc a ops)
  have "inv (fold op_step ops c)" using assms(1) by (rule fold_inv)
  moreover have "fst (get k t (op_step a (fold op_step ops c))) = Some x" using snoc.prems by simp
  ultimately consider now ttl where "a = Put k x now ttl" "t < now + seconds ttl"
    | "fst (get k t (fold op_step ops c)) = Some x" "\<forall>v now ttl. a \<noteq> Put k v now ttl"
    using step_origin by blast
  then show ?case
  proof cases
    case 1
    then show ?thesis by (intro exI [of _ ops] exI [of _ now] exI [of _ ttl] exI [of _ "[]"]) simp
  next
    case 2
    from snoc.IH [OF this(1)] obtain before now ttl after where
      "ops = before @ Put k x now ttl # after" "t < now + seconds ttl" "\<forall>v now ttl. Put k v now ttl \<notin> set after"
      by blast
    with 2(2) show ?thesis
      by (intro exI [of _ before] exI [of _ now] exI [of _ ttl] exI [of _ "after @ [a]"]) auto
  qed
qed

end

definition cache_ok :: "'v market_cache \<Rightarrow> bool" where
  "cache_ok c \<longleftrightarrow> 1 \<le> mc_max_entries c \<and> length (mc_entries c) \<le> mc_max_entries c
     \<and> distinct (map fst (mc_entries c))"

lemma length_dict_del: "length (dict_del k d) \<le> length d"
  by (simp add: dict_del_def)

lemma length_dict_del_hd: "d \<noteq> [] \<Longrightarrow> length (dict_del (fst (hd d)) d) < length d"
  by (cases d) (auto simp: dict_del_def le_imp_less_Suc)

lemma length_dict_set_le: "length (dict_set k v d) \<le> Suc (length d)"
  by (simp add: length_dict_set)

lemma cache_put_ok:
  assumes "cache_ok c"
  shows "cache_ok (cache_put k v now ttl c)"
proof (cases "k \<notin> fst ` set (mc_entries c) \<and> mc_max_entries c \<le> length (mc_entries c)")
  case True
  let ?d = "dict_del (fst (hd (mc_entries c))) (mc_entries c)"
  have "mc_entries c \<noteq> []" using True assms by (auto simp: cache_ok_def)
  then have "length (dict_set k (v, now + seconds ttl) ?d) \<le> mc_max_entries c"
    using length_dict_del_hd [of "mc_entries c"] length_dict_set_le [of k "(v, now + seconds ttl)" ?d] assms
    by (simp add: cache_ok_def)
  with True assms show ?thesis
    by (simp add: cache_ok_def cache_put_def distinct_dict_set distinct_dict_del)
next
  case False
  with assms show ?thesis
    by (auto simp: cache_ok_def cache_put_def length_dict_set distinct_dict_set)
qed

lemma cache_get_ok: "cache_ok c \<Longrightarrow> cache_ok (snd (cache_get k now c))"
  by (auto simp: cache_ok_def cache_get_def distinct_dict_del intro: le_trans [OF length_dict_del]
      split: option.splits)

lemma cache_get_fst:
  "fst (cache_get k t c) = Some x \<longleftrightarrow> (\<exists>e. map_of (mc_entries c) k = Some (x, e) \<and> t < e)"
  by (auto simp: cache_get_def not_le split: option.splits)

interpretation memory_cache: keyed_cache cache_get cache_put cache_ok
proof
  fix c :: "'v market_cache" and k k' v x and now now' t :: instant and ttl
  show "cache_ok c \<Longrightarrow> cache_ok (cache_put k v now ttl c)" by (rule cache_put_ok)
  show "cache_ok c \<Longrightarrow> cache_ok (snd (cache_get k now c))" by (rule cache_get_ok)
  show "now' < now + seconds ttl \<Longrightarrow> fst (cache_get k now' (cache_put k v now ttl c)) = Some v"
    by (simp add: cache_get_fst cache_put_def Let_def)
  show "fst (cache_get k t (cache_put k' v now ttl c)) = Some x \<Longrightarrow>
      k = k' \<and> x = v \<and> t < now + seconds ttl \<or> k \<noteq> k' \<and> fst (cache_get k t c) = Some x"
    by (auto simp: cache_get_fst cache_put_def Let_def split: if_splits)
  show "fst (cache_get k t (snd (cache_get k' now c))) = Some x \<Longrightarrow> fst (cache_get k t c) = Some x"
    unfolding cache_get_fst by (auto simp: cache_get_def split: option.splits if_splits)
qed

section \<open>The collector keeps what is clean\<close>

lemma collect_market_data_clean:
  assumes "collect_market_data completion fetch snapshot_id as_of requests = Inr (b, quality)"
    and "{..<length requests} \<subseteq> set completion"
    and "list_all (\<lambda>q. \<exists>raw. validate_market_request raw = Some q) requests"
  shows "mb_snapshot_id b = snapshot_id \<and> mb_as_of b = as_of
    \<and> list_all2 clean_series (mb_series b) requests
    \<and> (\<forall>i < length requests. fetch i = Inr (mb_series b ! i))
    \<and> list_all2 (\<lambda>s q. list_all (\<lambda>bar. br_close_time bar \<le> mq_as_of q) (se_bars s)) (mb_series b) requests"
proof -
  obtain fetched where f: "gather completion fetch (length requests) = Inr fetched"
    using assms(1) by (auto simp: collect_market_data_def split: sum.splits)
  note g = gather_Inr [OF f assms(2)]
  obtain series q providers where c: "collect_series (zip requests fetched) ([], [], []) = Inr (series, q, providers)"
    and b: "validate_bundle \<lparr>mb_snapshot_id = snapshot_id, mb_as_of = Aware as_of 0, mb_series = series,
        mb_providers = map snd providers\<rparr> = Some b"
    using assms(1) f by (auto simp: collect_market_data_def split: sum.splits option.splits)
  have sane: "list_all (\<lambda>(q, s). sane_request q) (zip requests fetched)"
    using assms(3) validated_request_sane
    by (auto simp: list_all_iff dest!: set_zip_leftD)
  from collect_series_clean [OF c sane] g
  have series: "series = fetched" and clean: "list_all (\<lambda>(q, s). clean_series s q) (zip requests fetched)"
    by simp_all
  have all2: "list_all2 clean_series fetched requests"
    using clean g by (simp add: list_all2_conv_all_nth list_all_length)
  then have "list_all2 (\<lambda>s q. list_all (\<lambda>bar. br_close_time bar \<le> mq_as_of q) (se_bars s)) fetched requests"
    by (rule list_all2_mono) (auto simp: clean_series_def list_all_iff)
  with all2 g series validate_bundle_same [OF b] show ?thesis by simp
qed

section \<open>Properties\<close>

text \<open>C10 The quality gate is exact: for every request that passed its own validation, a series is
  reported VALID if and only if it is of the requested instrument, timeframe and cutoff, has at
  least the minimum of bars, its open times advance bar by bar by the timeframe (to the whole
  second), no bar closes after the cutoff nor is still open where only closed bars are wanted,
  and the last bar is not older than allowed.\<close>

theorem quality_gate_exact:
  assumes "validate_market_request raw = Some q"
  shows "qr_outcome (check_series s q) = Q_VALID \<longleftrightarrow> clean_series s q"
  using validated_request_sane [OF assms] by (intro gate_VALID) (simp_all add: sane_request_def)

text \<open>C9 No look-ahead and no unchecked data: a bundle the collector returns holds, in the order of
  the requests, exactly the series the provider answered, and every one of them is clean for its
  request; in particular no bar of the bundle closes after the cutoff of its request.  This
  holds for every provider, whatever it answers and in whatever order.\<close>

theorem collected_is_clean:
  assumes "collect_market_data completion fetch snapshot_id as_of requests = Inr (b, quality)"
    and "{..<length requests} \<subseteq> set completion"
    and "list_all (\<lambda>q. \<exists>raw. validate_market_request raw = Some q) requests"
  shows "mb_snapshot_id b = snapshot_id \<and> mb_as_of b = as_of
    \<and> list_all2 clean_series (mb_series b) requests
    \<and> (\<forall>i < length requests. fetch i = Inr (mb_series b ! i))
    \<and> list_all2 (\<lambda>s q. list_all (\<lambda>bar. br_close_time bar \<le> mq_as_of q) (se_bars s)) (mb_series b) requests"
  using assms by (rule collect_market_data_clean)

text \<open>The cache answers with what was stored: after any sequence of operations on a new cache
  of at least one entry, a lookup returns a value only if it is the value of the last insertion
  under exactly this key and that insertion is still alive at the time of the lookup; the cache
  never holds more than its maximum of entries.\<close>

theorem cache_lookup:
  assumes "new_cache n = Some c" and "c' = fold (memory_cache.op_step) ops c"
  shows "(fst (cache_get k t c') = Some v \<longrightarrow>
      (\<exists>before now ttl after. ops = before @ Put k v now ttl # after \<and> t < now + seconds ttl
         \<and> (\<forall>v now ttl. Put k v now ttl \<notin> set after)))
    \<and> length (mc_entries c') \<le> nat n"
proof -
  have ok: "cache_ok c" and empty: "fst (cache_get k t c) = None" and n: "mc_max_entries c = nat n"
    using assms(1) by (auto simp: new_cache_def cache_ok_def cache_get_def split: if_splits)
  have "mc_max_entries (memory_cache.op_step a d) = mc_max_entries d" for a and d :: "'a market_cache"
    by (cases a) (auto simp: cache_put_def cache_get_def Let_def split: option.splits)
  then have "mc_max_entries (fold memory_cache.op_step ops d) = mc_max_entries d" for d :: "'a market_cache" and ops
    by (induction ops arbitrary: d) simp_all
  moreover have "cache_ok c'" unfolding assms(2) by (rule memory_cache.fold_inv [OF ok])
  ultimately have "length (mc_entries c') \<le> nat n" using assms(2) n by (simp add: cache_ok_def)
  with memory_cache.returned_was_put [OF ok empty] assms(2) show ?thesis by blast
qed

theorem cache_lookup_witness:
  "\<exists>c :: nat market_cache. new_cache 1 = Some c
     \<and> length (mc_entries (fold memory_cache.op_step [Put ''a'' 1 0 10, Put ''b'' 2 0 10] c)) \<le> 1
     \<and> fst (cache_get ''b'' 5 (fold memory_cache.op_step [Put ''a'' 1 0 10, Put ''b'' 2 0 10] c)) = Some 2"
proof -
  let ?c = "\<lparr>mc_max_entries = 1, mc_entries = []\<rparr> :: nat market_cache"
  have c: "new_cache 1 = Some ?c" by (simp add: new_cache_def)
  have "fst (cache_get ''b'' 5 (fold memory_cache.op_step [Put ''a'' 1 0 10, Put ''b'' 2 0 10] ?c)) = Some 2"
    by (simp add: cache_get_def cache_put_def dict_del_def)
  with c cache_lookup [OF c refl, of _ _ "[Put ''a'' 1 0 10, Put ''b'' 2 0 10]"] show ?thesis by auto
qed

section \<open>Witnesses\<close>

definition sample_bar :: "instant \<Rightarrow> rat \<Rightarrow> bar" where
  "sample_bar opening price =
     \<lparr>br_provider = ''binance-public'', br_instrument = ''ETHUSDT'', br_timeframe = M15,
      br_open_time = opening, br_close_time = opening + seconds 900, br_open = price, br_high = price,
      br_low = price, br_close = price, br_volume = 1, br_received_at = opening + seconds 901,
      br_source_timestamp = opening + seconds 900, br_freshness_seconds = 0,
      br_provenance = ''binance:/api/v3/klines'', br_closed = True\<rparr>"

definition sample_series :: "instant market_series" where
  "sample_series =
     \<lparr>se_provider = ''binance-public'', se_instrument = ''ETHUSDT'', se_timeframe = M15,
      se_as_of = seconds 1800, se_bars = [sample_bar 0 100, sample_bar (seconds 900) 101]\<rparr>"

definition sample_market_request :: "'t \<Rightarrow> 't market_request" where
  "sample_market_request as_of =
     \<lparr>mq_instrument = ''ETHUSDT'', mq_timeframe = M15, mq_minimum_bars = 2, mq_as_of = as_of,
      mq_max_data_age_seconds = 60, mq_closed_only = True\<rparr>"

lemma sample_request_valid:
  "validate_market_request (sample_market_request (Aware (seconds 1800) 0))
   = Some (sample_market_request (seconds 1800))"
  by (simp add: validate_market_request_def sample_market_request_def require_utc_def asset_pattern_def
      is_upper_def is_digit_def)

lemma sample_clean: "clean_series sample_series (sample_market_request (seconds 1800))"
  by (simp add: clean_series_def sample_series_def sample_market_request_def sample_bar_def timeframe_seconds_def)

theorem quality_gate_exact_witness:
  "qr_outcome (check_series sample_series (sample_market_request (seconds 1800))) = Q_VALID"
  using quality_gate_exact [OF sample_request_valid] sample_clean by blast

lemma sample_collected:
  "\<exists>b quality. collect_market_data [0] (\<lambda>_. Inr sample_series) 900 (seconds 1800)
     [sample_market_request (seconds 1800)] = Inr (b, quality)"
proof -
  have v: "qr_outcome (check_series sample_series (sample_market_request (seconds 1800))) = Q_VALID"
    using gate_VALID [of "sample_market_request (seconds 1800)" sample_series] sample_clean
    by (simp add: sample_market_request_def)
  show ?thesis
    using v by (simp add: collect_market_data_def gather_def Let_def validate_provider_metadata_def
        series_metadata_def sample_series_def sample_bar_def require_utc_def finite_float_def len_between_def
        validate_bundle_def)
qed

theorem collected_is_clean_witness:
  "\<exists>b quality. collect_market_data [0] (\<lambda>_. Inr sample_series) 900 (seconds 1800)
     [sample_market_request (seconds 1800)] = Inr (b, quality) \<and> mb_series b = [sample_series]"
proof -
  obtain b quality where c: "collect_market_data [0] (\<lambda>_. Inr sample_series) 900 (seconds 1800)
     [sample_market_request (seconds 1800)] = Inr (b, quality)"
    using sample_collected by blast
  have req: "list_all (\<lambda>q. \<exists>raw. validate_market_request raw = Some q) [sample_market_request (seconds 1800)]"
    using sample_request_valid by auto
  have all: "{..<length [sample_market_request (seconds 1800)]} \<subseteq> set [0::nat]" by auto
  from collected_is_clean [OF c all req] have "mb_series b = [sample_series]"
    by (auto simp: list_all2_Cons2)
  with c show ?thesis by blast
qed

end
