(* ===== verification/Features.thy ===== *)
theory Features
  imports Market_Data
begin

text \<open>
  \<open>src/tomiris_features\<close>: the indicators (\<open>indicators.py\<close>), their results (\<open>models.py\<close>) and the
  pipeline (\<open>pipeline.py\<close>).  All arithmetic is that of Python floats (\<open>Float64\<close>): a decimal is
  converted by \<open>fl_of\<close>, sums are compensated, a division may raise.  \<open>ln64\<close> is the platform's
  logarithm of a positive finite float, an argument.
\<close>

section \<open>Results\<close>

record feature_result =
  fr_feature_name :: string
  fr_feature_version :: string
  fr_parameters :: "(string \<times> int) list"
  fr_values :: "(string \<times> rat) list"
  fr_timeframe :: timeframe
  fr_as_of :: instant
  fr_valid :: bool
  fr_reason_code :: "string option"

datatype feature_error = ValueRaised | ZeroDivisionRaised | OtherRaised

text \<open>The constructor with its validator of \<open>values\<close>.\<close>

definition finite_values :: "(string \<times> fl) list \<Rightarrow> bool" where
  "finite_values values \<longleftrightarrow> length values \<le> 10 \<and> list_all (\<lambda>(k, v). finite_fl v) values"

definition fl_val :: "fl \<Rightarrow> rat" where
  "fl_val x = (case x of Fin q \<Rightarrow> q | _ \<Rightarrow> 0)"

definition feature_valid ::
    "string \<Rightarrow> string \<Rightarrow> (string \<times> int) list \<Rightarrow> (string \<times> fl) list \<Rightarrow> instant market_series \<Rightarrow>
     feature_error + feature_result" where
  "feature_valid name version parameters values s =
     (if finite_values values
      then Inr \<lparr>fr_feature_name = name, fr_feature_version = version, fr_parameters = parameters,
             fr_values = map (map_prod id fl_val) values, fr_timeframe = se_timeframe s,
             fr_as_of = br_close_time (last (se_bars s)), fr_valid = True, fr_reason_code = None\<rparr>
      else Inl ValueRaised)"

definition feature_invalid ::
    "string \<Rightarrow> string \<Rightarrow> instant market_series \<Rightarrow> (string \<times> int) list \<Rightarrow> feature_error + feature_result" where
  "feature_invalid name version s parameters =
     Inr \<lparr>fr_feature_name = name, fr_feature_version = version, fr_parameters = parameters,
        fr_values = [], fr_timeframe = se_timeframe s, fr_as_of = br_close_time (last (se_bars s)),
        fr_valid = False, fr_reason_code = Some ''INSUFFICIENT_HISTORY''\<rparr>"

section \<open>Indicators\<close>

definition closes :: "instant market_series \<Rightarrow> fl list" where
  "closes s = map (\<lambda>b. fl_of (br_close b)) (se_bars s)"

definition n_bars :: "instant market_series \<Rightarrow> int" where
  "n_bars s = int (length (se_bars s))"

text \<open>A division whose divisor is zero raises; the rest of the computation follows.\<close>

definition divide_then :: "fl \<Rightarrow> fl \<Rightarrow> (fl \<Rightarrow> feature_error + 'a) \<Rightarrow> feature_error + 'a" where
  "divide_then x y rest = (case fl_div x y of None \<Rightarrow> Inl ZeroDivisionRaised | Some q \<Rightarrow> rest q)"

subsection \<open>EMA\<close>

text \<open>The multiplier \<open>2.0 / (period + 1.0)\<close>, for a positive period.\<close>

definition ema_multiplier :: "int \<Rightarrow> fl" where
  "ema_multiplier period = fl_of (2 / rnd64 (of_int period + 1))"

fun ema_from :: "fl \<Rightarrow> fl \<Rightarrow> fl list \<Rightarrow> fl list" where
  "ema_from m previous [] = []"
| "ema_from m previous (v # vs) =
     (let e = fl_add (fl_mul (fl_sub v previous) m) previous in e # ema_from m e vs)"

definition ema_values :: "fl list \<Rightarrow> int \<Rightarrow> fl list" where
  "ema_values values period =
     (case values of [] \<Rightarrow> [] | v # vs \<Rightarrow> v # ema_from (ema_multiplier period) v vs)"

definition ema_feature :: "int \<Rightarrow> instant market_series \<Rightarrow> feature_error + feature_result" where
  "ema_feature period s =
     (if period < 2 \<or> n_bars s < period then feature_invalid ''ema'' ''ema.v1'' s [(''period'', period)]
      else feature_valid ''ema'' ''ema.v1'' [(''period'', period)]
             [(''ema'', last (ema_values (closes s) period))] s)"

subsection \<open>RSI\<close>

definition changes :: "fl list \<Rightarrow> fl list" where
  "changes values = map (\<lambda>(previous, current). fl_sub current previous) (zip values (tl values))"

text \<open>Wilder's smoothing: \<open>((avg * (period - 1)) + x) / period\<close>, period at least 2.\<close>

definition wilder :: "int \<Rightarrow> fl \<Rightarrow> fl \<Rightarrow> fl" where
  "wilder period avg x = the (fl_div (fl_add (fl_mul avg (Fin (of_int (period - 1)))) x) (Fin (of_int period)))"

definition wilder_average :: "int \<Rightarrow> fl list \<Rightarrow> fl" where
  "wilder_average period xs =
     foldl (wilder period)
       (the (fl_div (py_sum (take (nat period) xs)) (Fin (of_int period)))) (drop (nat period) xs)"

definition rsi_value :: "fl \<Rightarrow> fl \<Rightarrow> feature_error + fl" where
  "rsi_value avg_gain avg_loss =
     (if fl_eq avg_loss (Fin 0) \<and> fl_eq avg_gain (Fin 0) then Inr (Fin 50)
      else if fl_eq avg_loss (Fin 0) then Inr (Fin 100)
      else divide_then avg_gain avg_loss (\<lambda>r.
             divide_then (Fin 100) (fl_add (Fin 1) r) (\<lambda>d. Inr (fl_sub (Fin 100) d))))"

definition clamp :: "fl \<Rightarrow> fl \<Rightarrow> fl \<Rightarrow> fl" where
  "clamp lo hi x = py_min hi (py_max lo x)"

definition rsi_feature :: "int \<Rightarrow> instant market_series \<Rightarrow> feature_error + feature_result" where
  "rsi_feature period s =
     (if period < 2 \<or> n_bars s \<le> period
      then feature_invalid ''rsi'' ''rsi.wilder.v1'' s [(''period'', period)]
      else
        let cs = changes (closes s);
            gains = map (\<lambda>c. py_max c (Fin 0)) cs;
            losses = map (\<lambda>c. py_max (fl_neg c) (Fin 0)) cs
        in case rsi_value (wilder_average period gains) (wilder_average period losses) of
             Inl e \<Rightarrow> Inl e
           | Inr rsi \<Rightarrow> feature_valid ''rsi'' ''rsi.wilder.v1'' [(''period'', period)]
               [(''rsi'', clamp (Fin 0) (Fin 100) rsi)] s)"

subsection \<open>MACD\<close>

definition macd_feature :: "int \<Rightarrow> int \<Rightarrow> int \<Rightarrow> instant market_series \<Rightarrow> feature_error + feature_result" where
  "macd_feature fast slow signal s =
     (let parameters = [(''fast'', fast), (''slow'', slow), (''signal'', signal)] in
      if fast < 2 \<or> slow \<le> fast \<or> signal < 2 \<or> n_bars s < slow + signal
      then feature_invalid ''macd'' ''macd.v1'' s parameters
      else
        let macd_values = map2 fl_sub (ema_values (closes s) fast) (ema_values (closes s) slow);
            signal_values = ema_values macd_values signal;
            histogram = fl_sub (last macd_values) (last signal_values)
        in feature_valid ''macd'' ''macd.v1'' parameters
             [(''macd'', last macd_values), (''signal'', last signal_values), (''histogram'', histogram)] s)"

subsection \<open>ATR\<close>

fun true_ranges :: "fl option \<Rightarrow> bar list \<Rightarrow> fl list" where
  "true_ranges previous_close [] = []"
| "true_ranges previous_close (b # bs) =
     (let high = fl_of (br_high b); low = fl_of (br_low b); range = fl_sub high low;
          range = (case previous_close of
                     None \<Rightarrow> range
                   | Some p \<Rightarrow> py_max (py_max range (fl_abs (fl_sub high p))) (fl_abs (fl_sub low p)))
      in range # true_ranges (Some (fl_of (br_close b))) bs)"

definition atr_feature :: "int \<Rightarrow> instant market_series \<Rightarrow> feature_error + feature_result" where
  "atr_feature period s =
     (if period < 2 \<or> n_bars s \<le> period
      then feature_invalid ''atr'' ''atr.wilder.v1'' s [(''period'', period)]
      else
        let atr = wilder_average period (true_ranges None (se_bars s))
        in divide_then atr (fl_of (br_close (last (se_bars s)))) (\<lambda>percent.
             feature_valid ''atr'' ''atr.wilder.v1'' [(''period'', period)]
               [(''atr'', atr), (''atr_percent'', percent)] s))"

subsection \<open>Return\<close>

definition return_feature :: "int \<Rightarrow> instant market_series \<Rightarrow> feature_error + feature_result" where
  "return_feature lookback s =
     (if lookback < 1 \<or> n_bars s \<le> lookback
      then feature_invalid ''return'' ''return.simple.v1'' s [(''lookback'', lookback)]
      else divide_then (fl_of (br_close (last (se_bars s))))
             (fl_of (br_close (se_bars s ! nat (n_bars s - 1 - lookback)))) (\<lambda>ratio.
               feature_valid ''return'' ''return.simple.v1'' [(''lookback'', lookback)]
                 [(''return'', fl_sub ratio (Fin 1))] s))"

subsection \<open>Realized volatility\<close>

definition math_log :: "(rat \<Rightarrow> rat) \<Rightarrow> fl \<Rightarrow> feature_error + fl" where
  "math_log ln64 x =
     (case x of
        Fin q \<Rightarrow> if q \<le> 0 then Inl ValueRaised else Inr (Fin (ln64 q))
      | PInf \<Rightarrow> Inr PInf
      | NInf \<Rightarrow> Inl ValueRaised
      | NaN \<Rightarrow> Inr NaN)"

fun log_returns :: "(rat \<Rightarrow> rat) \<Rightarrow> fl list \<Rightarrow> feature_error + fl list" where
  "log_returns ln64 (previous # current # rest) =
     divide_then current previous (\<lambda>ratio.
       case math_log ln64 ratio of
         Inl e \<Rightarrow> Inl e
       | Inr r \<Rightarrow> (case log_returns ln64 (current # rest) of Inl e \<Rightarrow> Inl e | Inr rs \<Rightarrow> Inr (r # rs)))"
| "log_returns ln64 _ = Inr []"

text \<open>\<open>statistics.pstdev\<close>: the exact variance, then the correctly rounded square root as the
  library computes it (\<open>_float_sqrt_of_frac\<close>).\<close>

function isqrt :: "int \<Rightarrow> int" where
  "isqrt n = (if n \<le> 0 then 0 else let r = 2 * isqrt (n div 4) in if (r + 1) * (r + 1) \<le> n then r + 1 else r)"
  by pat_completeness auto

termination isqrt
  by (relation "measure nat") auto

declare isqrt.simps [simp del]

definition isqrt_frac_rto :: "int \<Rightarrow> int \<Rightarrow> int" where
  "isqrt_frac_rto n m = (let a = isqrt (n div m) in if a * a * m \<noteq> n \<and> even a then a + 1 else a)"

definition float_sqrt_of_frac :: "int \<Rightarrow> int \<Rightarrow> rat" where
  "float_sqrt_of_frac n m =
     (let q = (bitlen n - bitlen m - 109) div 2
      in if 0 \<le> q
         then rnd64 (of_int (isqrt_frac_rto n (m * 4 ^ nat q)) * 2 ^ nat q)
         else rnd64 (of_int (isqrt_frac_rto (n * 4 ^ nat (- q)) m) / 2 ^ nat (- q)))"

definition pstdev :: "fl list \<Rightarrow> feature_error + fl" where
  "pstdev xs =
     (if xs = [] then Inl ValueRaised
      else if list_all finite_fl xs
      then let n = of_nat (length xs); qs = map fl_val xs; sx = sum_list qs;
               sxx = sum_list (map (\<lambda>q. q * q) qs);
               mss = (n * sxx - sx * sx) / n / n
           in Inr (Fin (case quotient_of mss of (a, b) \<Rightarrow> float_sqrt_of_frac a b))
      else Inl OtherRaised)"

definition volatility_feature ::
    "(rat \<Rightarrow> rat) \<Rightarrow> int \<Rightarrow> instant market_series \<Rightarrow> feature_error + feature_result" where
  "volatility_feature ln64 period s =
     (if period < 2 \<or> n_bars s \<le> period
      then feature_invalid ''realized_volatility'' ''realized-volatility.v1'' s [(''period'', period)]
      else case log_returns ln64 (closes s) of
             Inl e \<Rightarrow> Inl e
           | Inr returns \<Rightarrow>
               (case pstdev (drop (length returns - nat period) returns) of
                  Inl e \<Rightarrow> Inl e
                | Inr v \<Rightarrow> feature_valid ''realized_volatility'' ''realized-volatility.v1''
                    [(''period'', period)] [(''volatility'', v)] s))"

subsection \<open>Volume trend\<close>

definition mean_of_last :: "int \<Rightarrow> fl list \<Rightarrow> fl" where
  "mean_of_last period xs = the (fl_div (py_sum (drop (length xs - nat period) xs)) (Fin (of_int period)))"

definition volume_trend_feature :: "int \<Rightarrow> int \<Rightarrow> instant market_series \<Rightarrow> feature_error + feature_result" where
  "volume_trend_feature short_period long_period s =
     (let parameters = [(''short_period'', short_period), (''long_period'', long_period)] in
      if short_period < 1 \<or> long_period \<le> short_period \<or> n_bars s < long_period
      then feature_invalid ''volume_trend'' ''volume-trend.v1'' s parameters
      else
        let volumes = map (\<lambda>b. fl_of (br_volume b)) (se_bars s);
            short_mean = mean_of_last short_period volumes; long_mean = mean_of_last long_period volumes;
            finish = (\<lambda>ratio. feature_valid ''volume_trend'' ''volume-trend.v1'' parameters [(''ratio'', ratio)] s)
        in if fl_eq long_mean (Fin 0) then finish (Fin 1) else divide_then short_mean long_mean finish)"

section \<open>Pipeline\<close>

record pipeline_config =
  pc_ema_fast :: int
  pc_ema_slow :: int
  pc_rsi_period :: int
  pc_macd_fast :: int
  pc_macd_slow :: int
  pc_macd_signal :: int
  pc_atr_period :: int
  pc_volatility_period :: int
  pc_volume_short_period :: int
  pc_volume_long_period :: int
  pc_return_lookback :: int

definition default_pipeline :: pipeline_config where
  "default_pipeline =
     \<lparr>pc_ema_fast = 20, pc_ema_slow = 50, pc_rsi_period = 14, pc_macd_fast = 12, pc_macd_slow = 26,
      pc_macd_signal = 9, pc_atr_period = 14, pc_volatility_period = 20, pc_volume_short_period = 5,
      pc_volume_long_period = 20, pc_return_lookback = 1\<rparr>"

definition valid_pipeline :: "pipeline_config \<Rightarrow> bool" where
  "valid_pipeline c \<longleftrightarrow>
     2 \<le> pc_ema_fast c \<and> pc_ema_fast c \<le> 500 \<and> 3 \<le> pc_ema_slow c \<and> pc_ema_slow c \<le> 800
     \<and> 2 \<le> pc_rsi_period c \<and> pc_rsi_period c \<le> 100 \<and> 2 \<le> pc_macd_fast c \<and> pc_macd_fast c \<le> 100
     \<and> 3 \<le> pc_macd_slow c \<and> pc_macd_slow c \<le> 200 \<and> 2 \<le> pc_macd_signal c \<and> pc_macd_signal c \<le> 100
     \<and> 2 \<le> pc_atr_period c \<and> pc_atr_period c \<le> 100
     \<and> 2 \<le> pc_volatility_period c \<and> pc_volatility_period c \<le> 200
     \<and> 1 \<le> pc_volume_short_period c \<and> pc_volume_short_period c \<le> 100
     \<and> 2 \<le> pc_volume_long_period c \<and> pc_volume_long_period c \<le> 500
     \<and> 1 \<le> pc_return_lookback c \<and> pc_return_lookback c \<le> 100
     \<and> \<not> pc_ema_slow c \<le> pc_ema_fast c \<and> \<not> pc_macd_slow c \<le> pc_macd_fast c
     \<and> \<not> pc_volume_long_period c \<le> pc_volume_short_period c"

datatype feature =
    EMAFeature int
  | RSIFeature int
  | MACDFeature int int int
  | ATRFeature int
  | ReturnFeature int
  | VolatilityFeature int
  | VolumeTrendFeature int int

fun compute_feature :: "(rat \<Rightarrow> rat) \<Rightarrow> feature \<Rightarrow> instant market_series \<Rightarrow> feature_error + feature_result" where
  "compute_feature ln64 (EMAFeature p) s = ema_feature p s"
| "compute_feature ln64 (RSIFeature p) s = rsi_feature p s"
| "compute_feature ln64 (MACDFeature f sl sg) s = macd_feature f sl sg s"
| "compute_feature ln64 (ATRFeature p) s = atr_feature p s"
| "compute_feature ln64 (ReturnFeature l) s = return_feature l s"
| "compute_feature ln64 (VolatilityFeature p) s = volatility_feature ln64 p s"
| "compute_feature ln64 (VolumeTrendFeature sh lo) s = volume_trend_feature sh lo s"

definition pipeline_features :: "pipeline_config \<Rightarrow> feature list" where
  "pipeline_features c =
     [EMAFeature (pc_ema_fast c), EMAFeature (pc_ema_slow c), RSIFeature (pc_rsi_period c),
      MACDFeature (pc_macd_fast c) (pc_macd_slow c) (pc_macd_signal c), ATRFeature (pc_atr_period c),
      ReturnFeature (pc_return_lookback c), VolatilityFeature (pc_volatility_period c),
      VolumeTrendFeature (pc_volume_short_period c) (pc_volume_long_period c)]"

fun compute_all ::
    "(rat \<Rightarrow> rat) \<Rightarrow> instant market_series \<Rightarrow> feature list \<Rightarrow> feature_error + feature_result list" where
  "compute_all ln64 s [] = Inr []"
| "compute_all ln64 s (f # fs) =
     (case compute_feature ln64 f s of
        Inl e \<Rightarrow> Inl e
      | Inr r \<Rightarrow> (case compute_all ln64 s fs of Inl e \<Rightarrow> Inl e | Inr rs \<Rightarrow> Inr (r # rs)))"

definition compute_pipeline ::
    "(rat \<Rightarrow> rat) \<Rightarrow> pipeline_config \<Rightarrow> instant market_series \<Rightarrow> feature_error + feature_result list" where
  "compute_pipeline ln64 c s = compute_all ln64 s (pipeline_features c)"

section \<open>The EMA stays within the prices\<close>

definition price_between :: "rat \<Rightarrow> rat \<Rightarrow> fl \<Rightarrow> bool" where
  "price_between lo hi x \<longleftrightarrow> (\<exists>r. x = Fin r \<and> repr64 r \<and> lo \<le> r \<and> r \<le> hi)"

lemma multiplier_fraction:
  assumes "2 \<le> period" and "period \<le> 2 ^ 32"
  shows "\<exists>m. ema_multiplier period = Fin m \<and> 0 \<le> m \<and> m \<le> 11 / 16"
proof -
  have p: "rnd64 (of_int period + 1) = of_int period + 1"
    using rnd64_of_int [of "period + 1"] assms by simp
  have three: "(3 :: rat) \<le> of_int period + 1" using assms(1) by simp
  then have q: "0 \<le> 2 / (of_int period + 1 :: rat)" "2 / (of_int period + 1 :: rat) \<le> 11 / 16"
    by (simp_all add: divide_le_eq)
  have "repr64 (11 / 16)" by (rule repr64I [of 11 "- 4"]) (simp_all add: power_int_def power_divide)
  with q have r: "0 \<le> rnd64 (2 / (of_int period + 1))" "rnd64 (2 / (of_int period + 1)) \<le> 11 / 16"
    using rnd64_nonneg [OF q(1)] rnd64_le [OF q(2)] by simp_all
  have "(1 :: rat) \<le> max_safe"
    using powi_mono [of 0 1023] by (simp add: max_safe_def)
  then have "\<bar>2 / (of_int period + 1 :: rat)\<bar> \<le> max_safe" using q by simp
  with r show ?thesis by (simp add: ema_multiplier_def p fl_of_finite)
qed

lemma ema_step_between:
  assumes v: "price_between lo hi v" and e: "price_between lo hi e" and m: "0 \<le> m" "m \<le> 11 / 16"
    and range: "0 \<le> lo" "hi \<le> max_safe / 2"
  shows "price_between lo hi (fl_add (fl_mul (fl_sub v e) (Fin m)) e)"
proof -
  obtain x y where x: "e = Fin x" "repr64 x" "lo \<le> x" "x \<le> hi" and y: "v = Fin y" "repr64 y" "lo \<le> y" "y \<le> hi"
    using assms(1,2) by (auto simp: price_between_def)
  let ?d = "rnd64 (y - x)" and ?p = "rnd64 (rnd64 (y - x) * m)"
  have half: "repr64 (max_safe / 2)"
    by (rule repr64I [of 1 1022]) (simp_all add: max_safe_def power_int_diff [symmetric] flip: powi_add)
  have yx: "\<bar>y - x\<bar> \<le> max_safe / 2" using x(3,4) y(3,4) range unfolding abs_le_iff by linarith
  then have d: "\<bar>?d\<bar> \<le> max_safe / 2" using half by (rule rnd64_abs_le)
  have "\<bar>?d * m\<bar> \<le> \<bar>?d\<bar> * 1" unfolding abs_mult using m by (intro mult_left_mono) auto
  with d have dm: "\<bar>?d * m\<bar> \<le> max_safe / 2" by simp
  then have p: "\<bar>?p\<bar> \<le> max_safe / 2" using half by (rule rnd64_abs_le)
  have px: "\<bar>?p + x\<bar> \<le> max_safe" using p x(3,4) range unfolding abs_le_iff by linarith
  have "fl_add (fl_mul (fl_sub v e) (Fin m)) e = Fin (rnd64 (?p + x))"
    using yx dm px max_safe_pos by (simp add: x(1) y(1) fl_sub_def fl_of_finite)
  moreover have "lo \<le> rnd64 (?p + x)" "rnd64 (?p + x) \<le> hi"
    using step_between [OF x(2) y(2) m] x(3,4) y(3,4) by linarith+
  ultimately show ?thesis using rnd64_repr by (auto simp: price_between_def)
qed

lemma ema_from_between:
  assumes "list_all (price_between lo hi) vs" and "price_between lo hi e" and "0 \<le> m" "m \<le> 11 / 16"
    and "0 \<le> lo" "hi \<le> max_safe / 2"
  shows "list_all (price_between lo hi) (ema_from (Fin m) e vs)"
  using assms(1,2)
proof (induction vs arbitrary: e)
  case (Cons v vs)
  from Cons.prems have v: "price_between lo hi v" and vs: "list_all (price_between lo hi) vs" by simp_all
  note n = ema_step_between [OF v Cons.prems(2) assms(3-6)]
  from n Cons.IH [OF vs n] show ?case by (simp add: Let_def)
qed simp

lemma ema_values_between:
  assumes "list_all (price_between lo hi) vs" and "2 \<le> period" "period \<le> 2 ^ 32" and "0 \<le> lo" "hi \<le> max_safe / 2"
  shows "list_all (price_between lo hi) (ema_values vs period)"
proof -
  obtain m where m: "ema_multiplier period = Fin m" "0 \<le> m" "m \<le> 11 / 16"
    using multiplier_fraction [OF assms(2,3)] by blast
  show ?thesis
  proof (cases vs)
    case (Cons v vs')
    with assms m show ?thesis by (simp add: ema_values_def ema_from_between)
  qed (simp add: ema_values_def)
qed

lemma ema_values_length: "length (ema_values vs period) = length vs"
proof -
  have "length (ema_from m e vs) = length vs" for m e vs
    by (induction vs arbitrary: e) (simp_all add: Let_def)
  then show ?thesis by (cases vs) (simp_all add: ema_values_def)
qed

text \<open>Prices of a series as floats.\<close>

definition price :: "bar \<Rightarrow> rat" where
  "price b = rnd64 (br_close b)"

definition max_price :: rat where "max_price = 2 powi 990"

lemma max_price: "repr64 max_price" "0 < max_price" "max_price \<le> max_safe / 2"
proof -
  show "repr64 max_price" unfolding max_price_def by (rule repr64_powi) simp
  show "0 < max_price" unfolding max_price_def by (rule powi_pos)
  have "(2::rat) powi 990 * 2 powi 1 = 2 powi 991" unfolding powi_add [symmetric] by simp
  also have "\<dots> \<le> max_safe" unfolding max_safe_def by (rule powi_mono) simp
  finally show "max_price \<le> max_safe / 2" unfolding max_price_def by simp
qed

definition ordinary_prices :: "instant market_series \<Rightarrow> bool" where
  "ordinary_prices s \<longleftrightarrow> se_bars s \<noteq> [] \<and> length (se_bars s) \<le> 1000
     \<and> list_all (\<lambda>b. 0 < br_close b \<and> br_close b \<le> max_price) (se_bars s)"

lemma ordinary_close:
  assumes "ordinary_prices s" and "b \<in> set (se_bars s)"
  shows "fl_of (br_close b) = Fin (price b)" "0 \<le> price b" "price b \<le> max_price"
proof -
  have c: "0 < br_close b" "br_close b \<le> max_price" using assms by (auto simp: ordinary_prices_def list_all_iff)
  then have "\<bar>br_close b\<bar> \<le> max_safe" using max_price(3) max_safe_pos by simp
  then show "fl_of (br_close b) = Fin (price b)" by (simp add: fl_of_finite price_def)
  show "0 \<le> price b" "price b \<le> max_price"
    using c by (auto simp: price_def intro: rnd64_nonneg rnd64_le [OF _ max_price(1)])
qed

text \<open>The exponential moving average never leaves the range of the prices: for a series of
  positive prices of ordinary size and a period that the series covers, the EMA feature is valid
  and its value lies between the lowest and the highest closing price, rounding included.\<close>

theorem ema_within_prices:
  assumes "ordinary_prices s" and "2 \<le> period" "period \<le> n_bars s"
  shows "\<exists>r e. ema_feature period s = Inr r \<and> fr_valid r \<and> fr_values r = [(''ema'', e)]
    \<and> Min (price ` set (se_bars s)) \<le> e \<and> e \<le> Max (price ` set (se_bars s))"
proof -
  let ?P = "price ` set (se_bars s)"
  have ne: "?P \<noteq> {}" and fin: "finite ?P" using assms(1) by (auto simp: ordinary_prices_def)
  have b: "list_all (price_between (Min ?P) (Max ?P)) (closes s)"
    using ordinary_close(1) [OF assms(1)] fin rnd64_repr
    by (auto simp: closes_def list_all_iff price_between_def price_def)
  have "Min ?P \<in> ?P" "Max ?P \<in> ?P" using ne fin by auto
  then obtain x y where "x \<in> set (se_bars s)" "Min ?P = price x" "y \<in> set (se_bars s)" "Max ?P = price y"
    by auto
  with ordinary_close(2) [OF assms(1), of x] ordinary_close(3) [OF assms(1), of y] max_price(3)
  have range: "0 \<le> Min ?P" "Max ?P \<le> max_safe / 2" by linarith+
  have p: "period \<le> 2 ^ 32" using assms(1,3) by (simp add: ordinary_prices_def n_bars_def)
  have all: "list_all (price_between (Min ?P) (Max ?P)) (ema_values (closes s) period)"
    by (rule ema_values_between [OF b assms(2) p range])
  have "ema_values (closes s) period \<noteq> []"
    using assms(1) ema_values_length [of "closes s" period] by (auto simp: ordinary_prices_def closes_def)
  then have "price_between (Min ?P) (Max ?P) (last (ema_values (closes s) period))"
    using all by (simp add: list_all_iff)
  then obtain e where "last (ema_values (closes s) period) = Fin e" "Min ?P \<le> e" "e \<le> Max ?P"
    by (auto simp: price_between_def)
  with assms(2,3) show ?thesis
    by (simp add: ema_feature_def feature_valid_def finite_values_def finite_fl_def fl_val_def)
qed

section \<open>The RSI never fails\<close>

definition max_range :: rat where "max_range = 2 powi 1000"

lemma max_range: "repr64 max_range" "0 < max_range" "max_range = 1024 * max_price"
  "max_range * 1024 \<le> max_safe"
proof -
  show "repr64 max_range" unfolding max_range_def by (rule repr64_powi) simp
  show "0 < max_range" unfolding max_range_def by (rule powi_pos)
  have "(2::rat) powi 10 * 2 powi 990 = 2 powi 1000" unfolding powi_add [symmetric] by simp
  then show "max_range = 1024 * max_price" unfolding max_range_def max_price_def by simp
  have "(2::rat) powi 1000 * 2 powi 10 = 2 powi 1010" unfolding powi_add [symmetric] by simp
  also have "\<dots> \<le> max_safe" unfolding max_safe_def by (rule powi_mono) simp
  finally show "max_range * 1024 \<le> max_safe" unfolding max_range_def by simp
qed

lemma repr64_max_range_times: "0 \<le> n \<Longrightarrow> n \<le> 2 ^ 53 \<Longrightarrow> repr64 (of_int n * max_range)"
  unfolding max_range_def by (rule repr64I [of n 1000]) simp_all

text \<open>Wilder's smoothing keeps an average between zero and a power of two.\<close>

lemma wilder_bounded:
  assumes "nonneg_fl max_range avg" and "nonneg_fl max_range x" and "2 \<le> p" "p \<le> 100"
  shows "nonneg_fl max_range (wilder p avg x)"
proof -
  obtain a r where a: "avg = Fin a" "0 \<le> a" "a \<le> max_range" and r: "x = Fin r" "0 \<le> r" "r \<le> max_range"
    using assms(1,2) by (auto simp: nonneg_fl_def)
  have p: "(2 :: rat) \<le> of_int p" "(of_int p :: rat) \<le> 100" using assms(3,4) by simp_all
  let ?B = "of_int (p - 1) * max_range" and ?C = "of_int p * max_range"
  have rB: "repr64 ?B" "repr64 ?C" 
    using assms(3,4) repr64_max_range_times [of "p - 1"] repr64_max_range_times [of p] by simp_all
  have C: "?C \<le> max_safe" "?C = ?B + max_range"
  proof -
    have "?C \<le> 1024 * max_range" using p max_range(2) by (intro mult_right_mono) simp_all
    with max_range(4) show "?C \<le> max_safe" by simp
  qed (simp add: left_diff_distrib)
  have am: "0 \<le> a * of_int (p - 1)" "a * of_int (p - 1) \<le> ?B"
    using a(2,3) p max_range(2) by (simp_all add: mult.commute mult_left_mono)
  let ?m = "rnd64 (a * of_int (p - 1))"
  have m: "0 \<le> ?m" "?m \<le> ?B" using am rB(1) by (auto intro: rnd64_nonneg rnd64_le)
  let ?s = "rnd64 (?m + r)"
  have mr: "0 \<le> ?m + r" "?m + r \<le> ?C" using m r(2,3) C(2) by linarith+
  have s: "0 \<le> ?s" "?s \<le> ?C" using mr rB(2) by (auto intro: rnd64_nonneg rnd64_le)
  have q: "0 \<le> ?s / of_int p" "?s / of_int p \<le> max_range"
    using s p by (simp_all add: divide_le_eq mult.commute)
  have d: "0 \<le> rnd64 (?s / of_int p)" "rnd64 (?s / of_int p) \<le> max_range"
    using q max_range(1) by (auto intro: rnd64_nonneg rnd64_le)
  have "max_range \<le> ?C" using C(2) p(1) max_range(2) by (simp add: field_simps)
  have "\<bar>a * of_int (p - 1)\<bar> \<le> max_safe" "\<bar>?m + r\<bar> \<le> max_safe" "\<bar>?s / of_int p\<bar> \<le> max_safe"
    using am mr q C(1,2) \<open>max_range \<le> ?C\<close> max_range(2) by (simp_all only: abs_of_nonneg)
  then have "fl_of (a * of_int (p - 1)) = Fin ?m" "fl_of (?m + r) = Fin ?s" "fl_of (?s / of_int p) = Fin (rnd64 (?s / of_int p))"
    by (simp_all only: fl_of_finite)
  then have "wilder p avg x = Fin (rnd64 (?s / of_int p))"
    using p(1) by (simp add: wilder_def a(1) r(1) del: of_int_diff)
  with d show ?thesis by (simp add: nonneg_fl_def rnd64_repr)
qed

lemma wilder_average_bounded:
  assumes xs: "list_all (nonneg_fl max_price) xs" and p: "2 \<le> p" "p \<le> 100"
  shows "nonneg_fl max_range (wilder_average p xs)"
proof -
  let ?head = "take (nat p) xs"
  have len: "length ?head \<le> 100" using p by simp
  have small: "max_price \<le> max_safe / 2 ^ 22"
  proof -
    have "(2::rat) powi 990 * 2 powi 22 = 2 powi 1012" unfolding powi_add [symmetric] by simp
    also have "\<dots> \<le> max_safe" unfolding max_safe_def by (rule powi_mono) simp
    finally show ?thesis unfolding max_price_def by simp
  qed
  have head: "list_all (nonneg_fl max_price) ?head" using xs by (auto simp: list_all_iff dest: in_set_takeD)
  have "nonneg_fl (8 * of_nat (length ?head) * max_price) (py_sum ?head)"
    by (rule py_sum_nonneg [OF head]) (use len small max_price(2) in simp_all)
  moreover have "8 * of_nat (length ?head) * max_price \<le> max_range"
  proof -
    have "(of_nat (length ?head) :: rat) \<le> 100" using len by (simp only: of_nat_le_iff [of _ 100, simplified])
    then have "8 * of_nat (length ?head) * max_price \<le> 1024 * max_price"
      using max_price(2) by (intro mult_right_mono) simp_all
    then show ?thesis by (simp add: max_range(3))
  qed
  ultimately obtain s where s: "py_sum ?head = Fin s" "0 \<le> s" "s \<le> max_range"
    by (auto simp: nonneg_fl_def)
  have pr: "(2 :: rat) \<le> of_int p" using p by simp
  have q: "0 \<le> s / of_int p" "s / of_int p \<le> max_range"
    using s pr max_range(2) by (auto simp: divide_le_eq intro: order_trans [of s "max_range * 1"] mult_left_mono)
  have "max_range \<le> max_safe" using max_range(2,4) by simp
  then have first: "nonneg_fl max_range (the (fl_div (py_sum ?head) (Fin (of_int p))))"
    using q pr max_range(1) by (auto simp: s(1) fl_of_finite nonneg_fl_def rnd64_repr intro: rnd64_nonneg rnd64_le)
  have tail: "list_all (nonneg_fl max_range) (drop (nat p) xs)"
    using xs max_range(3) max_price(2) by (auto simp: list_all_iff nonneg_fl_def dest!: in_set_dropD)
  have "nonneg_fl max_range (foldl (wilder p) acc ys)"
    if "nonneg_fl max_range acc" "list_all (nonneg_fl max_range) ys" for acc ys
    using that by (induction ys arbitrary: acc) (simp_all add: wilder_bounded p)
  from this [OF first tail] show ?thesis by (simp add: wilder_average_def)
qed

text \<open>The quotient of two averages, and what is made of it.\<close>

lemma rsi_value_bounded:
  assumes "nonneg_fl b avg_gain" and "nonneg_fl b avg_loss"
  shows "\<exists>v. rsi_value avg_gain avg_loss = Inr (Fin v) \<and> 0 \<le> v \<and> v \<le> 100"
proof -
  obtain g l where g: "avg_gain = Fin g" "0 \<le> g" and l: "avg_loss = Fin l" "0 \<le> l"
    using assms by (auto simp: nonneg_fl_def)
  have r100: "repr64 100" and r0: "repr64 0" and r1: "repr64 1"
    using repr64_of_int [of 100] repr64_of_int [of 0] repr64_of_int [of 1] by simp_all
  have big: "(100 :: rat) \<le> max_safe"
    using powi_mono [of 7 1023] by (simp add: max_safe_def power_int_def)
  show ?thesis
  proof (cases "l = 0")
    case True
    then show ?thesis by (simp add: rsi_value_def g l fl_eq_def)
  next
    case False
    then have l0: "0 < l" using l(2) by simp
    have final: "\<exists>v. divide_then (Fin 100) d (\<lambda>d. Inr (fl_sub (Fin 100) d)) = Inr (Fin v) \<and> 0 \<le> v \<and> v \<le> 100"
      if "d = PInf \<or> (\<exists>r. d = Fin r \<and> 1 \<le> r)" for d
      using that
    proof (elim disjE exE conjE)
      assume "d = PInf"
      then show ?thesis using big by (simp add: divide_then_def fl_sub_def fl_of_repr [OF r100])
    next
      fix r assume d: "d = Fin r" and r: "1 \<le> r"
      have q: "0 \<le> 100 / r" "100 / r \<le> 100" using r by (simp_all add: divide_le_eq)
      let ?q = "rnd64 (100 / r)"
      have rq: "0 \<le> ?q" "?q \<le> 100" using q r100 by (auto intro: rnd64_nonneg rnd64_le)
      have f: "0 \<le> rnd64 (100 - ?q)" "rnd64 (100 - ?q) \<le> 100" using rq r100 by (auto intro: rnd64_nonneg rnd64_le)
      have "divide_then (Fin 100) d (\<lambda>d. Inr (fl_sub (Fin 100) d)) = Inr (Fin (rnd64 (100 - ?q)))"
        using r q rq big by (simp add: divide_then_def d fl_sub_def fl_of_finite)
      with f show ?thesis by blast
    qed
    have quotient: "fl_of (g / l) = PInf \<or> (\<exists>r. fl_of (g / l) = Fin r \<and> 0 \<le> r \<and> fits64 r)"
      using g(2) l0 by (auto simp: fl_of_def Let_def rnd64_nonneg zero_less_divide_iff fits64_def)
    have "fl_add (Fin 1) (fl_of (g / l)) = PInf \<or> (\<exists>r. fl_add (Fin 1) (fl_of (g / l)) = Fin r \<and> 1 \<le> r)"
      using quotient
    proof (elim disjE exE conjE)
      fix r assume q: "fl_of (g / l) = Fin r" and r: "0 \<le> r"
      have "1 \<le> rnd64 (1 + r)" using r r1 by (intro rnd64_ge) simp_all
      then show ?thesis using r unfolding q fl_add.simps by (simp add: fl_of_def Let_def)
    qed simp
    from final [OF this] False l0 show ?thesis
      by (simp add: rsi_value_def g l fl_eq_def divide_then_def)
  qed
qed

lemma change_bounded:
  assumes "price_between 0 max_price x" and "price_between 0 max_price y"
  shows "nonneg_fl max_price (py_max (fl_sub y x) (Fin 0))"
    and "nonneg_fl max_price (py_max (fl_neg (fl_sub y x)) (Fin 0))"
proof -
  obtain a b where x: "x = Fin a" "0 \<le> a" "a \<le> max_price" and y: "y = Fin b" "0 \<le> b" "b \<le> max_price"
    using assms by (auto simp: price_between_def)
  have ba: "\<bar>b - a\<bar> \<le> max_price" using x y unfolding abs_le_iff by linarith
  then have r: "\<bar>rnd64 (b - a)\<bar> \<le> max_price" using max_price(1) by (rule rnd64_abs_le)
  have "\<bar>b - a\<bar> \<le> max_safe" using ba max_price(2,3) by simp
  then have "fl_sub y x = Fin (rnd64 (b - a))" by (simp add: x y fl_sub_def fl_of_finite)
  moreover have "repr64 0" using repr64_of_int [of 0] by simp
  ultimately show "nonneg_fl max_price (py_max (fl_sub y x) (Fin 0))"
    and "nonneg_fl max_price (py_max (fl_neg (fl_sub y x)) (Fin 0))"
    using r max_price(2) rnd64_repr [of "b - a"] repr64_neg [OF rnd64_repr [of "b - a"]]
    by (auto simp: py_max_def nonneg_fl_def abs_le_iff)
qed

lemma changes_bounded:
  assumes "list_all (price_between 0 max_price) xs"
  shows "list_all (nonneg_fl max_price) (map (\<lambda>c. py_max c (Fin 0)) (changes xs))"
    and "list_all (nonneg_fl max_price) (map (\<lambda>c. py_max (fl_neg c) (Fin 0)) (changes xs))"
proof -
  have "price_between 0 max_price x \<and> price_between 0 max_price y" if "(x, y) \<in> set (zip xs (tl xs))" for x y
    using that assms set_zip_leftD [OF that] set_zip_rightD [OF that]
    by (cases xs) (auto simp: list_all_iff)
  then show "list_all (nonneg_fl max_price) (map (\<lambda>c. py_max c (Fin 0)) (changes xs))"
    and "list_all (nonneg_fl max_price) (map (\<lambda>c. py_max (fl_neg c) (Fin 0)) (changes xs))"
    using change_bounded by (auto simp: changes_def list_all_iff)
qed

text \<open>C35 The RSI of a series of positive prices of ordinary size always exists and is a true index:
  for every period from 2 to 100 that the series covers the feature is valid, no division fails,
  and the value lies between 0 and 100 before it is clamped, so the clamp changes nothing.\<close>

theorem rsi_total:
  assumes "ordinary_prices s" and "2 \<le> period" "period \<le> 100" "period < n_bars s"
  shows "\<exists>r v. rsi_feature period s = Inr r \<and> fr_valid r \<and> fr_values r = [(''rsi'', v)] \<and> 0 \<le> v \<and> v \<le> 100
    \<and> rsi_value (wilder_average period (map (\<lambda>c. py_max c (Fin 0)) (changes (closes s))))
        (wilder_average period (map (\<lambda>c. py_max (fl_neg c) (Fin 0)) (changes (closes s)))) = Inr (Fin v)"
proof -
  have "list_all (price_between 0 max_price) (closes s)"
    using ordinary_close [OF assms(1)] rnd64_repr
    by (auto simp: closes_def list_all_iff price_between_def price_def)
  note c = changes_bounded [OF this]
  from rsi_value_bounded [OF wilder_average_bounded [OF c(1) assms(2,3)] wilder_average_bounded [OF c(2) assms(2,3)]]
  obtain v where v: "rsi_value (wilder_average period (map (\<lambda>c. py_max c (Fin 0)) (changes (closes s))))
        (wilder_average period (map (\<lambda>c. py_max (fl_neg c) (Fin 0)) (changes (closes s)))) = Inr (Fin v)"
      "0 \<le> v" "v \<le> 100" by blast
  then have "clamp (Fin 0) (Fin 100) (Fin v) = Fin v"
    by (simp add: clamp_def py_min_def py_max_def)
  with v assms(2,4) show ?thesis
    by (simp add: rsi_feature_def Let_def feature_valid_def finite_values_def finite_fl_def fl_val_def)
qed

section \<open>When a feature is valid\<close>

fun needed_bars :: "feature \<Rightarrow> int" where
  "needed_bars (EMAFeature p) = p"
| "needed_bars (RSIFeature p) = p + 1"
| "needed_bars (MACDFeature fast slow signal) = slow + signal"
| "needed_bars (ATRFeature p) = p + 1"
| "needed_bars (ReturnFeature l) = l + 1"
| "needed_bars (VolatilityFeature p) = p + 1"
| "needed_bars (VolumeTrendFeature short long) = long"

fun usable_feature :: "feature \<Rightarrow> bool" where
  "usable_feature (EMAFeature p) = (2 \<le> p)"
| "usable_feature (RSIFeature p) = (2 \<le> p)"
| "usable_feature (MACDFeature fast slow signal) = (2 \<le> fast \<and> fast < slow \<and> 2 \<le> signal)"
| "usable_feature (ATRFeature p) = (2 \<le> p)"
| "usable_feature (ReturnFeature l) = (1 \<le> l)"
| "usable_feature (VolatilityFeature p) = (2 \<le> p)"
| "usable_feature (VolumeTrendFeature short long) = (1 \<le> short \<and> short < long)"

definition honest_result :: "feature \<Rightarrow> instant market_series \<Rightarrow> feature_result \<Rightarrow> bool" where
  "honest_result f s r \<longleftrightarrow>
     fr_timeframe r = se_timeframe s \<and> fr_as_of r = br_close_time (last (se_bars s))
     \<and> (if needed_bars f \<le> n_bars s then fr_valid r \<and> fr_values r \<noteq> [] \<and> fr_reason_code r = None
        else \<not> fr_valid r \<and> fr_values r = [] \<and> fr_reason_code r = Some ''INSUFFICIENT_HISTORY'')"

lemma feature_valid_Inr:
  "feature_valid name version parameters values s = Inr r \<Longrightarrow> values \<noteq> [] \<Longrightarrow>
   fr_timeframe r = se_timeframe s \<and> fr_as_of r = br_close_time (last (se_bars s))
   \<and> fr_valid r \<and> fr_values r \<noteq> [] \<and> fr_reason_code r = None"
  by (auto simp: feature_valid_def split: if_splits)

lemma feature_invalid_Inr:
  "feature_invalid name version s parameters = Inr r \<Longrightarrow>
   fr_timeframe r = se_timeframe s \<and> fr_as_of r = br_close_time (last (se_bars s))
   \<and> \<not> fr_valid r \<and> fr_values r = [] \<and> fr_reason_code r = Some ''INSUFFICIENT_HISTORY''"
  by (auto simp: feature_invalid_def)

lemmas feature_defs = ema_feature_def rsi_feature_def macd_feature_def atr_feature_def return_feature_def
  volatility_feature_def volume_trend_feature_def divide_then_def Let_def

lemma compute_feature_honest:
  "compute_feature ln64 f s = Inr r \<Longrightarrow> usable_feature f \<Longrightarrow> honest_result f s r"
  by (cases f)
    (auto simp: feature_defs honest_result_def dest!: feature_valid_Inr feature_invalid_Inr
      split: if_splits option.splits sum.splits)

lemma compute_all_honest:
  "compute_all ln64 s fs = Inr rs \<Longrightarrow> list_all usable_feature fs \<Longrightarrow> list_all2 (\<lambda>f r. honest_result f s r) fs rs"
  by (induction fs arbitrary: rs) (auto simp: compute_feature_honest split: sum.splits)

text \<open>The pipeline never fabricates a value: with a configuration that passed its validation, when
  the eight features are computed each one is valid with values if and only if the series has the
  bars its periods need, and otherwise it has no value at all and says INSUFFICIENT_HISTORY; every
  result carries the timeframe of the series and the close time of its last bar.\<close>

theorem pipeline_honest:
  assumes "valid_pipeline c" and "compute_pipeline ln64 c s = Inr rs"
  shows "list_all2 (\<lambda>f r. honest_result f s r) (pipeline_features c) rs"
  using assms by (intro compute_all_honest [of ln64])
    (simp_all add: compute_pipeline_def pipeline_features_def valid_pipeline_def)

section \<open>Witnesses\<close>

definition three_bars :: "instant market_series" where
  "three_bars =
     \<lparr>se_provider = ''binance-public'', se_instrument = ''ETHUSDT'', se_timeframe = M15, se_as_of = seconds 2700,
      se_bars = [sample_bar 0 100, sample_bar (seconds 900) 101, sample_bar (seconds 1800) 103]\<rparr>"

lemma three_bars_ordinary: "ordinary_prices three_bars"
proof -
  have "(2::rat) powi 7 \<le> max_price" unfolding max_price_def by (rule powi_mono) simp
  then show ?thesis by (simp add: ordinary_prices_def three_bars_def sample_bar_def power_int_def)
qed

theorem ema_within_prices_witness:
  "\<exists>r e. ema_feature 2 three_bars = Inr r \<and> fr_valid r \<and> fr_values r = [(''ema'', e)] \<and> 100 \<le> e \<and> e \<le> 103"
proof -
  have "rnd64 100 = 100" "rnd64 101 = 101" "rnd64 103 = 103"
    using rnd64_of_int [of 100] rnd64_of_int [of 101] rnd64_of_int [of 103] by simp_all
  then have "price ` set (se_bars three_bars) = {100, 101, 103}"
    by (simp add: three_bars_def sample_bar_def price_def)
  moreover have "2 \<le> n_bars three_bars" by (simp add: n_bars_def three_bars_def)
  ultimately show ?thesis using ema_within_prices [OF three_bars_ordinary order_refl] by simp
qed

theorem rsi_total_witness:
  "\<exists>r v. rsi_feature 2 three_bars = Inr r \<and> fr_valid r \<and> fr_values r = [(''rsi'', v)] \<and> 0 \<le> v \<and> v \<le> 100"
proof -
  have "2 < n_bars three_bars" by (simp add: n_bars_def three_bars_def)
  with rsi_total [OF three_bars_ordinary, of 2] show ?thesis by force
qed

text \<open>With three bars only the return feature has enough history.\<close>

lemma default_pipeline_valid: "valid_pipeline default_pipeline"
  by (simp add: valid_pipeline_def default_pipeline_def)

theorem pipeline_honest_witness:
  "\<exists>rs. compute_pipeline (\<lambda>x. x) default_pipeline three_bars = Inr rs
     \<and> list_all2 (\<lambda>f r. honest_result f three_bars r) (pipeline_features default_pipeline) rs"
proof -
  have n: "n_bars three_bars = 3" by (simp add: n_bars_def three_bars_def)
  have "rnd64 101 = 101" "rnd64 103 = 103"
    using rnd64_of_int [of 101] rnd64_of_int [of 103] by simp_all
  moreover have "(103 :: rat) \<le> max_safe" using powi_mono [of 7 1023] by (simp add: max_safe_def power_int_def)
  ultimately have p: "fl_of 101 = Fin 101" "fl_of 103 = Fin 103" by (simp_all add: fl_of_finite)
  have "\<exists>r. return_feature 1 three_bars = Inr r"
  proof -
    have small: "\<bar>103 / 101 :: rat\<bar> \<le> max_safe" using \<open>103 \<le> max_safe\<close> by simp
    then have q: "fl_of (103 / 101) = Fin (rnd64 (103 / 101))" by (rule fl_of_finite)
    have "repr64 2" "repr64 0" using repr64_of_int [of 2] repr64_of_int [of 0] by simp_all
    then have "rnd64 (103 / 101) \<le> 2" "0 \<le> rnd64 (103 / 101)" by (auto intro: rnd64_le rnd64_nonneg)
    with \<open>103 \<le> max_safe\<close> have "\<bar>rnd64 (103 / 101) - 1\<bar> \<le> max_safe" unfolding abs_le_iff by linarith
    then have d: "fl_sub (Fin (rnd64 (103 / 101))) (Fin 1) = Fin (rnd64 (rnd64 (103 / 101) - 1))"
      by (simp add: fl_sub_def fl_of_finite)
    have b: "br_close (last (se_bars three_bars)) = 103" "br_close (se_bars three_bars ! nat (3 - 1 - 1)) = 101"
      by (simp_all add: three_bars_def sample_bar_def)
    show ?thesis
      unfolding return_feature_def n b p divide_then_def fl_div.simps q
      by (simp add: q d feature_valid_def finite_values_def finite_fl_def)
  qed
  then obtain r where "return_feature 1 three_bars = Inr r" by blast
  then have "\<exists>rs. compute_pipeline (\<lambda>x. x) default_pipeline three_bars = Inr rs"
    by (simp add: compute_pipeline_def pipeline_features_def default_pipeline_def ema_feature_def rsi_feature_def
        macd_feature_def atr_feature_def volatility_feature_def volume_trend_feature_def n feature_invalid_def)
  then show ?thesis using pipeline_honest [OF default_pipeline_valid] by blast
qed

end
