(* ===== verification/Roles.thy ===== *)
theory Roles
  imports Market_Data
begin

text \<open>
  \<open>src/tomiris_agent_roles\<close> without the technical engine: the models (\<open>models.py\<close>), the registry
  of role plugins (\<open>registry.py\<close>), the three built-in plugins, the definition loader
  (\<open>definitions.py\<close>) and the data planner (\<open>planner.py\<close>).

  A role plugin's \<open>build\<close> is a function from the definition to the role or \<open>None\<close>, its
  \<open>ValueError\<close>.  Reading and decoding YAML is an argument of the loader.
\<close>

section \<open>Models\<close>

datatype role_lifecycle = L_ACTIVE | L_DEPRECATED | L_DISABLED

datatype trend_state = STRONG_UP | TREND_UP | TREND_NEUTRAL | TREND_DOWN | STRONG_DOWN

datatype momentum_state = BULLISH | MOMENTUM_NEUTRAL | BEARISH

datatype volatility_state = VOL_LOW | VOL_NORMAL | VOL_HIGH | VOL_EXTREME

datatype volume_state = RISING | VOLUME_NORMAL | FALLING

record role_data_requirement =
  rd_instrument :: string
  rd_timeframe :: timeframe
  rd_minimum_bars :: int
  rd_max_data_age_seconds :: int
  rd_required_fields :: "string list"

definition valid_data_requirement :: "role_data_requirement \<Rightarrow> bool" where
  "valid_data_requirement r \<longleftrightarrow>
     asset_pattern (rd_instrument r) \<and> 2 \<le> rd_minimum_bars r \<and> rd_minimum_bars r \<le> 999
     \<and> 1 \<le> rd_max_data_age_seconds r \<and> rd_max_data_age_seconds r \<le> 604800
     \<and> rd_required_fields r \<noteq> []
     \<and> set (rd_required_fields r) \<subseteq> {''open'', ''high'', ''low'', ''close'', ''volume''}"

record agent_definition =
  ad_definition_version :: string
  ad_agent_id :: string
  ad_role_id :: string
  ad_enabled :: bool
  ad_lifecycle :: role_lifecycle
  ad_config_version :: string
  ad_runtime_contract_version :: string
  ad_analysis_schema_version :: string
  ad_supported_assets :: "string list"
  ad_capabilities :: "string list"
  ad_required_data :: "role_data_requirement list"
  ad_parameters :: pyval
  ad_limits :: "(string \<times> int) list"
  ad_metadata :: pyval

text \<open>\<open>^[a-z][a-z0-9_.-]{2,63}$\<close>\<close>

definition role_id_pattern :: "string \<Rightarrow> bool" where
  "role_id_pattern s \<longleftrightarrow>
     (case s of [] \<Rightarrow> False
      | c # cs \<Rightarrow> is_lower c \<and> 2 \<le> length cs \<and> length cs \<le> 63 \<and>
          list_all (\<lambda>x. is_lower x \<or> is_digit x \<or> x \<in> set ''_.-'') cs)"

definition definition_limits :: json_limits where
  "definition_limits = \<lparr>max_depth = 6, max_items = 100, max_string_length = 2000\<rparr>"

definition max_evidence :: "agent_definition \<Rightarrow> int" where
  "max_evidence d = (case map_of (ad_limits d) ''max_evidence_items'' of Some n \<Rightarrow> n | None \<Rightarrow> 16)"

text \<open>\<open>AgentDefinition.validate_definition\<close>\<close>

definition definition_consistent :: "agent_definition \<Rightarrow> bool" where
  "definition_consistent d \<longleftrightarrow>
     \<not> (ad_lifecycle d = L_DISABLED \<and> ad_enabled d)
     \<and> rd_instrument ` set (ad_required_data d) \<subseteq> set (ad_supported_assets d)
     \<and> distinct (map (\<lambda>r. (rd_instrument r, rd_timeframe r)) (ad_required_data d))
     \<and> \<not> (max_evidence d < 1 \<or> 20 < max_evidence d)"

definition definition_ok :: "agent_definition \<Rightarrow> bool" where
  "definition_ok d \<longleftrightarrow>
     ad_definition_version d = ''1'' \<and> agent_id_pattern (ad_agent_id d) \<and> role_id_pattern (ad_role_id d)
     \<and> len_between 1 32 (ad_config_version d) \<and> ad_runtime_contract_version d = ''1''
     \<and> ad_analysis_schema_version d = ''1''
     \<and> 1 \<le> length (ad_supported_assets d) \<and> length (ad_supported_assets d) \<le> 20
     \<and> distinct (ad_supported_assets d)
     \<and> 1 \<le> length (ad_capabilities d) \<and> length (ad_capabilities d) \<le> 20 \<and> distinct (ad_capabilities d)
     \<and> 1 \<le> length (ad_required_data d) \<and> length (ad_required_data d) \<le> 50
     \<and> list_all valid_data_requirement (ad_required_data d)
     \<and> bounded_dict definition_limits (ad_parameters d) \<and> bounded_dict definition_limits (ad_metadata d)
     \<and> definition_consistent d"

definition validate_definition :: "agent_definition \<Rightarrow> agent_definition option" where
  "validate_definition raw =
     (let d = raw\<lparr>ad_supported_assets := map upper (ad_supported_assets raw)\<rparr>
      in if definition_ok d then Some d else None)"

record analysis_context =
  ax_task :: analysis_task_request
  ax_snapshot_id :: uuid
  ax_as_of :: instant

definition valid_context :: "analysis_context \<Rightarrow> bool" where
  "valid_context c \<longleftrightarrow> \<not> tr_snapshot_id (ax_task c) \<noteq> ax_snapshot_id c"

record analytical_evidence =
  ae_evidence_type :: string
  ae_summary :: string
  ae_provider :: string
  ae_instrument :: string
  ae_timeframe :: timeframe
  ae_feature_name :: string
  ae_feature_version :: string
  ae_observed_at :: instant
  ae_source_timestamp :: instant
  ae_observation :: string

definition valid_analytical_evidence :: "analytical_evidence \<Rightarrow> bool" where
  "valid_analytical_evidence e \<longleftrightarrow>
     len_between 1 64 (ae_evidence_type e) \<and> len_between 1 1000 (ae_summary e)
     \<and> len_between 1 64 (ae_provider e) \<and> len_between 2 32 (ae_instrument e)
     \<and> len_between 1 64 (ae_feature_name e) \<and> len_between 1 32 (ae_feature_version e)
     \<and> len_between 1 500 (ae_observation e)"

record timeframe_analysis =
  ta_timeframe :: timeframe
  ta_trend :: trend_state
  ta_momentum :: momentum_state
  ta_volatility :: volatility_state
  ta_volume_state :: volume_state
  ta_score :: rat

definition valid_timeframe_analysis :: "timeframe_analysis \<Rightarrow> bool" where
  "valid_timeframe_analysis t \<longleftrightarrow> - 1 \<le> ta_score t \<and> ta_score t \<le> 1"

record analysis_data_range =
  dg_provider :: string
  dg_instrument :: string
  dg_timeframe :: timeframe
  dg_first_bar_at :: instant
  dg_last_bar_at :: instant
  dg_bar_count :: int

definition valid_data_range :: "analysis_data_range \<Rightarrow> bool" where
  "valid_data_range r \<longleftrightarrow>
     len_between 1 64 (dg_provider r) \<and> len_between 2 32 (dg_instrument r)
     \<and> 1 \<le> dg_bar_count r \<and> dg_bar_count r \<le> 1000 \<and> \<not> dg_last_bar_at r < dg_first_bar_at r"

record 'f analysis_result =
  an_analysis_schema_version :: string
  an_role_id :: string
  an_role_version :: string
  an_config_version :: string
  an_feature_pipeline_version :: string
  an_snapshot_id :: uuid
  an_asset :: string
  an_bias :: bias
  an_confidence :: 'f
  an_data_quality :: quality
  an_reason_codes :: "string list"
  an_timeframe_states :: "timeframe_analysis list"
  an_evidence :: "analytical_evidence list"
  an_data_ranges :: "analysis_data_range list"
  an_data_provider :: string
  an_data_as_of :: instant
  an_analysis_as_of :: instant

type_synonym agent_analysis_result = "rat analysis_result"

definition validate_analysis_result :: "fl analysis_result \<Rightarrow> agent_analysis_result option" where
  "validate_analysis_result r =
     (case finite_float (an_confidence r) of
        None \<Rightarrow> None
      | Some confidence \<Rightarrow>
          if an_analysis_schema_version r = ''1'' \<and> 0 \<le> confidence \<and> confidence \<le> 1
             \<and> length (an_reason_codes r) \<le> 20 \<and> length (an_timeframe_states r) \<le> 20
             \<and> length (an_evidence r) \<le> 20 \<and> length (an_data_ranges r) \<le> 50
             \<and> \<not> (an_data_quality r \<in> {Q_INVALID, Q_INSUFFICIENT} \<and> an_bias r \<noteq> ABSTAIN)
             \<and> \<not> (an_bias r = ABSTAIN \<and> an_reason_codes r = [])
          then Some \<lparr>an_analysis_schema_version = an_analysis_schema_version r, an_role_id = an_role_id r,
                 an_role_version = an_role_version r, an_config_version = an_config_version r,
                 an_feature_pipeline_version = an_feature_pipeline_version r,
                 an_snapshot_id = an_snapshot_id r, an_asset = an_asset r, an_bias = an_bias r,
                 an_confidence = confidence, an_data_quality = an_data_quality r,
                 an_reason_codes = an_reason_codes r, an_timeframe_states = an_timeframe_states r,
                 an_evidence = an_evidence r, an_data_ranges = an_data_ranges r,
                 an_data_provider = an_data_provider r, an_data_as_of = an_data_as_of r,
                 an_analysis_as_of = an_analysis_as_of r\<rparr>
          else None)"

record role_input =
  ri_context :: analysis_context
  ri_market_data :: "instant market_bundle"

definition valid_role_input :: "role_input \<Rightarrow> bool" where
  "valid_role_input i \<longleftrightarrow>
     \<not> mb_snapshot_id (ri_market_data i) \<noteq> ax_snapshot_id (ri_context i)
     \<and> \<not> mb_as_of (ri_market_data i) \<noteq> ax_as_of (ri_context i)"

section \<open>Registry\<close>

record 'r role_plugin =
  rp_role_id :: string
  rp_role_version :: string
  rp_role_api_version :: string
  rp_build :: "agent_definition \<Rightarrow> 'r option"

type_synonym 'r role_registry = "(string \<times> 'r role_plugin) list"

datatype registry_error = DuplicateRole | UnsupportedApi | UnknownRole | RoleDisabled | BuildFailed

definition role_api_version :: string where "role_api_version = ''1''"

definition register_role :: "'r role_plugin \<Rightarrow> 'r role_registry \<Rightarrow> registry_error + 'r role_registry" where
  "register_role p reg =
     (if rp_role_id p \<in> fst ` set reg then Inl DuplicateRole
      else if rp_role_api_version p \<noteq> role_api_version then Inl UnsupportedApi
      else Inr (dict_set (rp_role_id p) p reg))"

text \<open>The exception of a failed registration leaves the earlier ones in place.\<close>

fun register_many :: "'r role_plugin list \<Rightarrow> 'r role_registry \<Rightarrow> registry_error option \<times> 'r role_registry" where
  "register_many [] reg = (None, reg)"
| "register_many (p # ps) reg =
     (case register_role p reg of Inl e \<Rightarrow> (Some e, reg) | Inr reg \<Rightarrow> register_many ps reg)"

definition build_role :: "'r role_registry \<Rightarrow> agent_definition \<Rightarrow> registry_error + 'r" where
  "build_role reg d =
     (case map_of reg (ad_role_id d) of
        None \<Rightarrow> Inl UnknownRole
      | Some p \<Rightarrow>
          if \<not> ad_enabled d \<or> ad_lifecycle d = L_DISABLED then Inl RoleDisabled
          else case rp_build p d of None \<Rightarrow> Inl BuildFailed | Some role \<Rightarrow> Inr role)"

section \<open>Built-in plugins\<close>

text \<open>\<open>ConfiguredTechnicalRole\<close>: \<open>config\<close> is the decoding and validation of the parameters.\<close>

record 'c technical_role =
  cr_definition :: agent_definition
  cr_role_id :: string
  cr_role_version :: string
  cr_evidence_type :: string
  cr_config :: 'c

definition technical_role ::
    "(pyval \<Rightarrow> 'c option) \<Rightarrow> agent_definition \<Rightarrow> string \<Rightarrow> string \<Rightarrow> 'c technical_role option" where
  "technical_role config d role_version evidence_type =
     (case config (ad_parameters d) of
        None \<Rightarrow> None
      | Some c \<Rightarrow> Some \<lparr>cr_definition = d, cr_role_id = ad_role_id d, cr_role_version = role_version,
                    cr_evidence_type = evidence_type, cr_config = c\<rparr>)"

text \<open>A plugin for exactly one role identifier and one asset.\<close>

definition single_asset_plugin ::
    "(pyval \<Rightarrow> 'c option) \<Rightarrow> string \<Rightarrow> string \<Rightarrow> string \<Rightarrow> 'c technical_role role_plugin" where
  "single_asset_plugin config role_id asset evidence_type =
     \<lparr>rp_role_id = role_id, rp_role_version = ''1.0.0'', rp_role_api_version = ''1'',
      rp_build = (\<lambda>d. if ad_role_id d \<noteq> role_id \<or> ad_supported_assets d \<noteq> [asset] then None
                      else technical_role config d ''1.0.0'' evidence_type)\<rparr>"

definition btc_context_plugin :: "(pyval \<Rightarrow> 'c option) \<Rightarrow> 'c technical_role role_plugin" where
  "btc_context_plugin config = single_asset_plugin config ''btc.market_context.v1'' ''BTCUSDT'' ''market_context''"

definition eth_technical_plugin :: "(pyval \<Rightarrow> 'c option) \<Rightarrow> 'c technical_role role_plugin" where
  "eth_technical_plugin config = single_asset_plugin config ''eth.technical.v1'' ''ETHUSDT'' ''technical_feature''"

definition sol_technical_plugin :: "(pyval \<Rightarrow> 'c option) \<Rightarrow> 'c technical_role role_plugin" where
  "sol_technical_plugin config = single_asset_plugin config ''sol.technical.v1'' ''SOLUSDT'' ''technical_feature''"

definition builtin_registry ::
    "(pyval \<Rightarrow> 'c option) \<Rightarrow> registry_error option \<times> 'c technical_role role_registry" where
  "builtin_registry config =
     register_many [btc_context_plugin config, eth_technical_plugin config, sol_technical_plugin config] []"

section \<open>Definition loader\<close>

datatype loader_error = UnreadableDefinition | InvalidDefinition | RegistryRejected registry_error | DuplicateAgent

definition load_definition ::
    "'r role_registry \<Rightarrow> ('f \<Rightarrow> agent_definition option) \<Rightarrow> 'f \<Rightarrow> loader_error + agent_definition" where
  "load_definition reg read_yaml file =
     (case read_yaml file of
        None \<Rightarrow> Inl UnreadableDefinition
      | Some raw \<Rightarrow>
          (case validate_definition raw of
             None \<Rightarrow> Inl InvalidDefinition
           | Some d \<Rightarrow> (case build_role reg d of Inl e \<Rightarrow> Inl (RegistryRejected e) | Inr _ \<Rightarrow> Inr d)))"

text \<open>The files in the order of their names.\<close>

fun load_definitions ::
    "'r role_registry \<Rightarrow> ('f \<Rightarrow> agent_definition option) \<Rightarrow> 'f list \<Rightarrow> (string \<times> agent_definition) list \<Rightarrow>
     loader_error + (string \<times> agent_definition) list" where
  "load_definitions reg read_yaml [] acc = Inr acc"
| "load_definitions reg read_yaml (file # files) acc =
     (case load_definition reg read_yaml file of
        Inl e \<Rightarrow> Inl e
      | Inr d \<Rightarrow> if ad_agent_id d \<in> fst ` set acc then Inl DuplicateAgent
                else load_definitions reg read_yaml files (dict_set (ad_agent_id d) d acc))"

section \<open>Data planner\<close>

text \<open>\<open>None\<close> is a \<open>ValueError\<close>.\<close>

definition requirement_request :: "instant \<Rightarrow> role_data_requirement \<Rightarrow> py_datetime market_request" where
  "requirement_request as_of r =
     \<lparr>mq_instrument = rd_instrument r, mq_timeframe = rd_timeframe r, mq_minimum_bars = rd_minimum_bars r,
      mq_as_of = Aware as_of 0, mq_max_data_age_seconds = rd_max_data_age_seconds r, mq_closed_only = True\<rparr>"

definition plan_data :: "agent_definition \<Rightarrow> string \<Rightarrow> instant \<Rightarrow> instant market_request list option" where
  "plan_data d asset as_of =
     (if asset \<notin> set (ad_supported_assets d) then None
      else
        let relevant = filter (\<lambda>r. rd_instrument r = asset) (ad_required_data d)
        in if relevant = [] then None
           else sequence_opt (map (\<lambda>r. validate_market_request (requirement_request as_of r)) relevant))"

section \<open>Planning for a valid definition\<close>

definition valid_definition :: "agent_definition \<Rightarrow> bool" where
  "valid_definition d \<longleftrightarrow> (\<exists>raw. validate_definition raw = Some d)"

lemma valid_definition_facts:
  assumes "valid_definition d"
  shows "list_all valid_data_requirement (ad_required_data d)" "definition_consistent d"
    "1 \<le> max_evidence d" "max_evidence d \<le> 20" "agent_id_pattern (ad_agent_id d)" "role_id_pattern (ad_role_id d)"
    "len_between 1 32 (ad_config_version d)" "ad_analysis_schema_version d = ''1''"
    "length (ad_required_data d) \<le> 50"
proof -
  have "definition_ok d" using assms by (auto simp: valid_definition_def validate_definition_def Let_def split: if_splits)
  then show "list_all valid_data_requirement (ad_required_data d)" "definition_consistent d"
    "1 \<le> max_evidence d" "max_evidence d \<le> 20" "agent_id_pattern (ad_agent_id d)" "role_id_pattern (ad_role_id d)"
    "len_between 1 32 (ad_config_version d)" "ad_analysis_schema_version d = ''1''"
    "length (ad_required_data d) \<le> 50"
    by (auto simp: definition_ok_def definition_consistent_def not_less)
qed

definition planned_request :: "instant \<Rightarrow> role_data_requirement \<Rightarrow> instant market_request" where
  "planned_request as_of r =
     \<lparr>mq_instrument = rd_instrument r, mq_timeframe = rd_timeframe r, mq_minimum_bars = rd_minimum_bars r,
      mq_as_of = as_of, mq_max_data_age_seconds = rd_max_data_age_seconds r, mq_closed_only = True\<rparr>"

lemma requirement_request_valid:
  "valid_data_requirement r \<Longrightarrow>
   validate_market_request (requirement_request as_of r) = Some (planned_request as_of r)"
  by (simp add: validate_market_request_def requirement_request_def planned_request_def require_utc_def
      valid_data_requirement_def)

lemma sequence_opt_Some: "sequence_opt (map (\<lambda>x. Some (f x)) xs) = Some (map f xs)"
  by (induction xs) simp_all

lemma plan_data_valid:
  assumes "valid_definition d" and "asset \<in> set (ad_supported_assets d)"
    and "asset \<in> rd_instrument ` set (ad_required_data d)"
  shows "plan_data d asset as_of
    = Some (map (planned_request as_of) (filter (\<lambda>r. rd_instrument r = asset) (ad_required_data d)))"
proof -
  let ?relevant = "filter (\<lambda>r. rd_instrument r = asset) (ad_required_data d)"
  have "?relevant \<noteq> []" using assms(3) by (auto simp: filter_empty_conv)
  have eq: "map (\<lambda>r. validate_market_request (requirement_request as_of r)) ?relevant
      = map (\<lambda>r. Some (planned_request as_of r)) ?relevant"
    using valid_definition_facts(1) [OF assms(1)] requirement_request_valid
    by (auto simp: list_all_iff)
  with assms(2) \<open>?relevant \<noteq> []\<close> show ?thesis
    unfolding plan_data_def Let_def eq sequence_opt_Some by (simp only: if_False not_not if_not_P)
qed

lemma plan_data_Some:
  assumes "plan_data d asset as_of = Some qs" and "valid_definition d"
  shows "asset \<in> set (ad_supported_assets d)" "asset \<in> rd_instrument ` set (ad_required_data d)"
    "qs = map (planned_request as_of) (filter (\<lambda>r. rd_instrument r = asset) (ad_required_data d))"
proof -
  show a: "asset \<in> set (ad_supported_assets d)" "asset \<in> rd_instrument ` set (ad_required_data d)"
    using assms(1) by (auto simp: plan_data_def Let_def filter_empty_conv split: if_splits)
  from plan_data_valid [OF assms(2) a] assms(1)
  show "qs = map (planned_request as_of) (filter (\<lambda>r. rd_instrument r = asset) (ad_required_data d))" by simp
qed

section \<open>The registry as an interface\<close>

text \<open>What the loader and the runtime rely on: a role is built only for an enabled definition that
  names it, and the role carries that definition.\<close>

locale role_source =
  fixes build :: "agent_definition \<Rightarrow> registry_error + 'r" and role_definition :: "'r \<Rightarrow> agent_definition"
  assumes built_enabled: "build d = Inr role \<Longrightarrow> ad_enabled d"
    and built_for: "build d = Inr role \<Longrightarrow> role_definition role = d"
begin

lemma disabled_not_built: "\<not> ad_enabled d \<Longrightarrow> \<exists>e. build d = Inl e"
  by (metis built_enabled sum.exhaust_sel sum.collapse)

end

definition builtin_build ::
    "(pyval \<Rightarrow> 'c option) \<Rightarrow> agent_definition \<Rightarrow> registry_error + 'c technical_role" where
  "builtin_build config = build_role (snd (builtin_registry config))"

lemma builtin_registry_entries:
  "fst (builtin_registry config) = None"
  "snd (builtin_registry config) =
     [(''btc.market_context.v1'', btc_context_plugin config), (''eth.technical.v1'', eth_technical_plugin config),
      (''sol.technical.v1'', sol_technical_plugin config)]"
  by (simp_all add: builtin_registry_def register_role_def single_asset_plugin_def btc_context_plugin_def
      eth_technical_plugin_def sol_technical_plugin_def role_api_version_def)

definition builtin_asset :: "string \<Rightarrow> string option" where
  "builtin_asset role_id = map_of
     [(''btc.market_context.v1'', ''BTCUSDT''), (''eth.technical.v1'', ''ETHUSDT''), (''sol.technical.v1'', ''SOLUSDT'')] role_id"

lemma builtin_build_Inr:
  "builtin_build config d = Inr role \<longleftrightarrow>
     ad_enabled d \<and> ad_lifecycle d \<noteq> L_DISABLED
     \<and> (\<exists>asset c. builtin_asset (ad_role_id d) = Some asset \<and> ad_supported_assets d = [asset]
          \<and> config (ad_parameters d) = Some c
          \<and> role = \<lparr>cr_definition = d, cr_role_id = ad_role_id d, cr_role_version = ''1.0.0'',
              cr_evidence_type = (if ad_role_id d = ''btc.market_context.v1'' then ''market_context''
                                  else ''technical_feature''), cr_config = c\<rparr>)"
  unfolding builtin_build_def build_role_def builtin_registry_entries builtin_asset_def
  by (auto simp: btc_context_plugin_def eth_technical_plugin_def sol_technical_plugin_def single_asset_plugin_def
      technical_role_def split: option.splits if_splits)

interpretation builtin_roles: role_source "builtin_build config" cr_definition for config
  by unfold_locales (auto simp: builtin_build_Inr)

end
