(* ===== verification/Technical.thy ===== *)
theory Technical
  imports Features Roles "HOL-Library.List_Lexorder" "HOL-Library.Char_ord"
begin

text \<open>
  \<open>src/tomiris_agent_roles/technical.py\<close>: the configuration of a technical role and the engine
  that turns the series of a bundle into an analysis result.

  Feature values are finite (their validator); a close price and the weights of the
  configuration, which is only tested for being positive, may be any float.  \<open>fmt\<close> is Python's
  float formatting in the observation texts and \<open>ln64\<close> the platform's logarithm.  A raised
  \<open>ValueError\<close> or \<open>KeyError\<close> is \<open>ValueRaised\<close>.  The engine's counter of feature failures is
  returned as a flag.
\<close>

section \<open>Configuration\<close>

text \<open>A number that is not finite fails its bounds, so thresholds are rationals.\<close>

record technical_config =
  tc_pipeline :: pipeline_config
  tc_timeframe_weights :: "(timeframe \<times> fl) list"
  tc_neutral_threshold :: rat
  tc_strong_trend_threshold :: rat
  tc_rsi_bullish :: rat
  tc_rsi_bearish :: rat
  tc_high_atr_percent :: rat
  tc_extreme_atr_percent :: rat
  tc_high_realized_volatility :: rat
  tc_extreme_realized_volatility :: rat
  tc_range_ema_atr_ratio :: rat
  tc_swing_lookback :: int

definition valid_weights :: "(timeframe \<times> fl) list \<Rightarrow> bool" where
  "valid_weights ws \<longleftrightarrow> \<not> (ws = [] \<or> list_ex (\<lambda>(t, w). fl_le w (Fin 0)) ws)"

definition valid_technical_config :: "technical_config \<Rightarrow> bool" where
  "valid_technical_config c \<longleftrightarrow>
     valid_pipeline (tc_pipeline c) \<and> valid_weights (tc_timeframe_weights c)
     \<and> 0 < tc_neutral_threshold c \<and> tc_neutral_threshold c < 1
     \<and> 0 < tc_strong_trend_threshold c \<and> tc_strong_trend_threshold c \<le> 1
     \<and> 50 < tc_rsi_bullish c \<and> tc_rsi_bullish c < 100 \<and> 0 < tc_rsi_bearish c \<and> tc_rsi_bearish c < 50
     \<and> 0 < tc_high_atr_percent c \<and> tc_high_atr_percent c < 1
     \<and> 0 < tc_extreme_atr_percent c \<and> tc_extreme_atr_percent c < 2
     \<and> 0 < tc_high_realized_volatility c \<and> tc_high_realized_volatility c < 1
     \<and> 0 < tc_extreme_realized_volatility c \<and> tc_extreme_realized_volatility c < 2
     \<and> 0 < tc_range_ema_atr_ratio c \<and> tc_range_ema_atr_ratio c \<le> 2
     \<and> 2 \<le> tc_swing_lookback c \<and> tc_swing_lookback c \<le> 100
     \<and> \<not> tc_rsi_bullish c \<le> tc_rsi_bearish c
     \<and> \<not> tc_extreme_atr_percent c \<le> tc_high_atr_percent c
     \<and> \<not> tc_extreme_realized_volatility c \<le> tc_high_realized_volatility c"

section \<open>One timeframe\<close>

text \<open>Run a computation that may raise, then continue with its value.\<close>

definition sum_bind :: "'e + 'a \<Rightarrow> ('a \<Rightarrow> 'e + 'b) \<Rightarrow> 'e + 'b" where
  "sum_bind m f = (case m of Inl e \<Rightarrow> Inl e | Inr x \<Rightarrow> f x)"

lemma sum_bind_Inr: "sum_bind m f = Inr y \<longleftrightarrow> (\<exists>x. m = Inr x \<and> f x = Inr y)"
  by (cases m) (simp_all add: sum_bind_def)

definition feature_named :: "feature_result list \<Rightarrow> string \<Rightarrow> feature_error + feature_result" where
  "feature_named fs name =
     (case find (\<lambda>f. fr_feature_name f = name) fs of None \<Rightarrow> Inl OtherRaised | Some f \<Rightarrow> Inr f)"

definition ema_result :: "feature_result list \<Rightarrow> int \<Rightarrow> feature_error + feature_result" where
  "ema_result fs period =
     (case find (\<lambda>f. fr_feature_name f = ''ema'' \<and> map_of (fr_parameters f) ''period'' = Some period) fs of
        None \<Rightarrow> Inl OtherRaised | Some f \<Rightarrow> Inr f)"

definition value_of :: "feature_result \<Rightarrow> string \<Rightarrow> feature_error + rat" where
  "value_of f key = (case map_of (fr_values f) key of None \<Rightarrow> Inl ValueRaised | Some v \<Rightarrow> Inr v)"

definition named_value :: "feature_result list \<Rightarrow> string \<Rightarrow> string \<Rightarrow> feature_error + rat" where
  "named_value fs name key = sum_bind (feature_named fs name) (\<lambda>f. value_of f key)"

text \<open>The readings of the features that the scoring uses.\<close>

record readings =
  rg_fast :: rat
  rg_slow :: rat
  rg_rsi :: rat
  rg_histogram :: rat
  rg_atr :: rat
  rg_atr_percent :: rat
  rg_volatility :: rat
  rg_return :: rat
  rg_volume_ratio :: rat

definition read_features :: "pipeline_config \<Rightarrow> feature_result list \<Rightarrow> feature_error + readings" where
  "read_features pc fs =
     sum_bind (sum_bind (ema_result fs (pc_ema_fast pc)) (\<lambda>f. value_of f ''ema'')) (\<lambda>fast.
     sum_bind (sum_bind (ema_result fs (pc_ema_slow pc)) (\<lambda>f. value_of f ''ema'')) (\<lambda>slow.
     sum_bind (named_value fs ''rsi'' ''rsi'') (\<lambda>rsi.
     sum_bind (named_value fs ''macd'' ''histogram'') (\<lambda>histogram.
     sum_bind (named_value fs ''atr'' ''atr'') (\<lambda>atr.
     sum_bind (named_value fs ''atr'' ''atr_percent'') (\<lambda>atr_percent.
     sum_bind (named_value fs ''realized_volatility'' ''volatility'') (\<lambda>volatility.
     sum_bind (named_value fs ''return'' ''return'') (\<lambda>ret.
     sum_bind (named_value fs ''volume_trend'' ''ratio'') (\<lambda>ratio.
       Inr \<lparr>rg_fast = fast, rg_slow = slow, rg_rsi = rsi, rg_histogram = histogram, rg_atr = atr,
            rg_atr_percent = atr_percent, rg_volatility = volatility, rg_return = ret,
            rg_volume_ratio = ratio\<rparr>)))))))))"

definition trend_of :: "fl \<Rightarrow> rat \<Rightarrow> rat \<Rightarrow> trend_state \<times> rat" where
  "trend_of close fast slow =
     (if fl_less (Fin fast) close \<and> slow < fast then (STRONG_UP, 1)
      else if fl_less (Fin fast) close \<and> fl_less (Fin slow) close then (TREND_UP, rnd64 (6/10))
      else if fl_less close (Fin fast) \<and> fast < slow then (STRONG_DOWN, - 1)
      else if fl_less close (Fin fast) \<and> fl_less close (Fin slow) then (TREND_DOWN, - rnd64 (6/10))
      else (TREND_NEUTRAL, 0))"

definition momentum_of :: "technical_config \<Rightarrow> rat \<Rightarrow> rat \<Rightarrow> momentum_state \<times> rat" where
  "momentum_of c rsi histogram =
     (if tc_rsi_bullish c \<le> rsi \<and> 0 < histogram then (BULLISH, 1)
      else if rsi \<le> tc_rsi_bearish c \<and> histogram < 0 then (BEARISH, - 1)
      else (MOMENTUM_NEUTRAL, 0))"

definition volatility_of :: "technical_config \<Rightarrow> rat \<Rightarrow> rat \<Rightarrow> volatility_state" where
  "volatility_of c atr_percent realized =
     (if tc_extreme_atr_percent c \<le> atr_percent \<or> tc_extreme_realized_volatility c \<le> realized
      then VOL_EXTREME
      else if tc_high_atr_percent c \<le> atr_percent \<or> tc_high_realized_volatility c \<le> realized
      then VOL_HIGH
      else if atr_percent < fdiv (tc_high_atr_percent c) 3 then VOL_LOW
      else VOL_NORMAL)"

definition volume_of :: "rat \<Rightarrow> volume_state" where
  "volume_of ratio =
     (if rnd64 (110/100) < ratio then RISING else if ratio < rnd64 (90/100) then FALLING else VOLUME_NORMAL)"

text \<open>The bars before the last one that the breakout looks back at.\<close>

definition prior_bars :: "technical_config \<Rightarrow> instant market_series \<Rightarrow> bar list" where
  "prior_bars c s =
     (let n = length (se_bars s); k = min (nat (tc_swing_lookback c)) (n - 1)
      in take k (drop (n - 1 - k) (se_bars s)))"

definition swing_of :: "bar list \<Rightarrow> fl \<Rightarrow> rat" where
  "swing_of prior close =
     (case prior of
        [] \<Rightarrow> 0
      | b # bs \<Rightarrow>
          if fl_less (max_list (fl_of (br_high b)) (map (\<lambda>b. fl_of (br_high b)) bs)) close then 1
          else if fl_less close (min_list (fl_of (br_low b)) (map (\<lambda>b. fl_of (br_low b)) bs)) then - 1
          else 0)"

definition return_score :: "rat \<Rightarrow> rat" where
  "return_score r = (if 0 < r then 1 else if r < 0 then - 1 else 0)"

definition raw_score :: "rat \<Rightarrow> rat \<Rightarrow> rat \<Rightarrow> rat \<Rightarrow> rat" where
  "raw_score trend momentum swing ret =
     fadd (fadd (fadd (fmul trend (rnd64 (45/100))) (fmul momentum (rnd64 (30/100))))
                (fmul swing (rnd64 (15/100))))
          (fmul ret (rnd64 (10/100)))"

definition range_like :: "technical_config \<Rightarrow> readings \<Rightarrow> bool" where
  "range_like c g \<longleftrightarrow>
     fl_less (fl_abs (fl_sub (Fin (rg_fast g)) (Fin (rg_slow g))))
             (fl_mul (Fin (rg_atr g)) (Fin (tc_range_ema_atr_ratio c)))"

definition timeframe_state :: "technical_config \<Rightarrow> instant market_series \<Rightarrow> readings \<Rightarrow> timeframe_analysis" where
  "timeframe_state c s g =
     (let close = fl_of (br_close (last (se_bars s)));
          (trend, trend_score) = trend_of close (rg_fast g) (rg_slow g);
          (momentum, momentum_score) = momentum_of c (rg_rsi g) (rg_histogram g);
          volatility = volatility_of c (rg_atr_percent g) (rg_volatility g);
          swing_score = swing_of (prior_bars c s) close;
          raw = raw_score trend_score momentum_score swing_score (return_score (rg_return g));
          (trend, raw) = (if range_like c g \<and> swing_score = 0 then (TREND_NEUTRAL, fmul raw (1/4))
                          else (trend, raw))
      in \<lparr>ta_timeframe = se_timeframe s, ta_trend = trend, ta_momentum = momentum,
          ta_volatility = volatility, ta_volume_state = volume_of (rg_volume_ratio g),
          ta_score = min 1 (max (- 1) raw)\<rparr>)"

definition trend_text :: "trend_state \<Rightarrow> string" where
  "trend_text t = (case t of STRONG_UP \<Rightarrow> ''STRONG_UP'' | TREND_UP \<Rightarrow> ''UP'' | TREND_NEUTRAL \<Rightarrow> ''NEUTRAL''
     | TREND_DOWN \<Rightarrow> ''DOWN'' | STRONG_DOWN \<Rightarrow> ''STRONG_DOWN'')"

definition momentum_text :: "momentum_state \<Rightarrow> string" where
  "momentum_text m = (case m of BULLISH \<Rightarrow> ''BULLISH'' | MOMENTUM_NEUTRAL \<Rightarrow> ''NEUTRAL'' | BEARISH \<Rightarrow> ''BEARISH'')"

definition volatility_text :: "volatility_state \<Rightarrow> string" where
  "volatility_text v = (case v of VOL_LOW \<Rightarrow> ''LOW'' | VOL_NORMAL \<Rightarrow> ''NORMAL'' | VOL_HIGH \<Rightarrow> ''HIGH''
     | VOL_EXTREME \<Rightarrow> ''EXTREME'')"

definition evidence_of ::
    "string \<Rightarrow> instant market_series \<Rightarrow> feature_error + feature_result \<Rightarrow> string \<Rightarrow> feature_error + analytical_evidence" where
  "evidence_of evidence_type s feature observation =
     sum_bind feature (\<lambda>f.
       let timestamp = br_close_time (last (se_bars s));
           e = \<lparr>ae_evidence_type = evidence_type,
              ae_summary = se_instrument s @ '' '' @ timeframe_value (se_timeframe s) @ '' '' @ observation,
              ae_provider = se_provider s, ae_instrument = se_instrument s, ae_timeframe = se_timeframe s,
              ae_feature_name = fr_feature_name f, ae_feature_version = fr_feature_version f,
              ae_observed_at = timestamp, ae_source_timestamp = timestamp, ae_observation = observation\<rparr>
       in if valid_analytical_evidence e then Inr e else Inl ValueRaised)"

definition timeframe_evidence ::
    "(nat \<Rightarrow> fl \<Rightarrow> string) \<Rightarrow> string \<Rightarrow> technical_config \<Rightarrow> instant market_series \<Rightarrow> feature_result list \<Rightarrow>
     readings \<Rightarrow> timeframe_analysis \<Rightarrow> feature_error + analytical_evidence list" where
  "timeframe_evidence fmt evidence_type c s fs g state =
     (let close = fl_of (br_close (last (se_bars s))) in
      sum_bind (evidence_of evidence_type s (ema_result fs (pc_ema_slow (tc_pipeline c)))
         (''close='' @ fmt 8 close @ ''; ema_slow='' @ fmt 8 (Fin (rg_slow g)) @ ''; trend='' @ trend_text (ta_trend state))) (\<lambda>e1.
      sum_bind (evidence_of evidence_type s (feature_named fs ''rsi'')
         (''rsi='' @ fmt 6 (Fin (rg_rsi g)) @ ''; momentum='' @ momentum_text (ta_momentum state))) (\<lambda>e2.
      sum_bind (evidence_of evidence_type s (feature_named fs ''macd'')
         (''macd_histogram='' @ fmt 8 (Fin (rg_histogram g)))) (\<lambda>e3.
      sum_bind (evidence_of evidence_type s (feature_named fs ''atr'')
         (''atr_percent='' @ fmt 8 (Fin (rg_atr_percent g)) @ ''; realized_volatility='' @ fmt 8 (Fin (rg_volatility g))
          @ ''; volatility='' @ volatility_text (ta_volatility state))) (\<lambda>e4.
        Inr [e1, e2, e3, e4])))))"

definition analyze_timeframe ::
    "(rat \<Rightarrow> rat) \<Rightarrow> (nat \<Rightarrow> fl \<Rightarrow> string) \<Rightarrow> string \<Rightarrow> technical_config \<Rightarrow> instant market_series \<Rightarrow>
     feature_error + (timeframe_analysis \<times> analytical_evidence list)" where
  "analyze_timeframe ln64 fmt evidence_type c s =
     sum_bind (compute_pipeline ln64 (tc_pipeline c) s) (\<lambda>fs.
       if list_ex (\<lambda>f. \<not> fr_valid f) fs then Inl ValueRaised
       else sum_bind (read_features (tc_pipeline c) fs) (\<lambda>g.
         let state = timeframe_state c s g in
         if \<not> valid_timeframe_analysis state then Inl ValueRaised
         else sum_bind (timeframe_evidence fmt evidence_type c s fs g state) (\<lambda>es. Inr (state, es))))"

section \<open>The engine\<close>

text \<open>A role as the runtime sees it: its definition, its plugin's constants and its configuration.\<close>

type_synonym role = "technical_config technical_role"

definition pipeline_version :: string where "pipeline_version = ''technical-pipeline.v1''"

definition data_ranges :: "instant market_series list \<Rightarrow> analysis_data_range list option" where
  "data_ranges ss = sequence_opt (map (\<lambda>s.
     let r = \<lparr>dg_provider = se_provider s, dg_instrument = se_instrument s, dg_timeframe = se_timeframe s,
           dg_first_bar_at = br_open_time (hd (se_bars s)), dg_last_bar_at = br_close_time (last (se_bars s)),
           dg_bar_count = int (length (se_bars s))\<rparr>
     in if valid_data_range r then Some r else None) ss)"

definition provider_names :: "instant market_series list \<Rightarrow> string" where
  "provider_names ss = join_with CHR '','' (sort (remdups (map se_provider ss)))"

definition close_times :: "instant market_series list \<Rightarrow> instant list" where
  "close_times ss = map (\<lambda>s. br_close_time (last (se_bars s))) ss"

definition input_series :: "role_input \<Rightarrow> instant market_series list" where
  "input_series i = mb_series (ri_market_data i)"

definition role_asset :: "role_input \<Rightarrow> string" where
  "role_asset i = tr_asset (ax_task (ri_context i))"

text \<open>\<open>abstain\<close>; the validation of its own result may fail, which escapes.\<close>

definition abstain_result ::
    "role \<Rightarrow> role_input \<Rightarrow> string \<Rightarrow> quality \<Rightarrow> feature_error + agent_analysis_result" where
  "abstain_result role i reason q =
     (let ss = input_series i; names = provider_names ss
      in case data_ranges ss of
           None \<Rightarrow> Inl ValueRaised
         | Some ranges \<Rightarrow>
             (case validate_analysis_result
                 \<lparr>an_analysis_schema_version = ad_analysis_schema_version (cr_definition role),
                  an_role_id = ad_role_id (cr_definition role), an_role_version = cr_role_version role,
                  an_config_version = ad_config_version (cr_definition role),
                  an_feature_pipeline_version = pipeline_version,
                  an_snapshot_id = ax_snapshot_id (ri_context i), an_asset = role_asset i, an_bias = ABSTAIN,
                  an_confidence = Fin 0, an_data_quality = q, an_reason_codes = [reason],
                  an_timeframe_states = [], an_evidence = [], an_data_ranges = ranges,
                  an_data_provider = (if names = [] then ''unavailable'' else names),
                  an_data_as_of = (if ss = [] then ax_as_of (ri_context i) else Max (set (close_times ss))),
                  an_analysis_as_of = ax_as_of (ri_context i)\<rparr> of
                None \<Rightarrow> Inl ValueRaised | Some r \<Rightarrow> Inr r))"

text \<open>Evaluate in order; the first exception ends the evaluation.\<close>

fun map_sum_list :: "('a \<Rightarrow> 'e + 'b) \<Rightarrow> 'a list \<Rightarrow> 'e + 'b list" where
  "map_sum_list f [] = Inr []"
| "map_sum_list f (x # xs) =
     sum_bind (f x) (\<lambda>y. sum_bind (map_sum_list f xs) (\<lambda>ys. Inr (y # ys)))"

definition timeframe_weight :: "technical_config \<Rightarrow> timeframe \<Rightarrow> fl" where
  "timeframe_weight c tf = (case map_of (tc_timeframe_weights c) tf of Some w \<Rightarrow> w | None \<Rightarrow> Fin 1)"

definition weighted_score :: "technical_config \<Rightarrow> timeframe_analysis list \<Rightarrow> feature_error + fl" where
  "weighted_score c states =
     (let weights = map (\<lambda>t. timeframe_weight c (ta_timeframe t)) states
      in case fl_div (py_sum (map (\<lambda>(t, w). fl_mul (Fin (ta_score t)) w) (zip states weights))) (py_sum weights) of
           None \<Rightarrow> Inl ZeroDivisionRaised | Some s \<Rightarrow> Inr s)"

definition positives :: "technical_config \<Rightarrow> timeframe_analysis list \<Rightarrow> nat" where
  "positives c states = length (filter (\<lambda>t. tc_neutral_threshold c < ta_score t) states)"

definition negatives :: "technical_config \<Rightarrow> timeframe_analysis list \<Rightarrow> nat" where
  "negatives c states = length (filter (\<lambda>t. ta_score t < - tc_neutral_threshold c) states)"

definition conflicting :: "technical_config \<Rightarrow> timeframe_analysis list \<Rightarrow> bool" where
  "conflicting c states \<longleftrightarrow> 0 < positives c states \<and> 0 < negatives c states"

definition no_edge :: "technical_config \<Rightarrow> timeframe_analysis list \<Rightarrow> fl \<Rightarrow> bool" where
  "no_edge c states ws \<longleftrightarrow> fl_less (fl_abs ws) (Fin (tc_neutral_threshold c)) \<or> conflicting c states"

definition score_bias :: "technical_config \<Rightarrow> timeframe_analysis list \<Rightarrow> fl \<Rightarrow> bias" where
  "score_bias c states ws =
     (if no_edge c states ws then NEUTRAL else if fl_less (Fin 0) ws then LONG else SHORT)"

definition reason_codes :: "technical_config \<Rightarrow> timeframe_analysis list \<Rightarrow> fl \<Rightarrow> string list" where
  "reason_codes c states ws =
     (if conflicting c states then [''TIMEFRAME_CONFLICT''] else [])
     @ (if list_ex (\<lambda>t. ta_volatility t \<in> {VOL_HIGH, VOL_EXTREME}) states then [''HIGH_VOLATILITY''] else [])
     @ (if no_edge c states ws then [''NO_CLEAR_EDGE''] else [])"

text \<open>\<open>|score| / threshold\<close>; the thresholds are positive.\<close>

definition relative_score :: "fl \<Rightarrow> rat \<Rightarrow> fl" where
  "relative_score ws threshold =
     (case fl_div (fl_abs ws) (Fin threshold) of Some r \<Rightarrow> r | None \<Rightarrow> NaN)"

definition raw_confidence :: "technical_config \<Rightarrow> timeframe_analysis list \<Rightarrow> fl \<Rightarrow> fl" where
  "raw_confidence c states ws =
     (if no_edge c states ws
      then py_min (Fin (rnd64 (60/100)))
             (fl_mul (py_max (Fin 0) (fl_sub (Fin 1) (relative_score ws (tc_neutral_threshold c)))) (Fin (rnd64 (60/100))))
      else let matching = (if fl_less (Fin 0) ws then positives c states else negatives c states);
               agreement = fdiv (of_nat matching) (of_nat (length states));
               strength = py_min (Fin 1) (relative_score ws (tc_strong_trend_threshold c))
           in py_min (Fin 1) (fl_add (fl_mul strength (Fin (rnd64 (65/100))))
                                (fl_mul (Fin agreement) (Fin (rnd64 (35/100))))))"

text \<open>\<open>round(x, 6)\<close>: to the nearest multiple of a millionth, ties to even, then to the nearest float.\<close>

definition round6 :: "fl \<Rightarrow> fl" where
  "round6 x = (case x of Fin q \<Rightarrow> fl_of (of_int (round_half_even (q * 1000000)) / 1000000) | _ \<Rightarrow> x)"

text \<open>The body of the \<open>try\<close> once the series are known to be the required ones.\<close>

definition score_series ::
    "(rat \<Rightarrow> rat) \<Rightarrow> (nat \<Rightarrow> fl \<Rightarrow> string) \<Rightarrow> role \<Rightarrow> role_input \<Rightarrow> feature_error + agent_analysis_result" where
  "score_series ln64 fmt role i =
     (let ss = input_series i; d = cr_definition role; c = cr_config role in
      sum_bind (map_sum_list (analyze_timeframe ln64 fmt (cr_evidence_type role) c) ss) (\<lambda>computations.
      let states = map fst computations;
          evidence = take (nat (max_evidence d)) (concat (map snd computations)) in
      if states = [] then abstain_result role i ''INSUFFICIENT_HISTORY'' Q_INSUFFICIENT
      else sum_bind (weighted_score c states) (\<lambda>ws.
        case data_ranges ss of
          None \<Rightarrow> Inl ValueRaised
        | Some ranges \<Rightarrow>
            (case validate_analysis_result
               \<lparr>an_analysis_schema_version = ad_analysis_schema_version d, an_role_id = ad_role_id d,
                an_role_version = cr_role_version role, an_config_version = ad_config_version d,
                an_feature_pipeline_version = pipeline_version,
                an_snapshot_id = ax_snapshot_id (ri_context i), an_asset = role_asset i,
                an_bias = score_bias c states ws, an_confidence = round6 (raw_confidence c states ws),
                an_data_quality = Q_VALID, an_reason_codes = reason_codes c states ws,
                an_timeframe_states = states, an_evidence = evidence, an_data_ranges = ranges,
                an_data_provider = provider_names ss, an_data_as_of = Max (set (close_times ss)),
                an_analysis_as_of = ax_as_of (ri_context i)\<rparr> of
              None \<Rightarrow> Inl ValueRaised | Some r \<Rightarrow> Inr r))))"

definition series_keys :: "instant market_series list \<Rightarrow> (string \<times> timeframe) list" where
  "series_keys ss = map (\<lambda>s. (se_instrument s, se_timeframe s)) ss"

definition required_keys :: "agent_definition \<Rightarrow> (string \<times> timeframe) list" where
  "required_keys d = map (\<lambda>r. (rd_instrument r, rd_timeframe r)) (ad_required_data d)"

text \<open>\<open>analyze\<close>: the flag says that the failure counter was incremented.  Only \<open>ValueError\<close> and
  \<open>KeyError\<close> become an abstention.\<close>

definition engine_analyze ::
    "(rat \<Rightarrow> rat) \<Rightarrow> (nat \<Rightarrow> fl \<Rightarrow> string) \<Rightarrow> role \<Rightarrow> role_input \<Rightarrow>
     bool \<times> (feature_error + agent_analysis_result)" where
  "engine_analyze ln64 fmt role i =
     (let ss = input_series i; actual = series_keys ss;
          outcome =
            (if list_ex (\<lambda>s. se_instrument s \<noteq> role_asset i) ss then Inl ValueRaised
             else if set actual \<noteq> set (required_keys (cr_definition role)) \<or> length (remdups actual) \<noteq> length ss
             then abstain_result role i ''INSUFFICIENT_HISTORY'' Q_INSUFFICIENT
             else score_series ln64 fmt role i)
      in if outcome = Inl ValueRaised
         then (True, abstain_result role i ''FEATURE_FAILURE'' Q_INVALID)
         else (False, outcome))"

section \<open>What a result says\<close>

lemma abstain_result_Inr:
  assumes "abstain_result role i reason q = Inr r"
  shows "an_bias r = ABSTAIN" "an_confidence r = 0" "an_reason_codes r = [reason]" "an_timeframe_states r = []"
    "an_evidence r = []" "an_data_quality r = q"
    "an_snapshot_id r = ax_snapshot_id (ri_context i)" "an_asset r = role_asset i"
    "an_analysis_as_of r = ax_as_of (ri_context i)" "an_role_id r = ad_role_id (cr_definition role)"
  using assms
  by (auto simp: abstain_result_def Let_def validate_analysis_result_def finite_float_def split: option.splits if_splits)

lemma map_sum_list_Inr:
  "map_sum_list f xs = Inr ys \<Longrightarrow> list_all2 (\<lambda>x y. f x = Inr y) xs ys"
  by (induction xs arbitrary: ys) (auto simp: sum_bind_Inr)

lemma timeframe_state_timeframe [simp]: "ta_timeframe (timeframe_state c s g) = se_timeframe s"
  by (simp add: timeframe_state_def Let_def split: prod.split)

lemma analyze_timeframe_Inr:
  assumes "analyze_timeframe ln64 fmt ty c s = Inr (state, es)"
  shows "ta_timeframe state = se_timeframe s" "valid_timeframe_analysis state"
  using assms
  by (auto simp: analyze_timeframe_def Let_def sum_bind_Inr split: if_splits)

lemma evidence_of_valid: "evidence_of ty s f obs = Inr e \<Longrightarrow> valid_analytical_evidence e"
  by (auto simp: evidence_of_def sum_bind_Inr Let_def split: if_splits)

lemma analyze_timeframe_evidence:
  assumes "analyze_timeframe ln64 fmt ty c s = Inr (state, es)"
  shows "list_all valid_analytical_evidence es"
proof -
  obtain fs g where "timeframe_evidence fmt ty c s fs g state = Inr es"
    using assms by (auto simp: analyze_timeframe_def Let_def sum_bind_Inr split: if_splits)
  then show ?thesis by (auto simp: timeframe_evidence_def Let_def sum_bind_Inr dest!: evidence_of_valid)
qed

lemma computed_evidence:
  assumes "list_all2 (\<lambda>x y. analyze_timeframe ln64 fmt ty c x = Inr y) ss comps"
  shows "list_all valid_analytical_evidence (take n (concat (map snd comps)))"
proof -
  have "list_all valid_analytical_evidence (concat (map snd comps))"
    using assms by (induction rule: list_all2_induct) (auto dest!: analyze_timeframe_evidence)
  then show ?thesis using set_take_subset [of n "concat (map snd comps)"] unfolding list_all_iff by blast
qed

text \<open>The two kinds of result: an abstention, or the scores of every required series.\<close>

definition scored_result ::
    "(rat \<Rightarrow> rat) \<Rightarrow> (nat \<Rightarrow> fl \<Rightarrow> string) \<Rightarrow> role \<Rightarrow> role_input \<Rightarrow> fl \<Rightarrow> agent_analysis_result \<Rightarrow> bool" where
  "scored_result ln64 fmt role i ws r \<longleftrightarrow>
     (let ss = input_series i; states = an_timeframe_states r; c = cr_config role in
      ss \<noteq> [] \<and> list_all2 (\<lambda>s t. \<exists>es. analyze_timeframe ln64 fmt (cr_evidence_type role) c s = Inr (t, es)) ss states
      \<and> set (series_keys ss) = set (required_keys (cr_definition role)) \<and> distinct (series_keys ss)
      \<and> (\<forall>s\<in>set ss. se_instrument s = role_asset i)
      \<and> weighted_score c states = Inr ws \<and> an_bias r = score_bias c states ws
      \<and> Fin (an_confidence r) = round6 (raw_confidence c states ws)
      \<and> 0 \<le> an_confidence r \<and> an_confidence r \<le> 1
      \<and> an_data_quality r = Q_VALID \<and> an_reason_codes r = reason_codes c states ws \<and> length states \<le> 20
      \<and> length (an_evidence r) \<le> nat (max_evidence (cr_definition role)) \<and> length (an_evidence r) \<le> 20
      \<and> list_all valid_analytical_evidence (an_evidence r) \<and> data_ranges ss = Some (an_data_ranges r)
      \<and> length (an_data_ranges r) \<le> 50 \<and> an_data_as_of r = Max (set (close_times ss))
      \<and> an_snapshot_id r = ax_snapshot_id (ri_context i) \<and> an_asset r = role_asset i
      \<and> an_analysis_as_of r = ax_as_of (ri_context i) \<and> an_role_id r = ad_role_id (cr_definition role))"

lemma list_all2_map_fst:
  "list_all2 (\<lambda>x y. f x = Inr y) xs ys \<Longrightarrow> list_all2 (\<lambda>x t. \<exists>es. f x = Inr (t, es)) xs (map fst ys)"
  by (auto simp: list_all2_conv_all_nth) (metis prod.collapse)

lemma score_series_Inr:
  assumes "score_series ln64 fmt role i = Inr r"
    and "set (series_keys (input_series i)) = set (required_keys (cr_definition role))"
    and "length (remdups (series_keys (input_series i))) = length (input_series i)"
    and "\<forall>s\<in>set (input_series i). se_instrument s = role_asset i"
  shows "abstain_result role i ''INSUFFICIENT_HISTORY'' Q_INSUFFICIENT = Inr r
    \<or> (\<exists>ws. scored_result ln64 fmt role i ws r)"
proof -
  let ?ss = "input_series i" and ?c = "cr_config role"
  obtain comps where comps: "map_sum_list (analyze_timeframe ln64 fmt (cr_evidence_type role) ?c) ?ss = Inr comps"
    using assms(1) by (auto simp: score_series_def Let_def sum_bind_Inr)
  note rel = list_all2_map_fst [OF map_sum_list_Inr [OF comps]]
  have len: "length comps = length ?ss" using list_all2_lengthD [OF rel] by simp
  have dist: "distinct (series_keys ?ss)"
  proof -
    have "length (remdups (series_keys ?ss)) = length (series_keys ?ss)" using assms(3) by (simp add: series_keys_def)
    then show ?thesis by simp
  qed
  show ?thesis
  proof (cases "?ss = []")
    case True
    with assms(1) comps len show ?thesis by (simp add: score_series_def Let_def sum_bind_def)
  next
    case False
    with len have ne: "map fst comps \<noteq> []" by auto
    then obtain ws where ws: "weighted_score ?c (map fst comps) = Inr ws"
      using assms(1) comps by (auto simp: score_series_def Let_def sum_bind_def split: sum.splits)
    have "scored_result ln64 fmt role i ws r"
      using assms(1,2,4) comps ne ws False rel dist len computed_evidence [OF map_sum_list_Inr [OF comps]]
      by (auto simp: score_series_def Let_def sum_bind_def scored_result_def validate_analysis_result_def
          finite_float_def split: option.splits if_splits fl.splits)
    then show ?thesis by blast
  qed
qed

text \<open>What every result copies from the role.\<close>

definition stamped :: "role \<Rightarrow> role_input \<Rightarrow> 'f analysis_result \<Rightarrow> bool" where
  "stamped role i r \<longleftrightarrow>
     an_role_id r = ad_role_id (cr_definition role) \<and> an_role_version r = cr_role_version role
     \<and> an_config_version r = ad_config_version (cr_definition role)
     \<and> an_feature_pipeline_version r = pipeline_version
     \<and> an_data_provider r \<in> {provider_names (input_series i), ''unavailable''}"

lemma validated_result:
  assumes "validate_analysis_result x = Some r"
  shows "stamped role i x \<Longrightarrow> stamped role i r" and "an_analysis_schema_version r = ''1''"
  using assms by (auto simp: validate_analysis_result_def stamped_def split: option.splits if_splits)

lemma abstain_stamp:
  assumes "abstain_result role i reason q = Inr r"
  shows "stamped role i r \<and> an_analysis_schema_version r = ''1''"
proof -
  from assms obtain x where "validate_analysis_result x = Some r" "stamped role i x"
    by (auto simp: abstain_result_def Let_def stamped_def split: option.splits)
  then show ?thesis using validated_result by blast
qed

lemma score_stamp:
  assumes "score_series ln64 fmt role i = Inr r"
  shows "stamped role i r \<and> an_analysis_schema_version r = ''1''"
proof -
  from assms consider "abstain_result role i ''INSUFFICIENT_HISTORY'' Q_INSUFFICIENT = Inr r"
    | x where "validate_analysis_result x = Some r" "stamped role i x"
    unfolding score_series_def Let_def sum_bind_Inr
    by (elim exE conjE) (auto simp: sum_bind_Inr stamped_def split: option.splits if_splits)
  then show ?thesis using validated_result abstain_stamp by cases blast+
qed

lemma engine_stamp:
  assumes "engine_analyze ln64 fmt role i = (failed, Inr r)"
  shows "stamped role i r \<and> an_analysis_schema_version r = ''1''"
  using assms abstain_stamp score_stamp
  by (auto simp: engine_analyze_def Let_def split: if_splits)

lemma engine_analyze_cases:
  assumes "engine_analyze ln64 fmt role i = (failed, Inr r)"
  obtains (abstained) reason q where "abstain_result role i reason q = Inr r"
      "(reason, q) \<in> {(''INSUFFICIENT_HISTORY'', Q_INSUFFICIENT), (''FEATURE_FAILURE'', Q_INVALID)}"
    | (scored) ws where "scored_result ln64 fmt role i ws r" "\<not> failed"
proof -
  have "(\<exists>reason q. abstain_result role i reason q = Inr r
      \<and> (reason, q) \<in> {(''INSUFFICIENT_HISTORY'', Q_INSUFFICIENT), (''FEATURE_FAILURE'', Q_INVALID)})
    \<or> (\<exists>ws. scored_result ln64 fmt role i ws r \<and> \<not> failed)"
    using assms score_series_Inr [of ln64 fmt role i r]
    by (auto simp: engine_analyze_def Let_def list_ex_iff split: if_splits)
  with abstained scored show thesis by blast
qed

section \<open>Direction\<close>

text \<open>Weights of an ordinary configuration: positive floats far below the overflow threshold.\<close>

definition max_weight :: rat where "max_weight = 2 powi 990"

definition ordinary_weights :: "technical_config \<Rightarrow> bool" where
  "ordinary_weights c \<longleftrightarrow>
     list_all (\<lambda>(t, w). \<exists>q. w = Fin q \<and> repr64 q \<and> 0 < q \<and> q \<le> max_weight) (tc_timeframe_weights c)"

lemma max_weight_safe: "max_weight \<le> max_safe" "0 \<le> max_weight" "max_weight \<le> max_safe / 2 ^ 22" "1 \<le> max_weight"
proof -
  show "max_weight \<le> max_safe" "0 \<le> max_weight"
    unfolding max_weight_def max_safe_def by (intro powi_mono less_imp_le [OF powi_pos]; simp)+
  show "1 \<le> max_weight" using powi_mono [of 0 990] by (simp add: max_weight_def)
  have "max_safe = 2 powi 33 * max_weight" unfolding max_weight_def max_safe_def powi_add [symmetric] by simp
  moreover have "(2::rat) powi 33 = 2 ^ 33" by simp
  ultimately show "max_weight \<le> max_safe / 2 ^ 22" using \<open>0 \<le> max_weight\<close> by simp
qed

lemma timeframe_weight_ordinary:
  assumes "ordinary_weights c"
  shows "\<exists>q. timeframe_weight c tf = Fin q \<and> repr64 q \<and> 0 < q \<and> q \<le> max_weight"
proof (cases "map_of (tc_timeframe_weights c) tf")
  case None
  then show ?thesis using repr64_of_int [of 1] max_weight_safe by (simp add: timeframe_weight_def)
next
  case (Some w)
  then have "(tf, w) \<in> set (tc_timeframe_weights c)" by (rule map_of_SomeD)
  then show ?thesis using assms Some by (auto simp: timeframe_weight_def ordinary_weights_def list_all_iff)
qed

definition weighted_products :: "technical_config \<Rightarrow> timeframe_analysis list \<Rightarrow> fl list" where
  "weighted_products c states = map (\<lambda>t. fl_mul (Fin (ta_score t)) (timeframe_weight c (ta_timeframe t))) states"

lemma weighted_score_products:
  "weighted_score c states =
     (case fl_div (py_sum (weighted_products c states))
             (py_sum (map (\<lambda>t. timeframe_weight c (ta_timeframe t)) states)) of
        None \<Rightarrow> Inl ZeroDivisionRaised | Some s \<Rightarrow> Inr s)"
proof -
  have "map (\<lambda>(t, w). fl_mul (Fin (ta_score t)) w) (zip states (map (\<lambda>t. timeframe_weight c (ta_timeframe t)) states))
      = weighted_products c states"
    by (induction states) (simp_all add: weighted_products_def)
  then show ?thesis by (simp add: weighted_score_def)
qed

lemma product_nonneg:
  assumes "ordinary_weights c" and "0 \<le> s" and "s \<le> 1"
  shows "nonneg_fl max_weight (fl_mul (Fin s) (timeframe_weight c tf))"
proof -
  obtain q where q: "timeframe_weight c tf = Fin q" "repr64 q" "0 < q" "q \<le> max_weight"
    using timeframe_weight_ordinary [OF assms(1)] by blast
  have sq: "0 \<le> s * q" "s * q \<le> q" using assms(2,3) q(3) by (simp_all add: mult_left_le_one_le)
  then have "\<bar>s * q\<bar> \<le> max_safe" using q(4) max_weight_safe by simp
  then have "fl_mul (Fin s) (timeframe_weight c tf) = Fin (rnd64 (s * q))" by (simp add: q fl_of_finite)
  moreover have "rnd64 (s * q) \<le> q" using sq(2) q(2) by (rule rnd64_le)
  ultimately show ?thesis
    using q(4) sq(1) by (simp add: nonneg_fl_def rnd64_repr rnd64_nonneg)
qed

lemma fl_mul_neg_left: "fl_mul (Fin (- s)) (Fin q) = fl_neg (fl_mul (Fin s) (Fin q))"
  using fl_of_uminus [of "s * q"] by simp

text \<open>A sum of a few floats far below the threshold is finite.\<close>

definition bounded_fl :: "int \<Rightarrow> fl \<Rightarrow> bool" where
  "bounded_fl k x \<longleftrightarrow> (\<exists>r. x = Fin r \<and> \<bar>r\<bar> \<le> 2 powi k)"

lemma bounded_fl_add:
  assumes "bounded_fl j x" and "bounded_fl k y" and "max j k < n" and "- 1074 \<le> n" and "n \<le> 1023"
  shows "bounded_fl n (fl_add x y)"
proof -
  obtain p q where pq: "x = Fin p" "y = Fin q" "\<bar>p\<bar> \<le> 2 powi j" "\<bar>q\<bar> \<le> 2 powi k"
    using assms(1,2) by (auto simp: bounded_fl_def)
  have "(2::rat) powi j \<le> 2 powi (n - 1)" "(2::rat) powi k \<le> 2 powi (n - 1)"
    using assms(3) by (intro powi_mono; simp)+
  moreover have "(2::rat) powi n = 2 * 2 powi (n - 1)" using powi_add [of 1 "n - 1"] by simp
  ultimately have b: "\<bar>p + q\<bar> \<le> 2 powi n" using pq(3,4) by linarith
  also have "\<dots> \<le> max_safe" unfolding max_safe_def using assms(5) by (rule powi_mono)
  finally have "fl_add x y = Fin (rnd64 (p + q))" by (simp add: pq fl_of_finite)
  moreover have "\<bar>rnd64 (p + q)\<bar> \<le> 2 powi n" using b assms(4) by (intro rnd64_abs_le repr64_powi)
  ultimately show ?thesis by (simp add: bounded_fl_def)
qed

lemma bounded_fl_neg [simp]: "bounded_fl k (fl_neg x) = bounded_fl k x"
  by (cases x) (simp_all add: bounded_fl_def)

lemma sum_step_bounded:
  assumes "bounded_fl k s" and "bounded_fl (k + 4) c" and "bounded_fl k x" and "0 \<le> k" and "k \<le> 1018"
  shows "bounded_fl (k + 1) (fst (sum_step (s, c) x))" and "bounded_fl (k + 5) (snd (sum_step (s, c) x))"
proof -
  have t: "bounded_fl (k + 1) (fl_add s x)" using assms by (intro bounded_fl_add [of k s k x]) simp_all
  then show "bounded_fl (k + 1) (fst (sum_step (s, c) x))" by (simp add: sum_step_def Let_def)
  have "bounded_fl (k + 3) (fl_add (fl_sub a (fl_add s x)) b)" if "bounded_fl k a" "bounded_fl k b" for a b
    unfolding fl_sub_def using assms t that
    by (intro bounded_fl_add [of "k + 2" _ k b] bounded_fl_add [of k a "k + 1" _ "k + 2"]) simp_all
  then have "bounded_fl (k + 3) (if fl_le (fl_abs x) (fl_abs s) then fl_add (fl_sub s (fl_add s x)) x
      else fl_add (fl_sub x (fl_add s x)) s)" using assms(1,3) by simp
  then show "bounded_fl (k + 5) (snd (sum_step (s, c) x))"
    unfolding sum_step_def Let_def prod.case snd_conv using assms by (intro bounded_fl_add [of "k + 4" c "k + 3"]) simp_all
qed

lemma bounded_fl_mono: "bounded_fl j x \<Longrightarrow> j \<le> k \<Longrightarrow> bounded_fl k x"
  using powi_mono [of j k] by (auto simp: bounded_fl_def)

lemma py_sum_finite:
  assumes "list_all (bounded_fl 990) xs" and "length xs \<le> 20"
  shows "\<exists>p. py_sum xs = Fin p"
proof (cases xs)
  case (Cons x ys)
  have fold: "bounded_fl (k + int (length zs)) (fst (foldl sum_step (s, c) zs))
      \<and> bounded_fl (k + int (length zs) + 4) (snd (foldl sum_step (s, c) zs))"
    if "list_all (bounded_fl 990) zs" "bounded_fl k s" "bounded_fl (k + 4) c" "990 \<le> k" "k + int (length zs) \<le> 1018"
    for zs s c k
    using that
  proof (induction zs arbitrary: s c k)
    case (Cons z zs)
    obtain s' c' where step: "sum_step (s, c) z = (s', c')" by (cases "sum_step (s, c) z")
    have "bounded_fl k z" using Cons.prems by (auto intro: bounded_fl_mono)
    with Cons.prems have "bounded_fl (k + 1) s'" "bounded_fl (k + 5) c'"
      using sum_step_bounded [of k s c z] step by simp_all
    with Cons.IH [of "k + 1" s' c'] Cons.prems step show ?case by (simp add: algebra_simps)
  qed simp
  have "bounded_fl 990 x" "bounded_fl 994 (Fin 0)" using assms Cons by (simp_all add: bounded_fl_def)
  with fold [of ys 990 x "Fin 0"] assms Cons
  have f: "bounded_fl (990 + int (length ys)) (fst (foldl sum_step (x, Fin 0) ys))"
    "bounded_fl (990 + int (length ys) + 4) (snd (foldl sum_step (x, Fin 0) ys))" by simp_all
  have sum: "bounded_fl 1023 (fl_add (fst (foldl sum_step (x, Fin 0) ys)) (snd (foldl sum_step (x, Fin 0) ys)))"
    using assms Cons by (intro bounded_fl_add [OF f]) simp_all
  then show ?thesis using f
    by (auto simp: Cons py_sum_def sum_end_def bounded_fl_def split: prod.split)
qed (simp add: py_sum_def)

text \<open>The sign of the weighted score.\<close>

lemma quotient_not_positive:
  assumes "fl_div (fl_neg (Fin p)) (Fin w) = Some s" and "0 \<le> p" and "0 \<le> w"
  shows "\<not> fl_less (Fin 0) s"
proof -
  have "s = fl_of (- p / w)" using assms(1) by (auto split: if_splits)
  moreover have "rnd64 (- p / w) \<le> 0"
    using assms(2,3) rnd64_nonneg [of "p / w"] rnd64_uminus [of "p / w"] by simp
  moreover have "0 \<le> p / w" using assms(2,3) by (rule divide_nonneg_nonneg)
  ultimately show ?thesis by (auto simp: fl_of_def Let_def not_less)
qed

lemma quotient_not_negative:
  assumes "fl_div (Fin p) (Fin w) = Some s" and "0 \<le> p" and "0 \<le> w"
  shows "\<not> fl_less s (Fin 0)"
proof -
  have "s = fl_of (p / w)" using assms(1) by (auto split: if_splits)
  moreover have "0 \<le> rnd64 (p / w)" using assms(2,3) by (simp add: rnd64_nonneg)
  ultimately show ?thesis
    using assms(2,3) by (auto simp: fl_of_def Let_def not_less fits64_def rnd64_def split: if_splits)
qed

lemma weighted_score_sign:
  assumes w: "ordinary_weights c" and n: "length states \<le> 20"
    and scores: "\<forall>t\<in>set states. - 1 \<le> ta_score t \<and> ta_score t \<le> 1"
    and ws: "weighted_score c states = Inr ws"
  shows "fl_less (Fin 0) ws \<Longrightarrow> \<exists>t\<in>set states. 0 < ta_score t"
    and "fl_less ws (Fin 0) \<Longrightarrow> \<exists>t\<in>set states. ta_score t < 0"
    and "ws \<noteq> NaN"
proof -
  have len: "length states \<le> 2 ^ 20" using n by simp
  have weights: "list_all (nonneg_fl max_weight) (map (\<lambda>t. timeframe_weight c (ta_timeframe t)) states)"
    using timeframe_weight_ordinary [OF w] unfolding list_all_iff nonneg_fl_def by (fastforce intro: less_imp_le)
  obtain W where W: "py_sum (map (\<lambda>t. timeframe_weight c (ta_timeframe t)) states) = Fin W" "0 \<le> W"
    using py_sum_nonneg [OF weights] len max_weight_safe by (auto simp: nonneg_fl_def)
  have div: "fl_div (py_sum (weighted_products c states)) (Fin W) = Some ws"
    using ws unfolding weighted_score_products W(1) by (auto split: option.splits)
  show "\<exists>t\<in>set states. ta_score t < 0" if neg: "fl_less ws (Fin 0)"
  proof (rule ccontr)
    assume "\<not> ?thesis"
    then have "list_all (nonneg_fl max_weight) (weighted_products c states)"
      using product_nonneg [OF w] scores by (auto simp: list_all_iff weighted_products_def not_less)
    from py_sum_nonneg [OF this _ max_weight_safe(3,2)] len
    obtain p where "py_sum (weighted_products c states) = Fin p" "0 \<le> p"
      by (auto simp: nonneg_fl_def weighted_products_def)
    with quotient_not_negative [of p W ws] div W(2) neg show False by simp
  qed
  show "\<exists>t\<in>set states. 0 < ta_score t" if pos: "fl_less (Fin 0) ws"
  proof (rule ccontr)
    assume no: "\<not> ?thesis"
    let ?neg = "map (\<lambda>t. fl_mul (Fin (- ta_score t)) (timeframe_weight c (ta_timeframe t))) states"
    have "list_all (nonneg_fl max_weight) ?neg"
      using product_nonneg [OF w] scores no by (auto simp: list_all_iff not_less)
    from py_sum_nonneg [OF this _ max_weight_safe(3,2)] len
    obtain p where p: "py_sum ?neg = Fin p" "0 \<le> p" by (auto simp: nonneg_fl_def)
    have "fl_mul (Fin (ta_score t)) (timeframe_weight c (ta_timeframe t))
        = fl_neg (fl_mul (Fin (- ta_score t)) (timeframe_weight c (ta_timeframe t)))" for t
      using timeframe_weight_ordinary [OF w, of "ta_timeframe t"] fl_mul_neg_left [of "- ta_score t"] by (auto simp del: fl_mul.simps)
    then have "weighted_products c states = map fl_neg ?neg"
      unfolding weighted_products_def map_map comp_def by (intro map_cong refl)
    then have "py_sum (weighted_products c states) = fl_neg (Fin p)" using py_sum_neg p(1) by metis
    with quotient_not_positive [of p W ws] div W(2) p(2) pos show False by simp
  qed
  have "bounded_fl 990 (fl_mul (Fin (ta_score t)) (timeframe_weight c (ta_timeframe t)))" if "t \<in> set states" for t
  proof -
    obtain q where q: "timeframe_weight c (ta_timeframe t) = Fin q" "repr64 q" "0 < q" "q \<le> max_weight"
      using timeframe_weight_ordinary [OF w] by blast
    have "\<bar>ta_score t\<bar> \<le> 1" using scores that by (simp add: abs_le_iff)
    then have b: "\<bar>ta_score t * q\<bar> \<le> max_weight"
      using q(3,4) mult_mono [of "\<bar>ta_score t\<bar>" 1 q max_weight] by (simp add: abs_mult)
    then have "fl_mul (Fin (ta_score t)) (Fin q) = Fin (rnd64 (ta_score t * q))"
      using max_weight_safe by (simp add: fl_of_finite)
    moreover have "\<bar>rnd64 (ta_score t * q)\<bar> \<le> 2 powi 990"
      using b unfolding max_weight_def by (intro rnd64_abs_le repr64_powi) simp_all
    ultimately show ?thesis unfolding q(1) bounded_fl_def by blast
  qed
  then have "list_all (bounded_fl 990) (weighted_products c states)"
    unfolding weighted_products_def list_all_iff set_map by blast
  from py_sum_finite [OF this] n obtain p where "py_sum (weighted_products c states) = Fin p"
    by (auto simp: weighted_products_def)
  with div show "ws \<noteq> NaN" by (auto simp: fl_of_def Let_def split: if_splits)
qed

end
