(* ===== verification/Role_Samples.thy ===== *)
theory Role_Samples
  imports Technical
begin

text \<open>
  A concrete technical role for the witnesses: a small pipeline, ten bars of one timeframe whose
  price doubles every time (so that the floats are exact) and the features, state and evidence
  that the model computes from them.  \<open>\<lambda>x. x - 1\<close> stands for the logarithm and a constant for the
  formatting of floats.
\<close>

section \<open>Exact floats\<close>

fun pow2_num :: "num \<Rightarrow> bool" where
  "pow2_num num.One = True"
| "pow2_num (num.Bit0 n) = pow2_num n"
| "pow2_num (num.Bit1 n) = False"

lemma pow2_num: "pow2_num b \<Longrightarrow> \<exists>k. (numeral b :: rat) = 2 ^ k"
proof (induction b)
  case One
  then show ?case by (intro exI [of _ 0]) simp
next
  case (Bit0 b)
  then obtain k where k: "(numeral b :: rat) = 2 ^ k" by auto
  have "(numeral (num.Bit0 b) :: rat) = 2 * numeral b" unfolding mult_2 by (rule numeral_Bit0)
  with k show ?case by (intro exI [of _ "Suc k"]) simp
qed simp

lemma repr64_dyadic:
  assumes "pow2_num b" and "(numeral b :: rat) \<le> 2 ^ 53" and "\<bar>n\<bar> \<le> 2 ^ 53"
  shows "repr64 (of_int n / numeral b)"
proof -
  obtain k where k: "(numeral b :: rat) = 2 ^ k" using pow2_num [OF assms(1)] by blast
  with assms(2) have "k \<le> 53" using power_le_imp_le_exp [of "2 :: rat" k 53] by simp
  with assms(3) k show ?thesis by (intro repr64I [of n "- int k"]) (simp_all add: power_int_minus_divide)
qed

lemma fl_of_repr64: "repr64 q \<Longrightarrow> \<bar>q\<bar> \<le> max_safe \<Longrightarrow> fl_of q = Fin q"
  by (simp add: fl_of_finite rnd64_exact)

lemma small_is_safe: "\<bar>q\<bar> \<le> 2 ^ 53 \<Longrightarrow> \<bar>q\<bar> \<le> max_safe"
  using powi_mono [of 53 1023] by (simp add: max_safe_def)

lemma fl_of_numeral:
  "(numeral a :: rat) \<le> 2 ^ 53 \<Longrightarrow> fl_of (numeral a) = Fin (numeral a)"
  "(numeral a :: rat) \<le> 2 ^ 53 \<Longrightarrow> fl_of (- numeral a) = Fin (- numeral a)"
  "fl_of 0 = Fin 0" "fl_of 1 = Fin 1" "fl_of (- 1) = Fin (- 1)"
proof -
  have fits: "fl_of (of_int n) = Fin (of_int n)" if "\<bar>n\<bar> \<le> 2 ^ 53" for n
    using that of_int_le_iff [of "\<bar>n\<bar>" "2 ^ 53", where 'a = rat]
    by (intro fl_of_repr64 repr64_of_int small_is_safe) simp_all
  from fits [of "numeral a"] fits [of "- numeral a"]
  show "(numeral a :: rat) \<le> 2 ^ 53 \<Longrightarrow> fl_of (numeral a) = Fin (numeral a)"
    "(numeral a :: rat) \<le> 2 ^ 53 \<Longrightarrow> fl_of (- numeral a) = Fin (- numeral a)"
    by simp_all
  from fits [of 0] fits [of 1] fits [of "- 1"]
  show "fl_of 0 = Fin 0" "fl_of 1 = Fin 1" "fl_of (- 1) = Fin (- 1)" by simp_all
qed

lemma fl_of_fraction:
  "pow2_num b \<Longrightarrow> (numeral b :: rat) \<le> 2 ^ 53 \<Longrightarrow> (numeral a :: rat) \<le> 2 ^ 53 \<Longrightarrow>
   fl_of (numeral a / numeral b) = Fin (numeral a / numeral b)"
  "pow2_num b \<Longrightarrow> (numeral b :: rat) \<le> 2 ^ 53 \<Longrightarrow> (numeral a :: rat) \<le> 2 ^ 53 \<Longrightarrow>
   fl_of (- numeral a / numeral b) = Fin (- numeral a / numeral b)"
  "pow2_num b \<Longrightarrow> (numeral b :: rat) \<le> 2 ^ 53 \<Longrightarrow> fl_of (1 / numeral b) = Fin (1 / numeral b)"
  "pow2_num b \<Longrightarrow> (numeral b :: rat) \<le> 2 ^ 53 \<Longrightarrow> fl_of (- 1 / numeral b) = Fin (- 1 / numeral b)"
proof -
  have fits: "fl_of (of_int n / numeral b) = Fin (of_int n / numeral b)"
    if "pow2_num b" "(numeral b :: rat) \<le> 2 ^ 53" "\<bar>n\<bar> \<le> 2 ^ 53" for n
  proof -
    have "\<bar>of_int n / numeral b :: rat\<bar> \<le> \<bar>of_int n\<bar>"
      by (simp add: divide_le_eq mult_le_cancel_left1)
    also have "\<dots> \<le> 2 ^ 53" using that(3) of_int_le_iff [of "\<bar>n\<bar>" "2 ^ 53", where 'a = rat] by simp
    finally show ?thesis using that by (intro fl_of_repr64 repr64_dyadic small_is_safe)
  qed
  from fits [of "numeral a"] fits [of "- numeral a"] fits [of 1] fits [of "- 1"]
  show "pow2_num b \<Longrightarrow> (numeral b :: rat) \<le> 2 ^ 53 \<Longrightarrow> (numeral a :: rat) \<le> 2 ^ 53 \<Longrightarrow>
     fl_of (numeral a / numeral b) = Fin (numeral a / numeral b)"
    "pow2_num b \<Longrightarrow> (numeral b :: rat) \<le> 2 ^ 53 \<Longrightarrow> (numeral a :: rat) \<le> 2 ^ 53 \<Longrightarrow>
     fl_of (- numeral a / numeral b) = Fin (- numeral a / numeral b)"
    "pow2_num b \<Longrightarrow> (numeral b :: rat) \<le> 2 ^ 53 \<Longrightarrow> fl_of (1 / numeral b) = Fin (1 / numeral b)"
    "pow2_num b \<Longrightarrow> (numeral b :: rat) \<le> 2 ^ 53 \<Longrightarrow> fl_of (- 1 / numeral b) = Fin (- 1 / numeral b)"
    by simp_all
qed

lemma rnd64_numeral: "(numeral a :: rat) \<le> 2 ^ 53 \<Longrightarrow> rnd64 (numeral a) = numeral a"
  using rnd64_of_int [of "numeral a"] of_int_le_iff [of "numeral a" "2 ^ 53", where 'a = rat] by simp

lemmas exact_floats = rnd64_numeral fl_of_numeral fl_of_fraction fl_sub_def Let_def fl_le_def fl_eq_def py_max_def py_min_def

section \<open>The sample role\<close>

definition small_pipeline :: pipeline_config where
  "small_pipeline = \<lparr>pc_ema_fast = 3, pc_ema_slow = 7, pc_rsi_period = 2, pc_macd_fast = 3, pc_macd_slow = 7,
     pc_macd_signal = 3, pc_atr_period = 2, pc_volatility_period = 2, pc_volume_short_period = 1,
     pc_volume_long_period = 2, pc_return_lookback = 1\<rparr>"

definition small_config :: technical_config where
  "small_config = \<lparr>tc_pipeline = small_pipeline, tc_timeframe_weights = [(M15, Fin 1)],
     tc_neutral_threshold = 1/4, tc_strong_trend_threshold = 1/2, tc_rsi_bullish = 55, tc_rsi_bearish = 45,
     tc_high_atr_percent = 1/16, tc_extreme_atr_percent = 1/8, tc_high_realized_volatility = 1/16,
     tc_extreme_realized_volatility = 1/8, tc_range_ema_atr_ratio = 1/4, tc_swing_lookback = 2\<rparr>"

definition rising_series :: "instant market_series" where
  "rising_series =
     \<lparr>se_provider = ''binance-public'', se_instrument = ''ETHUSDT'', se_timeframe = M15, se_as_of = seconds 9000,
      se_bars = [sample_bar 0 1, sample_bar (seconds 900) 2, sample_bar (seconds 1800) 4,
        sample_bar (seconds 2700) 8, sample_bar (seconds 3600) 16, sample_bar (seconds 4500) 32,
        sample_bar (seconds 5400) 64, sample_bar (seconds 6300) 128, sample_bar (seconds 7200) 256,
        sample_bar (seconds 8100) 512]\<rparr>"

definition eth_definition :: agent_definition where
  "eth_definition =
     \<lparr>ad_definition_version = ''1'', ad_agent_id = ''ETH_TECH'', ad_role_id = ''eth.technical.v1'',
      ad_enabled = True, ad_lifecycle = L_ACTIVE, ad_config_version = ''v1'', ad_runtime_contract_version = ''1'',
      ad_analysis_schema_version = ''1'', ad_supported_assets = [''ETHUSDT''], ad_capabilities = [''technical''],
      ad_required_data = [\<lparr>rd_instrument = ''ETHUSDT'', rd_timeframe = M15, rd_minimum_bars = 10,
        rd_max_data_age_seconds = 60, rd_required_fields = [''close'']\<rparr>],
      ad_parameters = PyMap [], ad_limits = [], ad_metadata = PyMap []\<rparr>"

definition plain_format :: "nat \<Rightarrow> fl \<Rightarrow> string" where "plain_format n x = ''0''"


lemmas rising_rows = rising_series_def sample_bar_def

lemma rising_closes: "closes rising_series = map Fin [1, 2, 4, 8, 16, 32, 64, 128, 256, 512]"
  by (simp add: closes_def rising_rows exact_floats)

lemma rising_stamp: "se_timeframe rising_series = M15" "se_as_of rising_series = seconds 9000"
  "br_close_time (last (se_bars rising_series)) = seconds 9000" "br_close (last (se_bars rising_series)) = 512"
  "n_bars rising_series = 10"
  by (simp_all add: rising_rows n_bars_def)

lemmas rising_defs = feature_valid_def finite_values_def finite_fl_def fl_val_def rising_stamp

lemmas rising_eval = rising_closes changes_def wilder_average_def wilder_def ema_values_def ema_multiplier_def
  py_sum_def sum_step_def sum_end_def exact_floats

definition rising_features :: "feature_result list" where
  "rising_features = [
    \<lparr>fr_feature_name = ''ema'', fr_feature_version = ''ema.v1'', fr_parameters = [(''period'', 3)],
      fr_values = [(''ema'', 174763 / 512)], fr_timeframe = M15, fr_as_of = seconds 9000, fr_valid = True, fr_reason_code = None\<rparr>,
    \<lparr>fr_feature_name = ''ema'', fr_feature_version = ''ema.v1'', fr_parameters = [(''period'', 7)],
      fr_values = [(''ema'', 53698901 / 262144)], fr_timeframe = M15, fr_as_of = seconds 9000, fr_valid = True, fr_reason_code = None\<rparr>,
    \<lparr>fr_feature_name = ''rsi'', fr_feature_version = ''rsi.wilder.v1'', fr_parameters = [(''period'', 2)],
      fr_values = [(''rsi'', 100)], fr_timeframe = M15, fr_as_of = seconds 9000, fr_valid = True, fr_reason_code = None\<rparr>,
    \<lparr>fr_feature_name = ''macd'', fr_feature_version = ''macd.v1'', fr_parameters = [(''fast'', 3), (''slow'', 7), (''signal'', 3)],
      fr_values = [(''macd'', 35779755 / 262144), (''signal'', 47688705 / 524288), (''histogram'', 23870805 / 524288)], fr_timeframe = M15, fr_as_of = seconds 9000, fr_valid = True, fr_reason_code = None\<rparr>,
    \<lparr>fr_feature_name = ''atr'', fr_feature_version = ''atr.wilder.v1'', fr_parameters = [(''period'', 2)],
      fr_values = [(''atr'', 87381 / 512), (''atr_percent'', 87381 / 262144)], fr_timeframe = M15, fr_as_of = seconds 9000, fr_valid = True, fr_reason_code = None\<rparr>,
    \<lparr>fr_feature_name = ''return'', fr_feature_version = ''return.simple.v1'', fr_parameters = [(''lookback'', 1)],
      fr_values = [(''return'', 1)], fr_timeframe = M15, fr_as_of = seconds 9000, fr_valid = True, fr_reason_code = None\<rparr>,
    \<lparr>fr_feature_name = ''realized_volatility'', fr_feature_version = ''realized-volatility.v1'', fr_parameters = [(''period'', 2)],
      fr_values = [(''volatility'', 0)], fr_timeframe = M15, fr_as_of = seconds 9000, fr_valid = True, fr_reason_code = None\<rparr>,
    \<lparr>fr_feature_name = ''volume_trend'', fr_feature_version = ''volume-trend.v1'', fr_parameters = [(''short_period'', 1), (''long_period'', 2)],
      fr_values = [(''ratio'', 1)], fr_timeframe = M15, fr_as_of = seconds 9000, fr_valid = True, fr_reason_code = None\<rparr>]"

lemma rising_ranges: "true_ranges None (se_bars rising_series) = map Fin [0, 1, 2, 4, 8, 16, 32, 64, 128, 256]"
  by (simp add: rising_rows exact_floats)

lemma rising_volumes: "map (\<lambda>b. fl_of (br_volume b)) (se_bars rising_series) =
    [Fin 1, Fin 1, Fin 1, Fin 1, Fin 1, Fin 1, Fin 1, Fin 1, Fin 1, Fin 1]"
  by (simp add: rising_rows exact_floats)

lemma rising_bar: "br_close (se_bars rising_series ! 8) = 256"
  by (simp add: rising_rows)

lemma sqrt_0: "float_sqrt_of_frac 0 1 = 0"
  by (simp add: float_sqrt_of_frac_def isqrt_frac_rto_def isqrt.simps [of 0] Let_def)

lemma rising_feature_0: "ema_feature 3 rising_series = Inr (rising_features ! 0)"
  by (simp add: ema_feature_def rising_eval rising_defs rising_features_def)

lemma rising_feature_1: "ema_feature 7 rising_series = Inr (rising_features ! 1)"
  by (simp add: ema_feature_def rising_eval rising_defs rising_features_def)

lemma rising_feature_2: "rsi_feature 2 rising_series = Inr (rising_features ! 2)"
  by (simp add: rsi_feature_def rsi_value_def clamp_def rising_eval rising_defs rising_features_def)

definition rising_macd :: "fl list" where
  "rising_macd = map Fin [0, 1 / 4, 13 / 16, 123 / 64, 1049 / 256, 8603 / 1024, 69489 / 4096, 557971 / 16384,
     4470073 / 65536, 35779755 / 262144]"

lemma rising_macd:
  "map2 fl_sub (ema_values (closes rising_series) 3) (ema_values (closes rising_series) 7) = rising_macd"
  by (simp add: rising_eval rising_macd_def)

lemma rising_signal:
  "last rising_macd = Fin (35779755 / 262144)" "last (ema_values rising_macd 3) = Fin (47688705 / 524288)"
  by (simp_all add: rising_eval rising_macd_def)

lemma rising_feature_3: "macd_feature 3 7 3 rising_series = Inr (rising_features ! 3)"
  by (simp add: macd_feature_def rising_macd rising_signal exact_floats rising_defs rising_features_def)

lemma rising_feature_4: "atr_feature 2 rising_series = Inr (rising_features ! 4)"
  by (simp add: atr_feature_def divide_then_def rising_ranges rising_eval rising_defs rising_features_def)

lemma rising_feature_5: "return_feature 1 rising_series = Inr (rising_features ! 5)"
  by (simp add: return_feature_def divide_then_def rising_bar rising_eval rising_defs rising_features_def)

lemma rising_feature_6: "volatility_feature (\<lambda>x. x - 1) 2 rising_series = Inr (rising_features ! 6)"
  by (simp add: volatility_feature_def log_returns.simps divide_then_def math_log_def pstdev_def sqrt_0 rising_eval rising_defs rising_features_def)

lemma rising_feature_7: "volume_trend_feature 1 2 rising_series = Inr (rising_features ! 7)"
  by (simp add: volume_trend_feature_def divide_then_def mean_of_last_def rising_volumes rising_eval rising_defs rising_features_def)

lemma rising_pipeline: "compute_pipeline (\<lambda>x. x - 1) small_pipeline rising_series = Inr rising_features"
  using rising_feature_0 rising_feature_1 rising_feature_2 rising_feature_3 rising_feature_4 rising_feature_5
    rising_feature_6 rising_feature_7
  by (simp add: compute_pipeline_def pipeline_features_def small_pipeline_def rising_features_def)

definition rising_readings :: readings where
  "rising_readings =
     \<lparr>rg_fast = 174763 / 512, rg_slow = 53698901 / 262144, rg_rsi = 100, rg_histogram = 23870805 / 524288,
      rg_atr = 87381 / 512, rg_atr_percent = 87381 / 262144, rg_volatility = 0, rg_return = 1,
      rg_volume_ratio = 1\<rparr>"

definition rising_state :: timeframe_analysis where
  "rising_state =
     \<lparr>ta_timeframe = M15, ta_trend = STRONG_UP, ta_momentum = BULLISH, ta_volatility = VOL_EXTREME,
      ta_volume_state = VOLUME_NORMAL, ta_score = 1\<rparr>"

lemma rising_read: "read_features small_pipeline rising_features = Inr rising_readings"
  by (simp add: read_features_def sum_bind_def ema_result_def named_value_def feature_named_def value_of_def
      rising_features_def small_pipeline_def rising_readings_def)

lemma rising_scores: "raw_score 1 1 1 1 = 1"
  by code_simp

lemma rising_swing: "swing_of (prior_bars small_config rising_series) (Fin 512) = 1"
  by (simp add: swing_of_def prior_bars_def small_config_def rising_rows max_list_def exact_floats numeral_eq_Suc)

lemma rising_volume: "volume_of 1 = VOLUME_NORMAL"
  by code_simp

lemma rising_state: "timeframe_state small_config rising_series rising_readings = rising_state"
proof -
  have "trend_of (Fin 512) (rg_fast rising_readings) (rg_slow rising_readings) = (STRONG_UP, 1)"
    "momentum_of small_config (rg_rsi rising_readings) (rg_histogram rising_readings) = (BULLISH, 1)"
    "volatility_of small_config (rg_atr_percent rising_readings) (rg_volatility rising_readings) = VOL_EXTREME"
    "return_score (rg_return rising_readings) = 1" "rg_volume_ratio rising_readings = 1"
    by (simp_all add: trend_of_def momentum_of_def volatility_of_def return_score_def rising_readings_def small_config_def)
  then show ?thesis
    by (simp add: timeframe_state_def rising_stamp rising_swing exact_floats rising_scores rising_volume rising_state_def)
qed

lemma rising_evidence:
  "\<not> isl (timeframe_evidence plain_format ''technical_feature'' small_config rising_series rising_features
     rising_readings rising_state)"
  by (simp add: timeframe_evidence_def evidence_of_def sum_bind_def Let_def ema_result_def feature_named_def rising_features_def
      valid_analytical_evidence_def len_between_def plain_format_def timeframe_value_def trend_text_def
      momentum_text_def volatility_text_def rising_state_def small_config_def small_pipeline_def rising_series_def)

lemma rising_analysis:
  "\<exists>es. analyze_timeframe (\<lambda>x. x - 1) plain_format ''technical_feature'' small_config rising_series
     = Inr (rising_state, es)"
proof -
  obtain es where es: "timeframe_evidence plain_format ''technical_feature'' small_config rising_series
      rising_features rising_readings rising_state = Inr es"
    using rising_evidence by (cases "timeframe_evidence plain_format ''technical_feature'' small_config rising_series
      rising_features rising_readings rising_state") auto
  have "tc_pipeline small_config = small_pipeline" by (simp add: small_config_def)
  moreover have "\<not> list_ex (\<lambda>f. \<not> fr_valid f) rising_features" by (simp add: rising_features_def)
  moreover have "valid_timeframe_analysis rising_state" by (simp add: valid_timeframe_analysis_def rising_state_def)
  ultimately show ?thesis
    by (simp add: analyze_timeframe_def sum_bind_def rising_pipeline rising_read rising_state es Let_def)
qed

section \<open>A run of the engine\<close>

definition eth_role :: role where
  "eth_role = \<lparr>cr_definition = eth_definition, cr_role_id = ''eth.technical.v1'', cr_role_version = ''1.0.0'',
     cr_evidence_type = ''technical_feature'', cr_config = small_config\<rparr>"

definition eth_task :: analysis_task_request where
  "eth_task =
     \<lparr>tr_protocol_version = ''1.0'', tr_task_id = 800, tr_orchestration_run_id = 700, tr_snapshot_id = 900,
      tr_agent_id = ''ETH_TECH'', tr_asset = ''ETHUSDT'', tr_required_capability = ''technical'', tr_priority = 50,
      tr_created_at = seconds 9000, tr_deadline = seconds 9060, tr_correlation_id = 701,
      tr_causation_id = None, tr_context = PyMap []\<rparr>"

definition eth_bundle :: "instant market_bundle" where
  "eth_bundle = \<lparr>mb_snapshot_id = 900, mb_as_of = seconds 9000, mb_series = [rising_series],
     mb_providers = [\<lparr>pm_provider = ''binance-public'', pm_received_at = seconds 9001,
       pm_source_timestamp = seconds 9000, pm_freshness_seconds = 0, pm_provenance = ''binance:/api/v3/klines''\<rparr>]\<rparr>"

definition eth_input :: role_input where
  "eth_input = \<lparr>ri_context = \<lparr>ax_task = eth_task, ax_snapshot_id = 900, ax_as_of = seconds 9000\<rparr>,
     ri_market_data = eth_bundle\<rparr>"

lemma eth_input_valid: "valid_role_input eth_input" "input_series eth_input = [rising_series]"
  "role_asset eth_input = ''ETHUSDT''"
  by (simp_all add: valid_role_input_def eth_input_def eth_bundle_def input_series_def role_asset_def eth_task_def)

lemma eth_weighted: "weighted_score small_config [rising_state] = Inr (Fin 1)"
  by (simp add: weighted_score_def rising_state_def small_config_def timeframe_weight_def py_sum_def sum_end_def exact_floats)

lemma eth_confidence: "round6 (raw_confidence small_config [rising_state] (Fin 1)) = Fin 1"
  by code_simp

lemma eth_bias: "score_bias small_config [rising_state] (Fin 1) = LONG"
  "reason_codes small_config [rising_state] (Fin 1) = [''HIGH_VOLATILITY'']"
  by (simp_all add: score_bias_def reason_codes_def no_edge_def conflicting_def positives_def negatives_def
      small_config_def rising_state_def)

lemma eth_ranges: "\<exists>ranges. data_ranges [rising_series] = Some ranges \<and> length ranges = 1"
  by (simp add: data_ranges_def Let_def valid_data_range_def len_between_def rising_rows)

lemma eth_analysis:
  "\<exists>r. engine_analyze (\<lambda>x. x - 1) plain_format eth_role eth_input = (False, Inr r) \<and> an_bias r = LONG
     \<and> an_confidence r = 1 \<and> an_timeframe_states r = [rising_state]"
proof -
  obtain es where es: "analyze_timeframe (\<lambda>x. x - 1) plain_format ''technical_feature'' small_config rising_series
      = Inr (rising_state, es)"
    using rising_analysis by blast
  obtain ranges where ranges: "data_ranges [rising_series] = Some ranges" "length ranges = 1" using eth_ranges by blast
  have role: "cr_config eth_role = small_config" "cr_evidence_type eth_role = ''technical_feature''"
    "ad_analysis_schema_version (cr_definition eth_role) = ''1''" "max_evidence (cr_definition eth_role) = 16"
    by (simp_all add: eth_role_def eth_definition_def max_evidence_def)
  have "\<exists>r. score_series (\<lambda>x. x - 1) plain_format eth_role eth_input = Inr r \<and> an_bias r = LONG
     \<and> an_confidence r = 1 \<and> an_timeframe_states r = [rising_state]"
    by (simp add: score_series_def eth_input_valid role Let_def es sum_bind_def eth_weighted ranges eth_bias
        eth_confidence validate_analysis_result_def finite_float_def min_le_iff_disj)
  moreover have "series_keys [rising_series] = [(''ETHUSDT'', M15)]" "required_keys (cr_definition eth_role) = [(''ETHUSDT'', M15)]"
    "se_instrument rising_series = ''ETHUSDT''"
    by (simp_all add: series_keys_def rising_series_def required_keys_def eth_role_def eth_definition_def)
  ultimately show ?thesis by (auto simp: engine_analyze_def Let_def eth_input_valid)
qed

lemma eth_definition_valid: "valid_definition eth_definition"
proof -
  have "validate_definition eth_definition = Some eth_definition" by code_simp
  then show ?thesis unfolding valid_definition_def by blast
qed

end
