(* ===== verification/Engine.thy ===== *)
theory Engine
  imports Role_Samples
begin

text \<open>
  The properties of the technical engine (\<open>src/tomiris_agent_roles/technical.py\<close>): what a result
  may say, which direction it may take, and what a weight that is not a number does to it.
\<close>

section \<open>Confidence\<close>

lemma round6_mono:
  assumes "p \<le> q" and "0 \<le> p" and "q \<le> 1"
  shows "\<exists>r s. round6 (Fin p) = Fin r \<and> round6 (Fin q) = Fin s \<and> 0 \<le> r \<and> r \<le> s \<and> s \<le> 1"
proof -
  let ?f = "\<lambda>x. of_int (round_half_even (x * 1000000)) / 1000000 :: rat"
  have le: "?f x \<le> ?f y" if "x \<le> y" for x y :: rat
    using rhe_mono [of "x * 1000000" "y * 1000000"] that by (simp add: divide_right_mono)
  have "?f 0 = 0" using rhe_of_int [of 0] by simp
  moreover have "?f 1 = 1" using rhe_of_int [of 1000000] by simp
  ultimately have b: "0 \<le> ?f p" "?f p \<le> ?f q" "?f q \<le> 1" using le [of 0 p] le [OF assms(1)] le [of q 1] assms by simp_all
  have safe: "(1 :: rat) \<le> max_safe" using powi_mono [of 0 1023] by (simp add: max_safe_def)
  then have "\<bar>?f p\<bar> \<le> max_safe" "\<bar>?f q\<bar> \<le> max_safe" using b by simp_all
  then have "round6 (Fin p) = Fin (rnd64 (?f p))" "round6 (Fin q) = Fin (rnd64 (?f q))"
    by (simp_all add: round6_def fl_of_finite)
  moreover have "rnd64 (?f p) \<le> rnd64 (?f q)" using b(2) by (rule rnd64_mono)
  moreover have "0 \<le> rnd64 (?f p)" using b(1) by (rule rnd64_nonneg)
  moreover have "rnd64 (?f q) \<le> 1" using b(3) repr64_of_int [of 1] by (intro rnd64_le) simp_all
  ultimately show ?thesis by blast
qed

lemma py_min_capped:
  assumes "py_min (Fin a) x = Fin q"
  shows "q \<le> a"
  using assms by (cases x) (auto simp: py_min_def split: if_splits)

text \<open>Without an edge the confidence is at most that of \<open>0.60\<close>.\<close>

lemma no_edge_confidence:
  assumes "no_edge c states ws" and "Fin r = round6 (raw_confidence c states ws)" and "0 \<le> r"
  shows "r \<le> rnd64 (60/100)"
proof (cases "raw_confidence c states ws")
  case (Fin q)
  have six: "round6 (Fin (rnd64 (60/100))) = Fin (rnd64 (60/100))" by code_simp
  have "rnd64 (60/100) \<le> 1" using repr64_of_int [of 1] by (intro rnd64_le) simp_all
  have le: "q \<le> rnd64 (60/100)"
    using assms(1) Fin by (intro py_min_capped) (simp add: raw_confidence_def)
  show ?thesis
  proof (cases "0 \<le> q")
    case True
    with round6_mono [OF le] six \<open>rnd64 (60/100) \<le> 1\<close> assms(2) Fin show ?thesis by auto
  next
    case False
    have "r \<le> 0"
    proof -
      have "round_half_even (q * 1000000) \<le> 0" using rhe_le_int [of "q * 1000000" 0] False by simp
      then have "of_int (round_half_even (q * 1000000)) / 1000000 \<le> (0 :: rat)" by (simp add: divide_le_0_iff)
      moreover from this have "rnd64 (of_int (round_half_even (q * 1000000)) / 1000000) \<le> 0"
        using repr64_of_int [of 0] by (intro rnd64_le) simp_all
      ultimately show ?thesis using assms(2) Fin by (auto simp: round6_def fl_of_def Let_def split: if_splits)
    qed
    moreover have "0 \<le> rnd64 (60/100)" by (rule rnd64_nonneg) simp
    ultimately show ?thesis by linarith
  qed
qed (use assms(2) in \<open>simp_all add: round6_def\<close>)

text \<open>At full strength it is at least that of \<open>0.65\<close>.\<close>

lemma strong_confidence:
  assumes "0 \<le> a" and "a \<le> 1"
  shows "\<exists>q. py_min (Fin 1) (fl_add (fl_mul (Fin 1) (Fin (rnd64 (65/100)))) (fl_mul (Fin a) (Fin (rnd64 (35/100)))))
      = Fin q \<and> rnd64 (65/100) \<le> q"
proof -
  let ?w = "rnd64 (65/100)" and ?v = "rnd64 (35/100)"
  have one: "repr64 1" using repr64_of_int [of 1] by simp
  then have w: "0 \<le> ?w" "?w \<le> 1" and v: "0 \<le> ?v" "?v \<le> 1" by (auto intro!: rnd64_nonneg rnd64_le)
  have safe: "(2 :: rat) \<le> max_safe" using powi_mono [of 1 1023] by (simp add: max_safe_def)
  have av: "0 \<le> a * ?v" "a * ?v \<le> 1" using assms v by (simp_all add: mult_le_one)
  then have b: "0 \<le> rnd64 (a * ?v)" "rnd64 (a * ?v) \<le> 1" using one by (auto intro!: rnd64_nonneg rnd64_le)
  have "fl_mul (Fin 1) (Fin ?w) = Fin ?w" using w safe by (simp add: fl_of_finite rnd64_exact [OF rnd64_repr])
  moreover have "fl_mul (Fin a) (Fin ?v) = Fin (rnd64 (a * ?v))" using av safe by (simp add: fl_of_finite)
  moreover have "fl_add (Fin ?w) (Fin (rnd64 (a * ?v))) = Fin (rnd64 (?w + rnd64 (a * ?v)))"
    using w b safe by (simp add: fl_of_finite)
  moreover have "?w \<le> rnd64 (?w + rnd64 (a * ?v))" using b by (intro rnd64_ge rnd64_repr) simp
  ultimately show ?thesis using w by (auto simp: py_min_def)
qed

lemma scored_timeframes:
  "list_all2 (\<lambda>s t. \<exists>es. analyze_timeframe ln64 fmt ty c s = Inr (t, es)) ss ts \<Longrightarrow>
   map ta_timeframe ts = map se_timeframe ss"
  by (induction rule: list_all2_induct) (auto dest: analyze_timeframe_Inr(1))

lemma scored_NEUTRAL:
  assumes "scored_result ln64 fmt role i ws r"
  shows "an_bias r = NEUTRAL \<longleftrightarrow> no_edge (cr_config role) (an_timeframe_states r) ws"
    and "an_bias r = NEUTRAL \<longleftrightarrow> ''NO_CLEAR_EDGE'' \<in> set (an_reason_codes r)"
    and "an_bias r \<noteq> ABSTAIN"
  using assms by (auto simp: scored_result_def Let_def score_bias_def reason_codes_def)

section \<open>Properties\<close>

text \<open>C11 What a result of the engine may say, for every role, input, logarithm and formatting of
  floats: either it is an abstention with confidence zero, exactly one of the two reason codes and
  neither scores nor evidence; or it is a scored answer of VALID quality for exactly the
  instruments and timeframes that the definition requires, all of the asset of the task, one
  state per series and in their order, with a confidence between 0 and 1 and at most the
  permitted evidence, that is NEUTRAL (and then of confidence at most 0.60) exactly when it
  says NO_CLEAR_EDGE.\<close>

theorem engine_result:
  assumes "engine_analyze ln64 fmt role i = (failed, Inr r)"
  shows "an_snapshot_id r = ax_snapshot_id (ri_context i) \<and> an_asset r = role_asset i
    \<and> an_analysis_as_of r = ax_as_of (ri_context i)
    \<and> (if an_bias r = ABSTAIN
       then an_confidence r = 0 \<and> an_timeframe_states r = [] \<and> an_evidence r = []
          \<and> (an_reason_codes r, an_data_quality r)
             \<in> {([''INSUFFICIENT_HISTORY''], Q_INSUFFICIENT), ([''FEATURE_FAILURE''], Q_INVALID)}
       else \<not> failed \<and> an_data_quality r = Q_VALID
          \<and> 0 \<le> an_confidence r \<and> an_confidence r \<le> 1
          \<and> (an_bias r = NEUTRAL \<longleftrightarrow> ''NO_CLEAR_EDGE'' \<in> set (an_reason_codes r))
          \<and> (an_bias r = NEUTRAL \<longrightarrow> an_confidence r \<le> rnd64 (60/100))
          \<and> map ta_timeframe (an_timeframe_states r) = map se_timeframe (input_series i)
          \<and> set (series_keys (input_series i)) = set (required_keys (cr_definition role))
          \<and> (\<forall>s\<in>set (input_series i). se_instrument s = role_asset i)
          \<and> length (an_evidence r) \<le> nat (max_evidence (cr_definition role))
          \<and> an_data_as_of r = Max (set (close_times (input_series i))))"
  using assms
proof (cases rule: engine_analyze_cases)
  case (abstained reason q)
  then show ?thesis using abstain_result_Inr [OF abstained(1)] by auto
next
  case (scored ws)
  note s = scored(1) [unfolded scored_result_def Let_def]
  have "map ta_timeframe (an_timeframe_states r) = map se_timeframe (input_series i)"
    using s by (elim conjE) (rule scored_timeframes)
  moreover have "an_bias r = NEUTRAL \<longrightarrow> an_confidence r \<le> rnd64 (60/100)"
    using no_edge_confidence [of "cr_config role" "an_timeframe_states r" ws "an_confidence r"] scored_NEUTRAL(1) [OF scored(1)] s
    by blast
  ultimately show ?thesis using s scored(2) scored_NEUTRAL [OF scored(1)] by simp
qed

text \<open>C12 A direction is backed by the market: with weights that are ordinary positive floats and a
  positive neutral threshold, the engine says LONG only if some timeframe scores above zero and
  SHORT only if some timeframe scores below zero, and never takes a direction while one timeframe
  is clearly positive and another clearly negative.\<close>

theorem direction_backed:
  assumes "engine_analyze ln64 fmt role i = (failed, Inr r)"
    and "ordinary_weights (cr_config role)" and "0 < tc_neutral_threshold (cr_config role)"
  shows "(an_bias r = LONG \<longrightarrow> (\<exists>t\<in>set (an_timeframe_states r). 0 < ta_score t))
    \<and> (an_bias r = SHORT \<longrightarrow> (\<exists>t\<in>set (an_timeframe_states r). ta_score t < 0))
    \<and> (an_bias r = LONG \<or> an_bias r = SHORT \<longrightarrow>
        \<not> ((\<exists>t\<in>set (an_timeframe_states r). tc_neutral_threshold (cr_config role) < ta_score t)
         \<and> (\<exists>t\<in>set (an_timeframe_states r). ta_score t < - tc_neutral_threshold (cr_config role))))"
  using assms(1)
proof (cases rule: engine_analyze_cases)
  case (abstained reason q)
  then show ?thesis using abstain_result_Inr(1) [OF abstained(1)] by simp
next
  case (scored ws)
  let ?states = "an_timeframe_states r" and ?c = "cr_config role"
  note s = scored(1) [unfolded scored_result_def Let_def]
  have valid: "\<forall>t\<in>set ?states. - 1 \<le> ta_score t \<and> ta_score t \<le> 1"
  proof
    fix t assume "t \<in> set ?states"
    moreover from s have "list_all2 (\<lambda>s t. \<exists>es. analyze_timeframe ln64 fmt (cr_evidence_type role) ?c s = Inr (t, es))
        (input_series i) ?states" by (elim conjE)
    ultimately obtain s es where "analyze_timeframe ln64 fmt (cr_evidence_type role) ?c s = Inr (t, es)"
      by (auto simp: list_all2_conv_all_nth in_set_conv_nth)
    then show "- 1 \<le> ta_score t \<and> ta_score t \<le> 1"
      using analyze_timeframe_Inr(2) by (simp add: valid_timeframe_analysis_def)
  qed
  have bias: "an_bias r = score_bias ?c ?states ws" and ws: "weighted_score ?c ?states = Inr ws"
    and n: "length ?states \<le> 20" using s by simp_all
  note sign = weighted_score_sign [OF assms(2) n valid ws]
  have "fl_less ws (Fin 0)" if "an_bias r = SHORT"
    using that sign(3) assms(3) unfolding bias
    by (cases ws) (auto simp: score_bias_def no_edge_def not_less split: if_splits)
  moreover have "fl_less (Fin 0) ws" if "an_bias r = LONG"
    using that unfolding bias by (auto simp: score_bias_def split: if_splits)
  moreover have "\<not> conflicting ?c ?states" if "an_bias r = LONG \<or> an_bias r = SHORT"
    using that unfolding bias by (auto simp: score_bias_def no_edge_def split: if_splits)
  ultimately show ?thesis using sign(1,2)
    by (auto simp: conflicting_def positives_def negatives_def filter_empty_conv)
qed

text \<open>A weight that is not a number turns agreement into SHORT: the configuration only rejects
  weights that compare at most zero, which NaN does not, and as soon as the timeframe of one state has
  a NaN weight, the engine reports SHORT, at full strength, for any scores that do not conflict,
  even when every timeframe is bullish.\<close>

theorem nan_weight_goes_short:
  assumes "timeframe_weight c (ta_timeframe t) = NaN" and "t \<in> set states"
    and "\<not> conflicting c states"
  shows "weighted_score c states = Inr NaN \<and> score_bias c states NaN = SHORT
    \<and> (\<exists>q. raw_confidence c states NaN = Fin q \<and> rnd64 (65/100) \<le> q)"
proof -
  have weights: "py_sum (map (\<lambda>t. timeframe_weight c (ta_timeframe t)) states) = NaN"
    using assms(1,2) by (intro py_sum_NaN) force
  have "weighted_score c states = Inr NaN"
    using py_sum_NaN [of "weighted_products c states"] assms(1,2)
    by (auto simp: weighted_score_products weights weighted_products_def image_iff)
  moreover have edge: "\<not> no_edge c states NaN" using assms(3) by (simp add: no_edge_def)
  moreover have "\<exists>q. raw_confidence c states NaN = Fin q \<and> rnd64 (65/100) \<le> q"
  proof -
    have "relative_score NaN (tc_strong_trend_threshold c) = NaN" by (simp add: relative_score_def)
    then have eq: "raw_confidence c states NaN = py_min (Fin 1) (fl_add (fl_mul (Fin 1) (Fin (rnd64 (65/100))))
        (fl_mul (Fin (fdiv (of_nat (negatives c states)) (of_nat (length states)))) (Fin (rnd64 (35/100)))))"
      using edge by (simp add: raw_confidence_def py_min_def Let_def)
    have "negatives c states \<le> length states" by (simp add: negatives_def)
    then have "of_nat (negatives c states) / of_nat (length states) \<le> (1 :: rat)"
      using assms(2) by (cases states) (auto simp: divide_le_eq_1)
    then have "0 \<le> fdiv (of_nat (negatives c states)) (of_nat (length states))"
      "fdiv (of_nat (negatives c states)) (of_nat (length states)) \<le> 1"
      using repr64_of_int [of 1] unfolding fdiv_def by (auto intro!: rnd64_nonneg rnd64_le)
    then show ?thesis unfolding eq by (rule strong_confidence)
  qed
  ultimately show ?thesis by (simp add: score_bias_def)
qed

section \<open>Witnesses\<close>

lemma small_config_ordinary: "ordinary_weights small_config"
  using repr64_of_int [of 1] max_weight_safe by (simp add: ordinary_weights_def small_config_def)

theorem engine_result_witness:
  "\<exists>r. engine_analyze (\<lambda>x. x - 1) plain_format eth_role eth_input = (False, Inr r)
     \<and> an_bias r = LONG \<and> an_data_quality r = Q_VALID \<and> map ta_timeframe (an_timeframe_states r) = [M15]"
proof -
  obtain r where r: "engine_analyze (\<lambda>x. x - 1) plain_format eth_role eth_input = (False, Inr r)"
    "an_bias r = LONG" using eth_analysis by blast
  with engine_result [OF r(1)] show ?thesis by (auto simp: eth_input_valid rising_series_def)
qed

theorem direction_backed_witness:
  "\<exists>r. engine_analyze (\<lambda>x. x - 1) plain_format eth_role eth_input = (False, Inr r)
     \<and> an_bias r = LONG \<and> (\<exists>t\<in>set (an_timeframe_states r). 0 < ta_score t)"
proof -
  obtain r where r: "engine_analyze (\<lambda>x. x - 1) plain_format eth_role eth_input = (False, Inr r)"
    "an_bias r = LONG" using eth_analysis by blast
  have "ordinary_weights (cr_config eth_role)" "0 < tc_neutral_threshold (cr_config eth_role)"
    using small_config_ordinary by (simp_all add: eth_role_def small_config_def)
  from direction_backed [OF r(1) this] r show ?thesis by blast
qed

text \<open>The weight is accepted by the configuration and every timeframe is bullish.\<close>

theorem nan_weight_goes_short_witness:
  "valid_weights [(M15, NaN)]
   \<and> weighted_score (small_config\<lparr>tc_timeframe_weights := [(M15, NaN)]\<rparr>) [rising_state] = Inr NaN
   \<and> score_bias (small_config\<lparr>tc_timeframe_weights := [(M15, NaN)]\<rparr>) [rising_state] NaN = SHORT
   \<and> ta_score rising_state = 1"
proof -
  let ?c = "small_config\<lparr>tc_timeframe_weights := [(M15, NaN)]\<rparr>"
  have w: "timeframe_weight ?c (ta_timeframe rising_state) = NaN"
    by (simp add: timeframe_weight_def rising_state_def)
  have "rising_state \<in> set [rising_state]" "\<not> conflicting ?c [rising_state]" "tc_strong_trend_threshold ?c \<noteq> 0"
    by (simp_all add: conflicting_def negatives_def rising_state_def small_config_def)
  from nan_weight_goes_short [OF w this(1,2)] this(3) show ?thesis
    by (simp add: valid_weights_def fl_le_def fl_eq_def rising_state_def)
qed

end
