(* ===== verification/Exchange_Client.thy ===== *)
theory Exchange_Client
  imports Market_Data Urls
begin

text \<open>
  The transport of \<open>src/tomiris_market_data/binance.py\<close>: the settings with their validators and
  \<open>_request_json\<close>, a bounded sequence of HTTP attempts.

  What the HTTP library does in an attempt, the parser of JSON bytes and the random numbers are
  arguments.  Connection settings that only the HTTP library reads, the semaphore and the
  latency metric have no effect on the outcome and are left out.
\<close>

section \<open>Settings\<close>

record 'f provider_settings =
  ps_base_url :: string
  ps_connect_timeout_seconds :: 'f
  ps_read_timeout_seconds :: 'f
  ps_max_attempts :: int
  ps_retry_base_seconds :: 'f
  ps_retry_max_seconds :: 'f
  ps_max_response_bytes :: int
  ps_max_concurrency :: int
  ps_cache_ttl_seconds :: int
  ps_allow_insecure_localhost :: bool
  ps_allowed_host_suffixes :: "string list"

definition provider_host_allowed :: "string list \<Rightarrow> string \<Rightarrow> bool" where
  "provider_host_allowed suffixes host \<longleftrightarrow>
     list_ex (\<lambda>suffix. host = lower (lstrip_dots suffix) \<or> ends_with (CHR ''.'' # lower (lstrip_dots suffix)) host) suffixes"

definition validate_base_url :: "'f provider_settings \<Rightarrow> bool" where
  "validate_base_url s =
     (case urlsplit (ps_base_url s) of
        None \<Rightarrow> False
      | Some u \<Rightarrow>
          (case (url_port u, url_hostname u) of
             (Inr _, Some name) \<Rightarrow>
               let secure = (up_scheme u = ''https''); local = name \<in> {''localhost'', ''127.0.0.1'', ''::1''}
               in \<not> url_credentials u
                  \<and> up_path u \<in> {[], ''/''} \<and> up_query u = [] \<and> up_fragment u = []
                  \<and> (secure \<or> (ps_allow_insecure_localhost s \<and> local))
                  \<and> (local \<or> provider_host_allowed (ps_allowed_host_suffixes s) (rstrip_dots (lower name)))
           | _ \<Rightarrow> False))"

text \<open>A float field with \<open>gt=0\<close> and \<open>le=hi\<close>\<close>

definition positive_field :: "rat \<Rightarrow> fl \<Rightarrow> rat option" where
  "positive_field hi x = (case x of Fin q \<Rightarrow> if 0 < q \<and> q \<le> hi then Some q else None | _ \<Rightarrow> None)"

definition validate_provider_settings :: "fl provider_settings \<Rightarrow> rat provider_settings option" where
  "validate_provider_settings s =
     (case (positive_field 30 (ps_connect_timeout_seconds s), positive_field 60 (ps_read_timeout_seconds s),
            positive_field 10 (ps_retry_base_seconds s), positive_field 30 (ps_retry_max_seconds s)) of
        (Some connect, Some read, Some base, Some longest) \<Rightarrow>
          if 1 \<le> ps_max_attempts s \<and> ps_max_attempts s \<le> 5
             \<and> 1024 \<le> ps_max_response_bytes s \<and> ps_max_response_bytes s \<le> 10000000
             \<and> 1 \<le> ps_max_concurrency s \<and> ps_max_concurrency s \<le> 20
             \<and> 1 \<le> ps_cache_ttl_seconds s \<and> ps_cache_ttl_seconds s \<le> 300
             \<and> validate_base_url s
          then Some \<lparr>ps_base_url = ps_base_url s, ps_connect_timeout_seconds = connect,
                 ps_read_timeout_seconds = read, ps_max_attempts = ps_max_attempts s,
                 ps_retry_base_seconds = base, ps_retry_max_seconds = longest,
                 ps_max_response_bytes = ps_max_response_bytes s, ps_max_concurrency = ps_max_concurrency s,
                 ps_cache_ttl_seconds = ps_cache_ttl_seconds s,
                 ps_allow_insecure_localhost = ps_allow_insecure_localhost s,
                 ps_allowed_host_suffixes = ps_allowed_host_suffixes s\<rparr>
          else None
      | _ \<Rightarrow> None)"

section \<open>One attempt\<close>

text \<open>
  A JSON value as Python reads it (\<open>NaN\<close> and \<open>Infinity\<close> are floats).  Reading may raise
  \<open>JSONDecodeError\<close>, or another exception: bytes that are no Unicode text, too deep nesting, an
  integer of too many digits.
\<close>

datatype json_value =
    JNull
  | JBool bool
  | JInt int
  | JFloat fl
  | JStr string
  | JList "json_value list"
  | JObject "(string \<times> json_value) list"

datatype loaded = Loaded json_value | JsonDecodeError | LoadsRaised

text \<open>
  Exceptions of the HTTP library: timeouts, other transport errors, others.  A reply is its
  status, its \<open>Retry-After\<close> header, the chunks of its body and, when reading it fails, how.
\<close>

datatype http_failure = HttpTimeout | HttpTransport | HttpRaised

datatype http_reply = HttpFailed http_failure | HttpReply int "string option" "string list" "http_failure option"

datatype retry_cause = RetryTimeout | RetryTransport | RetryStatus int "string option"

datatype attempt = Got json_value | Fatal market_error | Retry retry_cause

definition of_failure :: "http_failure \<Rightarrow> attempt" where
  "of_failure f = (case f of HttpTimeout \<Rightarrow> Retry RetryTimeout | HttpTransport \<Rightarrow> Retry RetryTransport
     | HttpRaised \<Rightarrow> Fatal OtherError)"

fun read_content :: "int \<Rightarrow> string \<Rightarrow> string list \<Rightarrow> http_failure option \<Rightarrow> attempt + string" where
  "read_content max_bytes content [] ending =
     (case ending of None \<Rightarrow> Inr content | Some f \<Rightarrow> Inl (of_failure f))"
| "read_content max_bytes content (chunk # chunks) ending =
     (if max_bytes < int (length (content @ chunk))
      then Inl (Fatal (MarketDataError ''PROVIDER_RESPONSE_TOO_LARGE''))
      else read_content max_bytes (content @ chunk) chunks ending)"

definition attempt_of :: "int \<Rightarrow> (string \<Rightarrow> loaded) \<Rightarrow> http_reply \<Rightarrow> attempt" where
  "attempt_of max_bytes loads reply =
     (case reply of
        HttpFailed f \<Rightarrow> of_failure f
      | HttpReply status retry_after chunks ending \<Rightarrow>
          if 400 \<le> status \<and> status \<le> 499 \<and> status \<noteq> 429
          then Fatal (MarketDataError ''PROVIDER_NON_RETRYABLE'')
          else if status = 429 \<or> (500 \<le> status \<and> status \<le> 599) then Retry (RetryStatus status retry_after)
          else if \<not> (200 \<le> status \<and> status \<le> 299) then Retry (RetryStatus status retry_after)
          else
            case read_content max_bytes [] chunks ending of
              Inl a \<Rightarrow> a
            | Inr content \<Rightarrow>
                (case loads content of
                   Loaded v \<Rightarrow> Got v
                 | JsonDecodeError \<Rightarrow> Fatal (MarketDataError ''PROVIDER_SCHEMA_ERROR'')
                 | LoadsRaised \<Rightarrow> Fatal OtherError))"

section \<open>Waiting\<close>

text \<open>\<open>float(text)\<close>; \<open>None\<close> is the \<open>ValueError\<close>.\<close>

definition float_of_text :: "string \<Rightarrow> fl option" where
  "float_of_text s =
     (let t = strip s; (neg, digits) = sign_split t; word = lower digits;
          signed = (\<lambda>x. if neg then fl_neg x else x)
      in if word \<in> {''inf'', ''infinity''} then Some (signed PInf)
         else if word = ''nan'' then Some NaN
         else if underscores_ok False digits
         then map_option (\<lambda>(m, e). signed (fl_of (of_int m * 10 powi e))) (number_of_text (without_underscores digits))
         else None)"

definition retry_delay :: "rat provider_settings \<Rightarrow> rat \<Rightarrow> nat \<Rightarrow> retry_cause \<Rightarrow> fl" where
  "retry_delay s random_value attempt cause =
     (let bounded = min (ps_retry_max_seconds s) (fmul (ps_retry_base_seconds s) (2 ^ (attempt - 1)));
          delay = fmul bounded (fadd (1/2) (fmul (1/2) random_value))
      in case cause of
           RetryStatus status (Some text) \<Rightarrow>
             if status = 429
             then (case float_of_text text of
                     None \<Rightarrow> Fin delay
                   | Some x \<Rightarrow> py_min (Fin (ps_retry_max_seconds s)) (py_max (Fin delay) x))
             else Fin delay
         | _ \<Rightarrow> Fin delay)"

section \<open>\<open>_request_json\<close>\<close>

record provider_env =
  pe_http :: "string \<Rightarrow> (string \<times> string) list \<Rightarrow> nat \<Rightarrow> http_reply"
  pe_loads :: "string \<Rightarrow> loaded"
  pe_random :: "nat \<Rightarrow> rat"
  pe_received_at :: instant
  pe_float_repr :: "rat \<Rightarrow> string"

text \<open>What a request leaves behind: the number of HTTP requests, the waits between them and the
  increments of the failure counter.\<close>

record request_trace =
  rt_requests :: nat
  rt_sleeps :: "fl list"
  rt_failures :: nat

definition exhausted :: "retry_cause \<Rightarrow> market_error" where
  "exhausted cause = MarketDataError (if cause = RetryTimeout then ''PROVIDER_TIMEOUT'' else ''PROVIDER_ERROR'')"

text \<open>Attempt \<open>k\<close> and the \<open>n\<close> attempts that may follow it\<close>

fun attempts_from ::
    "rat provider_settings \<Rightarrow> (nat \<Rightarrow> rat) \<Rightarrow> (nat \<Rightarrow> attempt) \<Rightarrow> nat \<Rightarrow> nat \<Rightarrow> request_trace \<times> (market_error + json_value)" where
  "attempts_from s random outcome k n =
     (case outcome k of
        Got v \<Rightarrow> (\<lparr>rt_requests = 1, rt_sleeps = [], rt_failures = 0\<rparr>, Inr v)
      | Fatal e \<Rightarrow> (\<lparr>rt_requests = 1, rt_sleeps = [], rt_failures = (if e = OtherError then 0 else 1)\<rparr>, Inl e)
      | Retry cause \<Rightarrow>
          (case n of
             0 \<Rightarrow> (\<lparr>rt_requests = 1, rt_sleeps = [], rt_failures = 1\<rparr>, Inl (exhausted cause))
           | Suc m \<Rightarrow>
               let (rest, result) = attempts_from s random outcome (k + 1) m
               in (\<lparr>rt_requests = rt_requests rest + 1, rt_sleeps = retry_delay s (random k) k cause # rt_sleeps rest,
                    rt_failures = rt_failures rest\<rparr>, result)))"

definition request_json ::
    "rat provider_settings \<Rightarrow> provider_env \<Rightarrow> string \<Rightarrow> (string \<times> string) list \<Rightarrow>
     request_trace \<times> (market_error + json_value \<times> instant)" where
  "request_json s v path params =
     (let outcome = \<lambda>k. attempt_of (ps_max_response_bytes s) (pe_loads v) (pe_http v path params k);
          (trace, result) = attempts_from s (pe_random v) outcome 1 (nat (ps_max_attempts s - 1))
      in (trace, map_sum id (\<lambda>payload. (payload, pe_received_at v)) result))"

section \<open>Bounded effort\<close>

lemma settings_facts:
  assumes "validate_provider_settings raw = Some s"
  shows "1 \<le> ps_max_attempts s" "ps_max_attempts s \<le> 5" "0 < ps_retry_base_seconds s" "0 < ps_retry_max_seconds s"
    "ps_retry_max_seconds s \<le> 30" "1 \<le> ps_cache_ttl_seconds s" "ps_cache_ttl_seconds s \<le> 300"
    "1024 \<le> ps_max_response_bytes s"
  using assms by (auto simp: validate_provider_settings_def positive_field_def split: option.splits fl.splits if_splits)

lemma repr64_0: "repr64 0" and repr64_1: "repr64 1"
  using repr64_of_int [of 0] repr64_of_int [of 1] by simp_all

lemma jitter_bounds:
  assumes "0 \<le> r" and "r \<le> 1"
  shows "0 \<le> fadd (1/2) (fmul (1/2) r)" "fadd (1/2) (fmul (1/2) r) \<le> 1"
proof -
  have "0 \<le> fmul (1/2) r" unfolding fmul_def using assms by (intro rnd64_ge) (auto simp: repr64_0)
  moreover have "fmul (1/2) r \<le> 1/2" unfolding fmul_def using assms by (intro rnd64_le repr64_half) auto
  ultimately show "0 \<le> fadd (1/2) (fmul (1/2) r)" "fadd (1/2) (fmul (1/2) r) \<le> 1"
    unfolding fadd_def by (intro rnd64_ge rnd64_le; simp add: repr64_0 repr64_1)+
qed

text \<open>Every wait is a finite float between 0 and the configured maximum, whatever a server asks for.\<close>

lemma retry_delay_bounds:
  assumes "validate_provider_settings raw = Some s" and "repr64 (ps_retry_max_seconds s)" and "0 \<le> r" and "r \<le> 1"
  shows "\<exists>x. retry_delay s r attempt cause = Fin x \<and> 0 \<le> x \<and> x \<le> ps_retry_max_seconds s"
proof -
  note facts = settings_facts [OF assms(1)]
  define bounded where "bounded = min (ps_retry_max_seconds s) (fmul (ps_retry_base_seconds s) (2 ^ (attempt - 1)))"
  define delay where "delay = fmul bounded (fadd (1/2) (fmul (1/2) r))"
  have "0 \<le> fmul (ps_retry_base_seconds s) (2 ^ (attempt - 1))"
    unfolding fmul_def using facts(3) by (intro rnd64_ge) (auto simp: repr64_0)
  then have b: "0 \<le> bounded" "bounded \<le> ps_retry_max_seconds s" using facts(4) by (auto simp: bounded_def)
  have "bounded * fadd (1/2) (fmul (1/2) r) \<le> ps_retry_max_seconds s * 1"
    using b jitter_bounds [OF assms(3,4)] by (intro mult_mono) auto
  then have le: "bounded * fadd (1/2) (fmul (1/2) r) \<le> ps_retry_max_seconds s" by simp
  have ge: "0 \<le> bounded * fadd (1/2) (fmul (1/2) r)"
    by (rule mult_nonneg_nonneg [OF b(1) jitter_bounds(1) [OF assms(3,4)]])
  have d: "0 \<le> delay" "delay \<le> ps_retry_max_seconds s"
    unfolding delay_def fmul_def [of bounded]
    by (rule rnd64_ge [OF ge repr64_0], rule rnd64_le [OF le assms(2)])
  have "\<exists>y. py_min (Fin (ps_retry_max_seconds s)) (py_max (Fin delay) x) = Fin y \<and> 0 \<le> y \<and> y \<le> ps_retry_max_seconds s" for x
    using d facts(4) by (cases x) (auto simp: py_min_def py_max_def)
  then show ?thesis using d
    unfolding retry_delay_def Let_def bounded_def [symmetric] delay_def [symmetric]
    by (auto split: retry_cause.split option.split)
qed

lemma attempts_from_trace:
  assumes "attempts_from s random outcome k n = (trace, result)"
  shows "1 \<le> rt_requests trace \<and> rt_requests trace \<le> n + 1 \<and> length (rt_sleeps trace) + 1 = rt_requests trace
    \<and> list_all (\<lambda>d. \<exists>j cause. d = retry_delay s (random j) j cause) (rt_sleeps trace)
    \<and> rt_failures trace \<le> 1"
  using assms
proof (induction n arbitrary: k trace result)
  case 0
  then show ?case by (auto simp: attempts_from.simps [of s random outcome k] split: attempt.splits)
next
  case (Suc n)
  show ?case
  proof (cases "\<exists>cause. outcome k = Retry cause")
    case True
    then obtain cause where c: "outcome k = Retry cause" by blast
    obtain rest result' where r: "attempts_from s random outcome (k + 1) n = (rest, result')" by fastforce
    then have "trace = \<lparr>rt_requests = rt_requests rest + 1,
        rt_sleeps = retry_delay s (random k) k cause # rt_sleeps rest, rt_failures = rt_failures rest\<rparr>"
      using Suc.prems c by simp
    with Suc.IH [OF r] show ?thesis by auto
  next
    case False
    then show ?thesis using Suc.prems by (auto split: attempt.splits)
  qed
qed

definition is_retry :: "attempt \<Rightarrow> bool" where
  "is_retry a \<longleftrightarrow> (case a of Retry _ \<Rightarrow> True | _ \<Rightarrow> False)"

text \<open>What the attempts amount to: the first that is not retryable decides; if all are, the last does.\<close>

definition decided_by :: "(nat \<Rightarrow> attempt) \<Rightarrow> nat \<Rightarrow> nat \<Rightarrow> market_error + json_value" where
  "decided_by outcome k n =
     (case filter (\<lambda>j. \<not> is_retry (outcome j)) [k..<k + n + 1] of
        j # _ \<Rightarrow> (case outcome j of Got v \<Rightarrow> Inr v | Fatal e \<Rightarrow> Inl e | Retry cause \<Rightarrow> Inl (exhausted cause))
      | [] \<Rightarrow> (case outcome (k + n) of Retry cause \<Rightarrow> Inl (exhausted cause) | Fatal e \<Rightarrow> Inl e | Got v \<Rightarrow> Inr v))"

lemma attempts_from_decided: "snd (attempts_from s random outcome k n) = decided_by outcome k n"
proof (induction n arbitrary: k)
  case 0
  have "[k..<k + 0 + 1] = [k]" by simp
  then show ?case
    by (simp add: attempts_from.simps [of s random outcome k] decided_by_def is_retry_def split: attempt.split)
next
  case (Suc n)
  have split: "[k..<k + Suc n + 1] = k # [k + 1..<k + 1 + n + 1]" by (simp add: upt_rec)
  have idx: "k + Suc n = k + 1 + n" by simp
  show ?case
  proof (cases "outcome k")
    case (Retry cause)
    then have "snd (attempts_from s random outcome k (Suc n)) = snd (attempts_from s random outcome (k + 1) n)"
      by (simp add: case_prod_beta)
    moreover have "decided_by outcome k (Suc n) = decided_by outcome (k + 1) n"
      unfolding decided_by_def split filter.simps
      by (simp only: is_retry_def Retry attempt.case not_True_eq_False if_False idx)
    ultimately show ?thesis using Suc.IH by simp
  next
    case (Got v)
    then show ?thesis unfolding decided_by_def split by (simp add: is_retry_def)
  next
    case (Fatal e)
    then show ?thesis unfolding decided_by_def split by (simp add: is_retry_def)
  qed
qed

text \<open>C22 A market-data request ends after a bounded effort: with validated settings and random numbers
  between 0 and 1 it makes at least one and at most \<open>max_attempts\<close> (at most five) HTTP requests,
  waits once between each two of them, and every wait is a finite number of seconds between 0
  and \<open>retry_max_seconds\<close>, whatever \<open>Retry-After\<close> headers a server sends.\<close>

theorem request_bounded:
  assumes "validate_provider_settings raw = Some s" and "repr64 (ps_retry_max_seconds s)"
    and "\<And>k. 0 \<le> pe_random v k \<and> pe_random v k \<le> 1"
    and "request_json s v path params = (trace, result)"
  shows "1 \<le> rt_requests trace \<and> int (rt_requests trace) \<le> ps_max_attempts s \<and> rt_requests trace \<le> 5
    \<and> length (rt_sleeps trace) + 1 = rt_requests trace
    \<and> list_all (\<lambda>d. \<exists>x. d = Fin x \<and> 0 \<le> x \<and> x \<le> ps_retry_max_seconds s) (rt_sleeps trace)"
proof -
  obtain result' where "attempts_from s (pe_random v)
      (\<lambda>k. attempt_of (ps_max_response_bytes s) (pe_loads v) (pe_http v path params k)) 1 (nat (ps_max_attempts s - 1))
      = (trace, result')"
    using assms(4) by (auto simp: request_json_def Let_def split: prod.splits)
  note t = attempts_from_trace [OF this]
  have "\<exists>x. retry_delay s (pe_random v j) j cause = Fin x \<and> 0 \<le> x \<and> x \<le> ps_retry_max_seconds s" for j cause
    using retry_delay_bounds [OF assms(1,2)] assms(3) by blast
  then have "list_all (\<lambda>d. \<exists>x. d = Fin x \<and> 0 \<le> x \<and> x \<le> ps_retry_max_seconds s) (rt_sleeps trace)"
    using t by (fastforce simp: list_all_iff)
  with t settings_facts(1,2) [OF assms(1)] show ?thesis by auto
qed

lemma client_errors_fatal:
  "400 \<le> status \<Longrightarrow> status \<le> 499 \<Longrightarrow> status \<noteq> 429 \<Longrightarrow>
   attempt_of n loads (HttpReply status retry_after chunks ending) = Fatal (MarketDataError ''PROVIDER_NON_RETRYABLE'')"
  by (simp add: attempt_of_def)

text \<open>C21 Retrying changes nothing but the chance of success: the outcome of a request is that of the
  first attempt that is not retryable, and if all permitted attempts are, the error of the last.\<close>

theorem request_outcome:
  "snd (request_json s v path params) =
     map_sum id (\<lambda>payload. (payload, pe_received_at v))
       (decided_by (\<lambda>k. attempt_of (ps_max_response_bytes s) (pe_loads v) (pe_http v path params k)) 1
          (nat (ps_max_attempts s - 1)))"
  using attempts_from_decided [of s "pe_random v"]
  by (simp add: request_json_def Let_def case_prod_beta attempt_of_def del: attempts_from.simps)

section \<open>The defaults\<close>

definition default_provider_settings :: "fl provider_settings" where
  "default_provider_settings =
     \<lparr>ps_base_url = ''https://api.binance.com'', ps_connect_timeout_seconds = Fin 3, ps_read_timeout_seconds = Fin 8,
      ps_max_attempts = 3, ps_retry_base_seconds = Fin (1/4), ps_retry_max_seconds = Fin 2,
      ps_max_response_bytes = 2000000, ps_max_concurrency = 4, ps_cache_ttl_seconds = 10,
      ps_allow_insecure_localhost = False, ps_allowed_host_suffixes = [''binance.com'', ''binance.us'']\<rparr>"

definition accepted_defaults :: "rat provider_settings" where
  "accepted_defaults =
     \<lparr>ps_base_url = ''https://api.binance.com'', ps_connect_timeout_seconds = 3, ps_read_timeout_seconds = 8,
      ps_max_attempts = 3, ps_retry_base_seconds = 1/4, ps_retry_max_seconds = 2,
      ps_max_response_bytes = 2000000, ps_max_concurrency = 4, ps_cache_ttl_seconds = 10,
      ps_allow_insecure_localhost = False, ps_allowed_host_suffixes = [''binance.com'', ''binance.us'']\<rparr>"

lemma defaults_valid: "validate_provider_settings default_provider_settings = Some accepted_defaults"
proof -
  let ?u = "\<lparr>up_scheme = ''https'', up_netloc = ''api.binance.com'', up_path = [], up_query = [], up_fragment = []\<rparr>"
  have "urlsplit ''https://api.binance.com'' = Some ?u" "url_hostname ?u = Some ''api.binance.com''" "url_port ?u = Inr None"
    "\<not> url_credentials ?u" "rstrip_dots (lower ''api.binance.com'') = ''api.binance.com''"
    "lower (lstrip_dots ''binance.com'') = ''binance.com''"
    by code_simp+
  moreover have "ends_with ''.binance.com'' ''api.binance.com''"
    unfolding ends_with_def by (rule exI [of _ 3]) simp
  ultimately have "validate_base_url default_provider_settings"
    by (simp add: validate_base_url_def default_provider_settings_def provider_host_allowed_def)
  then show ?thesis
    unfolding validate_provider_settings_def
    by (simp add: default_provider_settings_def accepted_defaults_def positive_field_def)
qed

theorem request_bounded_witness:
  "\<exists>trace result. request_json accepted_defaults
       \<lparr>pe_http = \<lambda>_ _ _. HttpReply 429 (Some ''inf'') [] None, pe_loads = \<lambda>_. JsonDecodeError, pe_random = \<lambda>_. 1/2,
        pe_received_at = 0, pe_float_repr = \<lambda>_. []\<rparr> ''/'' [] = (trace, result)
     \<and> result = Inl (MarketDataError ''PROVIDER_ERROR'') \<and> rt_requests trace \<le> 3
     \<and> list_all (\<lambda>d. \<exists>x. d = Fin x \<and> 0 \<le> x \<and> x \<le> 2) (rt_sleeps trace)"
proof -
  let ?v = "\<lparr>pe_http = \<lambda>_ _ _. HttpReply 429 (Some ''inf'') [] None, pe_loads = \<lambda>_. JsonDecodeError, pe_random = \<lambda>_. 1/2,
        pe_received_at = 0, pe_float_repr = \<lambda>_. []\<rparr>"
  obtain trace result where r: "request_json accepted_defaults ?v ''/'' [] = (trace, result)" by fastforce
  have "result = Inl (MarketDataError ''PROVIDER_ERROR'')"
    using attempts_from_decided [of accepted_defaults "\<lambda>_. 1/2"] r
    by (auto simp: request_json_def Let_def case_prod_beta decided_by_def is_retry_def attempt_of_def exhausted_def
        accepted_defaults_def simp del: attempts_from.simps)
  moreover have "repr64 (ps_retry_max_seconds accepted_defaults)"
    using repr64_of_int [of 2] by (simp add: accepted_defaults_def)
  ultimately show ?thesis
    using request_bounded [OF defaults_valid _ _ r] r by (auto simp: accepted_defaults_def)
qed

end
