(* ===== verification/Binance.thy ===== *)
theory Binance
  imports Exchange_Client
begin

text \<open>
  The public operations of \<open>src/tomiris_market_data/binance.py\<close> over \<open>Exchange_Client\<close>:
  \<open>get_ohlcv\<close> with its cache, \<open>get_ticker\<close> and \<open>get_market_summary\<close>, and the reading of numbers
  and timestamps they rest on.

  The code turns \<open>InvalidOperation\<close>, \<open>TypeError\<close> and \<open>ValueError\<close> of a kline into a provider error
  (\<open>Caught\<close> here); \<open>OverflowError\<close> and \<open>OSError\<close> leave it (\<open>Escaped\<close>).  The text of a float is an
  argument (\<open>pe_float_repr\<close>).
\<close>

section \<open>Reading numbers\<close>

text \<open>\<open>Decimal(text)\<close>, exact within the exponent limits of a 64 bit build; \<open>None\<close> is
  \<open>InvalidOperation\<close>.\<close>

definition decimal_emax :: int where "decimal_emax = 999999999999999999"
definition decimal_etiny :: int where "decimal_etiny = - 1999999999999999997"

definition is_nan_text :: "string \<Rightarrow> bool" where
  "is_nan_text word \<longleftrightarrow>
     (take 3 word = ''nan'' \<and> list_all is_digit (drop 3 word))
     \<or> (take 4 word = ''snan'' \<and> list_all is_digit (drop 4 word))"

definition decimal_of_text :: "string \<Rightarrow> decimal option" where
  "decimal_of_text s =
     (let (neg, digits) = sign_split (without_underscores (strip s)); word = lower digits
      in if word \<in> {''inf'', ''infinity''} \<or> is_nan_text word then Some DecNonFinite
         else
           case number_of_text digits of
             None \<Rightarrow> None
           | Some (m, e) \<Rightarrow>
               if decimal_etiny \<le> e \<and> e + int (length (nat_str (nat m))) - 1 \<le> decimal_emax
               then Some (Dec ((if neg then - 1 else 1) * of_int m * 10 powi e)) else None)"

text \<open>\<open>Decimal(str(value))\<close>\<close>

definition decimal_of_json :: "(rat \<Rightarrow> string) \<Rightarrow> json_value \<Rightarrow> decimal option" where
  "decimal_of_json float_repr x =
     (case x of
        JInt n \<Rightarrow> Some (Dec (of_int n))
      | JFloat (Fin q) \<Rightarrow> decimal_of_text (float_repr q)
      | JFloat _ \<Rightarrow> Some DecNonFinite
      | JStr s \<Rightarrow> decimal_of_text s
      | _ \<Rightarrow> None)"

datatype value_error = Caught | Escaped

text \<open>\<open>int(value)\<close>\<close>

definition int_of_json :: "json_value \<Rightarrow> value_error + int" where
  "int_of_json x =
     (case x of
        JInt n \<Rightarrow> Inr n
      | JBool b \<Rightarrow> Inr (if b then 1 else 0)
      | JFloat (Fin q) \<Rightarrow> Inr (trunc_rat q)
      | JFloat NaN \<Rightarrow> Inl Caught
      | JFloat _ \<Rightarrow> Inl Escaped
      | JStr s \<Rightarrow> (case py_int s of None \<Rightarrow> Inl Caught | Some n \<Rightarrow> Inr n)
      | _ \<Rightarrow> Inl Caught)"

text \<open>\<open>datetime.fromtimestamp(x, tz=UTC)\<close>: microseconds rounded half to even; beyond the years 1 to
  9999 a \<open>ValueError\<close>, beyond what the C library can represent \<open>OSError\<close> or \<open>OverflowError\<close>.\<close>

definition utc_timestamp :: "rat \<Rightarrow> value_error + instant" where
  "utc_timestamp x =
     (let whole = trunc_rat x;
          t = seconds whole + round_half_even (fmul (x - of_int whole) 1000000);
          s = t div 1000000
      in if s < - 67768040609740800 \<or> 67768036191676799 < s then Inl Escaped
         else if s < - 62135596800 \<or> 253402300799 < s then Inl Caught
         else Inr t)"

text \<open>\<open>datetime.fromtimestamp(int(value) / 1000, tz=UTC)\<close>\<close>

definition stamp_of_millis :: "int \<Rightarrow> value_error + instant" where
  "stamp_of_millis n =
     (case fl_of (of_int n / 1000) of Fin x \<Rightarrow> utc_timestamp x | _ \<Rightarrow> Inl Escaped)"

definition stamp_of_json :: "json_value \<Rightarrow> value_error + instant" where
  "stamp_of_json x = (case int_of_json x of Inl e \<Rightarrow> Inl e | Inr n \<Rightarrow> stamp_of_millis n)"

section \<open>Klines\<close>

definition provider_name :: string where "provider_name = ''binance-public''"

text \<open>One row: an exception, no bar (an open candle that is not wanted), or a bar.\<close>

definition kline_bar ::
    "(rat \<Rightarrow> string) \<Rightarrow> instant \<Rightarrow> instant market_request \<Rightarrow> json_value list \<Rightarrow> value_error + bar option" where
  "kline_bar float_repr received_at q raw =
     (case (stamp_of_json (raw ! 0), stamp_of_json (raw ! 6)) of
        (Inl e, _) \<Rightarrow> Inl e
      | (Inr _, Inl e) \<Rightarrow> Inl e
      | (Inr open_time, Inr close_time) \<Rightarrow>
          let is_closed = (close_time \<le> mq_as_of q);
              freshness = max 0 (total_seconds (mq_as_of q - close_time))
          in if mq_closed_only q \<and> \<not> is_closed then Inr None
             else
               case map (decimal_of_json float_repr) [raw ! 1, raw ! 2, raw ! 3, raw ! 4, raw ! 5] of
                 [Some opening, Some high, Some low, Some closing, Some volume] \<Rightarrow>
                   (case validate_bar
                      \<lparr>br_provider = provider_name, br_instrument = mq_instrument q, br_timeframe = mq_timeframe q,
                       br_open_time = Aware open_time 0, br_close_time = Aware close_time 0,
                       br_open = opening, br_high = high, br_low = low, br_close = closing, br_volume = volume,
                       br_received_at = Aware received_at 0, br_source_timestamp = Aware close_time 0,
                       br_freshness_seconds = Fin freshness, br_provenance = ''binance:/api/v3/klines'',
                       br_closed = is_closed\<rparr> of
                      None \<Rightarrow> Inl Caught
                    | Some bar \<Rightarrow> Inr (Some bar))
               | _ \<Rightarrow> Inl Caught)"

definition schema_error :: market_error where
  "schema_error = MarketDataError ''PROVIDER_SCHEMA_ERROR''"

fun decode_klines ::
    "(rat \<Rightarrow> string) \<Rightarrow> instant \<Rightarrow> instant market_request \<Rightarrow> json_value list \<Rightarrow> market_error + bar list" where
  "decode_klines float_repr received_at q [] = Inr []"
| "decode_klines float_repr received_at q (row # rows) =
     (case row of
        JList raw \<Rightarrow>
          if length raw < 7 then Inl schema_error
          else
            (case kline_bar float_repr received_at q raw of
               Inl Caught \<Rightarrow> Inl schema_error
             | Inl Escaped \<Rightarrow> Inl OtherError
             | Inr bar \<Rightarrow>
                 (case decode_klines float_repr received_at q rows of
                    Inl e \<Rightarrow> Inl e
                  | Inr bars \<Rightarrow> Inr (case bar of None \<Rightarrow> bars | Some b \<Rightarrow> b # bars)))
      | _ \<Rightarrow> Inl schema_error)"

text \<open>\<open>bars[-n:]\<close>\<close>

definition last_bars :: "int \<Rightarrow> bar list \<Rightarrow> bar list" where
  "last_bars n bars = drop (length bars - nat n) bars"

definition series_of :: "instant market_request \<Rightarrow> json_value \<Rightarrow> instant \<Rightarrow> (rat \<Rightarrow> string) \<Rightarrow> market_error + instant market_series" where
  "series_of q payload received_at float_repr =
     (case payload of
        JList rows \<Rightarrow>
          (case decode_klines float_repr received_at q rows of
             Inl e \<Rightarrow> Inl e
           | Inr bars \<Rightarrow>
               if bars = [] then Inl (MarketDataError ''PROVIDER_EMPTY_RESPONSE'')
               else (case validate_series
                       \<lparr>se_provider = provider_name, se_instrument = mq_instrument q, se_timeframe = mq_timeframe q,
                        se_as_of = Aware (mq_as_of q) 0, se_bars = last_bars (mq_minimum_bars q) bars\<rparr> of
                       None \<Rightarrow> Inl OtherError
                     | Some series \<Rightarrow> Inr series))
      | _ \<Rightarrow> Inl schema_error)"

section \<open>Operations\<close>

definition cache_key :: "instant market_request \<Rightarrow> string" where
  "cache_key q =
     ''ohlcv:'' @ mq_instrument q @ '':'' @ timeframe_value (mq_timeframe q) @ '':''
     @ int_str (mq_minimum_bars q) @ '':'' @ isoformat (mq_as_of q)"

definition kline_params :: "instant market_request \<Rightarrow> (string \<times> string) list" where
  "kline_params q =
     [(''symbol'', mq_instrument q), (''interval'', timeframe_value (mq_timeframe q)),
      (''limit'', int_str (min 1000 (mq_minimum_bars q + 1))),
      (''endTime'', int_str (trunc_rat (fmul (total_seconds (mq_as_of q)) 1000)))]"

definition no_trace :: request_trace where
  "no_trace = \<lparr>rt_requests = 0, rt_sleeps = [], rt_failures = 0\<rparr>"

text \<open>The cache afterwards, the trace and the outcome\<close>

definition get_ohlcv ::
    "rat provider_settings \<Rightarrow> provider_env \<Rightarrow> instant market_request \<Rightarrow> instant market_series market_cache \<Rightarrow>
     instant market_series market_cache \<times> request_trace \<times> (market_error + instant market_series)" where
  "get_ohlcv s v q cache =
     (let key = cache_key q
      in case cache_get key (mq_as_of q) cache of
           (Some cached, cache) \<Rightarrow> (cache, no_trace, Inr cached)
         | (None, cache) \<Rightarrow>
             (case request_json s v ''/api/v3/klines'' (kline_params q) of
                (trace, Inl e) \<Rightarrow> (cache, trace, Inl e)
              | (trace, Inr (payload, received_at)) \<Rightarrow>
                  (case series_of q payload received_at (pe_float_repr v) of
                     Inl e \<Rightarrow> (cache, trace, Inl e)
                   | Inr series \<Rightarrow>
                       (cache_put key series (mq_as_of q) (ps_cache_ttl_seconds s) cache, trace, Inr series))))"

definition json_field :: "string \<Rightarrow> (string \<times> json_value) list \<Rightarrow> json_value option" where
  "json_field name members = map_of members name"

definition decimal_field :: "(rat \<Rightarrow> string) \<Rightarrow> string \<Rightarrow> (string \<times> json_value) list \<Rightarrow> decimal option" where
  "decimal_field float_repr name members =
     (case json_field name members of None \<Rightarrow> None | Some x \<Rightarrow> decimal_of_json float_repr x)"

definition get_ticker ::
    "rat provider_settings \<Rightarrow> provider_env \<Rightarrow> string \<Rightarrow> market_error + (instant, rat) ticker_snapshot" where
  "get_ticker s v instrument =
     (case snd (request_json s v ''/api/v3/ticker/price'' [(''symbol'', instrument)]) of
        Inl e \<Rightarrow> Inl e
      | Inr (payload, received_at) \<Rightarrow>
          (case payload of
             JObject members \<Rightarrow>
               if json_field ''symbol'' members \<noteq> Some (JStr instrument) then Inl schema_error
               else
                 (case decimal_field (pe_float_repr v) ''price'' members of
                    None \<Rightarrow> Inl schema_error
                  | Some price \<Rightarrow>
                      (case validate_ticker
                         \<lparr>tk_provider = provider_name, tk_instrument = instrument, tk_price = price,
                          tk_observed_at = Aware received_at 0, tk_received_at = Aware received_at 0\<rparr> of
                         None \<Rightarrow> Inl OtherError
                       | Some t \<Rightarrow> Inr t))
           | _ \<Rightarrow> Inl schema_error))"

definition get_market_summary ::
    "rat provider_settings \<Rightarrow> provider_env \<Rightarrow> string \<Rightarrow> market_error + (instant, rat) market_summary" where
  "get_market_summary s v instrument =
     (case snd (request_json s v ''/api/v3/ticker/24hr'' [(''symbol'', instrument)]) of
        Inl e \<Rightarrow> Inl e
      | Inr (payload, received_at) \<Rightarrow>
          (case payload of
             JObject members \<Rightarrow>
               if json_field ''symbol'' members \<noteq> Some (JStr instrument) then Inl schema_error
               else
                 (case (decimal_field (pe_float_repr v) ''priceChangePercent'' members,
                        decimal_field (pe_float_repr v) ''quoteVolume'' members) of
                    (Some change, Some volume) \<Rightarrow>
                      (case validate_summary
                         \<lparr>ms_provider = provider_name, ms_instrument = instrument,
                          ms_price_change_percent = change, ms_quote_volume = volume,
                          ms_observed_at = Aware received_at 0, ms_received_at = Aware received_at 0\<rparr> of
                         None \<Rightarrow> Inl OtherError
                       | Some t \<Rightarrow> Inr t)
                  | _ \<Rightarrow> Inl schema_error)
           | _ \<Rightarrow> Inl schema_error))"

section \<open>Timestamps are read exactly\<close>

lemma rhe_nearest: "\<bar>y - of_int m\<bar> < 1/2 \<Longrightarrow> round_half_even y = m"
proof -
  assume "\<bar>y - of_int m\<bar> < 1/2"
  then have "\<bar>of_int (round_half_even y) - (of_int m :: rat)\<bar> < 1"
    using rhe_lower [of y] rhe_upper [of y] by linarith
  then have "of_int \<bar>round_half_even y - m\<bar> < (of_int 1 :: rat)" by simp
  then show ?thesis unfolding of_int_less_iff by simp
qed

lemma rnd64_near:
  assumes "\<bar>q\<bar> \<le> b" and "half_min64 \<le> b * eps64"
  shows "\<bar>rnd64 q - q\<bar> \<le> b * eps64"
proof -
  have "\<bar>q\<bar> * eps64 \<le> b * eps64" using assms(1) eps64_pos by (intro mult_right_mono) auto
  then show ?thesis using rnd64_error [of q] assms(2) by linarith
qed

lemma half_min64_tiny: "half_min64 \<le> eps64"
  unfolding half_min64_def eps64_def by (rule powi_mono) simp

lemma eps64_value: "eps64 = 1 / 9007199254740992"
  by (simp add: eps64_def power_int_def power_one_over)

lemma trunc_frac: "\<bar>x - of_int (trunc_rat x)\<bar> < 1"
  unfolding trunc_rat_def using floor_correct [of x] ceiling_correct [of x] by (auto simp: abs_less_iff; linarith)

lemma stamp_of_millis_exact:
  assumes "\<bar>n\<bar> \<le> 4294967296000"
  shows "stamp_of_millis n = Inr (n * 1000)"
proof -
  define q where "q = (of_int n / 1000 :: rat)"
  define x where "x = rnd64 q"
  define w where "w = trunc_rat x"
  define y where "y = fmul (x - of_int w) 1000000"
  define m where "m = n * 1000 - seconds w"
  have "of_int \<bar>n\<bar> \<le> (of_int 4294967296000 :: rat)" using assms by (simp only: of_int_le_iff)
  then have q: "\<bar>q\<bar> \<le> 4294967296" by (simp add: q_def abs_divide)
  have e1: "\<bar>x - q\<bar> \<le> 4294967296 * eps64"
    unfolding x_def by (rule rnd64_near [OF q]) (use half_min64_tiny eps64_pos in linarith)
  then have "\<bar>x\<bar> < 4294967298" using q unfolding eps64_value by linarith
  moreover have "(4294967298 :: rat) < 2 ^ 1024"
  proof -
    have "(4294967298 :: rat) < 2 ^ 33" by simp
    also have "\<dots> \<le> 2 ^ 1024" by (rule power_increasing) simp_all
    finally show ?thesis .
  qed
  ultimately have "fits64 x" unfolding fits64_def by linarith
  then have fl: "fl_of q = Fin x" by (simp add: fl_of_def x_def)
  have frac: "\<bar>x - of_int w\<bar> < 1" unfolding w_def by (rule trunc_frac)
  have "\<bar>(x - of_int w) * 1000000\<bar> \<le> 1000000" using frac by (simp add: abs_mult)
  then have e2: "\<bar>y - (x - of_int w) * 1000000\<bar> \<le> 1000000 * eps64"
    unfolding y_def fmul_def by (rule rnd64_near) (use half_min64_tiny eps64_pos in linarith)
  have "(x - of_int w) * 1000000 - of_int m = (x - q) * 1000000"
    by (simp add: m_def q_def algebra_simps)
  then have "y - of_int m = (y - (x - of_int w) * 1000000) + (x - q) * 1000000" by linarith
  moreover have "\<bar>(x - q) * 1000000\<bar> \<le> 4294967296 * eps64 * 1000000"
    using e1 unfolding abs_mult by simp
  ultimately have "\<bar>y - of_int m\<bar> \<le> 1000000 * eps64 + 4294967296 * eps64 * 1000000"
    using e2 abs_triangle_ineq [of "y - (x - of_int w) * 1000000" "(x - q) * 1000000"] by linarith
  then have "\<bar>y - of_int m\<bar> < 1/2" unfolding eps64_value by simp
  then have "round_half_even y = m" by (rule rhe_nearest)
  then have t: "seconds w + round_half_even y = n * 1000" by (simp add: m_def)
  have "- 4294967297 \<le> n div 1000 \<and> n div 1000 \<le> 4294967297" using assms by linarith
  then have "utc_timestamp x = Inr (n * 1000)"
    using t assms unfolding utc_timestamp_def Let_def w_def [symmetric] y_def [symmetric] by simp
  then show ?thesis by (simp add: stamp_of_millis_def q_def [symmetric] fl)
qed

text \<open>Times are not distorted by floating point: every millisecond timestamp up to 2^32 seconds
  around the epoch (until the year 2106) is converted to exactly that instant, although the
  code divides by 1000 in binary floating point and rounds twice.\<close>

theorem millis_exact:
  assumes "\<bar>n\<bar> \<le> 4294967296000"
  shows "stamp_of_json (JInt n) = Inr (n * 1000)"
  using stamp_of_millis_exact [OF assms] by (simp add: stamp_of_json_def int_of_json_def)

theorem millis_exact_witness: "stamp_of_json (JInt 1700000000123) = Inr 1700000000123000"
  using millis_exact [of 1700000000123] by simp

section \<open>What a fetched series is\<close>

definition bar_of_request :: "instant market_request \<Rightarrow> bar \<Rightarrow> bool" where
  "bar_of_request q b \<longleftrightarrow>
     br_provider b = provider_name \<and> br_instrument b = mq_instrument q \<and> br_timeframe b = mq_timeframe q
     \<and> validate_ohlcv b \<and> (br_closed b \<longleftrightarrow> br_close_time b \<le> mq_as_of q)
     \<and> (mq_closed_only q \<longrightarrow> br_close_time b \<le> mq_as_of q)
     \<and> br_source_timestamp b = br_close_time b \<and> 0 \<le> br_freshness_seconds b"

lemma validate_bar_Some:
  assumes "validate_bar raw = Some b"
  shows "br_provider b = br_provider raw" "br_instrument b = br_instrument raw" "br_timeframe b = br_timeframe raw"
    "validate_ohlcv b" "br_closed b = br_closed raw" "require_utc (br_close_time raw) = Some (br_close_time b)"
    "require_utc (br_source_timestamp raw) = Some (br_source_timestamp b)" "0 \<le> br_freshness_seconds b"
  using assms by (auto simp: validate_bar_def Let_def split: option.splits if_splits)

lemma kline_bar_of_request:
  assumes "kline_bar float_repr received_at q raw = Inr (Some b)"
  shows "bar_of_request q b"
proof -
  obtain open_time close_time o1 high low closing volume where
    v: "validate_bar
       \<lparr>br_provider = provider_name, br_instrument = mq_instrument q, br_timeframe = mq_timeframe q,
        br_open_time = Aware open_time 0, br_close_time = Aware close_time 0,
        br_open = o1, br_high = high, br_low = low, br_close = closing, br_volume = volume,
        br_received_at = Aware received_at 0, br_source_timestamp = Aware close_time 0,
        br_freshness_seconds = Fin (max 0 (total_seconds (mq_as_of q - close_time))),
        br_provenance = ''binance:/api/v3/klines'', br_closed = (close_time \<le> mq_as_of q)\<rparr> = Some b"
    and c: "mq_closed_only q \<longrightarrow> close_time \<le> mq_as_of q"
    using assms by (auto simp: kline_bar_def Let_def split: sum.splits if_splits option.splits list.splits)
  have "br_close_time b = close_time" using validate_bar_Some(6) [OF v] by (simp add: require_utc_def)
  moreover have "br_source_timestamp b = close_time" using validate_bar_Some(7) [OF v] by (simp add: require_utc_def)
  ultimately show ?thesis
    using validate_bar_Some [OF v] c by (simp add: bar_of_request_def)
qed

lemma decode_klines_Inr:
  "decode_klines float_repr received_at q rows = Inr bars \<Longrightarrow> list_all (bar_of_request q) bars \<and> length bars \<le> length rows"
  by (induction rows arbitrary: bars)
    (auto split: json_value.splits if_splits sum.splits value_error.splits option.splits dest: kline_bar_of_request)

lemma series_of_Inr:
  assumes "series_of q payload received_at float_repr = Inr series"
  shows "se_provider series = provider_name" "se_instrument series = mq_instrument q"
    "se_timeframe series = mq_timeframe q" "se_as_of series = mq_as_of q" "se_bars series \<noteq> []"
    "list_all (bar_of_request q) (se_bars series)" "length (se_bars series) \<le> nat (mq_minimum_bars q)"
proof -
  obtain rows bars where b: "decode_klines float_repr received_at q rows = Inr bars" "bars \<noteq> []"
      and v: "validate_series \<lparr>se_provider = provider_name, se_instrument = mq_instrument q, se_timeframe = mq_timeframe q,
          se_as_of = Aware (mq_as_of q) 0, se_bars = last_bars (mq_minimum_bars q) bars\<rparr> = Some series"
    using assms by (auto simp: series_of_def split: json_value.splits sum.splits if_splits option.splits)
  have f: "series = \<lparr>se_provider = provider_name, se_instrument = mq_instrument q, se_timeframe = mq_timeframe q,
      se_as_of = mq_as_of q, se_bars = last_bars (mq_minimum_bars q) bars\<rparr>" "1 \<le> length (last_bars (mq_minimum_bars q) bars)"
    using v by (auto simp: validate_series_def require_utc_def split: if_splits)
  then show "se_provider series = provider_name" "se_instrument series = mq_instrument q"
    "se_timeframe series = mq_timeframe q" "se_as_of series = mq_as_of q" "se_bars series \<noteq> []"
    by auto
  have "list_all (bar_of_request q) bars" using decode_klines_Inr [OF b(1)] by blast
  then show "list_all (bar_of_request q) (se_bars series)" "length (se_bars series) \<le> nat (mq_minimum_bars q)"
    using f(1) by (auto simp: last_bars_def list_all_iff dest: in_set_dropD)
qed

text \<open>C23 What the exchange client hands on: a series it fetched is for the instrument, timeframe and
  cutoff of the request, has at least one and at most the requested number of bars, each of them
  a consistent OHLCV bar of this provider, marked closed exactly when it closes by the cutoff;
  with \<open>closed_only\<close> none closes after it.\<close>

theorem fetched_series:
  assumes "get_ohlcv s v q cache = (cache', trace, Inr series)" and "rt_requests trace \<noteq> 0"
  shows "se_provider series = provider_name \<and> se_instrument series = mq_instrument q
    \<and> se_timeframe series = mq_timeframe q \<and> se_as_of series = mq_as_of q \<and> se_bars series \<noteq> []
    \<and> length (se_bars series) \<le> nat (mq_minimum_bars q) \<and> list_all (bar_of_request q) (se_bars series)"
proof -
  obtain payload received_at where "series_of q payload received_at (pe_float_repr v) = Inr series"
    using assms by (auto simp: get_ohlcv_def Let_def no_trace_def split: prod.splits option.splits sum.splits)
  from series_of_Inr [OF this] show ?thesis by auto
qed

section \<open>The cache\<close>

lemma cache_get_alive: "fst (cache_get k t c) = Some x \<Longrightarrow> cache_get k t c = (Some x, c)"
  by (auto simp: cache_get_def split: option.splits if_splits)

text \<open>A successful answer is remembered: repeating the request, also with another \<open>closed_only\<close> or age
  limit, returns the same series without any HTTP request and leaves the cache alone, whatever
  the exchange would answer now and however long ago the first answer was; the clock of the
  cache is the cutoff of the request, so time to live never ends for it.\<close>

theorem cached_again:
  assumes "cache_ok cache" and "1 \<le> ps_cache_ttl_seconds s"
    and "get_ohlcv s v q cache = (cache', trace, Inr series)"
  shows "get_ohlcv s' v' (q\<lparr>mq_closed_only := c, mq_max_data_age_seconds := age\<rparr>) cache' = (cache', no_trace, Inr series)"
proof -
  have key: "cache_key (q\<lparr>mq_closed_only := c, mq_max_data_age_seconds := age\<rparr>) = cache_key q"
    by (simp add: cache_key_def)
  have "fst (cache_get (cache_key q) (mq_as_of q) cache') = Some series"
  proof (cases "fst (cache_get (cache_key q) (mq_as_of q) cache)")
    case (Some x)
    from cache_get_alive [OF this] show ?thesis using assms(3) Some by (simp add: get_ohlcv_def Let_def)
  next
    case None
    then obtain cache1 where c1: "cache_get (cache_key q) (mq_as_of q) cache = (None, cache1)"
      by (cases "cache_get (cache_key q) (mq_as_of q) cache") simp
    then have ok: "cache_ok cache1" using memory_cache.get_inv [OF assms(1), of "cache_key q" "mq_as_of q"] by simp
    have "cache' = cache_put (cache_key q) series (mq_as_of q) (ps_cache_ttl_seconds s) cache1"
      using assms(3) by (auto simp: get_ohlcv_def Let_def c1 split: prod.splits sum.splits)
    moreover have "mq_as_of q < mq_as_of q + seconds (ps_cache_ttl_seconds s)" using assms(2) by simp
    ultimately show ?thesis by (simp only: memory_cache.put_get [OF ok])
  qed
  then have "cache_get (cache_key q) (mq_as_of q) cache' = (Some series, cache')" by (rule cache_get_alive)
  then show ?thesis by (simp add: get_ohlcv_def Let_def key)
qed

section \<open>Errors\<close>

lemma kline_bar_escaped:
  assumes "kline_bar float_repr received_at q raw = Inl Escaped"
  shows "stamp_of_json (raw ! 0) = Inl Escaped \<or> stamp_of_json (raw ! 6) = Inl Escaped"
  using assms by (auto simp: kline_bar_def Let_def split: sum.splits if_splits option.splits list.splits)

lemma decode_klines_other:
  "decode_klines float_repr received_at q rows = Inl OtherError \<Longrightarrow>
   \<exists>raw. JList raw \<in> set rows \<and> (stamp_of_json (raw ! 0) = Inl Escaped \<or> stamp_of_json (raw ! 6) = Inl Escaped)"
  by (induction rows)
    (auto simp: schema_error_def split: json_value.splits if_splits sum.splits value_error.splits dest: kline_bar_escaped)

lemma series_of_other:
  assumes "validate_market_request raw = Some q" and "series_of q payload received_at float_repr = Inl OtherError"
  shows "\<exists>rows row. payload = JList rows \<and> JList row \<in> set rows
    \<and> (stamp_of_json (row ! 0) = Inl Escaped \<or> stamp_of_json (row ! 6) = Inl Escaped)"
proof -
  have q: "asset_pattern (mq_instrument q)" "mq_minimum_bars q \<le> 999"
    using assms(1) by (auto simp: validate_market_request_def split: option.splits if_splits)
  have fine: "validate_series \<lparr>se_provider = provider_name, se_instrument = mq_instrument q, se_timeframe = mq_timeframe q,
      se_as_of = Aware (mq_as_of q) 0, se_bars = last_bars (mq_minimum_bars q) bars\<rparr> \<noteq> None"
    if "bars \<noteq> []" "decode_klines float_repr received_at q rows = Inr bars" "2 \<le> mq_minimum_bars q" for rows bars
  proof -
    have "list_all (bar_of_request q) bars" using decode_klines_Inr [OF that(2)] by blast
    then have "list_all (bar_of_request q) (last_bars (mq_minimum_bars q) bars)"
      by (auto simp: last_bars_def list_all_iff dest: in_set_dropD)
    then have "list_all (\<lambda>b. br_provider b = provider_name \<and> br_instrument b = mq_instrument q
        \<and> br_timeframe b = mq_timeframe q) (last_bars (mq_minimum_bars q) bars)"
      by (auto simp: list_all_iff bar_of_request_def)
    moreover have "1 \<le> length (last_bars (mq_minimum_bars q) bars)" "length (last_bars (mq_minimum_bars q) bars) \<le> 1000"
      using that(1,3) q(2) by (cases bars; simp add: last_bars_def)+
    ultimately show ?thesis
      using q(1) by (simp add: validate_series_def require_utc_def len_between_def provider_name_def)
  qed
  have "2 \<le> mq_minimum_bars q" using assms(1) by (auto simp: validate_market_request_def split: option.splits if_splits)
  note fine' = fine [OF _ _ this]
  obtain rows where rows: "payload = JList rows"
    using assms(2) by (cases payload) (auto simp: series_of_def schema_error_def)
  show ?thesis
  proof (cases "decode_klines float_repr received_at q rows")
    case (Inl e)
    then have "e = OtherError" using assms(2) rows by (simp add: series_of_def)
    with Inl decode_klines_other [of float_repr received_at q rows] rows show ?thesis by auto
  next
    case (Inr bars)
    then have "bars \<noteq> []" using assms(2) rows by (auto simp: series_of_def)
    from fine' [OF this Inr] have False
      using assms(2) rows Inr by (auto simp: series_of_def split: if_splits)
    then show ?thesis ..
  qed
qed

lemma attempts_from_other:
  "snd (attempts_from s random outcome k n) = Inl OtherError \<Longrightarrow> \<exists>j. outcome j = Fatal OtherError"
proof (induction n arbitrary: k)
  case 0
  then show ?case by (auto simp: attempts_from.simps [of s random outcome k] exhausted_def split: attempt.splits)
next
  case (Suc n)
  then show ?case by (auto simp: case_prod_beta split: attempt.splits)
qed

text \<open>Which failures of a market-data request are not provider errors (and so end the analysis
  instead of becoming an abstention): for a validated request only an exception of the HTTP
  library other than a timeout or transport error, bytes that cannot be read as JSON text, or a
  kline whose open or close time is beyond what the platform can represent.\<close>

theorem escaping_errors:
  assumes "validate_market_request raw = Some q" and "get_ohlcv s v q cache = (cache', trace, Inl OtherError)"
  shows "(\<exists>k. attempt_of (ps_max_response_bytes s) (pe_loads v)
        (pe_http v ''/api/v3/klines'' (kline_params q) k) = Fatal OtherError)
    \<or> (\<exists>payload received_at rows row. snd (request_json s v ''/api/v3/klines'' (kline_params q)) = Inr (payload, received_at)
        \<and> payload = JList rows \<and> JList row \<in> set rows
        \<and> (stamp_of_json (row ! 0) = Inl Escaped \<or> stamp_of_json (row ! 6) = Inl Escaped))"
proof (cases "snd (request_json s v ''/api/v3/klines'' (kline_params q))")
  case (Inl e)
  then have "e = OtherError"
    using assms(2) by (auto simp: get_ohlcv_def Let_def split: prod.splits option.splits sum.splits)
  let ?r = "snd (attempts_from s (pe_random v) (\<lambda>k. attempt_of (ps_max_response_bytes s) (pe_loads v)
      (pe_http v ''/api/v3/klines'' (kline_params q) k)) 1 (nat (ps_max_attempts s - 1)))"
  have "snd (request_json s v ''/api/v3/klines'' (kline_params q)) = map_sum id (\<lambda>payload. (payload, pe_received_at v)) ?r"
    by (simp add: request_json_def Let_def case_prod_beta del: attempts_from.simps)
  with Inl \<open>e = OtherError\<close> have "?r = Inl OtherError" by (cases ?r) (simp_all del: attempts_from.simps)
  then show ?thesis using attempts_from_other by blast
next
  case (Inr pr)
  then obtain payload received_at where p: "snd (request_json s v ''/api/v3/klines'' (kline_params q)) = Inr (payload, received_at)"
    by (cases pr) simp
  then have "series_of q payload received_at (pe_float_repr v) = Inl OtherError"
    using assms(2) by (auto simp: get_ohlcv_def Let_def split: prod.splits option.splits sum.splits)
  then show ?thesis using series_of_other [OF assms(1)] p by blast
qed

section \<open>Witnesses\<close>

definition kline_request :: "instant market_request" where
  "kline_request = \<lparr>mq_instrument = ''ETHUSDT'', mq_timeframe = M15, mq_minimum_bars = 2, mq_as_of = seconds 900,
     mq_max_data_age_seconds = 60, mq_closed_only = True\<rparr>"

definition kline_row :: "json_value list" where
  "kline_row = [JInt 0, JStr ''1.5'', JStr ''2'', JStr ''1'', JStr ''1.5'', JStr ''10'', JInt 899999]"

definition sample_exchange :: "json_value \<Rightarrow> provider_env" where
  "sample_exchange payload = \<lparr>pe_http = \<lambda>_ _ _. HttpReply 200 None [''x''] None, pe_loads = \<lambda>_. Loaded payload,
     pe_random = \<lambda>_. 1/2, pe_received_at = seconds 901, pe_float_repr = \<lambda>_. []\<rparr>"

definition empty_cache :: "instant market_series market_cache" where
  "empty_cache = \<lparr>mc_max_entries = 8, mc_entries = []\<rparr>"

lemma sample_request_json:
  "request_json accepted_defaults (sample_exchange payload) path params
     = (\<lparr>rt_requests = 1, rt_sleeps = [], rt_failures = 0\<rparr>, Inr (payload, seconds 901))"
  by (simp add: request_json_def sample_exchange_def attempt_of_def accepted_defaults_def Let_def)

lemma row_decimals:
  "decimal_of_json r (JStr ''1.5'') = Some (Dec (3/2))" "decimal_of_json r (JStr ''2'') = Some (Dec 2)"
  "decimal_of_json r (JStr ''1'') = Some (Dec 1)" "decimal_of_json r (JStr ''10'') = Some (Dec 10)"
  by (code_simp, code_simp, code_simp, code_simp)

lemma row_series: "\<exists>series. series_of kline_request (JList [JList kline_row]) (seconds 901) r = Inr series"
proof -
  have "stamp_of_json (JInt 0) = Inr 0" "stamp_of_json (JInt 899999) = Inr 899999000"
    using stamp_of_millis_exact [of 0] stamp_of_millis_exact [of 899999] by (simp_all add: stamp_of_json_def int_of_json_def)
  moreover have "0 \<le> total_seconds 1000" unfolding total_seconds_def by (intro rnd64_ge) (simp_all add: repr64_0)
  ultimately have "\<exists>b. kline_bar r (seconds 901) kline_request kline_row = Inr (Some b)"
    by (simp add: kline_bar_def kline_row_def kline_request_def row_decimals validate_bar_def require_utc_def
        finite_decimal_def finite_float_def len_between_def provider_name_def asset_pattern_def is_upper_def is_digit_def
        validate_ohlcv_def)
  then obtain b where b: "kline_bar r (seconds 901) kline_request kline_row = Inr (Some b)" by blast
  note ok = kline_bar_of_request [OF b]
  have "decode_klines r (seconds 901) kline_request [JList kline_row] = Inr [b]"
    using b by (simp add: kline_row_def)
  then show ?thesis
    using ok by (simp add: series_of_def validate_series_def require_utc_def len_between_def provider_name_def last_bars_def
        bar_of_request_def kline_request_def asset_pattern_def is_upper_def is_digit_def)
qed

lemma sample_fetch:
  "\<exists>series. get_ohlcv accepted_defaults (sample_exchange (JList [JList kline_row])) kline_request empty_cache
     = (cache_put (cache_key kline_request) series (seconds 900) 10 empty_cache,
        \<lparr>rt_requests = 1, rt_sleeps = [], rt_failures = 0\<rparr>, Inr series)"
proof -
  have "cache_get key t empty_cache = (None, empty_cache)" for key t by (simp add: cache_get_def empty_cache_def)
  then show ?thesis
    using row_series [of "\<lambda>_. []"]
    by (auto simp: get_ohlcv_def sample_request_json sample_exchange_def [THEN arg_cong, of pe_float_repr] Let_def)
       (auto simp: sample_exchange_def kline_request_def accepted_defaults_def)
qed

theorem fetched_series_witness:
  "\<exists>cache trace series. get_ohlcv accepted_defaults (sample_exchange (JList [JList kline_row])) kline_request empty_cache
     = (cache, trace, Inr series) \<and> se_instrument series = ''ETHUSDT'' \<and> list_all (bar_of_request kline_request) (se_bars series)"
proof -
  obtain series where "get_ohlcv accepted_defaults (sample_exchange (JList [JList kline_row])) kline_request empty_cache
     = (cache_put (cache_key kline_request) series (seconds 900) 10 empty_cache,
        \<lparr>rt_requests = 1, rt_sleeps = [], rt_failures = 0\<rparr>, Inr series)" using sample_fetch by blast
  from this fetched_series [OF this] show ?thesis by (simp add: kline_request_def)
qed

theorem cached_again_witness:
  "\<exists>cache series. get_ohlcv accepted_defaults (sample_exchange JNull)
      (kline_request\<lparr>mq_closed_only := False, mq_max_data_age_seconds := 1\<rparr>) cache = (cache, no_trace, Inr series)"
proof -
  obtain cache trace series where "get_ohlcv accepted_defaults (sample_exchange (JList [JList kline_row])) kline_request empty_cache
     = (cache, trace, Inr series)" using sample_fetch by blast
  moreover have "cache_ok empty_cache" by (simp add: cache_ok_def empty_cache_def)
  moreover have "1 \<le> ps_cache_ttl_seconds accepted_defaults" by (simp add: accepted_defaults_def)
  ultimately show ?thesis using cached_again by blast
qed

text \<open>A kline whose open time is far in the future leaves the client as \<open>OSError\<close>.\<close>

lemma huge_stamp: "stamp_of_json (JInt (10 ^ 20)) = Inl Escaped"
  by code_simp

lemma huge_time_escapes:
  "get_ohlcv accepted_defaults (sample_exchange (JList [JList (JInt (10 ^ 20) # tl kline_row)])) kline_request empty_cache
     = (empty_cache, \<lparr>rt_requests = 1, rt_sleeps = [], rt_failures = 0\<rparr>, Inl OtherError)"
proof -
  have "cache_get key t empty_cache = (None, empty_cache)" for key t by (simp add: cache_get_def empty_cache_def)
  moreover have "kline_bar r t q (JInt (10 ^ 20) # tl kline_row) = Inl Escaped" for r t q
    by (simp only: kline_bar_def nth_Cons_0 huge_stamp) simp
  then have "series_of kline_request (JList [JList (JInt (10 ^ 20) # tl kline_row)]) t r = Inl OtherError" for t r
    by (simp add: series_of_def kline_row_def)
  ultimately show ?thesis by (simp add: get_ohlcv_def sample_request_json Let_def)
qed

theorem escaping_errors_witness:
  "\<exists>row. (stamp_of_json (row ! 0) = Inl Escaped \<or> stamp_of_json (row ! 6) = Inl Escaped)
     \<and> snd (request_json accepted_defaults (sample_exchange (JList [JList (JInt (10 ^ 20) # tl kline_row)]))
         ''/api/v3/klines'' (kline_params kline_request)) = Inr (JList [JList row], seconds 901)"
proof -
  let ?v = "sample_exchange (JList [JList (JInt (10 ^ 20) # tl kline_row)])"
  let ?raw = "\<lparr>mq_instrument = ''ETHUSDT'', mq_timeframe = M15, mq_minimum_bars = 2, mq_as_of = Aware (seconds 900) 0,
     mq_max_data_age_seconds = 60, mq_closed_only = True\<rparr>"
  have "validate_market_request ?raw = Some kline_request"
    by (simp add: validate_market_request_def kline_request_def require_utc_def asset_pattern_def is_upper_def is_digit_def)
  from escaping_errors [OF this huge_time_escapes]
  have "(\<exists>k. attempt_of (ps_max_response_bytes accepted_defaults) (pe_loads ?v)
        (pe_http ?v ''/api/v3/klines'' (kline_params kline_request) k) = Fatal OtherError)
    \<or> (\<exists>payload received_at rows row. snd (request_json accepted_defaults ?v ''/api/v3/klines'' (kline_params kline_request))
          = Inr (payload, received_at) \<and> payload = JList rows \<and> JList row \<in> set rows
        \<and> (stamp_of_json (row ! 0) = Inl Escaped \<or> stamp_of_json (row ! 6) = Inl Escaped))" .
  moreover have "attempt_of (ps_max_response_bytes accepted_defaults) (pe_loads ?v) (pe_http ?v path params k) \<noteq> Fatal OtherError"
    for path params k by (simp add: sample_exchange_def attempt_of_def accepted_defaults_def)
  ultimately show ?thesis by (auto simp: sample_request_json)
qed

end
