(* ===== verification/Analytical.thy ===== *)
theory Analytical
  imports Engine Agent_Runtime Binance
begin

text \<open>
  \<open>src/tomiris_agent_runtime/analytical.py\<close>: the handler that answers a task of the hub with the
  signal of an analytical role, and its construction from the settings of the runtime.

  Arguments: \<open>fetch\<close>, the answers of the market data provider to the planned requests, with the
  order \<open>completion\<close> in which they arrive; \<open>fromiso\<close>, \<open>datetime.fromisoformat\<close>; \<open>json_time\<close>,
  pydantic's rendering of a timestamp; the logarithm and the formatting of floats of the engine;
  two readings of the clock and two fresh UUIDs.  An exception that leaves the handler is a
  \<open>feature_error\<close>, which the runtime logs.
\<close>

section \<open>Cutoff\<close>

text \<open>\<open>raw.replace("Z", "+00:00")\<close>\<close>

definition zulu_offset :: "string \<Rightarrow> string" where
  "zulu_offset s = concat (map (\<lambda>c. if c = CHR ''Z'' then ''+00:00'' else [c]) s)"

text \<open>\<open>_analysis_cutoff\<close>; \<open>None\<close> is a \<open>ValueError\<close>.\<close>

definition analysis_cutoff ::
    "(string \<Rightarrow> py_datetime option) \<Rightarrow> instant \<Rightarrow> analysis_task_request \<Rightarrow> instant option" where
  "analysis_cutoff fromiso now task =
     (let raw = (case tr_context task of
                   PyMap entries \<Rightarrow> (case map_of entries (PyStr ''analysis_as_of'') of Some v \<Rightarrow> v | None \<Rightarrow> PyNone)
                 | _ \<Rightarrow> PyNone)
      in case raw of
           PyNone \<Rightarrow> Some (tr_created_at task)
         | PyStr s \<Rightarrow>
             (case fromiso (zulu_offset s) of
                None \<Rightarrow> None
              | Some value \<Rightarrow>
                  (case require_utc value of
                     None \<Rightarrow> None
                   | Some t \<Rightarrow> if now < t then None else Some t))
         | _ \<Rightarrow> None)"

section \<open>Analysis\<close>

record analytical_handler =
  ah_role :: role
  ah_provider_name :: string

text \<open>The inner \<open>try\<close>: a result, the code of a \<open>MarketDataError\<close>, or another exception.\<close>

definition analyze_data ::
    "(rat \<Rightarrow> rat) \<Rightarrow> (nat \<Rightarrow> fl \<Rightarrow> string) \<Rightarrow> role \<Rightarrow>
     (instant market_request list \<Rightarrow> nat \<Rightarrow> market_error + instant market_series) \<Rightarrow> nat list \<Rightarrow>
     analysis_task_request \<Rightarrow> instant \<Rightarrow> feature_error + (string + agent_analysis_result)" where
  "analyze_data ln64 fmt role fetch completion task as_of =
     (let context = \<lparr>ax_task = task, ax_snapshot_id = tr_snapshot_id task, ax_as_of = as_of\<rparr> in
      if \<not> valid_context context then Inl ValueRaised
      else
        case plan_data (cr_definition role) (tr_asset task) as_of of
          None \<Rightarrow> Inl ValueRaised
        | Some requests \<Rightarrow>
            (case collect_market_data completion (fetch requests) (tr_snapshot_id task) as_of requests of
               Inl (MarketDataError code) \<Rightarrow> Inr (Inl code)
             | Inl OtherError \<Rightarrow> Inl OtherRaised
             | Inr (bundle, quality) \<Rightarrow>
                 let input = \<lparr>ri_context = context, ri_market_data = bundle\<rparr> in
                 if \<not> valid_role_input input then Inl ValueRaised
                 else (case snd (engine_analyze ln64 fmt role input) of
                         Inl e \<Rightarrow> Inl e | Inr r \<Rightarrow> Inr (Inr r))))"

text \<open>\<open>_provider_abstention\<close>\<close>

definition provider_abstention ::
    "analytical_handler \<Rightarrow> analysis_task_request \<Rightarrow> instant \<Rightarrow> string \<Rightarrow> feature_error + agent_analysis_result" where
  "provider_abstention h task as_of reason =
     (case validate_analysis_result
        \<lparr>an_analysis_schema_version = ''1'', an_role_id = cr_role_id (ah_role h),
         an_role_version = cr_role_version (ah_role h),
         an_config_version = ad_config_version (cr_definition (ah_role h)),
         an_feature_pipeline_version = pipeline_version, an_snapshot_id = tr_snapshot_id task,
         an_asset = tr_asset task, an_bias = ABSTAIN, an_confidence = Fin 0,
         an_data_quality = (if reason = ''INSUFFICIENT_HISTORY'' then Q_INSUFFICIENT else Q_INVALID),
         an_reason_codes = [reason], an_timeframe_states = [], an_evidence = [], an_data_ranges = [],
         an_data_provider = ah_provider_name h, an_data_as_of = as_of, an_analysis_as_of = as_of\<rparr> of
        None \<Rightarrow> Inl ValueRaised | Some r \<Rightarrow> Inr r)"

section \<open>Signal\<close>

definition quality_text :: "quality \<Rightarrow> string" where
  "quality_text q = (case q of Q_VALID \<Rightarrow> ''VALID'' | Q_DEGRADED \<Rightarrow> ''DEGRADED'' | Q_INVALID \<Rightarrow> ''INVALID''
     | Q_INSUFFICIENT \<Rightarrow> ''INSUFFICIENT'')"

definition volume_text :: "volume_state \<Rightarrow> string" where
  "volume_text v = (case v of RISING \<Rightarrow> ''RISING'' | VOLUME_NORMAL \<Rightarrow> ''NORMAL'' | FALLING \<Rightarrow> ''FALLING'')"

definition evidence_item_of :: "analytical_evidence \<Rightarrow> py_datetime evidence_item" where
  "evidence_item_of e =
     \<lparr>ev_evidence_type = ae_evidence_type e, ev_summary = ae_summary e, ev_source_type = ''public_market_data'',
      ev_source_id = ae_provider e @ '':'' @ ae_instrument e @ '':'' @ timeframe_value (ae_timeframe e),
      ev_provider = ae_provider e, ev_observed_at = Aware (ae_observed_at e) 0,
      ev_source_timestamp = Aware (ae_source_timestamp e) 0, ev_source_fingerprint = None,
      ev_instrument = Some (ae_instrument e), ev_timeframe = Some (timeframe_value (ae_timeframe e)),
      ev_feature_name = Some (ae_feature_name e), ev_feature_version = Some (ae_feature_version e),
      ev_observation = Some (ae_observation e), ev_metadata = PyMap []\<rparr>"

definition state_json :: "timeframe_analysis \<Rightarrow> pyval" where
  "state_json t = PyMap
     [(PyStr ''timeframe'', PyStr (timeframe_value (ta_timeframe t))), (PyStr ''trend'', PyStr (trend_text (ta_trend t))),
      (PyStr ''momentum'', PyStr (momentum_text (ta_momentum t))),
      (PyStr ''volatility'', PyStr (volatility_text (ta_volatility t))),
      (PyStr ''volume_state'', PyStr (volume_text (ta_volume_state t))), (PyStr ''score'', PyFloat (ta_score t))]"

definition range_json :: "(instant \<Rightarrow> string) \<Rightarrow> analysis_data_range \<Rightarrow> pyval" where
  "range_json json_time r = PyMap
     [(PyStr ''provider'', PyStr (dg_provider r)), (PyStr ''instrument'', PyStr (dg_instrument r)),
      (PyStr ''timeframe'', PyStr (timeframe_value (dg_timeframe r))),
      (PyStr ''first_bar_at'', PyStr (json_time (dg_first_bar_at r))),
      (PyStr ''last_bar_at'', PyStr (json_time (dg_last_bar_at r))), (PyStr ''bar_count'', PyInt (dg_bar_count r))]"

definition signal_metadata :: "(instant \<Rightarrow> string) \<Rightarrow> agent_analysis_result \<Rightarrow> pyval" where
  "signal_metadata json_time r = PyMap
     [(PyStr ''data_quality'', PyStr (quality_text (an_data_quality r))),
      (PyStr ''reason_codes'', PySeq (map PyStr (an_reason_codes r))),
      (PyStr ''timeframe_states'', PySeq (map state_json (an_timeframe_states r))),
      (PyStr ''data_ranges'', PySeq (map (range_json json_time) (an_data_ranges r))),
      (PyStr ''analysis_as_of'', PyStr (isoformat (an_analysis_as_of r))),
      (PyStr ''agent_signal_is_trade_decision'', PyBool False)]"

definition max_strength :: "agent_analysis_result \<Rightarrow> rat" where
  "max_strength r = foldr (\<lambda>t m. max \<bar>ta_score t\<bar> m) (an_timeframe_states r) 0"

text \<open>\<open>round(x * 100)\<close>\<close>

definition percent :: "rat \<Rightarrow> int" where
  "percent x = round_half_even (fmul x 100)"

definition signal_envelope_of ::
    "(instant \<Rightarrow> string) \<Rightarrow> uuid \<Rightarrow> uuid \<Rightarrow> instant \<Rightarrow> analysis_task_request \<Rightarrow> agent_analysis_result \<Rightarrow>
     py_datetime signal_envelope" where
  "signal_envelope_of json_time message_id agent_run_id now task r =
     \<lparr>env_protocol_version = ''1.0'', env_message_id = message_id, env_agent_id = tr_agent_id task,
      env_agent_run_id = agent_run_id, env_snapshot_id = tr_snapshot_id task,
      env_task_id = Some (tr_task_id task), env_orchestration_run_id = Some (tr_orchestration_run_id task),
      env_correlation_id = Some (tr_correlation_id task), env_causation_id = Some (tr_task_id task),
      env_asset = tr_asset task, env_bias = an_bias r, env_confidence = percent (an_confidence r),
      env_impact = percent (max_strength r), env_time_horizon = ''multi-timeframe-context'',
      env_evidence = map evidence_item_of (an_evidence r), env_risk_flags = an_reason_codes r,
      env_data_timestamp = Aware (an_data_as_of r) 0, env_analysis_timestamp = Aware now 0,
      env_signal_ttl_seconds = min 300 (max 1 (trunc_rat (total_seconds (tr_deadline task - now)))),
      env_role_id = Some (an_role_id r), env_role_version = Some (an_role_version r),
      env_config_version = Some (an_config_version r),
      env_feature_pipeline_version = Some (an_feature_pipeline_version r),
      env_analysis_schema_version = Some (an_analysis_schema_version r),
      env_data_provider = Some (an_data_provider r), env_data_as_of = Some (Aware (an_data_as_of r) 0),
      env_confidence_model_version = Some ''deterministic-agreement.v1'',
      env_metadata = signal_metadata json_time r\<rparr>"

definition to_signal ::
    "(instant \<Rightarrow> string) \<Rightarrow> uuid \<Rightarrow> uuid \<Rightarrow> instant \<Rightarrow> analysis_task_request \<Rightarrow> agent_analysis_result \<Rightarrow>
     feature_error + agent_signal" where
  "to_signal json_time message_id agent_run_id now task r =
     (case validate_signal (signal_envelope_of json_time message_id agent_run_id now task r) of
        None \<Rightarrow> Inl ValueRaised | Some sig \<Rightarrow> Inr sig)"

section \<open>The handler\<close>

datatype analysis_counter = AnalysisTotal | AnalysisFailure | AnalysisAbstain

definition result_counters :: "agent_analysis_result \<Rightarrow> analysis_counter list" where
  "result_counters r =
     (if an_bias r = ABSTAIN
      then AnalysisAbstain # (if ''FEATURE_FAILURE'' \<in> set (an_reason_codes r) then [AnalysisFailure] else [])
      else [])"

text \<open>What the environment supplies to one analysis.\<close>

record analysis_env =
  av_ln64 :: "rat \<Rightarrow> rat"
  av_format :: "nat \<Rightarrow> fl \<Rightarrow> string"
  av_json_time :: "instant \<Rightarrow> string"
  av_fromiso :: "string \<Rightarrow> py_datetime option"
  av_fetch :: "instant market_request list \<Rightarrow> nat \<Rightarrow> market_error + instant market_series"
  av_completion :: "nat list"
  av_cutoff_clock :: instant
  av_signal_clock :: instant
  av_message_id :: uuid
  av_agent_run_id :: uuid

definition finish_analysis ::
    "analysis_env \<Rightarrow> analysis_task_request \<Rightarrow> agent_analysis_result \<Rightarrow> feature_error + agent_signal" where
  "finish_analysis v task r =
     to_signal (av_json_time v) (av_message_id v) (av_agent_run_id v) (av_signal_clock v) task r"

text \<open>\<open>analyze\<close>: the counters that are incremented, in order, and the signal or the exception.\<close>

definition analyze_task ::
    "analysis_env \<Rightarrow> analytical_handler \<Rightarrow> analysis_task_request \<Rightarrow>
     analysis_counter list \<times> (feature_error + agent_signal)" where
  "analyze_task v h task =
     (if tr_agent_id task \<noteq> ad_agent_id (cr_definition (ah_role h)) then ([AnalysisTotal], Inl ValueRaised)
      else
        case analysis_cutoff (av_fromiso v) (av_cutoff_clock v) task of
          None \<Rightarrow> ([AnalysisTotal], Inl ValueRaised)
        | Some as_of \<Rightarrow>
            (case analyze_data (av_ln64 v) (av_format v) (ah_role h) (av_fetch v) (av_completion v) task as_of of
               Inl e \<Rightarrow> ([AnalysisTotal], Inl e)
             | Inr (Inl code) \<Rightarrow>
                 (case provider_abstention h task as_of code of
                    Inl e \<Rightarrow> ([AnalysisTotal, AnalysisFailure], Inl e)
                  | Inr r \<Rightarrow> ([AnalysisTotal, AnalysisFailure] @ result_counters r, finish_analysis v task r))
             | Inr (Inr r) \<Rightarrow> (AnalysisTotal # result_counters r, finish_analysis v task r)))"

section \<open>Construction\<close>

datatype build_error =
    DefinitionPathMissing
  | DefinitionRejected loader_error
  | AgentIdDiffers
  | RoleDiffers
  | CapabilitiesDiffer
  | AssetsDiffer
  | RoleRejected registry_error
  | ProviderSettingsRejected

definition provider_settings_of :: "market_data_settings \<Rightarrow> fl provider_settings" where
  "provider_settings_of m =
     \<lparr>ps_base_url = md_base_url m, ps_connect_timeout_seconds = md_connect_timeout_seconds m,
      ps_read_timeout_seconds = md_read_timeout_seconds m, ps_max_attempts = md_max_attempts m,
      ps_retry_base_seconds = md_retry_base_seconds m, ps_retry_max_seconds = md_retry_max_seconds m,
      ps_max_response_bytes = md_max_response_bytes m, ps_max_concurrency = md_max_concurrency m,
      ps_cache_ttl_seconds = md_cache_ttl_seconds m, ps_allow_insecure_localhost = md_allow_insecure_localhost m,
      ps_allowed_host_suffixes = [''binance.com'', ''binance.us'']\<rparr>"

text \<open>\<open>build_analytical_handler\<close>; \<open>read_yaml\<close> reads the file at a path.\<close>

definition build_analytical_handler ::
    "(pyval \<Rightarrow> technical_config option) \<Rightarrow> (string \<Rightarrow> agent_definition option) \<Rightarrow> runtime_settings \<Rightarrow>
     build_error + analytical_handler" where
  "build_analytical_handler config read_yaml s =
     (case as_definition_path s of
        None \<Rightarrow> Inl DefinitionPathMissing
      | Some path \<Rightarrow>
          (case load_definition (snd (builtin_registry config)) read_yaml path of
             Inl e \<Rightarrow> Inl (DefinitionRejected e)
           | Inr d \<Rightarrow>
               if ad_agent_id d \<noteq> as_agent_id s then Inl AgentIdDiffers
               else if ad_role_id d \<noteq> as_agent_role s then Inl RoleDiffers
               else if set (ad_capabilities d) \<noteq> set (settings_capabilities s) then Inl CapabilitiesDiffer
               else if set (ad_supported_assets d) \<noteq> set (settings_supported_assets s) then Inl AssetsDiffer
               else (case builtin_build config d of
                       Inl e \<Rightarrow> Inl (RoleRejected e)
                     | Inr role \<Rightarrow>
                         if validate_provider_settings (provider_settings_of (as_market_data s)) = None
                         then Inl ProviderSettingsRejected
                         else Inr \<lparr>ah_role = role, ah_provider_name = provider_name\<rparr>)))"

section \<open>Inversion of the steps\<close>

lemma to_signal_Inr:
  assumes "to_signal json_time mid rid now task r = Inr sig"
  shows "valid_signal sig" "env_bias sig = an_bias r" "env_agent_id sig = tr_agent_id task"
    "env_snapshot_id sig = tr_snapshot_id task" "env_task_id sig = Some (tr_task_id task)"
    "env_orchestration_run_id sig = Some (tr_orchestration_run_id task)"
    "env_correlation_id sig = Some (tr_correlation_id task)" "env_causation_id sig = Some (tr_task_id task)"
    "env_asset sig = tr_asset task" "env_confidence sig = percent (an_confidence r)"
    "env_risk_flags sig = an_reason_codes r" "env_data_timestamp sig = an_data_as_of r"
    "env_data_as_of sig = Some (an_data_as_of r)" "env_analysis_timestamp sig = now" "env_message_id sig = mid"
    "env_signal_ttl_seconds sig = min 300 (max 1 (trunc_rat (total_seconds (tr_deadline task - now))))"
    "length (env_evidence sig) = length (an_evidence r)" "env_data_provider sig = Some (an_data_provider r)"
proof -
  have v: "validate_signal (signal_envelope_of json_time mid rid now task r) = Some sig"
    using assms by (auto simp: to_signal_def split: option.splits)
  show "valid_signal sig" using v by (rule validate_signal_valid)
  show "env_bias sig = an_bias r" "env_agent_id sig = tr_agent_id task"
    "env_snapshot_id sig = tr_snapshot_id task" "env_task_id sig = Some (tr_task_id task)"
    "env_orchestration_run_id sig = Some (tr_orchestration_run_id task)"
    "env_correlation_id sig = Some (tr_correlation_id task)" "env_causation_id sig = Some (tr_task_id task)"
    "env_asset sig = tr_asset task" "env_confidence sig = percent (an_confidence r)"
    "env_risk_flags sig = an_reason_codes r" "env_data_timestamp sig = an_data_as_of r"
    "env_data_as_of sig = Some (an_data_as_of r)" "env_analysis_timestamp sig = now" "env_message_id sig = mid"
    "env_signal_ttl_seconds sig = min 300 (max 1 (trunc_rat (total_seconds (tr_deadline task - now))))"
    "length (env_evidence sig) = length (an_evidence r)" "env_data_provider sig = Some (an_data_provider r)"
    using v by (auto simp: validate_signal_def signal_envelope_of_def require_utc_def Let_def
        dest: length_sequence_opt split: option.splits if_splits)
qed

lemma provider_abstention_Inr:
  assumes "provider_abstention h task as_of code = Inr r"
  shows "an_bias r = ABSTAIN" "an_confidence r = 0" "an_reason_codes r = [code]" "an_evidence r = []"
    "an_timeframe_states r = []" "an_data_as_of r = as_of" "an_data_ranges r = []"
    "an_role_id r = cr_role_id (ah_role h)" "an_role_version r = cr_role_version (ah_role h)"
    "an_config_version r = ad_config_version (cr_definition (ah_role h))" "an_analysis_schema_version r = ''1''"
    "an_feature_pipeline_version r = pipeline_version" "an_data_provider r = ah_provider_name h"
    "an_analysis_as_of r = as_of" "an_data_quality r \<in> {Q_INVALID, Q_INSUFFICIENT}"
  using assms
  by (auto simp: provider_abstention_def validate_analysis_result_def finite_float_def split: option.splits if_splits)

lemma provider_abstention_total: "\<exists>r. provider_abstention h task as_of code = Inr r"
  by (simp add: provider_abstention_def validate_analysis_result_def finite_float_def)

lemma sequence_opt_member: "sequence_opt xs = Some ys \<Longrightarrow> y \<in> set ys \<Longrightarrow> Some y \<in> set xs"
  by (induction xs arbitrary: ys) (auto split: option.splits)

lemma planned_requests_validated:
  assumes "plan_data d asset as_of = Some requests"
  shows "list_all (\<lambda>q. \<exists>raw. validate_market_request raw = Some q) requests"
    and "\<forall>q\<in>set requests. mq_as_of q = as_of" and "length requests \<le> length (ad_required_data d)"
proof -
  let ?relevant = "filter (\<lambda>r. rd_instrument r = asset) (ad_required_data d)"
  have seq: "sequence_opt (map (\<lambda>r. validate_market_request (requirement_request as_of r)) ?relevant) = Some requests"
    using assms by (auto simp: plan_data_def Let_def split: if_splits)
  have from_requirement: "\<exists>r. validate_market_request (requirement_request as_of r) = Some q" if "q \<in> set requests" for q
    using sequence_opt_member [OF seq that] by auto
  then show "list_all (\<lambda>q. \<exists>raw. validate_market_request raw = Some q) requests" by (auto simp: list_all_iff)
  show "\<forall>q\<in>set requests. mq_as_of q = as_of"
  proof
    fix q assume "q \<in> set requests"
    then obtain r where "validate_market_request (requirement_request as_of r) = Some q" using from_requirement by blast
    then show "mq_as_of q = as_of"
      by (auto simp: validate_market_request_def requirement_request_def require_utc_def split: if_splits)
  qed
  show "length requests \<le> length (ad_required_data d)"
    using length_sequence_opt [OF seq] by (simp add: length_filter_le)
qed

lemma analyze_data_Inr:
  assumes "analyze_data ln64 fmt role fetch completion task as_of = Inr (Inr r)"
  obtains requests b quality failed input where
    "plan_data (cr_definition role) (tr_asset task) as_of = Some requests"
    "collect_market_data completion (fetch requests) (tr_snapshot_id task) as_of requests = Inr (b, quality)"
    "input = \<lparr>ri_context = \<lparr>ax_task = task, ax_snapshot_id = tr_snapshot_id task, ax_as_of = as_of\<rparr>,
       ri_market_data = b\<rparr>"
    "engine_analyze ln64 fmt role input = (failed, Inr r)"
  using assms
  by (auto simp: analyze_data_def Let_def split: option.splits sum.splits market_error.splits if_splits)
    (metis prod.collapse)

lemma analyze_task_Inr:
  assumes "analyze_task v h task = (counters, Inr sig)"
  obtains as_of r where "analysis_cutoff (av_fromiso v) (av_cutoff_clock v) task = Some as_of"
    "tr_agent_id task = ad_agent_id (cr_definition (ah_role h))" "finish_analysis v task r = Inr sig"
    "(\<exists>code. analyze_data (av_ln64 v) (av_format v) (ah_role h) (av_fetch v) (av_completion v) task as_of = Inr (Inl code)
       \<and> provider_abstention h task as_of code = Inr r)
     \<or> analyze_data (av_ln64 v) (av_format v) (ah_role h) (av_fetch v) (av_completion v) task as_of = Inr (Inr r)"
  using assms by (auto simp: analyze_task_def split: if_splits option.splits sum.splits)

section \<open>Results that fit an envelope\<close>

definition presentable :: "agent_analysis_result \<Rightarrow> bool" where
  "presentable r \<longleftrightarrow>
     0 \<le> an_confidence r \<and> an_confidence r \<le> 1
     \<and> list_all valid_timeframe_analysis (an_timeframe_states r) \<and> length (an_timeframe_states r) \<le> 20
     \<and> list_all valid_analytical_evidence (an_evidence r) \<and> length (an_evidence r) \<le> 20
     \<and> list_all valid_data_range (an_data_ranges r) \<and> length (an_data_ranges r) \<le> 50
     \<and> list_all (\<lambda>c. length c \<le> 128) (an_reason_codes r) \<and> length (an_reason_codes r) \<le> 20
     \<and> length (an_role_id r) \<le> 64 \<and> length (an_role_version r) \<le> 32 \<and> length (an_config_version r) \<le> 32
     \<and> length (an_feature_pipeline_version r) \<le> 64 \<and> length (an_analysis_schema_version r) \<le> 16
     \<and> length (an_data_provider r) \<le> 128"

lemma percent_range:
  assumes "0 \<le> x" and "x \<le> 1"
  shows "0 \<le> percent x \<and> percent x \<le> 100"
proof -
  have "0 \<le> rnd64 (x * 100)" using assms by (intro rnd64_nonneg) simp
  moreover have "rnd64 (x * 100) \<le> 100" using assms repr64_of_int [of 100] by (intro rnd64_le) simp_all
  ultimately show ?thesis
    unfolding percent_def fmul_def by (auto intro!: rhe_ge_int rhe_le_int)
qed

lemma percent_0 [simp]: "percent 0 = 0"
  by (simp add: percent_def fmul_def round_half_even_def)

lemma max_strength_range:
  assumes "list_all valid_timeframe_analysis (an_timeframe_states r)"
  shows "0 \<le> max_strength r \<and> max_strength r \<le> 1"
proof -
  have "0 \<le> foldr (\<lambda>t m. max \<bar>ta_score t\<bar> m) ts 0 \<and> foldr (\<lambda>t m. max \<bar>ta_score t\<bar> m) ts 0 \<le> 1"
    if "list_all valid_timeframe_analysis ts" for ts
    using that by (induction ts) (auto simp: valid_timeframe_analysis_def abs_le_iff max_def)
  with assms show ?thesis by (simp add: max_strength_def)
qed

lemma timeframe_value_short: "length (timeframe_value t) \<le> 3"
  by (cases t) (simp_all add: timeframe_value_def)

lemma default_limit_values: "max_depth default_limits = Suc (Suc (Suc (Suc 0)))" "max_items default_limits = 50"
  "max_string_length default_limits = 2000"
  by (simp_all add: default_limits_def)

lemma evidence_fits:
  assumes "valid_analytical_evidence e"
  shows "validate_evidence (evidence_item_of e) \<noteq> None"
proof -
  have "bounded_dict default_limits (PyMap [])"
    by (simp add: bounded_dict_def validate_accepts_iff default_limit_values)
  with assms timeframe_value_short [of "ae_timeframe e"] show ?thesis
    by (auto simp: validate_evidence_def evidence_item_of_def require_utc_def valid_analytical_evidence_def
        len_between_def opt_max_def max_evidence_summary_def)
qed

lemma sequence_opt_all: "list_all (\<lambda>x. x \<noteq> None) xs \<Longrightarrow> \<exists>ys. sequence_opt xs = Some ys"
  by (induction xs) auto

lemma isoformat_short: "length (isoformat t) \<le> 2000"
proof -
  obtain y m d where "civil_of_days (t div (86400 * us_per_second)) = (y, m, d)" by (metis prod.exhaust)
  then show ?thesis by (simp add: isoformat_def Let_def del: digits_fixed.simps)
qed

lemma texts_short: "length (quality_text q) \<le> 2000" "length (trend_text t) \<le> 2000" "length (momentum_text m) \<le> 2000"
  "length (volatility_text v) \<le> 2000" "length (volume_text u) \<le> 2000" "length (timeframe_value f) \<le> 2000"
  by (simp_all add: quality_text_def trend_text_def momentum_text_def volatility_text_def volume_text_def
      timeframe_value_def split: quality.split trend_state.split momentum_state.split volatility_state.split
      volume_state.split timeframe.split)

lemma metadata_fits:
  assumes "presentable r" and "\<forall>t. length (json_time t) \<le> 2000"
  shows "bounded_dict default_limits (signal_metadata json_time r)"
proof -
  let ?fits = "well_bounded default_limits (Suc (Suc 0))"
  have states: "\<forall>s\<in>set (map state_json (an_timeframe_states r)). ?fits s"
    by (auto simp: state_json_def default_limit_values texts_short)
  have ranges: "\<forall>s\<in>set (map (range_json json_time) (an_data_ranges r)). ?fits s"
    using assms by (auto simp: range_json_def default_limit_values texts_short presentable_def list_all_iff
        valid_data_range_def len_between_def)
  have reasons: "\<forall>s\<in>set (map PyStr (an_reason_codes r)). ?fits s"
    using assms(1) by (auto simp: presentable_def list_all_iff default_limit_values)
  have lens: "length (an_timeframe_states r) \<le> 50" "length (an_data_ranges r) \<le> 50" "length (an_reason_codes r) \<le> 50"
    using assms(1) by (simp_all add: presentable_def)
  show ?thesis
    using states ranges reasons lens isoformat_short [of "an_analysis_as_of r"] texts_short(1) [of "an_data_quality r"]
    by (simp add: bounded_dict_def signal_metadata_def validate_accepts_iff default_limit_values)
qed

text \<open>A presentable result always becomes a signal, for a valid task and data that are not newer than
  the clock.\<close>

lemma presentable_to_signal:
  assumes "presentable r" and "\<forall>t. length (json_time t) \<le> 2000"
    and "agent_id_pattern (tr_agent_id task)" and "asset_pattern (tr_asset task)" and "an_data_as_of r \<le> now"
  shows "\<exists>sig. to_signal json_time mid rid now task r = Inr sig \<and> env_impact sig = percent (max_strength r)"
proof -
  let ?e = "signal_envelope_of json_time mid rid now task r"
  note p = assms(1) [unfolded presentable_def]
  have pc: "0 \<le> percent (an_confidence r) \<and> percent (an_confidence r) \<le> 100" using p by (intro percent_range) simp_all
  have pi: "0 \<le> percent (max_strength r) \<and> percent (max_strength r) \<le> 100"
    using max_strength_range [of r] p by (intro percent_range) simp_all
  have fields: "signal_fields_ok ?e"
    using p pc pi assms(3,4) metadata_fits [OF assms(1,2)]
    by (simp add: signal_fields_ok_def signal_envelope_of_def max_evidence_items_def len_between_def opt_max_def)
  have "list_all (\<lambda>x. x \<noteq> None) (map validate_evidence (env_evidence ?e))"
    using p evidence_fits by (auto simp: signal_envelope_of_def list_all_iff simp del: not_None_eq)
  then obtain es where es: "sequence_opt (map validate_evidence (env_evidence ?e)) = Some es"
    using sequence_opt_all by blast
  have "env_data_timestamp ?e = Aware (an_data_as_of r) 0" "env_analysis_timestamp ?e = Aware now 0"
    "env_data_as_of ?e = Some (Aware (an_data_as_of r) 0)" by (simp_all add: signal_envelope_of_def)
  with es fields assms(5) show ?thesis
    by (simp add: to_signal_def validate_signal_def require_utc_def Let_def validate_task_lineage_def
        analytical_fields_def signal_envelope_of_def)
qed

lemma abstention_presentable:
  assumes "provider_abstention h task as_of code = Inr r" and "builtin_build config d = Inr (ah_role h)"
    and "valid_definition d" and "length code \<le> 128" and "length (ah_provider_name h) \<le> 128"
  shows "presentable r"
proof -
  note f = provider_abstention_Inr [OF assms(1)]
  have role: "cr_definition (ah_role h) = d" "cr_role_id (ah_role h) = ad_role_id d" "cr_role_version (ah_role h) = ''1.0.0''"
    using assms(2) by (auto simp: builtin_build_Inr)
  have "length (ad_role_id d) \<le> 64" "length (ad_config_version d) \<le> 32"
    using valid_definition_facts(6,7) [OF assms(3)]
    by (auto simp: role_id_pattern_def len_between_def split: list.splits)
  with assms(4,5) show ?thesis by (simp add: presentable_def f role pipeline_version_def)
qed

lemma data_ranges_valid:
  assumes "data_ranges ss = Some ranges"
  shows "list_all valid_data_range ranges"
proof -
  have "valid_data_range r" if "r \<in> set ranges" for r
    using sequence_opt_member [OF assms [unfolded data_ranges_def] that] by (auto simp: Let_def split: if_splits)
  then show ?thesis by (simp add: list_all_iff)
qed

lemma scored_states_valid:
  "list_all2 (\<lambda>s t. \<exists>es. analyze_timeframe ln64 fmt ty c s = Inr (t, es)) ss ts \<Longrightarrow> list_all valid_timeframe_analysis ts"
  by (induction rule: list_all2_induct) (auto dest: analyze_timeframe_Inr(2))

lemma engine_presentable:
  assumes "engine_analyze ln64 fmt role i = (failed, Inr r)" and "builtin_build config d = Inr role"
    and "valid_definition d" and "length (provider_names (input_series i)) \<le> 128"
  shows "presentable r"
proof -
  have role: "cr_definition role = d" "cr_role_version role = ''1.0.0''" using assms(2) by (auto simp: builtin_build_Inr)
  have "length (ad_role_id d) \<le> 64" "length (ad_config_version d) \<le> 32"
    using valid_definition_facts(6,7) [OF assms(3)]
    by (auto simp: role_id_pattern_def len_between_def split: list.splits)
  then have stamp: "length (an_role_id r) \<le> 64 \<and> length (an_role_version r) \<le> 32 \<and> length (an_config_version r) \<le> 32
     \<and> length (an_feature_pipeline_version r) \<le> 64 \<and> length (an_analysis_schema_version r) \<le> 16
     \<and> length (an_data_provider r) \<le> 128"
    using engine_stamp [OF assms(1)] assms(4) by (auto simp: stamped_def role pipeline_version_def)
  show ?thesis
    using assms(1)
  proof (cases rule: engine_analyze_cases)
    case (abstained reason q)
    have "length (an_data_ranges r) \<le> 50" "list_all valid_data_range (an_data_ranges r)"
      using abstained(1) by (auto simp: abstain_result_def Let_def validate_analysis_result_def
          split: option.splits if_splits dest: data_ranges_valid)
    then show ?thesis
      using stamp abstained(2) abstain_result_Inr [OF abstained(1)] by (auto simp: presentable_def)
  next
    case (scored ws)
    note s = scored(1) [unfolded scored_result_def Let_def]
    have "list_all valid_timeframe_analysis (an_timeframe_states r)" using s by (elim conjE) (rule scored_states_valid)
    moreover have "list_all valid_data_range (an_data_ranges r)" using s by (elim conjE) (rule data_ranges_valid)
    moreover have "an_reason_codes r = reason_codes (cr_config role) (an_timeframe_states r) ws" using s by (elim conjE)
    then have "list_all (\<lambda>c. length c \<le> 128) (an_reason_codes r)" "length (an_reason_codes r) \<le> 20"
      by (simp_all add: reason_codes_def)
    ultimately show ?thesis using s stamp by (simp add: presentable_def)
  qed
qed

section \<open>Properties\<close>

lemma max_close_le:
  assumes "ss \<noteq> []" and "\<forall>s\<in>set ss. se_bars s \<noteq> [] \<and> (\<forall>b\<in>set (se_bars s). br_close_time b \<le> as_of)"
  shows "Max (set (close_times ss)) \<le> as_of"
  using assms by (auto simp: close_times_def intro!: Max.boundedI)

text \<open>C8 No signal without data, no look-ahead: for a validated definition, whenever the handler of
  an analytical agent emits anything but an abstention, every request that the definition plans for the
  task's asset at the cutoff was answered by the provider with a series that is clean for it;
  these series are exactly the required instruments and timeframes, all of the task's asset; no
  bar of them closes after the cutoff, and the signal's data timestamp is the close of the latest
  bar.  The signal is valid and carries the lineage of the task.\<close>

theorem signal_is_grounded:
  assumes "analyze_task v h task = (counters, Inr sig)" and "env_bias sig \<noteq> ABSTAIN"
    and "valid_definition (cr_definition (ah_role h))" and "{..<50} \<subseteq> set (av_completion v)"
  shows "\<exists>as_of requests ss.
      analysis_cutoff (av_fromiso v) (av_cutoff_clock v) task = Some as_of
    \<and> plan_data (cr_definition (ah_role h)) (tr_asset task) as_of = Some requests
    \<and> list_all2 clean_series ss requests
    \<and> (\<forall>i<length requests. av_fetch v requests i = Inr (ss ! i))
    \<and> set (series_keys ss) = set (required_keys (cr_definition (ah_role h)))
    \<and> (\<forall>s\<in>set ss. se_instrument s = tr_asset task \<and> (\<forall>b\<in>set (se_bars s). br_close_time b \<le> as_of))
    \<and> env_data_timestamp sig = Max (set (close_times ss)) \<and> env_data_timestamp sig \<le> as_of
    \<and> valid_signal sig \<and> env_agent_id sig = ad_agent_id (cr_definition (ah_role h))
    \<and> env_task_id sig = Some (tr_task_id task) \<and> env_snapshot_id sig = tr_snapshot_id task
    \<and> env_orchestration_run_id sig = Some (tr_orchestration_run_id task) \<and> env_asset sig = tr_asset task"
  using assms(1)
proof (cases rule: analyze_task_Inr)
  case (1 as_of r)
  note sig = to_signal_Inr [OF 1(3) [unfolded finish_analysis_def]]
  have bias: "an_bias r \<noteq> ABSTAIN" using assms(2) sig(2) by simp
  then have data: "analyze_data (av_ln64 v) (av_format v) (ah_role h) (av_fetch v) (av_completion v) task as_of = Inr (Inr r)"
    using 1(4) provider_abstention_Inr(1) by auto
  let ?d = "cr_definition (ah_role h)"
  from data show ?thesis
  proof (cases rule: analyze_data_Inr)
    case c: (1 requests b quality failed i)
    have "length requests \<le> 50"
      using planned_requests_validated(3) [OF c(1)] valid_definition_facts(9) [OF assms(3)] by simp
    then have "{..<length requests} \<subseteq> set (av_completion v)" using assms(4) by auto
    note clean = collect_market_data_clean [OF c(2) this planned_requests_validated(1) [OF c(1)]]
    from c(4) obtain ws where ws: "scored_result (av_ln64 v) (av_format v) (ah_role h) i ws r"
    proof (cases rule: engine_analyze_cases)
      case (abstained reason q)
      then show thesis using abstain_result_Inr(1) bias by blast
    qed (use that in blast)
    have i: "input_series i = mb_series b" "role_asset i = tr_asset task"
      unfolding c(3) by (simp_all add: input_series_def role_asset_def)
    note s = ws [unfolded scored_result_def Let_def i]
    have bars: "\<forall>x\<in>set (mb_series b). se_bars x \<noteq> [] \<and> (\<forall>bar\<in>set (se_bars x). br_close_time bar \<le> as_of)"
    proof
      fix x assume "x \<in> set (mb_series b)"
      then obtain k where k: "k < length (mb_series b)" "x = mb_series b ! k" by (auto simp: in_set_conv_nth)
      with clean have q: "clean_series x (requests ! k)" "requests ! k \<in> set requests"
        by (auto simp: list_all2_conv_all_nth)
      have "1 \<le> mq_minimum_bars (requests ! k)" using q(2) planned_requests_validated(1) [OF c(1)] validated_request_sane
        by (auto simp: list_all_iff sane_request_def)
      moreover have "mq_as_of (requests ! k) = as_of" using q(2) planned_requests_validated(2) [OF c(1)] by blast
      ultimately show "se_bars x \<noteq> [] \<and> (\<forall>bar\<in>set (se_bars x). br_close_time bar \<le> as_of)"
        using q(1) by (auto simp: clean_series_def list_all_iff)
    qed
    have "mb_series b \<noteq> []" using s by (elim conjE)
    from max_close_le [OF this bars] have "an_data_as_of r \<le> as_of" using s by simp
    with s bars clean show ?thesis
      by (intro exI [of _ as_of] exI [of _ requests] exI [of _ "mb_series b"]) (simp add: 1(1,2) c(1) sig)
  qed
qed

text \<open>C32 Bad data is an abstention, not silence and not an opinion: when collecting the planned
  data fails with a market data error of some code, a role that the registry built for a validated
  definition answers a valid task with a signal that abstains with confidence and impact zero, no
  evidence and exactly that code as its only risk flag, and counts the failure and the
  abstention; this needs that the cutoff does not lie after the reading of the clock.\<close>

theorem market_error_abstains:
  assumes "validate_task_request raw = Some task" and "tr_agent_id task = ad_agent_id d"
    and "analysis_cutoff (av_fromiso v) (av_cutoff_clock v) task = Some as_of" and "as_of \<le> av_signal_clock v"
    and "valid_definition d" and "builtin_build config d = Inr role" and "length provider \<le> 128"
    and "plan_data d (tr_asset task) as_of = Some requests"
    and "collect_market_data (av_completion v) (av_fetch v requests) (tr_snapshot_id task) as_of requests
      = Inl (MarketDataError code)" and "length code \<le> 128" and "code \<noteq> ''FEATURE_FAILURE''"
    and "\<forall>t. length (av_json_time v t) \<le> 2000"
  shows "\<exists>sig. analyze_task v \<lparr>ah_role = role, ah_provider_name = provider\<rparr> task
      = ([AnalysisTotal, AnalysisFailure, AnalysisAbstain], Inr sig)
    \<and> env_bias sig = ABSTAIN \<and> env_confidence sig = 0 \<and> env_impact sig = 0 \<and> env_evidence sig = []
    \<and> env_risk_flags sig = [code] \<and> env_task_id sig = Some (tr_task_id task)"
proof -
  let ?h = "\<lparr>ah_role = role, ah_provider_name = provider\<rparr>"
  have role: "cr_definition role = d" "cr_role_id role = ad_role_id d" "cr_role_version role = ''1.0.0''"
    using assms(6) by (auto simp: builtin_build_Inr)
  have data: "analyze_data (av_ln64 v) (av_format v) role (av_fetch v) (av_completion v) task as_of = Inr (Inl code)"
    using assms(8,9) by (simp add: analyze_data_def valid_context_def role Let_def)
  obtain r where r: "provider_abstention ?h task as_of code = Inr r" using provider_abstention_total by blast
  note f = provider_abstention_Inr [OF r]
  have counters: "result_counters r = [AnalysisAbstain]" using assms(11) by (simp add: result_counters_def f)
  have task: "agent_id_pattern (tr_agent_id task)" "asset_pattern (tr_asset task)"
    using assms(1) by (auto simp: validate_task_request_def split: option.splits if_splits)
  have "presentable r"
    using abstention_presentable [OF r _ assms(5,10), of config] assms(6,7) by simp
  moreover have "an_data_as_of r \<le> av_signal_clock v" using assms(4) by (simp add: f)
  ultimately obtain sig where fin: "finish_analysis v task r = Inr sig" "env_impact sig = percent (max_strength r)"
    using presentable_to_signal [OF _ assms(12) task] unfolding finish_analysis_def by blast
  note t = to_signal_Inr [OF fin(1) [unfolded finish_analysis_def]]
  have "env_evidence sig = []" using t(17) by (simp add: f)
  moreover have "max_strength r = 0" by (simp add: max_strength_def f)
  moreover
  have "analyze_task v ?h task = ([AnalysisTotal, AnalysisFailure, AnalysisAbstain], Inr sig)"
    using assms(2,3) by (simp add: analyze_task_def role data r counters fin(1))
  ultimately show ?thesis by (intro exI [of _ sig]) (simp add: t f fin(2))
qed

text \<open>A runtime only runs the role it is configured for: the handler built from the settings
  uses a definition that passed its validation, is enabled, names the runtime's own agent
  identifier and role, has the same capabilities and assets as the settings, and covers exactly one
  asset, the one of the built-in plugin, which is also the instrument of all its data requirements;
  the settings of its exchange client have passed their validation.\<close>

theorem built_handler_matches:
  assumes "build_analytical_handler config read_yaml s = Inr h"
  shows "valid_definition (cr_definition (ah_role h)) \<and> ad_enabled (cr_definition (ah_role h))
    \<and> ad_agent_id (cr_definition (ah_role h)) = as_agent_id s \<and> ad_role_id (cr_definition (ah_role h)) = as_agent_role s
    \<and> set (ad_capabilities (cr_definition (ah_role h))) = set (settings_capabilities s)
    \<and> (\<exists>asset. builtin_asset (as_agent_role s) = Some asset \<and> set (settings_supported_assets s) = {asset}
        \<and> (\<forall>r\<in>set (ad_required_data (cr_definition (ah_role h))). rd_instrument r = asset))
    \<and> (\<exists>p. validate_provider_settings (provider_settings_of (as_market_data s)) = Some p)"
proof -
  obtain path d role where l: "load_definition (snd (builtin_registry config)) read_yaml path = Inr d"
    and d: "ad_agent_id d = as_agent_id s" "ad_role_id d = as_agent_role s"
      "set (ad_capabilities d) = set (settings_capabilities s)"
      "set (ad_supported_assets d) = set (settings_supported_assets s)"
    and role: "builtin_build config d = Inr role" and h: "ah_role h = role"
    using assms by (auto simp: build_analytical_handler_def split: option.splits sum.splits if_splits)
  have valid: "valid_definition d"
    using l by (auto simp: load_definition_def valid_definition_def split: option.splits sum.splits)
  from role have "cr_definition role = d" by (auto simp: builtin_build_Inr)
  with h have hd: "cr_definition (ah_role h) = d" by simp
  obtain asset where a: "builtin_asset (ad_role_id d) = Some asset" "ad_supported_assets d = [asset]" "ad_enabled d"
    using role by (auto simp: builtin_build_Inr)
  have "rd_instrument ` set (ad_required_data d) \<subseteq> {asset}"
    using valid_definition_facts(2) [OF valid] a(2) by (simp add: definition_consistent_def)
  moreover have "\<exists>p. validate_provider_settings (provider_settings_of (as_market_data s)) = Some p"
    using assms by (auto simp: build_analytical_handler_def split: option.splits sum.splits if_splits)
  ultimately show ?thesis unfolding hd using valid d a by auto
qed

section \<open>Witnesses\<close>

definition eth_env :: "(instant market_request list \<Rightarrow> nat \<Rightarrow> market_error + instant market_series) \<Rightarrow> analysis_env" where
  "eth_env fetch =
     \<lparr>av_ln64 = \<lambda>x. x - 1, av_format = plain_format, av_json_time = \<lambda>_. ''2024'', av_fromiso = \<lambda>_. None,
      av_fetch = fetch, av_completion = [0..<50], av_cutoff_clock = seconds 9000, av_signal_clock = seconds 9001,
      av_message_id = 1, av_agent_run_id = 2\<rparr>"

definition eth_handler :: analytical_handler where
  "eth_handler = \<lparr>ah_role = eth_role, ah_provider_name = ''binance-public''\<rparr>"

lemma eth_built: "builtin_build (\<lambda>_. Some small_config) eth_definition = Inr eth_role"
  by (simp add: builtin_build_Inr builtin_asset_def eth_definition_def eth_role_def)

lemma eth_planned: "plan_data eth_definition ''ETHUSDT'' (seconds 9000)
    = Some [\<lparr>mq_instrument = ''ETHUSDT'', mq_timeframe = M15, mq_minimum_bars = 10, mq_as_of = seconds 9000,
        mq_max_data_age_seconds = 60, mq_closed_only = True\<rparr>]"
  by (subst plan_data_valid [OF eth_definition_valid]) (simp_all add: eth_definition_def planned_request_def)

lemma eth_cutoff: "analysis_cutoff f now eth_task = Some (seconds 9000)"
  by (simp add: analysis_cutoff_def eth_task_def)

lemma eth_collected: "\<exists>quality. collect_market_data [0..<50] (\<lambda>_. Inr rising_series) 900 (seconds 9000)
    [\<lparr>mq_instrument = ''ETHUSDT'', mq_timeframe = M15, mq_minimum_bars = 10, mq_as_of = seconds 9000,
        mq_max_data_age_seconds = 60, mq_closed_only = True\<rparr>] = Inr (eth_bundle, quality)"
proof -
  let ?q = "\<lparr>mq_instrument = ''ETHUSDT'', mq_timeframe = M15, mq_minimum_bars = 10, mq_as_of = seconds 9000,
        mq_max_data_age_seconds = 60, mq_closed_only = True\<rparr>"
  have "clean_series rising_series ?q"
    by (simp add: clean_series_def rising_rows timeframe_seconds_def)
  then have "qr_outcome (check_series rising_series ?q) = Q_VALID"
    using gate_VALID [of ?q rising_series] by simp
  moreover have "gather [0..<50] (\<lambda>_. Inr rising_series :: market_error + instant market_series) (length [?q]) = Inr [rising_series]"
    by (simp add: gather_def)
  ultimately show ?thesis
    by (simp add: collect_market_data_def Let_def validate_provider_metadata_def series_metadata_def rising_rows
        require_utc_def finite_float_def len_between_def validate_bundle_def eth_bundle_def)
qed

lemma analyze_data_returns:
  assumes "valid_context \<lparr>ax_task = task, ax_snapshot_id = tr_snapshot_id task, ax_as_of = as_of\<rparr>"
    and "plan_data (cr_definition role) (tr_asset task) as_of = Some qs"
    and "collect_market_data completion (fetch qs) (tr_snapshot_id task) as_of qs = Inr (bundle, quality)"
    and "valid_role_input \<lparr>ri_context = \<lparr>ax_task = task, ax_snapshot_id = tr_snapshot_id task, ax_as_of = as_of\<rparr>,
        ri_market_data = bundle\<rparr>"
    and "engine_analyze ln64 fmt role \<lparr>ri_context = \<lparr>ax_task = task, ax_snapshot_id = tr_snapshot_id task,
        ax_as_of = as_of\<rparr>, ri_market_data = bundle\<rparr> = (crash, Inr r)"
  shows "analyze_data ln64 fmt role fetch completion task as_of = Inr (Inr r)"
  using assms by (simp add: analyze_data_def Let_def)

theorem signal_is_grounded_witness:
  "\<exists>counters sig. analyze_task (eth_env (\<lambda>_ _. Inr rising_series)) eth_handler eth_task = (counters, Inr sig)
     \<and> env_bias sig = LONG \<and> env_data_timestamp sig \<le> seconds 9000 \<and> valid_signal sig"
proof -
  let ?v = "eth_env (\<lambda>_ _. Inr rising_series)"
  obtain r where r: "engine_analyze (\<lambda>x. x - 1) plain_format eth_role eth_input = (False, Inr r)" "an_bias r = LONG"
    using eth_analysis by blast
  have names: "provider_names (input_series eth_input) = ''binance-public''"
    by (simp add: provider_names_def eth_input_valid rising_series_def)
  have "presentable r" using engine_presentable [OF r(1) eth_built eth_definition_valid] names by simp
  moreover have "an_data_as_of r = seconds 9000"
    using r(1)
  proof (cases rule: engine_analyze_cases)
    case (abstained reason q)
    then show ?thesis using abstain_result_Inr(1) [OF abstained(1)] r(2) by simp
  next
    case (scored ws)
    then show ?thesis by (simp add: scored_result_def Let_def eth_input_valid close_times_def rising_stamp)
  qed
  moreover have "agent_id_pattern (tr_agent_id eth_task)" "asset_pattern (tr_asset eth_task)"
    by (simp_all add: eth_task_def agent_id_pattern_def asset_pattern_def is_upper_def is_digit_def)
  ultimately obtain sig where sig: "finish_analysis ?v eth_task r = Inr sig"
    using presentable_to_signal [of r "av_json_time ?v" eth_task "av_signal_clock ?v"]
    unfolding finish_analysis_def by (auto simp: eth_env_def)
  obtain quality where q: "collect_market_data [0..<50] (\<lambda>_. Inr rising_series) 900 (seconds 9000)
    [\<lparr>mq_instrument = ''ETHUSDT'', mq_timeframe = M15, mq_minimum_bars = 10, mq_as_of = seconds 9000,
        mq_max_data_age_seconds = 60, mq_closed_only = True\<rparr>] = Inr (eth_bundle, quality)" using eth_collected by blast
  have task: "tr_snapshot_id eth_task = 900" "tr_asset eth_task = ''ETHUSDT''" "tr_agent_id eth_task = ''ETH_TECH''"
    "cr_definition eth_role = eth_definition" "ad_agent_id eth_definition = ''ETH_TECH''"
    by (simp_all add: eth_task_def eth_role_def eth_definition_def)
  have "analyze_data (\<lambda>x. x - 1) plain_format eth_role (\<lambda>_ _. Inr rising_series) [0..<50] eth_task (seconds 9000)
      = Inr (Inr r)"
  proof (rule analyze_data_returns)
    show "plan_data (cr_definition eth_role) (tr_asset eth_task) (seconds 9000)
        = Some [\<lparr>mq_instrument = ''ETHUSDT'', mq_timeframe = M15, mq_minimum_bars = 10, mq_as_of = seconds 9000,
          mq_max_data_age_seconds = 60, mq_closed_only = True\<rparr>]"
      unfolding task by (rule eth_planned)
    show "collect_market_data [0..<50] (\<lambda>_. Inr rising_series) (tr_snapshot_id eth_task) (seconds 9000)
        [\<lparr>mq_instrument = ''ETHUSDT'', mq_timeframe = M15, mq_minimum_bars = 10, mq_as_of = seconds 9000,
          mq_max_data_age_seconds = 60, mq_closed_only = True\<rparr>] = Inr (eth_bundle, quality)"
      unfolding task by (rule q)
    show "valid_context \<lparr>ax_task = eth_task, ax_snapshot_id = tr_snapshot_id eth_task, ax_as_of = seconds 9000\<rparr>"
      by (simp add: valid_context_def)
    show "valid_role_input \<lparr>ri_context = \<lparr>ax_task = eth_task, ax_snapshot_id = tr_snapshot_id eth_task,
        ax_as_of = seconds 9000\<rparr>, ri_market_data = eth_bundle\<rparr>"
      using eth_input_valid(1) unfolding task eth_input_def .
    show "engine_analyze (\<lambda>x. x - 1) plain_format eth_role \<lparr>ri_context = \<lparr>ax_task = eth_task,
        ax_snapshot_id = tr_snapshot_id eth_task, ax_as_of = seconds 9000\<rparr>, ri_market_data = eth_bundle\<rparr> = (False, Inr r)"
      using r(1) unfolding task eth_input_def .
  qed
  then have run: "analyze_task ?v eth_handler eth_task = (AnalysisTotal # result_counters r, Inr sig)"
    using sig by (simp add: analyze_task_def eth_handler_def task eth_cutoff eth_env_def)
  have bias: "env_bias sig = LONG" using to_signal_Inr(2) sig r(2) by (simp add: finish_analysis_def)
  have "valid_definition (cr_definition (ah_role eth_handler))" "{..<50} \<subseteq> set (av_completion ?v)"
    using eth_definition_valid by (auto simp: eth_handler_def task eth_env_def)
  from signal_is_grounded [OF run _ this] bias
  have "env_data_timestamp sig \<le> seconds 9000" "valid_signal sig" by (auto simp: eth_cutoff)
  with run bias show ?thesis by blast
qed

definition eth_raw_task :: "py_datetime task_request" where
  "eth_raw_task =
     \<lparr>tr_protocol_version = ''1.0'', tr_task_id = 800, tr_orchestration_run_id = 700, tr_snapshot_id = 900,
      tr_agent_id = ''ETH_TECH'', tr_asset = ''ETHUSDT'', tr_required_capability = ''technical'', tr_priority = 50,
      tr_created_at = Aware (seconds 9000) 0, tr_deadline = Aware (seconds 9060) 0, tr_correlation_id = 701,
      tr_causation_id = None, tr_context = PyMap []\<rparr>"

lemma eth_task_valid: "validate_task_request eth_raw_task = Some eth_task"
  by (simp add: validate_task_request_def eth_raw_task_def eth_task_def require_utc_def agent_id_pattern_def
      asset_pattern_def is_upper_def is_digit_def len_between_def bounded_dict_def validate_accepts_iff default_limit_values)

theorem market_error_abstains_witness:
  "\<exists>sig. analyze_task (eth_env (\<lambda>_ _. Inl (MarketDataError ''PROVIDER_TIMEOUT''))) eth_handler eth_task
     = ([AnalysisTotal, AnalysisFailure, AnalysisAbstain], Inr sig)
   \<and> env_bias sig = ABSTAIN \<and> env_risk_flags sig = [''PROVIDER_TIMEOUT'']"
proof -
  let ?v = "eth_env (\<lambda>_ _. Inl (MarketDataError ''PROVIDER_TIMEOUT''))"
  have cut: "analysis_cutoff (av_fromiso ?v) (av_cutoff_clock ?v) eth_task = Some (seconds 9000)" by (rule eth_cutoff)
  have plan: "plan_data eth_definition (tr_asset eth_task) (seconds 9000)
    = Some [\<lparr>mq_instrument = ''ETHUSDT'', mq_timeframe = M15, mq_minimum_bars = 10, mq_as_of = seconds 9000,
        mq_max_data_age_seconds = 60, mq_closed_only = True\<rparr>]"
    using eth_planned by (simp add: eth_task_def)
  have "[0..<50] = 0 # [1..<50 :: nat]" by (simp add: upt_conv_Cons)
  then have col: "collect_market_data (av_completion ?v) (av_fetch ?v qs) (tr_snapshot_id eth_task) (seconds 9000) qs
      = Inl (MarketDataError ''PROVIDER_TIMEOUT'')" for qs
    by (simp add: collect_market_data_def gather_def eth_env_def)
  show ?thesis
    using market_error_abstains [OF eth_task_valid _ cut _ eth_definition_valid eth_built _ plan col, of "''binance-public''"]
    by (simp add: eth_env_def eth_handler_def eth_task_def eth_definition_def) blast
qed

definition eth_runtime :: runtime_settings where
  "eth_runtime = sample_runtime\<lparr>as_agent_role := ''eth.technical.v1'', as_agent_supported_assets := ''ethusdt'',
     as_mode := M_ANALYTICAL, as_definition_path := Some ''eth.yaml''\<rparr>"

theorem built_handler_matches_witness:
  "\<exists>h. build_analytical_handler (\<lambda>_. Some small_config) (\<lambda>_. Some eth_definition) eth_runtime = Inr h
     \<and> ad_agent_id (cr_definition (ah_role h)) = ''ETH_TECH'' \<and> set (settings_supported_assets eth_runtime) = {''ETHUSDT''}"
proof -
  have "settings_capabilities eth_runtime = [''technical'']" "settings_supported_assets eth_runtime = [''ETHUSDT'']"
    by code_simp+
  moreover have "validate_definition eth_definition = Some eth_definition" by code_simp
  moreover have "build_role (snd (builtin_registry (\<lambda>_. Some small_config))) eth_definition = Inr eth_role"
    using eth_built by (simp add: builtin_build_def)
  moreover have "provider_settings_of (as_market_data eth_runtime) = default_provider_settings"
    by (simp add: eth_runtime_def sample_runtime_def provider_settings_of_def default_market_data_def
        default_provider_settings_def)
  ultimately have b: "build_analytical_handler (\<lambda>_. Some small_config) (\<lambda>_. Some eth_definition) eth_runtime
      = Inr \<lparr>ah_role = eth_role, ah_provider_name = ''binance-public''\<rparr>"
    using eth_built defaults_valid
    by (simp add: build_analytical_handler_def provider_name_def load_definition_def eth_runtime_def sample_runtime_def eth_definition_def)
  from built_handler_matches [OF b] b show ?thesis
    by (auto simp: eth_runtime_def sample_runtime_def builtin_asset_def)
qed

end
