(* ===== verification/Hub_Config.thy ===== *)
theory Hub_Config
  imports Agent_Sdk Planner Dispatch Notifications Float64
begin

text \<open>
  The settings of the hub and the orchestrator (\<open>src/tomiris_hub/core/config.py\<close>) with their
  validators, and what is built from them: the secret provider of the hub's authenticator
  (\<open>create_app\<close> of \<open>src/tomiris_hub/application.py\<close>) and the command client, endpoint validator and
  dispatch worker of \<open>src/tomiris_orchestrator/service.py\<close>.

  Settings without a constraint that nothing here reads (\<open>app_name\<close>, \<open>app_version\<close>, \<open>app_host\<close>,
  \<open>database_url\<close>, \<open>rate_limit_enabled\<close>, \<open>log_level\<close>) and the reading of the environment are left out.
\<close>

section \<open>Settings\<close>

datatype app_env = App_Development | App_Test | App_Production
datatype auth_mode = Auth_Shared | Auth_Derived

record hub_credentials =
  cf_app_env :: app_env
  cf_agent_auth_mode :: auth_mode
  cf_ingest_key_id :: string
  cf_ingest_secret :: "string option"
  cf_previous_key_id :: "string option"
  cf_previous_secret :: "string option"
  cf_agent_master_secret :: "string option"
  cf_agent_previous_master_secret :: "string option"
  cf_orchestrator_master_secret :: "string option"
  cf_command_key_id :: string

record hub_configuration = hub_credentials +
  cf_auth_max_clock_skew_seconds :: int
  cf_max_signal_ttl_seconds :: int
  cf_max_signal_request_bytes :: int
  cf_telegram_enabled :: bool
  cf_telegram_bot_token :: "string option"
  cf_telegram_chat_id :: "string option"
  cf_notification_max_attempts :: int
  cf_notification_base_retry_seconds :: int
  cf_notification_max_retry_seconds :: int
  cf_orchestrator_enabled :: bool
  cf_orchestrator_instance_id :: string
  cf_dispatch_batch_size :: int
  cf_max_in_flight :: int
  cf_connect_timeout_seconds :: fl
  cf_ack_timeout_seconds :: fl
  cf_cold_start_grace_seconds :: fl
  cf_signal_timeout_seconds :: int
  cf_max_dispatch_attempts :: int
  cf_retry_base_seconds :: int
  cf_retry_max_seconds :: int
  cf_circuit_failure_threshold :: int
  cf_circuit_open_seconds :: int
  cf_endpoint_allowed_host_suffixes :: string
  cf_app_port :: int
  cf_database_connect_timeout_seconds :: fl
  cf_rate_limit_per_agent :: int
  cf_rate_limit_per_ip :: int
  cf_poll_interval_seconds :: fl

section \<open>Validation\<close>

definition int_field :: "int \<Rightarrow> int \<Rightarrow> int \<Rightarrow> bool" where
  "int_field lo hi n \<longleftrightarrow> lo \<le> n \<and> n \<le> hi"

definition float_field :: "rat \<Rightarrow> rat \<Rightarrow> fl \<Rightarrow> bool" where
  "float_field lo hi x \<longleftrightarrow> fl_le (Fin lo) x \<and> fl_le x (Fin hi)"

text \<open>The constraints declared with \<open>Field\<close>\<close>

definition valid_hub_fields :: "hub_configuration \<Rightarrow> bool" where
  "valid_hub_fields s \<longleftrightarrow>
     len_between 1 64 (cf_ingest_key_id s) \<and> len_between 1 64 (cf_command_key_id s)
     \<and> len_between 1 64 (cf_orchestrator_instance_id s)
     \<and> int_field 1 600 (cf_auth_max_clock_skew_seconds s) \<and> int_field 1 86400 (cf_max_signal_ttl_seconds s)
     \<and> int_field 1024 1048576 (cf_max_signal_request_bytes s)
     \<and> int_field 1 20 (cf_notification_max_attempts s) \<and> int_field 1 3600 (cf_notification_base_retry_seconds s)
     \<and> int_field 1 86400 (cf_notification_max_retry_seconds s)
     \<and> int_field 1 500 (cf_dispatch_batch_size s) \<and> int_field 1 500 (cf_max_in_flight s)
     \<and> float_field (1/10) 60 (cf_connect_timeout_seconds s) \<and> float_field (1/10) 300 (cf_ack_timeout_seconds s)
     \<and> float_field 0 900 (cf_cold_start_grace_seconds s) \<and> int_field 1 86400 (cf_signal_timeout_seconds s)
     \<and> int_field 1 20 (cf_max_dispatch_attempts s) \<and> int_field 1 3600 (cf_retry_base_seconds s)
     \<and> int_field 1 86400 (cf_retry_max_seconds s) \<and> int_field 1 100 (cf_circuit_failure_threshold s)
     \<and> int_field 1 86400 (cf_circuit_open_seconds s)
     \<and> int_field 1 65535 (cf_app_port s) \<and> float_field (1/10) 30 (cf_database_connect_timeout_seconds s)
     \<and> 1 \<le> cf_rate_limit_per_agent s \<and> 1 \<le> cf_rate_limit_per_ip s
     \<and> float_field (1/20) 60 (cf_poll_interval_seconds s)"

definition configured_secrets :: "hub_configuration \<Rightarrow> string list" where
  "configured_secrets s =
     concat (map (\<lambda>x. case x of None \<Rightarrow> [] | Some t \<Rightarrow> [t])
       [cf_ingest_secret s, cf_previous_secret s, cf_agent_master_secret s, cf_agent_previous_master_secret s,
        cf_orchestrator_master_secret s])"

text \<open>\<open>validate_secret\<close>\<close>

definition secrets_long_enough :: "hub_configuration \<Rightarrow> bool" where
  "secrets_long_enough s \<longleftrightarrow> list_all (\<lambda>t. 32 \<le> length t) (configured_secrets s)"

text \<open>\<open>part in text\<close>\<close>

definition contains_text :: "string \<Rightarrow> string \<Rightarrow> bool" where
  "contains_text part t \<longleftrightarrow> list_ex (\<lambda>i. take (length part) (drop i t) = part) [0..<length t + 1]"

definition unsafe_markers :: "string list" where
  "unsafe_markers =
     [''change_me'', ''changeme'', ''placeholder'', ''replace-with'', ''development'', ''example'', ''test-secret'']"

text \<open>\<open>re.fullmatch(r"(.)\1{31,}", text)\<close>\<close>

definition repeated_text :: "string \<Rightarrow> bool" where
  "repeated_text t \<longleftrightarrow> 32 \<le> length t \<and> (of_char (hd t) :: nat) \<noteq> 10 \<and> list_all (\<lambda>c. c = hd t) t"

definition unsafe_in_production :: "string \<Rightarrow> bool" where
  "unsafe_in_production secret_value \<longleftrightarrow>
     (let normalized = lower (strip secret_value)
      in normalized = ''0123456789abcdef0123456789abcdef''
         \<or> list_ex (\<lambda>marker. contains_text marker normalized) unsafe_markers
         \<or> repeated_text normalized)"

text \<open>\<open>validate_rotation\<close>: the message of the first \<open>ValueError\<close>, or none.\<close>

definition validate_rotation :: "hub_configuration \<Rightarrow> string option" where
  "validate_rotation s =
     (let has_previous_id = truthy (cf_previous_key_id s)
      in if cf_agent_auth_mode s = Auth_Shared \<and> cf_ingest_secret s = None
         then Some ''shared auth mode requires TOMIRIS_HUB_INGEST_SECRET''
         else if cf_agent_auth_mode s = Auth_Shared \<and> has_previous_id \<noteq> (cf_previous_secret s \<noteq> None)
         then Some ''previous key ID and shared secret must be configured together''
         else if cf_agent_auth_mode s = Auth_Derived \<and> cf_agent_master_secret s = None
         then Some ''derived auth mode requires TOMIRIS_HUB_AGENT_MASTER_SECRET''
         else if cf_agent_auth_mode s = Auth_Derived \<and> has_previous_id \<noteq> (cf_agent_previous_master_secret s \<noteq> None)
         then Some ''previous key ID and master secret must be configured together''
         else if cf_app_env s = App_Production \<and> list_ex unsafe_in_production (configured_secrets s)
         then Some ''unsafe ingest secret prohibited in production''
         else if cf_app_env s = App_Production \<and> cf_orchestrator_enabled s \<and> cf_orchestrator_master_secret s = None
         then Some ''orchestrator command master secret is required''
         else if truthy (cf_agent_master_secret s) \<and> truthy (cf_orchestrator_master_secret s)
                 \<and> cf_agent_master_secret s = cf_orchestrator_master_secret s
         then Some ''Hub ingest and orchestrator command roots must differ''
         else if cf_telegram_enabled s \<and> \<not> (truthy (cf_telegram_bot_token s) \<and> truthy (cf_telegram_chat_id s))
         then Some ''Telegram token and chat ID are required when Telegram is enabled''
         else if cf_notification_max_retry_seconds s < cf_notification_base_retry_seconds s
         then Some ''notification max retry must be >= base retry''
         else if cf_retry_max_seconds s < cf_retry_base_seconds s
         then Some ''agent max retry must be >= base retry''
         else None)"

definition valid_hub_configuration :: "hub_configuration \<Rightarrow> bool" where
  "valid_hub_configuration s \<longleftrightarrow> valid_hub_fields s \<and> secrets_long_enough s \<and> validate_rotation s = None"

definition allowed_agent_host_suffixes :: "hub_configuration \<Rightarrow> string list" where
  "allowed_agent_host_suffixes s =
     map (\<lambda>part. lower (strip part))
       (filter (\<lambda>part. strip part \<noteq> []) (split_on (CHR '','') (cf_endpoint_allowed_host_suffixes s)))"

section \<open>What is built from the settings\<close>

text \<open>The secret provider of \<open>create_app\<close>; \<open>None\<close> is the \<open>RuntimeError\<close> at startup.\<close>

definition hub_secret_provider :: "hub_configuration \<Rightarrow> (string \<Rightarrow> string \<Rightarrow> crypto_error + string option) option" where
  "hub_secret_provider s =
     (if cf_agent_auth_mode s = Auth_Derived then
        (case cf_agent_master_secret s of
           None \<Rightarrow> None
         | Some master \<Rightarrow>
             Some (derived_get_secret
               \<lparr>ds_master_secret = master, ds_current_key_id = cf_ingest_key_id s, ds_purpose = ''hub-ingest'',
                ds_previous_master_secret =
                  (if truthy (cf_agent_previous_master_secret s) then cf_agent_previous_master_secret s else None),
                ds_previous_key_id = cf_previous_key_id s\<rparr>))
      else
        (case cf_ingest_secret s of
           None \<Rightarrow> None
         | Some secret \<Rightarrow>
             Some (shared_get_secret
               \<lparr>ss_current_key_id = cf_ingest_key_id s, ss_current_secret = secret,
                ss_previous_key_id = cf_previous_key_id s,
                ss_previous_secret = (if truthy (cf_previous_secret s) then cf_previous_secret s else None)\<rparr>)))"

text \<open>What the handler of \<open>POST /v1/signals\<close> reads from the application's state: the limits of the
  settings, and the authenticator with its provider\<close>

definition endpoint_settings :: "hub_configuration \<Rightarrow> hub_settings" where
  "endpoint_settings s =
     \<lparr>hs_max_signal_request_bytes = nat (cf_max_signal_request_bytes s),
      hs_max_signal_ttl_seconds = cf_max_signal_ttl_seconds s,
      hs_auth_max_clock_skew_seconds = cf_auth_max_clock_skew_seconds s\<rparr>"

definition create_app ::
    "hub_configuration \<Rightarrow> (hub_settings \<times> (string \<Rightarrow> string \<Rightarrow> crypto_error + string option)) option" where
  "create_app s = map_option (\<lambda>get. (endpoint_settings s, get)) (hub_secret_provider s)"

text \<open>The provider, client and worker of \<open>OrchestratorService\<close>; \<open>None\<close> is the \<open>ValueError\<close>.\<close>

definition command_secret_provider :: "hub_configuration \<Rightarrow> derived_secret_provider option" where
  "command_secret_provider s =
     map_option (\<lambda>master.
       \<lparr>ds_master_secret = master, ds_current_key_id = cf_command_key_id s, ds_purpose = ''orchestrator-command'',
        ds_previous_master_secret = None, ds_previous_key_id = None\<rparr>) (cf_orchestrator_master_secret s)"

definition command_client :: "hub_configuration \<Rightarrow> dispatch_client" where
  "command_client s =
     \<lparr>dc_orchestrator_id = cf_orchestrator_instance_id s, dc_command_key_id = cf_command_key_id s\<rparr>"

definition agent_endpoint_validator ::
    "(string \<Rightarrow> int \<Rightarrow> resolution) \<Rightarrow> bool \<Rightarrow> hub_configuration \<Rightarrow> endpoint_validator" where
  "agent_endpoint_validator resolver delegates s =
     new_endpoint_validator (allowed_agent_host_suffixes s) resolver delegates"

definition float_value :: "fl \<Rightarrow> rat" where
  "float_value x = (case x of Fin q \<Rightarrow> q | _ \<Rightarrow> 0)"

definition service_worker :: "hub_configuration \<Rightarrow> dispatch_worker" where
  "service_worker s =
     \<lparr>dw_worker_id = cf_orchestrator_instance_id s,
      dw_batch_size = nat (min (cf_dispatch_batch_size s) (cf_max_in_flight s)),
      dw_lease_seconds =
        fadd (fadd (fadd (float_value (cf_connect_timeout_seconds s)) (float_value (cf_ack_timeout_seconds s)))
          (float_value (cf_cold_start_grace_seconds s))) 5,
      dw_max_attempts = cf_max_dispatch_attempts s, dw_base_seconds = cf_retry_base_seconds s,
      dw_max_seconds = cf_retry_max_seconds s, dw_circuit_failure_threshold = cf_circuit_failure_threshold s,
      dw_circuit_open_seconds = cf_circuit_open_seconds s\<rparr>"

text \<open>\<open>create_test_run\<close>\<close>

definition create_test_run ::
    "(string \<Rightarrow> 'o :: linorder) \<Rightarrow> instant \<Rightarrow> uuid \<Rightarrow> string \<Rightarrow> orchestration_policy \<Rightarrow> pyval option \<Rightarrow> world \<Rightarrow>
     plan_error + (orchestration_plan \<times> world)" where
  "create_test_run collate now snapshot_id asset policy context w =
     create_plan collate now snapshot_id asset ''TEST'' policy context None None None w"

text \<open>The worker of \<open>scripts/run_notification_worker.py\<close>, with the default lease of a sending row\<close>

definition notification_worker_of :: "hub_configuration \<Rightarrow> notification_worker" where
  "notification_worker_of s =
     \<lparr>nw_max_attempts = cf_notification_max_attempts s, nw_base_retry_seconds = cf_notification_base_retry_seconds s,
      nw_max_retry_seconds = cf_notification_max_retry_seconds s, nw_sending_lease_seconds = 60\<rparr>"

section \<open>Properties\<close>

lemma long_secret: "secrets_long_enough s \<Longrightarrow> t \<in> set (configured_secrets s) \<Longrightarrow> 32 \<le> length t"
  by (auto simp: secrets_long_enough_def list_all_iff)

lemma configured_secrets_iff:
  "t \<in> set (configured_secrets s) \<longleftrightarrow>
     cf_ingest_secret s = Some t \<or> cf_previous_secret s = Some t \<or> cf_agent_master_secret s = Some t
     \<or> cf_agent_previous_master_secret s = Some t \<or> cf_orchestrator_master_secret s = Some t"
  by (auto simp: configured_secrets_def split: option.splits)

lemma rotation_facts:
  assumes "validate_rotation s = None"
  shows "cf_agent_auth_mode s = Auth_Shared \<Longrightarrow> cf_ingest_secret s \<noteq> None"
    "cf_agent_auth_mode s = Auth_Shared \<Longrightarrow> truthy (cf_previous_key_id s) \<longleftrightarrow> cf_previous_secret s \<noteq> None"
    "cf_agent_auth_mode s = Auth_Derived \<Longrightarrow> cf_agent_master_secret s \<noteq> None"
    "cf_agent_auth_mode s = Auth_Derived \<Longrightarrow> truthy (cf_previous_key_id s) \<longleftrightarrow> cf_agent_previous_master_secret s \<noteq> None"
    "cf_retry_base_seconds s \<le> cf_retry_max_seconds s"
  using assms by (auto simp: validate_rotation_def Let_def split: if_splits)

lemma long_truthy: "x = Some t \<Longrightarrow> 32 \<le> length t \<Longrightarrow> truthy x"
  by (auto simp: truthy_def)

lemma derived_current:
  assumes "32 \<le> length (ds_master_secret p)" and "ds_purpose p = ''hub-ingest''"
  shows "\<exists>x. derived_get_secret p agent (ds_current_key_id p) = Inr (Some x)"
  using derive_agent_secret_returns [of "ds_purpose p" "ds_master_secret p" agent "ds_current_key_id p"] assms
  by (auto simp: derived_get_secret_def)

lemma valid_skew:
  assumes "valid_hub_configuration s"
  shows "1 \<le> cf_auth_max_clock_skew_seconds s \<and> cf_auth_max_clock_skew_seconds s \<le> 600"
  using assms unfolding valid_hub_configuration_def valid_hub_fields_def int_field_def by (elim conjE) (intro conjI)

text \<open>The keys a hub accepts: the current one, and the previous one when it is configured.\<close>

definition hub_keys :: "hub_configuration \<Rightarrow> string list" where
  "hub_keys s = cf_ingest_key_id s # (case cf_previous_key_id s of None \<Rightarrow> [] | Some k \<Rightarrow> if k = [] then [] else [k])"

lemma hub_provider_known:
  assumes "valid_hub_configuration s"
  obtains get where "hub_secret_provider s = Some get"
    "\<And>agent key. key \<in> set (hub_keys s) \<Longrightarrow> \<exists>secret. get agent key = Inr (Some secret)"
    "\<And>agent key. key \<notin> set (hub_keys s) \<Longrightarrow> get agent key = Inr None"
proof (cases "cf_agent_auth_mode s")
  case Auth_Derived
  note facts = rotation_facts [of s]
  have v: "validate_rotation s = None" "secrets_long_enough s" using assms by (simp_all add: valid_hub_configuration_def)
  obtain master where m: "cf_agent_master_secret s = Some master" using facts(3) [OF v(1) Auth_Derived] by blast
  have m32: "32 \<le> length master" using long_secret [OF v(2)] m by (simp add: configured_secrets_iff)
  define p where "p = \<lparr>ds_master_secret = master, ds_current_key_id = cf_ingest_key_id s, ds_purpose = ''hub-ingest'',
      ds_previous_master_secret =
        (if truthy (cf_agent_previous_master_secret s) then cf_agent_previous_master_secret s else None),
      ds_previous_key_id = cf_previous_key_id s\<rparr>"
  have "\<exists>secret. derived_get_secret p agent key = Inr (Some secret)" if "key \<in> set (hub_keys s)" for agent key
  proof (cases "key = cf_ingest_key_id s")
    case True
    then show ?thesis using derived_current [of p agent] m32 by (simp add: p_def)
  next
    case False
    with that have k: "cf_previous_key_id s = Some key" "key \<noteq> []"
      by (auto simp: hub_keys_def split: option.splits if_splits)
    then obtain old where old: "cf_agent_previous_master_secret s = Some old"
      using facts(4) [OF v(1) Auth_Derived] by (auto simp: truthy_def)
    have "32 \<le> length old" using long_secret [OF v(2)] old by (simp add: configured_secrets_iff)
    moreover from this have "old \<noteq> []" by auto
    ultimately show ?thesis
      using False k old derive_agent_secret_returns [of "''hub-ingest''" old agent key]
      by (auto simp: derived_get_secret_def p_def truthy_def)
  qed
  moreover have "derived_get_secret p agent key = Inr None" if "key \<notin> set (hub_keys s)" for agent key
    using that by (auto simp: derived_get_secret_def p_def hub_keys_def split: option.splits if_splits)
  moreover have "hub_secret_provider s = Some (derived_get_secret p)"
    using Auth_Derived m by (simp add: hub_secret_provider_def p_def)
  ultimately show thesis using that by blast
next
  case Auth_Shared
  note facts = rotation_facts [of s]
  have v: "validate_rotation s = None" "secrets_long_enough s" using assms by (simp_all add: valid_hub_configuration_def)
  obtain secret where m: "cf_ingest_secret s = Some secret" using facts(1) [OF v(1) Auth_Shared] by blast
  define p where "p = \<lparr>ss_current_key_id = cf_ingest_key_id s, ss_current_secret = secret,
      ss_previous_key_id = cf_previous_key_id s,
      ss_previous_secret = (if truthy (cf_previous_secret s) then cf_previous_secret s else None)\<rparr>"
  have "\<exists>secret. shared_get_secret p agent key = Inr (Some secret)" if "key \<in> set (hub_keys s)" for agent key
  proof (cases "key = cf_ingest_key_id s")
    case True
    then show ?thesis by (simp add: shared_get_secret_def p_def)
  next
    case False
    with that have k: "cf_previous_key_id s = Some key" "key \<noteq> []"
      by (auto simp: hub_keys_def split: option.splits if_splits)
    then obtain old where old: "cf_previous_secret s = Some old"
      using facts(2) [OF v(1) Auth_Shared] by (auto simp: truthy_def)
    have "32 \<le> length old" using long_secret [OF v(2)] old by (simp add: configured_secrets_iff)
    then have "truthy (cf_previous_secret s)" using long_truthy old by blast
    with False k old show ?thesis by (simp add: shared_get_secret_def p_def truthy_def)
  qed
  moreover have "shared_get_secret p agent key = Inr None" if "key \<notin> set (hub_keys s)" for agent key
    using that by (auto simp: shared_get_secret_def p_def hub_keys_def truthy_def split: option.splits if_splits)
  moreover have "hub_secret_provider s = Some (shared_get_secret p)"
    using Auth_Shared m by (simp add: hub_secret_provider_def p_def)
  ultimately show thesis using that by blast
qed

text \<open>Validated settings always give a working authenticator: the hub starts, knows a secret for every
  agent under the current key and, when a rotation is configured, under the previous key, and
  answers every other key identifier with no secret; no request can make it fail for lack of
  configuration.\<close>

theorem settings_give_secrets:
  assumes "valid_hub_configuration s"
  shows "\<exists>get. hub_secret_provider s = Some get
    \<and> (\<forall>agent key. (\<exists>secret. get agent key = Inr (Some secret)) \<or> get agent key = Inr None)
    \<and> (\<forall>agent key. get agent key \<noteq> Inr None \<longleftrightarrow> key \<in> set (hub_keys s))"
proof -
  obtain get where g: "hub_secret_provider s = Some get"
    "\<And>agent key. key \<in> set (hub_keys s) \<Longrightarrow> \<exists>secret. get agent key = Inr (Some secret)"
    "\<And>agent key. key \<notin> set (hub_keys s) \<Longrightarrow> get agent key = Inr None"
    using hub_provider_known [OF assms] by blast
  have "(\<exists>secret. get agent key = Inr (Some secret)) \<or> get agent key = Inr None" for agent key
    using g(2) [of key agent] g(3) [of key agent] by (cases "key \<in> set (hub_keys s)") blast+
  moreover have "get agent key \<noteq> Inr None \<longleftrightarrow> key \<in> set (hub_keys s)" for agent key
    using g(2) [of key agent] g(3) [of key agent] by (cases "key \<in> set (hub_keys s)") auto
  ultimately show ?thesis using g(1) by blast
qed

lemma float_fieldD: "float_field lo hi x \<Longrightarrow> lo \<le> float_value x \<and> float_value x \<le> hi"
  by (cases x) (auto simp: float_field_def float_value_def fl_le_def fl_eq_def)

lemma fadd_between:
  assumes "of_int a \<le> x" "x \<le> of_int b" "of_int c \<le> y" "y \<le> of_int d"
    and "\<bar>a + c\<bar> \<le> 2 ^ 53" "\<bar>b + d\<bar> \<le> 2 ^ 53"
  shows "of_int (a + c) \<le> fadd x y \<and> fadd x y \<le> of_int (b + d)"
proof -
  have "rnd64 (of_int (a + c)) \<le> rnd64 (x + y)" "rnd64 (x + y) \<le> rnd64 (of_int (b + d))"
    using assms(1-4) by (intro rnd64_mono, simp)+
  with assms(5,6) show ?thesis unfolding fadd_def by (simp only: rnd64_of_int)
qed

lemma lease_between:
  assumes "valid_hub_fields s"
  shows "5 \<le> dw_lease_seconds (service_worker s) \<and> dw_lease_seconds (service_worker s) \<le> 1265"
proof -
  have f: "float_field (1/10) 60 (cf_connect_timeout_seconds s)" "float_field (1/10) 300 (cf_ack_timeout_seconds s)"
    "float_field 0 900 (cf_cold_start_grace_seconds s)"
    using assms unfolding valid_hub_fields_def by - (elim conjE, assumption)+
  note b = f [THEN float_fieldD]
  have 1: "of_int 0 \<le> fadd (float_value (cf_connect_timeout_seconds s)) (float_value (cf_ack_timeout_seconds s))
    \<and> fadd (float_value (cf_connect_timeout_seconds s)) (float_value (cf_ack_timeout_seconds s)) \<le> of_int 360"
    using b fadd_between [of 0 "float_value (cf_connect_timeout_seconds s)" 60 0 "float_value (cf_ack_timeout_seconds s)" 300]
    by simp
  have 2: "of_int 0 \<le> fadd (fadd (float_value (cf_connect_timeout_seconds s)) (float_value (cf_ack_timeout_seconds s)))
      (float_value (cf_cold_start_grace_seconds s))
    \<and> fadd (fadd (float_value (cf_connect_timeout_seconds s)) (float_value (cf_ack_timeout_seconds s)))
      (float_value (cf_cold_start_grace_seconds s)) \<le> of_int 1260"
    using 1 b fadd_between [of 0 "fadd (float_value (cf_connect_timeout_seconds s)) (float_value (cf_ack_timeout_seconds s))" 360
        0 "float_value (cf_cold_start_grace_seconds s)" 900] by simp
  from fadd_between [of 0 _ 1260 5 5 5, OF 2 [THEN conjunct1] 2 [THEN conjunct2]] show ?thesis
    by (simp add: service_worker_def)
qed

lemma batch_between:
  assumes "valid_hub_fields s"
  shows "1 \<le> dw_batch_size (service_worker s) \<and> dw_batch_size (service_worker s) \<le> 500"
proof -
  have "int_field 1 500 (cf_dispatch_batch_size s)" "int_field 1 500 (cf_max_in_flight s)"
    using assms unfolding valid_hub_fields_def by - (elim conjE, assumption)+
  then show ?thesis by (auto simp: int_field_def service_worker_def)
qed

text \<open>C26 Validated settings start every service: the hub application has its authenticator; the
  dispatch worker and the notification worker get retry schedules for which the delays are
  bounded, batches of 1 to 500 tasks and a lease of 5 to 1265 seconds; and in production an
  enabled orchestrator has a command secret, whose root is not the root of the hub's secrets.\<close>

theorem settings_start_services:
  assumes "valid_hub_configuration s"
  shows "create_app s \<noteq> None
    \<and> backoff_settings (dw_base_seconds (service_worker s)) (dw_max_seconds (service_worker s))
    \<and> backoff_settings (nw_base_retry_seconds (notification_worker_of s)) (nw_max_retry_seconds (notification_worker_of s))
    \<and> 1 \<le> dw_batch_size (service_worker s) \<and> dw_batch_size (service_worker s) \<le> 500
    \<and> 5 \<le> dw_lease_seconds (service_worker s) \<and> dw_lease_seconds (service_worker s) \<le> 1265
    \<and> (cf_app_env s = App_Production \<and> cf_orchestrator_enabled s \<longrightarrow> command_secret_provider s \<noteq> None)
    \<and> (\<forall>master p. cf_agent_master_secret s = Some master \<and> command_secret_provider s = Some p \<longrightarrow>
          ds_master_secret p \<noteq> master)"
proof -
  have v: "valid_hub_fields s" "validate_rotation s = None" and long: "secrets_long_enough s"
    using assms by (simp_all add: valid_hub_configuration_def)
  obtain get where get: "hub_secret_provider s = Some get" by (rule hub_provider_known [OF assms])
  have i: "int_field 1 3600 (cf_notification_base_retry_seconds s)" "int_field 1 86400 (cf_notification_max_retry_seconds s)"
    "int_field 1 3600 (cf_retry_base_seconds s)" "int_field 1 86400 (cf_retry_max_seconds s)"
    using v(1) unfolding valid_hub_fields_def by - (elim conjE, assumption)+
  have r: "cf_notification_base_retry_seconds s \<le> cf_notification_max_retry_seconds s"
    "cf_retry_base_seconds s \<le> cf_retry_max_seconds s"
    "cf_app_env s = App_Production \<and> cf_orchestrator_enabled s \<longrightarrow> cf_orchestrator_master_secret s \<noteq> None"
    "truthy (cf_agent_master_secret s) \<Longrightarrow> truthy (cf_orchestrator_master_secret s) \<Longrightarrow>
       cf_agent_master_secret s \<noteq> cf_orchestrator_master_secret s"
    using v(2) by (simp_all add: validate_rotation_def Let_def split: if_splits)
  have "ds_master_secret p \<noteq> master" if m: "cf_agent_master_secret s = Some master" and p: "command_secret_provider s = Some p" for master p
  proof -
    obtain root where root: "cf_orchestrator_master_secret s = Some root" "ds_master_secret p = root"
      using p by (auto simp: command_secret_provider_def)
    have "32 \<le> length master" "32 \<le> length root"
      using long_secret [OF long] m root(1) by (simp_all add: configured_secrets_iff)
    from long_truthy [OF m this(1)] long_truthy [OF root(1) this(2)] r(4) m root show ?thesis by simp
  qed
  moreover have "command_secret_provider s = None \<longleftrightarrow> cf_orchestrator_master_secret s = None"
    by (simp add: command_secret_provider_def)
  ultimately show ?thesis
    using get i r(1,2,3) lease_between [OF v(1)] batch_between [OF v(1)]
    by (simp add: create_app_def backoff_settings_def service_worker_def notification_worker_of_def int_field_def)
qed

text \<open>C27 A deployment whose settings pass validation accepts its agents: for every agent and every
  configured key identifier that fits the header's pattern there is a secret, and headers signed
  with it verify on the hub within the configured clock skew.  (The settings do not check the
  pattern: with a key identifier that does not fit it, no request is ever accepted.)\<close>

theorem configured_agents_authenticate:
  assumes "valid_hub_configuration s" and "key \<in> set (hub_keys s)" and "key_id_pattern key"
    and "agent_id_pattern agent_id" and "nonce_pattern nonce" and "from_timestamp timestamp = Some t"
    and "now - t \<le> seconds (cf_auth_max_clock_skew_seconds s)" and "t - now \<le> seconds (cf_auth_max_clock_skew_seconds s)"
  shows "\<exists>get secret. hub_secret_provider s = Some get \<and> get agent_id key = Inr (Some secret)
    \<and> hub_verify get now (cf_auth_max_clock_skew_seconds s) m path
        (build_signed_headers agent_id key secret m path body timestamp nonce) body = Inr t"
proof (rule hub_provider_known [OF assms(1)])
  fix get
  assume get: "hub_secret_provider s = Some get"
    and known: "\<And>agent key. key \<in> set (hub_keys s) \<Longrightarrow> \<exists>secret. get agent key = Inr (Some secret)"
  obtain secret where secret: "get agent_id key = Inr (Some secret)" using known [OF assms(2)] by blast
  have skew: "0 \<le> cf_auth_max_clock_skew_seconds s" "cf_auth_max_clock_skew_seconds s \<le> 2 ^ 32"
    using valid_skew [OF assms(1)] by simp_all
  show ?thesis
  proof (intro exI conjI)
    show "hub_secret_provider s = Some get" by (rule get)
    show "get agent_id key = Inr (Some secret)" by (rule secret)
    show "hub_verify get now (cf_auth_max_clock_skew_seconds s) m path
        (build_signed_headers agent_id key secret m path body timestamp nonce) body = Inr t"
      by (rule signed_headers_verify [where get_secret = get, OF assms(4) assms(3) assms(5) assms(6) skew assms(7) assms(8) secret])
  qed
qed

text \<open>The settings of a hub in derived mode, and of an orchestrator beside it\<close>

definition derived_settings :: hub_configuration where
  "derived_settings =
     \<lparr>cf_app_env = App_Production, cf_agent_auth_mode = Auth_Derived, cf_ingest_key_id = ''k2'',
      cf_ingest_secret = None, cf_previous_key_id = Some ''k1'', cf_previous_secret = None,
      cf_agent_master_secret = Some ''9f2c8b7a6d5e4f30918273645a6b7c8d'',
      cf_agent_previous_master_secret = Some ''1a2b3c4d5e6f708192a3b4c5d6e7f809'',
      cf_orchestrator_master_secret = Some ''7766554433221100ffeeddccbbaa9988'',
      cf_command_key_id = ''current'', cf_auth_max_clock_skew_seconds = 60, cf_max_signal_ttl_seconds = 300,
      cf_max_signal_request_bytes = 65536, cf_telegram_enabled = False, cf_telegram_bot_token = None,
      cf_telegram_chat_id = None, cf_notification_max_attempts = 5, cf_notification_base_retry_seconds = 5,
      cf_notification_max_retry_seconds = 300, cf_orchestrator_enabled = True,
      cf_orchestrator_instance_id = ''orchestrator-local'', cf_dispatch_batch_size = 20, cf_max_in_flight = 20,
      cf_connect_timeout_seconds = Fin 5, cf_ack_timeout_seconds = Fin 10, cf_cold_start_grace_seconds = Fin 60,
      cf_signal_timeout_seconds = 300, cf_max_dispatch_attempts = 5, cf_retry_base_seconds = 5,
      cf_retry_max_seconds = 300, cf_circuit_failure_threshold = 3, cf_circuit_open_seconds = 120,
      cf_endpoint_allowed_host_suffixes = ''.hf.space,.huggingface.co'', cf_app_port = 8000,
      cf_database_connect_timeout_seconds = Fin 5, cf_rate_limit_per_agent = 60, cf_rate_limit_per_ip = 120,
      cf_poll_interval_seconds = Fin 1\<rparr>"

lemma derived_settings_valid: "valid_hub_configuration derived_settings"
  by code_simp

theorem settings_give_secrets_witness:
  "\<exists>get. hub_secret_provider derived_settings = Some get
    \<and> (\<forall>agent key. (\<exists>secret. get agent key = Inr (Some secret)) \<or> get agent key = Inr None)
    \<and> (\<forall>agent key. get agent key \<noteq> Inr None \<longleftrightarrow> key \<in> set (hub_keys derived_settings))"
  by (rule settings_give_secrets [OF derived_settings_valid])

theorem settings_start_services_witness:
  "create_app derived_settings \<noteq> None \<and> 5 \<le> dw_lease_seconds (service_worker derived_settings)"
  using settings_start_services [OF derived_settings_valid] by blast

theorem configured_agents_authenticate_witness:
  "\<exists>get secret. hub_secret_provider derived_settings = Some get \<and> get ''AGENT_1'' ''k1'' = Inr (Some secret)
    \<and> hub_verify get 0 (cf_auth_max_clock_skew_seconds derived_settings) ''POST'' ''/v1/signals''
        (build_signed_headers ''AGENT_1'' ''k1'' secret ''POST'' ''/v1/signals'' [] 20 (replicate 22 (CHR ''a''))) []
      = Inr (seconds 20)"
proof (rule configured_agents_authenticate [OF derived_settings_valid])
  show "''k1'' \<in> set (hub_keys derived_settings)" by (simp add: hub_keys_def derived_settings_def)
  show "agent_id_pattern ''AGENT_1''" "key_id_pattern ''k1''" "nonce_pattern (replicate 22 (CHR ''a''))"
    by (simp_all add: agent_id_pattern_def key_id_pattern_def nonce_pattern_def is_upper_def is_lower_def
        is_digit_def list_all_iff)
  show "from_timestamp 20 = Some (seconds 20)" by (simp add: from_timestamp_def)
qed (simp_all add: derived_settings_def)

end
