(* ===== verification/Sql.thy ===== *)
theory Sql
  imports Prelude
begin

text \<open>
  The part of SQL that \<open>src/migrations\<close> and \<open>src/tomiris_hub/database/models.py\<close> use: column types,
  \<open>CHECK\<close> conditions with the three truth values of SQL, tables with their constraints and rows,
  and the schema operations of alembic on them, as PostgreSQL documents them.  A schema operation
  that PostgreSQL refuses is an error, which rolls the migration back.
\<close>

section \<open>Values and conditions\<close>

datatype sql_type = SqlString nat | SqlUuid | SqlBoolean | SqlInteger | SqlFloat | SqlJsonb | SqlTimestamp

datatype sql_value =
    VText string | VUuid uuid | VBool bool | VInt int | VFloat rat | VJson pyval | VTime instant

text \<open>A row assigns values to column names; \<open>None\<close> is \<open>NULL\<close>.\<close>

type_synonym sql_row = "string \<Rightarrow> sql_value option"

datatype sql_term = Col string | Lit int

datatype sql_cond =
    OneOf string "string list"
  | Le sql_term sql_term
  | Lt sql_term sql_term
  | IsNull string
  | IsNotNull string
  | Both sql_cond sql_cond
  | Either sql_cond sql_cond

fun term_value :: "sql_row \<Rightarrow> sql_term \<Rightarrow> int option" where
  "term_value r (Lit n) = Some n"
| "term_value r (Col c) =
     (case r c of Some (VInt n) \<Rightarrow> Some n | Some (VTime t) \<Rightarrow> Some t | _ \<Rightarrow> None)"

text \<open>Kleene's conjunction and disjunction; \<open>None\<close> is unknown.\<close>

fun and3 :: "bool option \<Rightarrow> bool option \<Rightarrow> bool option" where
  "and3 (Some False) _ = Some False"
| "and3 (Some True) y = y"
| "and3 None (Some False) = Some False"
| "and3 None _ = None"

fun or3 :: "bool option \<Rightarrow> bool option \<Rightarrow> bool option" where
  "or3 (Some True) _ = Some True"
| "or3 (Some False) y = y"
| "or3 None (Some True) = Some True"
| "or3 None _ = None"

fun eval_cond :: "sql_row \<Rightarrow> sql_cond \<Rightarrow> bool option" where
  "eval_cond r (OneOf c ts) =
     (case r c of None \<Rightarrow> None | Some v \<Rightarrow> Some (list_ex (\<lambda>t. v = VText t) ts))"
| "eval_cond r (Le a b) =
     (case (term_value r a, term_value r b) of (Some x, Some y) \<Rightarrow> Some (x \<le> y) | _ \<Rightarrow> None)"
| "eval_cond r (Lt a b) =
     (case (term_value r a, term_value r b) of (Some x, Some y) \<Rightarrow> Some (x < y) | _ \<Rightarrow> None)"
| "eval_cond r (IsNull c) = Some (r c = None)"
| "eval_cond r (IsNotNull c) = Some (r c \<noteq> None)"
| "eval_cond r (Both p q) = and3 (eval_cond r p) (eval_cond r q)"
| "eval_cond r (Either p q) = or3 (eval_cond r p) (eval_cond r q)"

text \<open>A \<open>CHECK\<close> is violated by false only.\<close>

definition check_passes :: "sql_row \<Rightarrow> sql_cond \<Rightarrow> bool" where
  "check_passes r c \<longleftrightarrow> eval_cond r c \<noteq> Some False"

fun cond_columns :: "sql_cond \<Rightarrow> string list" where
  "cond_columns (OneOf c ts) = [c]"
| "cond_columns (Le a b) = concat (map (\<lambda>t. case t of Col c \<Rightarrow> [c] | Lit _ \<Rightarrow> []) [a, b])"
| "cond_columns (Lt a b) = concat (map (\<lambda>t. case t of Col c \<Rightarrow> [c] | Lit _ \<Rightarrow> []) [a, b])"
| "cond_columns (IsNull c) = [c]"
| "cond_columns (IsNotNull c) = [c]"
| "cond_columns (Both p q) = cond_columns p @ cond_columns q"
| "cond_columns (Either p q) = cond_columns p @ cond_columns q"

section \<open>Tables\<close>

text \<open>A server default: \<open>now()\<close>, an empty JSON array, or a text.\<close>

datatype sql_default = DefaultNow | DefaultEmptyArray | DefaultText string

record column =
  co_name :: string
  co_type :: sql_type
  co_nullable :: bool
  co_default :: "sql_default option"

record foreign_key =
  fk_name :: string
  fk_columns :: "string list"
  fk_table :: string
  fk_references :: "string list"

record index =
  ix_name :: string
  ix_columns :: "string list"
  ix_unique :: bool

record table_schema =
  tb_name :: string
  tb_columns :: "column list"
  tb_primary_key :: "string list"
  tb_foreign_keys :: "foreign_key list"
  tb_uniques :: "(string \<times> string list) list"
  tb_checks :: "(string \<times> sql_cond) list"
  tb_indexes :: "index list"

record table = table_schema +
  tb_rows :: "sql_row list"

text \<open>Shorthands for the \<open>Column\<close> calls of the sources\<close>

definition column :: "string \<Rightarrow> sql_type \<Rightarrow> bool \<Rightarrow> column" where
  "column c t nullable = \<lparr>co_name = c, co_type = t, co_nullable = nullable, co_default = None\<rparr>"

definition required_column :: "string \<Rightarrow> sql_type \<Rightarrow> column" where
  "required_column c t = column c t False"

definition nullable_column :: "string \<Rightarrow> sql_type \<Rightarrow> column" where
  "nullable_column c t = column c t True"

definition default_column :: "string \<Rightarrow> sql_type \<Rightarrow> sql_default \<Rightarrow> column" where
  "default_column c t d = (column c t False)\<lparr>co_default := Some d\<rparr>"

text \<open>The name PostgreSQL gives to a foreign key of one column that is declared without one\<close>

definition column_reference :: "string \<Rightarrow> string \<Rightarrow> string \<Rightarrow> string \<Rightarrow> foreign_key" where
  "column_reference t c ref_table ref_column =
     \<lparr>fk_name = t @ ''_'' @ c @ ''_fkey'', fk_columns = [c], fk_table = ref_table, fk_references = [ref_column]\<rparr>"

definition index_on :: "string \<Rightarrow> string list \<Rightarrow> index" where
  "index_on name cols = \<lparr>ix_name = name, ix_columns = cols, ix_unique = False\<rparr>"

section \<open>Rows of a table\<close>

definition key_of :: "sql_row \<Rightarrow> string list \<Rightarrow> sql_value list option" where
  "key_of r cols = (if list_ex (\<lambda>c. r c = None) cols then None else Some (map (\<lambda>c. the (r c)) cols))"

text \<open>\<open>UNIQUE\<close>: no two rows agree on the columns, rows with a \<open>NULL\<close> there not counting.\<close>

definition unique_rows :: "sql_row list \<Rightarrow> string list \<Rightarrow> bool" where
  "unique_rows rows cols \<longleftrightarrow> distinct (filter (\<lambda>k. k \<noteq> None) (map (\<lambda>r. key_of r cols) rows))"

definition refers :: "sql_row list \<Rightarrow> foreign_key \<Rightarrow> sql_row \<Rightarrow> bool" where
  "refers target fk r \<longleftrightarrow>
     key_of r (fk_columns fk) = None
     \<or> list_ex (\<lambda>t. key_of t (fk_references fk) = key_of r (fk_columns fk)) target"

fun has_type :: "sql_type \<Rightarrow> sql_value \<Rightarrow> bool" where
  "has_type (SqlString n) (VText s) = (length s \<le> n \<and> postgres_text s)"
| "has_type SqlUuid (VUuid _) = True"
| "has_type SqlBoolean (VBool _) = True"
| "has_type SqlInteger (VInt n) = (- (2 ^ 31) \<le> n \<and> n < 2 ^ 31)"
| "has_type SqlFloat (VFloat _) = True"
| "has_type SqlJsonb (VJson v) = postgres_json v"
| "has_type SqlTimestamp (VTime _) = True"
| "has_type _ _ = False"

definition fits_column :: "sql_row \<Rightarrow> column \<Rightarrow> bool" where
  "fits_column r c = (case r (co_name c) of None \<Rightarrow> co_nullable c | Some v \<Rightarrow> has_type (co_type c) v)"

text \<open>A row that an \<open>INSERT\<close> of it alone would not be refused for\<close>

definition storable :: "'a table_schema_scheme \<Rightarrow> sql_row \<Rightarrow> bool" where
  "storable t r \<longleftrightarrow>
     list_all (fits_column r) (tb_columns t) \<and> list_all (\<lambda>(_, c). check_passes r c) (tb_checks t)"

section \<open>Schema operations\<close>

type_synonym sql_database = "table list"

datatype sql_error =
    NoSuchTable string | TableExists string | NoSuchColumn string | ColumnExists string
  | NoSuchConstraint string | NameExists string | StillReferenced string | ViolatedByRow string

datatype ddl =
    CreateTable table_schema
  | DropTable string
  | RenameTable string string
  | AddColumn string column
  | DropColumn string string
  | SetNullable string string bool
  | CreateCheck string string sql_cond
  | CreateForeignKey string foreign_key
  | DropCheck string string
  | DropCheckIfExists string string
  | DropForeignKey string string
  | CreateIndex string index
  | DropIndex string string
  | FillFrom string string string

definition get_table :: "string \<Rightarrow> sql_database \<Rightarrow> table option" where
  "get_table n db = row_get tb_name n db"

definition put_table :: "table \<Rightarrow> sql_database \<Rightarrow> sql_database" where
  "put_table t db = row_put tb_name t db"

definition on_table :: "string \<Rightarrow> (table \<Rightarrow> sql_error + table) \<Rightarrow> sql_database \<Rightarrow> sql_error + sql_database" where
  "on_table n f db =
     (case get_table n db of
        None \<Rightarrow> Inl (NoSuchTable n)
      | Some t \<Rightarrow> (case f t of Inl e \<Rightarrow> Inl e | Inr t' \<Rightarrow> Inr (put_table t' db)))"

definition column_names :: "'a table_schema_scheme \<Rightarrow> string list" where
  "column_names t = map co_name (tb_columns t)"

text \<open>Tables, other than the one named, whose foreign keys refer to it\<close>

definition referencing :: "string \<Rightarrow> (foreign_key \<Rightarrow> bool) \<Rightarrow> sql_database \<Rightarrow> bool" where
  "referencing n p db \<longleftrightarrow>
     list_ex (\<lambda>t. tb_name t \<noteq> n \<and> list_ex (\<lambda>fk. fk_table fk = n \<and> p fk) (tb_foreign_keys t)) db"

definition default_value :: "instant \<Rightarrow> sql_default \<Rightarrow> sql_value" where
  "default_value now d =
     (case d of DefaultNow \<Rightarrow> VTime now | DefaultEmptyArray \<Rightarrow> VJson (PySeq []) | DefaultText s \<Rightarrow> VText s)"

definition add_column :: "instant \<Rightarrow> column \<Rightarrow> table \<Rightarrow> sql_error + table" where
  "add_column now c t =
     (if co_name c \<in> set (column_names t) then Inl (ColumnExists (co_name c))
      else if \<not> co_nullable c \<and> co_default c = None \<and> tb_rows t \<noteq> [] then Inl (ViolatedByRow (co_name c))
      else Inr (t\<lparr>tb_columns := tb_columns t @ [c],
                  tb_rows := map (\<lambda>r. r(co_name c := map_option (default_value now) (co_default c))) (tb_rows t)\<rparr>))"

text \<open>Dropping a column drops the constraints and indexes of the table that involve it.\<close>

definition drop_column :: "string \<Rightarrow> table \<Rightarrow> sql_error + table" where
  "drop_column c t =
     (if c \<notin> set (column_names t) then Inl (NoSuchColumn c)
      else Inr (t\<lparr>tb_columns := filter (\<lambda>x. co_name x \<noteq> c) (tb_columns t),
                  tb_foreign_keys := filter (\<lambda>fk. c \<notin> set (fk_columns fk)) (tb_foreign_keys t),
                  tb_uniques := filter (\<lambda>(_, cols). c \<notin> set cols) (tb_uniques t),
                  tb_checks := filter (\<lambda>(_, cond). c \<notin> set (cond_columns cond)) (tb_checks t),
                  tb_indexes := filter (\<lambda>i. c \<notin> set (ix_columns i)) (tb_indexes t),
                  tb_rows := map (\<lambda>r. r(c := None)) (tb_rows t)\<rparr>))"

definition set_nullable :: "string \<Rightarrow> bool \<Rightarrow> table \<Rightarrow> sql_error + table" where
  "set_nullable c nullable t =
     (if c \<notin> set (column_names t) then Inl (NoSuchColumn c)
      else if \<not> nullable \<and> list_ex (\<lambda>r. r c = None) (tb_rows t) then Inl (ViolatedByRow c)
      else Inr (t\<lparr>tb_columns := map (\<lambda>x. if co_name x = c then x\<lparr>co_nullable := nullable\<rparr> else x) (tb_columns t)\<rparr>))"

definition constraint_names :: "'a table_schema_scheme \<Rightarrow> string list" where
  "constraint_names t = map fk_name (tb_foreign_keys t) @ map fst (tb_uniques t) @ map fst (tb_checks t)"

definition create_check :: "string \<Rightarrow> sql_cond \<Rightarrow> table \<Rightarrow> sql_error + table" where
  "create_check n cond t =
     (if n \<in> set (constraint_names t) then Inl (NameExists n)
      else if list_ex (\<lambda>c. c \<notin> set (column_names t)) (cond_columns cond) then Inl (NoSuchColumn n)
      else if \<not> list_all (\<lambda>r. check_passes r cond) (tb_rows t) then Inl (ViolatedByRow n)
      else Inr (t\<lparr>tb_checks := tb_checks t @ [(n, cond)]\<rparr>))"

definition create_index :: "index \<Rightarrow> table \<Rightarrow> sql_error + table" where
  "create_index i t =
     (if list_ex (\<lambda>c. c \<notin> set (column_names t)) (ix_columns i) then Inl (NoSuchColumn (ix_name i))
      else if ix_unique i \<and> \<not> unique_rows (tb_rows t) (ix_columns i) then Inl (ViolatedByRow (ix_name i))
      else Inr (t\<lparr>tb_indexes := tb_indexes t @ [i]\<rparr>))"

definition create_foreign_key :: "table \<Rightarrow> foreign_key \<Rightarrow> table \<Rightarrow> sql_error + table" where
  "create_foreign_key target fk t =
     (if fk_name fk \<in> set (constraint_names t) then Inl (NameExists (fk_name fk))
      else if list_ex (\<lambda>c. c \<notin> set (column_names t)) (fk_columns fk)
              \<or> list_ex (\<lambda>c. c \<notin> set (column_names target)) (fk_references fk)
      then Inl (NoSuchColumn (fk_name fk))
      else if \<not> list_all (refers (tb_rows target) fk) (tb_rows t) then Inl (ViolatedByRow (fk_name fk))
      else Inr (t\<lparr>tb_foreign_keys := tb_foreign_keys t @ [fk]\<rparr>))"

definition fill_from :: "string \<Rightarrow> string \<Rightarrow> table \<Rightarrow> sql_error + table" where
  "fill_from c source t =
     (if c \<notin> set (column_names t) \<or> source \<notin> set (column_names t) then Inl (NoSuchColumn c)
      else Inr (t\<lparr>tb_rows := map (\<lambda>r. if r c = None then r(c := r source) else r) (tb_rows t)\<rparr>))"

definition drop_named :: "string \<Rightarrow> bool \<Rightarrow> table \<Rightarrow> sql_error + table" where
  "drop_named n must_exist t =
     (if must_exist \<and> n \<notin> fst ` set (tb_checks t) then Inl (NoSuchConstraint n)
      else Inr (t\<lparr>tb_checks := filter (\<lambda>(m, _). m \<noteq> n) (tb_checks t)\<rparr>))"

definition index_names :: "sql_database \<Rightarrow> string list" where
  "index_names db = concat (map (\<lambda>t. map ix_name (tb_indexes t)) db)"

text \<open>\<open>now\<close> is the time of the transaction, for \<open>now()\<close>.\<close>

fun apply_ddl :: "instant \<Rightarrow> ddl \<Rightarrow> sql_database \<Rightarrow> sql_error + sql_database" where
  "apply_ddl now (CreateTable s) db =
     (if get_table (tb_name s) db \<noteq> None then Inl (TableExists (tb_name s))
      else if list_ex (\<lambda>fk. get_table (fk_table fk) db = None \<and> fk_table fk \<noteq> tb_name s) (tb_foreign_keys s)
      then Inl (NoSuchTable (tb_name s))
      else Inr (db @ [table_schema.extend s (table.fields [])]))"
| "apply_ddl now (DropTable n) db =
     (if get_table n db = None then Inl (NoSuchTable n)
      else if referencing n (\<lambda>_. True) db then Inl (StillReferenced n)
      else Inr (filter (\<lambda>t. tb_name t \<noteq> n) db))"
| "apply_ddl now (RenameTable n m) db =
     (if get_table n db = None then Inl (NoSuchTable n)
      else if get_table m db \<noteq> None then Inl (TableExists m)
      else Inr (map (\<lambda>t. let t = (if tb_name t = n then t\<lparr>tb_name := m\<rparr> else t)
                         in t\<lparr>tb_foreign_keys := map (\<lambda>fk. if fk_table fk = n then fk\<lparr>fk_table := m\<rparr> else fk)
                                (tb_foreign_keys t)\<rparr>) db))"
| "apply_ddl now (AddColumn n c) db = on_table n (add_column now c) db"
| "apply_ddl now (DropColumn n c) db =
     (if referencing n (\<lambda>fk. c \<in> set (fk_references fk)) db then Inl (StillReferenced c)
      else on_table n (drop_column c) db)"
| "apply_ddl now (SetNullable n c b) db = on_table n (set_nullable c b) db"
| "apply_ddl now (CreateCheck k n cond) db = on_table n (create_check k cond) db"
| "apply_ddl now (CreateForeignKey n fk) db =
     (case get_table (fk_table fk) db of
        None \<Rightarrow> Inl (NoSuchTable (fk_table fk))
      | Some target \<Rightarrow> on_table n (create_foreign_key target fk) db)"
| "apply_ddl now (DropCheck k n) db = on_table n (drop_named k True) db"
| "apply_ddl now (DropCheckIfExists k n) db = on_table n (drop_named k False) db"
| "apply_ddl now (DropForeignKey k n) db =
     on_table n (\<lambda>t. if k \<notin> fk_name ` set (tb_foreign_keys t) then Inl (NoSuchConstraint k)
       else Inr (t\<lparr>tb_foreign_keys := filter (\<lambda>fk. fk_name fk \<noteq> k) (tb_foreign_keys t)\<rparr>)) db"
| "apply_ddl now (CreateIndex n i) db =
     (if ix_name i \<in> set (index_names db) then Inl (NameExists (ix_name i)) else on_table n (create_index i) db)"
| "apply_ddl now (DropIndex k n) db =
     on_table n (\<lambda>t. if k \<notin> ix_name ` set (tb_indexes t) then Inl (NoSuchConstraint k)
       else Inr (t\<lparr>tb_indexes := filter (\<lambda>i. ix_name i \<noteq> k) (tb_indexes t)\<rparr>)) db"
| "apply_ddl now (FillFrom n c source) db = on_table n (fill_from c source) db"

fun run_ddl :: "instant \<Rightarrow> ddl list \<Rightarrow> sql_database \<Rightarrow> sql_error + sql_database" where
  "run_ddl now [] db = Inr db"
| "run_ddl now (d # ds) db =
     (case apply_ddl now d db of Inl e \<Rightarrow> Inl e | Inr db' \<Rightarrow> run_ddl now ds db')"

section \<open>Schema and rows\<close>

text \<open>
  A database as a schema with the rows of each table.  An operation acts on the two parts separately:
  whether PostgreSQL accepts it is a condition on the schema (the same as for empty tables) and a
  condition on the rows, and the new rows are a function of the old ones.
\<close>

definition attach :: "sql_row list \<Rightarrow> table_schema \<Rightarrow> table" where
  "attach rows s = table_schema.extend s (table.fields rows)"

definition with_rows :: "(string \<Rightarrow> sql_row list) \<Rightarrow> table_schema list \<Rightarrow> sql_database" where
  "with_rows rs ss = map (\<lambda>s. attach (rs (tb_name s)) s) ss"

abbreviation bare :: "table_schema list \<Rightarrow> sql_database" where
  "bare ss \<equiv> with_rows (\<lambda>_. []) ss"

fun row_ok :: "(string \<Rightarrow> sql_row list) \<Rightarrow> ddl \<Rightarrow> bool" where
  "row_ok rs (AddColumn n c) = (co_nullable c \<or> co_default c \<noteq> None \<or> rs n = [])"
| "row_ok rs (SetNullable n c b) = (b \<or> \<not> list_ex (\<lambda>r. r c = None) (rs n))"
| "row_ok rs (CreateCheck k n cond) = list_all (\<lambda>r. check_passes r cond) (rs n)"
| "row_ok rs (CreateForeignKey n fk) = list_all (refers (rs (fk_table fk)) fk) (rs n)"
| "row_ok rs (CreateIndex n i) = (\<not> ix_unique i \<or> unique_rows (rs n) (ix_columns i))"
| "row_ok rs _ = True"

fun row_step :: "instant \<Rightarrow> (string \<Rightarrow> sql_row list) \<Rightarrow> ddl \<Rightarrow> string \<Rightarrow> sql_row list" where
  "row_step now rs (CreateTable s) = rs(tb_name s := [])"
| "row_step now rs (DropTable n) = rs(n := [])"
| "row_step now rs (RenameTable n m) = rs(m := rs n, n := [])"
| "row_step now rs (AddColumn n c) =
     rs(n := map (\<lambda>r. r(co_name c := map_option (default_value now) (co_default c))) (rs n))"
| "row_step now rs (DropColumn n c) = rs(n := map (\<lambda>r. r(c := None)) (rs n))"
| "row_step now rs (FillFrom n c source) = rs(n := map (\<lambda>r. if r c = None then r(c := r source) else r) (rs n))"
| "row_step now rs _ = rs"

fun rows_ok :: "instant \<Rightarrow> (string \<Rightarrow> sql_row list) \<Rightarrow> ddl list \<Rightarrow> bool" where
  "rows_ok now rs [] = True"
| "rows_ok now rs (d # ds) = (row_ok rs d \<and> rows_ok now (row_step now rs d) ds)"

definition row_steps :: "instant \<Rightarrow> (string \<Rightarrow> sql_row list) \<Rightarrow> ddl list \<Rightarrow> string \<Rightarrow> sql_row list" where
  "row_steps now rs ds = foldl (row_step now) rs ds"

subsection \<open>Operations on one table\<close>

lemma attach_simps [simp]:
  "tb_name (attach rows s) = tb_name s" "tb_columns (attach rows s) = tb_columns s"
  "tb_primary_key (attach rows s) = tb_primary_key s" "tb_foreign_keys (attach rows s) = tb_foreign_keys s"
  "tb_uniques (attach rows s) = tb_uniques s" "tb_checks (attach rows s) = tb_checks s"
  "tb_indexes (attach rows s) = tb_indexes s" "tb_rows (attach rows s) = rows"
  "column_names (attach rows s) = column_names s" "constraint_names (attach rows s) = constraint_names s"
  by (simp_all add: attach_def table_schema.defs table.defs column_names_def constraint_names_def)

lemma attach_inject [simp]: "attach rows s = attach rows' s' \<longleftrightarrow> rows = rows' \<and> s = s'"
  by (cases s; cases s') (auto simp: attach_def table_schema.defs table.defs)

lemma attach_update [simp]:
  "(attach rows s)\<lparr>tb_columns := cs\<rparr> = attach rows (s\<lparr>tb_columns := cs\<rparr>)"
  "(attach rows s)\<lparr>tb_foreign_keys := fks\<rparr> = attach rows (s\<lparr>tb_foreign_keys := fks\<rparr>)"
  "(attach rows s)\<lparr>tb_checks := ch\<rparr> = attach rows (s\<lparr>tb_checks := ch\<rparr>)"
  "(attach rows s)\<lparr>tb_indexes := is\<rparr> = attach rows (s\<lparr>tb_indexes := is\<rparr>)"
  "(attach rows s)\<lparr>tb_uniques := us\<rparr> = attach rows (s\<lparr>tb_uniques := us\<rparr>)"
  "(attach rows s)\<lparr>tb_name := n\<rparr> = attach rows (s\<lparr>tb_name := n\<rparr>)"
  "(attach rows s)\<lparr>tb_rows := rows'\<rparr> = attach rows' s"
  by (cases s; simp add: attach_def table_schema.defs table.defs)+

text \<open>How an operation on one table splits into its effect on the schema and on the rows\<close>

definition factors ::
    "(table \<Rightarrow> sql_error + table) \<Rightarrow> (table \<Rightarrow> sql_error + table) \<Rightarrow> (sql_row list \<Rightarrow> bool) \<Rightarrow>
     (sql_row list \<Rightarrow> sql_row list) \<Rightarrow> bool" where
  "factors f f0 ok g \<longleftrightarrow>
     (\<forall>rows s t. f (attach rows s) = Inr t \<longleftrightarrow>
        ok rows \<and> (\<exists>s'. f0 (attach [] s) = Inr (attach [] s') \<and> tb_name s' = tb_name s \<and> t = attach (g rows) s'))
     \<and> (\<forall>s t. f0 (attach [] s) = Inr t \<longrightarrow> (\<exists>s'. t = attach [] s' \<and> tb_name s' = tb_name s))"

lemma factorsD:
  "factors f f0 ok g \<Longrightarrow> f (attach rows s) = Inr t \<longleftrightarrow>
     ok rows \<and> (\<exists>s'. f0 (attach [] s) = Inr (attach [] s') \<and> tb_name s' = tb_name s \<and> t = attach (g rows) s')"
  by (simp add: factors_def)

lemma factors_add_column:
  "factors (add_column now c) (add_column now0 c) (\<lambda>rows. co_nullable c \<or> co_default c \<noteq> None \<or> rows = [])
     (map (\<lambda>r. r(co_name c := map_option (default_value now) (co_default c))))"
  unfolding factors_def add_column_def by auto

lemma factors_drop_column: "factors (drop_column c) (drop_column c) (\<lambda>_. True) (map (\<lambda>r. r(c := None)))"
  unfolding factors_def drop_column_def by auto

lemma factors_set_nullable:
  "factors (set_nullable c b) (set_nullable c b) (\<lambda>rows. b \<or> \<not> list_ex (\<lambda>r. r c = None) rows) (\<lambda>rows. rows)"
  unfolding factors_def set_nullable_def by auto

lemma factors_create_check:
  "factors (create_check k cond) (create_check k cond) (\<lambda>rows. list_all (\<lambda>r. check_passes r cond) rows) (\<lambda>rows. rows)"
  unfolding factors_def create_check_def by auto

lemma factors_create_index:
  "factors (create_index i) (create_index i) (\<lambda>rows. \<not> ix_unique i \<or> unique_rows rows (ix_columns i)) (\<lambda>rows. rows)"
  unfolding factors_def create_index_def by (auto simp: unique_rows_def)

lemma factors_create_foreign_key:
  "factors (create_foreign_key (attach target s2) fk) (create_foreign_key (attach [] s2) fk)
     (\<lambda>rows. list_all (refers target fk) rows) (\<lambda>rows. rows)"
  unfolding factors_def create_foreign_key_def by auto

lemma factors_fill_from:
  "factors (fill_from c source) (fill_from c source) (\<lambda>_. True)
     (map (\<lambda>r. if r c = None then r(c := r source) else r))"
  unfolding factors_def fill_from_def by auto

lemma factors_drop_named: "factors (drop_named k b) (drop_named k b) (\<lambda>_. True) (\<lambda>rows. rows)"
  unfolding factors_def drop_named_def by auto

lemma factors_drop_foreign_key:
  "factors (\<lambda>t. if k \<notin> fk_name ` set (tb_foreign_keys t) then Inl (NoSuchConstraint k)
       else Inr (t\<lparr>tb_foreign_keys := filter (\<lambda>fk. fk_name fk \<noteq> k) (tb_foreign_keys t)\<rparr>))
     (\<lambda>t. if k \<notin> fk_name ` set (tb_foreign_keys t) then Inl (NoSuchConstraint k)
       else Inr (t\<lparr>tb_foreign_keys := filter (\<lambda>fk. fk_name fk \<noteq> k) (tb_foreign_keys t)\<rparr>)) (\<lambda>_. True) (\<lambda>rows. rows)"
  unfolding factors_def by auto

lemma factors_drop_index:
  "factors (\<lambda>t. if k \<notin> ix_name ` set (tb_indexes t) then Inl (NoSuchConstraint k)
       else Inr (t\<lparr>tb_indexes := filter (\<lambda>i. ix_name i \<noteq> k) (tb_indexes t)\<rparr>))
     (\<lambda>t. if k \<notin> ix_name ` set (tb_indexes t) then Inl (NoSuchConstraint k)
       else Inr (t\<lparr>tb_indexes := filter (\<lambda>i. ix_name i \<noteq> k) (tb_indexes t)\<rparr>)) (\<lambda>_. True) (\<lambda>rows. rows)"
  unfolding factors_def by auto

subsection \<open>Operations on the database\<close>

lemma get_table_with_rows: "get_table n (with_rows rs ss) = map_option (attach (rs n)) (row_get tb_name n ss)"
  unfolding get_table_def with_rows_def by (induction ss) auto

lemma put_table_with_rows:
  assumes "tb_name s' = n"
  shows "put_table (attach rows s') (with_rows rs ss) = with_rows (rs(n := rows)) (row_put tb_name s' ss)"
  unfolding put_table_def with_rows_def row_put_def using assms by auto

lemma bare_inject: "bare x = bare y \<longleftrightarrow> x = y"
  unfolding with_rows_def by (rule inj_map_eq_map) (simp add: inj_def)

lemma on_table_factors:
  assumes "factors f f0 ok g"
  shows "on_table n f (with_rows rs ss) = Inr db \<longleftrightarrow>
    ok (rs n) \<and> (\<exists>ss'. on_table n f0 (bare ss) = Inr (bare ss') \<and> db = with_rows (rs(n := g (rs n))) ss')"
proof (cases "row_get tb_name n ss")
  case None
  then show ?thesis by (simp add: on_table_def get_table_with_rows)
next
  case (Some s)
  then have n: "tb_name s = n" by (blast dest: row_get_SomeD)
  have same: "(\<lambda>_. [])(n := []) = (\<lambda>_. [] :: sql_row list)" by auto
  have upd: "put_table (attach [] s') (bare ss) = bare (row_put tb_name s' ss)" if "tb_name s' = n" for s'
    using put_table_with_rows [OF that, of "[]" "\<lambda>_. []" ss] by (simp add: same)
  have "on_table n f (with_rows rs ss) = Inr db \<longleftrightarrow> (\<exists>t. f (attach (rs n) s) = Inr t \<and> db = put_table t (with_rows rs ss))"
    using Some by (auto simp: on_table_def get_table_with_rows split: sum.splits)
  also have "\<dots> \<longleftrightarrow> ok (rs n) \<and> (\<exists>s'. f0 (attach [] s) = Inr (attach [] s') \<and> tb_name s' = n
      \<and> db = with_rows (rs(n := g (rs n))) (row_put tb_name s' ss))"
    unfolding factorsD [OF assms] n by (auto simp: put_table_with_rows)
  also have "\<dots> \<longleftrightarrow> ok (rs n) \<and> (\<exists>ss'. on_table n f0 (bare ss) = Inr (bare ss') \<and> db = with_rows (rs(n := g (rs n))) ss')"
  proof -
    have split_off: "on_table n f0 (bare ss) = Inr (bare ss') \<longleftrightarrow>
        (\<exists>s'. f0 (attach [] s) = Inr (attach [] s') \<and> tb_name s' = n \<and> ss' = row_put tb_name s' ss)" for ss'
    proof (cases "f0 (attach [] s)")
      case (Inl e)
      then show ?thesis using Some by (simp add: on_table_def get_table_with_rows)
    next
      case (Inr t)
      then have "\<exists>s'. t = attach [] s' \<and> tb_name s' = tb_name s" using assms unfolding factors_def by blast
      then obtain s0 where s0: "t = attach [] s0" "tb_name s0 = n" using n by blast
      have on: "on_table n f0 (bare ss) = Inr (bare (row_put tb_name s0 ss))"
        by (simp only: on_table_def get_table_with_rows Some option.map option.case Inr sum.case s0(1) upd [OF s0(2)])
      have E: "(\<exists>s'. f0 (attach [] s) = Inr (attach [] s') \<and> tb_name s' = n \<and> ss' = row_put tb_name s' ss)
          \<longleftrightarrow> row_put tb_name s0 ss = ss'"
        unfolding Inr s0(1) using s0(2) by auto
      have "on_table n f0 (bare ss) = Inr (bare ss') \<longleftrightarrow> row_put tb_name s0 ss = ss'"
        unfolding on using bare_inject [of "row_put tb_name s0 ss" ss'] by simp
      then show ?thesis using E [symmetric] by (rule trans)
    qed
    show ?thesis unfolding split_off by auto
  qed
  finally show ?thesis .
qed

lemma bare_same: "(\<lambda>_. [])(n := []) = (\<lambda>_. [] :: sql_row list)"
  by auto

lemma referencing_with_rows [simp]:
  "referencing n p (with_rows rs ss) \<longleftrightarrow>
     list_ex (\<lambda>s. tb_name s \<noteq> n \<and> list_ex (\<lambda>fk. fk_table fk = n \<and> p fk) (tb_foreign_keys s)) ss"
  by (simp add: referencing_def with_rows_def list_ex_iff)

lemma index_names_with_rows [simp]: "index_names (with_rows rs ss) = concat (map (\<lambda>s. map ix_name (tb_indexes s)) ss)"
  by (simp add: index_names_def with_rows_def comp_def)

lemma get_table_None [simp]: "get_table n (with_rows rs ss) = None \<longleftrightarrow> n \<notin> tb_name ` set ss"
  by (simp add: get_table_with_rows row_get_None_iff)

text \<open>The schema part of a step\<close>

definition schema_step :: "instant \<Rightarrow> ddl \<Rightarrow> table_schema list \<Rightarrow> table_schema list \<Rightarrow> bool" where
  "schema_step now d ss ss' \<longleftrightarrow> apply_ddl now d (bare ss) = Inr (bare ss')"

lemma apply_ddl_create:
  "apply_ddl now (CreateTable s) (with_rows rs ss) = Inr db \<longleftrightarrow>
     (\<exists>ss'. schema_step now0 (CreateTable s) ss ss' \<and> db = with_rows (rs(tb_name s := [])) ss')"
proof -
  have "with_rows rs ss @ [attach [] s] = with_rows (rs(tb_name s := [])) (ss @ [s])"
    if new: "tb_name s \<notin> tb_name ` set ss" for rs
  proof -
    have "tb_name x \<noteq> tb_name s" if "x \<in> set ss" for x using new that by (metis imageI)
    then show ?thesis by (auto simp: with_rows_def)
  qed
  from this [of rs] this [of "\<lambda>_. []"] show ?thesis
    by (auto simp: schema_step_def attach_def [symmetric] bare_same bare_inject)
qed

lemma apply_ddl_drop:
  "apply_ddl now (DropTable n) (with_rows rs ss) = Inr db \<longleftrightarrow>
     (\<exists>ss'. schema_step now0 (DropTable n) ss ss' \<and> db = with_rows (rs(n := [])) ss')"
proof -
  have "filter (\<lambda>t. tb_name t \<noteq> n) (with_rows rs ss) = with_rows (rs(n := [])) (filter (\<lambda>s. tb_name s \<noteq> n) ss)" for rs
    unfolding with_rows_def by (induction ss) auto
  from this [of rs] this [of "\<lambda>_. []"] show ?thesis
    by (auto simp: schema_step_def bare_same bare_inject)
qed

lemma apply_ddl_rename:
  "apply_ddl now (RenameTable n m) (with_rows rs ss) = Inr db \<longleftrightarrow>
     (\<exists>ss'. schema_step now0 (RenameTable n m) ss ss' \<and> db = with_rows (rs(m := rs n, n := [])) ss')"
proof -
  define f where "f s = (let s = (if tb_name s = n then s\<lparr>tb_name := m\<rparr> else s)
     in s\<lparr>tb_foreign_keys := map (\<lambda>fk. if fk_table fk = n then fk\<lparr>fk_table := m\<rparr> else fk) (tb_foreign_keys s)\<rparr>)"
    for s :: table_schema
  have eq: "map (\<lambda>t. let t = (if tb_name t = n then t\<lparr>tb_name := m\<rparr> else t)
           in t\<lparr>tb_foreign_keys := map (\<lambda>fk. if fk_table fk = n then fk\<lparr>fk_table := m\<rparr> else fk) (tb_foreign_keys t)\<rparr>)
        (with_rows rs ss) = with_rows (rs(m := rs n, n := [])) (map f ss)"
    if new: "m \<notin> tb_name ` set ss" "n \<in> tb_name ` set ss" for rs
  proof -
    have "tb_name x \<noteq> m" if "x \<in> set ss" for x using new(1) that by (metis imageI)
    moreover have "m \<noteq> n" using new by auto
    ultimately show ?thesis by (auto simp: with_rows_def f_def Let_def)
  qed
  have same: "(\<lambda>_. [])(m := [], n := []) = (\<lambda>_. [] :: sql_row list)" by auto
  from eq [of rs] eq [of "\<lambda>_. []"] show ?thesis
    by (auto simp: schema_step_def same bare_inject)
qed

lemma apply_ddl_factors:
  "apply_ddl now d (with_rows rs ss) = Inr db \<longleftrightarrow>
     row_ok rs d \<and> (\<exists>ss'. schema_step now0 d ss ss' \<and> db = with_rows (row_step now rs d) ss')"
proof (cases d)
  case (CreateTable s)
  then show ?thesis using apply_ddl_create by simp
next
  case (DropTable n)
  then show ?thesis using apply_ddl_drop by simp
next
  case (RenameTable n m)
  then show ?thesis using apply_ddl_rename by simp
next
  case (AddColumn n c)
  then show ?thesis using on_table_factors [OF factors_add_column, where n = n and rs = rs and ss = ss and db = db] by (simp add: schema_step_def)
next
  case (DropColumn n c)
  then show ?thesis
    using on_table_factors [OF factors_drop_column, where n = n and rs = rs and ss = ss and db = db]
    by (cases "referencing n (\<lambda>fk. c \<in> set (fk_references fk)) (bare ss)") (simp_all add: schema_step_def)
next
  case (SetNullable n c b)
  then show ?thesis using on_table_factors [OF factors_set_nullable, where n = n and rs = rs and ss = ss and db = db] by (simp add: schema_step_def)
next
  case (CreateCheck k n cond)
  then show ?thesis using on_table_factors [OF factors_create_check, where n = n and rs = rs and ss = ss and db = db] by (simp add: schema_step_def)
next
  case (CreateForeignKey n fk)
  show ?thesis
  proof (cases "row_get tb_name (fk_table fk) ss")
    case None
    then show ?thesis using CreateForeignKey by (simp add: schema_step_def get_table_with_rows)
  next
    case (Some s2)
    then show ?thesis
      using on_table_factors [OF factors_create_foreign_key, of n "rs (fk_table fk)" s2 fk rs ss db] CreateForeignKey
      by (simp add: schema_step_def get_table_with_rows)
  qed
next
  case (DropCheck k n)
  then show ?thesis using on_table_factors [OF factors_drop_named, where n = n and rs = rs and ss = ss and db = db] by (simp add: schema_step_def)
next
  case (DropCheckIfExists k n)
  then show ?thesis using on_table_factors [OF factors_drop_named, where n = n and rs = rs and ss = ss and db = db] by (simp add: schema_step_def)
next
  case (DropForeignKey k n)
  then show ?thesis using on_table_factors [OF factors_drop_foreign_key, where n = n and rs = rs and ss = ss and db = db] by (simp add: schema_step_def)
next
  case (CreateIndex n i)
  then show ?thesis
    using on_table_factors [OF factors_create_index, where n = n and rs = rs and ss = ss and db = db]
    by (cases "ix_name i \<in> set (index_names (bare ss))") (simp_all add: schema_step_def)
next
  case (DropIndex k n)
  then show ?thesis using on_table_factors [OF factors_drop_index, where n = n and rs = rs and ss = ss and db = db] by (simp add: schema_step_def)
next
  case (FillFrom n c source)
  then show ?thesis using on_table_factors [OF factors_fill_from, where n = n and rs = rs and ss = ss and db = db] by (simp add: schema_step_def)
qed

lemma schema_step_unique: "schema_step now d ss x \<Longrightarrow> schema_step now d ss y \<Longrightarrow> x = y"
  by (simp add: schema_step_def bare_inject)

lemma run_ddl_append:
  "run_ddl now (xs @ ys) db = (case run_ddl now xs db of Inl e \<Rightarrow> Inl e | Inr db' \<Rightarrow> run_ddl now ys db')"
  by (induction xs arbitrary: db) (auto split: sum.splits)

text \<open>A whole migration: the schema changes as on empty tables, whatever the time, and it is refused
  for its rows exactly when \<open>rows_ok\<close> says so.\<close>

theorem run_ddl_factors:
  "run_ddl now ds (with_rows rs ss) = Inr db \<longleftrightarrow>
     rows_ok now rs ds \<and> (\<exists>ss'. run_ddl now0 ds (bare ss) = Inr (bare ss') \<and> db = with_rows (row_steps now rs ds) ss')"
proof (induction ds arbitrary: rs ss)
  case Nil
  then show ?case by (auto simp: row_steps_def bare_inject)
next
  case (Cons d ds)
  have bare_all: "run_ddl now0 (d # ds) (bare ss) = Inr (bare ss') \<longleftrightarrow>
      (\<exists>s1. schema_step now0 d ss s1 \<and> run_ddl now0 ds (bare s1) = Inr (bare ss'))" for ss'
  proof (cases "apply_ddl now0 d (bare ss)")
    case (Inl e)
    then show ?thesis by (simp add: schema_step_def)
  next
    case (Inr x)
    then obtain s1 where "schema_step now0 d ss s1" "x = with_rows (row_step now0 (\<lambda>_. []) d) s1"
      using apply_ddl_factors [of now0 d "\<lambda>_. []" ss x now0] by blast
    moreover from this Inr have "x = bare s1" by (simp add: schema_step_def)
    ultimately show ?thesis using Inr by (auto simp: schema_step_def bare_inject)
  qed
  have "run_ddl now (d # ds) (with_rows rs ss) = Inr db \<longleftrightarrow>
      (\<exists>x. apply_ddl now d (with_rows rs ss) = Inr x \<and> run_ddl now ds x = Inr db)"
    by (auto split: sum.splits)
  also have "\<dots> \<longleftrightarrow> row_ok rs d \<and> (\<exists>s1. schema_step now0 d ss s1
      \<and> run_ddl now ds (with_rows (row_step now rs d) s1) = Inr db)"
    unfolding apply_ddl_factors [of now d rs ss _ now0] by blast
  finally show ?case unfolding bare_all Cons.IH by (auto simp: row_steps_def)
qed

text \<open>What schema operations do to a schema, the rows left aside\<close>

definition schema_of :: "sql_database \<Rightarrow> table_schema list" where
  "schema_of db = map table_schema.truncate db"

definition schema_run :: "ddl list \<Rightarrow> table_schema list \<Rightarrow> sql_error + table_schema list" where
  "schema_run ds ss = map_sum id schema_of (run_ddl 0 ds (bare ss))"

lemma schema_of_with_rows [simp]: "schema_of (with_rows rs ss) = ss"
  unfolding schema_of_def with_rows_def
  by (induction ss) (auto simp: attach_def table_schema.defs table.defs)

lemma row_step_empty: "row_step now (\<lambda>_. []) d = (\<lambda>_. [])"
  by (cases d) auto

lemma row_steps_empty: "row_steps now (\<lambda>_. []) ds = (\<lambda>_. [])"
  unfolding row_steps_def by (induction ds) (simp_all add: row_step_empty)

lemma rows_ok_empty: "rows_ok now (\<lambda>_. []) ds"
proof (induction ds)
  case (Cons d ds)
  then show ?case by (cases d) (simp_all add: row_step_empty unique_rows_def)
qed simp

lemma schema_run_iff: "schema_run ds ss = Inr ss' \<longleftrightarrow> run_ddl now ds (bare ss) = Inr (bare ss')"
proof -
  have schema: "db = bare (schema_of db)" if "run_ddl 0 ds (bare ss) = Inr db" for db
  proof -
    obtain s1 where "db = with_rows (row_steps 0 (\<lambda>_. []) ds) s1"
      using \<open>run_ddl 0 ds (bare ss) = Inr db\<close> run_ddl_factors [of 0 ds "\<lambda>_. []" ss db 0] by blast
    then show ?thesis by (simp add: row_steps_empty)
  qed
  have "schema_run ds ss = Inr ss' \<longleftrightarrow> run_ddl 0 ds (bare ss) = Inr (bare ss')"
  proof (cases "run_ddl 0 ds (bare ss)")
    case (Inl e)
    then show ?thesis by (simp add: schema_run_def)
  next
    case (Inr db)
    then show ?thesis using schema [OF Inr] by (auto simp: schema_run_def)
  qed
  also have "\<dots> \<longleftrightarrow> run_ddl now ds (bare ss) = Inr (bare ss')"
    using run_ddl_factors [of 0 ds "\<lambda>_. []" ss "bare ss'" now]
    unfolding row_steps_empty bare_inject using rows_ok_empty by simp
  finally show ?thesis .
qed

lemma run_ddl_by_schema:
  assumes "schema_run ds ss = Inr ss'"
  shows "run_ddl now ds (with_rows rs ss) = Inr db \<longleftrightarrow>
    rows_ok now rs ds \<and> db = with_rows (row_steps now rs ds) ss'"
  using run_ddl_factors [of now ds rs ss db 0] assms [unfolded schema_run_iff [where now = 0]]
  by (auto simp: bare_inject)

lemma schema_run_append:
  "schema_run ds ss = Inr s1 \<Longrightarrow> schema_run ds' s1 = Inr s2 \<Longrightarrow> schema_run (ds @ ds') ss = Inr s2"
  unfolding schema_run_iff [where now = 0] by (simp add: run_ddl_append)

lemma rows_ok_append:
  "rows_ok now rs (ds @ ds') \<longleftrightarrow> rows_ok now rs ds \<and> rows_ok now (row_steps now rs ds) ds'"
  by (induction ds arbitrary: rs) (simp_all add: row_steps_def)

lemma row_steps_append: "row_steps now rs (ds @ ds') = row_steps now (row_steps now rs ds) ds'"
  by (simp add: row_steps_def)

subsection \<open>Rows keep to the columns of their tables\<close>

definition rows_within :: "table \<Rightarrow> bool" where
  "rows_within t \<longleftrightarrow> (\<forall>r \<in> set (tb_rows t). dom r \<subseteq> set (column_names t))"

definition confined :: "sql_database \<Rightarrow> bool" where
  "confined db \<longleftrightarrow> list_all rows_within db"

lemma on_table_confined:
  assumes "on_table n f db = Inr db'" "confined db" and "\<And>t t'. f t = Inr t' \<Longrightarrow> rows_within t \<Longrightarrow> rows_within t'"
  shows "confined db'"
proof -
  obtain t t' where t: "get_table n db = Some t" and f: "f t = Inr t'" and db': "db' = put_table t' db"
    using assms(1) by (auto simp: on_table_def split: option.splits sum.splits)
  have "t \<in> set db" using t unfolding get_table_def by (blast dest: row_get_SomeD)
  then have "rows_within t'" using assms(2) assms(3) [OF f] by (auto simp: confined_def list_all_iff)
  then show ?thesis using assms(2) unfolding db' put_table_def row_put_def confined_def list_all_iff by auto
qed

lemma add_column_within: "add_column now c t = Inr t' \<Longrightarrow> rows_within t \<Longrightarrow> rows_within t'"
  by (fastforce simp: rows_within_def add_column_def column_names_def split: if_splits)

lemma drop_column_within: "drop_column k t = Inr t' \<Longrightarrow> rows_within t \<Longrightarrow> rows_within t'"
  by (fastforce simp: rows_within_def drop_column_def column_names_def split: if_splits)

lemma set_nullable_within: "set_nullable k b t = Inr t' \<Longrightarrow> rows_within t \<Longrightarrow> rows_within t'"
proof -
  assume "set_nullable k b t = Inr t'" and t: "rows_within t"
  then have t': "t' = t\<lparr>tb_columns := map (\<lambda>x. if co_name x = k then x\<lparr>co_nullable := b\<rparr> else x) (tb_columns t)\<rparr>"
    by (simp add: set_nullable_def split: if_splits)
  have "map co_name (map (\<lambda>x. if co_name x = k then x\<lparr>co_nullable := b\<rparr> else x) cs) = map co_name cs" for cs :: "column list"
    by (induction cs) auto
  moreover have "tb_columns t' = map (\<lambda>x. if co_name x = k then x\<lparr>co_nullable := b\<rparr> else x) (tb_columns t)"
    by (simp add: t')
  ultimately have "column_names t' = column_names t" unfolding column_names_def by (simp only:)
  then show ?thesis using t by (simp add: rows_within_def t')
qed

lemma fill_from_within: "fill_from k source t = Inr t' \<Longrightarrow> rows_within t \<Longrightarrow> rows_within t'"
proof -
  assume f: "fill_from k source t = Inr t'" and t: "rows_within t"
  have k: "k \<in> set (column_names t)" and t': "t' = t\<lparr>tb_rows := map (\<lambda>r. if r k = None then r(k := r source) else r) (tb_rows t)\<rparr>"
    using f by (simp_all add: fill_from_def split: if_split_asm)
  have dom: "dom (if r k = None then r(k := r source) else r) \<subseteq> C" if "dom r \<subseteq> C" "k \<in> C" for r :: sql_row and C
  proof -
    have "dom (r(k := r source)) \<subseteq> insert k (dom r)" by (simp add: subset_insertI2 insert_mono)
    then have "dom (r(k := r source)) \<subseteq> C" using that by blast
    then show ?thesis using that(1) by (simp split: if_split del: dom_fun_upd)
  qed
  have "column_names t' = column_names t" "tb_rows t' = map (\<lambda>r. if r k = None then r(k := r source) else r) (tb_rows t)"
    by (simp_all add: t' column_names_def)
  then show ?thesis using t dom [OF _ k] unfolding rows_within_def by (simp only: set_map ball_simps) blast
qed

text \<open>Constraints and indexes leave rows and columns alone.\<close>

definition keeps_rows :: "(table \<Rightarrow> sql_error + table) \<Rightarrow> bool" where
  "keeps_rows f \<longleftrightarrow> (\<forall>t t'. f t = Inr t' \<longrightarrow> tb_rows t' = tb_rows t \<and> tb_columns t' = tb_columns t)"

lemma keeps_rows_constraints:
  "keeps_rows (create_check k cond)" "keeps_rows (create_index i)"
  "keeps_rows (create_foreign_key target fk)" "keeps_rows (drop_named k b)"
  by (auto simp: keeps_rows_def create_check_def create_index_def create_foreign_key_def drop_named_def
      split: if_splits)

lemma keeps_rows_confined: "keeps_rows f \<Longrightarrow> on_table n f db = Inr db' \<Longrightarrow> confined db \<Longrightarrow> confined db'"
  by (erule (1) on_table_confined) (simp add: keeps_rows_def rows_within_def column_names_def)

lemma apply_ddl_confined:
  assumes "apply_ddl now d db = Inr db'" "confined db"
  shows "confined db'"
proof (cases d)
  case (CreateTable s)
  then have "db' = db @ [attach [] s]" using assms(1) by (simp add: attach_def split: if_splits)
  then show ?thesis using assms(2) by (simp add: confined_def rows_within_def)
next
  case (DropTable n)
  then have "db' = filter (\<lambda>t. tb_name t \<noteq> n) db" using assms(1) by (simp split: if_splits)
  then show ?thesis using assms(2) by (auto simp: confined_def list_all_iff)
next
  case (RenameTable n m)
  have "rows_within (let u = (if tb_name t = n then t\<lparr>tb_name := m\<rparr> else t)
      in u\<lparr>tb_foreign_keys := map (\<lambda>fk. if fk_table fk = n then fk\<lparr>fk_table := m\<rparr> else fk) (tb_foreign_keys u)\<rparr>)
    = rows_within t" for t
    by (simp add: rows_within_def column_names_def Let_def)
  then show ?thesis using RenameTable assms by (auto simp: confined_def list_all_iff split: if_splits)
next
  case (AddColumn n c)
  then show ?thesis using assms on_table_confined [OF _ _ add_column_within] by simp
next
  case (DropColumn n c)
  then show ?thesis using assms on_table_confined [OF _ _ drop_column_within] by (simp split: if_splits)
next
  case (SetNullable n c b)
  then show ?thesis using assms on_table_confined [OF _ _ set_nullable_within] by simp
next
  case (FillFrom n c source)
  then show ?thesis using assms on_table_confined [OF _ _ fill_from_within] by simp
next
  case (CreateCheck k n cond)
  then show ?thesis using assms keeps_rows_confined [OF keeps_rows_constraints(1)] by simp
next
  case (CreateForeignKey n fk)
  then show ?thesis using assms keeps_rows_confined [OF keeps_rows_constraints(3)] by (simp split: option.splits)
next
  case (DropCheck k n)
  then show ?thesis using assms keeps_rows_confined [OF keeps_rows_constraints(4)] by simp
next
  case (DropCheckIfExists k n)
  then show ?thesis using assms keeps_rows_confined [OF keeps_rows_constraints(4)] by simp
next
  case (DropForeignKey k n)
  show ?thesis using assms unfolding DropForeignKey apply_ddl.simps
    by (rule keeps_rows_confined [rotated]) (simp add: keeps_rows_def)
next
  case (CreateIndex n i)
  then show ?thesis using assms keeps_rows_confined [OF keeps_rows_constraints(2)] by (simp split: if_splits)
next
  case (DropIndex k n)
  show ?thesis using assms unfolding DropIndex apply_ddl.simps
    by (rule keeps_rows_confined [rotated]) (simp add: keeps_rows_def)
qed

lemma run_ddl_confined: "run_ddl now ds db = Inr db' \<Longrightarrow> confined db \<Longrightarrow> confined db'"
  by (induction ds arbitrary: db) (auto dest: apply_ddl_confined split: sum.splits)

text \<open>A database is its schema with the rows of its tables.\<close>

definition rows_of :: "sql_database \<Rightarrow> string \<Rightarrow> sql_row list" where
  "rows_of db t = (case get_table t db of None \<Rightarrow> [] | Some x \<Rightarrow> tb_rows x)"

lemma with_rows_of: "distinct (map tb_name db) \<Longrightarrow> with_rows (rows_of db) (schema_of db) = db"
proof -
  assume d: "distinct (map tb_name db)"
  have get: "get_table (tb_name t) db = Some t" if "t \<in> set db" for t
    unfolding get_table_def using d that by (induction db) auto
  have same: "attach (tb_rows t) (table_schema.truncate t) = t" for t :: table
    by (cases t) (simp add: attach_def table_schema.defs table.defs)
  have "attach (rows_of db (tb_name (table_schema.truncate t))) (table_schema.truncate t) = t" if "t \<in> set db" for t
    using get [OF that] same [of t] by (simp add: rows_of_def table_schema.defs)
  then show ?thesis by (simp add: with_rows_def schema_of_def map_idI)
qed

lemma names_schema_of [simp]: "map tb_name (schema_of db) = map tb_name db"
  by (simp add: schema_of_def table_schema.defs)

text \<open>Tables that do not exist have no rows, before and after a migration.\<close>

definition no_rows_outside :: "table_schema list \<Rightarrow> (string \<Rightarrow> sql_row list) \<Rightarrow> bool" where
  "no_rows_outside ss rs \<longleftrightarrow> (\<forall>t. t \<notin> tb_name ` set ss \<longrightarrow> rs t = [])"

lemma rows_of_with_rows:
  assumes "no_rows_outside ss rs"
  shows "rows_of (with_rows rs ss) = rs"
proof
  fix t
  show "rows_of (with_rows rs ss) t = rs t"
    using assms row_get_None_iff [of tb_name t ss] by (cases "row_get tb_name t ss")
      (auto simp: rows_of_def get_table_with_rows no_rows_outside_def)
qed

definition keeps_name :: "(table \<Rightarrow> sql_error + table) \<Rightarrow> bool" where
  "keeps_name f \<longleftrightarrow> (\<forall>t t'. f t = Inr t' \<longrightarrow> tb_name t' = tb_name t)"

lemma on_table_names: "keeps_name f \<Longrightarrow> on_table n f db = Inr db' \<Longrightarrow> map tb_name db' = map tb_name db"
  by (auto simp: on_table_def put_table_def row_put_def split: option.splits sum.splits)

definition names_after :: "ddl \<Rightarrow> string list \<Rightarrow> string list" where
  "names_after d ns =
     (case d of
        CreateTable s \<Rightarrow> ns @ [tb_name s]
      | DropTable n \<Rightarrow> filter (\<lambda>x. x \<noteq> n) ns
      | RenameTable n m \<Rightarrow> map (\<lambda>x. if x = n then m else x) ns
      | _ \<Rightarrow> ns)"

lemma table_names:
  "keeps_name (add_column now c)" "keeps_name (drop_column k)" "keeps_name (set_nullable k b)"
  "keeps_name (create_check k cond)" "keeps_name (create_index i)" "keeps_name (create_foreign_key target fk)"
  "keeps_name (fill_from k source)" "keeps_name (drop_named k b)"
  by (auto simp: keeps_name_def add_column_def drop_column_def set_nullable_def create_check_def create_index_def
      create_foreign_key_def fill_from_def drop_named_def split: if_splits)

lemma apply_ddl_names:
  assumes "apply_ddl now d db = Inr db'"
  shows "map tb_name db' = names_after d (map tb_name db)"
proof (cases d)
  case (CreateTable s)
  then show ?thesis using assms by (auto simp: names_after_def table_schema.defs split: if_splits)
next
  case (DropTable n)
  then show ?thesis using assms by (auto simp: names_after_def filter_map comp_def split: if_splits)
next
  case (RenameTable n m)
  then show ?thesis using assms by (auto simp: names_after_def Let_def split: if_splits)
next
  case (AddColumn n c)
  then show ?thesis using assms on_table_names [OF table_names(1)] by (simp add: names_after_def)
next
  case (DropColumn n c)
  then show ?thesis using assms on_table_names [OF table_names(2)] by (simp add: names_after_def split: if_splits)
next
  case (SetNullable n c b)
  then show ?thesis using assms on_table_names [OF table_names(3)] by (simp add: names_after_def)
next
  case (CreateCheck k n cond)
  then show ?thesis using assms on_table_names [OF table_names(4)] by (simp add: names_after_def)
next
  case (CreateForeignKey n fk)
  then show ?thesis using assms on_table_names [OF table_names(6)] by (simp add: names_after_def split: option.splits)
next
  case (DropCheck k n)
  then show ?thesis using assms on_table_names [OF table_names(8)] by (simp add: names_after_def)
next
  case (DropCheckIfExists k n)
  then show ?thesis using assms on_table_names [OF table_names(8)] by (simp add: names_after_def)
next
  case (DropForeignKey k n)
  from assms [unfolded DropForeignKey apply_ddl.simps] show ?thesis unfolding DropForeignKey names_after_def ddl.case
    by (rule on_table_names [rotated]) (simp add: keeps_name_def)
next
  case (CreateIndex n i)
  then show ?thesis using assms on_table_names [OF table_names(5)] by (simp add: names_after_def split: if_splits)
next
  case (DropIndex k n)
  from assms [unfolded DropIndex apply_ddl.simps] show ?thesis unfolding DropIndex names_after_def ddl.case
    by (rule on_table_names [rotated]) (simp add: keeps_name_def)
next
  case (FillFrom n c source)
  then show ?thesis using assms on_table_names [OF table_names(7)] by (simp add: names_after_def)
qed

lemma row_step_outside:
  assumes "apply_ddl now d (with_rows rs ss) = Inr (with_rows rs' ss')" "no_rows_outside ss rs"
  shows "no_rows_outside ss' (row_step now rs d)"
proof -
  have names: "map tb_name ss' = names_after d (map tb_name ss)"
    using apply_ddl_names [OF assms(1)] by (simp add: with_rows_def comp_def)
  then have "tb_name ` set ss' = set (names_after d (map tb_name ss))" by (metis list.set_map)
  moreover have "\<exists>s \<in> set ss. tb_name s = n" if "d = RenameTable n m" for n m
    using assms(1) that by (auto split: if_splits)
  ultimately show ?thesis using assms(2) unfolding no_rows_outside_def
    by (cases d) (auto simp: names_after_def image_iff)
qed

lemma run_ddl_outside:
  assumes "run_ddl now ds (with_rows rs ss) = Inr (with_rows rs' ss')" "no_rows_outside ss rs"
  shows "no_rows_outside ss' (row_steps now rs ds)"
  using assms
proof (induction ds arbitrary: rs ss)
  case Nil
  then have "schema_of (with_rows rs ss) = schema_of (with_rows rs' ss')" by simp
  then show ?case using Nil by (simp add: row_steps_def)
next
  case (Cons d ds)
  then obtain db where d: "apply_ddl now d (with_rows rs ss) = Inr db" and ds: "run_ddl now ds db = Inr (with_rows rs' ss')"
    by (auto split: sum.splits)
  from d obtain s1 where db: "db = with_rows (row_step now rs d) s1"
    using apply_ddl_factors [of now d rs ss db now] by blast
  have "no_rows_outside s1 (row_step now rs d)" by (rule row_step_outside [OF d [unfolded db] Cons.prems(2)])
  from Cons.IH [OF ds [unfolded db] this] show ?case by (simp add: row_steps_def)
qed

end
