(* ===== verification/Declared_Schema.thy ===== *)
theory Declared_Schema
  imports Sql
begin

text \<open>
  The schema that \<open>src/tomiris_hub/database/models.py\<close> declares: one definition per class, with
  the columns, keys and constraints of its \<open>mapped_column\<close>s and \<open>__table_args__\<close>.
\<close>

section \<open>Shared pieces\<close>

definition all_null :: "string list \<Rightarrow> sql_cond" where
  "all_null cols = foldl Both (IsNull (hd cols)) (map IsNull (tl cols))"

definition no_null :: "string list \<Rightarrow> sql_cond" where
  "no_null cols = foldl Both (IsNotNull (hd cols)) (map IsNotNull (tl cols))"

definition lineage_columns :: "string list" where
  "lineage_columns =
     [''role_id'', ''role_version'', ''config_version'', ''feature_pipeline_version'', 
      ''analysis_schema_version'', ''data_provider'', ''data_as_of'', ''confidence_model_version'']"

section \<open>The declared schema\<close>

text \<open>
  The tables of \<open>models.py\<close>.  A \<open>mapped_column\<close> with a foreign key and no type takes the type of the
  column it refers to; a default without \<open>server_\<close> is applied by the application, not by the database.
\<close>

definition agents_model :: table_schema where
  "agents_model =
     \<lparr>tb_name = ''agents'',
      tb_columns =
        [required_column ''agent_id'' (SqlString 64),
         required_column ''name'' (SqlString 128),
         required_column ''role'' (SqlString 64),
         required_column ''enabled'' SqlBoolean,
         required_column ''protocol_version'' (SqlString 16),
         required_column ''capabilities'' SqlJsonb,
         required_column ''criticality'' (SqlString 16),
         required_column ''supported_assets'' SqlJsonb,
         required_column ''supported_evidence_types'' SqlJsonb,
         required_column ''metadata_json'' SqlJsonb,
         default_column ''created_at'' SqlTimestamp DefaultNow,
         default_column ''updated_at'' SqlTimestamp DefaultNow],
      tb_primary_key = [''agent_id''],
      tb_foreign_keys = [],
      tb_uniques = [],
      tb_checks =
        [(''ck_agent_criticality'', OneOf ''criticality'' [''LOW'', ''NORMAL'', ''HIGH'', ''CRITICAL''])],
      tb_indexes = []\<rparr>"

definition snapshots_model :: table_schema where
  "snapshots_model =
     \<lparr>tb_name = ''market_snapshots'',
      tb_columns =
        [required_column ''snapshot_id'' SqlUuid,
         required_column ''created_at'' SqlTimestamp,
         required_column ''expires_at'' SqlTimestamp,
         required_column ''status'' (SqlString 16),
         required_column ''context_version'' (SqlString 32),
         required_column ''metadata_json'' SqlJsonb],
      tb_primary_key = [''snapshot_id''],
      tb_foreign_keys = [],
      tb_uniques = [],
      tb_checks =
        [(''ck_snapshot_status'', OneOf ''status'' [''OPEN'', ''CLOSED'', ''EXPIRED'', ''INVALID''])],
      tb_indexes = []\<rparr>"

definition nonces_model :: table_schema where
  "nonces_model =
     \<lparr>tb_name = ''used_nonces'',
      tb_columns =
        [required_column ''id'' SqlUuid,
         required_column ''agent_id'' (SqlString 64),
         required_column ''nonce'' (SqlString 256),
         required_column ''received_at'' SqlTimestamp],
      tb_primary_key = [''id''],
      tb_foreign_keys = [column_reference ''used_nonces'' ''agent_id'' ''agents'' ''agent_id''],
      tb_uniques = [(''uq_nonce_agent_nonce'', [''agent_id'', ''nonce''])],
      tb_checks = [],
      tb_indexes = []\<rparr>"

definition signals_model :: table_schema where
  "signals_model =
     \<lparr>tb_name = ''signals'',
      tb_columns =
        [required_column ''message_id'' SqlUuid,
         required_column ''agent_id'' (SqlString 64),
         required_column ''agent_run_id'' SqlUuid,
         required_column ''snapshot_id'' SqlUuid,
         nullable_column ''task_id'' SqlUuid,
         nullable_column ''orchestration_run_id'' SqlUuid,
         required_column ''correlation_id'' SqlUuid,
         nullable_column ''causation_id'' SqlUuid,
         required_column ''protocol_version'' (SqlString 16),
         required_column ''asset'' (SqlString 32),
         required_column ''bias'' (SqlString 16),
         required_column ''confidence'' SqlInteger,
         required_column ''impact'' SqlInteger,
         required_column ''time_horizon'' (SqlString 64),
         required_column ''data_timestamp'' SqlTimestamp,
         required_column ''analysis_timestamp'' SqlTimestamp,
         required_column ''signal_ttl_seconds'' SqlInteger,
         nullable_column ''role_id'' (SqlString 64),
         nullable_column ''role_version'' (SqlString 32),
         nullable_column ''config_version'' (SqlString 32),
         nullable_column ''feature_pipeline_version'' (SqlString 64),
         nullable_column ''analysis_schema_version'' (SqlString 16),
         nullable_column ''data_provider'' (SqlString 128),
         nullable_column ''data_as_of'' SqlTimestamp,
         nullable_column ''confidence_model_version'' (SqlString 32),
         required_column ''payload_json'' SqlJsonb,
         required_column ''payload_hash'' (SqlString 64),
         required_column ''received_at'' SqlTimestamp],
      tb_primary_key = [''message_id''],
      tb_foreign_keys = [column_reference ''signals'' ''agent_id'' ''agents'' ''agent_id'',
         column_reference ''signals'' ''snapshot_id'' ''market_snapshots'' ''snapshot_id'',
         column_reference ''signals'' ''task_id'' ''agent_tasks'' ''task_id'',
         column_reference ''signals'' ''orchestration_run_id'' ''orchestration_runs'' ''orchestration_run_id''],
      tb_uniques = [],
      tb_checks =
        [(''ck_signal_confidence'', Both (Le (Lit 0) (Col ''confidence'')) (Le (Col ''confidence'') (Lit 100))),
         (''ck_signal_impact'', Both (Le (Lit 0) (Col ''impact'')) (Le (Col ''impact'') (Lit 100))),
         (''ck_signal_ttl'', Lt (Lit 0) (Col ''signal_ttl_seconds'')),
         (''ck_signal_bias'', OneOf ''bias'' [''LONG'', ''SHORT'', ''NEUTRAL'', ''ABSTAIN'']),
         (''ck_signal_task_lineage'', Either (all_null [''task_id'', ''orchestration_run_id'']) (no_null [''task_id'', ''orchestration_run_id''])),
         (''ck_signal_analytical_lineage'', Either (all_null lineage_columns) (no_null lineage_columns)),
         (''ck_signal_data_cutoff'', Either (IsNull ''data_as_of'') (Le (Col ''data_as_of'') (Col ''analysis_timestamp'')))],
      tb_indexes = [index_on ''ix_signals_agent_received'' [''agent_id'', ''received_at''],
         index_on ''ix_signals_snapshot'' [''snapshot_id''],
         index_on ''ix_signals_correlation'' [''correlation_id''],
         \<lparr>ix_name = ''uq_signals_task_result'', ix_columns = [''task_id''], ix_unique = True\<rparr>,
         index_on ''ix_signals_role_version'' [''role_id'', ''role_version'', ''config_version'']]\<rparr>"

definition audit_model :: table_schema where
  "audit_model =
     \<lparr>tb_name = ''audit_events'',
      tb_columns =
        [required_column ''event_id'' SqlUuid,
         required_column ''occurred_at'' SqlTimestamp,
         required_column ''event_type'' (SqlString 64),
         required_column ''outcome'' (SqlString 16),
         nullable_column ''reason_code'' (SqlString 64),
         required_column ''request_id'' SqlUuid,
         nullable_column ''agent_id'' (SqlString 64),
         nullable_column ''message_id'' SqlUuid,
         nullable_column ''snapshot_id'' SqlUuid,
         required_column ''correlation_id'' SqlUuid,
         nullable_column ''causation_id'' SqlUuid,
         nullable_column ''payload_hash'' (SqlString 64),
         required_column ''metadata_json'' SqlJsonb],
      tb_primary_key = [''event_id''],
      tb_foreign_keys = [],
      tb_uniques = [],
      tb_checks = [],
      tb_indexes = [index_on ''ix_audit_request'' [''request_id''],
         index_on ''ix_audit_agent_occurred'' [''agent_id'', ''occurred_at''],
         index_on ''ix_audit_message'' [''message_id''],
         index_on ''ix_audit_correlation'' [''correlation_id'', ''occurred_at'']]\<rparr>"

definition outbox_model :: table_schema where
  "outbox_model =
     \<lparr>tb_name = ''notification_outbox'',
      tb_columns =
        [required_column ''notification_id'' SqlUuid,
         required_column ''event_id'' SqlUuid,
         required_column ''event_type'' (SqlString 64),
         nullable_column ''snapshot_id'' SqlUuid,
         required_column ''channel'' (SqlString 32),
         required_column ''recipient_ref'' (SqlString 256),
         required_column ''payload'' SqlJsonb,
         required_column ''status'' (SqlString 16),
         required_column ''attempt_count'' SqlInteger,
         required_column ''next_attempt_at'' SqlTimestamp,
         nullable_column ''last_error_code'' (SqlString 64),
         required_column ''created_at'' SqlTimestamp,
         nullable_column ''sent_at'' SqlTimestamp,
         required_column ''idempotency_key'' (SqlString 256),
         required_column ''correlation_id'' SqlUuid,
         nullable_column ''causation_id'' SqlUuid],
      tb_primary_key = [''notification_id''],
      tb_foreign_keys = [],
      tb_uniques = [(''notification_outbox_idempotency_key_key'', [''idempotency_key''])],
      tb_checks =
        [(''ck_notification_status'', OneOf ''status'' [''PENDING'', ''SENDING'', ''SENT'', ''RETRY'', ''FAILED'', ''DEAD_LETTER'']),
         (''ck_notification_attempt_count'', Le (Lit 0) (Col ''attempt_count''))],
      tb_indexes = [index_on ''ix_notification_dispatch'' [''status'', ''next_attempt_at''],
         index_on ''ix_notification_event'' [''event_id'']]\<rparr>"

definition endpoints_model :: table_schema where
  "endpoints_model =
     \<lparr>tb_name = ''agent_endpoints'',
      tb_columns =
        [required_column ''agent_id'' (SqlString 64),
         required_column ''endpoint_url'' (SqlString 2048),
         required_column ''transport'' (SqlString 16),
         required_column ''enabled'' SqlBoolean,
         required_column ''environment'' (SqlString 32),
         required_column ''metadata'' SqlJsonb,
         default_column ''created_at'' SqlTimestamp DefaultNow,
         default_column ''updated_at'' SqlTimestamp DefaultNow],
      tb_primary_key = [''agent_id''],
      tb_foreign_keys = [column_reference ''agent_endpoints'' ''agent_id'' ''agents'' ''agent_id''],
      tb_uniques = [],
      tb_checks =
        [(''ck_agent_endpoint_transport'', OneOf ''transport'' [''HTTP'']),
         (''ck_agent_endpoint_environment'', OneOf ''environment'' [''TEST'', ''DEVELOPMENT'', ''PRODUCTION''])],
      tb_indexes = []\<rparr>"

definition states_model :: table_schema where
  "states_model =
     \<lparr>tb_name = ''agent_runtime_states'',
      tb_columns =
        [required_column ''agent_id'' (SqlString 64),
         required_column ''availability'' (SqlString 16),
         nullable_column ''last_probe_at'' SqlTimestamp,
         nullable_column ''last_seen_at'' SqlTimestamp,
         nullable_column ''last_ack_at'' SqlTimestamp,
         nullable_column ''last_signal_at'' SqlTimestamp,
         nullable_column ''last_success_at'' SqlTimestamp,
         required_column ''consecutive_failures'' SqlInteger,
         nullable_column ''latency_ms'' SqlFloat,
         required_column ''circuit_state'' (SqlString 16),
         nullable_column ''circuit_open_until'' SqlTimestamp,
         nullable_column ''last_error_code'' (SqlString 64),
         default_column ''updated_at'' SqlTimestamp DefaultNow],
      tb_primary_key = [''agent_id''],
      tb_foreign_keys = [column_reference ''agent_runtime_states'' ''agent_id'' ''agents'' ''agent_id''],
      tb_uniques = [],
      tb_checks =
        [(''ck_agent_runtime_availability'', OneOf ''availability'' [''UNKNOWN'', ''HEALTHY'', ''DEGRADED'', ''UNAVAILABLE'']),
         (''ck_agent_runtime_circuit'', OneOf ''circuit_state'' [''CLOSED'', ''OPEN'', ''HALF_OPEN'']),
         (''ck_agent_runtime_failures'', Le (Lit 0) (Col ''consecutive_failures''))],
      tb_indexes = [index_on ''ix_agent_runtime_availability'' [''availability'']]\<rparr>"

definition runs_model :: table_schema where
  "runs_model =
     \<lparr>tb_name = ''orchestration_runs'',
      tb_columns =
        [required_column ''orchestration_run_id'' SqlUuid,
         required_column ''snapshot_id'' SqlUuid,
         required_column ''asset'' (SqlString 32),
         required_column ''trigger_type'' (SqlString 16),
         required_column ''status'' (SqlString 24),
         nullable_column ''outcome'' (SqlString 24),
         required_column ''created_at'' SqlTimestamp,
         nullable_column ''started_at'' SqlTimestamp,
         required_column ''collection_deadline'' SqlTimestamp,
         nullable_column ''completed_at'' SqlTimestamp,
         required_column ''correlation_id'' SqlUuid,
         required_column ''policy_version'' (SqlString 32),
         required_column ''metadata'' SqlJsonb],
      tb_primary_key = [''orchestration_run_id''],
      tb_foreign_keys = [column_reference ''orchestration_runs'' ''snapshot_id'' ''market_snapshots'' ''snapshot_id''],
      tb_uniques = [],
      tb_checks =
        [(''ck_run_trigger'', OneOf ''trigger_type'' [''MANUAL'', ''TEST'']),
         (''ck_run_status'', OneOf ''status'' [''CREATED'', ''DISPATCHING'', ''COLLECTING'', ''FULL'', ''DEGRADED'', ''CRITICAL'', ''FAILED'', ''TIMED_OUT'', ''CANCELLED'']),
         (''ck_run_outcome'', Either (IsNull ''outcome'') (OneOf ''outcome'' [''FULL'', ''DEGRADED'', ''CRITICAL'', ''INSUFFICIENT_DATA''])),
         (''ck_run_deadline'', Lt (Col ''created_at'') (Col ''collection_deadline''))],
      tb_indexes = [index_on ''ix_orchestration_runs_status'' [''status''],
         index_on ''ix_orchestration_runs_snapshot'' [''snapshot_id'']]\<rparr>"

definition tasks_model :: table_schema where
  "tasks_model =
     \<lparr>tb_name = ''agent_tasks'',
      tb_columns =
        [required_column ''task_id'' SqlUuid,
         required_column ''orchestration_run_id'' SqlUuid,
         required_column ''snapshot_id'' SqlUuid,
         required_column ''agent_id'' (SqlString 64),
         required_column ''asset'' (SqlString 32),
         required_column ''required_capability'' (SqlString 64),
         required_column ''required'' SqlBoolean,
         required_column ''priority'' SqlInteger,
         required_column ''criticality'' (SqlString 16),
         required_column ''status'' (SqlString 24),
         required_column ''attempt_count'' SqlInteger,
         required_column ''dispatch_after'' SqlTimestamp,
         required_column ''dispatch_deadline'' SqlTimestamp,
         required_column ''signal_deadline'' SqlTimestamp,
         nullable_column ''lease_owner'' (SqlString 128),
         nullable_column ''lease_until'' SqlTimestamp,
         nullable_column ''last_error_code'' (SqlString 64),
         nullable_column ''acknowledged_at'' SqlTimestamp,
         nullable_column ''signal_received_at'' SqlTimestamp,
         required_column ''context'' SqlJsonb,
         nullable_column ''causation_id'' SqlUuid,
         required_column ''created_at'' SqlTimestamp,
         required_column ''updated_at'' SqlTimestamp],
      tb_primary_key = [''task_id''],
      tb_foreign_keys = [column_reference ''agent_tasks'' ''orchestration_run_id'' ''orchestration_runs'' ''orchestration_run_id'',
         column_reference ''agent_tasks'' ''snapshot_id'' ''market_snapshots'' ''snapshot_id'',
         column_reference ''agent_tasks'' ''agent_id'' ''agents'' ''agent_id''],
      tb_uniques = [(''uq_agent_task_assignment'', [''orchestration_run_id'', ''agent_id'', ''asset'', ''required_capability''])],
      tb_checks =
        [(''ck_agent_task_status'', OneOf ''status'' [''PENDING'', ''DISPATCHING'', ''ACKNOWLEDGED'', ''WAITING_SIGNAL'', ''SIGNAL_RECEIVED'', ''RETRY'', ''TIMED_OUT'', ''FAILED'', ''CANCELLED'', ''SKIPPED'']),
         (''ck_agent_task_criticality'', OneOf ''criticality'' [''LOW'', ''NORMAL'', ''HIGH'', ''CRITICAL'']),
         (''ck_agent_task_attempts'', Le (Lit 0) (Col ''attempt_count'')),
         (''ck_agent_task_priority'', Both (Le (Lit 0) (Col ''priority'')) (Le (Col ''priority'') (Lit 100))),
         (''ck_agent_task_deadlines'', Both (Lt (Col ''created_at'') (Col ''dispatch_deadline''))
             (Le (Col ''dispatch_deadline'') (Col ''signal_deadline'')))],
      tb_indexes = [index_on ''ix_agent_tasks_dispatch'' [''status'', ''dispatch_after''],
         index_on ''ix_agent_tasks_run'' [''orchestration_run_id''],
         index_on ''ix_agent_tasks_agent'' [''agent_id''],
         index_on ''ix_agent_tasks_snapshot'' [''snapshot_id''],
         index_on ''ix_agent_tasks_lease'' [''lease_until'']]\<rparr>"

definition declared_schema :: "table_schema list" where
  "declared_schema =
     [agents_model, snapshots_model, nonces_model, signals_model, audit_model, outbox_model, endpoints_model,
      states_model, runs_model, tasks_model]"

end
