(* ===== verification/Migrations.thy ===== *)
theory Migrations
  imports Declared_Schema
begin

text \<open>
  The four revisions under \<open>src/migrations/versions\<close>, each as the list of the schema operations
  of its \<open>upgrade\<close> and \<open>downgrade\<close>, and alembic's walk along the revisions, in one transaction as
  \<open>src/migrations/env.py\<close> runs it.  The theory shows that the migrated schema is the declared one,
  that every downgrade undoes its upgrade and is never refused, and what the upgrades do to the rows
  of a database that is in use.
\<close>

section \<open>Revision 0001\<close>

definition upgrade_0001 :: "ddl list" where
  "upgrade_0001 =
   [CreateTable
     \<lparr>tb_name = ''agents'',
      tb_columns =
        [required_column ''agent_id'' (SqlString 64),
         required_column ''name'' (SqlString 128),
         required_column ''role'' (SqlString 64),
         required_column ''enabled'' SqlBoolean,
         required_column ''protocol_version'' (SqlString 16),
         required_column ''metadata_json'' SqlJsonb,
         (nullable_column ''created_at'' SqlTimestamp)\<lparr>co_default := Some DefaultNow\<rparr>,
         (nullable_column ''updated_at'' SqlTimestamp)\<lparr>co_default := Some DefaultNow\<rparr>],
      tb_primary_key = [''agent_id''],
      tb_foreign_keys = [],
      tb_uniques = [],
      tb_checks = [],
      tb_indexes = []\<rparr>,
    CreateTable
     \<lparr>tb_name = ''market_snapshots'',
      tb_columns =
        [required_column ''snapshot_id'' SqlUuid,
         required_column ''created_at'' SqlTimestamp,
         required_column ''expires_at'' SqlTimestamp,
         required_column ''status'' (SqlString 16),
         required_column ''context_version'' (SqlString 32),
         required_column ''metadata_json'' SqlJsonb],
      tb_primary_key = [''snapshot_id''],
      tb_foreign_keys = [],
      tb_uniques = [],
      tb_checks =
        [(''ck_snapshot_status'', OneOf ''status'' [''OPEN'', ''CLOSED'', ''EXPIRED'', ''INVALID''])],
      tb_indexes = []\<rparr>,
    CreateTable
     \<lparr>tb_name = ''nonces'',
      tb_columns =
        [required_column ''id'' SqlUuid,
         required_column ''agent_id'' (SqlString 64),
         required_column ''nonce'' (SqlString 256),
         required_column ''received_at'' SqlTimestamp],
      tb_primary_key = [''id''],
      tb_foreign_keys = [column_reference ''nonces'' ''agent_id'' ''agents'' ''agent_id''],
      tb_uniques = [(''uq_nonce_agent_nonce'', [''agent_id'', ''nonce''])],
      tb_checks = [],
      tb_indexes = []\<rparr>,
    CreateTable
     \<lparr>tb_name = ''signals'',
      tb_columns =
        [required_column ''message_id'' SqlUuid,
         required_column ''agent_id'' (SqlString 64),
         required_column ''agent_run_id'' SqlUuid,
         required_column ''snapshot_id'' SqlUuid,
         required_column ''protocol_version'' (SqlString 16),
         required_column ''asset'' (SqlString 32),
         required_column ''bias'' (SqlString 16),
         required_column ''confidence'' SqlInteger,
         required_column ''impact'' SqlInteger,
         required_column ''time_horizon'' (SqlString 64),
         required_column ''data_timestamp'' SqlTimestamp,
         required_column ''analysis_timestamp'' SqlTimestamp,
         required_column ''signal_ttl_seconds'' SqlInteger,
         required_column ''payload_json'' SqlJsonb,
         required_column ''payload_hash'' (SqlString 64),
         required_column ''received_at'' SqlTimestamp],
      tb_primary_key = [''message_id''],
      tb_foreign_keys = [column_reference ''signals'' ''agent_id'' ''agents'' ''agent_id'',
         column_reference ''signals'' ''snapshot_id'' ''market_snapshots'' ''snapshot_id''],
      tb_uniques = [],
      tb_checks =
        [(''ck_signal_confidence'', Both (Le (Lit 0) (Col ''confidence'')) (Le (Col ''confidence'') (Lit 100))),
         (''ck_signal_impact'', Both (Le (Lit 0) (Col ''impact'')) (Le (Col ''impact'') (Lit 100))),
         (''ck_signal_ttl'', Lt (Lit 0) (Col ''signal_ttl_seconds'')),
         (''ck_signal_bias'', OneOf ''bias'' [''LONG'', ''SHORT'', ''NEUTRAL'', ''ABSTAIN''])],
      tb_indexes = []\<rparr>,
    CreateIndex ''signals'' (index_on ''ix_signals_agent_received'' [''agent_id'', ''received_at'']),
    CreateIndex ''signals'' (index_on ''ix_signals_snapshot'' [''snapshot_id'']),
    CreateTable
     \<lparr>tb_name = ''audit_events'',
      tb_columns =
        [required_column ''event_id'' SqlUuid,
         required_column ''occurred_at'' SqlTimestamp,
         required_column ''event_type'' (SqlString 64),
         required_column ''outcome'' (SqlString 16),
         nullable_column ''reason_code'' (SqlString 64),
         required_column ''request_id'' SqlUuid,
         nullable_column ''agent_id'' (SqlString 64),
         nullable_column ''message_id'' SqlUuid,
         nullable_column ''payload_hash'' (SqlString 64),
         required_column ''metadata_json'' SqlJsonb],
      tb_primary_key = [''event_id''],
      tb_foreign_keys = [],
      tb_uniques = [],
      tb_checks = [],
      tb_indexes = []\<rparr>,
    CreateIndex ''audit_events'' (index_on ''ix_audit_request'' [''request_id'']),
    CreateIndex ''audit_events'' (index_on ''ix_audit_agent_occurred'' [''agent_id'', ''occurred_at'']),
    CreateIndex ''audit_events'' (index_on ''ix_audit_message'' [''message_id''])]"

definition downgrade_0001 :: "ddl list" where
  "downgrade_0001 =
   [DropTable ''audit_events'',
    DropTable ''signals'',
    DropTable ''nonces'',
    DropTable ''market_snapshots'',
    DropTable ''agents'']"

section \<open>Revision 0002\<close>

definition upgrade_0002 :: "ddl list" where
  "upgrade_0002 =
   [RenameTable ''nonces'' ''used_nonces'',
    AddColumn ''agents'' (default_column ''capabilities'' SqlJsonb DefaultEmptyArray),
    AddColumn ''agents'' (default_column ''criticality'' (SqlString 16) (DefaultText ''NORMAL'')),
    AddColumn ''agents'' (default_column ''supported_assets'' SqlJsonb DefaultEmptyArray),
    AddColumn ''agents'' (default_column ''supported_evidence_types'' SqlJsonb DefaultEmptyArray),
    CreateCheck ''ck_agent_criticality'' ''agents'' (OneOf ''criticality'' [''LOW'', ''NORMAL'', ''HIGH'', ''CRITICAL'']),
    SetNullable ''agents'' ''created_at'' False,
    SetNullable ''agents'' ''updated_at'' False,
    AddColumn ''signals'' (nullable_column ''correlation_id'' SqlUuid),
    AddColumn ''signals'' (nullable_column ''causation_id'' SqlUuid),
    FillFrom ''signals'' ''correlation_id'' ''message_id'',
    SetNullable ''signals'' ''correlation_id'' False,
    CreateIndex ''signals'' (index_on ''ix_signals_correlation'' [''correlation_id'']),
    AddColumn ''audit_events'' (nullable_column ''snapshot_id'' SqlUuid),
    AddColumn ''audit_events'' (nullable_column ''correlation_id'' SqlUuid),
    AddColumn ''audit_events'' (nullable_column ''causation_id'' SqlUuid),
    FillFrom ''audit_events'' ''correlation_id'' ''request_id'',
    SetNullable ''audit_events'' ''correlation_id'' False,
    CreateIndex ''audit_events'' (index_on ''ix_audit_correlation'' [''correlation_id'', ''occurred_at'']),
    CreateTable
     \<lparr>tb_name = ''notification_outbox'',
      tb_columns =
        [required_column ''notification_id'' SqlUuid,
         required_column ''event_id'' SqlUuid,
         required_column ''event_type'' (SqlString 64),
         nullable_column ''snapshot_id'' SqlUuid,
         required_column ''channel'' (SqlString 32),
         required_column ''recipient_ref'' (SqlString 256),
         required_column ''payload'' SqlJsonb,
         required_column ''status'' (SqlString 16),
         required_column ''attempt_count'' SqlInteger,
         required_column ''next_attempt_at'' SqlTimestamp,
         nullable_column ''last_error_code'' (SqlString 64),
         required_column ''created_at'' SqlTimestamp,
         nullable_column ''sent_at'' SqlTimestamp,
         required_column ''idempotency_key'' (SqlString 256),
         required_column ''correlation_id'' SqlUuid,
         nullable_column ''causation_id'' SqlUuid],
      tb_primary_key = [''notification_id''],
      tb_foreign_keys = [],
      tb_uniques = [(''notification_outbox_idempotency_key_key'', [''idempotency_key''])],
      tb_checks =
        [(''ck_notification_status'', OneOf ''status'' [''PENDING'', ''SENDING'', ''SENT'', ''RETRY'', ''FAILED'', ''DEAD_LETTER'']),
         (''ck_notification_attempt_count'', Le (Lit 0) (Col ''attempt_count''))],
      tb_indexes = []\<rparr>,
    CreateIndex ''notification_outbox'' (index_on ''ix_notification_dispatch'' [''status'', ''next_attempt_at'']),
    CreateIndex ''notification_outbox'' (index_on ''ix_notification_event'' [''event_id''])]"

definition downgrade_0002 :: "ddl list" where
  "downgrade_0002 =
   [DropTable ''notification_outbox'',
    DropIndex ''ix_audit_correlation'' ''audit_events'',
    DropColumn ''audit_events'' ''causation_id'',
    DropColumn ''audit_events'' ''correlation_id'',
    DropColumn ''audit_events'' ''snapshot_id'',
    DropIndex ''ix_signals_correlation'' ''signals'',
    DropColumn ''signals'' ''causation_id'',
    DropColumn ''signals'' ''correlation_id'',
    DropCheck ''ck_agent_criticality'' ''agents'',
    SetNullable ''agents'' ''updated_at'' True,
    SetNullable ''agents'' ''created_at'' True,
    DropColumn ''agents'' ''supported_evidence_types'',
    DropColumn ''agents'' ''supported_assets'',
    DropColumn ''agents'' ''criticality'',
    DropColumn ''agents'' ''capabilities'',
    RenameTable ''used_nonces'' ''nonces'']"

section \<open>Revision 0003\<close>

definition run_states :: "string list" where
  "run_states =
     [''CREATED'', ''DISPATCHING'', ''COLLECTING'', ''FULL'', ''DEGRADED'', ''CRITICAL'', ''FAILED'',
      ''TIMED_OUT'', ''CANCELLED'']"

definition task_states :: "string list" where
  "task_states =
     [''PENDING'', ''DISPATCHING'', ''ACKNOWLEDGED'', ''WAITING_SIGNAL'', ''SIGNAL_RECEIVED'', ''RETRY'',
      ''TIMED_OUT'', ''FAILED'', ''CANCELLED'', ''SKIPPED'']"

text \<open>The last part of the upgrade: the task and the run that a signal answers\<close>

definition task_result_columns :: "ddl list" where
  "task_result_columns =
   [AddColumn ''signals'' (nullable_column ''task_id'' SqlUuid),
    AddColumn ''signals'' (nullable_column ''orchestration_run_id'' SqlUuid),
    CreateForeignKey ''signals''
      \<lparr>fk_name = ''fk_signals_task'', fk_columns = [''task_id''], fk_table = ''agent_tasks'', fk_references = [''task_id'']\<rparr>,
    CreateForeignKey ''signals''
      \<lparr>fk_name = ''fk_signals_orchestration_run'', fk_columns = [''orchestration_run_id''],
       fk_table = ''orchestration_runs'', fk_references = [''orchestration_run_id'']\<rparr>,
    CreateCheck ''ck_signal_task_lineage'' ''signals''
      (Either (all_null [''task_id'', ''orchestration_run_id'']) (no_null [''task_id'', ''orchestration_run_id''])),
    CreateIndex ''signals'' \<lparr>ix_name = ''uq_signals_task_result'', ix_columns = [''task_id''], ix_unique = True\<rparr>]"

definition upgrade_0003 :: "ddl list" where
  "upgrade_0003 =
   [CreateTable
     \<lparr>tb_name = ''agent_endpoints'',
      tb_columns =
        [required_column ''agent_id'' (SqlString 64),
         required_column ''endpoint_url'' (SqlString 2048),
         required_column ''transport'' (SqlString 16),
         required_column ''enabled'' SqlBoolean,
         required_column ''environment'' (SqlString 32),
         required_column ''metadata'' SqlJsonb,
         default_column ''created_at'' SqlTimestamp DefaultNow,
         default_column ''updated_at'' SqlTimestamp DefaultNow],
      tb_primary_key = [''agent_id''],
      tb_foreign_keys = [column_reference ''agent_endpoints'' ''agent_id'' ''agents'' ''agent_id''],
      tb_uniques = [],
      tb_checks =
        [(''ck_agent_endpoint_transport'', OneOf ''transport'' [''HTTP'']),
         (''ck_agent_endpoint_environment'', OneOf ''environment'' [''TEST'', ''DEVELOPMENT'', ''PRODUCTION''])],
      tb_indexes = []\<rparr>,
    CreateTable
     \<lparr>tb_name = ''agent_runtime_states'',
      tb_columns =
        [required_column ''agent_id'' (SqlString 64),
         required_column ''availability'' (SqlString 16),
         nullable_column ''last_probe_at'' SqlTimestamp,
         nullable_column ''last_seen_at'' SqlTimestamp,
         nullable_column ''last_ack_at'' SqlTimestamp,
         nullable_column ''last_signal_at'' SqlTimestamp,
         nullable_column ''last_success_at'' SqlTimestamp,
         required_column ''consecutive_failures'' SqlInteger,
         nullable_column ''latency_ms'' SqlFloat,
         required_column ''circuit_state'' (SqlString 16),
         nullable_column ''circuit_open_until'' SqlTimestamp,
         nullable_column ''last_error_code'' (SqlString 64),
         default_column ''updated_at'' SqlTimestamp DefaultNow],
      tb_primary_key = [''agent_id''],
      tb_foreign_keys = [column_reference ''agent_runtime_states'' ''agent_id'' ''agents'' ''agent_id''],
      tb_uniques = [],
      tb_checks =
        [(''ck_agent_runtime_availability'', OneOf ''availability'' [''UNKNOWN'', ''HEALTHY'', ''DEGRADED'', ''UNAVAILABLE'']),
         (''ck_agent_runtime_circuit'', OneOf ''circuit_state'' [''CLOSED'', ''OPEN'', ''HALF_OPEN'']),
         (''ck_agent_runtime_failures'', Le (Lit 0) (Col ''consecutive_failures''))],
      tb_indexes = []\<rparr>,
    CreateIndex ''agent_runtime_states'' (index_on ''ix_agent_runtime_availability'' [''availability'']),
    CreateTable
     \<lparr>tb_name = ''orchestration_runs'',
      tb_columns =
        [required_column ''orchestration_run_id'' SqlUuid,
         required_column ''snapshot_id'' SqlUuid,
         required_column ''asset'' (SqlString 32),
         required_column ''trigger_type'' (SqlString 16),
         required_column ''status'' (SqlString 24),
         nullable_column ''outcome'' (SqlString 24),
         required_column ''created_at'' SqlTimestamp,
         nullable_column ''started_at'' SqlTimestamp,
         required_column ''collection_deadline'' SqlTimestamp,
         nullable_column ''completed_at'' SqlTimestamp,
         required_column ''correlation_id'' SqlUuid,
         required_column ''policy_version'' (SqlString 32),
         required_column ''metadata'' SqlJsonb],
      tb_primary_key = [''orchestration_run_id''],
      tb_foreign_keys = [column_reference ''orchestration_runs'' ''snapshot_id'' ''market_snapshots'' ''snapshot_id''],
      tb_uniques = [],
      tb_checks =
        [(''ck_run_trigger'', OneOf ''trigger_type'' [''MANUAL'', ''TEST'']),
         (''ck_run_status'', OneOf ''status'' run_states),
         (''ck_run_outcome'', Either (IsNull ''outcome'') (OneOf ''outcome'' [''FULL'', ''DEGRADED'', ''CRITICAL'', ''INSUFFICIENT_DATA''])),
         (''ck_run_deadline'', Lt (Col ''created_at'') (Col ''collection_deadline''))],
      tb_indexes = []\<rparr>,
    CreateIndex ''orchestration_runs'' (index_on ''ix_orchestration_runs_status'' [''status'']),
    CreateIndex ''orchestration_runs'' (index_on ''ix_orchestration_runs_snapshot'' [''snapshot_id'']),
    CreateTable
     \<lparr>tb_name = ''agent_tasks'',
      tb_columns =
        [required_column ''task_id'' SqlUuid,
         required_column ''orchestration_run_id'' SqlUuid,
         required_column ''snapshot_id'' SqlUuid,
         required_column ''agent_id'' (SqlString 64),
         required_column ''asset'' (SqlString 32),
         required_column ''required_capability'' (SqlString 64),
         required_column ''required'' SqlBoolean,
         required_column ''priority'' SqlInteger,
         required_column ''criticality'' (SqlString 16),
         required_column ''status'' (SqlString 24),
         required_column ''attempt_count'' SqlInteger,
         required_column ''dispatch_after'' SqlTimestamp,
         required_column ''dispatch_deadline'' SqlTimestamp,
         required_column ''signal_deadline'' SqlTimestamp,
         nullable_column ''lease_owner'' (SqlString 128),
         nullable_column ''lease_until'' SqlTimestamp,
         nullable_column ''last_error_code'' (SqlString 64),
         nullable_column ''acknowledged_at'' SqlTimestamp,
         nullable_column ''signal_received_at'' SqlTimestamp,
         required_column ''context'' SqlJsonb,
         nullable_column ''causation_id'' SqlUuid,
         required_column ''created_at'' SqlTimestamp,
         required_column ''updated_at'' SqlTimestamp],
      tb_primary_key = [''task_id''],
      tb_foreign_keys = [column_reference ''agent_tasks'' ''orchestration_run_id'' ''orchestration_runs'' ''orchestration_run_id'',
         column_reference ''agent_tasks'' ''snapshot_id'' ''market_snapshots'' ''snapshot_id'',
         column_reference ''agent_tasks'' ''agent_id'' ''agents'' ''agent_id''],
      tb_uniques = [(''uq_agent_task_assignment'', [''orchestration_run_id'', ''agent_id'', ''asset'', ''required_capability''])],
      tb_checks =
        [(''ck_agent_task_status'', OneOf ''status'' task_states),
         (''ck_agent_task_criticality'', OneOf ''criticality'' [''LOW'', ''NORMAL'', ''HIGH'', ''CRITICAL'']),
         (''ck_agent_task_attempts'', Le (Lit 0) (Col ''attempt_count'')),
         (''ck_agent_task_priority'', Both (Le (Lit 0) (Col ''priority'')) (Le (Col ''priority'') (Lit 100))),
         (''ck_agent_task_deadlines'', Both (Lt (Col ''created_at'') (Col ''dispatch_deadline''))
             (Le (Col ''dispatch_deadline'') (Col ''signal_deadline'')))],
      tb_indexes = []\<rparr>,
    CreateIndex ''agent_tasks'' (index_on ''ix_agent_tasks_dispatch'' [''status'', ''dispatch_after'']),
    CreateIndex ''agent_tasks'' (index_on ''ix_agent_tasks_run'' [''orchestration_run_id'']),
    CreateIndex ''agent_tasks'' (index_on ''ix_agent_tasks_agent'' [''agent_id'']),
    CreateIndex ''agent_tasks'' (index_on ''ix_agent_tasks_snapshot'' [''snapshot_id'']),
    CreateIndex ''agent_tasks'' (index_on ''ix_agent_tasks_lease'' [''lease_until''])]
    @ task_result_columns"

definition downgrade_0003 :: "ddl list" where
  "downgrade_0003 =
   [DropIndex ''uq_signals_task_result'' ''signals'',
    DropCheckIfExists ''ck_signal_task_lineage'' ''signals'',
    DropForeignKey ''fk_signals_orchestration_run'' ''signals'',
    DropForeignKey ''fk_signals_task'' ''signals'',
    DropColumn ''signals'' ''orchestration_run_id'',
    DropColumn ''signals'' ''task_id'',
    DropTable ''agent_tasks'',
    DropTable ''orchestration_runs'',
    DropTable ''agent_runtime_states'',
    DropTable ''agent_endpoints'']"

section \<open>Revision 0004\<close>

definition upgrade_0004 :: "ddl list" where
  "upgrade_0004 =
   [AddColumn ''signals'' (nullable_column ''role_id'' (SqlString 64)),
    AddColumn ''signals'' (nullable_column ''role_version'' (SqlString 32)),
    AddColumn ''signals'' (nullable_column ''config_version'' (SqlString 32)),
    AddColumn ''signals'' (nullable_column ''feature_pipeline_version'' (SqlString 64)),
    AddColumn ''signals'' (nullable_column ''analysis_schema_version'' (SqlString 16)),
    AddColumn ''signals'' (nullable_column ''data_provider'' (SqlString 128)),
    AddColumn ''signals'' (nullable_column ''data_as_of'' SqlTimestamp),
    AddColumn ''signals'' (nullable_column ''confidence_model_version'' (SqlString 32)),
    CreateCheck ''ck_signal_analytical_lineage'' ''signals'' (Either (all_null lineage_columns) (no_null lineage_columns)),
    CreateCheck ''ck_signal_data_cutoff'' ''signals''
      (Either (IsNull ''data_as_of'') (Le (Col ''data_as_of'') (Col ''analysis_timestamp''))),
    CreateIndex ''signals'' (index_on ''ix_signals_role_version'' [''role_id'', ''role_version'', ''config_version''])]"

definition downgrade_0004 :: "ddl list" where
  "downgrade_0004 =
     [DropIndex ''ix_signals_role_version'' ''signals'', DropCheck ''ck_signal_data_cutoff'' ''signals'',
      DropCheck ''ck_signal_analytical_lineage'' ''signals'']
     @ map (\<lambda>c. DropColumn ''signals'' c) (rev lineage_columns)"

section \<open>Revisions\<close>

record revision =
  rv_id :: string
  rv_down :: "string option"
  rv_upgrade :: "ddl list"
  rv_downgrade :: "ddl list"

definition revisions :: "revision list" where
  "revisions =
     [\<lparr>rv_id = ''0001_phase_01'', rv_down = None, rv_upgrade = upgrade_0001, rv_downgrade = downgrade_0001\<rparr>,
      \<lparr>rv_id = ''0002_architecture_hardening'', rv_down = Some ''0001_phase_01'', rv_upgrade = upgrade_0002,
       rv_downgrade = downgrade_0002\<rparr>,
      \<lparr>rv_id = ''0003_orchestrator'', rv_down = Some ''0002_architecture_hardening'', rv_upgrade = upgrade_0003,
       rv_downgrade = downgrade_0003\<rparr>,
      \<lparr>rv_id = ''0004_pilot_agents'', rv_down = Some ''0003_orchestrator'', rv_upgrade = upgrade_0004,
       rv_downgrade = downgrade_0004\<rparr>]"

text \<open>The revisions to run from the current one (\<open>None\<close> for an empty database) up to the head: the
  chain of successors by \<open>down_revision\<close>; the number of revisions bounds its length.\<close>

fun pending :: "nat \<Rightarrow> string option \<Rightarrow> revision list" where
  "pending 0 current = []"
| "pending (Suc n) current =
     (case find (\<lambda>v. rv_down v = current) revisions of
        None \<Rightarrow> []
      | Some v \<Rightarrow> v # pending n (Some (rv_id v)))"

text \<open>\<open>alembic upgrade head\<close>: all pending revisions in one transaction.\<close>

definition upgrade_head :: "instant \<Rightarrow> string option \<Rightarrow> sql_database \<Rightarrow> sql_error + sql_database" where
  "upgrade_head now current db = run_ddl now (concat (map rv_upgrade (pending (length revisions) current))) db"

section \<open>The migrated schema is the declared one\<close>

text \<open>
  A column of the database serves a declared one with the same name, type and nullability, and the
  declared default; a default of the database alone only helps statements that omit the column.  The
  names of foreign keys do not matter, and the order of columns and constraints does not.
\<close>

definition same_column :: "column \<Rightarrow> column \<Rightarrow> bool" where
  "same_column d c \<longleftrightarrow>
     co_name d = co_name c \<and> co_type d = co_type c \<and> co_nullable d = co_nullable c
     \<and> (co_default d = None \<or> co_default d = co_default c)"

definition nameless :: "foreign_key \<Rightarrow> string list \<times> string \<times> string list" where
  "nameless fk = (fk_columns fk, fk_table fk, fk_references fk)"

definition same_table :: "table_schema \<Rightarrow> 'a table_schema_scheme \<Rightarrow> bool" where
  "same_table d t \<longleftrightarrow>
     tb_name d = tb_name t \<and> length (tb_columns d) = length (tb_columns t)
     \<and> list_all (\<lambda>c. list_ex (\<lambda>c'. same_column c c') (tb_columns t)) (tb_columns d)
     \<and> tb_primary_key d = tb_primary_key t
     \<and> set (map nameless (tb_foreign_keys d)) = set (map nameless (tb_foreign_keys t))
     \<and> set (tb_uniques d) = set (tb_uniques t) \<and> set (tb_checks d) = set (tb_checks t)
     \<and> set (tb_indexes d) = set (tb_indexes t)"

definition same_schema :: "table_schema list \<Rightarrow> 'a table_schema_scheme list \<Rightarrow> bool" where
  "same_schema ds ts \<longleftrightarrow>
     distinct (map tb_name ts) \<and> length ds = length ts \<and> list_all (\<lambda>d. list_ex (same_table d) ts) ds"

text \<open>The schema after the first \<open>n\<close> revisions\<close>

fun schema_after :: "nat \<Rightarrow> table_schema list" where
  "schema_after 0 = []"
| "schema_after (Suc n) =
     (case schema_run (rv_upgrade (revisions ! n)) (schema_after n) of Inl _ \<Rightarrow> [] | Inr ss \<Rightarrow> ss)"

text \<open>The columns of a table, none for a table that does not exist\<close>

definition columns_in :: "table_schema list \<Rightarrow> string \<Rightarrow> string list" where
  "columns_in ss t = (case row_get tb_name t ss of None \<Rightarrow> [] | Some s \<Rightarrow> column_names s)"

definition columns_at :: "nat \<Rightarrow> string \<Rightarrow> string list" where
  "columns_at n t = columns_in (schema_after n) t"

text \<open>
  One evaluation runs the four upgrades on an empty database and, at each revision, the downgrade to
  the one before; the lemmas after it are its parts.
\<close>

definition absent :: "table_schema list \<Rightarrow> string list \<Rightarrow> bool" where
  "absent ss ts \<longleftrightarrow> list_all (\<lambda>t. t \<notin> set (map tb_name ss)) ts"

definition no_columns :: "table_schema list \<Rightarrow> string \<Rightarrow> string list \<Rightarrow> bool" where
  "no_columns ss t cs \<longleftrightarrow> list_all (\<lambda>c. c \<notin> set (columns_in ss t)) cs"

lemma evaluated:
  "case schema_run upgrade_0001 [] of Inl _ \<Rightarrow> False | Inr s1 \<Rightarrow>
     (case schema_run upgrade_0002 s1 of Inl _ \<Rightarrow> False | Inr s2 \<Rightarrow>
        (case schema_run upgrade_0003 s2 of Inl _ \<Rightarrow> False | Inr s3 \<Rightarrow>
           (case schema_run upgrade_0004 s3 of Inl _ \<Rightarrow> False | Inr s4 \<Rightarrow>
              schema_run downgrade_0004 s4 = Inr s3 \<and> same_schema declared_schema s4)
           \<and> distinct (map tb_name s3) \<and> schema_run downgrade_0003 s3 = Inr s2
           \<and> no_columns s3 ''signals'' lineage_columns)
        \<and> distinct (map tb_name s2) \<and> schema_run downgrade_0002 s2 = Inr s1
        \<and> no_columns s2 ''signals'' [''task_id'', ''orchestration_run_id'']
        \<and> absent s2 [''nonces'', ''agent_endpoints'', ''agent_runtime_states'', ''orchestration_runs'', ''agent_tasks''])
     \<and> distinct (map tb_name s1) \<and> schema_run downgrade_0001 s1 = Inr []
     \<and> absent s1 [''notification_outbox'', ''used_nonces'']
     \<and> no_columns s1 ''agents'' [''capabilities'', ''criticality'', ''supported_assets'', ''supported_evidence_types'']
     \<and> no_columns s1 ''signals'' [''correlation_id'', ''causation_id'']
     \<and> no_columns s1 ''audit_events'' [''snapshot_id'', ''correlation_id'', ''causation_id'']"
  by code_simp

lemma revisions_nth [simp]:
  "revisions ! 0 = \<lparr>rv_id = ''0001_phase_01'', rv_down = None, rv_upgrade = upgrade_0001, rv_downgrade = downgrade_0001\<rparr>"
  "revisions ! Suc 0 = \<lparr>rv_id = ''0002_architecture_hardening'', rv_down = Some ''0001_phase_01'',
     rv_upgrade = upgrade_0002, rv_downgrade = downgrade_0002\<rparr>"
  "revisions ! 2 = \<lparr>rv_id = ''0003_orchestrator'', rv_down = Some ''0002_architecture_hardening'',
     rv_upgrade = upgrade_0003, rv_downgrade = downgrade_0003\<rparr>"
  "revisions ! 3 = \<lparr>rv_id = ''0004_pilot_agents'', rv_down = Some ''0003_orchestrator'',
     rv_upgrade = upgrade_0004, rv_downgrade = downgrade_0004\<rparr>"
  by (simp_all add: revisions_def numeral_2_eq_2 numeral_3_eq_3)

lemma next_schema:
  assumes "case schema_run up (schema_after n) of Inl _ \<Rightarrow> False | Inr s \<Rightarrow> P s"
    and "rv_upgrade (revisions ! n) = up" "Suc n = m"
  shows "schema_run up (schema_after n) = Inr (schema_after m) \<and> P (schema_after m)"
  using assms by (cases "schema_run up (schema_after n)") auto

lemma upgrades_nth:
  "rv_upgrade (revisions ! 0) = upgrade_0001" "rv_upgrade (revisions ! 1) = upgrade_0002"
  "rv_upgrade (revisions ! 2) = upgrade_0003" "rv_upgrade (revisions ! 3) = upgrade_0004"
  by (simp_all only: revisions_nth One_nat_def revision.simps)

lemma evaluated_from_empty:
  "Suc 0 = 1" "Suc 1 = 2" "Suc 2 = 3" "Suc 3 = 4" "schema_after 0 = []"
  by simp_all

lemmas evaluated_1 = next_schema [where n = 0, unfolded evaluated_from_empty(5),
  OF evaluated upgrades_nth(1) evaluated_from_empty(1)]
lemmas evaluated_2 = next_schema
  [OF evaluated_1 [THEN conjunct2, THEN conjunct1] upgrades_nth(2) evaluated_from_empty(2)]
lemmas evaluated_3 = next_schema
  [OF evaluated_2 [THEN conjunct2, THEN conjunct1] upgrades_nth(3) evaluated_from_empty(3)]
lemmas evaluated_4 = next_schema
  [OF evaluated_3 [THEN conjunct2, THEN conjunct1] upgrades_nth(4) evaluated_from_empty(4)]

lemma schema_run_upgrades:
  "schema_run upgrade_0001 (schema_after 0) = Inr (schema_after 1)"
  "schema_run upgrade_0002 (schema_after 1) = Inr (schema_after 2)"
  "schema_run upgrade_0003 (schema_after 2) = Inr (schema_after 3)"
  "schema_run upgrade_0004 (schema_after 3) = Inr (schema_after 4)"
  unfolding evaluated_from_empty(5)
  by (rule evaluated_1 [THEN conjunct1] evaluated_2 [THEN conjunct1] evaluated_3 [THEN conjunct1]
      evaluated_4 [THEN conjunct1])+

lemma schema_run_downgrades:
  "schema_run downgrade_0001 (schema_after 1) = Inr (schema_after 0)"
  "schema_run downgrade_0002 (schema_after 2) = Inr (schema_after 1)"
  "schema_run downgrade_0003 (schema_after 3) = Inr (schema_after 2)"
  "schema_run downgrade_0004 (schema_after 4) = Inr (schema_after 3)"
  unfolding evaluated_from_empty(5)
  using evaluated_1 evaluated_2 evaluated_3 evaluated_4 by - (elim conjE, assumption)+

lemma declared_after_all: "same_schema declared_schema (schema_after 4)"
  using evaluated_4 by blast

lemma new_columns:
  "no_columns (schema_after 1) ''agents''
     [''capabilities'', ''criticality'', ''supported_assets'', ''supported_evidence_types'']"
  "no_columns (schema_after 1) ''signals'' [''correlation_id'', ''causation_id'']"
  "no_columns (schema_after 1) ''audit_events'' [''snapshot_id'', ''correlation_id'', ''causation_id'']"
  "no_columns (schema_after 2) ''signals'' [''task_id'', ''orchestration_run_id'']"
  "no_columns (schema_after 3) ''signals'' lineage_columns"
  using evaluated_1 evaluated_2 evaluated_3 by - (elim conjE, assumption)+

lemma new_tables:
  "absent (schema_after 1) [''notification_outbox'', ''used_nonces'']"
  "absent (schema_after 2)
     [''nonces'', ''agent_endpoints'', ''agent_runtime_states'', ''orchestration_runs'', ''agent_tasks'']"
  using evaluated_1 evaluated_2 by - (elim conjE, assumption)+

lemma distinct_tables:
  "distinct (map tb_name (schema_after 1))" "distinct (map tb_name (schema_after 2))"
  "distinct (map tb_name (schema_after 3))" "distinct (map tb_name (schema_after 4))"
  using evaluated_1 evaluated_2 evaluated_3 declared_after_all
  unfolding same_schema_def by - (elim conjE, assumption)+

section \<open>The rows of a database at a revision\<close>

text \<open>A database at a revision has its tables, and rows with values in their columns only.\<close>

definition at_revision :: "nat \<Rightarrow> sql_database \<Rightarrow> bool" where
  "at_revision n db \<longleftrightarrow> schema_of db = schema_after n \<and> confined db"

text \<open>The same for the rows alone\<close>

definition rows_at :: "nat \<Rightarrow> (string \<Rightarrow> sql_row list) \<Rightarrow> bool" where
  "rows_at n rs \<longleftrightarrow>
     (\<forall>t. (absent (schema_after n) [t] \<longrightarrow> rs t = [])
       \<and> (\<forall>r \<in> set (rs t). dom r \<subseteq> set (columns_at n t)))"

lemma at_revision_rows:
  assumes "at_revision n db" "distinct (map tb_name (schema_after n))"
  shows "db = with_rows (rows_of db) (schema_after n)" "rows_at n (rows_of db)"
proof -
  have schema: "schema_after n = schema_of db" and "confined db" using assms(1) by (simp_all add: at_revision_def)
  then have d: "distinct (map tb_name db)" using assms(2) by simp
  show "db = with_rows (rows_of db) (schema_after n)" unfolding schema by (rule with_rows_of [OF d, symmetric])
  have get: "row_get tb_name t (schema_of db) = map_option table_schema.truncate (get_table t db)" for t
    unfolding get_table_def schema_of_def by (induction db) (auto simp: table_schema.defs)
  have "dom r \<subseteq> set (columns_at n t)" if "r \<in> set (rows_of db t)" for r t
  proof (cases "get_table t db")
    case None
    then show ?thesis using that by (simp add: rows_of_def)
  next
    case (Some x)
    then have "x \<in> set db" unfolding get_table_def by (blast dest: row_get_SomeD)
    then have "rows_within x" using \<open>confined db\<close> by (simp add: confined_def list_all_iff)
    then have "dom r \<subseteq> set (column_names x)" using that Some by (simp add: rows_of_def rows_within_def)
    then show ?thesis using Some
      by (simp add: columns_at_def columns_in_def schema get column_names_def table_schema.defs)
  qed
  moreover have "rows_of db t = []" if "absent (schema_after n) [t]" for t
  proof -
    have "t \<notin> tb_name ` set db" using that unfolding schema absent_def names_schema_of by simp
    then have "get_table t db = None" by (simp add: get_table_def row_get_None_iff)
    then show ?thesis by (simp add: rows_of_def)
  qed
  ultimately show "rows_at n (rows_of db)" unfolding rows_at_def by blast
qed

lemma rows_at_absent: "rows_at n rs \<Longrightarrow> absent (schema_after n) ts \<Longrightarrow> t \<in> set ts \<Longrightarrow> rs t = []"
  unfolding rows_at_def absent_def list_all_iff by auto

lemma rows_at_null:
  "rows_at n rs \<Longrightarrow> no_columns (schema_after n) t cs \<Longrightarrow> r \<in> set (rs t) \<Longrightarrow> c \<in> set cs \<Longrightarrow> r c = None"
  unfolding rows_at_def columns_at_def no_columns_def list_all_iff by blast

lemma keep_rows:
  assumes "rows_at n rs" "no_columns (schema_after n) t cs" "c \<in> set cs"
  shows "map (\<lambda>r. r(c := None)) (rs t) = rs t"
proof (rule map_idI)
  fix r assume "r \<in> set (rs t)"
  then have "r c = None" using rows_at_null [OF assms(1,2) _ assms(3)] by blast
  then show "r(c := None) = r" by auto
qed

section \<open>What a revision does to the rows\<close>

text \<open>Revision 0002 on the rows of a database in use\<close>

definition hardened_agent :: "sql_row \<Rightarrow> sql_row" where
  "hardened_agent r = r(''capabilities'' \<mapsto> VJson (PySeq []), ''criticality'' \<mapsto> VText ''NORMAL'',
     ''supported_assets'' \<mapsto> VJson (PySeq []), ''supported_evidence_types'' \<mapsto> VJson (PySeq []))"

definition hardened :: "(string \<Rightarrow> sql_row list) \<Rightarrow> string \<Rightarrow> sql_row list" where
  "hardened rs = rs
     (''used_nonces'' := rs ''nonces'', ''nonces'' := [],
      ''agents'' := map hardened_agent (rs ''agents''),
      ''signals'' := map (\<lambda>r. r(''correlation_id'' := r ''message_id'')) (rs ''signals''),
      ''audit_events'' := map (\<lambda>r. r(''correlation_id'' := r ''request_id'')) (rs ''audit_events''))"

text \<open>The columns whose values revision 0002 needs\<close>

definition hardenable :: "(string \<Rightarrow> sql_row list) \<Rightarrow> bool" where
  "hardenable rs \<longleftrightarrow>
     list_all (\<lambda>r. r ''created_at'' \<noteq> None \<and> r ''updated_at'' \<noteq> None) (rs ''agents'')
     \<and> list_all (\<lambda>r. r ''message_id'' \<noteq> None) (rs ''signals'')
     \<and> list_all (\<lambda>r. r ''request_id'' \<noteq> None) (rs ''audit_events'')"

lemma row_steps_simps [simp]:
  "row_steps now rs [] = rs"
  "row_steps now rs (d # ds) = row_steps now (row_step now rs d) ds"
  by (simp_all add: row_steps_def)

lemma column_simps [simp]:
  "co_name (nullable_column c t) = c" "co_default (nullable_column c t) = None" "co_nullable (nullable_column c t)"
  "co_name (default_column c t d) = c" "co_default (default_column c t d) = Some d"
  by (simp_all add: nullable_column_def default_column_def column_def)

lemma default_value_simps [simp]:
  "default_value now DefaultEmptyArray = VJson (PySeq [])" "default_value now (DefaultText s) = VText s"
  by (simp_all add: default_value_def)

lemma row_steps_0001: "rows_at 0 rs \<Longrightarrow> row_steps now rs upgrade_0001 = rs \<and> rows_ok now rs upgrade_0001"
proof -
  assume "rows_at 0 rs"
  then have "rs t = []" for t by (simp add: rows_at_def absent_def)
  then have "rs = (\<lambda>_. [])" by auto
  then show ?thesis by (simp add: row_steps_empty rows_ok_empty)
qed

lemma map_same: "(\<And>r. r \<in> set xs \<Longrightarrow> f r = g r) \<Longrightarrow> map f xs = map g xs"
  by simp

lemma row_steps_0002:
  assumes "rows_at 1 rs"
  shows "row_steps now rs upgrade_0002 = hardened rs"
proof -
  have "rs ''notification_outbox'' = []" using rows_at_absent [OF assms new_tables(1)] by simp
  moreover have "map (\<lambda>r. let r' = r(''correlation_id'' := None, ''causation_id'' := None)
       in if r' ''correlation_id'' = None then r'(''correlation_id'' := r' ''message_id'') else r') (rs ''signals'')
     = map (\<lambda>r. r(''correlation_id'' := r ''message_id'')) (rs ''signals'')"
  proof (rule map_same)
    fix r assume r: "r \<in> set (rs ''signals'')"
    have "r ''causation_id'' = None" by (rule rows_at_null [OF assms new_columns(2) r]) simp
    then show "(let r' = r(''correlation_id'' := None, ''causation_id'' := None)
       in if r' ''correlation_id'' = None then r'(''correlation_id'' := r' ''message_id'') else r')
      = r(''correlation_id'' := r ''message_id'')"
      by (auto simp: fun_eq_iff)
  qed
  moreover have "map (\<lambda>r. let r' = r(''snapshot_id'' := None, ''correlation_id'' := None, ''causation_id'' := None)
       in if r' ''correlation_id'' = None then r'(''correlation_id'' := r' ''request_id'') else r') (rs ''audit_events'')
     = map (\<lambda>r. r(''correlation_id'' := r ''request_id'')) (rs ''audit_events'')"
  proof (rule map_same)
    fix r assume r: "r \<in> set (rs ''audit_events'')"
    have "r ''causation_id'' = None" "r ''snapshot_id'' = None"
      by (rule rows_at_null [OF assms new_columns(3) r]; simp)+
    then show "(let r' = r(''snapshot_id'' := None, ''correlation_id'' := None, ''causation_id'' := None)
       in if r' ''correlation_id'' = None then r'(''correlation_id'' := r' ''request_id'') else r')
      = r(''correlation_id'' := r ''request_id'')"
      by (auto simp: fun_eq_iff)
  qed
  ultimately show ?thesis
    by (auto simp: upgrade_0002_def hardened_def hardened_agent_def comp_def Let_def fun_eq_iff)
qed

lemma rows_ok_0002:
  assumes "rows_at 1 rs"
  shows "rows_ok now rs upgrade_0002 \<longleftrightarrow> hardenable rs"
  by (auto simp: upgrade_0002_def hardenable_def list_all_iff list_ex_iff check_passes_def Let_def
      unique_rows_def index_on_def split: if_splits)

lemma row_steps_0003:
  assumes "rows_at 2 rs"
  shows "row_steps now rs upgrade_0003 = rs" "rows_ok now rs upgrade_0003"
proof -
  note keep = keep_rows [OF assms new_columns(4)]
  note absent = rows_at_absent [OF assms new_tables(2)]
  have null: "r ''task_id'' = None" "r ''orchestration_run_id'' = None" if "r \<in> set (rs ''signals'')" for r
    by (rule rows_at_null [OF assms new_columns(4) that]; simp)+
  show "row_steps now rs upgrade_0003 = rs"
    using absent [of "''agent_endpoints''"] absent [of "''agent_runtime_states''"] absent [of "''orchestration_runs''"]
      absent [of "''agent_tasks''"] keep [of "''task_id''"] keep [of "''orchestration_run_id''"]
    by (auto simp: upgrade_0003_def task_result_columns_def)
  show "rows_ok now rs upgrade_0003"
    using null keep [of "''task_id''"] keep [of "''orchestration_run_id''"]
    by (auto simp: upgrade_0003_def task_result_columns_def list_all_iff refers_def key_of_def check_passes_def all_null_def no_null_def
        unique_rows_def index_on_def)
qed

lemma row_steps_0004:
  assumes "rows_at 3 rs"
  shows "row_steps now rs upgrade_0004 = rs" "rows_ok now rs upgrade_0004"
proof -
  note keep = keep_rows [OF assms new_columns(5)]
  have null: "r c = None" if "r \<in> set (rs ''signals'')" "c \<in> set lineage_columns" for r c
    by (rule rows_at_null [OF assms new_columns(5) that])
  have keeps: "rs(''signals'' := map (\<lambda>r. r(c := None)) (rs ''signals'')) = rs" if "c \<in> set lineage_columns" for c
    using keep [OF that] by simp
  show "row_steps now rs upgrade_0004 = rs"
    using keeps by (simp add: upgrade_0004_def lineage_columns_def)
  show "rows_ok now rs upgrade_0004"
    using null keeps
    by (simp add: upgrade_0004_def list_all_iff check_passes_def all_null_def no_null_def index_on_def lineage_columns_def)
qed

lemma row_steps_downgrade_0002:
  assumes "rows_at 1 rs"
  shows "row_steps later (hardened rs) downgrade_0002 = rs"
proof -
  have agents: "map (\<lambda>r. (hardened_agent r)(''supported_evidence_types'' := None, ''supported_assets'' := None,
      ''criticality'' := None, ''capabilities'' := None)) (rs ''agents'') = rs ''agents''"
  proof (rule map_idI)
    fix r assume r: "r \<in> set (rs ''agents'')"
    have "r ''capabilities'' = None" "r ''criticality'' = None" "r ''supported_assets'' = None"
      "r ''supported_evidence_types'' = None"
      by (rule rows_at_null [OF assms new_columns(1) r]; simp)+
    then show "(hardened_agent r)(''supported_evidence_types'' := None, ''supported_assets'' := None,
      ''criticality'' := None, ''capabilities'' := None) = r"
      by (auto simp: hardened_agent_def fun_eq_iff)
  qed
  have signals: "map (\<lambda>r. r(''correlation_id'' := r ''message_id'', ''causation_id'' := None, ''correlation_id'' := None))
      (rs ''signals'') = rs ''signals''"
  proof (rule map_idI)
    fix r assume r: "r \<in> set (rs ''signals'')"
    have "r ''correlation_id'' = None" "r ''causation_id'' = None"
      by (rule rows_at_null [OF assms new_columns(2) r]; simp)+
    then show "r(''correlation_id'' := r ''message_id'', ''causation_id'' := None, ''correlation_id'' := None) = r"
      by (auto simp: fun_eq_iff)
  qed
  have audit: "map (\<lambda>r. r(''correlation_id'' := r ''request_id'', ''causation_id'' := None, ''correlation_id'' := None,
      ''snapshot_id'' := None)) (rs ''audit_events'') = rs ''audit_events''"
  proof (rule map_idI)
    fix r assume r: "r \<in> set (rs ''audit_events'')"
    have "r ''correlation_id'' = None" "r ''causation_id'' = None" "r ''snapshot_id'' = None"
      by (rule rows_at_null [OF assms new_columns(3) r]; simp)+
    then show "r(''correlation_id'' := r ''request_id'', ''causation_id'' := None, ''correlation_id'' := None,
      ''snapshot_id'' := None) = r"
      by (auto simp: fun_eq_iff)
  qed
  have "rs ''notification_outbox'' = []" "rs ''used_nonces'' = []"
    using rows_at_absent [OF assms new_tables(1)] by simp_all
  then show ?thesis using agents signals audit
    by (auto simp: downgrade_0002_def hardened_def comp_def fun_eq_iff)
qed

lemma row_steps_downgrade_0003:
  assumes "rows_at 2 rs"
  shows "row_steps later rs downgrade_0003 = rs"
  using rows_at_absent [OF assms new_tables(2)] keep_rows [OF assms new_columns(4)]
  by (auto simp: downgrade_0003_def fun_eq_iff)

lemma row_steps_downgrade_0004:
  assumes "rows_at 3 rs"
  shows "row_steps later rs downgrade_0004 = rs"
  using keep_rows [OF assms new_columns(5)] by (simp add: downgrade_0004_def lineage_columns_def)

lemma rows_ok_downgrades:
  "rows_ok now rs downgrade_0001" "rows_ok now rs downgrade_0002" "rows_ok now rs downgrade_0003"
  "rows_ok now rs downgrade_0004"
  by (simp_all add: downgrade_0001_def downgrade_0002_def downgrade_0003_def downgrade_0004_def lineage_columns_def)

section \<open>Databases along the revisions\<close>

lemma downgrades_nth:
  "rv_downgrade (revisions ! 0) = downgrade_0001" "rv_downgrade (revisions ! 1) = downgrade_0002"
  "rv_downgrade (revisions ! 2) = downgrade_0003" "rv_downgrade (revisions ! 3) = downgrade_0004"
  by (simp_all only: revisions_nth One_nat_def revision.simps)

lemma below_4: "n < 4 \<Longrightarrow> n = 0 \<or> n = 1 \<or> n = 2 \<or> n = (3::nat)"
  by arith

lemma upgrades_step:
  assumes "n < 4"
  shows "schema_run (rv_upgrade (revisions ! n)) (schema_after n) = Inr (schema_after (Suc n))"
  using below_4 [OF assms] schema_run_upgrades upgrades_nth evaluated_from_empty by (elim disjE) (simp_all only:)

lemma downgrades_step:
  assumes "n < 4"
  shows "schema_run (rv_downgrade (revisions ! n)) (schema_after (Suc n)) = Inr (schema_after n)"
  using below_4 [OF assms] schema_run_downgrades downgrades_nth evaluated_from_empty by (elim disjE) (simp_all only:)

lemma distinct_schema:
  assumes "n \<le> 4"
  shows "distinct (map tb_name (schema_after n))"
proof -
  have "n = 0 \<or> n = 1 \<or> n = 2 \<or> n = 3 \<or> n = 4" using assms by arith
  then show ?thesis using distinct_tables by (elim disjE) (simp_all only: evaluated_from_empty list.map distinct.simps)
qed

lemma downgrade_rows:
  assumes "n < 4" "rows_at n rs"
  shows "row_steps later (row_steps now rs (rv_upgrade (revisions ! n))) (rv_downgrade (revisions ! n)) = rs"
  using below_4 [OF assms(1)]
proof (elim disjE)
  assume n: "n = 0"
  have "rs t = []" for t using assms(2) n by (simp add: rows_at_def absent_def)
  then have "rs = (\<lambda>_. [])" by auto
  then show ?thesis by (simp add: row_steps_empty)
next
  assume n: "n = 1"
  have rs: "rows_at 1 rs" using assms(2) n by simp
  show ?thesis unfolding n upgrades_nth downgrades_nth row_steps_0002 [OF rs] by (rule row_steps_downgrade_0002 [OF rs])
next
  assume n: "n = 2"
  have rs: "rows_at 2 rs" using assms(2) n by simp
  show ?thesis unfolding n upgrades_nth downgrades_nth row_steps_0003 [OF rs] by (rule row_steps_downgrade_0003 [OF rs])
next
  assume n: "n = 3"
  have rs: "rows_at 3 rs" using assms(2) n by simp
  show ?thesis unfolding n upgrades_nth downgrades_nth row_steps_0004 [OF rs] by (rule row_steps_downgrade_0004 [OF rs])
qed

lemma rows_ok_downgrade:
  assumes "n < 4"
  shows "rows_ok now rs (rv_downgrade (revisions ! n))"
  using below_4 [OF assms] rows_ok_downgrades downgrades_nth by (elim disjE) (simp_all only:)

lemma at_revision_step:
  assumes "n \<le> 4" "at_revision n db" "schema_run ds (schema_after n) = Inr (schema_after m)"
    and "run_ddl now ds db = Inr db'"
  shows "at_revision m db'"
proof -
  have db: "db = with_rows (rows_of db) (schema_after n)" by (rule at_revision_rows [OF assms(2) distinct_schema [OF assms(1)]])
  from assms(4) have "run_ddl now ds (with_rows (rows_of db) (schema_after n)) = Inr db'" using db by simp
  then have "schema_of db' = schema_after m" using run_ddl_by_schema [OF assms(3)] by simp
  moreover have "confined db'" using run_ddl_confined [OF assms(4)] assms(2) by (simp add: at_revision_def)
  ultimately show ?thesis by (simp add: at_revision_def)
qed

text \<open>A downgrade is never refused, whatever rows the database holds by then, and leaves a database at the
  revision before.\<close>

theorem downgrade_always_possible:
  assumes "n < 4" "at_revision (Suc n) db"
  shows "\<exists>db'. run_ddl now (rv_downgrade (revisions ! n)) db = Inr db' \<and> at_revision n db'"
proof -
  have db: "with_rows (rows_of db) (schema_after (Suc n)) = db"
    by (rule at_revision_rows(1) [OF assms(2) distinct_schema, symmetric]) (use assms(1) in simp)
  obtain db' where "run_ddl now (rv_downgrade (revisions ! n)) db = Inr db'"
    using run_ddl_by_schema [OF downgrades_step [OF assms(1)], of now "rows_of db"] rows_ok_downgrade [OF assms(1)]
    unfolding db by blast
  moreover from at_revision_step [OF _ assms(2) downgrades_step [OF assms(1)] this] have "at_revision n db'"
    using assms(1) by simp
  ultimately show ?thesis by blast
qed

text \<open>C38 A downgrade right after its upgrade gives back the database as it was: tables, columns,
  constraints, indexes and every row.\<close>

theorem downgrade_undoes_upgrade:
  assumes "n < 4" "at_revision n db" "run_ddl now (rv_upgrade (revisions ! n)) db = Inr db'"
  shows "run_ddl later (rv_downgrade (revisions ! n)) db' = Inr db"
proof -
  have "n \<le> 4" using assms(1) by simp
  note db = at_revision_rows [OF assms(2) distinct_schema [OF this]]
  have "run_ddl now (rv_upgrade (revisions ! n)) (with_rows (rows_of db) (schema_after n)) = Inr db'"
    using assms(3) db(1) by simp
  then have db': "db' = with_rows (row_steps now (rows_of db) (rv_upgrade (revisions ! n))) (schema_after (Suc n))"
    using run_ddl_by_schema [OF upgrades_step [OF assms(1)]] by simp
  show ?thesis
    using run_ddl_by_schema [OF downgrades_step [OF assms(1)]] rows_ok_downgrade [OF assms(1)]
      downgrade_rows [OF assms(1) db(2)] db(1)
    unfolding db' by simp
qed

section \<open>Up to the head\<close>

lemma pending_upgrades:
  "map rv_upgrade (pending (length revisions) None) = [upgrade_0001, upgrade_0002, upgrade_0003, upgrade_0004]"
  "map rv_upgrade (pending (length revisions) (Some ''0001_phase_01'')) = [upgrade_0002, upgrade_0003, upgrade_0004]"
  by (simp_all add: revisions_def)

text \<open>C36 \<open>alembic upgrade head\<close> on an empty database succeeds and makes the schema that the models
  declare: the same tables, columns with their types, nullability and declared defaults, primary and
  foreign keys, unique and check constraints, and indexes.\<close>

theorem migrated_schema_is_declared:
  "case upgrade_head now None [] of Inl _ \<Rightarrow> False | Inr db \<Rightarrow> same_schema declared_schema (schema_of db)"
proof -
  have "schema_run (upgrade_0001 @ upgrade_0002 @ upgrade_0003 @ upgrade_0004) [] = Inr (schema_after 4)"
    using schema_run_upgrades unfolding evaluated_from_empty(5) by (intro schema_run_append)
  then have "run_ddl now (upgrade_0001 @ upgrade_0002 @ upgrade_0003 @ upgrade_0004) (bare []) = Inr (bare (schema_after 4))"
    unfolding schema_run_iff [where now = now] .
  then have "upgrade_head now None [] = Inr (bare (schema_after 4))"
    unfolding upgrade_head_def pending_upgrades by (simp add: with_rows_def)
  then show ?thesis using declared_after_all by simp
qed

lemma next_rows:
  assumes "n < 4" "at_revision n db" "run_ddl now (rv_upgrade (revisions ! n)) db = Inr db'"
  shows "at_revision (Suc n) db'" "rows_of db' = row_steps now (rows_of db) (rv_upgrade (revisions ! n))"
proof -
  have n: "n \<le> 4" using assms(1) by simp
  show "at_revision (Suc n) db'" by (rule at_revision_step [OF n assms(2) upgrades_step [OF assms(1)] assms(3)])
  note db = at_revision_rows [OF assms(2) distinct_schema [OF n]]
  have run: "run_ddl now (rv_upgrade (revisions ! n)) (with_rows (rows_of db) (schema_after n)) = Inr db'"
    using assms(3) db(1) by simp
  then have db': "db' = with_rows (row_steps now (rows_of db) (rv_upgrade (revisions ! n))) (schema_after (Suc n))"
    using run_ddl_by_schema [OF upgrades_step [OF assms(1)]] by simp
  have "no_rows_outside (schema_after n) (rows_of db)"
    using db(2) by (simp add: rows_at_def no_rows_outside_def absent_def)
  from run_ddl_outside [OF run [unfolded db'] this] show "rows_of db' = row_steps now (rows_of db) (rv_upgrade (revisions ! n))"
    unfolding db' by (rule rows_of_with_rows)
qed

text \<open>C37 \<open>alembic upgrade head\<close> on a database in use at the first revision is refused exactly when an agent has
  no \<open>created_at\<close> or \<open>updated_at\<close> (or a primary key or \<open>request_id\<close> is missing, which the first schema rules
  out). Otherwise every row is kept with its values: the signals are correlated by their own message, the
  audit events by their request, the nonces move to \<open>used_nonces\<close>, and the agents get the defaults.\<close>

theorem upgrade_of_a_database_in_use:
  assumes "at_revision 1 db"
  shows "upgrade_head now (Some ''0001_phase_01'') db = Inr db' \<longleftrightarrow>
    hardenable (rows_of db) \<and> db' = with_rows (hardened (rows_of db)) (schema_after 4)"
proof -
  define rs where "rs = rows_of db"
  have bounds: "(1::nat) \<le> 4" "(2::nat) \<le> 4" "(3::nat) \<le> 4" "(1::nat) < 4" "(2::nat) < 4" by simp_all
  note db = at_revision_rows [OF assms distinct_schema [OF bounds(1)], folded rs_def]
  have schema: "schema_run (upgrade_0002 @ upgrade_0003 @ upgrade_0004) (schema_after 1) = Inr (schema_after 4)"
    using schema_run_upgrades(2-4) by (intro schema_run_append)
  have later: "rows_at 2 (hardened rs) \<and> rows_at 3 (hardened rs)" if ok: "hardenable rs"
  proof -
    have "\<exists>db1. run_ddl now upgrade_0002 db = Inr db1"
      using run_ddl_by_schema [OF schema_run_upgrades(2), of now rs] rows_ok_0002 [OF db(2)] ok db(1) by metis
    then obtain db1 where db1: "run_ddl now (rv_upgrade (revisions ! 1)) db = Inr db1" unfolding upgrades_nth by blast
    note r1 = next_rows [OF bounds(4) assms db1, folded rs_def, unfolded upgrades_nth row_steps_0002 [OF db(2)]
        evaluated_from_empty]
    note a2 = at_revision_rows [OF r1(1) distinct_schema [OF bounds(2)], unfolded r1(2)]
    have "\<exists>db2. run_ddl now upgrade_0003 db1 = Inr db2"
      using run_ddl_by_schema [OF schema_run_upgrades(3), of now "hardened rs"] row_steps_0003(2) [OF a2(2)] a2(1) by metis
    then obtain db2 where db2: "run_ddl now (rv_upgrade (revisions ! 2)) db1 = Inr db2" unfolding upgrades_nth by blast
    note r2 = next_rows [OF bounds(5) r1(1) db2, unfolded upgrades_nth r1(2) row_steps_0003(1) [OF a2(2)]
        evaluated_from_empty]
    from a2(2) at_revision_rows(2) [OF r2(1) distinct_schema [OF bounds(3)], unfolded r2(2)] show ?thesis by blast
  qed
  have "upgrade_head now (Some ''0001_phase_01'') db = Inr db' \<longleftrightarrow>
      rows_ok now rs (upgrade_0002 @ upgrade_0003 @ upgrade_0004)
      \<and> db' = with_rows (row_steps now rs (upgrade_0002 @ upgrade_0003 @ upgrade_0004)) (schema_after 4)"
    using run_ddl_by_schema [OF schema, of now rs db'] db(1) by (simp add: upgrade_head_def pending_upgrades)
  also have "\<dots> \<longleftrightarrow> hardenable rs \<and> db' = with_rows (hardened rs) (schema_after 4)"
    unfolding rows_ok_append row_steps_append rows_ok_0002 [OF db(2)] row_steps_0002 [OF db(2)]
    using later row_steps_0003 row_steps_0004 by (metis (no_types))
  finally show ?thesis unfolding rs_def .
qed

section \<open>A sample database\<close>

definition sample_agent :: sql_row where
  "sample_agent = [''agent_id'' \<mapsto> VText ''a-1'', ''created_at'' \<mapsto> VTime 5, ''updated_at'' \<mapsto> VTime 6]"

definition sample_rows :: "string \<Rightarrow> sql_row list" where
  "sample_rows = (\<lambda>_. [])(''agents'' := [sample_agent])"

definition sample_database :: "nat \<Rightarrow> sql_database" where
  "sample_database n = with_rows sample_rows (schema_after n)"

lemma sample_columns:
  "list_all (\<lambda>s. tb_name s \<noteq> ''agents'' \<or>
     list_all (\<lambda>c. c \<in> set (column_names s)) [''agent_id'', ''created_at'', ''updated_at'']) (schema_after 1)"
  "list_all (\<lambda>s. tb_name s \<noteq> ''agents'' \<or>
     list_all (\<lambda>c. c \<in> set (column_names s)) [''agent_id'', ''created_at'', ''updated_at'']) (schema_after 2)"
  "\<not> absent (schema_after 1) [''agents'']"
  by code_simp+

lemma sample_at_revision: "at_revision 1 (sample_database 1)" "at_revision 2 (sample_database 2)"
proof -
  have "dom sample_agent = {''agent_id'', ''created_at'', ''updated_at''}" by (auto simp: sample_agent_def)
  then have "confined (with_rows sample_rows ss)"
    if "list_all (\<lambda>s. tb_name s \<noteq> ''agents'' \<or>
     list_all (\<lambda>c. c \<in> set (column_names s)) [''agent_id'', ''created_at'', ''updated_at'']) ss" for ss
    using that by (auto simp: confined_def list_all_iff rows_within_def with_rows_def sample_rows_def)
  from this [OF sample_columns(1)] this [OF sample_columns(2)]
  show "at_revision 1 (sample_database 1)" "at_revision 2 (sample_database 2)"
    by (simp_all add: at_revision_def sample_database_def)
qed

lemma sample_outside: "no_rows_outside (schema_after 1) sample_rows"
  using sample_columns(3) by (auto simp: no_rows_outside_def sample_rows_def absent_def)

lemma sample_hardenable: "rows_of (sample_database 1) = sample_rows" "hardenable sample_rows"
proof -
  show "rows_of (sample_database 1) = sample_rows"
    unfolding sample_database_def by (rule rows_of_with_rows [OF sample_outside])
  show "hardenable sample_rows" by (simp add: hardenable_def sample_rows_def sample_agent_def)
qed

theorem upgrade_of_a_database_in_use_witness:
  "upgrade_head 9 (Some ''0001_phase_01'') (sample_database 1) = Inr (with_rows (hardened sample_rows) (schema_after 4))"
  using upgrade_of_a_database_in_use [OF sample_at_revision(1)] unfolding sample_hardenable(1)
  using sample_hardenable(2) by blast

theorem downgrade_always_possible_witness:
  "\<exists>db'. run_ddl 3 (rv_downgrade (revisions ! 1)) (sample_database 2) = Inr db' \<and> at_revision 1 db'"
  using downgrade_always_possible [of 1, unfolded evaluated_from_empty(2)] sample_at_revision(2) by simp

theorem downgrade_undoes_upgrade_witness:
  "run_ddl 3 (rv_downgrade (revisions ! 1)) (with_rows (hardened sample_rows) (schema_after 2)) = Inr (sample_database 1)"
proof (rule downgrade_undoes_upgrade [where now = 9])
  have rows: "rows_at 1 sample_rows"
    using at_revision_rows(2) [OF sample_at_revision(1) distinct_schema] sample_hardenable(1) by simp
  show "run_ddl 9 (rv_upgrade (revisions ! 1)) (sample_database 1) = Inr (with_rows (hardened sample_rows) (schema_after 2))"
    unfolding sample_database_def upgrades_nth
    using run_ddl_by_schema [OF schema_run_upgrades(2), of 9 sample_rows] rows_ok_0002 [OF rows] row_steps_0002 [OF rows]
      sample_hardenable(2) by simp
  show "(1::nat) < 4" by simp
  show "at_revision 1 (sample_database 1)" by (rule sample_at_revision(1))
qed

end
