(* ===== verification/Stored_Rows.thy ===== *)
theory Stored_Rows
  imports Declared_Schema Ingestion
begin

text \<open>
  The rows that the classes of \<open>src/tomiris_hub/database/models.py\<close> write to their tables.  The theory
  shows that the constraints of the declared schema, as PostgreSQL checks them, hold of the stored rows
  exactly when the predicate \<open>schema_ok\<close> holds of the model's world, and which accepted signals fit
  their columns.
\<close>

section \<open>Rows from objects\<close>

fun sql_of :: "(string \<times> sql_value option) list \<Rightarrow> sql_row" where
  "sql_of [] c = None"
| "sql_of ((k, v) # kvs) c = (if c = k then v else sql_of kvs c)"

fun criticality_text :: "criticality \<Rightarrow> string" where
  "criticality_text LOW = ''LOW''"
| "criticality_text NORMAL = ''NORMAL''"
| "criticality_text HIGH = ''HIGH''"
| "criticality_text CRITICAL = ''CRITICAL''"

fun snapshot_status_text :: "snapshot_status \<Rightarrow> string" where
  "snapshot_status_text S_OPEN = ''OPEN''"
| "snapshot_status_text S_CLOSED = ''CLOSED''"
| "snapshot_status_text S_EXPIRED = ''EXPIRED''"
| "snapshot_status_text S_INVALID = ''INVALID''"

fun bias_text :: "bias \<Rightarrow> string" where
  "bias_text LONG = ''LONG''"
| "bias_text SHORT = ''SHORT''"
| "bias_text NEUTRAL = ''NEUTRAL''"
| "bias_text ABSTAIN = ''ABSTAIN''"

fun audit_outcome_text :: "audit_outcome \<Rightarrow> string" where
  "audit_outcome_text ACCEPTED = ''ACCEPTED''"
| "audit_outcome_text REJECTED = ''REJECTED''"

fun notification_status_text :: "notification_status \<Rightarrow> string" where
  "notification_status_text N_PENDING = ''PENDING''"
| "notification_status_text N_SENDING = ''SENDING''"
| "notification_status_text N_SENT = ''SENT''"
| "notification_status_text N_RETRY = ''RETRY''"
| "notification_status_text N_FAILED = ''FAILED''"
| "notification_status_text N_DEAD_LETTER = ''DEAD_LETTER''"

fun environment_text :: "environment \<Rightarrow> string" where
  "environment_text TEST = ''TEST''"
| "environment_text DEVELOPMENT = ''DEVELOPMENT''"
| "environment_text PRODUCTION = ''PRODUCTION''"

fun availability_text :: "availability \<Rightarrow> string" where
  "availability_text UNKNOWN = ''UNKNOWN''"
| "availability_text HEALTHY = ''HEALTHY''"
| "availability_text DEGRADED = ''DEGRADED''"
| "availability_text UNAVAILABLE = ''UNAVAILABLE''"

fun circuit_text :: "circuit_state \<Rightarrow> string" where
  "circuit_text CLOSED = ''CLOSED''"
| "circuit_text OPEN = ''OPEN''"
| "circuit_text HALF_OPEN = ''HALF_OPEN''"

fun run_outcome_text :: "run_outcome \<Rightarrow> string" where
  "run_outcome_text O_FULL = ''FULL''"
| "run_outcome_text O_DEGRADED = ''DEGRADED''"
| "run_outcome_text O_CRITICAL = ''CRITICAL''"
| "run_outcome_text O_INSUFFICIENT_DATA = ''INSUFFICIENT_DATA''"

fun task_status_text :: "task_status \<Rightarrow> string" where
  "task_status_text PENDING = ''PENDING''"
| "task_status_text DISPATCHING = ''DISPATCHING''"
| "task_status_text ACKNOWLEDGED = ''ACKNOWLEDGED''"
| "task_status_text WAITING_SIGNAL = ''WAITING_SIGNAL''"
| "task_status_text SIGNAL_RECEIVED = ''SIGNAL_RECEIVED''"
| "task_status_text RETRY = ''RETRY''"
| "task_status_text TIMED_OUT = ''TIMED_OUT''"
| "task_status_text FAILED = ''FAILED''"
| "task_status_text CANCELLED = ''CANCELLED''"
| "task_status_text SKIPPED = ''SKIPPED''"

text \<open>
  What the world leaves out: the identifiers of the nonces, the times of agents and endpoints, and the
  JSON text of a signal and of the metadata of a run.
\<close>

record storage =
  so_nonce_id :: "nat \<Rightarrow> uuid"
  so_stamp :: instant
  so_dump_signal :: "agent_signal \<Rightarrow> pyval"
  so_dump_metadata :: "run_metadata \<Rightarrow> pyval"

definition json_texts :: "string list \<Rightarrow> sql_value option" where
  "json_texts ts = Some (VJson (PySeq (map PyStr ts)))"

definition json_object :: "dict \<Rightarrow> sql_value option" where
  "json_object d = Some (VJson (PyMap (map (\<lambda>(k, v). (PyStr k, v)) d)))"

definition agent_sql :: "storage \<Rightarrow> agent \<Rightarrow> sql_row" where
  "agent_sql so a = sql_of
     [(''agent_id'', Some (VText (ag_agent_id a))), (''name'', Some (VText (ag_name a))),
      (''role'', Some (VText (ag_role a))), (''enabled'', Some (VBool (ag_enabled a))),
      (''protocol_version'', Some (VText (ag_protocol_version a))),
      (''capabilities'', json_texts (ag_capabilities a)),
      (''criticality'', Some (VText (criticality_text (ag_criticality a)))),
      (''supported_assets'', json_texts (ag_supported_assets a)),
      (''supported_evidence_types'', json_texts (ag_supported_evidence_types a)),
      (''metadata_json'', json_object (ag_metadata a)),
      (''created_at'', Some (VTime (so_stamp so))), (''updated_at'', Some (VTime (so_stamp so)))]"

definition snapshot_sql :: "market_snapshot \<Rightarrow> sql_row" where
  "snapshot_sql s = sql_of
     [(''snapshot_id'', Some (VUuid (sn_snapshot_id s))), (''created_at'', Some (VTime (sn_created_at s))),
      (''expires_at'', Some (VTime (sn_expires_at s))),
      (''status'', Some (VText (snapshot_status_text (sn_status s)))),
      (''context_version'', Some (VText (sn_context_version s))), (''metadata_json'', Some (VJson (sn_metadata s)))]"

definition nonce_sql :: "uuid \<Rightarrow> nonce_row \<Rightarrow> sql_row" where
  "nonce_sql k n = sql_of
     [(''id'', Some (VUuid k)), (''agent_id'', Some (VText (nc_agent_id n))), (''nonce'', Some (VText (nc_nonce n))),
      (''received_at'', Some (VTime (nc_received_at n)))]"

definition signal_sql :: "storage \<Rightarrow> signal_row \<Rightarrow> sql_row" where
  "signal_sql so s = sql_of
     [(''message_id'', Some (VUuid (sg_message_id s))), (''agent_id'', Some (VText (sg_agent_id s))),
      (''agent_run_id'', Some (VUuid (sg_agent_run_id s))), (''snapshot_id'', Some (VUuid (sg_snapshot_id s))),
      (''task_id'', map_option VUuid (sg_task_id s)),
      (''orchestration_run_id'', map_option VUuid (sg_orchestration_run_id s)),
      (''correlation_id'', Some (VUuid (sg_correlation_id s))),
      (''causation_id'', map_option VUuid (sg_causation_id s)),
      (''protocol_version'', Some (VText (sg_protocol_version s))), (''asset'', Some (VText (sg_asset s))),
      (''bias'', Some (VText (bias_text (sg_bias s)))), (''confidence'', Some (VInt (sg_confidence s))),
      (''impact'', Some (VInt (sg_impact s))), (''time_horizon'', Some (VText (sg_time_horizon s))),
      (''data_timestamp'', Some (VTime (sg_data_timestamp s))),
      (''analysis_timestamp'', Some (VTime (sg_analysis_timestamp s))),
      (''signal_ttl_seconds'', Some (VInt (sg_signal_ttl_seconds s))),
      (''role_id'', map_option VText (sg_role_id s)), (''role_version'', map_option VText (sg_role_version s)),
      (''config_version'', map_option VText (sg_config_version s)),
      (''feature_pipeline_version'', map_option VText (sg_feature_pipeline_version s)),
      (''analysis_schema_version'', map_option VText (sg_analysis_schema_version s)),
      (''data_provider'', map_option VText (sg_data_provider s)),
      (''data_as_of'', map_option VTime (sg_data_as_of s)),
      (''confidence_model_version'', map_option VText (sg_confidence_model_version s)),
      (''payload_json'', Some (VJson (so_dump_signal so (sg_payload s)))),
      (''payload_hash'', Some (VText (sg_payload_hash s))), (''received_at'', Some (VTime (sg_received_at s)))]"

definition audit_sql :: "audit_row \<Rightarrow> sql_row" where
  "audit_sql a = sql_of
     [(''event_id'', Some (VUuid (au_event_id a))), (''occurred_at'', Some (VTime (au_occurred_at a))),
      (''event_type'', Some (VText (au_event_type a))),
      (''outcome'', Some (VText (audit_outcome_text (au_outcome a)))),
      (''reason_code'', map_option VText (au_reason_code a)), (''request_id'', Some (VUuid (au_request_id a))),
      (''agent_id'', map_option VText (au_agent_id a)), (''message_id'', map_option VUuid (au_message_id a)),
      (''snapshot_id'', map_option VUuid (au_snapshot_id a)),
      (''correlation_id'', Some (VUuid (au_correlation_id a))),
      (''causation_id'', map_option VUuid (au_causation_id a)),
      (''payload_hash'', map_option VText (au_payload_hash a)), (''metadata_json'', json_object (au_metadata a))]"

definition outbox_sql :: "outbox_row \<Rightarrow> sql_row" where
  "outbox_sql n = sql_of
     [(''notification_id'', Some (VUuid (ob_notification_id n))), (''event_id'', Some (VUuid (ob_event_id n))),
      (''event_type'', Some (VText (ob_event_type n))), (''snapshot_id'', map_option VUuid (ob_snapshot_id n)),
      (''channel'', Some (VText (ob_channel n))), (''recipient_ref'', Some (VText (ob_recipient_ref n))),
      (''payload'', Some (VJson (ob_payload n))),
      (''status'', Some (VText (notification_status_text (ob_status n)))),
      (''attempt_count'', Some (VInt (ob_attempt_count n))),
      (''next_attempt_at'', Some (VTime (ob_next_attempt_at n))),
      (''last_error_code'', map_option VText (ob_last_error_code n)),
      (''created_at'', Some (VTime (ob_created_at n))), (''sent_at'', map_option VTime (ob_sent_at n)),
      (''idempotency_key'', Some (VText (ob_idempotency_key n))),
      (''correlation_id'', Some (VUuid (ob_correlation_id n))),
      (''causation_id'', map_option VUuid (ob_causation_id n))]"

definition endpoint_sql :: "storage \<Rightarrow> agent_endpoint \<Rightarrow> sql_row" where
  "endpoint_sql so p = sql_of
     [(''agent_id'', Some (VText (ep_agent_id p))), (''endpoint_url'', Some (VText (ep_endpoint_url p))),
      (''transport'', Some (VText ''HTTP'')), (''enabled'', Some (VBool (ep_enabled p))),
      (''environment'', Some (VText (environment_text (ep_environment p)))),
      (''metadata'', json_object (ep_metadata p)),
      (''created_at'', Some (VTime (so_stamp so))), (''updated_at'', Some (VTime (so_stamp so)))]"

definition state_sql :: "agent_runtime_state \<Rightarrow> sql_row" where
  "state_sql s = sql_of
     [(''agent_id'', Some (VText (rs_agent_id s))),
      (''availability'', Some (VText (availability_text (rs_availability s)))),
      (''last_probe_at'', map_option VTime (rs_last_probe_at s)),
      (''last_seen_at'', map_option VTime (rs_last_seen_at s)),
      (''last_ack_at'', map_option VTime (rs_last_ack_at s)),
      (''last_signal_at'', map_option VTime (rs_last_signal_at s)),
      (''last_success_at'', map_option VTime (rs_last_success_at s)),
      (''consecutive_failures'', Some (VInt (rs_consecutive_failures s))),
      (''latency_ms'', map_option VFloat (rs_latency_ms s)),
      (''circuit_state'', Some (VText (circuit_text (rs_circuit_state s)))),
      (''circuit_open_until'', map_option VTime (rs_circuit_open_until s)),
      (''last_error_code'', map_option VText (rs_last_error_code s)),
      (''updated_at'', Some (VTime (rs_updated_at s)))]"

definition run_sql :: "storage \<Rightarrow> orchestration_run \<Rightarrow> sql_row" where
  "run_sql so r = sql_of
     [(''orchestration_run_id'', Some (VUuid (r_orchestration_run_id r))),
      (''snapshot_id'', Some (VUuid (r_snapshot_id r))), (''asset'', Some (VText (r_asset r))),
      (''trigger_type'', Some (VText (r_trigger_type r))),
      (''status'', Some (VText (run_status_name (r_status r)))),
      (''outcome'', map_option (\<lambda>x. VText (run_outcome_text x)) (r_outcome r)),
      (''created_at'', Some (VTime (r_created_at r))), (''started_at'', map_option VTime (r_started_at r)),
      (''collection_deadline'', Some (VTime (r_collection_deadline r))),
      (''completed_at'', map_option VTime (r_completed_at r)),
      (''correlation_id'', Some (VUuid (r_correlation_id r))),
      (''policy_version'', Some (VText (r_policy_version r))),
      (''metadata'', Some (VJson (so_dump_metadata so (r_metadata r))))]"

definition task_sql :: "agent_task \<Rightarrow> sql_row" where
  "task_sql t = sql_of
     [(''task_id'', Some (VUuid (t_task_id t))),
      (''orchestration_run_id'', Some (VUuid (t_orchestration_run_id t))),
      (''snapshot_id'', Some (VUuid (t_snapshot_id t))), (''agent_id'', Some (VText (t_agent_id t))),
      (''asset'', Some (VText (t_asset t))), (''required_capability'', Some (VText (t_required_capability t))),
      (''required'', Some (VBool (t_required t))), (''priority'', Some (VInt (t_priority t))),
      (''criticality'', Some (VText (criticality_text (t_criticality t)))),
      (''status'', Some (VText (task_status_text (t_status t)))),
      (''attempt_count'', Some (VInt (t_attempt_count t))),
      (''dispatch_after'', Some (VTime (t_dispatch_after t))),
      (''dispatch_deadline'', Some (VTime (t_dispatch_deadline t))),
      (''signal_deadline'', Some (VTime (t_signal_deadline t))),
      (''lease_owner'', map_option VText (t_lease_owner t)), (''lease_until'', map_option VTime (t_lease_until t)),
      (''last_error_code'', map_option VText (t_last_error_code t)),
      (''acknowledged_at'', map_option VTime (t_acknowledged_at t)),
      (''signal_received_at'', map_option VTime (t_signal_received_at t)),
      (''context'', Some (VJson (t_context t))), (''causation_id'', map_option VUuid (t_causation_id t)),
      (''created_at'', Some (VTime (t_created_at t))), (''updated_at'', Some (VTime (t_updated_at t)))]"

text \<open>The rows of each table\<close>

definition stored :: "storage \<Rightarrow> world \<Rightarrow> string \<Rightarrow> sql_row list" where
  "stored so w = (\<lambda>_. [])
     (''agents'' := map (agent_sql so) (w_agents w),
      ''market_snapshots'' := map snapshot_sql (w_snapshots w),
      ''used_nonces'' := map (\<lambda>(k, n). nonce_sql (so_nonce_id so k) n) (enumerate 0 (w_nonces w)),
      ''signals'' := map (signal_sql so) (w_signals w),
      ''audit_events'' := map audit_sql (w_audit w),
      ''notification_outbox'' := map outbox_sql (w_outbox w),
      ''agent_endpoints'' := map (endpoint_sql so) (w_endpoints w),
      ''agent_runtime_states'' := map state_sql (w_states w),
      ''orchestration_runs'' := map (run_sql so) (w_runs w),
      ''agent_tasks'' := map task_sql (w_tasks w))"

section \<open>The constraints of a schema\<close>

text \<open>What PostgreSQL keeps of a table: primary key, \<open>UNIQUE\<close>, unique indexes, foreign keys, \<open>CHECK\<close>\<close>

definition table_ok :: "(string \<Rightarrow> sql_row list) \<Rightarrow> table_schema \<Rightarrow> bool" where
  "table_ok rs s \<longleftrightarrow>
     list_all (\<lambda>r. key_of r (tb_primary_key s) \<noteq> None) (rs (tb_name s))
     \<and> unique_rows (rs (tb_name s)) (tb_primary_key s)
     \<and> list_all (\<lambda>(_, cols). unique_rows (rs (tb_name s)) cols) (tb_uniques s)
     \<and> list_all (\<lambda>i. ix_unique i \<longrightarrow> unique_rows (rs (tb_name s)) (ix_columns i)) (tb_indexes s)
     \<and> list_all (\<lambda>fk. list_all (refers (rs (fk_table fk)) fk) (rs (tb_name s))) (tb_foreign_keys s)
     \<and> list_all (\<lambda>(_, c). list_all (\<lambda>r. check_passes r c) (rs (tb_name s))) (tb_checks s)"

definition satisfies :: "(string \<Rightarrow> sql_row list) \<Rightarrow> table_schema list \<Rightarrow> bool" where
  "satisfies rs ss \<longleftrightarrow> list_all (table_ok rs) ss"

subsection \<open>Keys\<close>

lemma unique_rows_map:
  assumes "\<And>x. key_of (enc x) cols = Some (vals (key x))" "inj vals"
  shows "unique_rows (map enc xs) cols \<longleftrightarrow> distinct (map key xs)"
proof -
  have "map (\<lambda>r. key_of r cols) (map enc xs) = map (\<lambda>x. Some (vals (key x))) xs" by (simp add: assms(1))
  moreover have "filter (\<lambda>k. k \<noteq> None) (map (\<lambda>x. Some (vals (key x))) xs) = map (\<lambda>x. Some (vals (key x))) xs"
    by (induction xs) auto
  moreover have "distinct (map (\<lambda>x. Some (vals (key x))) xs) \<longleftrightarrow> distinct (map key xs)"
    using assms(2) by (induction xs) (auto simp: inj_eq)
  ultimately show ?thesis unfolding unique_rows_def by (simp only:)
qed

lemma unique_rows_optional:
  assumes "\<And>x. key_of (enc x) cols = map_option vals (key x)" "inj vals"
  shows "unique_rows (map enc xs) cols \<longleftrightarrow> distinct (map key (filter (\<lambda>x. key x \<noteq> None) xs))"
proof -
  have "filter (\<lambda>k. k \<noteq> None) (map (\<lambda>r. key_of r cols) (map enc xs))
      = map (map_option vals) (map key (filter (\<lambda>x. key x \<noteq> None) xs))"
    by (induction xs) (auto simp: assms(1))
  moreover have "distinct (map (map_option vals) ks) \<longleftrightarrow> distinct ks" for ks
    using option.inj_map [OF assms(2)] by (induction ks) (auto simp: inj_image_mem_iff)
  ultimately show ?thesis unfolding unique_rows_def by (simp only:)
qed

lemma refers_map:
  assumes "key_of r (fk_columns fk) = map_option vals k"
    and "\<And>y. key_of (enc y) (fk_references fk) = Some (vals (key y))" "inj vals"
  shows "refers (map enc ys) fk r \<longleftrightarrow> (\<forall>v. k = Some v \<longrightarrow> v \<in> key ` set ys)"
  using assms by (cases k) (auto simp: refers_def list_ex_iff inj_eq)

lemma key_of_one: "key_of r [c] = map_option (\<lambda>v. [v]) (r c)"
  by (cases "r c") (simp_all add: key_of_def)

lemmas check_simps = check_passes_def column_reference_def index_on_def

lemma agents_ok: "table_ok (stored so w) agents_model \<longleftrightarrow> distinct (map ag_agent_id (w_agents w))"
proof -
  have key: "key_of (agent_sql so a) [''agent_id''] = Some [VText (ag_agent_id a)]" for a
    by (simp add: key_of_one agent_sql_def)
  have checks: "check_passes (agent_sql so a) (OneOf ''criticality'' [''LOW'', ''NORMAL'', ''HIGH'', ''CRITICAL''])" for a
    by (cases "ag_criticality a") (simp_all add: check_passes_def agent_sql_def)
  have "unique_rows (map (agent_sql so) (w_agents w)) [''agent_id''] \<longleftrightarrow> distinct (map ag_agent_id (w_agents w))"
    by (rule unique_rows_map [where vals = "\<lambda>k. [VText k]"]) (simp_all add: key inj_def)
  then show ?thesis
    by (simp add: table_ok_def agents_model_def stored_def list_all_iff key checks)
qed

lemma snapshots_ok: "table_ok (stored so w) snapshots_model \<longleftrightarrow> distinct (map sn_snapshot_id (w_snapshots w))"
proof -
  have key: "key_of (snapshot_sql a) [''snapshot_id''] = Some [VUuid (sn_snapshot_id a)]" for a
    by (simp add: key_of_one snapshot_sql_def)
  have checks: "check_passes (snapshot_sql a) (OneOf ''status'' [''OPEN'', ''CLOSED'', ''EXPIRED'', ''INVALID''])" for a
    by (cases "sn_status a") (simp_all add: check_passes_def snapshot_sql_def)
  have "unique_rows (map snapshot_sql (w_snapshots w)) [''snapshot_id''] \<longleftrightarrow> distinct (map sn_snapshot_id (w_snapshots w))"
    by (rule unique_rows_map [where vals = "\<lambda>k. [VUuid k]"]) (simp_all add: key inj_def)
  then show ?thesis by (simp add: table_ok_def snapshots_model_def stored_def list_all_iff key checks)
qed

lemma refers_agents:
  assumes "key_of r (fk_columns fk) = Some [VText a]" "fk_references fk = [''agent_id'']"
  shows "refers (map (agent_sql so) ags) fk r \<longleftrightarrow> a \<in> ag_agent_id ` set ags"
  using refers_map [of r fk "\<lambda>k. [VText k]" "Some a" "agent_sql so" ag_agent_id ags] assms
  by (simp add: key_of_one agent_sql_def inj_def)

lemma refers_snapshots:
  assumes "key_of r (fk_columns fk) = Some [VUuid a]" "fk_references fk = [''snapshot_id'']"
  shows "refers (map snapshot_sql sns) fk r \<longleftrightarrow> a \<in> sn_snapshot_id ` set sns"
  using refers_map [of r fk "\<lambda>k. [VUuid k]" "Some a" snapshot_sql sn_snapshot_id sns] assms
  by (simp add: key_of_one snapshot_sql_def inj_def)

lemma refers_runs:
  assumes "key_of r (fk_columns fk) = map_option (\<lambda>v. [VUuid v]) a" "fk_references fk = [''orchestration_run_id'']"
  shows "refers (map (run_sql so) rs) fk r \<longleftrightarrow> (\<forall>k. a = Some k \<longrightarrow> k \<in> r_orchestration_run_id ` set rs)"
  using refers_map [of r fk "\<lambda>k. [VUuid k]" a "run_sql so" r_orchestration_run_id rs] assms
  by (simp add: key_of_one run_sql_def inj_def)

lemma refers_run:
  assumes "key_of r (fk_columns fk) = Some [VUuid a]" "fk_references fk = [''orchestration_run_id'']"
  shows "refers (map (run_sql so) rs) fk r \<longleftrightarrow> a \<in> r_orchestration_run_id ` set rs"
  using refers_runs [of r fk "Some a" so rs] assms by simp

lemma refers_tasks:
  assumes "key_of r (fk_columns fk) = map_option (\<lambda>v. [VUuid v]) a" "fk_references fk = [''task_id'']"
  shows "refers (map task_sql ts) fk r \<longleftrightarrow> (\<forall>k. a = Some k \<longrightarrow> k \<in> t_task_id ` set ts)"
  using refers_map [of r fk "\<lambda>k. [VUuid k]" a task_sql t_task_id ts] assms
  by (simp add: key_of_one task_sql_def inj_def)

lemma endpoints_ok:
  "table_ok (stored so w) endpoints_model \<longleftrightarrow> distinct (map ep_agent_id (w_endpoints w))
     \<and> (\<forall>e \<in> set (w_endpoints w). ep_agent_id e \<in> ag_agent_id ` set (w_agents w))"
proof -
  have key: "key_of (endpoint_sql so a) [''agent_id''] = Some [VText (ep_agent_id a)]" for a
    by (simp add: key_of_one endpoint_sql_def)
  have checks: "check_passes (endpoint_sql so a) (OneOf ''transport'' [''HTTP''])"
    "check_passes (endpoint_sql so a) (OneOf ''environment'' [''TEST'', ''DEVELOPMENT'', ''PRODUCTION''])" for a
    by (simp add: check_passes_def endpoint_sql_def)
      (cases "ep_environment a"; simp add: check_passes_def endpoint_sql_def)
  have "unique_rows (map (endpoint_sql so) (w_endpoints w)) [''agent_id''] \<longleftrightarrow> distinct (map ep_agent_id (w_endpoints w))"
    by (rule unique_rows_map [where vals = "\<lambda>k. [VText k]"]) (simp_all add: key inj_def)
  then show ?thesis
    by (simp add: table_ok_def endpoints_model_def stored_def list_all_iff key checks column_reference_def refers_agents)
qed

lemma states_ok_stored:
  "table_ok (stored so w) states_model \<longleftrightarrow> distinct (map rs_agent_id (w_states w))
     \<and> (\<forall>s \<in> set (w_states w). rs_agent_id s \<in> ag_agent_id ` set (w_agents w))
     \<and> list_all state_checks (w_states w)"
proof -
  have key: "key_of (state_sql a) [''agent_id''] = Some [VText (rs_agent_id a)]" for a
    by (simp add: key_of_one state_sql_def)
  have availability: "check_passes (state_sql a) (OneOf ''availability'' [''UNKNOWN'', ''HEALTHY'', ''DEGRADED'',
      ''UNAVAILABLE''])" for a
    by (cases "rs_availability a") (simp_all add: check_passes_def state_sql_def)
  have circuit: "check_passes (state_sql a) (OneOf ''circuit_state'' [''CLOSED'', ''OPEN'', ''HALF_OPEN''])" for a
    by (cases "rs_circuit_state a") (simp_all add: check_passes_def state_sql_def)
  have checks: "check_passes (state_sql a) (Le (Lit 0) (Col ''consecutive_failures'')) \<longleftrightarrow> state_checks a" for a
    by (simp add: check_passes_def state_sql_def state_checks_def)
  have "unique_rows (map state_sql (w_states w)) [''agent_id''] \<longleftrightarrow> distinct (map rs_agent_id (w_states w))"
    by (rule unique_rows_map [where vals = "\<lambda>k. [VText k]"]) (simp_all add: key inj_def)
  then show ?thesis
    by (auto simp: table_ok_def states_model_def stored_def list_all_iff key availability circuit checks column_reference_def index_on_def
        refers_agents)
qed

lemma runs_ok:
  "table_ok (stored so w) runs_model \<longleftrightarrow> distinct (map r_orchestration_run_id (w_runs w))
     \<and> (\<forall>r \<in> set (w_runs w). r_snapshot_id r \<in> sn_snapshot_id ` set (w_snapshots w))
     \<and> list_all run_checks (w_runs w)"
proof -
  have key: "key_of (run_sql so a) [''orchestration_run_id''] = Some [VUuid (r_orchestration_run_id a)]"
    "key_of (run_sql so a) [''snapshot_id''] = Some [VUuid (r_snapshot_id a)]" for a
    by (simp_all add: key_of_one run_sql_def)
  have status: "check_passes (run_sql so a) (OneOf ''status'' [''CREATED'', ''DISPATCHING'', ''COLLECTING'', ''FULL'',
      ''DEGRADED'', ''CRITICAL'', ''FAILED'', ''TIMED_OUT'', ''CANCELLED''])" for a
    by (cases "r_status a") (simp_all add: check_passes_def run_sql_def)
  have outcome: "check_passes (run_sql so a) (Either (IsNull ''outcome'') (OneOf ''outcome'' [''FULL'', ''DEGRADED'',
      ''CRITICAL'', ''INSUFFICIENT_DATA'']))" for a
  proof (cases "r_outcome a")
    case None
    then show ?thesis by (simp add: check_passes_def run_sql_def)
  next
    case (Some x)
    then show ?thesis by (cases x) (simp_all add: check_passes_def run_sql_def)
  qed
  have checks: "run_checks a \<longleftrightarrow> check_passes (run_sql so a) (OneOf ''trigger_type'' [''MANUAL'', ''TEST''])
      \<and> check_passes (run_sql so a) (Lt (Col ''created_at'') (Col ''collection_deadline''))" for a
    by (simp add: check_passes_def run_sql_def run_checks_def)
  have "unique_rows (map (run_sql so) (w_runs w)) [''orchestration_run_id'']
      \<longleftrightarrow> distinct (map r_orchestration_run_id (w_runs w))"
    by (rule unique_rows_map [where vals = "\<lambda>k. [VUuid k]"]) (simp_all add: key inj_def)
  then show ?thesis
    by (auto simp: table_ok_def runs_model_def stored_def list_all_iff key status outcome checks column_reference_def
        index_on_def refers_snapshots)
qed

lemma tasks_ok:
  "table_ok (stored so w) tasks_model \<longleftrightarrow> distinct (map t_task_id (w_tasks w))
     \<and> distinct (map assignment_key (w_tasks w))
     \<and> (\<forall>t \<in> set (w_tasks w). t_orchestration_run_id t \<in> r_orchestration_run_id ` set (w_runs w)
          \<and> t_snapshot_id t \<in> sn_snapshot_id ` set (w_snapshots w) \<and> t_agent_id t \<in> ag_agent_id ` set (w_agents w))
     \<and> list_all task_checks (w_tasks w)"
proof -
  have key: "key_of (task_sql a) [''task_id''] = Some [VUuid (t_task_id a)]"
    "key_of (task_sql a) [''orchestration_run_id''] = Some [VUuid (t_orchestration_run_id a)]"
    "key_of (task_sql a) [''snapshot_id''] = Some [VUuid (t_snapshot_id a)]"
    "key_of (task_sql a) [''agent_id''] = Some [VText (t_agent_id a)]" for a
    by (simp_all add: key_of_one task_sql_def)
  have assignment: "key_of (task_sql a) [''orchestration_run_id'', ''agent_id'', ''asset'', ''required_capability'']
      = Some ((\<lambda>(r, g, q, c). [VUuid r, VText g, VText q, VText c]) (assignment_key a))" for a
    by (simp add: key_of_def task_sql_def assignment_key_def)
  have status: "check_passes (task_sql a) (OneOf ''status'' [''PENDING'', ''DISPATCHING'', ''ACKNOWLEDGED'',
      ''WAITING_SIGNAL'', ''SIGNAL_RECEIVED'', ''RETRY'', ''TIMED_OUT'', ''FAILED'', ''CANCELLED'', ''SKIPPED''])" for a
    by (cases "t_status a") (simp_all add: check_passes_def task_sql_def)
  have criticality: "check_passes (task_sql a) (OneOf ''criticality'' [''LOW'', ''NORMAL'', ''HIGH'', ''CRITICAL''])" for a
    by (cases "t_criticality a") (simp_all add: check_passes_def task_sql_def)
  have checks: "task_checks a \<longleftrightarrow> check_passes (task_sql a) (Le (Lit 0) (Col ''attempt_count''))
      \<and> check_passes (task_sql a) (Both (Le (Lit 0) (Col ''priority'')) (Le (Col ''priority'') (Lit 100)))
      \<and> check_passes (task_sql a) (Both (Lt (Col ''created_at'') (Col ''dispatch_deadline''))
             (Le (Col ''dispatch_deadline'') (Col ''signal_deadline'')))" for a
    by (cases "t_created_at a < t_dispatch_deadline a"; cases "0 \<le> t_priority a")
      (auto simp: check_passes_def task_sql_def task_checks_def)
  have primary: "unique_rows (map task_sql (w_tasks w)) [''task_id''] \<longleftrightarrow> distinct (map t_task_id (w_tasks w))"
    by (rule unique_rows_map [where vals = "\<lambda>k. [VUuid k]"]) (simp_all add: key inj_def)
  have unique: "unique_rows (map task_sql (w_tasks w))
      [''orchestration_run_id'', ''agent_id'', ''asset'', ''required_capability'']
      \<longleftrightarrow> distinct (map assignment_key (w_tasks w))"
    by (rule unique_rows_map [where vals = "\<lambda>(r, g, q, c). [VUuid r, VText g, VText q, VText c]" and key = assignment_key])
      (simp_all add: assignment inj_def)
  show ?thesis
    by (simp add: table_ok_def tasks_model_def stored_def list_all_iff key primary unique status criticality checks
        column_reference_def index_on_def refers_snapshots refers_agents refers_run) blast
qed

lemma outbox_ok:
  "table_ok (stored so w) outbox_model \<longleftrightarrow> distinct (map ob_notification_id (w_outbox w))
     \<and> distinct (map ob_idempotency_key (w_outbox w)) \<and> list_all outbox_checks (w_outbox w)"
proof -
  have key: "key_of (outbox_sql a) [''notification_id''] = Some [VUuid (ob_notification_id a)]"
    "key_of (outbox_sql a) [''idempotency_key''] = Some [VText (ob_idempotency_key a)]" for a
    by (simp_all add: key_of_one outbox_sql_def)
  have status: "check_passes (outbox_sql a) (OneOf ''status'' [''PENDING'', ''SENDING'', ''SENT'', ''RETRY'',
      ''FAILED'', ''DEAD_LETTER''])" for a
    by (cases "ob_status a") (simp_all add: check_passes_def outbox_sql_def)
  have checks: "check_passes (outbox_sql a) (Le (Lit 0) (Col ''attempt_count'')) \<longleftrightarrow> outbox_checks a" for a
    by (simp add: check_passes_def outbox_sql_def outbox_checks_def)
  have primary: "unique_rows (map outbox_sql (w_outbox w)) [''notification_id'']
      \<longleftrightarrow> distinct (map ob_notification_id (w_outbox w))"
    by (rule unique_rows_map [where vals = "\<lambda>k. [VUuid k]"]) (simp_all add: key inj_def)
  have unique: "unique_rows (map outbox_sql (w_outbox w)) [''idempotency_key'']
      \<longleftrightarrow> distinct (map ob_idempotency_key (w_outbox w))"
    by (rule unique_rows_map [where vals = "\<lambda>k. [VText k]"]) (simp_all add: key inj_def)
  show ?thesis
    by (auto simp: table_ok_def outbox_model_def stored_def list_all_iff key primary unique status checks index_on_def)
qed

lemma audit_ok: "table_ok (stored so w) audit_model \<longleftrightarrow> distinct (map au_event_id (w_audit w))"
proof -
  have key: "key_of (audit_sql a) [''event_id''] = Some [VUuid (au_event_id a)]" for a
    by (simp add: key_of_one audit_sql_def)
  have "unique_rows (map audit_sql (w_audit w)) [''event_id''] \<longleftrightarrow> distinct (map au_event_id (w_audit w))"
    by (rule unique_rows_map [where vals = "\<lambda>k. [VUuid k]"]) (simp_all add: key inj_def)
  then show ?thesis by (simp add: table_ok_def audit_model_def stored_def list_all_iff key index_on_def)
qed

lemma nonces_ok:
  "table_ok (stored so w) nonces_model \<longleftrightarrow> distinct (map (so_nonce_id so) [0..<length (w_nonces w)])
     \<and> distinct (map (\<lambda>n. (nc_agent_id n, nc_nonce n)) (w_nonces w))
     \<and> (\<forall>n \<in> set (w_nonces w). nc_agent_id n \<in> ag_agent_id ` set (w_agents w))"
proof -
  let ?enc = "\<lambda>(k, n). nonce_sql (so_nonce_id so k) n" and ?ns = "enumerate 0 (w_nonces w)"
  have key: "key_of (?enc x) [''id''] = Some [VUuid (so_nonce_id so (fst x))]"
    "key_of (?enc x) [''agent_id''] = Some [VText (nc_agent_id (snd x))]"
    "key_of (?enc x) [''agent_id'', ''nonce'']
      = Some ((\<lambda>(a, n). [VText a, VText n]) (nc_agent_id (snd x), nc_nonce (snd x)))" for x
    by (cases x; simp add: key_of_def nonce_sql_def)+
  have "unique_rows (map ?enc ?ns) [''id''] \<longleftrightarrow> distinct (map (\<lambda>x. so_nonce_id so (fst x)) ?ns)"
    by (rule unique_rows_map [where vals = "\<lambda>k. [VUuid k]"]) (simp_all only: key, simp add: inj_def)
  moreover have "map (\<lambda>x. so_nonce_id so (fst x)) ?ns = map (so_nonce_id so) (map fst ?ns)" by (simp only: map_map comp_def)
  moreover have "map fst ?ns = [0..<length (w_nonces w)]" by simp
  ultimately have primary: "unique_rows (map ?enc ?ns) [''id'']
      \<longleftrightarrow> distinct (map (so_nonce_id so) [0..<length (w_nonces w)])" by (simp only:)
  have "unique_rows (map ?enc ?ns) [''agent_id'', ''nonce'']
      \<longleftrightarrow> distinct (map (\<lambda>x. (nc_agent_id (snd x), nc_nonce (snd x))) ?ns)"
    by (rule unique_rows_map [where vals = "\<lambda>(a, n). [VText a, VText n]"]) (simp_all only: key, simp add: inj_def)
  moreover have "map (\<lambda>x. (nc_agent_id (snd x), nc_nonce (snd x))) ?ns
      = map (\<lambda>n. (nc_agent_id n, nc_nonce n)) (map snd ?ns)" by (simp only: map_map comp_def)
  moreover have "map snd ?ns = w_nonces w" by simp
  ultimately have unique: "unique_rows (map ?enc ?ns) [''agent_id'', ''nonce'']
      \<longleftrightarrow> distinct (map (\<lambda>n. (nc_agent_id n, nc_nonce n)) (w_nonces w))" by (simp only:)
  have snds: "(\<forall>x \<in> set ?ns. P (snd x)) \<longleftrightarrow> (\<forall>n \<in> set (w_nonces w). P n)" for P
  proof -
    have "set (w_nonces w) = snd ` set ?ns" by (metis list.set_map map_snd_enumerate)
    then show ?thesis by simp
  qed
  have refers: "refers (map (agent_sql so) ags) fk (?enc x) \<longleftrightarrow> nc_agent_id (snd x) \<in> ag_agent_id ` set ags"
    if "fk_columns fk = [''agent_id'']" "fk_references fk = [''agent_id'']" for fk ags x
    by (rule refers_agents) (simp_all only: that key)
  have "table_ok (stored so w) nonces_model \<longleftrightarrow> unique_rows (map ?enc ?ns) [''id'']
      \<and> unique_rows (map ?enc ?ns) [''agent_id'', ''nonce'']
      \<and> (\<forall>x \<in> set ?ns. nc_agent_id (snd x) \<in> ag_agent_id ` set (w_agents w))"
    unfolding table_ok_def list_all_iff by (simp add: nonces_model_def stored_def key refers column_reference_def)
  then show ?thesis
    unfolding primary unique snds [where P = "\<lambda>n. nc_agent_id n \<in> ag_agent_id ` set (w_agents w)"] .
qed

lemma list_all_values: "list_all (\<lambda>b. \<not> b) bs \<longleftrightarrow> True \<notin> set bs" "list_all (\<lambda>b. b) bs \<longleftrightarrow> False \<notin> set bs"
  by (induction bs) auto

lemma check_either_known:
  assumes "eval_cond r c = Some b" "eval_cond r d = Some b'"
  shows "check_passes r (Either c d) \<longleftrightarrow> b \<or> b'"
  using assms by (cases b; cases b') (simp_all add: check_passes_def)

lemma eval_all_null:
  assumes "cs \<noteq> []"
  shows "eval_cond r (all_null cs) = Some (list_all (\<lambda>c. r c = None) cs)"
proof -
  have "eval_cond r (foldl Both c (map IsNull ds)) = Some (b \<and> list_all (\<lambda>c. r c = None) ds)"
    if "eval_cond r c = Some b" for c b ds
    using that
  proof (induction ds arbitrary: c b)
    case (Cons d ds)
    have "eval_cond r (Both c (IsNull d)) = Some (b \<and> r d = None)" using Cons.prems by (cases b) simp_all
    from Cons.IH [OF this] show ?case by simp
  qed simp
  from this [of "IsNull (hd cs)" "r (hd cs) = None" "tl cs"] show ?thesis
    using assms by (cases cs) (simp_all add: all_null_def)
qed

lemma eval_no_null:
  assumes "cs \<noteq> []"
  shows "eval_cond r (no_null cs) = Some (list_all (\<lambda>c. r c \<noteq> None) cs)"
proof -
  have "eval_cond r (foldl Both c (map IsNotNull ds)) = Some (b \<and> list_all (\<lambda>c. r c \<noteq> None) ds)"
    if "eval_cond r c = Some b" for c b ds
    using that
  proof (induction ds arbitrary: c b)
    case (Cons d ds)
    have "eval_cond r (Both c (IsNotNull d)) = Some (b \<and> r d \<noteq> None)" using Cons.prems by (cases b) simp_all
    from Cons.IH [OF this] show ?case by simp
  qed simp
  from this [of "IsNotNull (hd cs)" "r (hd cs) \<noteq> None" "tl cs"] show ?thesis
    using assms by (cases cs) (simp_all add: no_null_def)
qed

lemmas all_or_none = check_either_known [OF eval_all_null eval_no_null]

lemma signal_lineage_checks:
  "check_passes (signal_sql so s) (Either (all_null [''task_id'', ''orchestration_run_id''])
       (no_null [''task_id'', ''orchestration_run_id'']))
   \<longleftrightarrow> (sg_task_id s = None \<and> sg_orchestration_run_id s = None)
     \<or> (sg_task_id s \<noteq> None \<and> sg_orchestration_run_id s \<noteq> None)"
  "check_passes (signal_sql so s) (Either (all_null lineage_columns) (no_null lineage_columns))
   \<longleftrightarrow> list_all (\<lambda>b. \<not> b) (signal_analytical s) \<or> list_all (\<lambda>b. b) (signal_analytical s)"
  by (simp_all add: all_or_none lineage_columns_def signal_analytical_def signal_sql_def)

lemma signal_range_checks:
  "check_passes (signal_sql so s) (Both (Le (Lit 0) (Col ''confidence'')) (Le (Col ''confidence'') (Lit 100)))
     \<longleftrightarrow> 0 \<le> sg_confidence s \<and> sg_confidence s \<le> 100"
  "check_passes (signal_sql so s) (Both (Le (Lit 0) (Col ''impact'')) (Le (Col ''impact'') (Lit 100)))
     \<longleftrightarrow> 0 \<le> sg_impact s \<and> sg_impact s \<le> 100"
  "check_passes (signal_sql so s) (Lt (Lit 0) (Col ''signal_ttl_seconds'')) \<longleftrightarrow> 0 < sg_signal_ttl_seconds s"
  "check_passes (signal_sql so s) (Either (IsNull ''data_as_of'') (Le (Col ''data_as_of'') (Col ''analysis_timestamp'')))
     \<longleftrightarrow> (case sg_data_as_of s of None \<Rightarrow> True | Some t \<Rightarrow> t \<le> sg_analysis_timestamp s)"
  subgoal by (cases "0 \<le> sg_confidence s") (simp_all add: check_passes_def signal_sql_def)
  subgoal by (cases "0 \<le> sg_impact s") (simp_all add: check_passes_def signal_sql_def)
  subgoal by (simp add: check_passes_def signal_sql_def)
  subgoal by (cases "sg_data_as_of s") (simp_all add: check_passes_def signal_sql_def)
  done

lemma signal_bias_check: "check_passes (signal_sql so s) (OneOf ''bias'' [''LONG'', ''SHORT'', ''NEUTRAL'', ''ABSTAIN''])"
  by (cases "sg_bias s") (simp_all add: check_passes_def signal_sql_def)

lemma signals_ok:
  "table_ok (stored so w) signals_model \<longleftrightarrow> distinct (map sg_message_id (w_signals w))
     \<and> distinct (map sg_task_id (filter (\<lambda>s. sg_task_id s \<noteq> None) (w_signals w)))
     \<and> (\<forall>s \<in> set (w_signals w). sg_agent_id s \<in> ag_agent_id ` set (w_agents w)
          \<and> sg_snapshot_id s \<in> sn_snapshot_id ` set (w_snapshots w)
          \<and> (\<forall>k. sg_task_id s = Some k \<longrightarrow> k \<in> t_task_id ` set (w_tasks w))
          \<and> (\<forall>k. sg_orchestration_run_id s = Some k \<longrightarrow> k \<in> r_orchestration_run_id ` set (w_runs w)))
     \<and> list_all signal_checks (w_signals w)"
proof -
  have key: "key_of (signal_sql so a) [''message_id''] = Some [VUuid (sg_message_id a)]"
    "key_of (signal_sql so a) [''agent_id''] = Some [VText (sg_agent_id a)]"
    "key_of (signal_sql so a) [''snapshot_id''] = Some [VUuid (sg_snapshot_id a)]"
    "key_of (signal_sql so a) [''task_id''] = map_option (\<lambda>v. [VUuid v]) (sg_task_id a)"
    "key_of (signal_sql so a) [''orchestration_run_id''] = map_option (\<lambda>v. [VUuid v]) (sg_orchestration_run_id a)" for a
    by (simp_all add: key_of_one signal_sql_def option.map_comp comp_def)
  have primary: "unique_rows (map (signal_sql so) (w_signals w)) [''message_id'']
      \<longleftrightarrow> distinct (map sg_message_id (w_signals w))"
    by (rule unique_rows_map [where vals = "\<lambda>k. [VUuid k]"]) (simp_all add: key inj_def)
  have unique: "unique_rows (map (signal_sql so) (w_signals w)) [''task_id'']
      \<longleftrightarrow> distinct (map sg_task_id (filter (\<lambda>s. sg_task_id s \<noteq> None) (w_signals w)))"
    by (rule unique_rows_optional [where vals = "\<lambda>k. [VUuid k]"]) (simp_all add: key inj_def)
  show ?thesis
    by (simp add: table_ok_def signals_model_def stored_def list_all_iff key primary unique signal_checks_def
        signal_lineage_checks [unfolded list_all_iff] signal_range_checks signal_bias_check
        column_reference_def index_on_def refers_snapshots refers_agents refers_runs refers_tasks) blast
qed

text \<open>C39 The constraints that PostgreSQL keeps of the declared schema (primary and foreign keys, unique constraints
  and indexes, and checks with their three truth values) hold of the rows that the classes store exactly
  when the world has the invariant \<open>schema_ok\<close> of the development and the identifiers that the world leaves
  to chance, those of audit events and nonces, are distinct.\<close>

theorem constraints_are_schema_ok:
  "satisfies (stored so w) declared_schema \<longleftrightarrow>
     schema_ok w \<and> distinct (map au_event_id (w_audit w))
     \<and> distinct (map (so_nonce_id so) [0..<length (w_nonces w)])"
proof -
  have "satisfies (stored so w) declared_schema \<longleftrightarrow>
     table_ok (stored so w) agents_model \<and> table_ok (stored so w) snapshots_model \<and> table_ok (stored so w) nonces_model
     \<and> table_ok (stored so w) signals_model \<and> table_ok (stored so w) audit_model \<and> table_ok (stored so w) outbox_model
     \<and> table_ok (stored so w) endpoints_model \<and> table_ok (stored so w) states_model
     \<and> table_ok (stored so w) runs_model \<and> table_ok (stored so w) tasks_model"
    by (simp add: satisfies_def declared_schema_def)
  then show ?thesis
    unfolding agents_ok snapshots_ok nonces_ok signals_ok audit_ok outbox_ok endpoints_ok states_ok_stored runs_ok tasks_ok
      schema_ok_def keys_ok_def refs_ok_def checks_ok_def
    by blast
qed

section \<open>Which accepted signals fit their columns\<close>

lemma postgres_textI: "list_all p s \<Longrightarrow> \<not> p (CHR 0x00) \<Longrightarrow> postgres_text s"
  unfolding postgres_text_def list_all_iff by blast

lemma agent_id_fits: "agent_id_pattern s \<Longrightarrow> length s \<le> 64 \<and> postgres_text s"
  by (cases s) (auto simp: agent_id_pattern_def is_upper_def is_digit_def postgres_text_def list_all_iff)

lemma asset_fits: "asset_pattern s \<Longrightarrow> length s \<le> 32 \<and> postgres_text s"
  by (auto simp: asset_pattern_def is_upper_def is_digit_def postgres_text_def list_all_iff)

lemma digit_char_not_zero: "n < 16 \<Longrightarrow> digit_char n \<noteq> CHR 0x00"
  by (auto simp: digit_char_def dest!: arg_cong [where f = "of_char :: char \<Rightarrow> nat"])

lemma body_hash_fits: "length (body_sha256 body) = 64 \<and> postgres_text (body_sha256 body)"
proof -
  have digit: "digit_char (v mod 16) \<noteq> CHR 0x00" for v by (rule digit_char_not_zero) simp
  have "CHR 0x00 \<notin> set (digits_fixed 16 n v)" for n v
    by (induction n arbitrary: v) (auto simp: digit [symmetric])
  then have "postgres_text (hexdigest bs)" for bs
    by (auto simp: postgres_text_def hexdigest_def)
  then show ?thesis by (simp add: body_sha256_def length_hexdigest)
qed

lemma bias_fits: "length (bias_text b) \<le> 16 \<and> postgres_text (bias_text b)"
  by (cases b) (simp_all add: postgres_text_def)

lemma fits_simps:
  "fits_column r (required_column c t) \<longleftrightarrow> (case r c of None \<Rightarrow> False | Some v \<Rightarrow> has_type t v)"
  "fits_column r (nullable_column c t) \<longleftrightarrow> (case r c of None \<Rightarrow> True | Some v \<Rightarrow> has_type t v)"
  by (simp_all add: fits_column_def nullable_column_def required_column_def column_def split: option.split)

lemma signal_columns_fit:
  "list_all (fits_column (signal_sql so s)) (tb_columns signals_model) \<longleftrightarrow>
     length (sg_agent_id s) \<le> 64 \<and> postgres_text (sg_agent_id s)
     \<and> length (sg_protocol_version s) \<le> 16 \<and> postgres_text (sg_protocol_version s)
     \<and> length (sg_asset s) \<le> 32 \<and> postgres_text (sg_asset s)
     \<and> - (2 ^ 31) \<le> sg_confidence s \<and> sg_confidence s < 2 ^ 31
     \<and> - (2 ^ 31) \<le> sg_impact s \<and> sg_impact s < 2 ^ 31
     \<and> length (sg_time_horizon s) \<le> 64 \<and> postgres_text (sg_time_horizon s)
     \<and> - (2 ^ 31) \<le> sg_signal_ttl_seconds s \<and> sg_signal_ttl_seconds s < 2 ^ 31
     \<and> opt_max 64 (sg_role_id s) \<and> optional_text (sg_role_id s)
     \<and> opt_max 32 (sg_role_version s) \<and> optional_text (sg_role_version s)
     \<and> opt_max 32 (sg_config_version s) \<and> optional_text (sg_config_version s)
     \<and> opt_max 64 (sg_feature_pipeline_version s) \<and> optional_text (sg_feature_pipeline_version s)
     \<and> opt_max 16 (sg_analysis_schema_version s) \<and> optional_text (sg_analysis_schema_version s)
     \<and> opt_max 128 (sg_data_provider s) \<and> optional_text (sg_data_provider s)
     \<and> opt_max 32 (sg_confidence_model_version s) \<and> optional_text (sg_confidence_model_version s)
     \<and> postgres_json (so_dump_signal so (sg_payload s))
     \<and> length (sg_payload_hash s) \<le> 64 \<and> postgres_text (sg_payload_hash s)"
proof -
  have optional: "(case t of None \<Rightarrow> True | Some x \<Rightarrow> (has_type (SqlString n) \<circ> VText) x)
      \<longleftrightarrow> opt_max n t \<and> optional_text t" for t n
    by (cases t) (simp_all add: opt_max_def optional_text_def)
  have others: "(case u of None \<Rightarrow> True | Some x \<Rightarrow> (has_type SqlUuid \<circ> VUuid) x)"
    "(case m of None \<Rightarrow> True | Some x \<Rightarrow> (has_type SqlTimestamp \<circ> VTime) x)" for u m
    by (cases u; simp) (cases m; simp)
  show ?thesis
    by (simp add: signals_model_def fits_simps signal_sql_def optional others bias_fits)
qed

lemma signal_checks_pass:
  "list_all (\<lambda>(_, c). check_passes (signal_sql so s) c) (tb_checks signals_model) \<longleftrightarrow> signal_checks s"
  by (simp add: signals_model_def signal_lineage_checks signal_range_checks signal_bias_check signal_checks_def)

text \<open>C40 A signal that the contract validates, with a time to live within the configured maximum of at most a
  day, can be stored exactly when none of its texts, the evidence and metadata of the payload included,
  holds the character zero: every length and range that the contract allows fits its column, and the
  checks of the table pass, but PostgreSQL refuses that character, which the contract does not exclude.\<close>

theorem accepted_signal_storable:
  assumes "valid_signal e" "timestamp_rejection now max_ttl_seconds e = None" "max_ttl_seconds \<le> 86400"
  shows "storable signals_model (signal_sql so (signal_of now e (body_sha256 body))) \<longleftrightarrow>
    postgres_text (env_time_horizon e) \<and> postgres_json (so_dump_signal so e)
    \<and> list_all optional_text
        [env_role_id e, env_role_version e, env_config_version e, env_feature_pipeline_version e,
         env_analysis_schema_version e, env_data_provider e, env_confidence_model_version e]"
proof -
  have checks: "list_all (\<lambda>(_, c). check_passes (signal_sql so (signal_of now e (body_sha256 body))) c) (tb_checks signals_model)"
    unfolding signal_checks_pass by (rule valid_signal_checks [OF assms(1)])
  have ttl: "env_signal_ttl_seconds e \<le> 86400"
    using assms(2,3) by (auto simp: timestamp_rejection_def split: if_splits)
  have fields: "env_protocol_version e = ''1.0''" "agent_id_pattern (env_agent_id e)" "asset_pattern (env_asset e)"
    "0 \<le> env_confidence e" "env_confidence e \<le> 100" "0 \<le> env_impact e" "env_impact e \<le> 100"
    "len_between 1 64 (env_time_horizon e)" "0 < env_signal_ttl_seconds e"
    "opt_max 64 (env_role_id e)" "opt_max 32 (env_role_version e)" "opt_max 32 (env_config_version e)"
    "opt_max 64 (env_feature_pipeline_version e)" "opt_max 16 (env_analysis_schema_version e)"
    "opt_max 128 (env_data_provider e)" "opt_max 32 (env_confidence_model_version e)"
    using assms(1) unfolding valid_signal_def signal_fields_ok_def by - (elim conjE, assumption)+
  have "postgres_text ''1.0''" by (simp add: postgres_text_def)
  then show ?thesis
    unfolding storable_def signal_columns_fit using checks fields ttl agent_id_fits [OF fields(2)] asset_fits [OF fields(3)]
      body_hash_fits [of body]
    by (auto simp: signal_of_def len_between_def)
qed

theorem accepted_signal_storable_witness:
  "\<not> storable signals_model (signal_sql \<lparr>so_nonce_id = (\<lambda>n. n), so_stamp = 0, so_dump_signal = (\<lambda>_. PyMap []),
       so_dump_metadata = (\<lambda>_. PyMap [])\<rparr>
     (signal_of (seconds 20) (sample_signal\<lparr>env_time_horizon := [CHR ''d'', CHR 0x00]\<rparr>) (body_sha256 [])))"
proof -
  let ?e = "sample_signal\<lparr>env_time_horizon := [CHR ''d'', CHR 0x00]\<rparr>"
  have "valid_signal ?e" using sample_signal_valid
    by (cases "env_data_as_of sample_signal") (simp_all add: valid_signal_def signal_fields_ok_def validate_task_lineage_def analytical_fields_def len_between_def
        opt_max_def)
  moreover have "timestamp_rejection (seconds 20) 3600 ?e = None"
    by (simp add: timestamp_rejection_def sample_signal_def)
  ultimately show ?thesis
    using accepted_signal_storable [of ?e "seconds 20" 3600] by (simp add: postgres_text_def)
qed

end
