(* ===== verification/Reported_Quorum.thy ===== *)
theory Reported_Quorum
  imports System
begin

text \<open>
  What the status of a run means in any database the system reaches.  A run is FULL or DEGRADED only
  when every required capability has its minimum of received signals, and FULL only when every task of
  the run delivered; no later transaction takes that away.  The second part follows a run itself: its
  identity, policy and deadline stay for good.
\<close>

section \<open>Reports\<close>

definition reports :: "orchestration_run \<Rightarrow> bool" where
  "reports r \<longleftrightarrow> r_status r = R_FULL \<or> r_status r = R_DEGRADED"

definition received_for :: "uuid \<Rightarrow> string \<Rightarrow> world \<Rightarrow> nat" where
  "received_for rid c w = count_received (capability_tasks c (run_tasks rid w))"

definition quorum_met :: "world \<Rightarrow> orchestration_run \<Rightarrow> bool" where
  "quorum_met w r \<longleftrightarrow>
     (\<forall>q \<in> set (po_requirements (rm_policy (r_metadata r))). rq_required q \<longrightarrow>
        rq_minimum_responses q \<le> received_for (r_orchestration_run_id r) (rq_capability q) w)"

definition all_delivered :: "world \<Rightarrow> orchestration_run \<Rightarrow> bool" where
  "all_delivered w r \<longleftrightarrow> rm_missing_optional (r_metadata r) = []
     \<and> (\<forall>t \<in> set (w_tasks w). t_orchestration_run_id t = r_orchestration_run_id r \<longrightarrow> t_status t = SIGNAL_RECEIVED)"

text \<open>A decided run has a completion time, and reports only with its quorum.\<close>

definition decision_sound :: "world \<Rightarrow> orchestration_run \<Rightarrow> bool" where
  "decision_sound w r \<longleftrightarrow> r_completed_at r \<noteq> None \<and> (reports r \<longrightarrow> quorum_met w r)
     \<and> (r_status r = R_FULL \<longrightarrow> all_delivered w r)"

definition decisions_sound :: "world \<Rightarrow> bool" where
  "decisions_sound w \<longleftrightarrow> (\<forall>r \<in> set (w_runs w). decided_run (r_status r) \<longrightarrow> decision_sound w r)"

lemma reports_decided: "reports r \<Longrightarrow> decided_run (r_status r)"
  by (auto simp: reports_def decided_run_def)

lemma received_for_eq:
  "received_for rid c w = length (filter (\<lambda>t. t_orchestration_run_id t = rid \<and> t_required_capability t = c
     \<and> t_status t = SIGNAL_RECEIVED) (w_tasks w))"
proof -
  have "filter (\<lambda>t. t_status t = SIGNAL_RECEIVED) (capability_tasks c (run_tasks rid w))
      = filter (\<lambda>t. t_required_capability t = c \<and> t_status t = SIGNAL_RECEIVED) (run_tasks rid w)"
    by (simp add: capability_tasks_def conj_commute)
  then show ?thesis
    by (simp add: received_for_def count_received_def run_tasks_def length_filter_sort_key)
qed

section \<open>Tasks only extend\<close>

lemma list_all2_right:
  assumes "list_all2 P xs ys" "y \<in> set ys"
  obtains x where "x \<in> set xs" "P x y"
  using assms by (metis in_set_conv_nth list_all2_conv_all_nth)

definition tasks_extend :: "world \<Rightarrow> world \<Rightarrow> bool" where
  "tasks_extend w w' \<longleftrightarrow> (\<exists>us ts. list_all2 task_evolves (w_tasks w) us \<and> w_tasks w' = us @ ts
     \<and> t_orchestration_run_id ` set ts \<inter> r_orchestration_run_id ` set (w_runs w) = {})"

lemma tasks_extend_evolve: "list_all2 task_evolves (w_tasks w) (w_tasks w') \<Longrightarrow> tasks_extend w w'"
  unfolding tasks_extend_def by (intro exI [of _ "w_tasks w'"] exI [of _ "[]"]) simp

lemma tasks_extend_same: "w_tasks w' = w_tasks w \<Longrightarrow> tasks_extend w w'"
  by (rule tasks_extend_evolve) (simp add: tasks_evolve_refl)

lemma tasks_extend_append:
  "w_tasks w' = w_tasks w @ ts \<Longrightarrow> t_orchestration_run_id ` set ts \<inter> r_orchestration_run_id ` set (w_runs w) = {}
     \<Longrightarrow> tasks_extend w w'"
  unfolding tasks_extend_def using tasks_evolve_refl by blast

lemma orch_step_extends: "orch_step w w' \<Longrightarrow> tasks_extend w w'"
  by (rule tasks_extend_evolve) (rule orch_step_tasks)

lemma received_for_mono:
  assumes "tasks_extend w w'"
  shows "received_for rid c w \<le> received_for rid c w'"
proof -
  obtain us ts where us: "list_all2 task_evolves (w_tasks w) us" and w': "w_tasks w' = us @ ts"
    using assms unfolding tasks_extend_def by blast
  let ?P = "\<lambda>t. t_orchestration_run_id t = rid \<and> t_required_capability t = c \<and> t_status t = SIGNAL_RECEIVED"
  have keep: "?P t \<longrightarrow> ?P t'" if "task_evolves t t'" for t t'
    using task_evolves_terminal [OF that] that
    by (auto simp: task_evolves_def same_identity_def terminal_task_states_def)
  have "length (filter ?P (w_tasks w)) \<le> length (filter ?P us)"
    using us
  proof (induction rule: list_all2_induct)
    case (Cons t ts t' ts')
    then show ?case using keep [OF Cons(1)] by simp
  qed simp
  then show ?thesis unfolding received_for_eq w' by simp
qed

lemma quorum_met_mono:
  assumes "tasks_extend w w'" "quorum_met w r" "r_orchestration_run_id r' = r_orchestration_run_id r"
    and "r_metadata r' = r_metadata r"
  shows "quorum_met w' r'"
  using assms(2) received_for_mono [OF assms(1)] unfolding quorum_met_def assms(3,4)
  by (blast intro: order_trans)

lemma all_delivered_mono:
  assumes "tasks_extend w w'" "all_delivered w r" "r \<in> set (w_runs w)"
  shows "all_delivered w' r"
proof -
  obtain us ts where us: "list_all2 task_evolves (w_tasks w) us" and w': "w_tasks w' = us @ ts"
    and new: "t_orchestration_run_id ` set ts \<inter> r_orchestration_run_id ` set (w_runs w) = {}"
    using assms(1) unfolding tasks_extend_def by blast
  have "t_status u = SIGNAL_RECEIVED" if u: "u \<in> set us" "t_orchestration_run_id u = r_orchestration_run_id r" for u
  proof -
    from us u(1) obtain t where t: "t \<in> set (w_tasks w)" "task_evolves t u" by (rule list_all2_right)
    then have "t_orchestration_run_id t = r_orchestration_run_id r"
      using u(2) by (simp add: task_evolves_def same_identity_def)
    then have "t_status t = SIGNAL_RECEIVED" using assms(2) t(1) by (simp add: all_delivered_def)
    then show ?thesis using task_evolves_terminal [OF t(2)] by (simp add: terminal_task_states_def)
  qed
  moreover have "t_orchestration_run_id t \<noteq> r_orchestration_run_id r" if "t \<in> set ts" for t
    using new that assms(3) by (metis disjoint_iff imageI)
  ultimately show ?thesis using assms(2) unfolding all_delivered_def w' by auto
qed

section \<open>Steps decide soundly\<close>

text \<open>Every decided run that a step leaves is as it was before, or soundly decided now.\<close>

definition sound_step :: "world \<Rightarrow> world \<Rightarrow> bool" where
  "sound_step w w' \<longleftrightarrow> tasks_extend w w'
     \<and> (\<forall>r' \<in> set (w_runs w'). decided_run (r_status r') \<longrightarrow> r' \<in> set (w_runs w) \<or> decision_sound w' r')"

lemma sound_step_keep:
  assumes "sound_step w w'" "decisions_sound w"
  shows "decisions_sound w'"
proof -
  have "decision_sound w' r" if "decision_sound w r" "r \<in> set (w_runs w)" for r
    using that quorum_met_mono [of w w' r r] all_delivered_mono [of w w' r] assms(1)
    unfolding decision_sound_def sound_step_def by blast
  then show ?thesis using assms unfolding decisions_sound_def sound_step_def by blast
qed

lemma same_runs_sound: "tasks_extend w w' \<Longrightarrow> w_runs w' = w_runs w \<Longrightarrow> sound_step w w'"
  unfolding sound_step_def by auto

lemma plan_sound:
  assumes "create_plan collate now sid asset trig policy ctx rid corr caus w = Inr (pl, w')"
  shows "sound_step w w'"
  using assms
proof (cases rule: create_plan_inv)
  case (existing run_id run p)
  then show ?thesis by (intro same_runs_sound tasks_extend_same) simp_all
next
  case (created run_id correlation p snap bctx)
  let ?E = "plan_env_of now run_id correlation caus sid asset policy bctx
    (map rq_capability (filter (\<lambda>q. shortfall collate w asset q \<and> rq_required q) (po_requirements policy)))"
  from write_plan_tables [OF created(8)] obtain ids run where
    tables: "w_tasks w' = w_tasks w @ map2 (new_task ?E) ids (planned_assignments collate w asset (po_requirements policy))"
      "w_runs w' = w_runs w @ [run]" and run: "\<not> reports run" "decided_run (r_status run) \<longrightarrow> r_completed_at run \<noteq> None"
    by (auto simp: new_run_def Let_def reports_def decided_run_def)
  have "run_id \<notin> r_orchestration_run_id ` set (w_runs w)"
    using created(2) by (simp add: get_run_def row_get_None_iff)
  then have "tasks_extend w w'"
    by (intro tasks_extend_append [OF tables(1)]) (auto dest!: map2_mem)
  moreover have "r_status run \<noteq> R_FULL" using run(1) by (auto simp: reports_def)
  ultimately show ?thesis unfolding sound_step_def using tables(2) run by (auto simp: decision_sound_def)
qed

lemma result_sound:
  assumes "schema_ok w"
  shows "sound_step w (record_result dw now rnd c r w)"
proof -
  note ext = orch_step_extends [OF record_result_step [OF assms]]
  from record_result_runs [of dw now rnd c r w] show ?thesis
  proof
    assume "w_runs (record_result dw now rnd c r w) = w_runs w"
    with ext show ?thesis by (rule same_runs_sound)
  next
    assume "\<exists>run. get_run (cm_orchestration_run_id c) w = Some run
      \<and> w_runs (record_result dw now rnd c r w) = w_runs (put_run (run\<lparr>r_status := R_COLLECTING\<rparr>) w)"
    then obtain run where runs: "w_runs (record_result dw now rnd c r w) = w_runs (put_run (run\<lparr>r_status := R_COLLECTING\<rparr>) w)"
      by blast
    show ?thesis unfolding sound_step_def runs
      using ext by (auto simp: put_run_def row_put_def decided_run_def)
  qed
qed

lemma expire_runs: "expire_dispatch_deadlines now locked w = (n, w') \<Longrightarrow> w_runs w' = w_runs w"
proof -
  have step: "w_runs (expire_task now w t) = w_runs w" for w t
    by (simp add: expire_task_def Let_def put_task_def add_orchestration_event_def add_audit_def uuid4_def
        split: option.split)
  have "w_runs (foldl (expire_task now) w ts) = w_runs w" for ts
    by (induction ts arbitrary: w) (simp_all add: step)
  then show "expire_dispatch_deadlines now locked w = (n, w') \<Longrightarrow> w_runs w' = w_runs w"
    by (auto simp: expire_dispatch_deadlines_def Let_def metric_increment_def)
qed

lemma repair_sound:
  assumes "reconcile_repair n now locked w = (ids, recovered, w')" and ok: "schema_ok w" and sc: "signals_complete w"
  shows "sound_step w w'"
proof -
  let ?rs = "select_unfinished n locked w"
  have row: "get_run (r_orchestration_run_id r) w = Some r" if "r \<in> set (w_runs w)" for r
    unfolding get_run_def by (rule row_get_mem [OF schema_run_keys [OF ok] that])
  have w': "w' = snd (foldl (reconcile_run now) ([], w) ?rs)"
    using assms(1) by (auto simp: reconcile_repair_def Let_def split: prod.splits)
  have fold: "orch_step w w'
    \<and> (\<forall>r \<in> set ?rs. get_run (r_orchestration_run_id r) w' = Some (reopened r))
    \<and> (\<forall>k. k \<notin> r_orchestration_run_id ` set ?rs \<longrightarrow> get_run k w' = get_run k w)"
    using reconcile_fold [OF ok sc select_unfinished_distinct [OF ok, of n locked] row, where rec = "[]" and now = now]
      select_unfinished_mem(1) [of _ n locked w] unfolding w' [symmetric] by blast
  then have step: "orch_step w w'" by blast
  have "r' \<in> set (w_runs w)" if r': "r' \<in> set (w_runs w')" "decided_run (r_status r')" for r'
  proof -
    from orch_step_runs [OF step] r'(1) obtain r where r: "r \<in> set (w_runs w)" "run_kept r r'"
      by (rule list_all2_right)
    note same = run_kept_same [OF r(2)]
    have get': "get_run (r_orchestration_run_id r') w' = Some r'"
      unfolding get_run_def by (rule row_get_mem [OF schema_run_keys [OF orch_step_schema [OF step ok]] r'(1)])
    have "r_orchestration_run_id r \<notin> r_orchestration_run_id ` set ?rs"
    proof
      assume "r_orchestration_run_id r \<in> r_orchestration_run_id ` set ?rs"
      then obtain u where u: "u \<in> set ?rs" "r_orchestration_run_id r = r_orchestration_run_id u" by blast
      have "get_run (r_orchestration_run_id r') w' = Some (reopened u)" using fold u same by simp
      then have "r' = reopened u" using get' by simp
      then have "\<not> decided_run (r_status r')" using reopened_undecided [OF select_unfinished_mem(2) [OF u(1)]] by simp
      then show False using r'(2) by simp
    qed
    then have "get_run (r_orchestration_run_id r) w' = get_run (r_orchestration_run_id r) w" using fold by blast
    then have "r' = r" using get' same row [OF r(1)] by simp
    then show ?thesis using r(1) by simp
  qed
  then show ?thesis unfolding sound_step_def using orch_step_extends [OF step] by blast
qed

lemma decision_quorum:
  assumes "run_decision now run ts = Some s" "s = R_FULL \<or> s = R_DEGRADED"
    and "q \<in> set (po_requirements (rm_policy (r_metadata run)))" "rq_required q"
  shows "rq_minimum_responses q \<le> count_received (capability_tasks (rq_capability q) ts)"
proof -
  have "over now run ts"
    using assms(1,2) by (auto simp: run_decision_def over_def task_state_defs Let_def split: if_splits)
  then have "\<not> short_of ts q" using assms(1-3) by (auto simp: run_decision_def Let_def split: if_splits)
  then show ?thesis using assms(4) by (simp add: short_of_def)
qed

lemma decision_full:
  assumes "run_decision now run ts = Some R_FULL"
  shows "rm_missing_optional (r_metadata run) = []" and "t \<in> set ts \<Longrightarrow> t_status t = SIGNAL_RECEIVED"
  using assms by (auto simp: run_decision_def Let_def split: if_splits)

lemma decide_sound:
  assumes "evaluate now rid w = Inr (res, w')"
  shows "sound_step w w'"
  using assms
proof (cases rule: evaluate_inv)
  case (closed run s)
  have tasks: "w_tasks w' = w_tasks w" using closed(9) by (simp add: frame_but_runs_def)
  have id: "r_orchestration_run_id run = rid" using get_run_SomeD [OF closed(1)] by simp
  have "quorum_met w' (completed_run now s run)" if "reports (completed_run now s run)"
  proof -
    have "s = R_FULL \<or> s = R_DEGRADED" using that by (simp add: reports_def completed_run_def)
    note decision_quorum [OF closed(3) this]
    then show ?thesis
      using run_tasks_frame [OF closed(9)] id by (simp add: quorum_met_def received_for_def completed_run_def)
  qed
  moreover have "all_delivered w' (completed_run now s run)" if "s = R_FULL"
    using decision_full [OF closed(3) [unfolded that]] tasks id by (auto simp: all_delivered_def run_tasks_def)
  ultimately have "decision_sound w' (completed_run now s run)" by (simp add: decision_sound_def)
  moreover have "r' = completed_run now s run \<or> r' \<in> set (w_runs w)" if "r' \<in> set (w_runs w')" for r'
    using that closed(8) by (auto dest: set_row_putD)
  ultimately show ?thesis unfolding sound_step_def using tasks_extend_same [OF tasks] by blast
next
  case (decided run)
  then show ?thesis by (intro same_runs_sound tasks_extend_same) simp_all
next
  case (pending run)
  then show ?thesis by (intro same_runs_sound tasks_extend_same) simp_all
qed

lemma request_runs:
  assumes "ingest_signal cfg get_secret parse db_up audit_up an inow rnow q w = (response, w')" and ok: "schema_ok w"
  shows "w_runs w' = w_runs w"
proof (cases "take_signal cfg get_secret parse db_up an inow (fst (uuid4 w)) q (snd (uuid4 w))")
  case (Inr a)
  obtain e w2 where a: "a = (e, w2)" by fastforce
  with Inr assms(1) have w': "w' = w2" by (simp add: ingest_signal_def split_beta)
  from take_signal_accepts [OF Inr [unfolded a]] obtain nonce body where
    ing: "ingest inow (hs_max_signal_ttl_seconds cfg) e nonce body (fst (uuid4 w)) (snd (uuid4 w)) = Inr w2" by blast
  then show ?thesis using intake_tables(3) [OF ingest_iff(2) [OF ing]] w' by (simp add: uuid4_def)
next
  case (Inl a)
  then show ?thesis
    using assms(1) by (auto simp: ingest_signal_def split_beta uuid4_def record_rejection_def add_intake_event_def
      add_audit_def Let_def split: prod.splits hub_error.splits if_splits)
qed

lemma request_sound:
  assumes "ingest_signal cfg get_secret parse db_up audit_up an inow rnow q w = (response, w')" and ok: "schema_ok w"
  shows "sound_step w w'"
proof (cases "take_signal cfg get_secret parse db_up an inow (fst (uuid4 w)) q (snd (uuid4 w))")
  case (Inr a)
  obtain e w2 where a: "a = (e, w2)" by fastforce
  with Inr assms(1) have w': "w' = w2" by (simp add: ingest_signal_def split_beta)
  from take_signal_accepts [OF Inr [unfolded a]] obtain nonce body where
    ing: "ingest inow (hs_max_signal_ttl_seconds cfg) e nonce body (fst (uuid4 w)) (snd (uuid4 w)) = Inr w2" by blast
  have ok1: "schema_ok (snd (uuid4 w))" by (rule orch_step_schema [OF uuid4_step ok])
  have acc: "acceptable inow (hs_max_signal_ttl_seconds cfg) e nonce (snd (uuid4 w))" using ing ingest_iff(1) by blast
  note tabs = intake_tables [OF ingest_iff(2) [OF ing]]
  have "tasks_extend w (completed_world inow e (snd (uuid4 w)))"
    by (rule orch_step_extends) (rule orch_step_trans [OF uuid4_step completed_world_step [OF acc ok1]])
  then have "tasks_extend w w2" unfolding tasks_extend_def tabs(1) .
  with request_runs [OF assms] show ?thesis unfolding w' by (intro same_runs_sound) simp_all
next
  case (Inl a)
  have "orch_step w w'"
    using Inl assms(1) uuid4_step [of w] orch_step_trans [OF uuid4_step record_rejection_step]
    by (auto simp: ingest_signal_def split_beta split: prod.splits hub_error.splits if_splits)
  then show ?thesis using same_runs_sound orch_step_extends request_runs [OF assms] by blast
qed

lemma outbox_step_runs: "outbox_step w w' \<Longrightarrow> w_runs w' = w_runs w"
  by (cases rule: outbox_step.cases, assumption)
    (auto simp: enqueue_notification_def claim_notification_def record_delivery_def put_notification_def Let_def
      split: if_splits option.splits)

lemma store_probe_runs: "store_probe now agent_id p w = Some w' \<Longrightarrow> w_runs w' = w_runs w"
  by (auto simp: store_probe_def add_state_def put_state_def split: option.splits if_splits)

lemma probe_runs: "probe v r agent_id seen w = Inr (av, w') \<Longrightarrow> w_runs w' = w_runs w"
  by (elim probe_stores) (rule store_probe_runs)

lemma system_step_sound:
  assumes "system_step w w'" and ok: "system_ok w"
  shows "sound_step w w'"
proof -
  have sch: "schema_ok w" and sc: "signals_complete w"
    using ok signals_assigned_complete by (simp_all add: system_ok_def)
  from assms(1) show ?thesis
  proof cases
    case plan
    then show ?thesis using plan_sound by blast
  next
    case (claim dw now locked commands)
    from claim_facts(1,2) [OF claim sch] show ?thesis using same_runs_sound orch_step_extends by blast
  next
    case result
    then show ?thesis using result_sound [OF sch] by simp
  next
    case (expire now locked n)
    from expire_facts(1) [OF sch expire] expire_runs [OF expire] show ?thesis
      using same_runs_sound orch_step_extends by blast
  next
    case repair
    then show ?thesis using repair_sound sch sc by blast
  next
    case decide
    then show ?thesis using decide_sound by blast
  next
    case request
    then show ?thesis using request_sound sch by blast
  next
    case probe
    then show ?thesis using same_runs_sound orch_step_extends probe_step probe_runs by blast
  next
    case (sync entries n)
    have "w_tasks w' = w_tasks w" "w_runs w' = w_runs w" by (subst sync_schema(2) [OF sync sch], simp)+
    then show ?thesis using same_runs_sound tasks_extend_same by blast
  next
    case (snapshot s)
    have "w_runs w' = w_runs w" using snapshot by (auto simp: add_snapshot_def split: if_splits)
    then show ?thesis using same_runs_sound tasks_extend_same add_snapshot_schema(2) [OF snapshot sch] by blast
  next
    case notify
    then show ?thesis using same_runs_sound tasks_extend_same outbox_step_frame(1) outbox_step_runs by blast
  qed
qed

lemma execution_sound:
  assumes "execution w w'" and "system_ok w" and "decisions_sound w"
  shows "system_ok w' \<and> decisions_sound w'"
  using assms
proof (induction rule: rtranclp_induct)
  case (step w1 w2)
  then show ?case using system_step_ok [OF step(2)] sound_step_keep [OF system_step_sound [OF step(2)]] by blast
qed simp

section \<open>A run stays itself\<close>

definition runs_extend :: "world \<Rightarrow> world \<Rightarrow> bool" where
  "runs_extend w w' \<longleftrightarrow> (\<exists>us rs. list_all2 run_kept (w_runs w) us \<and> w_runs w' = us @ rs)"

lemma runs_extend_append: "w_runs w' = w_runs w @ rs \<Longrightarrow> runs_extend w w'"
  using runs_kept_refl by (auto simp: runs_extend_def)

lemma runs_extend_same: "w_runs w' = w_runs w \<Longrightarrow> runs_extend w w'"
  by (rule runs_extend_append [of _ _ "[]"]) simp

lemma orch_step_runs_extend: "orch_step w w' \<Longrightarrow> runs_extend w w'"
  using orch_step_runs by (auto simp: runs_extend_def)

lemma runs_extend_get:
  assumes "runs_extend w w'" "get_run k w = Some r"
  shows "\<exists>r'. get_run k w' = Some r' \<and> run_kept r r'"
proof -
  obtain us rs where us: "list_all2 run_kept (w_runs w) us" and w': "w_runs w' = us @ rs"
    using assms(1) by (auto simp: runs_extend_def)
  from us assms(2) have "\<exists>r'. row_get r_orchestration_run_id k us = Some r' \<and> run_kept r r'"
    unfolding get_run_def
  proof (induction rule: list_all2_induct)
    case (Cons x xs y ys)
    then show ?case using run_kept_same [OF Cons(1)] by (auto split: if_splits)
  qed simp
  then show ?thesis unfolding get_run_def w' by (auto simp: row_get_append)
qed

lemma system_step_runs:
  assumes "system_step w w'" and ok: "system_ok w"
  shows "runs_extend w w'"
proof -
  have sch: "schema_ok w" and sc: "signals_complete w"
    using ok signals_assigned_complete by (simp_all add: system_ok_def)
  from assms(1) show ?thesis
  proof cases
    case (plan collate now sid asset trig policy ctx rid corr caus pl)
    from plan(1) show ?thesis
    proof (cases rule: create_plan_inv)
      case (created run_id correlation p snap bctx)
      from write_plan_tables [OF created(8)] show ?thesis using runs_extend_append by auto
    qed (simp add: runs_extend_same)
  next
    case claim
    then show ?thesis using claim_facts(2) sch runs_extend_same by blast
  next
    case result
    then show ?thesis using orch_step_runs_extend [OF record_result_step [OF sch]] by simp
  next
    case expire
    then show ?thesis using expire_runs runs_extend_same by blast
  next
    case (repair n now locked ids recovered)
    have "orch_step w w'"
      using repair reconcile_facts [OF sch sc, of n now locked "\<lambda>_. 0"] by (metis prod.inject)
    then show ?thesis by (rule orch_step_runs_extend)
  next
    case decide
    then show ?thesis using evaluate_orch_step(1) sch orch_step_runs_extend by blast
  next
    case (request cfg get_secret parse db_up audit_up an inow rnow q response)
    then show ?thesis using request_runs sch runs_extend_same by blast
  next
    case probe
    then show ?thesis using probe_runs runs_extend_same by blast
  next
    case (sync entries n)
    have "w_runs w' = w_runs w" by (subst sync_schema(2) [OF sync sch], simp)
    then show ?thesis by (rule runs_extend_same)
  next
    case (snapshot s)
    then show ?thesis by (intro runs_extend_same) (auto simp: add_snapshot_def split: if_splits)
  next
    case notify
    then show ?thesis using outbox_step_runs runs_extend_same by blast
  qed
qed

lemma execution_run:
  assumes "execution w w'" and "system_ok w" and "get_run k w = Some r"
  shows "\<exists>r'. get_run k w' = Some r' \<and> run_kept r r'"
  using assms(1)
proof (induction rule: rtranclp_induct)
  case base
  then show ?case using assms(3) by blast
next
  case (step w1 w2)
  then obtain r1 where r1: "get_run k w1 = Some r1" "run_kept r r1" by blast
  have "system_ok w1" using execution_ok [OF step(1) assms(2)] by blast
  from runs_extend_get [OF system_step_runs [OF step(2) this] r1(1)] obtain r2 where
    "get_run k w2 = Some r2" "run_kept r1 r2" by blast
  then show ?case using r1(2) transpD [OF run_kept_trans] by blast
qed

section \<open>Properties\<close>

text \<open>C17 A status reports the truth: in every database that any interleaving of the system's transactions
  reaches, a decided run has its completion time, a run is FULL or DEGRADED only if every required capability
  of its policy has at least its minimum of tasks whose signal was received, and FULL only if every task of the
  run delivered and planning left no optional capability uncovered; no later transaction takes that away.\<close>

theorem reported_runs_have_quorum:
  assumes "execution w w'" and "schema_ok w" and "signals_assigned w" and "decisions_sound w"
    and "r \<in> set (w_runs w')" and "decided_run (r_status r)"
  shows "r_completed_at r \<noteq> None
    \<and> (r_status r = R_FULL \<or> r_status r = R_DEGRADED \<longrightarrow>
         (\<forall>q \<in> set (po_requirements (rm_policy (r_metadata r))). rq_required q \<longrightarrow>
            rq_minimum_responses q \<le> length (filter (\<lambda>t. t_orchestration_run_id t = r_orchestration_run_id r
              \<and> t_required_capability t = rq_capability q \<and> t_status t = SIGNAL_RECEIVED) (w_tasks w'))))
    \<and> (r_status r = R_FULL \<longrightarrow> rm_missing_optional (r_metadata r) = []
         \<and> (\<forall>t \<in> set (w_tasks w'). t_orchestration_run_id t = r_orchestration_run_id r \<longrightarrow>
              t_status t = SIGNAL_RECEIVED))"
proof -
  have "decisions_sound w'" using execution_sound [OF assms(1)] assms(2-4) by (simp add: system_ok_def)
  then have "decision_sound w' r" using assms(5,6) by (simp add: decisions_sound_def)
  then show ?thesis
    unfolding decision_sound_def reports_def quorum_met_def received_for_eq all_delivered_def by blast
qed

lemma answered_ok: "schema_ok answered_world" "signals_assigned answered_world" "decisions_sound answered_world"
  by (simp_all add: schema_ok_def keys_ok_def refs_ok_def checks_ok_def answered_world_def sample_worlds sample_rows
      task_checks_def run_checks_def state_checks_def signals_assigned_def decisions_sound_def decided_run_def)

lemma answered_run:
  obtains res w' where "evaluate 5 700 answered_world = Inr (res, w')"
    "completed_run 5 R_FULL sample_run \<in> set (w_runs w')" "w_tasks w' = w_tasks answered_world"
proof -
  have run: "get_run 700 answered_world = Some sample_run"
    by (simp add: answered_world_def sample_worlds world_defs sample_run_def)
  obtain res w' where ev: "evaluate 5 700 answered_world = Inr (res, w')" using evaluate_total [OF run] by blast
  have full: "run_decision 5 sample_run (run_tasks 700 answered_world) = Some R_FULL"
    by (simp add: run_decision_def run_tasks_def answered_world_def sample_rows out_of_reach_def critical_failed_def
        short_of_def count_received_def capability_tasks_def failed_status_def)
  from ev show ?thesis
  proof (cases rule: evaluate_inv)
    case (closed run' s)
    with run full show ?thesis
      by (intro that [OF ev]) (auto simp: row_put_def answered_world_def sample_worlds sample_run_def
          completed_run_def frame_but_runs_def)
  qed (use run full sample_undecided in simp_all)
qed

theorem reported_runs_have_quorum_witness:
  "\<exists>res w'. evaluate 5 700 answered_world = Inr (res, w') \<and> completed_run 5 R_FULL sample_run \<in> set (w_runs w')
     \<and> 1 \<le> length (filter (\<lambda>t. t_orchestration_run_id t = 700 \<and> t_required_capability t = ''technical''
          \<and> t_status t = SIGNAL_RECEIVED) (w_tasks w'))"
proof -
  obtain res w' where ev: "evaluate 5 700 answered_world = Inr (res, w')"
    and r: "completed_run 5 R_FULL sample_run \<in> set (w_runs w')" by (rule answered_run)
  have e: "execution answered_world w'" by (rule r_into_rtranclp) (rule system_step.decide [OF ev])
  have "required_technical \<in> set (po_requirements (rm_policy (r_metadata (completed_run 5 R_FULL sample_run))))"
    by (simp add: sample_run_def sample_metadata_def sample_policy_def completed_run_def)
  with reported_runs_have_quorum [OF e answered_ok r] ev r show ?thesis
    by (auto simp: decided_run_def required_technical_def sample_run_def)
qed

lemma registry_decisions: "decisions_sound registry_world"
  by (simp add: decisions_sound_def sample_worlds)

end
