(* ===== verification/Races.thy ===== *)
theory Races
  imports System
begin

text \<open>
  The recovery of \<open>src/tomiris_orchestrator/recovery.py\<close> as an open transaction.  \<open>system_step\<close> makes
  its repairs in one step; in the code they take several statements, and at the isolation level of
  the deployment (READ COMMITTED) other transactions commit in between.  \<open>reconcile\<close> locks the rows of
  its runs (\<open>FOR UPDATE SKIP LOCKED\<close>), then reads for each run the tasks, without a lock, and the
  signals, changes the task objects, and writes them back when the transaction is flushed.

  What a lock on a run holds back, until the transaction ends: an update of the run's row, and, since
  \<open>signals.orchestration_run_id\<close> is a foreign key (\<open>fk_signals_orchestration_run\<close>), the insertion of
  a signal that names the run, whose check takes a \<open>FOR KEY SHARE\<close> lock on the run's row, which
  conflicts with \<open>FOR UPDATE\<close>.  It does not hold back an update of the run's tasks.

  A write reaches the database when its transaction commits.  Between flush and commit the row locks
  of the written tasks keep others from them, so that the model has all interleavings of the program and
  more.
\<close>

section \<open>An open recovery\<close>

text \<open>The repair of one run: the run, the tasks and the signals' task identifiers as they were read.\<close>

record run_repair =
  rr_run :: orchestration_run
  rr_tasks :: "agent_task list"
  rr_signals :: "uuid set"

text \<open>The runs still to be read, the tasks of the first of them once read, the runs already read.\<close>

record recovery_tx =
  rx_now :: instant
  rx_todo :: "orchestration_run list"
  rx_reads :: "agent_task list option"
  rx_done :: "run_repair list"

definition rx_runs :: "recovery_tx \<Rightarrow> orchestration_run list" where
  "rx_runs tx = map rr_run (rx_done tx) @ rx_todo tx"

definition locked_runs :: "recovery_tx list \<Rightarrow> uuid set" where
  "locked_runs txs = (\<Union>tx \<in> set txs. r_orchestration_run_id ` set (rx_runs tx))"

text \<open>
  A flush writes the columns whose value differs from the one loaded, to the row as it is now.
\<close>

definition flushed :: "'a \<Rightarrow> 'a \<Rightarrow> 'a \<Rightarrow> 'a" where
  "flushed loaded changed stored = (if changed = loaded then stored else changed)"

definition flush_row :: "agent_task \<Rightarrow> agent_task \<Rightarrow> agent_task \<Rightarrow> agent_task" where
  "flush_row t t' u =
     u\<lparr>t_status := flushed (t_status t) (t_status t') (t_status u),
       t_dispatch_after := flushed (t_dispatch_after t) (t_dispatch_after t') (t_dispatch_after u),
       t_lease_owner := flushed (t_lease_owner t) (t_lease_owner t') (t_lease_owner u),
       t_lease_until := flushed (t_lease_until t) (t_lease_until t') (t_lease_until u),
       t_last_error_code := flushed (t_last_error_code t) (t_last_error_code t') (t_last_error_code u),
       t_signal_received_at := flushed (t_signal_received_at t) (t_signal_received_at t') (t_signal_received_at u),
       t_updated_at := flushed (t_updated_at t) (t_updated_at t') (t_updated_at u)\<rparr>"

definition flush_task :: "agent_task \<Rightarrow> agent_task \<Rightarrow> world \<Rightarrow> world" where
  "flush_task t t' w =
     (case get_task (t_task_id t) w of None \<Rightarrow> w | Some u \<Rightarrow> put_task (flush_row t t' u) w)"

definition reopen_run :: "orchestration_run \<Rightarrow> world \<Rightarrow> world" where
  "reopen_run run w =
     (case get_run (r_orchestration_run_id run) w of
        None \<Rightarrow> w
      | Some r \<Rightarrow> put_run (r\<lparr>r_status := R_COLLECTING\<rparr>) w)"

text \<open>\<open>repair_step\<close> and \<open>reconcile_run\<close> on rows that were read earlier.\<close>

definition commit_task :: "instant \<Rightarrow> uuid set \<Rightarrow> bool \<times> world \<Rightarrow> agent_task \<Rightarrow> bool \<times> world" where
  "commit_task now signals acc task =
     (let (changed, w) = acc in
      case repair_task now (t_task_id task \<in> signals) task of
        None \<Rightarrow> (changed, w)
      | Some task' \<Rightarrow>
          let w = flush_task task task' w
          in (True, if t_status task' = TIMED_OUT
                    then metric_increment ''agent_tasks_timed_out_total'' 1 w else w))"

definition commit_run :: "instant \<Rightarrow> uuid list \<times> world \<Rightarrow> run_repair \<Rightarrow> uuid list \<times> world" where
  "commit_run now acc rr =
     (let (recovered, w) = acc;
          run = rr_run rr;
          run_id = r_orchestration_run_id run;
          (changed, w) = foldl (commit_task now (rr_signals rr)) (False, w) (rr_tasks rr)
      in if changed \<or> r_status run = R_TIMED_OUT
         then let w = (if r_status run = R_TIMED_OUT then reopen_run run w else w);
                  w = add_orchestration_event now ''ORCHESTRATION_RECOVERED'' (r_correlation_id run) None
                        run_id None None (Some (r_snapshot_id run)) ACCEPTED None
                        [(''reconciled_tasks'', PyInt (int (length (rr_tasks rr))))] w
              in (recovered @ [run_id], w)
         else (recovered, w))"

definition recovery_commit :: "recovery_tx \<Rightarrow> world \<Rightarrow> uuid list \<times> world" where
  "recovery_commit tx w = foldl (commit_run (rx_now tx)) ([], w) (rx_done tx)"

section \<open>Interleavings\<close>

definition begin_recovery :: "nat \<Rightarrow> instant \<Rightarrow> uuid list \<Rightarrow> world \<Rightarrow> recovery_tx" where
  "begin_recovery n now locked w =
     \<lparr>rx_now = now, rx_todo = select_unfinished n locked w, rx_reads = None, rx_done = []\<rparr>"

definition read_tasks :: "orchestration_run \<Rightarrow> world \<Rightarrow> recovery_tx \<Rightarrow> recovery_tx" where
  "read_tasks run w tx =
     tx\<lparr>rx_reads := Some (filter (\<lambda>t. t_orchestration_run_id t = r_orchestration_run_id run) (w_tasks w))\<rparr>"

definition read_signals :: "orchestration_run \<Rightarrow> agent_task list \<Rightarrow> world \<Rightarrow> recovery_tx \<Rightarrow> recovery_tx" where
  "read_signals run ts w tx =
     tx\<lparr>rx_todo := tl (rx_todo tx), rx_reads := None,
        rx_done := rx_done tx @ [\<lparr>rr_run = run, rr_tasks = ts,
                                  rr_signals = signal_task_ids (r_orchestration_run_id run) w\<rparr>]\<rparr>"

text \<open>What another transaction can commit while the runs \<open>L\<close> are locked.\<close>

definition respects_locks :: "uuid set \<Rightarrow> world \<Rightarrow> world \<Rightarrow> bool" where
  "respects_locks L w w' \<longleftrightarrow>
     (\<forall>k \<in> L. get_run k w' = get_run k w)
     \<and> (\<forall>s \<in> set (w_signals w') - set (w_signals w). \<forall>k. sg_orchestration_run_id s = Some k \<longrightarrow> k \<notin> L)"

text \<open>
  A commit loses an update when the status of a task that it writes is no longer the one it read,
  and not the one it writes either.
\<close>

definition loses_update :: "recovery_tx \<Rightarrow> world \<Rightarrow> bool" where
  "loses_update tx w \<longleftrightarrow>
     (\<exists>rr \<in> set (rx_done tx). \<exists>t \<in> set (rr_tasks rr).
        case (repair_task (rx_now tx) (t_task_id t \<in> rr_signals rr) t, get_task (t_task_id t) w) of
          (Some t', Some u) \<Rightarrow> t_status u \<notin> {t_status t, t_status t'}
        | _ \<Rightarrow> False)"

text \<open>
  The steps of a database with open recoveries; the first argument says whether an update is lost.  A
  recovery can end at any time without effect: its process dies, or the server chooses it as the
  victim of a deadlock.
\<close>

inductive race_step :: "bool \<Rightarrow> world \<times> recovery_tx list \<Rightarrow> world \<times> recovery_tx list \<Rightarrow> bool" where
  other: "system_step w w' \<Longrightarrow> respects_locks (locked_runs txs) w w' \<Longrightarrow> race_step False (w, txs) (w', txs)"
| start: "locked_runs txs \<subseteq> set locked \<Longrightarrow>
    race_step False (w, txs) (w, begin_recovery n now locked w # txs)"
| tasks: "rx_todo tx = run # rest \<Longrightarrow> rx_reads tx = None \<Longrightarrow>
    race_step False (w, txs1 @ tx # txs2) (w, txs1 @ read_tasks run w tx # txs2)"
| signals: "rx_todo tx = run # rest \<Longrightarrow> rx_reads tx = Some ts \<Longrightarrow>
    race_step False (w, txs1 @ tx # txs2) (w, txs1 @ read_signals run ts w tx # txs2)"
| commit: "rx_todo tx = [] \<Longrightarrow> recovery_commit tx w = (recovered, w') \<Longrightarrow>
    race_step (loses_update tx w) (w, txs1 @ tx # txs2) (w', txs1 @ txs2)"
| abandon: "race_step False (w, txs1 @ tx # txs2) (w, txs1 @ txs2)"

inductive_cases race_stepE: "race_step lost c c'"

definition interleaving :: "world \<times> recovery_tx list \<Rightarrow> world \<times> recovery_tx list \<Rightarrow> bool" where
  "interleaving = (\<lambda>c c'. \<exists>lost. race_step lost c c')\<^sup>*\<^sup>*"

definition lossless :: "world \<times> recovery_tx list \<Rightarrow> world \<times> recovery_tx list \<Rightarrow> bool" where
  "lossless = (race_step False)\<^sup>*\<^sup>*"

lemma lossless_interleaving: "lossless c c' \<Longrightarrow> interleaving c c'"
  unfolding lossless_def interleaving_def by (erule rtranclp_mono [THEN predicate2D, rotated]) blast

section \<open>What a commit changes\<close>

text \<open>A stored signal names the task.\<close>

definition answered :: "uuid \<Rightarrow> world \<Rightarrow> bool" where
  "answered k w \<longleftrightarrow> (\<exists>s \<in> set (w_signals w). sg_task_id s = Some k)"

text \<open>Task rows change by \<open>R\<close>, runs in their status, and answered tasks not at all.\<close>

definition commit_rel :: "(agent_task \<Rightarrow> agent_task \<Rightarrow> bool) \<Rightarrow> world \<Rightarrow> world \<Rightarrow> bool" where
  "commit_rel R w w' \<longleftrightarrow>
     w_agents w' = w_agents w \<and> w_snapshots w' = w_snapshots w \<and> w_nonces w' = w_nonces w
     \<and> w_signals w' = w_signals w \<and> w_outbox w' = w_outbox w \<and> w_endpoints w' = w_endpoints w
     \<and> w_states w' = w_states w \<and> list_all2 run_kept (w_runs w) (w_runs w')
     \<and> list_all2 R (w_tasks w) (w_tasks w')
     \<and> (\<forall>k. answered k w \<longrightarrow> get_task k w' = get_task k w)"

text \<open>The relations that the proofs use: \<open>task_kept\<close> for every commit, \<open>task_evolves\<close> for one that loses nothing.\<close>

definition row_relation :: "(agent_task \<Rightarrow> agent_task \<Rightarrow> bool) \<Rightarrow> bool" where
  "row_relation R \<longleftrightarrow> reflp R \<and> transp R \<and> (\<forall>t t'. R t t' \<longrightarrow> task_kept t t')"

lemma row_relations: "row_relation task_kept" "row_relation task_evolves"
proof -
  have "reflp task_kept" "transp task_kept"
    by (rule reflpI, simp add: task_kept_def same_identity_def)
      (rule transpI, auto simp: task_kept_def same_identity_def)
  then show "row_relation task_kept" by (simp add: row_relation_def)
  show "row_relation task_evolves"
    using task_evolves_refl task_evolves_trans task_evolves_kept by (auto simp: row_relation_def)
qed

lemma commit_rel_refl: "row_relation R \<Longrightarrow> commit_rel R w w"
  by (auto simp: commit_rel_def row_relation_def runs_kept_refl intro: list_all2_refl dest: reflpD)

lemma commit_rel_trans:
  assumes R: "row_relation R" and 1: "commit_rel R w w1" and 2: "commit_rel R w1 w2"
  shows "commit_rel R w w2"
proof -
  have "list_all2 run_kept (w_runs w) (w_runs w2)"
    using 1 2 list_all2_rows_trans [OF run_kept_trans] unfolding commit_rel_def by blast
  moreover have "transp R" using R by (simp add: row_relation_def)
  then have "list_all2 R (w_tasks w) (w_tasks w2)"
    using 1 2 list_all2_rows_trans [of R] unfolding commit_rel_def by blast
  moreover have "answered k w \<Longrightarrow> answered k w1" for k using 1 by (simp add: answered_def commit_rel_def)
  then have "get_task k w2 = get_task k w" if "answered k w" for k
    using 1 2 that unfolding commit_rel_def by metis
  ultimately show ?thesis using 1 2 by (simp add: commit_rel_def)
qed

lemma commit_rel_keys:
  assumes "row_relation R" and "commit_rel R w w'"
  shows "map t_task_id (w_tasks w') = map t_task_id (w_tasks w)"
proof (rule list_all2_keys [symmetric])
  show "list_all2 R (w_tasks w) (w_tasks w')" using assms(2) by (simp add: commit_rel_def)
  show "t_task_id x = t_task_id y" if "R x y" for x y
    using assms(1) that by (auto simp: row_relation_def task_kept_def same_identity_def)
qed

lemma commit_rel_quiet:
  "row_relation R \<Longrightarrow> commit_rel R w (metric_increment n a w)"
  "row_relation R \<Longrightarrow> commit_rel R w (add_orchestration_event now ev c ca r t ag sn out re m w)"
  by (auto simp: commit_rel_def row_relation_def runs_kept_refl intro: list_all2_refl dest: reflpD)

lemma flush_row_simps:
  "t_task_id (flush_row t t' u) = t_task_id u" "task_kept u (flush_row t t' u)"
  "t_attempt_count (flush_row t t' u) = t_attempt_count u"
  "t_status (flush_row t t' u) = flushed (t_status t) (t_status t') (t_status u)"
  by (simp_all add: flush_row_def task_kept_def same_identity_def)

text \<open>Every write that the repair of \<open>t\<close> makes is of a task without a signal, and changes its row by \<open>R\<close>.\<close>

definition flush_ok :: "(agent_task \<Rightarrow> agent_task \<Rightarrow> bool) \<Rightarrow> instant \<Rightarrow> uuid set \<Rightarrow> world \<Rightarrow> agent_task \<Rightarrow> bool" where
  "flush_ok R now S w t \<longleftrightarrow>
     (\<forall>t' u. repair_task now (t_task_id t \<in> S) t = Some t' \<longrightarrow> get_task (t_task_id t) w = Some u \<longrightarrow>
        R u (flush_row t t' u) \<and> \<not> answered (t_task_id t) w)"

lemma commit_task_rel:
  assumes R: "row_relation R" and keys: "distinct (map t_task_id (w_tasks w))" and ok: "flush_ok R now S w t"
  shows "commit_rel R w (snd (commit_task now S (ch, w) t))"
    and "k \<noteq> t_task_id t \<Longrightarrow> get_task k (snd (commit_task now S (ch, w) t)) = get_task k w"
    and "w_runs (snd (commit_task now S (ch, w) t)) = w_runs w"
proof -
  have "commit_rel R w (snd (commit_task now S (ch, w) t))
    \<and> (k \<noteq> t_task_id t \<longrightarrow> get_task k (snd (commit_task now S (ch, w) t)) = get_task k w)
    \<and> w_runs (snd (commit_task now S (ch, w) t)) = w_runs w"
  proof (cases "repair_task now (t_task_id t \<in> S) t")
    case None
    then show ?thesis using commit_rel_refl [OF R] by (simp add: commit_task_def)
  next
    case (Some t')
    let ?f = "flush_task t t' w"
    have "commit_rel R w ?f \<and> (k \<noteq> t_task_id t \<longrightarrow> get_task k ?f = get_task k w) \<and> w_runs ?f = w_runs w"
    proof (cases "get_task (t_task_id t) w")
      case None
      then show ?thesis using commit_rel_refl [OF R] by (simp add: flush_task_def)
    next
      case u: (Some u)
      have id: "t_task_id (flush_row t t' u) = t_task_id t"
        using get_task_SomeD [OF u] by (simp add: flush_row_simps)
      have f: "?f = put_task (flush_row t t' u) w" by (simp add: flush_task_def u)
      have row: "R u (flush_row t t' u)" "\<not> answered (t_task_id t) w"
        using ok Some u by (auto simp: flush_ok_def)
      have g: "get_task j ?f = (if j = t_task_id t then Some (flush_row t t' u) else get_task j w)" for j
        using get_task_put_task [of j "flush_row t t' u" w] u id by (auto simp: f)
      have "list_all2 R (w_tasks w) (w_tasks ?f)"
        unfolding f put_task_def
        using row_put_rel [of R t_task_id "w_tasks w" "flush_row t t' u" u] R keys row(1) u id
        by (simp add: row_relation_def get_task_def)
      moreover have "get_task j ?f = get_task j w" if "answered j w" for j
        using row(2) that by (auto simp: g)
      ultimately show ?thesis using g [of k]
        by (simp add: commit_rel_def runs_kept_refl) (simp add: f put_task_def runs_kept_refl)
    qed
    moreover have "commit_rel R ?f (metric_increment n a ?f)" for n a by (rule commit_rel_quiet(1) [OF R])
    ultimately show ?thesis
      using Some commit_rel_trans [OF R, of w ?f] by (auto simp: commit_task_def Let_def)
  qed
  then show "commit_rel R w (snd (commit_task now S (ch, w) t))"
    and "k \<noteq> t_task_id t \<Longrightarrow> get_task k (snd (commit_task now S (ch, w) t)) = get_task k w"
    and "w_runs (snd (commit_task now S (ch, w) t)) = w_runs w" by blast+
qed

text \<open>\<open>flush_ok\<close> depends on the row of the task and the signals only.\<close>

lemma flush_ok_cong:
  assumes "get_task (t_task_id t) w' = get_task (t_task_id t) w" and "w_signals w' = w_signals w"
  shows "flush_ok R now S w' t = flush_ok R now S w t"
  using assms by (simp add: flush_ok_def answered_def)

lemma commit_tasks_rel:
  assumes R: "row_relation R" and "distinct (map t_task_id (w_tasks w))" and "distinct (map t_task_id ts)"
    and "\<And>t. t \<in> set ts \<Longrightarrow> flush_ok R now S w t"
  shows "commit_rel R w (snd (foldl (commit_task now S) (ch, w) ts))
    \<and> (\<forall>k. k \<notin> t_task_id ` set ts \<longrightarrow> get_task k (snd (foldl (commit_task now S) (ch, w) ts)) = get_task k w)
    \<and> w_runs (snd (foldl (commit_task now S) (ch, w) ts)) = w_runs w"
  using assms(2-4)
proof (induction ts arbitrary: ch w)
  case Nil
  then show ?case by (simp add: commit_rel_refl [OF R])
next
  case (Cons t ts)
  obtain ch1 w1 where s1: "commit_task now S (ch, w) t = (ch1, w1)" by fastforce
  have "flush_ok R now S w t" using Cons.prems(3) by simp
  note step = commit_task_rel [OF R Cons.prems(1) this, where ch = ch, unfolded s1 snd_conv]
  have keys: "distinct (map t_task_id (w_tasks w1))"
    unfolding commit_rel_keys [OF R step(1)] by (rule Cons.prems(1))
  have new: "t_task_id t \<notin> t_task_id ` set ts" and dist: "distinct (map t_task_id ts)"
    using Cons.prems(2) by auto
  have rest: "flush_ok R now S w1 u" if u: "u \<in> set ts" for u
  proof -
    have "t_task_id u \<noteq> t_task_id t" using new imageI [OF u, of t_task_id] by auto
    moreover have "w_signals w1 = w_signals w" using step(1) by (simp add: commit_rel_def)
    ultimately show ?thesis using Cons.prems(3) [of u] u flush_ok_cong [of u w1 w] step(2) by simp
  qed
  from Cons.IH [OF keys dist rest, of ch1] commit_rel_trans [OF R step(1)] step(2,3) show ?case
    by (simp add: s1)
qed

lemma reopen_run_rel:
  assumes R: "row_relation R" and "distinct (map r_orchestration_run_id (w_runs w))"
  shows "commit_rel R w (reopen_run run w)"
proof (cases "get_run (r_orchestration_run_id run) w")
  case None
  then show ?thesis using commit_rel_refl [OF R] by (simp add: reopen_run_def)
next
  case (Some r)
  have "list_all2 run_kept (w_runs w) (w_runs (put_run (r\<lparr>r_status := R_COLLECTING\<rparr>) w))"
    by (rule put_run_kept [OF assms(2) _ run_keptI(2)]) (use Some get_run_SomeD [OF Some] in simp)
  moreover have "list_all2 R (w_tasks w) (w_tasks w)"
    using R by (auto simp: row_relation_def intro: list_all2_refl dest: reflpD)
  ultimately show ?thesis
    using Some by (simp add: commit_rel_def reopen_run_def put_run_def get_task_def)
qed

lemma commit_rel_run_keys:
  assumes "commit_rel R w w'"
  shows "map r_orchestration_run_id (w_runs w') = map r_orchestration_run_id (w_runs w)"
proof (rule list_all2_keys [symmetric])
  show "list_all2 run_kept (w_runs w) (w_runs w')" using assms by (simp add: commit_rel_def)
qed (simp add: run_kept_same)

lemma commit_run_rel:
  assumes R: "row_relation R" and keys: "distinct (map t_task_id (w_tasks w))"
    and runs: "distinct (map r_orchestration_run_id (w_runs w))" and dist: "distinct (map t_task_id (rr_tasks rr))"
    and ok: "\<And>t. t \<in> set (rr_tasks rr) \<Longrightarrow> flush_ok R now (rr_signals rr) w t"
  shows "commit_rel R w (snd (commit_run now (rec, w) rr))"
    and "k \<notin> t_task_id ` set (rr_tasks rr) \<Longrightarrow> get_task k (snd (commit_run now (rec, w) rr)) = get_task k w"
proof -
  let ?run = "rr_run rr"
  obtain ch w1 where f: "foldl (commit_task now (rr_signals rr)) (False, w) (rr_tasks rr) = (ch, w1)" by fastforce
  note fold = commit_tasks_rel [OF R keys dist ok, where ch = False, unfolded f snd_conv]
  let ?w2 = "if r_status ?run = R_TIMED_OUT then reopen_run ?run w1 else w1"
  have "commit_rel R w1 ?w2"
    using reopen_run_rel [OF R, of w1 ?run] commit_rel_refl [OF R] runs fold by auto
  with fold have rel2: "commit_rel R w ?w2" using commit_rel_trans [OF R] by blast
  have g2: "get_task k ?w2 = get_task k w1"
    by (auto simp: reopen_run_def put_run_def get_task_def split: option.split)
  have w': "snd (commit_run now (rec, w) rr) = w1 \<and> r_status ?run \<noteq> R_TIMED_OUT
    \<or> (\<exists>m. snd (commit_run now (rec, w) rr) = add_orchestration_event now ''ORCHESTRATION_RECOVERED''
      (r_correlation_id ?run) None (r_orchestration_run_id ?run) None None (Some (r_snapshot_id ?run)) ACCEPTED None m ?w2)"
    by (auto simp: commit_run_def f Let_def)
  have "commit_rel R w (add_orchestration_event now ''ORCHESTRATION_RECOVERED''
      (r_correlation_id ?run) None (r_orchestration_run_id ?run) None None (Some (r_snapshot_id ?run)) ACCEPTED None m ?w2)" for m
    by (rule commit_rel_trans [OF R rel2 commit_rel_quiet(2) [OF R]])
  with w' fold show "commit_rel R w (snd (commit_run now (rec, w) rr))" by auto
  assume "k \<notin> t_task_id ` set (rr_tasks rr)"
  with fold have "get_task k w1 = get_task k w" by blast
  moreover have "get_task k (snd (commit_run now (rec, w) rr)) = get_task k w1" using w' g2 by auto
  ultimately show "get_task k (snd (commit_run now (rec, w) rr)) = get_task k w" by simp
qed

lemma commit_runs_rel:
  assumes R: "row_relation R" and "distinct (map t_task_id (w_tasks w))"
    and "distinct (map r_orchestration_run_id (w_runs w))"
    and "distinct (map t_task_id (concat (map rr_tasks rrs)))"
    and "\<And>rr t. rr \<in> set rrs \<Longrightarrow> t \<in> set (rr_tasks rr) \<Longrightarrow> flush_ok R now (rr_signals rr) w t"
  shows "commit_rel R w (snd (foldl (commit_run now) (rec, w) rrs))"
  using assms(2-5)
proof (induction rrs arbitrary: rec w)
  case Nil
  then show ?case by (simp add: commit_rel_refl [OF R])
next
  case (Cons rr rrs)
  obtain rec1 w1 where s1: "commit_run now (rec, w) rr = (rec1, w1)" by fastforce
  have ok: "flush_ok R now (rr_signals rr) w t" if "t \<in> set (rr_tasks rr)" for t using Cons.prems(4) that by simp
  have dist: "distinct (map t_task_id (rr_tasks rr))" "distinct (map t_task_id (concat (map rr_tasks rrs)))"
    and disj: "t_task_id ` set (rr_tasks rr) \<inter> t_task_id ` set (concat (map rr_tasks rrs)) = {}"
    using Cons.prems(3) by auto
  note step = commit_run_rel [OF R Cons.prems(1,2) dist(1) ok, where rec = rec, unfolded s1 snd_conv]
  have rest: "flush_ok R now (rr_signals r) w1 t" if r: "r \<in> set rrs" and t: "t \<in> set (rr_tasks r)" for r t
  proof -
    have "t \<in> set (concat (map rr_tasks rrs))" using r t by auto
    then have "t_task_id t \<notin> t_task_id ` set (rr_tasks rr)" using disj by blast
    moreover have "w_signals w1 = w_signals w" using step(1) by (simp add: commit_rel_def)
    ultimately show ?thesis using Cons.prems(4) [of r t] r t flush_ok_cong [of t w1 w] step(2) by simp
  qed
  have "commit_rel R w1 (snd (foldl (commit_run now) (rec1, w1) rrs))"
    by (rule Cons.IH [OF _ _ dist(2) rest])
      (use Cons.prems(1,2) commit_rel_keys [OF R step(1)] commit_rel_run_keys [OF step(1)] in simp_all)
  with commit_rel_trans [OF R step(1)] show ?case by (simp add: s1)
qed

section \<open>The invariant of interleavings\<close>

text \<open>
  A task that a recovery has read: its row still has the identity that was read, and it was read as
  completed if a stored signal answers it.  The latter stays true because no signal for a locked run
  is stored.
\<close>

definition read_ok :: "world \<Rightarrow> uuid \<Rightarrow> agent_task \<Rightarrow> bool" where
  "read_ok w run_id t \<longleftrightarrow>
     t_orchestration_run_id t = run_id
     \<and> (\<exists>u. get_task (t_task_id t) w = Some u \<and> same_identity t u)
     \<and> (answered (t_task_id t) w \<longrightarrow> t_status t = SIGNAL_RECEIVED)"

definition reads_ok :: "world \<Rightarrow> uuid \<Rightarrow> agent_task list \<Rightarrow> bool" where
  "reads_ok w run_id ts \<longleftrightarrow> distinct (map t_task_id ts) \<and> (\<forall>t \<in> set ts. read_ok w run_id t)"

definition tx_ok :: "world \<Rightarrow> recovery_tx \<Rightarrow> bool" where
  "tx_ok w tx \<longleftrightarrow>
     distinct (map r_orchestration_run_id (rx_runs tx))
     \<and> (\<forall>rr \<in> set (rx_done tx). reads_ok w (r_orchestration_run_id (rr_run rr)) (rr_tasks rr)
          \<and> (\<forall>k \<in> rr_signals rr. answered k w))
     \<and> (\<forall>ts. rx_reads tx = Some ts \<longrightarrow>
          (\<exists>run rest. rx_todo tx = run # rest \<and> reads_ok w (r_orchestration_run_id run) ts))"

definition race_ok :: "world \<times> recovery_tx list \<Rightarrow> bool" where
  "race_ok c \<longleftrightarrow> system_ok (fst c) \<and> (\<forall>tx \<in> set (snd c). tx_ok (fst c) tx)"

text \<open>Task rows of a later database.\<close>

definition rows_kept :: "world \<Rightarrow> world \<Rightarrow> bool" where
  "rows_kept w w' \<longleftrightarrow> set (w_nonces w) \<subseteq> set (w_nonces w') \<and> set (w_signals w) \<subseteq> set (w_signals w')
     \<and> (\<forall>k t. get_task k w = Some t \<longrightarrow> (\<exists>t'. get_task k w' = Some t' \<and> task_kept t t'))"

lemma rows_kept_refl: "rows_kept w w"
  by (simp add: rows_kept_def task_kept_def same_identity_def)

lemma rows_keptD:
  assumes "rows_kept w w'" and "get_task k w = Some t"
  obtains t' where "get_task k w' = Some t'" "task_kept t t'"
  using assms unfolding rows_kept_def by blast

lemma rows_kept_trans: "rows_kept w w1 \<Longrightarrow> rows_kept w1 w2 \<Longrightarrow> rows_kept w w2"
proof -
  assume 1: "rows_kept w w1" and 2: "rows_kept w1 w2"
  have "\<exists>t'. get_task k w2 = Some t' \<and> task_kept t t'" if t: "get_task k w = Some t" for k t
  proof -
    obtain t1 where t1: "get_task k w1 = Some t1" "task_kept t t1" by (rule rows_keptD [OF 1 t])
    obtain t2 where "get_task k w2 = Some t2" "task_kept t1 t2" by (rule rows_keptD [OF 2 t1(1)])
    with t1(2) show ?thesis by (auto simp: task_kept_def same_identity_def)
  qed
  with 1 2 show ?thesis by (auto simp: rows_kept_def)
qed

lemma grows_rows_kept: "grows w w' \<Longrightarrow> rows_kept w w'"
  unfolding grows_def rows_kept_def using task_evolves_kept by blast

lemma commit_rel_rows:
  assumes "row_relation R" and "commit_rel R w w'" and "get_task k w = Some t"
  obtains t' where "get_task k w' = Some t'" "R t t'"
proof -
  have "list_all2 R (w_tasks w) (w_tasks w')" using assms(2) by (simp add: commit_rel_def)
  moreover have "t_task_id x = t_task_id y" if "R x y" for x y
    using assms(1) that by (auto simp: row_relation_def task_kept_def same_identity_def)
  ultimately have "rel_option R (row_get t_task_id k (w_tasks w)) (row_get t_task_id k (w_tasks w'))"
    by (rule list_all2_row_get)
  with assms(3) that show thesis by (cases "row_get t_task_id k (w_tasks w')") (auto simp: get_task_def)
qed

lemma commit_rel_rows_kept:
  assumes R: "row_relation R" and "commit_rel R w w'"
  shows "rows_kept w w'"
proof -
  have "\<exists>t'. get_task k w' = Some t' \<and> task_kept t t'" if t: "get_task k w = Some t" for k t
  proof -
    obtain t' where "get_task k w' = Some t'" "R t t'" by (rule commit_rel_rows [OF R assms(2) t])
    with R show ?thesis by (auto simp: row_relation_def)
  qed
  with assms(2) show ?thesis by (simp add: rows_kept_def commit_rel_def)
qed

lemma read_ok_kept:
  assumes "read_ok w rid t" and "rows_kept w w'" and "answered (t_task_id t) w' \<Longrightarrow> answered (t_task_id t) w"
  shows "read_ok w' rid t"
proof -
  from assms(1) obtain u where u: "get_task (t_task_id t) w = Some u" "same_identity t u" by (auto simp: read_ok_def)
  obtain u' where "get_task (t_task_id t) w' = Some u'" "task_kept u u'" by (rule rows_keptD [OF assms(2) u(1)])
  with u(2) have "\<exists>u'. get_task (t_task_id t) w' = Some u' \<and> same_identity t u'"
    by (auto simp: task_kept_def same_identity_def)
  with assms(1,3) show ?thesis by (auto simp: read_ok_def)
qed

lemma tx_ok_kept:
  assumes ok: "tx_ok w tx" and kept: "rows_kept w w'"
    and new: "\<And>k u. answered k w' \<Longrightarrow> \<not> answered k w \<Longrightarrow> get_task k w = Some u \<Longrightarrow>
      t_orchestration_run_id u \<notin> r_orchestration_run_id ` set (rx_runs tx)"
  shows "tx_ok w' tx"
proof -
  have read: "reads_ok w' (r_orchestration_run_id run) ts"
    if "reads_ok w (r_orchestration_run_id run) ts" and run: "run \<in> set (rx_runs tx)" for run ts
  proof -
    have "read_ok w' (r_orchestration_run_id run) t" if t: "read_ok w (r_orchestration_run_id run) t" for t
    proof (rule read_ok_kept [OF t kept])
      assume a: "answered (t_task_id t) w'"
      from t obtain u where u: "get_task (t_task_id t) w = Some u" "t_orchestration_run_id u = r_orchestration_run_id run"
        by (auto simp: read_ok_def same_identity_def)
      with new [OF a _ u(1)] run show "answered (t_task_id t) w" by auto
    qed
    with that(1) show ?thesis by (auto simp: reads_ok_def)
  qed
  have "answered k w'" if "answered k w" for k
    using that kept by (auto simp: answered_def rows_kept_def)
  moreover have "rr_run rr \<in> set (rx_runs tx)" if "rr \<in> set (rx_done tx)" for rr using that by (simp add: rx_runs_def)
  moreover have "run \<in> set (rx_runs tx)" if "rx_todo tx = run # rest" for run rest using that by (simp add: rx_runs_def)
  ultimately show ?thesis using ok read unfolding tx_ok_def by blast
qed

lemma tx_ok_other:
  assumes "tx_ok w tx" and "tx \<in> set txs" and "rows_kept w w'" and "system_ok w'"
    and locks: "respects_locks (locked_runs txs) w w'"
  shows "tx_ok w' tx"
proof (rule tx_ok_kept [OF assms(1,3)])
  fix k u assume a: "answered k w'" "\<not> answered k w" and u: "get_task k w = Some u"
  from a(1) obtain s where s: "s \<in> set (w_signals w')" "sg_task_id s = Some k" by (auto simp: answered_def)
  have "signals_assigned w'" using assms(4) by (simp add: system_ok_def)
  from signals_assignedD [OF this s] obtain v where v: "get_task k w' = Some v"
    "sg_orchestration_run_id s = Some (t_orchestration_run_id v)" by metis
  obtain u' where "get_task k w' = Some u'" "task_kept u u'" by (rule rows_keptD [OF assms(3) u])
  with v(1) have same: "t_orchestration_run_id v = t_orchestration_run_id u" by (simp add: task_kept_def same_identity_def)
  have "s \<notin> set (w_signals w)" using a(2) s(2) by (auto simp: answered_def)
  with locks s(1) v(2) have "t_orchestration_run_id v \<notin> locked_runs txs" unfolding respects_locks_def by blast
  with same assms(2) show "t_orchestration_run_id u \<notin> r_orchestration_run_id ` set (rx_runs tx)"
    by (auto simp: locked_runs_def)
qed

lemma reads_disjoint:
  assumes "\<And>rr. rr \<in> set rrs \<Longrightarrow> reads_ok w (r_orchestration_run_id (rr_run rr)) (rr_tasks rr)"
    and "distinct (map (\<lambda>rr. r_orchestration_run_id (rr_run rr)) rrs)"
  shows "distinct (map t_task_id (concat (map rr_tasks rrs)))"
  using assms
proof (induction rrs)
  case (Cons rr rrs)
  have "t_task_id t \<noteq> t_task_id t'" if t: "t \<in> set (rr_tasks rr)" and r: "r \<in> set rrs" "t' \<in> set (rr_tasks r)" for t t' r
  proof
    assume eq: "t_task_id t = t_task_id t'"
    have "read_ok w (r_orchestration_run_id (rr_run rr)) t" "read_ok w (r_orchestration_run_id (rr_run r)) t'"
      using Cons.prems(1) [of rr] Cons.prems(1) [of r] t r by (auto simp: reads_ok_def)
    then have "r_orchestration_run_id (rr_run rr) = r_orchestration_run_id (rr_run r)"
      using eq by (auto simp: read_ok_def same_identity_def)
    with Cons.prems(2) r(1) show False by auto
  qed
  then have "t_task_id ` set (rr_tasks rr) \<inter> t_task_id ` set (concat (map rr_tasks rrs)) = {}" by fastforce
  moreover have "distinct (map t_task_id (rr_tasks rr))" using Cons.prems(1) [of rr] by (simp add: reads_ok_def)
  moreover have "distinct (map t_task_id (concat (map rr_tasks rrs)))" using Cons by simp
  ultimately show ?case by simp
qed simp

lemma repair_task_received: "t_status t = SIGNAL_RECEIVED \<Longrightarrow> repair_task now b t = None"
  by (simp add: repair_task_def)

text \<open>
  A commit writes no task that a signal has answered, so that the first repair, which completes such
  a task, never fires; and unless it loses an update, it moves tasks along the edges of the machine.
\<close>

lemma commit_flush_ok:
  assumes ok: "tx_ok w tx" and rr: "rr \<in> set (rx_done tx)" and t: "t \<in> set (rr_tasks rr)"
  shows "flush_ok task_kept (rx_now tx) (rr_signals rr) w t"
    and "\<not> loses_update tx w \<Longrightarrow> flush_ok task_evolves (rx_now tx) (rr_signals rr) w t"
proof -
  let ?b = "t_task_id t \<in> rr_signals rr"
  have read: "read_ok w (r_orchestration_run_id (rr_run rr)) t" and sig: "?b \<Longrightarrow> answered (t_task_id t) w"
    using ok rr t by (auto simp: tx_ok_def reads_ok_def)
  have fresh: "\<not> answered (t_task_id t) w \<and> \<not> ?b" if r: "repair_task (rx_now tx) ?b t = Some t'" for t'
  proof -
    have "t_status t \<noteq> SIGNAL_RECEIVED" using r repair_task_received [of t "rx_now tx" ?b] by auto
    then show ?thesis using read sig by (auto simp: read_ok_def)
  qed
  show "flush_ok task_kept (rx_now tx) (rr_signals rr) w t"
    using fresh by (auto simp: flush_ok_def flush_row_simps)
  assume quiet: "\<not> loses_update tx w"
  show "flush_ok task_evolves (rx_now tx) (rr_signals rr) w t"
    unfolding flush_ok_def
  proof (intro allI impI conjI)
    fix t' u assume r: "repair_task (rx_now tx) ?b t = Some t'" and u: "get_task (t_task_id t) w = Some u"
    show "\<not> answered (t_task_id t) w" using fresh [OF r] by blast
    have "t_status u = t_status t \<or> t_status u = t_status t'"
      using quiet rr t r u by (fastforce simp: loses_update_def)
    moreover have "task_path (t_status t) (t_status t')"
      using repair_evolves(1) [OF r] fresh [OF r] by (simp add: task_evolves_def)
    ultimately have "task_path (t_status u) (t_status (flush_row t t' u))"
      by (auto simp: flush_row_simps flushed_def)
    then show "task_evolves u (flush_row t t' u)"
      using flush_row_simps(2) [of u t t'] by (simp add: task_evolves_def task_kept_def)
  qed
qed

lemma commit_facts:
  assumes ok: "tx_ok w tx" and sch: "schema_ok w" and c: "recovery_commit tx w = (recovered, w')"
  shows "commit_rel task_kept w w'" and "\<not> loses_update tx w \<Longrightarrow> commit_rel task_evolves w w'"
proof -
  have w': "w' = snd (foldl (commit_run (rx_now tx)) ([], w) (rx_done tx))"
    using c unfolding recovery_commit_def by (metis snd_conv)
  have dist: "distinct (map t_task_id (concat (map rr_tasks (rx_done tx))))"
    by (rule reads_disjoint [of _ w]) (use ok in \<open>simp_all add: tx_ok_def rx_runs_def comp_def\<close>)
  note rel = commit_runs_rel [OF _ schema_task_keys [OF sch] schema_run_keys [OF sch] dist]
  show "commit_rel task_kept w w'"
    unfolding w' by (rule rel [OF row_relations(1) commit_flush_ok(1) [OF ok]])
  show "commit_rel task_evolves w w'" if "\<not> loses_update tx w"
    unfolding w' by (rule rel [OF row_relations(2) commit_flush_ok(2) [OF ok _ _ that]])
qed

lemma commit_rel_ok:
  assumes rel: "commit_rel task_kept w w'" and ok: "system_ok w"
  shows "system_ok w'"
proof -
  have sch: "schema_ok w" and sig: "signals_assigned w" using ok by (simp_all add: system_ok_def)
  have "states_ok w'" using schema_states_ok [OF sch] rel by (simp add: states_ok_def commit_rel_def)
  with rel have "schema_ok w'" by (intro schema_ok_kept [OF sch]) (simp_all add: commit_rel_def)
  moreover have "signals_assigned w'"
    unfolding signals_assigned_def
  proof (intro ballI allI impI)
    fix s k assume "s \<in> set (w_signals w')" and k: "sg_task_id s = Some k"
    then have s: "s \<in> set (w_signals w)" using rel by (simp add: commit_rel_def)
    then have "get_task k w' = get_task k w" using rel k by (auto simp: commit_rel_def answered_def)
    then show "\<exists>t. get_task k w' = Some t \<and> t_status t = SIGNAL_RECEIVED \<and> t_agent_id t = sg_agent_id s
        \<and> sg_orchestration_run_id s = Some (t_orchestration_run_id t)
        \<and> t_snapshot_id t = sg_snapshot_id s \<and> t_asset t = sg_asset s"
      using signals_assignedD [OF sig s k] by metis
  qed
  ultimately show ?thesis by (simp add: system_ok_def)
qed

lemma commit_rel_grows:
  assumes "commit_rel task_evolves w w'" shows "grows w w'"
proof -
  have "\<exists>t'. get_task k w' = Some t' \<and> task_evolves t t'" if t: "get_task k w = Some t" for k t
  proof -
    obtain t' where "get_task k w' = Some t'" "task_evolves t t'" by (rule commit_rel_rows [OF row_relations(2) assms t])
    then show ?thesis by blast
  qed
  with assms show ?thesis by (simp add: grows_def commit_rel_def)
qed

lemma race_okD:
  assumes "race_ok (w, txs1 @ tx # txs2)"
  shows "system_ok w" "tx_ok w tx" "\<And>x. x \<in> set (txs1 @ txs2) \<Longrightarrow> tx_ok w x"
  using assms by (auto simp: race_ok_def)

lemma begin_ok: "schema_ok w \<Longrightarrow> tx_ok w (begin_recovery n now locked w)"
  by (simp add: tx_ok_def begin_recovery_def rx_runs_def select_unfinished_distinct)

lemma read_tasks_ok:
  assumes ok: "tx_ok w tx" and "system_ok w" and todo: "rx_todo tx = run # rest"
  shows "tx_ok w (read_tasks run w tx)"
proof -
  have sch: "schema_ok w" and sc: "signals_complete w"
    using assms(2) signals_assigned_complete by (simp_all add: system_ok_def)
  let ?ts = "filter (\<lambda>t. t_orchestration_run_id t = r_orchestration_run_id run) (w_tasks w)"
  have "read_ok w (r_orchestration_run_id run) t" if t: "t \<in> set ?ts" for t
  proof -
    have row: "get_task (t_task_id t) w = Some t"
      unfolding get_task_def by (rule row_get_mem [OF schema_task_keys [OF sch]]) (use t in simp)
    have "t_status t = SIGNAL_RECEIVED" if "answered (t_task_id t) w"
      using that row sc by (auto simp: answered_def signals_complete_def)
    with row t show ?thesis by (simp add: read_ok_def same_identity_def)
  qed
  then have "reads_ok w (r_orchestration_run_id run) ?ts"
    using distinct_map_filter [OF schema_task_keys [OF sch]] by (simp add: reads_ok_def)
  with ok todo show ?thesis by (simp add: tx_ok_def read_tasks_def rx_runs_def)
qed

lemma read_signals_ok:
  assumes ok: "tx_ok w tx" and todo: "rx_todo tx = run # rest" and reads: "rx_reads tx = Some ts"
  shows "tx_ok w (read_signals run ts w tx)"
proof -
  have "reads_ok w (r_orchestration_run_id run) ts" using ok todo reads by (simp add: tx_ok_def)
  moreover have "\<forall>k \<in> signal_task_ids (r_orchestration_run_id run) w. answered k w"
    by (auto simp: signal_task_ids_mem answered_def)
  ultimately show ?thesis using ok todo by (simp add: tx_ok_def read_signals_def rx_runs_def)
qed

lemma race_step_ok:
  assumes "race_step lost (w, txs) (w', txs')" and ok: "race_ok (w, txs)"
  shows "race_ok (w', txs') \<and> rows_kept w w' \<and> (\<not> lost \<longrightarrow> grows w w')"
  using assms(1)
proof cases
  case other
  have "system_ok w' \<and> grows w w'" using system_step_ok [OF other(3)] ok by (simp add: race_ok_def)
  with grows_rows_kept [of w w'] tx_ok_other [OF _ _ _ _ other(4)] ok other(1,2) show ?thesis
    by (auto simp: race_ok_def)
next
  case (start locked n now)
  have "schema_ok w" using ok by (simp add: race_ok_def system_ok_def)
  with begin_ok ok start rows_kept_refl grows_refl show ?thesis by (auto simp: race_ok_def)
next
  case (tasks tx run rest txs1 txs2)
  have old: "race_ok (w, txs1 @ tx # txs2)" using ok tasks by simp
  with read_tasks_ok [OF race_okD(2) [OF old] race_okD(1) [OF old] tasks(5)] tasks rows_kept_refl grows_refl
  show ?thesis by (auto simp: race_ok_def)
next
  case (signals tx run rest ts txs1 txs2)
  have old: "race_ok (w, txs1 @ tx # txs2)" using ok signals by simp
  with read_signals_ok [OF race_okD(2) [OF old] signals(5,6)] signals rows_kept_refl grows_refl
  show ?thesis by (auto simp: race_ok_def)
next
  case (commit tx recovered txs1 txs2)
  have old: "race_ok (w, txs1 @ tx # txs2)" using ok commit by simp
  have sch: "schema_ok w" using race_okD(1) [OF old] by (simp add: system_ok_def)
  note facts = commit_facts [OF race_okD(2) [OF old] sch commit(5)]
  have kept: "rows_kept w w'" by (rule commit_rel_rows_kept [OF row_relations(1) facts(1)])
  have "w_signals w' = w_signals w" using facts(1) by (simp add: commit_rel_def)
  then have "tx_ok w' x" if "x \<in> set (txs1 @ txs2)" for x
    by (intro tx_ok_kept [OF race_okD(3) [OF old that] kept]) (simp add: answered_def)
  with commit_rel_ok [OF facts(1) race_okD(1) [OF old]] kept commit_rel_grows [OF facts(2)] commit(1,3)
  show ?thesis by (auto simp: race_ok_def)
next
  case (abandon txs1 tx txs2)
  with ok rows_kept_refl grows_refl show ?thesis by (auto simp: race_ok_def)
qed

lemma interleaving_ok:
  assumes "interleaving c c'" and "race_ok c"
  shows "race_ok c' \<and> rows_kept (fst c) (fst c')"
  using assms(1) unfolding interleaving_def
proof (induction rule: rtranclp_induct)
  case base
  then show ?case using assms(2) rows_kept_refl by simp
next
  case (step c1 c2)
  then obtain lost where "race_step lost (fst c1, snd c1) (fst c2, snd c2)" by auto
  from race_step_ok [OF this] step rows_kept_trans show ?case by auto
qed

lemma lossless_ok:
  assumes "lossless c c'" and "race_ok c"
  shows "race_ok c' \<and> grows (fst c) (fst c')"
  using assms(1) unfolding lossless_def
proof (induction rule: rtranclp_induct)
  case base
  then show ?case using assms(2) grows_refl by simp
next
  case (step c1 c2)
  then have "race_step False (fst c1, snd c1) (fst c2, snd c2)" by simp
  from race_step_ok [OF this] step grows_trans show ?case by auto
qed

lemma race_ok_start: "race_ok (w, []) = system_ok w"
  by (simp add: race_ok_def)

section \<open>An undisturbed recovery\<close>

text \<open>
  A recovery whose statements run without anything in between does what \<open>reconcile_repair\<close>, the repair
  of \<open>system_step\<close>, does in one step.
\<close>

definition repair_of :: "world \<Rightarrow> orchestration_run \<Rightarrow> run_repair" where
  "repair_of w run =
     \<lparr>rr_run = run, rr_tasks = filter (\<lambda>t. t_orchestration_run_id t = r_orchestration_run_id run) (w_tasks w),
      rr_signals = signal_task_ids (r_orchestration_run_id run) w\<rparr>"

lemma read_one:
  "(race_step False)\<^sup>*\<^sup>* (w, [\<lparr>rx_now = now, rx_todo = r # rs, rx_reads = None, rx_done = ds\<rparr>])
     (w, [\<lparr>rx_now = now, rx_todo = rs, rx_reads = None, rx_done = ds @ [repair_of w r]\<rparr>])"
proof -
  let ?tx = "\<lparr>rx_now = now, rx_todo = r # rs, rx_reads = None, rx_done = ds\<rparr>"
  have one: "race_step False (w, [] @ ?tx # []) (w, [] @ read_tasks r w ?tx # [])"
    by (rule race_step.tasks [where rest = rs]) simp_all
  let ?ts = "filter (\<lambda>t. t_orchestration_run_id t = r_orchestration_run_id r) (w_tasks w)"
  have two: "race_step False (w, [] @ read_tasks r w ?tx # []) (w, [] @ read_signals r ?ts w (read_tasks r w ?tx) # [])"
    by (rule race_step.signals [where rest = rs]) (simp_all add: read_tasks_def)
  have "read_signals r ?ts w (read_tasks r w ?tx)
      = \<lparr>rx_now = now, rx_todo = rs, rx_reads = None, rx_done = ds @ [repair_of w r]\<rparr>"
    by (simp add: read_tasks_def read_signals_def repair_of_def)
  with one two show ?thesis by (auto intro: rtranclp.rtrancl_into_rtrancl)
qed

lemma read_all:
  "(race_step False)\<^sup>*\<^sup>* (w, [\<lparr>rx_now = now, rx_todo = rs, rx_reads = None, rx_done = ds\<rparr>])
     (w, [\<lparr>rx_now = now, rx_todo = [], rx_reads = None, rx_done = ds @ map (repair_of w) rs\<rparr>])"
proof (induction rs arbitrary: ds)
  case (Cons r rs)
  show ?case
    using Cons.IH [of "ds @ [repair_of w r]"] by (intro rtranclp_trans [OF read_one]) simp
qed simp

lemma repair_task_columns:
  assumes "repair_task now b t = Some t'"
  shows "flush_row t t' t = t'" and "t_task_id t' = t_task_id t"
    and "t_orchestration_run_id t' = t_orchestration_run_id t"
proof -
  have same: "flushed a b a = b" for a b :: 'x by (simp add: flushed_def)
  show "flush_row t t' t = t'"
    using assms unfolding flush_row_def same by (auto simp: repair_task_def split: if_splits)
  show "t_task_id t' = t_task_id t" "t_orchestration_run_id t' = t_orchestration_run_id t"
    using assms by (auto simp: repair_task_def split: if_splits)
qed

lemma commit_task_alone:
  assumes "get_task (t_task_id t) w = Some t"
  shows "commit_task now S (ch, w) t = repair_step now S (ch, w) t"
  using assms repair_task_columns(1) [of now "t_task_id t \<in> S" t]
  by (auto simp: commit_task_def repair_step_def flush_task_def split: option.split)

lemma row_put_filter:
  assumes "\<And>x. x \<in> set rs \<Longrightarrow> key x = key r \<Longrightarrow> \<not> P x" and "\<not> P r"
  shows "filter P (row_put key r rs) = filter P rs"
  using assms by (induction rs) (auto simp: row_put_def)

lemma repair_step_frame:
  fixes now :: instant and S :: "uuid set" and ch :: bool
  assumes keys: "distinct (map t_task_id (w_tasks w))" and row: "get_task (t_task_id t) w = Some t"
  defines "w' \<equiv> snd (repair_step now S (ch, w) t)"
  shows "k \<noteq> t_task_id t \<Longrightarrow> get_task k w' = get_task k w" "w_runs w' = w_runs w" "w_signals w' = w_signals w"
    "map t_task_id (w_tasks w') = map t_task_id (w_tasks w)"
    "t_orchestration_run_id t \<noteq> rid \<Longrightarrow> filter (\<lambda>t. t_orchestration_run_id t = rid) (w_tasks w')
       = filter (\<lambda>t. t_orchestration_run_id t = rid) (w_tasks w)"
proof -
  have "(k \<noteq> t_task_id t \<longrightarrow> get_task k w' = get_task k w) \<and> w_runs w' = w_runs w \<and> w_signals w' = w_signals w
    \<and> map t_task_id (w_tasks w') = map t_task_id (w_tasks w)
    \<and> (t_orchestration_run_id t \<noteq> rid \<longrightarrow> filter (\<lambda>t. t_orchestration_run_id t = rid) (w_tasks w')
       = filter (\<lambda>t. t_orchestration_run_id t = rid) (w_tasks w))"
  proof (cases "repair_task now (t_task_id t \<in> S) t")
    case None
    then show ?thesis by (simp add: w'_def repair_step_def)
  next
    case (Some t')
    note cols = repair_task_columns [OF Some]
    have w': "w_tasks w' = w_tasks (put_task t' w)" "w_runs w' = w_runs w" "w_signals w' = w_signals w"
      by (simp_all add: w'_def repair_step_def Some Let_def put_task_def)
    have "x = t" if "x \<in> set (w_tasks w)" "t_task_id x = t_task_id t" for x
      using row_get_mem [OF keys that(1)] row that(2) by (simp add: get_task_def)
    then have "filter (\<lambda>t. t_orchestration_run_id t = rid) (row_put t_task_id t' (w_tasks w))
        = filter (\<lambda>t. t_orchestration_run_id t = rid) (w_tasks w)" if "t_orchestration_run_id t \<noteq> rid"
      using that cols by (intro row_put_filter) auto
    moreover have "get_task k w' = get_task k w" if "k \<noteq> t_task_id t"
      using get_task_put_task [of k t' w] that cols(2) by (simp add: get_task_def w'(1))
    ultimately show ?thesis using w' by (simp add: put_task_def keys_row_put)
  qed
  then show "k \<noteq> t_task_id t \<Longrightarrow> get_task k w' = get_task k w" "w_runs w' = w_runs w" "w_signals w' = w_signals w"
    "map t_task_id (w_tasks w') = map t_task_id (w_tasks w)"
    "t_orchestration_run_id t \<noteq> rid \<Longrightarrow> filter (\<lambda>t. t_orchestration_run_id t = rid) (w_tasks w')
       = filter (\<lambda>t. t_orchestration_run_id t = rid) (w_tasks w)" by blast+
qed

lemma commit_tasks_alone:
  assumes "distinct (map t_task_id (w_tasks w))" and "distinct (map t_task_id ts)"
    and "\<And>t. t \<in> set ts \<Longrightarrow> get_task (t_task_id t) w = Some t"
  shows "foldl (commit_task now S) (ch, w) ts = foldl (repair_step now S) (ch, w) ts
    \<and> w_runs (snd (foldl (repair_step now S) (ch, w) ts)) = w_runs w
    \<and> w_signals (snd (foldl (repair_step now S) (ch, w) ts)) = w_signals w
    \<and> map t_task_id (w_tasks (snd (foldl (repair_step now S) (ch, w) ts))) = map t_task_id (w_tasks w)
    \<and> (rid \<notin> t_orchestration_run_id ` set ts \<longrightarrow>
        filter (\<lambda>t. t_orchestration_run_id t = rid) (w_tasks (snd (foldl (repair_step now S) (ch, w) ts)))
        = filter (\<lambda>t. t_orchestration_run_id t = rid) (w_tasks w))"
  using assms
proof (induction ts arbitrary: ch w)
  case (Cons t ts)
  obtain ch1 w1 where s1: "repair_step now S (ch, w) t = (ch1, w1)" by fastforce
  have t: "get_task (t_task_id t) w = Some t" using Cons.prems(3) by simp
  note frame = repair_step_frame [OF Cons.prems(1) t, where now = now and S = S and ch = ch, unfolded s1 snd_conv]
  have new: "t_task_id t \<notin> t_task_id ` set ts" and dist: "distinct (map t_task_id ts)" using Cons.prems(2) by auto
  have rest: "get_task (t_task_id u) w1 = Some u" if u: "u \<in> set ts" for u
  proof -
    have "t_task_id u \<noteq> t_task_id t" using new imageI [OF u, of t_task_id] by auto
    then show ?thesis using Cons.prems(3) [of u] u frame(1) by simp
  qed
  have "distinct (map t_task_id (w_tasks w1))" unfolding frame(4) by (rule Cons.prems(1))
  from Cons.IH [OF this dist rest, of ch1] commit_task_alone [OF t, of now S ch] frame show ?case
    by (simp add: s1)
qed simp

lemma run_frame:
  fixes now :: instant and rec :: "uuid list"
  assumes keys: "distinct (map t_task_id (w_tasks w))" and run: "get_run (r_orchestration_run_id r) w = Some r"
    and tasks: "rr_tasks rr = filter (\<lambda>t. t_orchestration_run_id t = r_orchestration_run_id r) (w_tasks w)"
    and rr: "rr_run rr = r" "rr_signals rr = signal_task_ids (r_orchestration_run_id r) w"
  shows "commit_run now (rec, w) rr = reconcile_run now (rec, w) r"
    and "map t_task_id (w_tasks (snd (reconcile_run now (rec, w) r))) = map t_task_id (w_tasks w)"
    and "w_signals (snd (reconcile_run now (rec, w) r)) = w_signals w"
    and "k \<noteq> r_orchestration_run_id r \<Longrightarrow> get_run k (snd (reconcile_run now (rec, w) r)) = get_run k w"
    and "k \<noteq> r_orchestration_run_id r \<Longrightarrow>
      filter (\<lambda>t. t_orchestration_run_id t = k) (w_tasks (snd (reconcile_run now (rec, w) r)))
       = filter (\<lambda>t. t_orchestration_run_id t = k) (w_tasks w)"
proof -
  let ?rid = "r_orchestration_run_id r"
  let ?ts = "filter (\<lambda>t. t_orchestration_run_id t = ?rid) (w_tasks w)"
  obtain ch w1 where f: "foldl (repair_step now (signal_task_ids ?rid w)) (False, w) ?ts = (ch, w1)" by fastforce
  have row: "get_task (t_task_id t) w = Some t" if "t \<in> set ?ts" for t
    unfolding get_task_def by (rule row_get_mem [OF keys]) (use that in simp)
  have dist: "distinct (map t_task_id ?ts)" by (rule distinct_map_filter [OF keys])
  note alone = commit_tasks_alone [OF keys dist row,
      where now = now and S = "signal_task_ids ?rid w" and ch = False and rid = k, unfolded f snd_conv]
  have fold: "foldl (commit_task now (rr_signals rr)) (False, w) (rr_tasks rr) = (ch, w1)"
    using alone f by (simp add: rr tasks)
  have same: "w_runs w1 = w_runs w" "w_signals w1 = w_signals w" using alone by simp_all
  have run1: "get_run ?rid w1 = Some r" using run by (simp add: get_run_def same)
  have reopen: "reopen_run r w1 = put_run (r\<lparr>r_status := R_COLLECTING\<rparr>) w1"
    by (simp add: reopen_run_def run1)
  show "commit_run now (rec, w) rr = reconcile_run now (rec, w) r"
    unfolding commit_run_def reconcile_run_def using fold [unfolded rr tasks]
    by (simp add: f rr tasks reopen Let_def)
  have snd: "snd (reconcile_run now (rec, w) r) =
    (if ch \<or> r_status r = R_TIMED_OUT
     then add_orchestration_event now ''ORCHESTRATION_RECOVERED'' (r_correlation_id r) None ?rid None None
       (Some (r_snapshot_id r)) ACCEPTED None [(''reconciled_tasks'', PyInt (int (length ?ts)))]
       (if r_status r = R_TIMED_OUT then put_run (r\<lparr>r_status := R_COLLECTING\<rparr>) w1 else w1)
     else w1)"
    by (simp add: reconcile_run_def f Let_def)
  have tasks1: "w_tasks (snd (reconcile_run now (rec, w) r)) = w_tasks w1" by (simp add: snd put_run_def)
  show "map t_task_id (w_tasks (snd (reconcile_run now (rec, w) r))) = map t_task_id (w_tasks w)"
    using alone by (simp add: tasks1)
  show "w_signals (snd (reconcile_run now (rec, w) r)) = w_signals w" by (simp add: snd put_run_def same)
  show "get_run k (snd (reconcile_run now (rec, w) r)) = get_run k w" if "k \<noteq> ?rid"
  proof -
    have "get_run k w1 = get_run k w" by (simp add: get_run_def same)
    with that get_run_put_run [of k "r\<lparr>r_status := R_COLLECTING\<rparr>" w1] show ?thesis by (simp add: snd)
  qed
  show "filter (\<lambda>t. t_orchestration_run_id t = k) (w_tasks (snd (reconcile_run now (rec, w) r)))
       = filter (\<lambda>t. t_orchestration_run_id t = k) (w_tasks w)" if "k \<noteq> ?rid"
  proof -
    have "k \<notin> t_orchestration_run_id ` set ?ts" using that by auto
    with alone show ?thesis unfolding tasks1 by blast
  qed
qed

lemma commit_alone:
  assumes "distinct (map t_task_id (w_tasks w1))" and "distinct (map r_orchestration_run_id rs)"
    and "w_signals w1 = w_signals w"
    and "\<And>r. r \<in> set rs \<Longrightarrow> get_run (r_orchestration_run_id r) w1 = Some r
      \<and> filter (\<lambda>t. t_orchestration_run_id t = r_orchestration_run_id r) (w_tasks w1)
        = filter (\<lambda>t. t_orchestration_run_id t = r_orchestration_run_id r) (w_tasks w)"
  shows "foldl (commit_run now) (rec, w1) (map (repair_of w) rs) = foldl (reconcile_run now) (rec, w1) rs"
  using assms
proof (induction rs arbitrary: rec w1)
  case (Cons r rs)
  obtain rec2 w2 where s1: "reconcile_run now (rec, w1) r = (rec2, w2)" by fastforce
  have r: "get_run (r_orchestration_run_id r) w1 = Some r"
    "rr_tasks (repair_of w r) = filter (\<lambda>t. t_orchestration_run_id t = r_orchestration_run_id r) (w_tasks w1)"
    using Cons.prems(4) by (simp_all add: repair_of_def)
  have rr: "rr_run (repair_of w r) = r" "rr_signals (repair_of w r) = signal_task_ids (r_orchestration_run_id r) w1"
    using Cons.prems(3) by (simp_all add: repair_of_def signal_task_ids_def)
  note frame = run_frame [OF Cons.prems(1) r rr, where now = now and rec = rec, unfolded s1 snd_conv]
  have later: "get_run (r_orchestration_run_id x) w2 = Some x
      \<and> filter (\<lambda>t. t_orchestration_run_id t = r_orchestration_run_id x) (w_tasks w2)
        = filter (\<lambda>t. t_orchestration_run_id t = r_orchestration_run_id x) (w_tasks w)" if x: "x \<in> set rs" for x
  proof -
    have "r_orchestration_run_id x \<noteq> r_orchestration_run_id r"
      using Cons.prems(2) imageI [OF x, of r_orchestration_run_id] by auto
    with frame(4,5) [of "r_orchestration_run_id x"] Cons.prems(4) [of x] x show ?thesis by simp
  qed
  have "distinct (map t_task_id (w_tasks w2))" unfolding frame(2) by (rule Cons.prems(1))
  moreover have "w_signals w2 = w_signals w" using frame(3) Cons.prems(3) by simp
  moreover have "distinct (map r_orchestration_run_id rs)" using Cons.prems(2) by simp
  ultimately show ?case using Cons.IH [of w2 rec2] later frame(1) by (simp add: s1)
qed simp

theorem undisturbed_recovery:
  assumes "schema_ok w"
  shows "lossless (w, []) (snd (snd (reconcile_repair n now locked w)), [])"
proof -
  let ?rs = "select_unfinished n locked w"
  let ?tx = "\<lparr>rx_now = now, rx_todo = [], rx_reads = None, rx_done = map (repair_of w) ?rs\<rparr>"
  have "race_step False (w, []) (w, begin_recovery n now locked w # [])"
    by (rule race_step.start) (simp add: locked_runs_def)
  moreover have "(race_step False)\<^sup>*\<^sup>* (w, [begin_recovery n now locked w]) (w, [?tx])"
    using read_all [of w now ?rs "[]"] by (simp add: begin_recovery_def)
  moreover have "race_step False (w, [?tx]) (snd (snd (reconcile_repair n now locked w)), [])"
  proof -
    have runs: "get_run (r_orchestration_run_id r) w = Some r" if "r \<in> set ?rs" for r
      unfolding get_run_def
      by (rule row_get_mem [OF schema_run_keys [OF assms] select_unfinished_mem(1) [OF that]])
    have c: "recovery_commit ?tx w = foldl (reconcile_run now) ([], w) ?rs"
      unfolding recovery_commit_def using commit_alone [OF schema_task_keys [OF assms] select_unfinished_distinct [OF assms] refl]
        runs by simp
    then have c': "recovery_commit ?tx w = (fst (recovery_commit ?tx w), snd (snd (reconcile_repair n now locked w)))"
      by (simp add: reconcile_repair_def split_beta Let_def)
    have row: "get_task (t_task_id t) w = Some t" if "t \<in> set (w_tasks w)" for t
      unfolding get_task_def by (rule row_get_mem [OF schema_task_keys [OF assms] that])
    have "\<not> loses_update ?tx w"
      using row by (auto simp: loses_update_def repair_of_def split: option.splits)
    with race_step.commit [of ?tx w, OF _ c', of "[]" "[]"] show ?thesis by simp
  qed
  ultimately show ?thesis unfolding lossless_def by (meson converse_rtranclp_into_rtranclp rtranclp.rtrancl_into_rtrancl)
qed

section \<open>A race\<close>

text \<open>
  A lease that ran out while its worker was still waiting for the agent: a recovery reads the task
  before the worker records that the agent refused it, and commits afterwards.
\<close>

definition race_task :: agent_task where
  "race_task = sample_task\<lparr>t_status := DISPATCHING, t_attempt_count := 1, t_lease_owner := Some ''w'',
     t_lease_until := Some (seconds 10)\<rparr>"

definition race_world :: world where
  "race_world = running_world\<lparr>w_tasks := [race_task]\<rparr>"

definition race_tx :: recovery_tx where
  "race_tx = \<lparr>rx_now = seconds 20, rx_todo = [], rx_reads = None,
     rx_done = [\<lparr>rr_run = sample_run, rr_tasks = [race_task], rr_signals = {}\<rparr>]\<rparr>"

definition refused_world :: world where
  "refused_world = record_result (sample_worker ''w'') (seconds 21) 0 sample_task_command
     (permanent ''AGENT_REJECTED'' None) race_world"

lemma race_rows:
  "get_task 800 race_world = Some race_task" "get_state ''ETH_TECH'' race_world = Some sample_state"
  "get_run 700 race_world = Some sample_run" "owns (sample_worker ''w'') race_task"
  "w_tasks race_world = [race_task]" "w_signals race_world = []"
  by (simp_all add: race_world_def running_world_def sample_worlds world_defs owns_def)
    (simp_all add: race_task_def sample_rows sample_worker_def)

lemma race_system: "system_ok race_world"
  by (simp add: system_ok_def signals_assigned_def schema_ok_def keys_ok_def refs_ok_def checks_ok_def
      race_world_def running_world_def sample_worlds sample_rows race_task_def task_checks_def run_checks_def
      state_checks_def)

lemma race_selected: "select_unfinished 500 [] race_world = [sample_run]"
proof -
  have "w_runs race_world = [sample_run]" by (simp add: race_world_def running_world_def sample_worlds)
  moreover have "unfinished_run sample_run" by (simp add: unfinished_run_def sample_run_def)
  ultimately show ?thesis by (simp add: select_unfinished_def)
qed

lemma race_reads: "lossless (race_world, []) (race_world, [race_tx])"
proof -
  have "race_step False (race_world, []) (race_world, [begin_recovery 500 (seconds 20) [] race_world])"
    by (rule race_step.start) (simp add: locked_runs_def)
  moreover have "repair_of race_world sample_run = \<lparr>rr_run = sample_run, rr_tasks = [race_task], rr_signals = {}\<rparr>"
    by (simp add: repair_of_def race_rows signal_task_ids_def) (simp add: race_task_def sample_rows)
  then have "(race_step False)\<^sup>*\<^sup>* (race_world, [begin_recovery 500 (seconds 20) [] race_world]) (race_world, [race_tx])"
    using read_all [of race_world "seconds 20" "[sample_run]" "[]"]
    by (simp add: begin_recovery_def race_selected race_tx_def)
  ultimately show ?thesis unfolding lossless_def by (rule converse_rtranclp_into_rtranclp)
qed

lemma refused_rows:
  "\<exists>t. get_task 800 refused_world = Some t \<and> t_status t = FAILED \<and> same_identity race_task t"
  "w_runs refused_world = w_runs race_world" "w_signals refused_world = []"
proof -
  let ?r = "permanent ''AGENT_REJECTED'' None"
  have ids: "get_task (cm_task_id sample_task_command) race_world = Some race_task"
    "get_state (cm_agent_id sample_task_command) race_world = Some sample_state"
    "get_run (cm_orchestration_run_id sample_task_command) race_world = Some sample_run"
    by (simp_all add: race_rows)
  have r: "dr_disposition ?r = D_PERMANENT" "\<not> can_retry (sample_worker ''w'') (seconds 21) ?r race_task"
    by (simp_all add: permanent_def can_retry_def)
  from record_result_tables [OF ids race_rows(4), of "seconds 21" 0 ?r] r obtain t' where
    tabs: "w_tasks refused_world = w_tasks (put_task t' race_world)" "w_signals refused_world = w_signals race_world"
      "w_runs refused_world = w_runs race_world"
    and t': "t' = (released (seconds 21) race_task)\<lparr>t_status := FAILED, t_last_error_code := dr_error_code ?r\<rparr>"
    unfolding refused_world_def by auto
  have "t_task_id t' = 800" "same_identity race_task t'" "t_status t' = FAILED"
    by (simp_all add: t' released_def same_identity_def race_task_def sample_task_def)
  moreover have "get_task 800 refused_world = get_task 800 (put_task t' race_world)"
    by (simp add: get_task_def tabs(1))
  ultimately show "\<exists>t. get_task 800 refused_world = Some t \<and> t_status t = FAILED \<and> same_identity race_task t"
    using get_task_put_task [of 800 t' race_world] by (simp add: race_rows)
  show "w_runs refused_world = w_runs race_world" "w_signals refused_world = []" using tabs by (simp_all add: race_rows)
qed

lemma race_refused: "lossless (race_world, []) (refused_world, [race_tx])"
proof -
  have "system_step race_world refused_world" unfolding refused_world_def by (rule system_step.result)
  moreover have "respects_locks (locked_runs [race_tx]) race_world refused_world"
    using refused_rows(2,3) by (simp add: respects_locks_def get_run_def)
  ultimately have "race_step False (race_world, [race_tx]) (refused_world, [race_tx])" by (rule race_step.other)
  with race_reads show ?thesis unfolding lossless_def by (rule rtranclp.rtrancl_into_rtrancl)
qed

definition requeued_task :: agent_task where
  "requeued_task = race_task\<lparr>t_status := RETRY, t_dispatch_after := seconds 20, t_lease_owner := None,
     t_lease_until := None, t_last_error_code := Some ''WORKER_LEASE_EXPIRED'', t_updated_at := seconds 20\<rparr>"

lemma race_repair: "repair_task (rx_now race_tx) False race_task = Some requeued_task"
  by (simp add: repair_task_def requeued_task_def race_task_def race_tx_def sample_task_def)

lemma race_tx_simps:
  "rx_todo race_tx = []" "rx_done race_tx = [\<lparr>rr_run = sample_run, rr_tasks = [race_task], rr_signals = {}\<rparr>]"
  by (simp_all add: race_tx_def)

text \<open>Recovery revives a finished task: when the worker's refusal is committed between the read and the
  commit, a task that was FAILED is RETRY again, and will be dispatched once more.\<close>

theorem recovery_revives_task:
  "\<exists>w' t t'. lossless (race_world, []) (refused_world, [race_tx])
     \<and> get_task 800 refused_world = Some t \<and> t_status t = FAILED
     \<and> race_step True (refused_world, [race_tx]) (w', []) \<and> get_task 800 w' = Some t' \<and> t_status t' = RETRY"
proof -
  obtain t where t: "get_task 800 refused_world = Some t" "t_status t = FAILED" "same_identity race_task t"
    using refused_rows(1) by blast
  let ?w' = "snd (recovery_commit race_tx refused_world)"
  have id: "t_task_id race_task = 800" "t_status race_task = DISPATCHING" "t_status requeued_task = RETRY"
    by (simp_all add: requeued_task_def race_task_def sample_task_def)
  have lost: "loses_update race_tx refused_world"
    using t by (simp add: loses_update_def race_tx_simps race_repair id)
  have status: "t_status (flush_row race_task requeued_task t) = RETRY" "t_task_id (flush_row race_task requeued_task t) = 800"
    using get_task_SomeD [OF t(1)] by (simp_all add: flush_row_simps flushed_def id)
  have run: "r_status sample_run = R_DISPATCHING" by (simp add: sample_run_def)
  have "get_task 800 ?w' = get_task 800 (put_task (flush_row race_task requeued_task t) refused_world)"
    by (simp add: recovery_commit_def race_tx_simps commit_run_def commit_task_def race_repair flush_task_def id t run Let_def)
  then have "get_task 800 ?w' = Some (flush_row race_task requeued_task t)"
    using get_task_put_task [of 800 "flush_row race_task requeued_task t" refused_world] t(1) status(2) by simp
  moreover have "race_step True (refused_world, [race_tx]) (?w', [])"
    using race_step.commit [of race_tx refused_world "fst (recovery_commit race_tx refused_world)" ?w' "[]" "[]"] lost
    by (simp add: race_tx_simps)
  ultimately show ?thesis using race_refused t status(1) by blast
qed

section \<open>Properties of interleavings\<close>

text \<open>The executions of \<open>System\<close> are the interleavings without an open recovery.\<close>

lemma execution_interleaving: "execution w w' \<Longrightarrow> lossless (w, []) (w', [])"
proof (induction rule: rtranclp_induct)
  case (step w1 w2)
  have "race_step False (w1, []) (w2, [])"
    by (rule race_step.other [OF step(2)]) (simp add: respects_locks_def locked_runs_def)
  with step(3) show ?case unfolding lossless_def by (rule rtranclp.rtrancl_into_rtrancl)
qed (simp add: lossless_def)

text \<open>C1 The invariant of the system: from a database that satisfies the schema and whose signals
  are assigned (in particular one without runs and signals), every interleaving of planners,
  dispatch workers, hub requests, health probes, registry synchronisations, notification workers and
  recoveries, the recoveries' unlocked reads and later writes included, reaches only databases where
  every constraint of \<open>schema_ok\<close> holds (the declared keys, foreign keys and CHECKs but for the primary
  keys of audit events and nonces, whose values are drawn by \<open>uuid4\<close>), and where a signal that names a
  task has completed that task and was sent by the agent the task is assigned to, for its run,
  snapshot and asset.  Recovery cannot undo the completion, since no signal of a run can be stored
  while its row is locked.\<close>

theorem interleaving_invariant:
  assumes "interleaving (w, []) (w', txs)" and "schema_ok w" and "signals_assigned w"
  shows "schema_ok w' \<and> signals_assigned w'"
  using interleaving_ok [OF assms(1)] assms(2,3) by (simp add: race_ok_start) (simp add: race_ok_def system_ok_def)

theorem interleaving_invariant_witness: "schema_ok refused_world \<and> signals_assigned refused_world"
  using interleaving_invariant [OF lossless_interleaving [OF race_refused]] race_system
  by (simp add: system_ok_def)

text \<open>C3 Nothing is forgotten: along every interleaving the stored signals and nonces stay, every task
  keeps its identity, its attempts never decrease, and a task whose signal is stored stays
  SIGNAL_RECEIVED.  Along an interleaving in which no recovery loses an update (\<open>loses_update\<close>) the
  status also moves along the edges of the state machine, and a task that is SIGNAL_RECEIVED,
  TIMED_OUT, FAILED, CANCELLED or SKIPPED stays so; the code allows the other interleavings
  (\<open>recovery_revives_task\<close>).\<close>

theorem interleaving_monotone:
  assumes "interleaving (w, []) (w', txs)" and "schema_ok w" and "signals_assigned w" and "get_task k w = Some t"
  shows "set (w_signals w) \<subseteq> set (w_signals w') \<and> set (w_nonces w) \<subseteq> set (w_nonces w')
     \<and> (\<exists>t'. get_task k w' = Some t' \<and> same_identity t t' \<and> t_attempt_count t \<le> t_attempt_count t'
          \<and> (answered k w \<longrightarrow> t_status t' = SIGNAL_RECEIVED)
          \<and> (lossless (w, []) (w', txs) \<longrightarrow>
               task_path (t_status t) (t_status t') \<and> (terminal (t_status t) \<longrightarrow> t_status t' = t_status t)))"
proof -
  have ok: "race_ok (w, [])" using assms(2,3) by (simp add: race_ok_start system_ok_def)
  have kept: "rows_kept w w'" and sys: "system_ok w'"
    using interleaving_ok [OF assms(1) ok] by (simp_all add: race_ok_def)
  obtain t' where t': "get_task k w' = Some t'" "task_kept t t'" by (rule rows_keptD [OF kept assms(4)])
  have "t_status t' = SIGNAL_RECEIVED" if a: "answered k w"
  proof -
    from a kept have "answered k w'" by (auto simp: answered_def rows_kept_def)
    moreover have "signals_complete w'" using sys signals_assigned_complete by (simp add: system_ok_def)
    ultimately show ?thesis using t'(1) by (auto simp: answered_def signals_complete_def)
  qed
  moreover have "task_path (t_status t) (t_status t') \<and> (terminal (t_status t) \<longrightarrow> t_status t' = t_status t)"
    if l: "lossless (w, []) (w', txs)"
  proof -
    have "grows w w'" using lossless_ok [OF l ok] by simp
    then obtain u where "get_task k w' = Some u" "task_evolves t u" by (rule growsD [OF _ assms(4)])
    with t'(1) task_evolves_terminal [of t u] show ?thesis by (simp add: task_evolves_def)
  qed
  ultimately show ?thesis using t' kept by (simp add: rows_kept_def task_kept_def)
qed

theorem interleaving_monotone_witness:
  "\<exists>t'. get_task 800 refused_world = Some t' \<and> same_identity race_task t' \<and> task_path DISPATCHING (t_status t')"
proof -
  have "t_status race_task = DISPATCHING" by (simp add: race_task_def)
  with interleaving_monotone [OF lossless_interleaving [OF race_refused] _ _ race_rows(1)] race_system race_refused
  show ?thesis unfolding system_ok_def by auto
qed

text \<open>The protection against replay (\<open>accepted_once\<close>) holds along interleavings as well.\<close>

theorem accepted_once_interleaved:
  assumes "interleaving (w0, []) (w, txs)" and "system_ok w0"
    and "ingest_signal cfg get_secret parse db_up audit_up an inow rnow q w = (Accepted202 rq m, w1)"
    and "respects_locks (locked_runs txs) w w1" and "interleaving (w1, txs) (w2, txs2)"
    and "fst (ingest_signal cfg2 get_secret2 parse2 db_up2 audit_up2 an2 inow2 rnow2 q2 w2) = Accepted202 rq2 n"
  shows "n \<noteq> m \<and> \<not> (hq_agent_id q2 = hq_agent_id q \<and> hq_nonce q2 = hq_nonce q)"
proof -
  have ok: "race_ok (w, txs)" using interleaving_ok [OF assms(1)] assms(2) by (simp add: race_ok_start)
  have "race_step False (w, txs) (w1, txs)"
    by (rule race_step.other [OF system_step.request [OF assms(3)] assms(4)])
  from race_step_ok [OF this ok] have "race_ok (w1, txs)" by simp
  from interleaving_ok [OF assms(5) this] have "rows_kept w1 w2" by simp
  then have "set (w_nonces w1) \<subseteq> set (w_nonces w2)" "set (w_signals w1) \<subseteq> set (w_signals w2)"
    by (simp_all add: rows_kept_def)
  from accepted_not_again [OF assms(3) this assms(6)] show ?thesis .
qed

end
