(* ===== verification/Processes.thy ===== *)
theory Processes
  imports Reported_Quorum Hub_Config
begin

text \<open>
  The processes that drive the orchestrator: the endless loop of the worker (\<open>OrchestratorWorkerLoop.run\<close>
  of \<open>src/tomiris_orchestrator/worker.py\<close>) and the command that runs one test orchestration and waits for
  its result (\<open>scripts/run_test_orchestration.py\<close>).  A loop is run over the list of its rounds; a list that
  ends before the loop does is a loop still running.  Between two rounds other processes act, as a function
  on the database.
\<close>

section \<open>The worker\<close>

text \<open>A round is entered when the stop event is not set; after a round that claimed nothing the
  loop sleeps, which the list of claims shows.\<close>

record worker_round =
  wr_other :: "world \<Rightarrow> world"
  wr_cycle :: cycle_readings

fun worker_rounds ::
    "dispatch_worker \<Rightarrow> nat \<Rightarrow> (dispatch_command \<Rightarrow> int \<Rightarrow> client_error + dispatch_result) \<Rightarrow> worker_round list \<Rightarrow>
     nat list \<Rightarrow> world \<Rightarrow> (cycle_error + nat list) \<times> world" where
  "worker_rounds dw batch_size send [] claims w = (Inr claims, w)"
| "worker_rounds dw batch_size send (r # rs) claims w =
     (case worker_iteration dw batch_size send (wr_cycle r) (wr_other r w) of
        (Inl e, w) \<Rightarrow> (Inl e, w)
      | (Inr claimed, w) \<Rightarrow> worker_rounds dw batch_size send rs (claims @ [claimed]) w)"

definition worker_run ::
    "dispatch_worker \<Rightarrow> nat \<Rightarrow> (dispatch_command \<Rightarrow> int \<Rightarrow> client_error + dispatch_result) \<Rightarrow> instant \<Rightarrow>
     uuid list \<Rightarrow> (nat \<Rightarrow> instant) \<Rightarrow> worker_round list \<Rightarrow> world \<Rightarrow> (cycle_error + nat list) \<times> world" where
  "worker_run dw batch_size send now locked clock rounds w =
     (case reconcile batch_size now locked clock w of
        (Inl e, w) \<Rightarrow> (Inl (EvaluateRaised e), w)
      | (Inr _, w) \<Rightarrow> worker_rounds dw batch_size send rounds [] w)"

section \<open>The test run\<close>

definition test_snapshot :: "uuid \<Rightarrow> instant \<Rightarrow> market_snapshot" where
  "test_snapshot snapshot_id now =
     \<lparr>sn_snapshot_id = snapshot_id, sn_created_at = now, sn_expires_at = now + seconds 600, sn_status = S_OPEN,
      sn_context_version = ''phase-02-manual-test'',
      sn_metadata = PyMap [(PyStr ''created_by'', PyStr ''run_test_orchestration.py'')]\<rparr>"

definition test_policy :: "hub_configuration \<Rightarrow> string \<Rightarrow> nat \<Rightarrow> orchestration_policy" where
  "test_policy s capability agents =
     \<lparr>po_policy_version = ''phase-02-manual-test'',
      po_requirements =
        [\<lparr>rq_capability = capability, rq_required = True, rq_critical = False, rq_minimum_responses = agents,
          rq_max_agents = Some agents\<rparr>],
      po_collection_timeout_seconds = cf_signal_timeout_seconds s,
      po_dispatch_timeout_seconds = max 1 \<lfloor>float_value (cf_ack_timeout_seconds s)\<rfloor>,
      po_signal_timeout_seconds = cf_signal_timeout_seconds s\<rparr>"

datatype test_error =
    SnapshotExists | MasterSecretRequired | PolicyInvalid | PlanRefused plan_error
  | EvaluationFailed quorum_error | CycleFailed cycle_error

record test_start =
  ts_snapshot_id :: uuid
  ts_snapshot_now :: instant
  ts_before_plan :: "world \<Rightarrow> world"
  ts_plan_now :: instant
  ts_before_evaluate :: "world \<Rightarrow> world"
  ts_evaluate_now :: instant

text \<open>The snapshot is committed before the service and the policy are built, so it stays when those raise.\<close>

definition start_test_run ::
    "(string \<Rightarrow> 'o :: linorder) \<Rightarrow> hub_configuration \<Rightarrow> test_start \<Rightarrow> string \<Rightarrow> string \<Rightarrow> nat \<Rightarrow> world \<Rightarrow>
     (test_error + orchestration_plan) \<times> world" where
  "start_test_run collate s st asset capability agents w =
     (case add_snapshot (test_snapshot (ts_snapshot_id st) (ts_snapshot_now st)) w of
        None \<Rightarrow> (Inl SnapshotExists, w)
      | Some w \<Rightarrow>
          let w = ts_before_plan st w;
              policy = test_policy s capability agents
          in if command_secret_provider s = None then (Inl MasterSecretRequired, w)
             else if \<not> valid_policy policy then (Inl PolicyInvalid, w)
             else (case create_test_run collate (ts_plan_now st) (ts_snapshot_id st) asset policy
                     (Some (PyMap [(PyStr ''test_only'', PyBool True)])) w of
                     Inl e \<Rightarrow> (Inl (PlanRefused e), w)
                   | Inr (plan, w) \<Rightarrow> (Inr plan, w)))"

text \<open>The \<open>while not result.completed\<close> loop; \<open>None\<close> is the loop still running after the given rounds.\<close>

fun test_rounds ::
    "dispatch_worker \<Rightarrow> (dispatch_command \<Rightarrow> int \<Rightarrow> client_error + dispatch_result) \<Rightarrow> uuid \<Rightarrow> worker_round list \<Rightarrow>
     completeness_result \<Rightarrow> world \<Rightarrow> (test_error + completeness_result) option \<times> world" where
  "test_rounds dw send run_id [] res w = (if cr_completed res then Some (Inr res) else None, w)"
| "test_rounds dw send run_id (r # rs) res w =
     (if cr_completed res then (Some (Inr res), w)
      else case cycle dw 500 send (wr_cycle r) run_id (wr_other r w) of
             (Inl e, w) \<Rightarrow> (Some (Inl (CycleFailed e)), w)
           | (Inr res, w) \<Rightarrow> test_rounds dw send run_id rs res w)"

definition run_test ::
    "(string \<Rightarrow> 'o :: linorder) \<Rightarrow> hub_configuration \<Rightarrow>
     (dispatch_command \<Rightarrow> int \<Rightarrow> client_error + dispatch_result) \<Rightarrow> test_start \<Rightarrow> worker_round list \<Rightarrow>
     string \<Rightarrow> string \<Rightarrow> nat \<Rightarrow> world \<Rightarrow> (test_error + uuid \<times> completeness_result) option \<times> world" where
  "run_test collate s send st rounds asset capability agents w =
     (case start_test_run collate s st asset capability agents w of
        (Inl e, w) \<Rightarrow> (Some (Inl e), w)
      | (Inr plan, w) \<Rightarrow>
          let run_id = pl_orchestration_run_id plan; w = ts_before_evaluate st w
          in case evaluate (ts_evaluate_now st) run_id w of
               Inl e \<Rightarrow> (Some (Inl (EvaluationFailed e)), w)
             | Inr (res, w) \<Rightarrow>
                 let (out, w) = test_rounds (service_worker s) send run_id rounds res w
                 in (map_option (map_sum id (Pair run_id)) out, w))"

text \<open>The exit code of the process: 0 or 2 from the status, 1 from an uncaught exception, and the 2 of
  \<open>parser.error\<close> for a number of agents outside 1 to 500.\<close>

definition test_exit :: "test_error + uuid \<times> completeness_result \<Rightarrow> int" where
  "test_exit out =
     (case out of
        Inl _ \<Rightarrow> 1
      | Inr (_, res) \<Rightarrow> if cr_status res \<in> {R_FULL, R_DEGRADED} then 0 else 2)"

definition agents_argument :: "int \<Rightarrow> nat option" where
  "agents_argument n = (if n < 1 \<or> n > 500 then None else Some (nat n))"

definition test_main ::
    "(string \<Rightarrow> 'o :: linorder) \<Rightarrow> hub_configuration \<Rightarrow>
     (dispatch_command \<Rightarrow> int \<Rightarrow> client_error + dispatch_result) \<Rightarrow> test_start \<Rightarrow> worker_round list \<Rightarrow>
     string \<Rightarrow> string \<Rightarrow> int \<Rightarrow> world \<Rightarrow> int option \<times> world" where
  "test_main collate s send st rounds asset capability agents w =
     (case agents_argument agents of
        None \<Rightarrow> (Some 2, w)
      | Some n \<Rightarrow>
          let (out, w) = run_test collate s send st rounds (upper asset) capability n w
          in (map_option test_exit out, w))"

section \<open>Every process is an execution\<close>

lemma evaluate_execution: "evaluate now rid w = Inr (res, w') \<Longrightarrow> execution w w'"
  by (rule r_into_rtranclp) (rule system_step.decide)

lemma evaluate_all_execution: "execution w (snd (evaluate_all clock i ks w))"
proof (induction ks arbitrary: i w)
  case (Cons k ks)
  show ?case
  proof (cases "evaluate (clock i) k w")
    case (Inr a)
    obtain res w1 where a: "a = (res, w1)" by fastforce
    have "execution w w1" using Inr unfolding a by (rule evaluate_execution)
    with Cons [of w1 "Suc i"] show ?thesis using Inr a by (simp add: rtranclp_trans)
  qed simp
qed simp

lemma reconcile_execution: "execution w (snd (reconcile n now locked clock w))"
proof -
  obtain ids rec w1 where rep: "reconcile_repair n now locked w = (ids, rec, w1)" by (metis prod_cases3)
  have "execution w w1" by (rule r_into_rtranclp) (rule system_step.repair [OF rep])
  then have "execution w (snd (evaluate_all clock 0 ids w1))" by (rule rtranclp_trans) (rule evaluate_all_execution)
  then show ?thesis by (simp add: reconcile_def rep split_beta)
qed

lemma dispatch_commands_execution: "execution w (snd (dispatch_commands dw readings send i cs w))"
proof (induction cs arbitrary: i w)
  case (Cons c cs)
  have "execution w (record_result dw now rnd c r w)" for now rnd r
    by (rule r_into_rtranclp) (rule system_step.result)
  from rtranclp_trans [OF this Cons] show ?case by (simp split: prod.split sum.split)
qed simp

lemma dispatch_once_execution: "execution w (snd (dispatch_once dw now locked readings send w))"
proof -
  obtain cs w1 where cl: "claim dw now locked w = (cs, w1)" by fastforce
  have "execution w w1" by (rule r_into_rtranclp) (rule system_step.claim [OF cl])
  then have "execution w (snd (dispatch_commands dw readings send 0 cs w1))"
    by (rule rtranclp_trans) (rule dispatch_commands_execution)
  then show ?thesis by (simp add: dispatch_once_def cl split_beta)
qed

lemma iteration_execution: "execution w (snd (worker_iteration dw n send cy w))"
proof -
  obtain k w1 where ex: "expire_dispatch_deadlines (cy_expire cy) (cy_locked_tasks cy) w = (k, w1)" by fastforce
  obtain out w2 where dis: "dispatch_once dw (cy_claim cy) (cy_locked_tasks cy) (cy_dispatch cy) send w1 = (out, w2)"
    by fastforce
  have "execution w w1" by (rule r_into_rtranclp) (rule system_step.expire [OF ex])
  moreover have "execution w1 w2" using dispatch_once_execution [of w1] dis by (metis snd_conv)
  ultimately have w2: "execution w w2" by (rule rtranclp_trans)
  show ?thesis
  proof (cases out)
    case (Inr m)
    have "execution w (snd (reconcile n (cy_reconcile cy) (cy_locked_runs cy) (cy_evaluate cy) w2))"
      using w2 by (rule rtranclp_trans) (rule reconcile_execution)
    then show ?thesis using Inr by (simp add: worker_iteration_def ex dis split_beta)
  qed (use w2 in \<open>simp add: worker_iteration_def ex dis\<close>)
qed

lemma cycle_execution: "execution w (snd (cycle dw n send cy rid w))"
proof -
  obtain out w1 where it: "worker_iteration dw n send cy w = (out, w1)" by fastforce
  have w1: "execution w w1" using iteration_execution [of w] it by (metis snd_conv)
  moreover have "execution w w2" if "evaluate (cy_final cy) rid w1 = Inr (res, w2)" for res w2
    using w1 evaluate_execution [OF that] by (rule rtranclp_trans)
  ultimately show ?thesis by (auto simp: cycle_def it split: sum.split)
qed

section \<open>What a cycle answers\<close>

lemma execution_sound_ok:
  assumes "execution w w'" "system_ok w" "decisions_sound w"
  shows "system_ok w'" "decisions_sound w'"
  using execution_sound [OF assms] by simp_all

lemma evaluate_answers:
  assumes "evaluate now rid w = Inr (res, w')" and "get_run rid w = Some run" and "decisions_sound w"
  shows "\<exists>run'. get_run rid w' = Some run' \<and> cr_status res = r_status run'"
    and "r_collection_deadline run \<le> now \<Longrightarrow> cr_completed res"
proof -
  have id: "r_orchestration_run_id run = rid" "run \<in> set (w_runs w)" using get_run_SomeD [OF assms(2)] by auto
  have "(\<exists>run'. get_run rid w' = Some run' \<and> cr_status res = r_status run')
    \<and> (r_collection_deadline run \<le> now \<longrightarrow> cr_completed res)"
    using assms(1)
  proof (cases rule: evaluate_inv)
    case (decided run')
    then have "r_completed_at run \<noteq> None"
      using assms(2,3) id(2) by (simp add: decisions_sound_def decision_sound_def)
    then show ?thesis using decided assms(2) by (simp add: result_from_run_def)
  next
    case (pending run')
    then show ?thesis using assms(2) by (auto simp: run_decision_def over_def Let_def split: if_splits)
  next
    case (closed run' s)
    then have "get_run rid w' = Some (completed_run now s run')"
      using assms(2) id by (auto simp: get_run_def row_get_put)
    then show ?thesis using closed by simp
  qed
  then show "\<exists>run'. get_run rid w' = Some run' \<and> cr_status res = r_status run'"
    and "r_collection_deadline run \<le> now \<Longrightarrow> cr_completed res" by blast+
qed

lemma iteration_raises:
  assumes "worker_iteration dw n send cy w = (Inl e, w')" and "system_ok w"
  shows "\<exists>c. e = DispatchRaised c"
proof -
  obtain k w1 where ex: "expire_dispatch_deadlines (cy_expire cy) (cy_locked_tasks cy) w = (k, w1)" by fastforce
  obtain out w2 where dis: "dispatch_once dw (cy_claim cy) (cy_locked_tasks cy) (cy_dispatch cy) send w1 = (out, w2)"
    by fastforce
  show ?thesis
  proof (cases out)
    case (Inl c)
    then show ?thesis using assms(1) by (auto simp: worker_iteration_def ex dis)
  next
    case (Inr m)
    have "execution w w1" by (rule r_into_rtranclp) (rule system_step.expire [OF ex])
    moreover have "execution w1 w2" using dispatch_once_execution [of w1] dis by (metis snd_conv)
    ultimately have "system_ok w2" using execution_ok assms(2) by (metis rtranclp_trans)
    then have ok: "schema_ok w2" "signals_complete w2" using signals_assigned_complete by (simp_all add: system_ok_def)
    obtain rec w3 where "reconcile n (cy_reconcile cy) (cy_locked_runs cy) (cy_evaluate cy) w2 = (Inr rec, w3)"
      by (rule reconcile_facts [OF ok])
    then show ?thesis using assms(1) Inr by (simp add: worker_iteration_def ex dis)
  qed
qed

lemma cycle_answers:
  assumes "cycle dw n send cy rid w = (out, w')" and "system_ok w" "decisions_sound w" "get_run rid w = Some run"
  shows "out = Inl e \<Longrightarrow> \<exists>c. e = DispatchRaised c"
    and "out = Inr res \<Longrightarrow> \<exists>run'. get_run rid w' = Some run' \<and> cr_status res = r_status run'"
    and "out = Inr res \<Longrightarrow> r_collection_deadline run \<le> cy_final cy \<Longrightarrow> cr_completed res"
proof -
  obtain it w1 where it: "worker_iteration dw n send cy w = (it, w1)" by fastforce
  have ex: "execution w w1" using iteration_execution [of w] it by (metis snd_conv)
  note ok = execution_sound_ok [OF ex assms(2,3)]
  obtain run1 where run1: "get_run rid w1 = Some run1" "run_kept run run1"
    using execution_run [OF ex assms(2,4)] by blast
  obtain res1 w2 where ev: "evaluate (cy_final cy) rid w1 = Inr (res1, w2)" using evaluate_total [OF run1(1)] by blast
  note ans = evaluate_answers [OF ev run1(1) ok(2)]
  have out: "(out, w') = (case it of Inl e \<Rightarrow> (Inl e, w1) | Inr m \<Rightarrow> (Inr res1, w2))"
    using assms(1) by (simp add: cycle_def it ev split: sum.splits)
  show "out = Inl e \<Longrightarrow> \<exists>c. e = DispatchRaised c"
    using out iteration_raises [OF _ assms(2)] it by (auto split: sum.splits)
  show "out = Inr res \<Longrightarrow> \<exists>run'. get_run rid w' = Some run' \<and> cr_status res = r_status run'"
    using out ans(1) by (auto split: sum.splits)
  show "out = Inr res \<Longrightarrow> r_collection_deadline run \<le> cy_final cy \<Longrightarrow> cr_completed res"
    using out ans(2) run_kept_same [OF run1(2)] by (auto split: sum.splits)
qed

section \<open>The rounds of the test run\<close>

lemma test_rounds_facts:
  assumes "test_rounds dw send rid rs res w = (out, w')" and "\<And>r w. r \<in> set rs \<Longrightarrow> execution w (wr_other r w)"
    and "system_ok w" "decisions_sound w" "get_run rid w = Some run"
    and "\<exists>run'. get_run rid w = Some run' \<and> cr_status res = r_status run'"
  shows "execution w w'
    \<and> (out = None \<longrightarrow> (\<forall>r \<in> set rs. cy_final (wr_cycle r) < r_collection_deadline run))
    \<and> (\<forall>e. out = Some (Inl e) \<longrightarrow> (\<exists>c. e = CycleFailed (DispatchRaised c)))
    \<and> (\<forall>res'. out = Some (Inr res') \<longrightarrow> (\<exists>run'. get_run rid w' = Some run' \<and> cr_status res' = r_status run'))"
  using assms
proof (induction rs arbitrary: res w run)
  case (Cons r rs)
  show ?case
  proof (cases "cr_completed res")
    case True
    then show ?thesis using Cons.prems(1,6) by auto
  next
    case False
    let ?w = "wr_other r w"
    have oth: "execution w ?w" using Cons.prems(2) by simp
    note ok = execution_sound_ok [OF oth Cons.prems(3,4)]
    obtain run1 where run1: "get_run rid ?w = Some run1" "run_kept run run1"
      using execution_run [OF oth Cons.prems(3,5)] by blast
    obtain cout w1 where cy: "cycle dw 500 send (wr_cycle r) rid ?w = (cout, w1)" by fastforce
    have ex1: "execution w w1"
      using rtranclp_trans [OF oth cycle_execution [of ?w dw 500 send "wr_cycle r" rid]] cy by simp
    note ans = cycle_answers [OF cy ok run1(1)]
    show ?thesis
    proof (cases cout)
      case (Inl e)
      then show ?thesis using Cons.prems(1) False cy ex1 ans(1) [OF Inl] by auto
    next
      case (Inr res1)
      then have rest: "test_rounds dw send rid rs res1 w1 = (out, w')" using Cons.prems(1) False cy by simp
      note ok1 = execution_sound_ok [OF ex1 Cons.prems(3,4)]
      obtain run2 where run2: "get_run rid w1 = Some run2" "run_kept run run2"
        using execution_run [OF ex1 Cons.prems(3,5)] by blast
      have oth': "\<And>r w. r \<in> set rs \<Longrightarrow> execution w (wr_other r w)" using Cons.prems(2) by simp
      from Cons.IH [OF rest oth' ok1 run2(1) ans(2) [OF Inr]] have
        ih: "execution w1 w'" "out = None \<longrightarrow> (\<forall>r \<in> set rs. cy_final (wr_cycle r) < r_collection_deadline run2)"
          "\<forall>e. out = Some (Inl e) \<longrightarrow> (\<exists>c. e = CycleFailed (DispatchRaised c))"
          "\<forall>res'. out = Some (Inr res') \<longrightarrow> (\<exists>run'. get_run rid w' = Some run' \<and> cr_status res' = r_status run')"
        by blast+
      have "cy_final (wr_cycle r) < r_collection_deadline run" if "out = None"
      proof (rule ccontr)
        assume "\<not> cy_final (wr_cycle r) < r_collection_deadline run"
        then have "cr_completed res1" using ans(3) [OF Inr] run_kept_same [OF run1(2)] by simp
        then show False using rest that by (cases rs) auto
      qed
      then show ?thesis using rtranclp_trans [OF ex1 ih(1)] ih(2-4) run_kept_same [OF run2(2)] by simp
    qed
  qed
qed (auto split: if_splits)

section \<open>Starting the test run\<close>

definition fresh_ids :: "world \<Rightarrow> bool" where
  "fresh_ids w \<longleftrightarrow> fresh_supply w \<and> get_run (w_uuid_src w (w_uuid_pos w)) w = None"

lemma create_plan_fresh:
  assumes "create_plan collate now sid asset trig policy ctx None corr caus w = Inr (pl, w')"
    and "get_run (w_uuid_src w (w_uuid_pos w)) w = None"
  shows "get_run (pl_orchestration_run_id pl) w = None"
proof -
  obtain c w2 where c: "opt_uuid corr (w\<lparr>w_uuid_pos := Suc (w_uuid_pos w)\<rparr>) = (c, w2)" by fastforce
  from opt_uuid_world [OF c] have runs: "get_run k w2 = get_run k w" for k by (auto simp: get_run_def)
  show ?thesis
    using assms
    by (auto simp: create_plan_def opt_uuid_def [of None] uuid4_def c runs guard_def write_plan_def Let_def
        split: sum.splits option.splits if_splits prod.splits)
qed

lemma start_test_run_refused:
  assumes "start_test_run collate s st asset capability agents w = (Inl e, w')"
    and "\<And>w. execution w (ts_before_plan st w)"
  shows "execution w w'"
proof (cases "add_snapshot (test_snapshot (ts_snapshot_id st) (ts_snapshot_now st)) w")
  case None
  then show ?thesis using assms(1) by (simp add: start_test_run_def)
next
  case (Some w1)
  then have "w' = ts_before_plan st w1"
    using assms(1) by (auto simp: start_test_run_def Let_def split: if_splits sum.splits)
  then show ?thesis using converse_rtranclp_into_rtranclp [OF system_step.snapshot [OF Some] assms(2)] by simp
qed

lemma start_test_run_facts:
  fixes collate :: "string \<Rightarrow> rat"
  assumes "start_test_run collate s st asset capability agents w = (Inr pl, w')"
    and "\<And>w. execution w (ts_before_plan st w)" and "system_ok w" "decisions_sound w"
    and "\<And>w1. add_snapshot (test_snapshot (ts_snapshot_id st) (ts_snapshot_now st)) w = Some w1 \<Longrightarrow>
      fresh_ids (ts_before_plan st w1)"
  obtains run where "execution w w'" "get_run (pl_orchestration_run_id pl) w' = Some run"
    "rm_policy (r_metadata run) = test_policy s capability agents"
    "r_collection_deadline run = ts_plan_now st + seconds (cf_signal_timeout_seconds s)"
proof -
  obtain w1 where w1: "add_snapshot (test_snapshot (ts_snapshot_id st) (ts_snapshot_now st)) w = Some w1"
    using assms(1) by (auto simp: start_test_run_def split: option.splits)
  let ?w = "ts_before_plan st w1" and ?p = "test_policy s capability agents"
  note fresh = assms(5) [OF w1, unfolded fresh_ids_def]
  have ex: "execution w ?w"
    by (rule converse_rtranclp_into_rtranclp [OF system_step.snapshot [OF w1] assms(2)])
  have valid: "valid_policy ?p"
    and plan: "create_plan collate (ts_plan_now st) (ts_snapshot_id st) asset ''TEST'' ?p
      (Some (PyMap [(PyStr ''test_only'', PyBool True)])) None None None ?w = Inr (pl, w')"
    using assms(1) by (auto simp: start_test_run_def w1 create_test_run_def Let_def split: if_splits sum.splits)
  have step: "system_step ?w w'" using fresh by (intro system_step.plan [OF plan valid]) blast
  have new: "get_run (pl_orchestration_run_id pl) ?w = None" by (rule create_plan_fresh [OF plan conjunct2 [OF fresh]])
  obtain correlation bctx mr mo E where
    E: "E = plan_env_of (ts_plan_now st) (pl_orchestration_run_id pl) correlation None (ts_snapshot_id st) asset ?p bctx mr"
    and runs: "w_runs w' = w_runs ?w @ [new_run E ''TEST'' mo]"
    by (rule create_plan_new [OF plan new], rule that, assumption+)
  show ?thesis
  proof (rule that)
    show "execution w w'" using ex step by (rule rtranclp.rtrancl_into_rtrancl)
    show "get_run (pl_orchestration_run_id pl) w' = Some (new_run E ''TEST'' mo)"
      using new E by (simp add: get_run_def runs row_get_append new_run_def Let_def)
  qed (simp_all add: E new_run_def plan_env_of_def test_policy_def Let_def)
qed

lemma map_sum_Inl: "map_sum id f y = Inl e \<longleftrightarrow> y = Inl e"
  by (cases y) simp_all

section \<open>Properties\<close>

text \<open>C14 The test command ends, and its exit code can be trusted.  From a database that satisfies the invariants,
  with any other processes acting in between: whatever it does is an execution of the system; it is still
  polling only while no round's last clock reading has reached the time of planning plus the signal timeout;
  it never loses its run; and exit code 0 means that at least the requested number of tasks
  of its run for the requested capability have a received signal.\<close>

theorem test_run_outcome:
  fixes collate :: "string \<Rightarrow> rat"
  assumes "run_test collate s send st rounds asset capability agents w = (out, w')"
    and "\<And>w. execution w (ts_before_plan st w)" and "\<And>w. execution w (ts_before_evaluate st w)"
    and "\<And>r w. r \<in> set rounds \<Longrightarrow> execution w (wr_other r w)"
    and "schema_ok w" "signals_assigned w" "decisions_sound w"
    and "\<And>w1. add_snapshot (test_snapshot (ts_snapshot_id st) (ts_snapshot_now st)) w = Some w1 \<Longrightarrow>
      fresh_ids (ts_before_plan st w1)"
  shows "execution w w'
    \<and> (out = None \<longrightarrow> (\<forall>r \<in> set rounds.
            cy_final (wr_cycle r) < ts_plan_now st + seconds (cf_signal_timeout_seconds s)))
    \<and> (\<forall>e. out \<noteq> Some (Inl (EvaluationFailed e)) \<and> out \<noteq> Some (Inl (CycleFailed (EvaluateRaised e))))
    \<and> (\<forall>rid res. out = Some (Inr (rid, res)) \<longrightarrow> test_exit (Inr (rid, res)) = 0 \<longrightarrow>
         agents \<le> length (filter (\<lambda>t. t_orchestration_run_id t = rid \<and> t_required_capability t = capability
           \<and> t_status t = SIGNAL_RECEIVED) (w_tasks w')))"
proof (cases "start_test_run collate s st asset capability agents w")
  case (Pair start w1)
  have ok: "system_ok w" using assms(5,6) by (simp add: system_ok_def)
  show ?thesis
  proof (cases start)
    case (Inl e)
    then have "out = Some (Inl e)" "\<And>x. e \<noteq> EvaluationFailed x \<and> e \<noteq> CycleFailed (EvaluateRaised x)"
      using assms(1) Pair
      by (auto simp: run_test_def start_test_run_def Let_def split: option.splits if_splits sum.splits)
    moreover have "execution w w'"
      using assms(1) Pair Inl start_test_run_refused [OF _ assms(2)] by (simp add: run_test_def)
    ultimately show ?thesis by simp
  next
    case (Inr pl)
    let ?rid = "pl_orchestration_run_id pl" and ?w = "ts_before_evaluate st w1"
    obtain run where run: "execution w w1" "get_run ?rid w1 = Some run"
      "rm_policy (r_metadata run) = test_policy s capability agents"
      "r_collection_deadline run = ts_plan_now st + seconds (cf_signal_timeout_seconds s)"
      by (rule start_test_run_facts [OF Pair [unfolded Inr] assms(2) ok assms(7,8)])
    have ex2: "execution w ?w" using run(1) assms(3) by (rule rtranclp_trans)
    note ok1 = execution_sound_ok [OF run(1) ok assms(7)] and ok2 = execution_sound_ok [OF ex2 ok assms(7)]
    obtain run2 where run2: "get_run ?rid ?w = Some run2" "run_kept run run2"
      using execution_run [OF assms(3) ok1(1) run(2)] by blast
    obtain res w3 where ev: "evaluate (ts_evaluate_now st) ?rid ?w = Inr (res, w3)" using evaluate_total [OF run2(1)] by blast
    have ex3: "execution w w3" using ex2 evaluate_execution [OF ev] by (rule rtranclp_trans)
    note ok3 = execution_sound_ok [OF ex3 ok assms(7)]
    obtain run3 where run3: "get_run ?rid w3 = Some run3" "run_kept run2 run3"
      using execution_run [OF evaluate_execution [OF ev] ok2(1) run2(1)] by blast
    obtain tout where rounds: "test_rounds (service_worker s) send ?rid rounds res w3 = (tout, w')"
      and out: "out = map_option (map_sum id (Pair ?rid)) tout"
      using assms(1) Pair Inr ev by (auto simp: run_test_def Let_def split: prod.splits)
    note facts = test_rounds_facts [OF rounds assms(4) ok3 run3(1) evaluate_answers(1) [OF ev run2(1) ok2(2)]]
    have deadline: "r_collection_deadline run3 = ts_plan_now st + seconds (cf_signal_timeout_seconds s)"
      and policy: "rm_policy (r_metadata run3) = test_policy s capability agents"
      using run_kept_same [OF run2(2)] run_kept_same [OF run3(2)] run(3,4) by simp_all
    show ?thesis
    proof (intro conjI allI impI)
      show "execution w w'" using ex3 facts by (meson rtranclp_trans)
    next
      fix rid res' assume o: "out = Some (Inr (rid, res'))" and zero: "test_exit (Inr (rid, res')) = 0"
      then obtain z where z: "tout = Some z" "map_sum id (Pair ?rid) z = Inr (rid, res')" unfolding out by blast
      then have "rid = ?rid" "tout = Some (Inr res')" by (cases z; simp)+
      then obtain run' where run': "get_run ?rid w' = Some run'" "cr_status res' = r_status run'" using facts by blast
      have ex': "execution w3 w'" using facts by blast
      obtain run4 where run4: "get_run ?rid w' = Some run4" "run_kept run3 run4"
        using execution_run [OF ex' ok3(1) run3(1)] by blast
      then have "rm_policy (r_metadata run') = test_policy s capability agents"
        using run'(1) run_kept_same [OF run4(2)] policy by simp
      then have q: "\<lparr>rq_capability = capability, rq_required = True, rq_critical = False, rq_minimum_responses = agents,
          rq_max_agents = Some agents\<rparr> \<in> set (po_requirements (rm_policy (r_metadata run')))"
        by (simp add: test_policy_def)
      have rep: "reports run'" using zero run'(2) by (auto simp: test_exit_def reports_def split: if_splits)
      have mem: "run' \<in> set (w_runs w')" "r_orchestration_run_id run' = ?rid" using get_run_SomeD [OF run'(1)] by auto
      have "decisions_sound w'" by (rule execution_sound_ok(2) [OF ex' ok3])
      with mem(1) have "decision_sound w' run'" using reports_decided [OF rep] by (simp add: decisions_sound_def)
      then have "quorum_met w' run'" using rep by (simp add: decision_sound_def)
      from this [unfolded quorum_met_def, rule_format, OF q] have "agents \<le> received_for ?rid capability w'"
        by (simp add: mem(2))
      then show "agents \<le> length (filter (\<lambda>t. t_orchestration_run_id t = rid \<and> t_required_capability t = capability
           \<and> t_status t = SIGNAL_RECEIVED) (w_tasks w'))"
        using \<open>rid = ?rid\<close> by (simp add: received_for_eq)
    qed (use facts deadline in \<open>auto simp: out map_sum_Inl\<close>)
  qed
qed

definition sample_readings :: "instant \<Rightarrow> cycle_readings" where
  "sample_readings now =
     \<lparr>cy_expire = now, cy_claim = now, cy_dispatch = (\<lambda>_. (now, now, 0)), cy_reconcile = now, cy_evaluate = (\<lambda>_. now),
      cy_final = now, cy_locked_tasks = [], cy_locked_runs = []\<rparr>"

definition sample_start :: test_start where
  "sample_start =
     \<lparr>ts_snapshot_id = 901, ts_snapshot_now = 0, ts_before_plan = id, ts_plan_now = 0, ts_before_evaluate = id,
      ts_evaluate_now = 1\<rparr>"

theorem test_run_outcome_witness:
  "\<forall>send. \<exists>out. fst (run_test (\<lambda>s. rat_of_nat (length s)) derived_settings send sample_start
     [\<lparr>wr_other = id, wr_cycle = sample_readings (seconds 300)\<rparr>] ''ETH'' ''technical'' 1 registry_world) = Some out
     \<and> (\<forall>e. out \<noteq> Inl (EvaluationFailed e))"
proof
  fix send
  let ?call = "run_test (\<lambda>s. rat_of_nat (length s)) derived_settings send sample_start
     [\<lparr>wr_other = id, wr_cycle = sample_readings (seconds 300)\<rparr>] ''ETH'' ''technical'' 1 registry_world"
  have eq: "?call = (fst ?call, snd ?call)" by simp
  have "fresh_ids (ts_before_plan sample_start w1)"
    if "add_snapshot (test_snapshot (ts_snapshot_id sample_start) (ts_snapshot_now sample_start)) registry_world = Some w1" for w1
    using that by (auto simp: fresh_ids_def fresh_supply_def sample_start_def add_snapshot_def sample_worlds inj_def
        world_defs split: if_splits)
  from test_run_outcome [OF eq _ _ _ _ _ registry_decisions this] registry_ok(1)
  show "\<exists>out. fst ?call = Some out \<and> (\<forall>e. out \<noteq> Inl (EvaluationFailed e))"
    by (auto simp: sample_start_def system_ok_def sample_readings_def derived_settings_def)
qed

text \<open>The worker process is an execution of the system too, and only a dispatch ends it with an exception: it never
  loses a run that it selected.\<close>

lemma worker_rounds_safe:
  assumes "worker_rounds dw n send rs claims w = (out, w')" and "\<And>r w. r \<in> set rs \<Longrightarrow> execution w (wr_other r w)"
    and "system_ok w"
  shows "execution w w' \<and> (\<forall>e. out = Inl e \<longrightarrow> (\<exists>c. e = DispatchRaised c))"
  using assms
proof (induction rs arbitrary: claims w)
  case (Cons r rs)
  let ?w = "wr_other r w"
  have oth: "execution w ?w" using Cons.prems(2) by simp
  have ok: "system_ok ?w" using execution_ok [OF oth Cons.prems(3)] by blast
  obtain it w1 where it: "worker_iteration dw n send (wr_cycle r) ?w = (it, w1)" by fastforce
  have ex1: "execution w w1"
    using rtranclp_trans [OF oth iteration_execution [of ?w dw n send "wr_cycle r"]] it by simp
  show ?case
  proof (cases it)
    case (Inl e)
    then show ?thesis using Cons.prems(1) it ex1 iteration_raises [OF _ ok] by auto
  next
    case (Inr m)
    then have rest: "worker_rounds dw n send rs (claims @ [m]) w1 = (out, w')" using Cons.prems(1) it by simp
    have ok1: "system_ok w1" using execution_ok [OF ex1 Cons.prems(3)] by blast
    from Cons.IH [OF rest _ ok1] Cons.prems(2) have
      "execution w1 w' \<and> (\<forall>e. out = Inl e \<longrightarrow> (\<exists>c. e = DispatchRaised c))" by simp
    then show ?thesis using rtranclp_trans [OF ex1] by blast
  qed
qed auto

theorem worker_run_safe:
  assumes "worker_run dw n send now locked clock rs w = (out, w')" and "\<And>r w. r \<in> set rs \<Longrightarrow> execution w (wr_other r w)"
    and "schema_ok w" "signals_assigned w"
  shows "execution w w' \<and> schema_ok w' \<and> signals_assigned w' \<and> (\<forall>e. out = Inl e \<longrightarrow> (\<exists>c. e = DispatchRaised c))"
proof -
  have ok: "system_ok w" using assms(3,4) by (simp add: system_ok_def)
  obtain rec w1 where rc: "reconcile n now locked clock w = (Inr rec, w1)"
    by (rule reconcile_facts [OF assms(3) signals_assigned_complete [OF assms(4)]])
  have ex: "execution w w1" using reconcile_execution [of w n now locked clock] rc by simp
  have ok1: "system_ok w1" using execution_ok [OF ex ok] by blast
  have "worker_rounds dw n send rs [] w1 = (out, w')" using assms(1) rc by (simp add: worker_run_def)
  from worker_rounds_safe [OF this assms(2) ok1] have
    r: "execution w1 w'" "\<forall>e. out = Inl e \<longrightarrow> (\<exists>c. e = DispatchRaised c)" by blast+
  have "execution w w'" using ex r(1) by (rule rtranclp_trans)
  then show ?thesis using execution_ok ok r(2) by (auto simp: system_ok_def)
qed

theorem worker_run_safe_witness:
  "\<forall>send. schema_ok (snd (worker_run (sample_worker ''w'') 500 send 0 [] (\<lambda>_. 0)
     [\<lparr>wr_other = id, wr_cycle = sample_readings 5\<rparr>] waiting_world))"
proof
  fix send
  let ?call = "worker_run (sample_worker ''w'') 500 send 0 [] (\<lambda>_. 0)
     [\<lparr>wr_other = id, wr_cycle = sample_readings 5\<rparr>] waiting_world"
  have "?call = (fst ?call, snd ?call)" by simp
  from worker_run_safe [OF this] registry_ok(2) show "schema_ok (snd ?call)" by (simp add: system_ok_def)
qed

text \<open>When the policy of the test command is accepted: validated settings are not enough, the signal timeout has
  to reach the whole seconds of the acknowledgement timeout, which no validator of the settings asks for.\<close>

lemma floor_ack: "float_field (1/10) 300 x \<Longrightarrow> \<lfloor>float_value x\<rfloor> \<le> 300"
  by (cases x) (auto simp: float_field_def float_value_def fl_le_def fl_eq_def floor_le_iff)

theorem test_policy_valid_iff:
  assumes "valid_hub_configuration s"
  shows "valid_policy (test_policy s capability agents) \<longleftrightarrow>
     len_between 1 64 capability \<and> 1 \<le> agents \<and> agents \<le> 500
     \<and> max 1 \<lfloor>float_value (cf_ack_timeout_seconds s)\<rfloor> \<le> cf_signal_timeout_seconds s"
proof -
  have "valid_hub_fields s" using assms by (simp add: valid_hub_configuration_def)
  then have "1 \<le> cf_signal_timeout_seconds s" "cf_signal_timeout_seconds s \<le> 86400"
    "float_field (1/10) 300 (cf_ack_timeout_seconds s)"
    unfolding valid_hub_fields_def int_field_def by blast+
  with floor_ack [of "cf_ack_timeout_seconds s"] show ?thesis
    by (auto simp: valid_policy_def test_policy_def valid_requirement_def len_between_def)
qed

theorem test_policy_valid_iff_witness:
  "valid_hub_configuration (derived_settings\<lparr>cf_signal_timeout_seconds := 5\<rparr>)
     \<and> \<not> valid_policy (test_policy (derived_settings\<lparr>cf_signal_timeout_seconds := 5\<rparr>) ''technical'' 1)"
proof -
  have v: "valid_hub_configuration (derived_settings\<lparr>cf_signal_timeout_seconds := 5\<rparr>)" by code_simp
  from test_policy_valid_iff [OF v] v show ?thesis by (simp add: derived_settings_def float_value_def)
qed

end
