(* ===== verification/Commands.thy ===== *)
theory Commands
  imports Processes Analytical Registry
begin

text \<open>
  The command lines of \<open>src/scripts\<close> beside the test run: printing the key of an agent
  (\<open>derive_agent_secret.py\<close>), queueing a test notification (\<open>create_system_test_notification.py\<close>), one
  analysis cycle of all pilot agents on public data (\<open>run_live_pilot_analysis.py\<close>) and the smoke test of
  a running hub (\<open>smoke_test.py\<close>).  Environment variables are a function; the parsing of arguments and
  the printing of results are left out.
\<close>

section \<open>Deriving a key\<close>

datatype derive_error = UsageError string | DerivationFailed crypto_error

text \<open>\<open>choices\<close> of the parser, then the root of the purpose; a missing root is a usage error too.\<close>

definition derive_command ::
    "(string \<Rightarrow> string option) \<Rightarrow> string \<Rightarrow> string \<Rightarrow> string \<Rightarrow> derive_error + string" where
  "derive_command env agent_id purpose key_id =
     (if purpose \<notin> {''hub-ingest'', ''orchestrator-command''} then Inl (UsageError ''invalid choice'')
      else
        let root_name = (if purpose = ''hub-ingest'' then ''TOMIRIS_HUB_AGENT_MASTER_SECRET''
                         else ''TOMIRIS_ORCHESTRATOR_AGENT_MASTER_SECRET'')
        in case env root_name of
             None \<Rightarrow> Inl (UsageError (root_name @ '' is not configured''))
           | Some master \<Rightarrow> map_sum DerivationFailed id (derive_agent_secret master agent_id purpose key_id))"

section \<open>The test notification\<close>

definition test_recipient :: "hub_configuration \<Rightarrow> (string \<Rightarrow> string option) \<Rightarrow> string" where
  "test_recipient s env =
     (case cf_telegram_chat_id s of
        Some chat \<Rightarrow> if chat \<noteq> [] then chat
                     else (case env ''TOMIRIS_TEST_RECIPIENT'' of None \<Rightarrow> ''console'' | Some r \<Rightarrow> r)
      | None \<Rightarrow> (case env ''TOMIRIS_TEST_RECIPIENT'' of None \<Rightarrow> ''console'' | Some r \<Rightarrow> r))"

text \<open>\<open>uuid_text\<close> is \<open>str(UUID)\<close>.\<close>

definition test_notification ::
    "(uuid \<Rightarrow> string) \<Rightarrow> hub_configuration \<Rightarrow> (string \<Rightarrow> string option) \<Rightarrow> uuid \<Rightarrow> uuid \<Rightarrow> instant \<Rightarrow>
     py_datetime notification_event" where
  "test_notification uuid_text s env event_id notification_id now =
     \<lparr>nt_notification_id = notification_id, nt_event_id = event_id, nt_event_type = ''TOMIRIS_SYSTEM_TEST'',
      nt_snapshot_id = None, nt_channel = (if cf_telegram_enabled s then ''telegram'' else ''console''),
      nt_recipient_ref = test_recipient s env,
      nt_payload = PyMap [(PyStr ''text'', PyStr (''TOMIRIS SYSTEM TEST'' @ newline # ''Notification Gateway operational.''))],
      nt_idempotency_key = ''tomiris-system-test:'' @ uuid_text event_id,
      nt_correlation_id = event_id, nt_causation_id = None, nt_created_at = Aware now 0\<rparr>"

text \<open>\<open>None\<close>: the event is refused by its contract, or its row by the primary key.\<close>

definition queue_test_notification ::
    "(uuid \<Rightarrow> string) \<Rightarrow> hub_configuration \<Rightarrow> (string \<Rightarrow> string option) \<Rightarrow> uuid \<Rightarrow> uuid \<Rightarrow> instant \<Rightarrow> world \<Rightarrow>
     (bool \<times> world) option" where
  "queue_test_notification uuid_text s env event_id notification_id now w =
     (case validate_notification (test_notification uuid_text s env event_id notification_id now) of
        None \<Rightarrow> None
      | Some event \<Rightarrow> enqueue_notification event w)"

section \<open>The pilot analysis\<close>

record pilot_readings =
  pv_env :: analysis_env
  pv_task_id :: uuid
  pv_run_id :: uuid
  pv_correlation_id :: uuid

record pilot_agent =
  pg_agent_id :: string
  pg_status :: string
  pg_analytical_bias :: bias
  pg_confidence_strength :: rat
  pg_data_as_of :: "string option"
  pg_role_id :: "string option"
  pg_role_version :: "string option"
  pg_config_version :: "string option"
  pg_reason_codes :: "string list"
  pg_is_trade_decision :: bool

record pilot_report =
  pr_snapshot_id :: uuid
  pr_analysis_as_of :: string
  pr_agents :: "pilot_agent list"
  pr_pilot_cycle :: string
  pr_trade_execution :: string

datatype pilot_error =
    PilotDefinitions loader_error | PilotProvider | PilotLookup | PilotRole registry_error | PilotTask
  | PilotAnalysis feature_error

definition pilot_task :: "agent_definition \<Rightarrow> pilot_readings \<Rightarrow> uuid \<Rightarrow> instant \<Rightarrow> string \<Rightarrow> string \<Rightarrow> py_datetime task_request" where
  "pilot_task d v snapshot_id as_of asset capability =
     \<lparr>tr_protocol_version = ''1.0'', tr_task_id = pv_task_id v, tr_orchestration_run_id = pv_run_id v,
      tr_snapshot_id = snapshot_id, tr_agent_id = ad_agent_id d, tr_asset = asset,
      tr_required_capability = capability, tr_priority = 50, tr_created_at = Aware as_of 0,
      tr_deadline = Aware (as_of + seconds 600) 0, tr_correlation_id = pv_correlation_id v,
      tr_causation_id = None, tr_context = PyMap [(PyStr ''analysis_as_of'', PyStr (isoformat as_of))]\<rparr>"

definition pilot_entry :: "string \<Rightarrow> agent_signal \<Rightarrow> pilot_agent" where
  "pilot_entry agent_id sig =
     \<lparr>pg_agent_id = agent_id, pg_status = ''COMPLETED'', pg_analytical_bias = env_bias sig,
      pg_confidence_strength = rnd64 (of_int (env_confidence sig) / 100),
      pg_data_as_of = map_option isoformat (env_data_as_of sig), pg_role_id = env_role_id sig,
      pg_role_version = env_role_version sig, pg_config_version = env_config_version sig,
      pg_reason_codes = env_risk_flags sig, pg_is_trade_decision = False\<rparr>"

text \<open>The inner \<open>analyze\<close>; the empty lists are the \<open>IndexError\<close> of \<open>[0]\<close>.\<close>

definition pilot_analyze ::
    "(pyval \<Rightarrow> technical_config option) \<Rightarrow> (string \<times> agent_definition) list \<Rightarrow> uuid \<Rightarrow> instant \<Rightarrow>
     (string \<Rightarrow> pilot_readings) \<Rightarrow> string \<Rightarrow> pilot_error + pilot_agent" where
  "pilot_analyze config defs snapshot_id as_of readings agent_id =
     (case map_of defs agent_id of
        None \<Rightarrow> Inl PilotLookup
      | Some d \<Rightarrow>
          (case builtin_build config d of
             Inl e \<Rightarrow> Inl (PilotRole e)
           | Inr role \<Rightarrow>
               (case (ad_supported_assets d, ad_capabilities d) of
                  (asset # _, capability # _) \<Rightarrow>
                    (let v = readings agent_id in
                     case validate_task_request (pilot_task d v snapshot_id as_of asset capability) of
                       None \<Rightarrow> Inl PilotTask
                     | Some task \<Rightarrow>
                         (case snd (analyze_task (pv_env v) \<lparr>ah_role = role, ah_provider_name = provider_name\<rparr> task) of
                            Inl e \<Rightarrow> Inl (PilotAnalysis e)
                          | Inr sig \<Rightarrow> Inr (pilot_entry agent_id sig)))
                | _ \<Rightarrow> Inl PilotLookup)))"

definition pilot_run ::
    "(pyval \<Rightarrow> technical_config option) \<Rightarrow> (string \<Rightarrow> agent_definition option) \<Rightarrow> string list \<Rightarrow> string \<Rightarrow>
     instant \<Rightarrow> uuid \<Rightarrow> (string \<Rightarrow> pilot_readings) \<Rightarrow> nat list \<Rightarrow> pilot_error + pilot_report" where
  "pilot_run config read_yaml files base_url as_of snapshot_id readings completion =
     (case load_definitions (snd (builtin_registry config)) read_yaml files [] of
        Inl e \<Rightarrow> Inl (PilotDefinitions e)
      | Inr defs \<Rightarrow>
          if validate_provider_settings (default_provider_settings\<lparr>ps_base_url := base_url\<rparr>) = None
          then Inl PilotProvider
          else
            let ids = sort (map fst defs) in
            (case gather completion (\<lambda>i. pilot_analyze config defs snapshot_id as_of readings (ids ! i)) (length ids) of
               Inl e \<Rightarrow> Inl e
             | Inr results \<Rightarrow>
                 Inr \<lparr>pr_snapshot_id = snapshot_id, pr_analysis_as_of = isoformat as_of, pr_agents = results,
                   pr_pilot_cycle = (if length results = length defs then ''FULL'' else ''INCOMPLETE''),
                   pr_trade_execution = ''DISABLED''\<rparr>))"

section \<open>The smoke test\<close>

definition smoke_payload :: "uuid \<Rightarrow> uuid \<Rightarrow> uuid \<Rightarrow> instant \<Rightarrow> py_datetime signal_envelope" where
  "smoke_payload snapshot_id message_id agent_run_id now =
     \<lparr>env_protocol_version = ''1.0'', env_message_id = message_id, env_agent_id = ''TEST_AGENT_001'',
      env_agent_run_id = agent_run_id, env_snapshot_id = snapshot_id, env_task_id = None,
      env_orchestration_run_id = None, env_correlation_id = None, env_causation_id = None,
      env_asset = ''TEST'', env_bias = NEUTRAL, env_confidence = 50, env_impact = 0,
      env_time_horizon = ''test'', env_evidence = [], env_risk_flags = [],
      env_data_timestamp = Aware now 0, env_analysis_timestamp = Aware now 0,
      env_signal_ttl_seconds = 60, env_role_id = None, env_role_version = None, env_config_version = None,
      env_feature_pipeline_version = None, env_analysis_schema_version = None, env_data_provider = None,
      env_data_as_of = None, env_confidence_model_version = None, env_metadata = PyMap []\<rparr>"

definition request_of :: "string \<Rightarrow> auth_headers \<Rightarrow> signal_request" where
  "request_of body h =
     \<lparr>hq_method = ''POST'', hq_path = ''/v1/signals'', hq_agent_id = Some (ah_agent_id h),
      hq_timestamp = Some (ah_timestamp h), hq_nonce = Some (ah_nonce h), hq_key_id = Some (ah_key_id h),
      hq_signature = Some (ah_signature h), hq_content_length = Some (int_str (int (length body))), hq_chunks = [body]\<rparr>"

definition wrong_secret :: string where
  "wrong_secret = concat (replicate 8 ''wrong'')"

text \<open>The three requests in order: the valid one, the same again, and one with another nonce signed
  under a wrong secret; the client's library sends their headers and the length of the body.\<close>

definition smoke_requests :: "string \<Rightarrow> string \<Rightarrow> int \<Rightarrow> string \<Rightarrow> int \<Rightarrow> string \<Rightarrow> (string \<times> signal_request) list" where
  "smoke_requests secret body timestamp nonce timestamp2 nonce2 =
     (let headers = build_signed_headers ''TEST_AGENT_001'' ''current'' secret ''POST'' ''/v1/signals'' body timestamp nonce
      in [(''valid'', request_of body headers), (''replay'', request_of body headers),
          (''wrong-secret'', request_of body
             (build_signed_headers ''TEST_AGENT_001'' ''current'' wrong_secret ''POST'' ''/v1/signals'' body
                timestamp2 nonce2))])"

text \<open>The answers of a hub to the three requests, with the readings of its clock for each.\<close>

fun smoke_answers ::
    "hub_settings \<Rightarrow> (string \<Rightarrow> string \<Rightarrow> crypto_error + string option) \<Rightarrow>
     (string \<Rightarrow> py_datetime signal_envelope option) \<Rightarrow> (string \<times> signal_request) list \<Rightarrow>
     (instant \<times> instant \<times> instant) list \<Rightarrow> world \<Rightarrow> (string \<times> signal_response) list \<times> world" where
  "smoke_answers cfg get_secret parse ((label, q) # qs) ((an, inow, rnow) # clocks) w =
     (let (response, w) = ingest_signal cfg get_secret parse True True an inow rnow q w;
          (rest, w) = smoke_answers cfg get_secret parse qs clocks w
      in ((label, response) # rest, w))"
| "smoke_answers cfg get_secret parse _ _ w = ([], w)"

section \<open>Sending one notification\<close>

text \<open>\<open>run_notification_worker.py\<close>: the sender that the settings enable and one step of the worker;
  \<open>None\<close> is the failing assertion.\<close>

definition notification_command ::
    "hub_configuration \<Rightarrow> (string \<Rightarrow> string \<Rightarrow> pyval \<Rightarrow> telegram_reply) \<Rightarrow> instant \<times> instant \<times> instant \<Rightarrow> rat \<Rightarrow>
     uuid list \<Rightarrow> world \<Rightarrow> ((notify_error + bool) \<times> world) option" where
  "notification_command s post readings jitter locked w =
     (if cf_telegram_enabled s then
        (case cf_telegram_bot_token s of
           None \<Rightarrow> None
         | Some token \<Rightarrow>
             Some (process_one (notification_worker_of s) (telegram_send token ''https://api.telegram.org'' post)
               readings jitter locked w))
      else Some (process_one (notification_worker_of s) console_send readings jitter locked w))"

section \<open>An agent runtime and a demonstration agent\<close>

datatype runtime_handler = TestHandler | RoleHandler analytical_handler

record agent_runtime =
  ar_handler :: runtime_handler
  ar_client :: hub_client
  ar_authenticator :: command_authenticator
  ar_store :: task_store

text \<open>\<open>create_agent_runtime_app\<close> without injected collaborators\<close>

definition create_agent_runtime ::
    "(pyval \<Rightarrow> technical_config option) \<Rightarrow> (string \<Rightarrow> agent_definition option) \<Rightarrow> runtime_settings \<Rightarrow>
     build_error + agent_runtime" where
  "create_agent_runtime config read_yaml s =
     (case (if as_mode s = M_TEST then Inr TestHandler
            else map_sum id RoleHandler (build_analytical_handler config read_yaml s)) of
        Inl e \<Rightarrow> Inl e
      | Inr h \<Rightarrow>
          Inr \<lparr>ar_handler = h,
            ar_client = new_hub_client (as_hub_url s) (as_agent_id s) (as_hub_key_id s) (as_hub_agent_secret s),
            ar_authenticator = authenticator_of s, ar_store = new_store 10000\<rparr>)"

text \<open>\<open>agents/test_agent/send_signal.py\<close>\<close>

definition demo_payload :: "uuid \<Rightarrow> uuid \<Rightarrow> uuid \<Rightarrow> instant \<Rightarrow> py_datetime signal_envelope" where
  "demo_payload snapshot_id message_id agent_run_id now =
     (smoke_payload snapshot_id message_id agent_run_id now)
       \<lparr>env_evidence :=
          [\<lparr>ev_evidence_type = ''test'', ev_summary = ''Phase 01 signed integration smoke signal'',
            ev_source_type = ''test'', ev_source_id = ''TEST_AGENT_001'', ev_provider = ''unknown'',
            ev_observed_at = Aware now 0, ev_source_timestamp = Aware now 0, ev_source_fingerprint = None,
            ev_instrument = None, ev_timeframe = None, ev_feature_name = None, ev_feature_version = None,
            ev_observation = None, ev_metadata = PyMap []\<rparr>],
        env_metadata := PyMap [(PyStr ''phase'', PyStr ''01'')]\<rparr>"

text \<open>\<open>None\<close> is the \<open>KeyError\<close> of a missing variable or the \<open>ValueError\<close> of a malformed identifier.\<close>

definition demo_send ::
    "(string \<Rightarrow> string option) \<Rightarrow> (string \<Rightarrow> uuid option) \<Rightarrow> (py_datetime signal_envelope \<Rightarrow> string) \<Rightarrow>
     (string \<Rightarrow> string \<Rightarrow> string \<Rightarrow> auth_headers \<Rightarrow> 'e + int) \<Rightarrow> int \<Rightarrow> string \<Rightarrow> uuid \<Rightarrow> uuid \<Rightarrow> instant \<Rightarrow>
     ('e + int) option" where
  "demo_send env parse_uuid dump_json post timestamp nonce message_id agent_run_id now =
     (case (case env ''TOMIRIS_TEST_SNAPSHOT_ID'' of None \<Rightarrow> None | Some text \<Rightarrow> parse_uuid text) of
        None \<Rightarrow> None
      | Some snapshot_id \<Rightarrow>
          (case (env ''TOMIRIS_HUB_INGEST_KEY_ID'', env ''TOMIRIS_HUB_INGEST_SECRET'') of
             (Some key_id, Some secret) \<Rightarrow>
               let cl = new_hub_client
                     (case env ''TOMIRIS_HUB_URL'' of None \<Rightarrow> ''http://127.0.0.1:8000'' | Some url \<Rightarrow> url)
                     ''TEST_AGENT_001'' key_id secret;
                   body = dump_json (demo_payload snapshot_id message_id agent_run_id now)
               in Some (post (hc_base_url cl) ''/v1/signals'' body
                    (build_signed_headers (hc_agent_id cl) (hc_key_id cl) (hc_secret cl) ''POST'' ''/v1/signals'' body
                       timestamp nonce))
           | _ \<Rightarrow> None))"

section \<open>Keys\<close>

text \<open>The key that the command prints for an agent is the key that the hub checks its signals against, and that the
  orchestrator signs its commands with, when all are configured with the same roots and key identifiers.\<close>

theorem derived_key_agrees:
  assumes "cf_agent_auth_mode s = Auth_Derived"
    and "env ''TOMIRIS_HUB_AGENT_MASTER_SECRET'' = cf_agent_master_secret s"
    and "env ''TOMIRIS_ORCHESTRATOR_AGENT_MASTER_SECRET'' = cf_orchestrator_master_secret s"
  shows "(derive_command env agent ''hub-ingest'' (cf_ingest_key_id s) = Inr key
       \<longleftrightarrow> (\<exists>get. hub_secret_provider s = Some get \<and> get agent (cf_ingest_key_id s) = Inr (Some key)))
     \<and> (derive_command env agent ''orchestrator-command'' (cf_command_key_id s) = Inr key
       \<longleftrightarrow> (\<exists>p. command_secret_provider s = Some p \<and> derived_get_secret p agent (cf_command_key_id s) = Inr (Some key)))"
proof -
  have some: "map_sum f Some x = Inr (Some key) \<longleftrightarrow> x = Inr key" "map_sum g id x = Inr key \<longleftrightarrow> x = Inr key"
    for x :: "crypto_error + string" and f :: "crypto_error \<Rightarrow> crypto_error" and g :: "crypto_error \<Rightarrow> derive_error"
    by (cases x; auto)+
  have "derive_command env agent ''hub-ingest'' (cf_ingest_key_id s) = Inr key
       \<longleftrightarrow> (\<exists>get. hub_secret_provider s = Some get \<and> get agent (cf_ingest_key_id s) = Inr (Some key))"
    using assms(1,2)
    by (cases "cf_agent_master_secret s")
      (auto simp: derive_command_def hub_secret_provider_def derived_get_secret_def some)
  moreover have "derive_command env agent ''orchestrator-command'' (cf_command_key_id s) = Inr key
       \<longleftrightarrow> (\<exists>p. command_secret_provider s = Some p \<and> derived_get_secret p agent (cf_command_key_id s) = Inr (Some key))"
    using assms(3)
    by (cases "cf_orchestrator_master_secret s")
      (auto simp: derive_command_def command_secret_provider_def derived_get_secret_def some)
  ultimately show ?thesis by blast
qed

section \<open>The notification\<close>

text \<open>With a recipient of at most 256 characters and a fresh event the test notification is queued, ready to be sent
  at once on the channel that the settings enable.\<close>

theorem test_notification_queued:
  assumes "len_between 1 256 (test_recipient s env)" and "length (uuid_text event_id) = 36"
    and "''tomiris-system-test:'' @ uuid_text event_id \<notin> ob_idempotency_key ` set (w_outbox w)"
    and "notification_id \<notin> ob_notification_id ` set (w_outbox w)"
  shows "\<exists>row. queue_test_notification uuid_text s env event_id notification_id now w
       = Some (True, w\<lparr>w_outbox := w_outbox w @ [row]\<rparr>)
     \<and> deliverable now row \<and> ob_recipient_ref row = test_recipient s env
     \<and> ob_channel row = (if cf_telegram_enabled s then ''telegram'' else ''console'')"
proof -
  let ?n = "test_notification uuid_text s env event_id notification_id now"
  have payload: "bounded_dict notification_limits (nt_payload ?n)"
    by (simp add: test_notification_def bounded_dict_def notification_limits_def walk.simps validate_bounded_json_def)
  have fields: "nt_created_at ?n = Aware now 0" "len_between 1 64 (nt_event_type ?n)" "len_between 1 32 (nt_channel ?n)"
    "len_between 1 256 (nt_recipient_ref ?n)" "len_between 1 256 (nt_idempotency_key ?n)"
    using assms(1,2) by (simp_all add: test_notification_def len_between_def)
  obtain e where e: "validate_notification ?n = Some e" "nt_created_at e = now" "nt_notification_id e = notification_id"
    "nt_idempotency_key e = ''tomiris-system-test:'' @ uuid_text event_id" "nt_recipient_ref e = test_recipient s env"
    "nt_channel e = (if cf_telegram_enabled s then ''telegram'' else ''console'')"
    using payload fields by (simp add: validate_notification_def require_utc_def) (simp add: test_notification_def)
  then show ?thesis
    using assms(3,4) unfolding queue_test_notification_def
    by (intro exI [of _ "outbox_row_of e"]) (simp add: enqueue_notification_def outbox_row_of_def deliverable_def)
qed

section \<open>The pilot\<close>

lemma load_definitions_keys:
  assumes "load_definitions reg read_yaml files acc = Inr defs" and "distinct (map fst acc)"
  shows "distinct (map fst defs)"
  using assms
proof (induction files arbitrary: acc)
  case (Cons f fs)
  then show ?case by (auto split: sum.splits if_splits simp: distinct_dict_set)
qed simp

lemma pilot_analyze_Inr:
  assumes "pilot_analyze config defs snapshot_id as_of readings k = Inr a"
  shows "\<exists>d role task sig. map_of defs k = Some d \<and> builtin_build config d = Inr role
    \<and> tr_created_at task = as_of \<and> tr_snapshot_id task = snapshot_id \<and> tr_agent_id task = ad_agent_id d
    \<and> snd (analyze_task (pv_env (readings k)) \<lparr>ah_role = role, ah_provider_name = provider_name\<rparr> task) = Inr sig
    \<and> a = pilot_entry k sig"
proof -
  obtain d where d: "map_of defs k = Some d" using assms by (auto simp: pilot_analyze_def split: option.splits)
  obtain role where role: "builtin_build config d = Inr role"
    using assms d by (auto simp: pilot_analyze_def split: sum.splits)
  obtain asset as capability cs where lists: "ad_supported_assets d = asset # as" "ad_capabilities d = capability # cs"
    using assms d role by (auto simp: pilot_analyze_def split: list.splits)
  obtain task where task: "validate_task_request (pilot_task d (readings k) snapshot_id as_of asset capability) = Some task"
    using assms d role lists by (auto simp: pilot_analyze_def Let_def split: option.splits)
  have "tr_created_at task = as_of" "tr_snapshot_id task = snapshot_id" "tr_agent_id task = ad_agent_id d"
    using task by (auto simp: validate_task_request_def pilot_task_def require_utc_def split: if_splits)
  moreover obtain sig where "a = pilot_entry k sig"
    "snd (analyze_task (pv_env (readings k)) \<lparr>ah_role = role, ah_provider_name = provider_name\<rparr> task) = Inr sig"
    using assms d role lists task by (auto simp: pilot_analyze_def Let_def split: sum.splits)
  ultimately show ?thesis using d role by blast
qed

text \<open>What a report of the pilot says: one completed entry per definition, in the order of the agents' names, each
  with the signal that the agent's analysis of this snapshot gave; nothing in it is a trade decision.  The
  cycle is always FULL: the answer INCOMPLETE cannot occur, because an analysis that fails ends the command.\<close>

theorem pilot_reports:
  assumes "pilot_run config read_yaml files base_url as_of snapshot_id readings completion = Inr r"
    and "{..<length (pr_agents r)} \<subseteq> set completion"
  shows "\<exists>defs. load_definitions (snd (builtin_registry config)) read_yaml files [] = Inr defs
     \<and> map pg_agent_id (pr_agents r) = sort (map fst defs) \<and> pr_pilot_cycle r = ''FULL''
     \<and> (\<forall>a \<in> set (pr_agents r). pg_status a = ''COMPLETED'' \<and> \<not> pg_is_trade_decision a
          \<and> (\<exists>d role task sig. map_of defs (pg_agent_id a) = Some d \<and> builtin_build config d = Inr role
               \<and> tr_created_at task = as_of \<and> tr_snapshot_id task = snapshot_id \<and> tr_agent_id task = ad_agent_id d
               \<and> snd (analyze_task (pv_env (readings (pg_agent_id a)))
                    \<lparr>ah_role = role, ah_provider_name = provider_name\<rparr> task) = Inr sig
               \<and> a = pilot_entry (pg_agent_id a) sig))"
proof -
  obtain defs where defs: "load_definitions (snd (builtin_registry config)) read_yaml files [] = Inr defs"
    using assms(1) by (auto simp: pilot_run_def split: sum.splits)
  let ?ids = "sort (map fst defs)"
  let ?f = "\<lambda>i. pilot_analyze config defs snapshot_id as_of readings (?ids ! i)"
  obtain results where g: "gather completion ?f (length ?ids) = Inr results"
    and r: "pr_agents r = results" "pr_pilot_cycle r = (if length results = length defs then ''FULL'' else ''INCOMPLETE'')"
    using assms(1) defs by (auto simp: pilot_run_def Let_def split: sum.splits if_splits)
  have len0: "length results = length ?ids" using g by (auto simp: gather_def split: list.splits)
  then have "{..<length ?ids} \<subseteq> set completion" using assms(2) r(1) by simp
  from gather_Inr [OF g this] have len: "length results = length ?ids"
    and res: "\<And>i. i < length ?ids \<Longrightarrow> ?f i = Inr (results ! i)" by blast+
  have id: "pg_agent_id (results ! i) = ?ids ! i" if "i < length ?ids" for i
    using pilot_analyze_Inr [OF res [OF that]] by (auto simp: pilot_entry_def)
  have "map pg_agent_id results = ?ids" by (rule nth_equalityI) (use len id in simp_all)
  moreover have "pg_status a = ''COMPLETED'' \<and> \<not> pg_is_trade_decision a
          \<and> (\<exists>d role task sig. map_of defs (pg_agent_id a) = Some d \<and> builtin_build config d = Inr role
               \<and> tr_created_at task = as_of \<and> tr_snapshot_id task = snapshot_id \<and> tr_agent_id task = ad_agent_id d
               \<and> snd (analyze_task (pv_env (readings (pg_agent_id a)))
                    \<lparr>ah_role = role, ah_provider_name = provider_name\<rparr> task) = Inr sig
               \<and> a = pilot_entry (pg_agent_id a) sig)" if "a \<in> set results" for a
  proof -
    from that len obtain i where i: "i < length ?ids" "a = results ! i" by (auto simp: in_set_conv_nth)
    from pilot_analyze_Inr [OF res [OF i(1)]] id [OF i(1)] i(2) show ?thesis
      by (auto simp: pilot_entry_def)
  qed
  ultimately show ?thesis using defs r len by simp
qed

section \<open>The smoke test against a hub\<close>

lemma py_int_length:
  assumes "n < 10 ^ 20"
  shows "py_int (int_str (int n)) = Some (int n)"
proof -
  have digits: "list_all is_digit (nat_str n)" "nat_str n \<noteq> []" using nat_str_digits by blast+
  have grouped: "list_all is_digit ds \<Longrightarrow> ds \<noteq> [] \<Longrightarrow> grouped_digits ds" for ds
    by (induction ds rule: grouped_digits.induct) (auto simp: is_digit_def)
  have blank: "dropWhile is_blank ds = ds" if "list_all is_digit ds" for ds
    using that by (cases ds) (auto simp: is_blank_def is_digit_def)
  have "strip (nat_str n) = nat_str n" using blank digits(1) by (simp add: strip_def list_all_iff)
  moreover have "sign_split (nat_str n) = (False, nat_str n)"
    using digits by (cases "nat_str n") (auto simp: sign_split_def is_digit_def)
  moreover have "length (nat_str n) \<le> 20" using nat_str_length [of n 19] assms by simp
  moreover have "filter is_digit (nat_str n) = nat_str n" using digits(1) by (simp add: list_all_iff)
  ultimately show ?thesis
    using digits grouped by (simp add: py_int_def int_str_def nat_str_value)
qed

lemma smoke_body:
  assumes "length body \<le> hs_max_signal_request_bytes cfg" and "length body < 10 ^ 20"
  shows "read_limited_body ''REQUEST_TOO_LARGE'' (hs_max_signal_request_bytes cfg)
    (hq_content_length (request_of body h)) (hq_chunks (request_of body h)) = Inr body"
  using assms by (simp add: read_limited_body_def request_of_def py_int_length Let_def guard_def)

lemma smoke_auth: "auth_of (request_of body h) = Some h"
  by (simp add: auth_of_def request_of_def)

definition smoke_canonical :: "string \<Rightarrow> int \<Rightarrow> string \<Rightarrow> string" where
  "smoke_canonical body timestamp nonce =
     canonical_request ''POST'' ''/v1/signals'' ''TEST_AGENT_001'' (int_str timestamp) nonce ''current'' (body_sha256 body)"

text \<open>Signed with another secret: refused, whatever the database holds.\<close>

lemma wrong_secret_refused:
  assumes "length body \<le> hs_max_signal_request_bytes cfg" and "length body < 10 ^ 20"
    and "get_secret ''TEST_AGENT_001'' ''current'' = Inr (Some secret)" and "nonce_pattern nonce"
    and "from_timestamp timestamp = Some t" and "0 \<le> hs_auth_max_clock_skew_seconds cfg"
    and "hs_auth_max_clock_skew_seconds cfg \<le> 2 ^ 32"
    and "\<bar>an - t\<bar> \<le> seconds (hs_auth_max_clock_skew_seconds cfg)"
    and "sign_hmac wrong_secret (smoke_canonical body timestamp nonce) \<noteq> sign_hmac secret (smoke_canonical body timestamp nonce)"
    and "ingest_signal cfg get_secret parse True True an inow rnow (request_of body
      (build_signed_headers ''TEST_AGENT_001'' ''current'' wrong_secret ''POST'' ''/v1/signals'' body timestamp nonce)) w
      = (response, w')"
  shows "\<exists>rq. response = RejectedResponse 401 ''INVALID_SIGNATURE'' rq"
proof -
  let ?h = "build_signed_headers ''TEST_AGENT_001'' ''current'' wrong_secret ''POST'' ''/v1/signals'' body timestamp nonce"
  let ?skew = "hs_auth_max_clock_skew_seconds cfg"
  have skew: "an - t \<le> seconds ?skew" "- seconds ?skew \<le> an - t" using assms(8) by simp_all
  have wf: "well_formed_headers ?h" "from_timestamp (int_of_text (ah_timestamp ?h)) = Some t"
  proof -
    have "\<bar>timestamp\<bar> < 10 ^ 20" using assms(5) by (auto simp: from_timestamp_def split: if_splits)
    then show "well_formed_headers ?h" "from_timestamp (int_of_text (ah_timestamp ?h)) = Some t"
      using assms(4,5)
      by (simp_all add: build_signed_headers_def Let_def well_formed_headers_def int_str_pattern int_str_value
          sign_shape agent_id_pattern_def key_id_pattern_def is_upper_def is_lower_def is_digit_def)
  qed
  have ids: "ah_agent_id ?h = ''TEST_AGENT_001''" "ah_key_id ?h = ''current''"
    by (simp_all add: build_signed_headers_def Let_def)
  have "hub_verify get_secret an ?skew ''POST'' ''/v1/signals'' ?h body = Inl (HubError ''INVALID_SIGNATURE'' 401)"
  proof -
    have s: "\<bar>?skew\<bar> \<le> 2 ^ 32" using assms(6,7) by simp
    have sig: "ah_signature ?h = sign_hmac wrong_secret (smoke_canonical body timestamp nonce)"
      "canonical_request ''POST'' ''/v1/signals'' ''TEST_AGENT_001'' (ah_timestamp ?h) (ah_nonce ?h) ''current'' (body_sha256 body)
        = smoke_canonical body timestamp nonce"
      by (simp_all add: build_signed_headers_def Let_def smoke_canonical_def)
    show ?thesis
      using wf skew assms(3,9) skew_iff [OF s, of "an - t"]
      by (simp add: hub_verify_def well_formed_headers_def guard_def Let_def sig ids sign_equals not_less)
  qed
  then have "take_signal cfg get_secret parse True an inow rq (request_of body ?h) v
      = Inl (Some body, HubError ''INVALID_SIGNATURE'' 401)" for rq v
    unfolding take_signal_def smoke_body [OF assms(1,2)] smoke_auth sum.case option.case
    by (simp add: request_of_def)
  then show ?thesis using assms(10) by (auto simp: ingest_signal_def split_beta)
qed

lemma accepted_request:
  assumes "ingest_signal cfg get_secret parse db_up audit_up an inow rnow q w = (Accepted202 rq m, w')" and "auth_of q = Some a"
  shows "\<exists>e body. env_agent_id e = ah_agent_id a
    \<and> ingest inow (hs_max_signal_ttl_seconds cfg) e (ah_nonce a) body rq (snd (uuid4 w)) = Inr w'"
proof -
  obtain b e body where "auth_of q = Some b" "env_agent_id e = ah_agent_id b"
    "ingest inow (hs_max_signal_ttl_seconds cfg) e (ah_nonce b) body rq (snd (uuid4 w)) = Inr w'"
    by (rule accepted_intake [OF assms(1)])
  with assms(2) show ?thesis by auto
qed

text \<open>The smoke test of a hub whose provider knows the secret, with clocks that agree within the allowed skew: the
  valid request is accepted exactly when its signal is admissible; once it was accepted, the replay is not;
  and the request signed under the wrong secret is answered 401, unless the two keys sign its canonical text alike.\<close>

theorem smoke_test_answers:
  assumes "smoke_answers cfg get_secret parse (smoke_requests secret body ts nonce ts2 nonce2)
       [(an, inow, rnow), (an2, inow2, rnow2), (an3, inow3, rnow3)] w = ([(l1, a1), (l2, a2), (l3, a3)], w')"
    and "system_ok w" and "parse body = Some (smoke_payload snapshot_id message_id agent_run_id made)"
    and "validate_signal (smoke_payload snapshot_id message_id agent_run_id made) = Some e"
    and "length body \<le> hs_max_signal_request_bytes cfg" and "length body < 10 ^ 20"
    and "get_secret ''TEST_AGENT_001'' ''current'' = Inr (Some secret)"
    and "0 \<le> hs_auth_max_clock_skew_seconds cfg" and "hs_auth_max_clock_skew_seconds cfg \<le> 2 ^ 32"
    and "nonce_pattern nonce" and "from_timestamp ts = Some t"
    and "\<bar>an - t\<bar> \<le> seconds (hs_auth_max_clock_skew_seconds cfg)"
    and "nonce_pattern nonce2" and "from_timestamp ts2 = Some t2"
    and "\<bar>an3 - t2\<bar> \<le> seconds (hs_auth_max_clock_skew_seconds cfg)"
    and "sign_hmac wrong_secret (smoke_canonical body ts2 nonce2) \<noteq> sign_hmac secret (smoke_canonical body ts2 nonce2)"
  shows "((\<exists>rq. a1 = Accepted202 rq message_id) \<longleftrightarrow> admissible inow (hs_max_signal_ttl_seconds cfg) e nonce w)
    \<and> (\<forall>rq rq2 m. a1 = Accepted202 rq message_id \<longrightarrow> a2 \<noteq> Accepted202 rq2 m)
    \<and> (\<exists>rq. a3 = RejectedResponse 401 ''INVALID_SIGNATURE'' rq)"
proof -
  let ?h = "build_signed_headers ''TEST_AGENT_001'' ''current'' secret ''POST'' ''/v1/signals'' body ts nonce"
  let ?q = "request_of body ?h" and ?skew = "hs_auth_max_clock_skew_seconds cfg"
  obtain w1 w2 where
    first: "ingest_signal cfg get_secret parse True True an inow rnow ?q w = (a1, w1)"
    and second: "ingest_signal cfg get_secret parse True True an2 inow2 rnow2 ?q w1 = (a2, w2)"
    and third: "ingest_signal cfg get_secret parse True True an3 inow3 rnow3 (request_of body
      (build_signed_headers ''TEST_AGENT_001'' ''current'' wrong_secret ''POST'' ''/v1/signals'' body ts2 nonce2)) w2 = (a3, w')"
    using assms(1) by (auto simp: smoke_requests_def Let_def split: prod.splits)
  have fields: "env_agent_id e = ''TEST_AGENT_001''" "env_message_id e = message_id"
    using assms(4) by (auto simp: validate_signal_def smoke_payload_def require_utc_def Let_def split: if_splits)
  have ids: "ah_agent_id ?h = ''TEST_AGENT_001''" "ah_nonce ?h = nonce"
    by (simp_all add: build_signed_headers_def Let_def)
  have verified: "hub_verify get_secret an ?skew ''POST'' ''/v1/signals'' ?h body = Inr t"
  proof (rule signed_headers_verify)
    show "nonce_pattern nonce" "from_timestamp ts = Some t" "0 \<le> ?skew" "?skew \<le> 2 ^ 32"
      "get_secret ''TEST_AGENT_001'' ''current'' = Inr (Some secret)" by (fact assms)+
  qed (use assms(12) in \<open>simp_all add: agent_id_pattern_def key_id_pattern_def is_upper_def is_lower_def is_digit_def\<close>)
  have take: "take_signal cfg get_secret parse True an inow rq ?q v =
      (case ingest inow (hs_max_signal_ttl_seconds cfg) e nonce body rq v of Inl err \<Rightarrow> Inl (Some body, err) | Inr v \<Rightarrow> Inr (e, v))"
    for rq v
    unfolding take_signal_def smoke_body [OF assms(5,6)] smoke_auth sum.case option.case
    using verified assms(3,4) by (simp add: request_of_def fields ids)
  have ok1: "system_ok (snd (uuid4 w))" and complete: "signals_complete (snd (uuid4 w))"
    using quiet_ok(1) [OF uuid4_step] assms(2) signals_assigned_complete by (auto simp: system_ok_def)
  have "(\<exists>rq. a1 = Accepted202 rq message_id) \<longleftrightarrow>
      (\<exists>v. ingest inow (hs_max_signal_ttl_seconds cfg) e nonce body (fst (uuid4 w)) (snd (uuid4 w)) = Inr v)"
    using first fields by (auto simp: ingest_signal_def split_beta take split: sum.splits hub_error.splits if_splits)
  also have "\<dots> \<longleftrightarrow> admissible inow (hs_max_signal_ttl_seconds cfg) e nonce (snd (uuid4 w))"
    using ingest_iff(1) admissible_acceptable [OF validate_signal_valid [OF assms(4)] complete] by blast
  also have "\<dots> \<longleftrightarrow> admissible inow (hs_max_signal_ttl_seconds cfg) e nonce w"
    by (simp add: admissible_def uuid4_def get_agent_def get_snapshot_def get_signal_def get_task_def)
  finally have one: "(\<exists>rq. a1 = Accepted202 rq message_id) \<longleftrightarrow> admissible inow (hs_max_signal_ttl_seconds cfg) e nonce w" .
  have two: "a2 \<noteq> Accepted202 rq2 m" if a1: "a1 = Accepted202 rq message_id" for rq rq2 m
  proof
    assume a2: "a2 = Accepted202 rq2 m"
    from accepted_request [OF first [unfolded a1] smoke_auth] obtain x1 b1 where i1: "env_agent_id x1 = ah_agent_id ?h"
      "ingest inow (hs_max_signal_ttl_seconds cfg) x1 (ah_nonce ?h) b1 rq (snd (uuid4 w)) = Inr w1" by blast
    from accepted_request [OF second [unfolded a2] smoke_auth] obtain x2 b2 where i2: "env_agent_id x2 = ah_agent_id ?h"
      "ingest inow2 (hs_max_signal_ttl_seconds cfg) x2 (ah_nonce ?h) b2 rq2 (snd (uuid4 w1)) = Inr w2" by blast
    have kept: "set (w_nonces w1) \<subseteq> set (w_nonces (snd (uuid4 w1)))" "set (w_signals w1) \<subseteq> set (w_signals (snd (uuid4 w1)))"
      by (simp_all add: uuid4_def)
    from ingest_once [OF i1(2) kept] i1(1) i2 show False by (metis Inl_Inr_False)
  qed
  show ?thesis
    using one two wrong_secret_refused [OF assms(5,6,7,13,14,8,9,15,16) third] by blast
qed

section \<open>A deployment\<close>

text \<open>Every validated hub configuration in derived mode and an agent runtime that was given the key which
  \<open>derive_agent_secret.py\<close> prints belong together: what the client of the runtime signs, the hub
  verifies.\<close>

theorem deployed_agent_authenticates:
  assumes "valid_hub_configuration s" and "cf_agent_auth_mode s = Auth_Derived"
    and "env ''TOMIRIS_HUB_AGENT_MASTER_SECRET'' = cf_agent_master_secret s"
    and "create_agent_runtime config read_yaml rs = Inr rt" and "as_hub_key_id rs = cf_ingest_key_id s"
    and "derive_command env (as_agent_id rs) ''hub-ingest'' (as_hub_key_id rs) = Inr (as_hub_agent_secret rs)"
    and "agent_id_pattern (as_agent_id rs)" and "key_id_pattern (as_hub_key_id rs)" and "nonce_pattern nonce"
    and "from_timestamp timestamp = Some t" and "\<bar>now - t\<bar> \<le> seconds (cf_auth_max_clock_skew_seconds s)"
  shows "\<exists>get. hub_secret_provider s = Some get
     \<and> hub_verify get now (cf_auth_max_clock_skew_seconds s) ''POST'' ''/v1/signals''
         (build_signed_headers (hc_agent_id (ar_client rt)) (hc_key_id (ar_client rt)) (hc_secret (ar_client rt))
            ''POST'' ''/v1/signals'' body timestamp nonce) body = Inr t"
proof -
  define env' where "env' = env(''TOMIRIS_ORCHESTRATOR_AGENT_MASTER_SECRET'' := cf_orchestrator_master_secret s)"
  have same: "derive_command env' a ''hub-ingest'' k = derive_command env a ''hub-ingest'' k" for a k
    by (simp add: derive_command_def env'_def)
  have e: "env' ''TOMIRIS_HUB_AGENT_MASTER_SECRET'' = cf_agent_master_secret s"
    "env' ''TOMIRIS_ORCHESTRATOR_AGENT_MASTER_SECRET'' = cf_orchestrator_master_secret s"
    using assms(3) by (simp_all add: env'_def)
  obtain get where get: "hub_secret_provider s = Some get"
    "get (as_agent_id rs) (as_hub_key_id rs) = Inr (Some (as_hub_agent_secret rs))"
    using derived_key_agrees [OF assms(2) e, of "as_agent_id rs" "as_hub_agent_secret rs"] assms(5,6) same by auto
  have client: "hc_agent_id (ar_client rt) = as_agent_id rs" "hc_key_id (ar_client rt) = as_hub_key_id rs"
    "hc_secret (ar_client rt) = as_hub_agent_secret rs"
    using assms(4) by (auto simp: create_agent_runtime_def new_hub_client_def split: sum.splits if_splits)
  have skew: "0 \<le> cf_auth_max_clock_skew_seconds s" "cf_auth_max_clock_skew_seconds s \<le> 2 ^ 32"
    using assms(1) by (simp_all add: valid_hub_configuration_def valid_hub_fields_def int_field_def)
  have "hub_verify get now (cf_auth_max_clock_skew_seconds s) ''POST'' ''/v1/signals''
         (build_signed_headers (as_agent_id rs) (as_hub_key_id rs) (as_hub_agent_secret rs)
            ''POST'' ''/v1/signals'' body timestamp nonce) body = Inr t"
    using assms(11) by (intro signed_headers_verify) (use assms get skew in simp_all)
  then show ?thesis using get(1) client by simp
qed

end
