(* ===== verification/Spec2Isabelle.thy ===== *)
theory Spec2Isabelle
  imports Prelude Bounded_Json Dispatch_Client Backoff System Notifications Agent_Runtime Engine Analytical Hub_Config
    Migrations Stored_Rows Reported_Quorum Races Processes Commands
begin

text \<open>
  Tomiris is a distributed market-analysis program in Python.  An orchestrator plans a run over a
  market snapshot, dispatches signed tasks to registered agents, collects their signals through a
  hub and decides whether the quorum of the run's policy was met.  An agent is a web service that
  accepts a task, analyses exchange data (or answers with a test signal) and posts a signed signal
  to the hub.  All durable state is one PostgreSQL database, written by short transactions.

  \<^bold>\<open>How the model reads.\<close>  A table is a list of records, a row type per class of
  \<open>src/tomiris_hub/database/models.py\<close>; a committed transaction is one function on the record
  \<open>world\<close>; exceptions are the left side of a sum or \<open>None\<close>.  Readings of the clock, random
  numbers, the rows locked by other transactions, and collaborators that are not under \<open>src/\<close>
  (HTTP transport, name resolution, JSON and YAML codecs, the logarithm, the formatting of floats)
  are arguments.  Texts and bytes are lists of characters below 256, instants are microseconds
  since the epoch, integers are unbounded as in Python, floats are binary64 values (finite ones as
  rationals with explicit rounding in \<open>Binary64\<close>, all of them in \<open>Float64\<close>), 32 bit words
  appear in SHA-256 and addresses.  The tables of special networks are those of CPython 3.12.8 and later
  releases of 3.12.

  \<^bold>\<open>Granularity.\<close>  A transaction is taken as one step where the code locks the rows it changes before it
  reads them (claims, results, expiry, evaluation, intake, probes, outbox; the run of an acknowledged
  task, which is not locked, becomes COLLECTING whatever its status was).  Recovery does not: it locks
  the runs and reads their tasks without a lock.  \<open>Races\<close> therefore has its statements as separate steps, and
  shows what holds all the same: the schema, the assignment of signals and the memory of nonces and
  signals.  The lock on a run keeps the insertion of a signal for it waiting, by the foreign key of
  \<open>signals\<close> on \<open>orchestration_runs\<close>; it does not keep a worker from recording a result, which the
  recovery may then overwrite.  The constraints of \<open>schema_ok\<close> are the declared ones but for the
  primary keys of audit events and nonces.

  \<^bold>\<open>Theories and sources.\<close>
  \<^item> \<open>Prelude\<close>: error results, texts, Python dictionaries, tables as keyed lists with the locale
    \<open>row_table\<close>; \<open>Texts\<close>, \<open>Urls\<close>: what the source uses of \<open>str\<close>, \<open>int()\<close>, \<open>urllib.parse\<close> and
    \<open>ipaddress\<close>; \<open>Binary64\<close>, \<open>Float64\<close>: rounding, comparison and sums.
  \<^item> \<open>Bounded_Json\<close> (\<open>tomiris_common/validation.py\<close>), \<open>Contracts\<close> (\<open>tomiris_core_contracts\<close>).
  \<^item> \<open>Database\<close>, \<open>Task_Lifecycle\<close> (\<open>tomiris_hub/database/models.py\<close>, \<open>audit.py\<close>, \<open>metrics.py\<close>):
    rows, constraints, the state machine of a task and what one orchestration step may change.
  \<^item> \<open>Sql\<close>, \<open>Declared_Schema\<close>, \<open>Migrations\<close>, \<open>Stored_Rows\<close> (\<open>src/migrations\<close>, \<open>models.py\<close>): tables
    with columns, constraints and rows; the schema operations of the migrations as PostgreSQL documents
    them; the migrated schema is the declared one, downgrades undo upgrades, and the constraints of the
    declared schema are the invariant \<open>schema_ok\<close> that the rest of the development keeps.
  \<^item> \<open>Planner\<close>, \<open>Dispatch\<close>, \<open>Dispatch_Client\<close>, \<open>Backoff\<close>, \<open>Quorum\<close>, \<open>Recovery\<close>, \<open>Health\<close>,
    \<open>Endpoint_Security\<close> with \<open>Public_Addresses\<close> (\<open>tomiris_orchestrator\<close>): planning a run, claiming
    and sending tasks with leases, retries and circuit breakers, the quorum decision, repair after
    crashes, probing agents, and which endpoints may be contacted at all.
  \<^item> \<open>Crypto\<close>, \<open>Auth\<close> (\<open>tomiris_common/crypto.py\<close>, \<open>authentication.py\<close>, \<open>security.py\<close>): SHA-256, HMAC,
    key derivation, both authenticators; \<open>Agent_Sdk\<close> (\<open>tomiris_agent_sdk\<close>): the signing side.
  \<^item> \<open>Ingestion\<close>, \<open>Hub_Api\<close>, \<open>Hub_Config\<close>, \<open>Registry\<close> (\<open>tomiris_hub\<close>): intake of signals, its endpoint,
    the settings with what is built from them, and the registry of agents.
  \<^item> \<open>Notifications\<close> (\<open>tomiris_notifications\<close>): the outbox, its worker, the senders, log redaction.
  \<^item> \<open>Agent_Runtime\<close>, \<open>Analytical\<close> (\<open>tomiris_agent_runtime\<close>): the agent's endpoints and replay store, and
    the handler that turns a task into a signal.
  \<^item> \<open>Market_Data\<close>, \<open>Exchange_Client\<close>, \<open>Binance\<close> (\<open>tomiris_market_data\<close>); \<open>Features\<close>
    (\<open>tomiris_features\<close>); \<open>Roles\<close>, \<open>Technical\<close>, \<open>Engine\<close> (\<open>tomiris_agent_roles\<close>): collecting data
    through a quality gate, indicators in binary64, and the scoring engine.
  \<^item> \<open>System\<close>: all transactions as one step relation, and the invariants of its executions;
    \<open>Races\<close>: the transaction of \<open>recovery.py\<close> statement by statement, with the locks it holds and
    what commits in between; \<open>Reported_Quorum\<close>: what the status of a run means in every database an execution reaches.
  \<^item> \<open>Processes\<close> (\<open>worker.py\<close>, \<open>src/scripts/run_test_orchestration.py\<close>): the loop of the worker and the
    command that runs one test orchestration to its end, over the list of their rounds, with other
    processes acting in between; \<open>Commands\<close> (the other files of \<open>src/scripts\<close>, \<open>src/agents\<close>): keys, test
    notification, pilot analysis, smoke test, and the wiring of an agent runtime.
  \<^item> \<open>Samples\<close>, \<open>Role_Samples\<close>: concrete data for witnesses.

  \<^bold>\<open>What the lemmas show.\<close>  Component theories characterise each operation on every branch
  (\<open>\<dots>_iff\<close>, \<open>\<dots>_inv\<close>, \<open>\<dots>_facts\<close> lemmas) and show that it keeps the schema and moves tasks along
  the edges of \<open>task_edge\<close> (\<open>orch_step\<close>).  Locales state the interfaces: \<open>row_table\<close> (tables,
  \<open>Prelude\<close>), \<open>retry_backoff\<close> (\<open>Backoff\<close>), \<open>secret_provider\<close> (\<open>Crypto\<close>), \<open>dispatch_transport\<close>
  (\<open>Dispatch_Client\<close>), \<open>keyed_cache\<close> (\<open>Market_Data\<close>), \<open>notification_sender\<close> (\<open>Notifications\<close>) and
  \<open>role_source\<close> (\<open>Roles\<close>); each is interpreted on the model's definitions.
  \<open>System\<close> composes the components: every execution keeps the schema and the assignment of signals to tasks, loses nothing stored and
  accepts no signal twice; \<open>Races\<close> has the same of every interleaving with open recoveries, the
  monotonicity of the status of a task where no update is lost, and an interleaving that loses one.
  \<open>Reported_Quorum\<close> adds
  that a decided run keeps its completion time and reports FULL or DEGRADED only with its quorum;
  \<open>Processes\<close> shows that every process is such an execution, that the test command ends by its
  deadline and that its exit code 0 means the requested signals were received; \<open>Commands\<close> relates the
  smoke test, the printed keys and a deployed agent to the hub.

  \<^bold>\<open>Termination and bounds.\<close>  Every loop of the source is a structural recursion here: over
  the rows of a batch, the chunks of a body, the bars of a series, or the attempts that the settings
  permit; the recursion over attempts takes their number as fuel, which \<open>request_bounded\<close> shows
  to be what the code does.  The endless loops of the worker and of the test command run over the
  list of their rounds; a list that ends first stands for a loop that is still running, and the
  theorem on the test command says until when that can be.  No definition needs other fuel.

  \<^bold>\<open>Not modelled.\<close>  The web framework, the HTTP library, the database engine below the level of
  transactions (but for the locks that \<open>Races\<close> needs), the parsing of JSON and YAML, logging, sleeping and signal handling of the processes,
  command-line parsing and printing, deployment files and tests.
\<close>

end
